(* ===== verification/Fau_Prelude.thy ===== *)
theory Fau_Prelude
  imports Main "HOL-Library.Code_Target_Nat" "HOL-Library.List_Lexorder" "HOL-Library.Product_Lexorder" "HOL-Library.Sublist"
    "HOL-Library.Multiset"
begin

text \<open>
  Shared vocabulary of the development: strings as lists of code points, panics as
  \<open>None\<close>, and the parts of Rust's \<open>core\<close>/\<open>alloc\<close> the program uses (\<open>split\<close>, \<open>join\<close>,
  \<open>windows\<close>, \<open>position\<close>, \<open>trim\<close>, the stable \<open>sort_by\<close>, \<open>dedup_by\<close>), each with the lemmas
  the component theories apply.
\<close>

named_theorems code_defs \<open>unfolding rules for evaluating the model on concrete inputs\<close>
named_theorems step_defs \<open>definitions of single operations on a state\<close>

section \<open>Strings\<close>

text \<open>A \<open>str\<close> is the list of its Unicode scalar values, what \<open>chars()\<close> yields. Code point
  order is the order of \<open>str\<close>'s \<open>Ord\<close> (UTF-8 preserves it).\<close>

type_synonym str = "nat list"

definition lit :: "string \<Rightarrow> str" where
  "lit s = map of_char s"

lemma lit_inject [simp]: "lit a = lit b \<longleftrightarrow> a = b"
  by (simp add: lit_def inj_map_eq_map inj_on_def)

lemma lit_Nil [simp]: "lit [] = []"
  by (simp add: lit_def)

lemma lit_eq_Nil [simp]: "lit a = [] \<longleftrightarrow> a = []" "[] = lit a \<longleftrightarrow> a = []"
  by (auto simp: lit_def)

lemma length_lit [simp]: "length (lit a) = length a"
  by (simp add: lit_def)

lemma lit_append: "lit (a @ b) = lit a @ lit b"
  by (simp add: lit_def)

lemma prefix_lit [simp]: "prefix (lit a) (lit b) \<longleftrightarrow> prefix a b"
  by (induction a b rule: list_induct2') (auto simp: lit_def)

text \<open>The number of UTF-8 bytes, what \<open>str::len\<close> returns.\<close>

definition utf8_width :: "nat \<Rightarrow> nat" where
  "utf8_width c = (if c < 128 then 1 else if c < 2048 then 2 else if c < 65536 then 3 else 4)"

definition str_len :: "str \<Rightarrow> nat" where
  "str_len s = sum_list (map utf8_width s)"

lemma utf8_width_pos: "0 < utf8_width c"
  by (simp add: utf8_width_def)

lemma str_len_append [simp]: "str_len (a @ b) = str_len a + str_len b"
  by (simp add: str_len_def)

lemma str_len_ascii: "\<forall>c\<in>set s. c < 128 \<Longrightarrow> str_len s = length s"
  by (induction s) (auto simp: str_len_def utf8_width_def)

lemma length_le_str_len: "length s \<le> str_len s"
  by (induction s) (auto simp: str_len_def utf8_width_def)

definition is_ascii_digit :: "nat \<Rightarrow> bool" where
  "is_ascii_digit c = (48 \<le> c \<and> c \<le> 57)"

definition is_ascii_lower :: "nat \<Rightarrow> bool" where
  "is_ascii_lower c = (97 \<le> c \<and> c \<le> 122)"

definition is_ascii_upper :: "nat \<Rightarrow> bool" where
  "is_ascii_upper c = (65 \<le> c \<and> c \<le> 90)"

definition is_ascii_alnum :: "nat \<Rightarrow> bool" where
  "is_ascii_alnum c = (is_ascii_digit c \<or> is_ascii_lower c \<or> is_ascii_upper c)"

definition to_ascii_lower :: "nat \<Rightarrow> nat" where
  "to_ascii_lower c = (if is_ascii_upper c then c + 32 else c)"

lemmas ascii_defs = is_ascii_digit_def is_ascii_lower_def is_ascii_upper_def is_ascii_alnum_def

text \<open>\<open>char::is_whitespace\<close> (Unicode \<open>White_Space\<close>) and \<open>char::is_control\<close> (general category
  \<open>Cc\<close>): both are short fixed lists in the standard.\<close>

definition is_whitespace :: "nat \<Rightarrow> bool" where
  "is_whitespace c = (9 \<le> c \<and> c \<le> 13 \<or> c \<in> {32, 133, 160, 5760} \<or> 8192 \<le> c \<and> c \<le> 8202
     \<or> c \<in> {8232, 8233, 8239, 8287, 12288})"

definition is_control :: "nat \<Rightarrow> bool" where
  "is_control c = (c < 32 \<or> 127 \<le> c \<and> c < 160)"

definition trim_start :: "str \<Rightarrow> str" where
  "trim_start = dropWhile is_whitespace"

definition trim_end :: "str \<Rightarrow> str" where
  "trim_end s = rev (dropWhile is_whitespace (rev s))"

definition trim :: "str \<Rightarrow> str" where
  "trim s = trim_end (trim_start s)"

lemma rev_dropWhile_idem:
  "x = rev (dropWhile P (rev y)) \<Longrightarrow> rev (dropWhile P (rev x)) = x"
  by simp

lemma trim_last: "trim s \<noteq> [] \<Longrightarrow> \<not> is_whitespace (last (trim s))"
  unfolding trim_def trim_end_def
  by (metis hd_dropWhile last_rev rev_is_Nil_conv)

lemma trim_end_prefix: "prefix (trim_end s) s"
proof -
  have "suffix (dropWhile is_whitespace (rev s)) (rev s)"
    by (rule suffix_dropWhile)
  then show ?thesis
    by (simp add: trim_end_def suffix_to_prefix)
qed

lemma trim_hd:
  assumes "trim s \<noteq> []"
  shows "\<not> is_whitespace (hd (trim s))"
proof -
  obtain zs where zs: "trim_start s = trim s @ zs"
    using trim_end_prefix [of "trim_start s"] by (auto simp: trim_def prefix_def)
  with assms have "hd (trim s) = hd (trim_start s)" and "trim_start s \<noteq> []"
    by auto
  then show ?thesis
    using hd_dropWhile [of is_whitespace s] by (simp add: trim_start_def)
qed

lemma trim_fix:
  assumes "s = [] \<or> \<not> is_whitespace (hd s) \<and> \<not> is_whitespace (last s)"
  shows "trim s = s"
proof (cases "s = []")
  case True
  then show ?thesis by (simp add: trim_def trim_start_def trim_end_def)
next
  case False
  with assms have h: "\<not> is_whitespace (hd s)" "\<not> is_whitespace (hd (rev s))" "rev s \<noteq> []"
    by (auto simp: hd_rev)
  have keep: "dropWhile is_whitespace t = t" if "\<not> is_whitespace (hd t)" "t \<noteq> []" for t
    using that by (cases t) auto
  from h False have "dropWhile is_whitespace s = s" "dropWhile is_whitespace (rev s) = rev s"
    by (simp_all add: keep)
  then show ?thesis
    by (simp add: trim_def trim_start_def trim_end_def)
qed

lemma trim_idem [simp]: "trim (trim s) = trim s"
  using trim_hd [of s] trim_last [of s] by (intro trim_fix) auto

lemma set_trim: "set (trim s) \<subseteq> set s"
  unfolding trim_def trim_end_def trim_start_def
  by (metis set_dropWhileD set_rev subsetI)

section \<open>Splitting, joining, searching\<close>

text \<open>\<open>str::split\<close> with a predicate: one piece more than there are separators, empty ones
  kept.\<close>

fun split_by :: "('a \<Rightarrow> bool) \<Rightarrow> 'a list \<Rightarrow> 'a list list" where
  "split_by P [] = [[]]"
| "split_by P (x # xs) =
     (if P x then [] # split_by P xs
      else (case split_by P xs of [] \<Rightarrow> [[x]] | w # ws \<Rightarrow> (x # w) # ws))"

lemma split_by_not_Nil [simp]: "split_by P xs \<noteq> []"
  by (cases xs) (auto split: list.splits)

lemma split_by_pieces: "w \<in> set (split_by P xs) \<Longrightarrow> x \<in> set w \<Longrightarrow> \<not> P x \<and> x \<in> set xs"
  by (induction xs arbitrary: w) (auto split: list.splits if_splits, (metis list.set_intros set_ConsD)+)

lemma split_by_no_sep: "\<forall>x\<in>set xs. \<not> P x \<Longrightarrow> split_by P xs = [xs]"
  by (induction xs) auto

lemma split_by_append_sep:
  "\<forall>x\<in>set xs. \<not> P x \<Longrightarrow> P s \<Longrightarrow> split_by P (xs @ s # ys) = xs # split_by P ys"
  by (induction xs) auto

definition split_ws :: "str \<Rightarrow> str list" where
  \<comment> \<open>\<open>split_whitespace\<close>: the empty pieces are dropped.\<close>
  "split_ws s = filter (\<lambda>w. w \<noteq> []) (split_by is_whitespace s)"

fun join :: "'a list \<Rightarrow> 'a list list \<Rightarrow> 'a list" where
  "join sep [] = []"
| "join sep [w] = w"
| "join sep (w # v # ws) = w @ sep @ join sep (v # ws)"

lemma set_join: "set (join sep ws) \<subseteq> set sep \<union> \<Union> (set ` set ws)"
  by (induction sep ws rule: join.induct) auto

lemma split_join:
  assumes "P s" "\<forall>w\<in>set ws. \<forall>x\<in>set w. \<not> P x" "ws \<noteq> []"
  shows "split_by P (join [s] ws) = ws"
  using assms(2,3)
proof (induction "[s]" ws rule: join.induct)
  case (3 w v ws)
  with \<open>P s\<close> show ?case by (simp add: split_by_append_sep)
qed (auto simp: split_by_no_sep)

lemma join_inject:
  assumes "P s" "\<forall>w\<in>set ws \<union> set vs. \<forall>x\<in>set w. \<not> P x" "ws \<noteq> []" "vs \<noteq> []"
    and "join [s] ws = join [s] vs"
  shows "ws = vs"
  using split_join [of P s ws] split_join [of P s vs] assms by auto

definition windows :: "nat \<Rightarrow> 'a list \<Rightarrow> 'a list list" where
  "windows n xs = map (\<lambda>i. take n (drop i xs)) [0..<length xs + 1 - n]"

fun position :: "('a \<Rightarrow> bool) \<Rightarrow> 'a list \<Rightarrow> nat option" where
  "position P [] = None"
| "position P (x # xs) = (if P x then Some 0 else map_option Suc (position P xs))"

lemma position_Some:
  "position P xs = Some i \<Longrightarrow> i < length xs \<and> P (xs ! i) \<and> (\<forall>j<i. \<not> P (xs ! j))"
proof (induction xs arbitrary: i)
  case (Cons x xs)
  then show ?case
    by (cases i) (auto split: if_splits simp: less_Suc_eq_0_disj)
qed simp

lemma position_None: "position P xs = None \<longleftrightarrow> (\<forall>x\<in>set xs. \<not> P x)"
  by (induction xs) auto

definition rposition :: "('a \<Rightarrow> bool) \<Rightarrow> 'a list \<Rightarrow> nat option" where
  "rposition P xs = map_option (\<lambda>i. length xs - Suc i) (position P (rev xs))"

lemma rposition_Some:
  assumes "rposition P xs = Some i"
  shows "i < length xs \<and> P (xs ! i) \<and> (\<forall>j<length xs. i < j \<longrightarrow> \<not> P (xs ! j))"
proof -
  from assms obtain k where k: "position P (rev xs) = Some k" and i: "i = length xs - Suc k"
    by (auto simp: rposition_def)
  from position_Some [OF k] have kl: "k < length xs" and Pk: "P (rev xs ! k)"
    and before: "\<forall>j<k. \<not> P (rev xs ! j)" by auto
  from kl i have "i < length xs" "P (xs ! i)" using Pk by (auto simp: rev_nth)
  moreover have "\<not> P (xs ! j)" if "j < length xs" "i < j" for j
  proof -
    have "length xs - Suc j < k" using that i kl by simp
    with before have "\<not> P (rev xs ! (length xs - Suc j))" by blast
    with that show ?thesis by (simp add: rev_nth)
  qed
  ultimately show ?thesis by blast
qed

lemma rposition_None: "rposition P xs = None \<longleftrightarrow> (\<forall>x\<in>set xs. \<not> P x)"
  by (simp add: rposition_def position_None)

text \<open>\<open>str::rsplit_once\<close> on one character.\<close>

definition rsplit_once :: "'a \<Rightarrow> 'a list \<Rightarrow> ('a list \<times> 'a list) option" where
  "rsplit_once c xs = map_option (\<lambda>i. (take i xs, drop (Suc i) xs)) (rposition (\<lambda>x. x = c) xs)"

lemma rsplit_once_Some:
  assumes "rsplit_once c xs = Some (a, b)"
  shows "xs = a @ c # b \<and> c \<notin> set b"
proof -
  from assms obtain i where i: "rposition (\<lambda>x. x = c) xs = Some i" and ab: "a = take i xs" "b = drop (Suc i) xs"
    by (auto simp: rsplit_once_def)
  from rposition_Some [OF i] have il: "i < length xs" and "xs ! i = c"
    and after: "\<forall>j<length xs. i < j \<longrightarrow> xs ! j \<noteq> c" by auto
  then have "xs = a @ c # b"
    using id_take_nth_drop [of i xs] by (simp add: ab)
  moreover have "c \<notin> set b"
    using after by (auto simp: ab in_set_conv_nth)
  ultimately show ?thesis by blast
qed

lemma rsplit_once_append:
  assumes "c \<notin> set b"
  shows "rsplit_once c (a @ c # b) = Some (a, b)"
proof -
  have "position (\<lambda>x. x = c) (rev b @ c # rev a) = Some (length b)" for a
    using assms
  proof (induction b rule: rev_induct)
    case (snoc x xs)
    then show ?case by auto
  qed simp
  then show ?thesis
    by (simp add: rsplit_once_def rposition_def)
qed

text \<open>\<open>str::split_once\<close> on one character.\<close>

definition split_once :: "'a \<Rightarrow> 'a list \<Rightarrow> ('a list \<times> 'a list) option" where
  "split_once c xs = map_option (\<lambda>i. (take i xs, drop (Suc i) xs)) (position (\<lambda>x. x = c) xs)"

lemma position_append_first:
  "c \<notin> set a \<Longrightarrow> position (\<lambda>x. x = c) (a @ c # b) = Some (length a)"
  by (induction a) auto

lemma split_once_append:
  assumes "c \<notin> set a"
  shows "split_once c (a @ c # b) = Some (a, b)"
  using assms by (simp add: split_once_def position_append_first)

lemma split_once_Some:
  assumes "split_once c xs = Some (a, b)"
  shows "xs = a @ c # b \<and> c \<notin> set a"
proof -
  from assms obtain i where i: "position (\<lambda>x. x = c) xs = Some i" and ab: "a = take i xs" "b = drop (Suc i) xs"
    by (auto simp: split_once_def)
  from position_Some [OF i] have "i < length xs" "xs ! i = c" "\<forall>j<i. xs ! j \<noteq> c" by auto
  then show ?thesis
    using id_take_nth_drop [of i xs] by (auto simp: ab in_set_conv_nth)
qed

section \<open>Decimal numbers\<close>

fun show_nat :: "nat \<Rightarrow> str" where
  "show_nat n = (if n < 10 then [48 + n] else show_nat (n div 10) @ [48 + n mod 10])"

declare show_nat.simps [simp del]

lemma show_nat_digits: "c \<in> set (show_nat n) \<Longrightarrow> is_ascii_digit c"
proof (induction n rule: show_nat.induct)
  case (1 n)
  show ?case
  proof (cases "n < 10")
    case True
    with 1 show ?thesis by (simp add: show_nat.simps [of n] is_ascii_digit_def)
  next
    case False
    with 1 show ?thesis
      by (auto simp: show_nat.simps [of n] is_ascii_digit_def)
  qed
qed

lemma show_nat_not_Nil [simp]: "show_nat n \<noteq> []"
  by (subst show_nat.simps) simp

definition read_nat :: "str \<Rightarrow> nat" where
  "read_nat s = foldl (\<lambda>n c. 10 * n + (c - 48)) 0 s"

lemma read_show_nat [simp]: "read_nat (show_nat n) = n"
proof (induction n rule: show_nat.induct)
  case (1 n)
  then show ?case
    by (cases "n < 10") (auto simp: show_nat.simps [of n] read_nat_def)
qed

lemma show_nat_inject [simp]: "show_nat a = show_nat b \<longleftrightarrow> a = b"
  by (metis read_show_nat)

lemma length_show_nat_le: "n < 10 ^ k \<Longrightarrow> 0 < k \<Longrightarrow> length (show_nat n) \<le> k"
proof (induction k arbitrary: n)
  case (Suc k)
  show ?case
  proof (cases "n < 10")
    case True
    then show ?thesis by (simp add: show_nat.simps [of n])
  next
    case False
    then have "0 < k" using Suc.prems by (cases k) auto
    moreover have "n div 10 < 10 ^ k" using Suc.prems by (auto simp: less_mult_imp_div_less mult.commute)
    ultimately have "length (show_nat (n div 10)) \<le> k" by (rule Suc.IH [rotated])
    with False show ?thesis by (simp add: show_nat.simps [of n])
  qed
qed simp

section \<open>Loops that may panic\<close>

text \<open>A panic is \<open>None\<close>. \<open>foldM\<close> is a \<open>for\<close> loop over an explicit state.\<close>

fun foldM :: "('s \<Rightarrow> 'a \<Rightarrow> 's option) \<Rightarrow> 's \<Rightarrow> 'a list \<Rightarrow> 's option" where
  "foldM f s [] = Some s"
| "foldM f s (x # xs) = (case f s x of None \<Rightarrow> None | Some s' \<Rightarrow> foldM f s' xs)"

lemma foldM_inv:
  assumes "foldM f s xs = Some t" "P s"
    and "\<And>s x s'. P s \<Longrightarrow> x \<in> set xs \<Longrightarrow> f s x = Some s' \<Longrightarrow> P s'"
  shows "P t"
  using assms
proof (induction xs arbitrary: s)
  case (Cons x xs)
  from Cons.prems(1) obtain s' where s': "f s x = Some s'" and t: "foldM f s' xs = Some t"
    by (auto split: option.splits)
  have "P s'"
    by (rule Cons.prems(3) [OF Cons.prems(2) _ s']) simp
  show ?case
    by (rule Cons.IH [OF t \<open>P s'\<close>]) (erule Cons.prems(3); simp)
qed simp

lemma foldM_total:
  assumes "P s" "\<And>s x. P s \<Longrightarrow> x \<in> set xs \<Longrightarrow> \<exists>s'. f s x = Some s' \<and> P s'"
  shows "\<exists>t. foldM f s xs = Some t \<and> P t"
  using assms
proof (induction xs arbitrary: s)
  case (Cons x xs)
  obtain s' where s': "f s x = Some s'" "P s'"
    using Cons.prems(2) [OF Cons.prems(1), of x] by auto
  have "\<exists>t. foldM f s' xs = Some t \<and> P t"
    by (rule Cons.IH [OF s'(2)]) (simp add: Cons.prems(2))
  with s'(1) show ?case by simp
qed simp

lemma foldM_append:
  "foldM f s (xs @ ys) = (case foldM f s xs of None \<Rightarrow> None | Some t \<Rightarrow> foldM f t ys)"
  by (induction xs arbitrary: s) (auto split: option.splits)

section \<open>Rust's stable sort and dedup\<close>

fun insert_by :: "('a \<Rightarrow> 'a \<Rightarrow> bool) \<Rightarrow> 'a \<Rightarrow> 'a list \<Rightarrow> 'a list" where
  "insert_by le x [] = [x]"
| "insert_by le x (y # ys) = (if le x y then x # y # ys else y # insert_by le x ys)"

fun sort_by :: "('a \<Rightarrow> 'a \<Rightarrow> bool) \<Rightarrow> 'a list \<Rightarrow> 'a list" where
  "sort_by le [] = []"
| "sort_by le (x # xs) = insert_by le x (sort_by le xs)"

lemma mset_insert_by [simp]: "mset (insert_by le x xs) = add_mset x (mset xs)"
  by (induction xs) auto

lemma mset_sort_by [simp]: "mset (sort_by le xs) = mset xs"
  by (induction xs) auto

lemma set_insert_by [simp]: "set (insert_by le x xs) = insert x (set xs)"
  by (induction xs) auto

lemma set_sort_by [simp]: "set (sort_by le xs) = set xs"
  by (induction xs) auto

lemma length_sort_by [simp]: "length (sort_by le xs) = length xs"
  by (metis mset_sort_by size_mset)

lemma distinct_map_sort_by [simp]: "distinct (map f (sort_by le xs)) = distinct (map f xs)"
  by (metis mset_eq_imp_distinct_iff mset_map mset_sort_by)

lemma distinct_sort_by [simp]: "distinct (sort_by le xs) = distinct xs"
  by (metis mset_eq_imp_distinct_iff mset_sort_by)

lemma sorted_wrt_insert_by:
  assumes "\<And>a b. le a b \<or> le b a" "\<And>a b c. le a b \<Longrightarrow> le b c \<Longrightarrow> le a c"
  shows "sorted_wrt le xs \<Longrightarrow> sorted_wrt le (insert_by le x xs)"
proof (induction xs)
  case (Cons y ys)
  then show ?case using assms by auto
qed simp

lemma sorted_wrt_sort_by:
  assumes "\<And>a b. le a b \<or> le b a" "\<And>a b c. le a b \<Longrightarrow> le b c \<Longrightarrow> le a c"
  shows "sorted_wrt le (sort_by le xs)"
proof (induction xs)
  case (Cons x xs)
  from sorted_wrt_insert_by [OF assms this] show ?case by simp
qed simp

lemma sorted_sort_by_key: "sorted (map k (sort_by (\<lambda>a b. k a \<le> k b) xs))"
  using sorted_wrt_sort_by [of "\<lambda>a b. k a \<le> k b" xs]
  by (simp add: sorted_wrt_map) (meson linear order.trans)

text \<open>Two sorted arrangements of the same elements agree when ties are equalities.\<close>

lemma sorted_wrt_unique:
  assumes "sorted_wrt le xs" "sorted_wrt le ys" "mset xs = mset ys"
    and "\<And>a b. a \<in> set xs \<Longrightarrow> b \<in> set xs \<Longrightarrow> le a b \<Longrightarrow> le b a \<Longrightarrow> a = b"
  shows "xs = ys"
  using assms
proof (induction xs arbitrary: ys)
  case (Cons x xs)
  then obtain y ys' where ys: "ys = y # ys'" by (cases ys) auto
  have sets: "set (x # xs) = set ys" using Cons.prems(3) by (rule mset_eq_setD)
  have "x = y"
  proof (rule ccontr)
    assume ne: "x \<noteq> y"
    with sets ys have "x \<in> set ys'" "y \<in> set xs" by auto
    with Cons.prems(1,2) ys have "le x y" "le y x" by auto
    with Cons.prems(4) [of x y] \<open>y \<in> set xs\<close> ne show False by auto
  qed
  with Cons.prems ys Cons.IH [of ys'] show ?case by auto
qed simp

lemma sort_by_key_perm:
  fixes k :: "'a \<Rightarrow> 'k :: linorder"
  assumes "mset xs = mset ys" "distinct (map k xs)"
  shows "sort_by (\<lambda>a b. k a \<le> k b) xs = sort_by (\<lambda>a b. k a \<le> k b) ys"
proof -
  let ?s = "sort_by (\<lambda>a b. k a \<le> k b)"
  have sets: "set (?s xs) = set (?s ys)"
    using assms(1) by (metis set_sort_by set_mset_mset)
  have inj: "inj_on k (set (?s xs) \<union> set (?s ys))"
    using assms sets by (simp add: distinct_map)
  have "map k (?s xs) = map k (?s ys)"
  proof (rule sorted_distinct_set_unique)
    show "distinct (map k (?s ys))"
      using assms by (metis distinct_map_sort_by mset_eq_imp_distinct_iff mset_map)
    show "set (map k (?s xs)) = set (map k (?s ys))" using sets by simp
  qed (use assms in \<open>auto simp: sorted_sort_by_key\<close>)
  then show ?thesis
    using inj by (simp add: inj_on_map_eq_map)
qed

text \<open>\<open>Vec::dedup_by\<close> on a key: of consecutive elements with one key, the first is kept.\<close>

fun dedup_key :: "('a \<Rightarrow> 'k) \<Rightarrow> 'a list \<Rightarrow> 'a list" where
  "dedup_key k [] = []"
| "dedup_key k [x] = [x]"
| "dedup_key k (x # y # xs) = (if k x = k y then dedup_key k (x # xs) else x # dedup_key k (y # xs))"

lemma set_dedup_key: "set (dedup_key k xs) \<subseteq> set xs"
  by (induction k xs rule: dedup_key.induct) auto

lemma keys_dedup_key: "k ` set (dedup_key k xs) = k ` set xs"
  by (induction k xs rule: dedup_key.induct) auto

lemma dedup_key_Nil [simp]: "dedup_key k xs = [] \<longleftrightarrow> xs = []"
  by (induction k xs rule: dedup_key.induct) auto

lemma dedup_key_distinct: "distinct (map k xs) \<Longrightarrow> dedup_key k xs = xs"
  by (induction k xs rule: dedup_key.induct) auto

lemma sorted_distinct_dedup_key:
  fixes k :: "'a \<Rightarrow> 'k :: linorder"
  shows "sorted (map k xs) \<Longrightarrow>
    sorted (map k (dedup_key k xs)) \<and> distinct (map k (dedup_key k xs))"
proof (induction k xs rule: dedup_key.induct)
  case (3 k x y xs)
  show ?case
  proof (cases "k x = k y")
    case True
    with 3 show ?thesis by simp
  next
    case False
    then have less: "k x < k z" if "z \<in> set (y # xs)" for z
      using 3 that by (fastforce simp: order.strict_iff_order)
    then have "k x < k z" if "z \<in> set (dedup_key k (y # xs))" for z
      using that set_dedup_key [of k "y # xs"] by blast
    with False 3 show ?thesis by (force simp: less_imp_le)
  qed
qed auto

section \<open>Results\<close>

type_synonym ('e, 'a) result = "'e + 'a"

definition ok_opt :: "('e, 'a) result \<Rightarrow> 'a option" where
  "ok_opt r = (case r of Inl _ \<Rightarrow> None | Inr a \<Rightarrow> Some a)"

lemma ok_opt_simps [simp]: "ok_opt (Inl e) = None" "ok_opt (Inr a) = Some a"
  by (simp_all add: ok_opt_def)

lemma ok_opt_eq_Some [simp]: "ok_opt r = Some a \<longleftrightarrow> r = Inr a"
  by (cases r) auto

definition unwrap_or :: "'a option \<Rightarrow> 'a \<Rightarrow> 'a" where
  "unwrap_or x d = (case x of None \<Rightarrow> d | Some a \<Rightarrow> a)"

lemma unwrap_or_simps [simp]: "unwrap_or None d = d" "unwrap_or (Some a) d = a"
  by (simp_all add: unwrap_or_def)

definition opt_filter :: "('a \<Rightarrow> bool) \<Rightarrow> 'a option \<Rightarrow> 'a option" where
  "opt_filter P x = (case x of None \<Rightarrow> None | Some a \<Rightarrow> if P a then Some a else None)"

lemma opt_filter_eq_Some [simp]: "opt_filter P x = Some a \<longleftrightarrow> x = Some a \<and> P a"
  by (cases x) (auto simp: opt_filter_def)

lemma find_SomeD: "List.find P xs = Some x \<Longrightarrow> P x \<and> x \<in> set xs"
  by (induction xs) (auto split: if_splits)

lemma find_NoneD: "List.find P xs = None \<Longrightarrow> x \<in> set xs \<Longrightarrow> \<not> P x"
  by (induction xs) (auto split: if_splits)

end
