(* ===== verification/Unicode_Text.thy ===== *)
theory Unicode_Text
  imports Fau_Prelude
begin

text \<open>
  \<open>register/text.rs\<close>: the Latin folding shared by slugs and search. The Unicode tables
  (\<open>unicode_normalization\<close>'s NFC, NFKD and combining marks, and the standard library's case
  and alphabet tables) are the parameter \<open>ucd\<close>; everything the code itself decides is
  spelled out.
\<close>

record ucd =
  nfc :: "str \<Rightarrow> str"
  nfkd :: "str \<Rightarrow> str"
  is_combining_mark :: "nat \<Rightarrow> bool"
  to_lowercase :: "str \<Rightarrow> str"
  char_uppercase :: "nat \<Rightarrow> str"
  is_alphanumeric :: "nat \<Rightarrow> bool"
  is_lowercase :: "nat \<Rightarrow> bool"

datatype letters = Transliterate | Lossy

text \<open>The letter table of \<open>latin_fold\<close>, in the order of the match arms.\<close>

definition fold_letter :: "letters \<Rightarrow> nat \<Rightarrow> str" where
  "fold_letter l c =
     (if c \<in> {230, 228} \<and> l = Transliterate then lit ''ae''
      else if c \<in> {248, 246} \<and> l = Transliterate then lit ''oe''
      else if c = 229 \<and> l = Transliterate then lit ''aa''
      else if c \<in> {230, 228, 229} \<and> l = Lossy then lit ''a''
      else if c \<in> {248, 246} \<and> l = Lossy then lit ''o''
      else if c = 273 then lit ''d''
      else if c = 331 then lit ''n''
      else if c = 359 then lit ''t''
      else if c = 223 then lit ''ss''
      else [c])"

definition latin_fold :: "ucd \<Rightarrow> str \<Rightarrow> letters \<Rightarrow> str" where
  "latin_fold u input l =
     (let lower = to_lowercase u (nfc u input);
          mapped = concat (map (fold_letter l) lower)
      in filter (\<lambda>c. \<not> is_combining_mark u c) (nfkd u mapped))"

definition is_apostrophe :: "nat \<Rightarrow> bool" where
  "is_apostrophe c = (c \<in> {39, 8217, 700, 96})"

definition is_slug_char :: "nat \<Rightarrow> bool" where
  "is_slug_char c = (is_ascii_lower c \<or> is_ascii_digit c)"

text \<open>The loop of \<open>collapse\<close>: the output so far and the pending gap.\<close>

fun collapse_go :: "nat \<Rightarrow> str \<Rightarrow> bool \<Rightarrow> str \<Rightarrow> str" where
  "collapse_go sep out gap [] = out"
| "collapse_go sep out gap (c0 # cs) =
     (if is_apostrophe c0 then collapse_go sep out gap cs
      else let c = to_ascii_lower c0 in
        if is_ascii_lower c \<or> is_ascii_digit c
        then collapse_go sep ((if gap \<and> out \<noteq> [] then out @ [sep] else out) @ [c]) False cs
        else collapse_go sep out True cs)"

definition collapse :: "str \<Rightarrow> nat \<Rightarrow> str" where
  "collapse input sep = collapse_go sep [] False input"

section \<open>The shape of a collapsed string\<close>

text \<open>Words of \<open>[a-z0-9]\<close> separated by single separators, none at either end.\<close>

fun well_separated :: "nat \<Rightarrow> str \<Rightarrow> bool" where
  "well_separated sep [] = True"
| "well_separated sep [c] = is_slug_char c"
| "well_separated sep (c # d # s) =
     (is_slug_char c \<and> (if d = sep then s \<noteq> [] \<and> well_separated sep s else well_separated sep (d # s)))"

lemma slug_char_not_hyphen [simp]: "\<not> is_slug_char 45" "\<not> is_slug_char 32"
  by (auto simp: is_slug_char_def ascii_defs)

lemma well_separated_append:
  assumes "well_separated sep s" "is_slug_char c" "\<not> is_slug_char sep"
  shows "well_separated sep (s @ [c])" and "s \<noteq> [] \<Longrightarrow> well_separated sep (s @ [sep, c])"
  using assms by (induction sep s rule: well_separated.induct) (auto simp: neq_Nil_conv)

lemma collapse_go_shape:
  assumes "well_separated sep out" "\<not> is_slug_char sep"
  shows "well_separated sep (collapse_go sep out gap cs)"
  using assms
proof (induction sep out gap cs rule: collapse_go.induct)
  case (2 sep out gap c0 cs)
  let ?c = "to_ascii_lower c0"
  have "well_separated sep ((if gap \<and> out \<noteq> [] then out @ [sep] else out) @ [?c])"
    if "is_slug_char ?c"
    using well_separated_append [OF "2.prems"(1) that "2.prems"(2)] by auto
  with 2 show ?case
    by (simp add: Let_def is_slug_char_def)
qed simp

lemma collapse_shape: "\<not> is_slug_char sep \<Longrightarrow> well_separated sep (collapse s sep)"
  unfolding collapse_def by (rule collapse_go_shape) auto

lemma well_separated_set:
  "well_separated sep s \<Longrightarrow> c \<in> set s \<Longrightarrow> is_slug_char c \<or> c = sep"
  by (induction sep s rule: well_separated.induct) (auto split: if_splits)

lemma well_separated_hd: "well_separated sep s \<Longrightarrow> s \<noteq> [] \<Longrightarrow> is_slug_char (hd s)"
  by (induction sep s rule: well_separated.induct) auto

lemma well_separated_last: "well_separated sep s \<Longrightarrow> s \<noteq> [] \<Longrightarrow> is_slug_char (last s)"
  by (induction sep s rule: well_separated.induct) (auto split: if_splits)

lemma well_separated_ConsD:
  "well_separated sep (c # s) \<Longrightarrow> s \<noteq> [] \<Longrightarrow> hd s \<noteq> sep \<Longrightarrow> well_separated sep s"
  by (cases s) auto

text \<open>Cutting right before a separator keeps the shape.\<close>

lemma well_separated_take:
  assumes "well_separated sep s" "\<not> is_slug_char sep"
    and "i = length s \<or> i < length s \<and> (s ! i = sep \<or> (0 < i \<longrightarrow> s ! (i - 1) \<noteq> sep))"
  shows "well_separated sep (take i s)"
  using assms
proof (induction sep s arbitrary: i rule: well_separated.induct)
  case (3 sep c d s)
  show ?case
  proof (cases i)
    case (Suc j)
    show ?thesis
    proof (cases "d = sep")
      case True
      show ?thesis
      proof (cases j)
        case 0
        then show ?thesis using 3 Suc by simp
      next
        case (Suc k)
        have ik: "i = Suc (Suc k)" using \<open>i = Suc j\<close> Suc by simp
        have ne: "k \<noteq> 0"
        proof
          assume "k = 0"
          with ik 3 True have "s ! 0 = sep" by auto
          with 3 True show False
            using well_separated_hd [of sep s] by (auto simp: hd_conv_nth)
        qed
        have "well_separated sep (take k s)"
        proof (rule "3.IH"(1) [OF True])
          show "k = length s \<or> k < length s \<and> (s ! k = sep \<or> (0 < k \<longrightarrow> s ! (k - 1) \<noteq> sep))"
            using "3.prems"(3) ik ne by (cases k) auto
        qed (use "3.prems" True in auto)
        then show ?thesis using ik True ne 3 by (cases s; cases k) auto
      qed
    next
      case False
      have "well_separated sep (take j (d # s))"
      proof (rule "3.IH"(2) [OF False])
        show "j = length (d # s) \<or> j < length (d # s) \<and> ((d # s) ! j = sep \<or> (0 < j \<longrightarrow> (d # s) ! (j - 1) \<noteq> sep))"
          using "3.prems"(3) Suc by (cases j) auto
      qed (use "3.prems" False in auto)
      then show ?thesis using Suc False 3 by (cases j) auto
    qed
  qed simp
qed (auto simp: take_Cons' less_Suc_eq)

end
