(* ===== verification/Search.thy ===== *)
theory Search
  imports Unicode_Text "HOL-Library.Log_Nat"
begin

text \<open>
  \<open>register/search.rs\<close> and \<open>register/sync/similarity.rs\<close>: the matching forms of a name and
  pg_trgm's similarity over them. The quotient is an \<open>f32\<close>: the type \<open>f32\<close> holds the
  non-negative finite ones, mantissa and exponent, and division rounds to nearest, ties to
  even, as IEEE 754 does.
\<close>

section \<open>Search forms\<close>

definition folded :: "ucd \<Rightarrow> str \<Rightarrow> str" where
  "folded u name =
     (let lower = to_lowercase u (nfc u name)
      in join [32] (filter (\<lambda>w. w \<noteq> []) (split_by (\<lambda>c. \<not> is_alphanumeric u c) lower)))"

definition search_query :: "ucd \<Rightarrow> str \<Rightarrow> str" where
  "search_query u q = collapse (latin_fold u q Lossy) 32"

definition search_forms :: "ucd \<Rightarrow> str \<Rightarrow> str list" where
  "search_forms u name =
     [folded u name, collapse (latin_fold u name Transliterate) 32,
      collapse (latin_fold u name Lossy) 32]"

definition push_form :: "str list \<Rightarrow> str \<Rightarrow> str list" where
  "push_form forms form = (if form \<noteq> [] \<and> form \<notin> set forms then forms @ [form] else forms)"

definition search_text :: "ucd \<Rightarrow> str list \<Rightarrow> str" where
  "search_text u names = join [32] (foldl (\<lambda>forms name. foldl push_form forms (search_forms u name)) [] names)"

section \<open>Non-negative finite \<open>f32\<close>\<close>

datatype f32 = F32_Zero | F32 int nat  \<comment> \<open>\<open>F32 e m\<close> is \<open>m * 2 powi e\<close>, \<open>2^23 \<le> m < 2^24\<close>\<close>

instantiation f32 :: linorder
begin

fun less_eq_f32 :: "f32 \<Rightarrow> f32 \<Rightarrow> bool" where
  "less_eq_f32 F32_Zero y = True"
| "less_eq_f32 (F32 e m) F32_Zero = False"
| "less_eq_f32 (F32 e m) (F32 e' m') = (e < e' \<or> e = e' \<and> m \<le> m')"

definition less_f32 :: "f32 \<Rightarrow> f32 \<Rightarrow> bool" where
  "less_f32 x y = (x \<le> y \<and> \<not> y \<le> x)"

instance
proof
  fix x y z :: f32
  show "x < y \<longleftrightarrow> x \<le> y \<and> \<not> y \<le> x" by (simp add: less_f32_def)
  show "x \<le> x" by (cases x) auto
  show "x \<le> y \<Longrightarrow> y \<le> z \<Longrightarrow> x \<le> z" by (cases x; cases y; cases z) auto
  show "x \<le> y \<Longrightarrow> y \<le> x \<Longrightarrow> x = y" by (cases x; cases y) auto
  show "x \<le> y \<or> y \<le> x" by (cases x; cases y) auto
qed

end

text \<open>Division of naturals rounded to nearest, ties to even.\<close>

definition round_div :: "nat \<Rightarrow> nat \<Rightarrow> nat" where
  "round_div p q =
     (let d = p div q; r = p mod q
      in if 2 * r < q \<or> 2 * r = q \<and> even d then d else Suc d)"

text \<open>A mantissa rounded up to \<open>2^24\<close> moves to the next exponent.\<close>

definition f32_norm :: "int \<Rightarrow> nat \<Rightarrow> f32" where
  "f32_norm e m = (if m = 2 ^ 24 then F32 (e + 1) (2 ^ 23) else F32 e m)"

definition f32_of_nat :: "nat \<Rightarrow> f32" where
  "f32_of_nat n =
     (if n = 0 then F32_Zero
      else let k = floorlog 2 n
        in if k \<le> 24 then F32 (int k - 24) (n * 2 ^ (24 - k))
           else f32_norm (int k - 24) (round_div n (2 ^ (k - 24))))"

fun f32_div :: "f32 \<Rightarrow> f32 \<Rightarrow> f32" where
  "f32_div F32_Zero y = F32_Zero"
| "f32_div x F32_Zero = x" \<comment> \<open>never reached: the caller checks for a zero divisor\<close>
| "f32_div (F32 e m) (F32 e' m') =
     (let s = (if m' \<le> m then 23 else 24)
      in f32_norm (e - e' - int s) (round_div (m * 2 ^ s) m'))"

definition f32_one :: f32 where
  "f32_one = F32 (-23) (2 ^ 23)"

text \<open>The literals \<open>0.45\<close> and \<open>0.6\<close> as \<open>f32\<close>.\<close>

definition submission_match_threshold :: f32 where
  "submission_match_threshold = F32 (-25) 15099494"

definition reregistration_threshold :: f32 where
  "reregistration_threshold = F32 (-24) 10066330"

text \<open>\<open>format!("{sim:.2}")\<close> for a similarity: hundredths, rounded half to even.\<close>

definition f32_hundredths :: "f32 \<Rightarrow> nat" where
  "f32_hundredths x =
     (case x of F32_Zero \<Rightarrow> 0
      | F32 e m \<Rightarrow> (if 0 \<le> e then m * 2 ^ nat e * 100 else round_div (m * 100) (2 ^ nat (- e))))"

definition f32_show2 :: "f32 \<Rightarrow> str" where
  "f32_show2 x =
     (let h = f32_hundredths x
      in show_nat (h div 100) @ [46] @ [48 + h div 10 mod 10, 48 + h mod 10])"

section \<open>Trigram similarity\<close>

definition trigrams :: "str \<Rightarrow> str set" where
  "trigrams query =
     set (concat (map (\<lambda>word. windows 3 ([32, 32] @ word @ [32]))
       (filter (\<lambda>w. w \<noteq> []) (split_by (\<lambda>c. c = 32) query))))"

definition similarity :: "ucd \<Rightarrow> str \<Rightarrow> str \<Rightarrow> f32" where
  "similarity u a b =
     (let ta = trigrams (search_query u a); tb = trigrams (search_query u b);
          common = card (ta \<inter> tb);
          union = card ta + card tb - common
      in if union = 0 then F32_Zero else f32_div (f32_of_nat common) (f32_of_nat union))"

section \<open>Facts about \<open>f32\<close>\<close>

lemma pow2_split: "i \<le> k \<Longrightarrow> (2::nat) ^ k = 2 ^ i * 2 ^ (k - i)"
  by (metis le_add_diff_inverse power_add)

definition f32_ok :: "f32 \<Rightarrow> bool" where
  "f32_ok x = (case x of F32_Zero \<Rightarrow> True | F32 e m \<Rightarrow> 2 ^ 23 \<le> m \<and> m < 2 ^ 24)"

lemma round_div_exact [simp]: "0 < q \<Longrightarrow> round_div (d * q) q = d"
  by (simp add: round_div_def)

lemma round_div_exact' [simp]: "0 < q \<Longrightarrow> round_div (q * d) q = d"
  by (simp add: round_div_def)

lemma round_div_mono_bounds:
  assumes "0 < q" "d * q \<le> p" "p \<le> d' * q"
  shows "d \<le> round_div p q \<and> round_div p q \<le> d'"
proof -
  have lo: "d \<le> p div q" using assms by (simp add: less_eq_div_iff_mult_less_eq)
  have hi: "p div q \<le> d'" using assms by (metis div_le_mono div_mult_self_is_m mult.commute)
  have "p mod q = 0" if "p div q = d'"
  proof -
    have "p = d' * q + p mod q" using that by (metis div_mult_mod_eq)
    with assms(3) show ?thesis by linarith
  qed
  with lo hi assms show ?thesis
    by (cases "p div q = d'") (auto simp: round_div_def Let_def)
qed

lemma f32_norm_ok: "2 ^ 23 \<le> m \<Longrightarrow> m \<le> 2 ^ 24 \<Longrightarrow> f32_ok (f32_norm e m)"
  by (auto simp: f32_norm_def f32_ok_def)

lemma floorlog2_bounds: "0 < n \<Longrightarrow> 2 ^ (floorlog 2 n - 1) \<le> n \<and> n < 2 ^ floorlog 2 n \<and> 0 < floorlog 2 n"
  using floorlog_bounds [of n 2] by (auto simp: floorlog_def)

lemma f32_of_nat_ok: "f32_ok (f32_of_nat n)"
proof (cases "n = 0")
  case False
  define k where "k = floorlog 2 n"
  have k: "2 ^ (k - 1) \<le> n" "n < 2 ^ k" "0 < k"
    using floorlog2_bounds [of n] False by (auto simp: k_def)
  show ?thesis
  proof (cases "k \<le> 24")
    case True
    have "2 ^ 23 = 2 ^ (k - 1) * (2::nat) ^ (24 - k)" "(2::nat) ^ 24 = 2 ^ k * 2 ^ (24 - k)"
      using True k(3) pow2_split [of "k - 1" 23] pow2_split [of k 24] by (simp_all add: Suc_diff_le)
    with k have "2 ^ 23 \<le> n * 2 ^ (24 - k)" "n * 2 ^ (24 - k) < 2 ^ 24"
      by (metis mult_le_mono1, metis mult_less_mono1 zero_less_numeral zero_less_power)
    with False True show ?thesis
      by (simp add: f32_of_nat_def k_def [symmetric] Let_def f32_ok_def)
  next
    case gt: False
    have "2 ^ (k - 1) = 2 ^ 23 * (2::nat) ^ (k - 24)" "(2::nat) ^ k = 2 ^ 24 * 2 ^ (k - 24)"
      using gt pow2_split [of 23 "k - 1"] pow2_split [of 24 k] by simp_all
    with k have "2 ^ 23 \<le> round_div n (2 ^ (k - 24)) \<and> round_div n (2 ^ (k - 24)) \<le> 2 ^ 24"
      by (intro round_div_mono_bounds) auto
    then have "f32_ok (f32_norm (int k - 24) (round_div n (2 ^ (k - 24))))"
      by (intro f32_norm_ok) auto
    with False gt show ?thesis
      by (simp add: f32_of_nat_def k_def [symmetric] Let_def)
  qed
qed (simp add: f32_of_nat_def f32_ok_def)

lemma f32_of_nat_eq_Zero [simp]: "f32_of_nat n = F32_Zero \<longleftrightarrow> n = 0"
  by (simp add: f32_of_nat_def f32_norm_def Let_def)

lemma f32_div_self:
  assumes "f32_ok x" "x \<noteq> F32_Zero"
  shows "f32_div x x = f32_one"
  using assms by (cases x) (auto simp: f32_ok_def f32_one_def f32_norm_def Let_def)

lemma f32_div_ok:
  assumes "f32_ok x" "f32_ok y"
  shows "f32_ok (f32_div x y)"
proof (cases "(x, y)" rule: f32_div.cases)
  case (3 e m e' m')
  then have m: "2 ^ 23 \<le> m" "m < 2 ^ 24" "2 ^ 23 \<le> m'" "m' < 2 ^ 24"
    using assms by (auto simp: f32_ok_def)
  define s :: nat where "s = (if m' \<le> m then 23 else 24)"
  have "2 ^ 23 \<le> round_div (m * 2 ^ s) m' \<and> round_div (m * 2 ^ s) m' \<le> 2 ^ 24"
    using m by (intro round_div_mono_bounds) (auto simp: s_def)
  then show ?thesis using 3 by (simp add: s_def Let_def f32_norm_ok)
qed (use assms in \<open>auto simp: f32_ok_def\<close>)

lemma f32_div_le_one:
  assumes "f32_ok x" "f32_ok y" "x \<le> y"
  shows "f32_div x y \<le> f32_one"
proof (cases "(x, y)" rule: f32_div.cases)
  case (3 e m e' m')
  then have m: "2 ^ 23 \<le> m" "m < 2 ^ 24" "2 ^ 23 \<le> m'" "m' < 2 ^ 24"
    and le: "e < e' \<or> e = e' \<and> m \<le> m'"
    using assms by (auto simp: f32_ok_def)
  show ?thesis
  proof (cases "m' \<le> m")
    case True
    have hi: "round_div (m * 2 ^ 23) m' \<le> 2 ^ 24"
      using m True by (intro round_div_mono_bounds [THEN conjunct2, of _ 0]) auto
    show ?thesis
    proof (cases "m = m'")
      case True
      then show ?thesis using 3 le m by (auto simp: f32_one_def f32_norm_def Let_def)
    next
      case False
      with True le have "e < e'" by auto
      with True hi show ?thesis using 3 by (auto simp: f32_one_def f32_norm_def Let_def)
    qed
  next
    case False
    then have "e \<le> e'" using le by auto
    moreover have "round_div (m * 2 ^ 24) m' \<le> 2 ^ 24"
      using m False by (intro round_div_mono_bounds [THEN conjunct2, of _ 0]) auto
    ultimately show ?thesis using 3 False by (auto simp: f32_one_def f32_norm_def Let_def)
  qed
qed (use assms in \<open>auto simp: f32_one_def\<close>)

lemma f32_of_nat_mono:
  assumes "m \<le> n"
  shows "f32_of_nat m \<le> f32_of_nat n"
proof (cases "m = 0")
  case False
  define j k where "j = floorlog 2 m" and "k = floorlog 2 n"
  have jk: "j \<le> k" unfolding j_def k_def using assms by (simp add: floorlog_mono)
  have bm: "2 ^ (j - 1) \<le> m" "m < 2 ^ j" "0 < j" and bn: "2 ^ (k - 1) \<le> n" "n < 2 ^ k" "0 < k"
    using floorlog2_bounds [of m] floorlog2_bounds [of n] False assms by (auto simp: j_def k_def)
  have up: "round_div x (2 ^ (i - 24)) \<le> 2 ^ 24" if "24 < i" "x < 2 ^ i" for x i :: nat
  proof -
    have "(2::nat) ^ i = 2 ^ 24 * 2 ^ (i - 24)" using that(1) by (intro pow2_split) simp
    then show ?thesis using that(2) by (intro round_div_mono_bounds [THEN conjunct2, of _ 0]) auto
  qed
  have lo: "2 ^ 23 \<le> round_div n (2 ^ (k - 24))" if "24 < k"
  proof -
    have "(2::nat) ^ (k - 1) = 2 ^ 23 * 2 ^ (k - 24)" using that pow2_split [of 23 "k - 1"] by simp
    then show ?thesis using bn
      by (intro round_div_mono_bounds [THEN conjunct1, of _ _ _ n]) auto
  qed
  have same: "round_div m q \<le> round_div n q" if "0 < q" for q
  proof (cases "m div q = n div q")
    case True
    then have "m mod q \<le> n mod q"
      using assms by (metis add_le_cancel_left div_mult_mod_eq)
    with True show ?thesis by (auto simp: round_div_def Let_def)
  next
    case False
    moreover have "m div q \<le> n div q" using assms by (rule div_le_mono)
    ultimately show ?thesis by (auto simp: round_div_def Let_def)
  qed
  show ?thesis
  proof (cases "j = k")
    case True
    then show ?thesis
      using False assms same [of "2 ^ (k - 24)"] up [of k n] up [of k m] bm bn
      by (auto simp: f32_of_nat_def j_def [symmetric] k_def [symmetric] f32_norm_def Let_def
        intro: leI)
  next
    case lt: False
    then have "j < k" using jk by simp
    then show ?thesis
      using False assms lo
      by (auto simp: f32_of_nat_def j_def [symmetric] k_def [symmetric] f32_norm_def Let_def)
  qed
qed (simp add: f32_of_nat_def)

section \<open>Facts about similarity\<close>

lemma search_query_shape: "well_separated 32 (search_query u q)"
  unfolding search_query_def by (rule collapse_shape) simp

lemma finite_trigrams [simp]: "finite (trigrams q)"
  by (simp add: trigrams_def)

lemma card_union_minus:
  assumes "finite A" "finite B"
  shows "card A + card B - card (A \<inter> B) = card (A \<union> B)"
  using card_Un_Int [OF assms] by simp

lemma similarity_alt:
  "similarity u a b =
    (let ta = trigrams (search_query u a); tb = trigrams (search_query u b)
     in if ta \<union> tb = {} then F32_Zero
        else f32_div (f32_of_nat (card (ta \<inter> tb))) (f32_of_nat (card (ta \<union> tb))))"
  unfolding similarity_def Let_def card_union_minus [OF finite_trigrams finite_trigrams]
  by (simp add: card_eq_0_iff)

lemma trigrams_eq_Nil: "trigrams q = {} \<longleftrightarrow> (\<forall>w\<in>set (split_by (\<lambda>c. c = 32) q). w = [])"
  by (auto simp: trigrams_def windows_def)

lemma similarity_sym: "similarity u a b = similarity u b a"
  by (simp add: similarity_alt Let_def Int_commute Un_commute)

lemma similarity_le_one: "similarity u a b \<le> f32_one"
proof -
  have "f32_of_nat (card (A \<inter> B)) \<le> f32_of_nat (card (A \<union> B))" if "finite A" "finite B" for A B :: "str set"
    using that by (intro f32_of_nat_mono card_mono) auto
  then show ?thesis
    unfolding similarity_alt Let_def by (simp add: f32_div_le_one f32_of_nat_ok)
qed

lemma similarity_same_query:
  assumes "search_query u a = search_query u b" "trigrams (search_query u a) \<noteq> {}"
  shows "similarity u a b = f32_one"
  using assms by (simp add: similarity_alt Let_def f32_div_self f32_of_nat_ok card_eq_0_iff)

lemma similarity_disjoint:
  "trigrams (search_query u a) \<inter> trigrams (search_query u b) = {} \<Longrightarrow> similarity u a b = F32_Zero"
  by (simp add: similarity_alt Let_def f32_of_nat_def)

end
