(* ===== verification/Ordered_Map.thy ===== *)
theory Ordered_Map
  imports Fau_Prelude
begin

text \<open>
  \<open>std::collections\<close> as the program uses it. A \<open>HashMap\<close> is only ever looked up, so it is a
  partial function; a \<open>BTreeMap\<close> is also iterated in key order, so it is an association list
  with strictly increasing keys. Both provide the interface \<open>lookup_map\<close>; the ordered one
  also provides \<open>ordered_map\<close>.
\<close>

section \<open>The interfaces\<close>

locale lookup_map =
  fixes empty :: "'m"
    and get :: "'m \<Rightarrow> 'k \<Rightarrow> 'v option"
    and ins :: "'k \<Rightarrow> 'v \<Rightarrow> 'm \<Rightarrow> 'm"
    and del :: "'k \<Rightarrow> 'm \<Rightarrow> 'm"
  assumes get_empty: "get empty k = None"
    and get_ins: "get (ins k v m) k' = (if k' = k then Some v else get m k')"
    and get_del: "get (del k m) k' = (if k' = k then None else get m k')"
begin

lemma get_fold_ins:
  "get (fold (\<lambda>(k, v). ins k v) xs m) k = (case map_of (rev xs) k of None \<Rightarrow> get m k | Some v \<Rightarrow> Some v)"
  by (induction xs arbitrary: m) (auto simp: get_ins map_add_def split: option.splits)

text \<open>Collecting an iterator of pairs: the last pair of a key wins.\<close>

lemma get_collect: "get (fold (\<lambda>(k, v). ins k v) xs empty) k = map_of (rev xs) k"
  by (auto simp: get_fold_ins get_empty split: option.splits)

text \<open>Moving an entry to another key keeps every other key, and keeps the holders apart.\<close>

lemma get_move:
  "get (ins k' v (del k m)) x = (if x = k' then Some v else if x = k then None else get m x)"
  by (simp add: get_ins get_del)

lemma inj_move:
  assumes inj: "\<And>x y v. get m x = Some v \<Longrightarrow> get m y = Some v \<Longrightarrow> x = y"
    and kv: "get m k = Some v" and free: "get m k' = None"
    and xy: "get (ins k' v (del k m)) x = Some w" "get (ins k' v (del k m)) y = Some w"
  shows "x = y"
proof -
  have "z = k" if "get m z = Some v" for z
    using inj [OF that kv] .
  then show ?thesis
    using inj xy free by (auto simp: get_move split: if_splits)
qed

lemma inj_fresh:
  assumes inj: "\<And>x y v. get m x = Some v \<Longrightarrow> get m y = Some v \<Longrightarrow> x = y"
    and fresh: "\<And>x. get m x \<noteq> Some v"
    and xy: "get (ins k v m) x = Some w" "get (ins k v m) y = Some w"
  shows "x = y"
  using inj xy fresh by (auto simp: get_ins split: if_splits)

end

locale ordered_map = lookup_map empty get ins del
  for empty :: "'m" and get :: "'m \<Rightarrow> 'k::linorder \<Rightarrow> 'v option"
    and ins :: "'k \<Rightarrow> 'v \<Rightarrow> 'm \<Rightarrow> 'm" and del :: "'k \<Rightarrow> 'm \<Rightarrow> 'm" +
  fixes entries :: "'m \<Rightarrow> ('k \<times> 'v) list"
    and inv :: "'m \<Rightarrow> bool"
  assumes inv_empty: "inv empty"
    and inv_ins: "inv m \<Longrightarrow> inv (ins k v m)"
    and inv_del: "inv m \<Longrightarrow> inv (del k m)"
    and entries_sorted: "inv m \<Longrightarrow> sorted_wrt (<) (map fst (entries m))"
    and entries_get: "map_of (entries m) = get m"
begin

lemma inv_fold_ins: "inv m \<Longrightarrow> inv (fold (\<lambda>(k, v). ins k v) xs m)"
  by (induction xs arbitrary: m) (auto simp: inv_ins)

lemma distinct_keys: "inv m \<Longrightarrow> distinct (map fst (entries m))"
  using entries_sorted strict_sorted_iff by blast

lemma entry_iff: "inv m \<Longrightarrow> (k, v) \<in> set (entries m) \<longleftrightarrow> get m k = Some v"
  using distinct_keys [of m] entries_get [of m] by (metis map_of_eq_Some_iff)

text \<open>Two ordered maps with one lookup function iterate alike.\<close>

lemma entries_unique:
  assumes "inv m" "inv m'" "get m = get m'"
  shows "entries m = entries m'"
proof -
  have "set (entries m) = set (entries m')"
    using entry_iff [OF assms(1)] entry_iff [OF assms(2)] assms(3) by auto
  moreover have "sorted (map fst (entries m))" "sorted (map fst (entries m'))"
    using entries_sorted assms strict_sorted_iff by blast+
  ultimately show ?thesis
    using map_sorted_distinct_set_unique [of fst "entries m" "entries m'"]
      distinct_keys assms by (metis distinct_map inj_on_Un_image_eq_iff sup.idem)
qed

end

section \<open>\<open>BTreeMap\<close>\<close>

type_synonym ('k, 'v) btree = "('k \<times> 'v) list"

fun bt_insert :: "'k::linorder \<Rightarrow> 'v \<Rightarrow> ('k, 'v) btree \<Rightarrow> ('k, 'v) btree" where
  "bt_insert k v [] = [(k, v)]"
| "bt_insert k v ((k', v') # m) =
     (if k < k' then (k, v) # (k', v') # m
      else if k = k' then (k, v) # m else (k', v') # bt_insert k v m)"

definition bt_remove :: "'k \<Rightarrow> ('k, 'v) btree \<Rightarrow> ('k, 'v) btree" where
  "bt_remove k m = filter (\<lambda>(k', _). k' \<noteq> k) m"

definition bt_get :: "('k, 'v) btree \<Rightarrow> 'k \<Rightarrow> 'v option" where
  "bt_get m k = map_of m k"

definition bt_contains :: "('k, 'v) btree \<Rightarrow> 'k \<Rightarrow> bool" where
  "bt_contains m k = (bt_get m k \<noteq> None)"

definition bt_keys :: "('k, 'v) btree \<Rightarrow> 'k list" where
  "bt_keys m = map fst m"

definition bt_values :: "('k, 'v) btree \<Rightarrow> 'v list" where
  "bt_values m = map snd m"

definition bt_collect :: "('k::linorder \<times> 'v) list \<Rightarrow> ('k, 'v) btree" where
  "bt_collect xs = fold (\<lambda>(k, v). bt_insert k v) xs []"

text \<open>\<open>entry(k).or_default()\<close> followed by an update of the value.\<close>

definition bt_modify :: "'k::linorder \<Rightarrow> 'v \<Rightarrow> ('v \<Rightarrow> 'v) \<Rightarrow> ('k, 'v) btree \<Rightarrow> ('k, 'v) btree" where
  "bt_modify k d f m = bt_insert k (f (unwrap_or (bt_get m k) d)) m"

definition bt_ok :: "('k::linorder, 'v) btree \<Rightarrow> bool" where
  "bt_ok m = sorted_wrt (<) (map fst m)"

lemma bt_get_insert: "bt_get (bt_insert k v m) k' = (if k' = k then Some v else bt_get m k')"
  by (induction m) (auto simp: bt_get_def)

lemma bt_get_remove: "bt_get (bt_remove k m) k' = (if k' = k then None else bt_get m k')"
  by (induction m) (auto simp: bt_get_def bt_remove_def)

lemma keys_bt_insert: "set (map fst (bt_insert k v m)) = insert k (set (map fst m))"
  by (induction k v m rule: bt_insert.induct) (simp_all add: insert_commute)

lemma bt_ok_insert: "bt_ok m \<Longrightarrow> bt_ok (bt_insert k v m)"
proof (induction k v m rule: bt_insert.induct)
  case (2 k v k' v' m)
  consider "k < k'" | "k = k'" | "k' < k" by force
  then show ?case
  proof cases
    case 3
    with 2 have "\<forall>x\<in>set (map fst (bt_insert k v m)). k' < x"
      unfolding keys_bt_insert by (auto simp: bt_ok_def)
    with 2 3 show ?thesis by (auto simp: bt_ok_def)
  qed (use 2 in \<open>force simp: bt_ok_def\<close>)+
qed (simp add: bt_ok_def)

lemma bt_ok_remove: "bt_ok m \<Longrightarrow> bt_ok (bt_remove k m)"
  by (induction m) (auto simp: bt_ok_def bt_remove_def)

interpretation bt: ordered_map "[]" bt_get bt_insert bt_remove "\<lambda>m. m" bt_ok
  by unfold_locales
    (auto simp: bt_get_insert bt_get_remove bt_ok_insert bt_ok_remove, simp_all add: bt_ok_def bt_get_def fun_eq_iff)

lemma bt_get_collect: "bt_get (bt_collect xs) k = map_of (rev xs) k"
  by (simp add: bt_collect_def bt.get_collect)

lemma bt_ok_collect: "bt_ok (bt_collect xs)"
  unfolding bt_collect_def by (intro bt.inv_fold_ins bt.inv_empty)

lemma bt_ok_modify: "bt_ok m \<Longrightarrow> bt_ok (bt_modify k d f m)"
  by (simp add: bt_modify_def bt_ok_insert)

lemma bt_get_modify:
  "bt_get (bt_modify k d f m) k' = (if k' = k then Some (f (unwrap_or (bt_get m k) d)) else bt_get m k')"
  by (simp add: bt_modify_def bt_get_insert)

lemma bt_get_None: "bt_get m k = None \<longleftrightarrow> k \<notin> set (bt_keys m)"
  by (simp add: bt_get_def bt_keys_def map_of_eq_None_iff)

lemma bt_values_get: "v \<in> set (bt_values m) \<Longrightarrow> bt_ok m \<Longrightarrow> \<exists>k. bt_get m k = Some v"
  using bt.entry_iff [of m] by (auto simp: bt_values_def)

section \<open>\<open>HashMap\<close>\<close>

definition hm_insert :: "'k \<Rightarrow> 'v \<Rightarrow> ('k \<rightharpoonup> 'v) \<Rightarrow> ('k \<rightharpoonup> 'v)" where
  "hm_insert k v m = m(k \<mapsto> v)"

definition hm_remove :: "'k \<Rightarrow> ('k \<rightharpoonup> 'v) \<Rightarrow> ('k \<rightharpoonup> 'v)" where
  "hm_remove k m = m(k := None)"

definition hm_collect :: "('k \<times> 'v) list \<Rightarrow> ('k \<rightharpoonup> 'v)" where
  "hm_collect xs = fold (\<lambda>(k, v). hm_insert k v) xs Map.empty"

interpretation hm: lookup_map Map.empty "\<lambda>m k. m k" hm_insert hm_remove
  by unfold_locales (auto simp: hm_insert_def hm_remove_def)

lemma hm_collect_get: "hm_collect xs k = map_of (rev xs) k"
  by (simp add: hm_collect_def hm.get_collect)

lemma hm_collect_Some: "hm_collect xs k = Some v \<Longrightarrow> (k, v) \<in> set xs"
  using map_of_SomeD [of "rev xs" k v] by (simp add: hm_collect_get)

lemma hm_collect_None: "hm_collect xs k = None \<longleftrightarrow> k \<notin> fst ` set xs"
  by (simp add: hm_collect_get map_of_eq_None_iff)

end
