(* ===== verification/Slug.thy ===== *)
theory Slug
  imports Unicode_Text
begin

text \<open>
  \<open>register/slug.rs\<close>: minting and resolving slugs. Slugs are ASCII, so byte and character
  lengths agree. \<open>first_free_slug\<close> counts with a \<open>u32\<close>; running out of numbers is the panic
  of its \<open>expect\<close>, the value \<open>None\<close>.
\<close>

definition max_slug_len :: nat where
  "max_slug_len = 80"

datatype slug_error = Slug_Empty | Invalid_Municipality_Number

datatype 'id resolution = Current 'id | Redirect 'id | Not_Found

definition cut_to_len :: "str \<Rightarrow> nat \<Rightarrow> str" where
  "cut_to_len s max_len =
     (if length s \<le> max_len then s
      else let head = take max_len s in
        if s ! max_len = 45 then head
        else (case rposition (\<lambda>c. c = 45) head of Some i \<Rightarrow> take i head | None \<Rightarrow> head))"

definition cap :: "str \<Rightarrow> str" where
  "cap slug = cut_to_len slug max_slug_len"

definition slugify :: "ucd \<Rightarrow> str \<Rightarrow> (slug_error, str) result" where
  "slugify u name =
     (let slug = cap (collapse (latin_fold u name Transliterate) 45)
      in if slug = [] then Inl Slug_Empty else Inr slug)"

definition make_room_for :: "str \<Rightarrow> str \<Rightarrow> str" where
  "make_room_for base suff =
     (let budget = max_slug_len - (1 + length suff)
      in if length base \<le> budget then base else cut_to_len base budget)"

definition municipality_slug :: "ucd \<Rightarrow> str \<Rightarrow> str \<Rightarrow> (slug_error, str) result" where
  "municipality_slug u number norwegian_name =
     (if str_len number \<noteq> 4 \<or> \<not> list_all is_ascii_digit number
      then Inl Invalid_Municipality_Number
      else (case slugify u norwegian_name of
          Inl e \<Rightarrow> Inl e
        | Inr s \<Rightarrow> Inr (number @ [45] @ s)))"

definition with_suffix :: "str \<Rightarrow> str \<Rightarrow> str" where
  "with_suffix stem suff = make_room_for stem suff @ [45] @ suff"

text \<open>The search over \<open>2u32..\<close>.\<close>

function find_numbered :: "str \<Rightarrow> (str \<Rightarrow> bool) \<Rightarrow> nat \<Rightarrow> str option" where
  "find_numbered stem taken n =
     (if 2 ^ 32 \<le> n then None
      else let candidate = with_suffix stem (show_nat n)
        in if taken candidate then find_numbered stem taken (Suc n) else Some candidate)"
  by pat_completeness auto
termination
  by (relation "measure (\<lambda>(stem, taken, n). 2 ^ 32 - n)") auto

declare find_numbered.simps [simp del]

definition first_free_slug :: "ucd \<Rightarrow> str \<Rightarrow> str option \<Rightarrow> (str \<Rightarrow> bool) \<Rightarrow> str option" where
  "first_free_slug u base post_town taken =
     (if \<not> taken base then Some base
      else (case Option.bind post_town (\<lambda>t. ok_opt (slugify u t)) of
          Some town \<Rightarrow>
            (let with_town = with_suffix base town
             in if \<not> taken with_town then Some with_town else find_numbered with_town taken 2)
        | None \<Rightarrow> find_numbered base taken 2))"

definition resolve_slug :: "'id option \<Rightarrow> 'id list \<Rightarrow> 'id resolution" where
  "resolve_slug current historical =
     (case current of
        Some i \<Rightarrow> Current i
      | None \<Rightarrow>
          (case historical of
             [] \<Rightarrow> Not_Found
           | first # rest \<Rightarrow> if list_all (\<lambda>h. h = first) rest then Redirect first else Not_Found))"

section \<open>Shape and length\<close>

definition slug_ok :: "str \<Rightarrow> bool" where
  "slug_ok s = (well_separated 45 s \<and> s \<noteq> [] \<and> length s \<le> max_slug_len)"

lemma cut_to_len_take:
  "\<exists>i. i \<le> max_len \<and> cut_to_len s max_len = take i s \<or> cut_to_len s max_len = s \<and> length s \<le> max_len"
proof (cases "length s \<le> max_len")
  case False
  then show ?thesis
  proof (cases "s ! max_len = 45 \<or> rposition (\<lambda>c. c = 45) (take max_len s) = None")
    case True
    with False show ?thesis
      by (intro exI [of _ max_len]) (auto simp: cut_to_len_def Let_def)
  next
    case no: False
    then obtain i where i: "rposition (\<lambda>c. c = 45) (take max_len s) = Some i" by auto
    with rposition_Some [OF i] no False show ?thesis
      by (intro exI [of _ i]) (auto simp: cut_to_len_def Let_def min_def)
  qed
qed (simp add: cut_to_len_def)

lemma length_cut_to_len: "length (cut_to_len s n) \<le> n"
  using cut_to_len_take [of n s] by auto

lemma cut_to_len_shape:
  assumes "well_separated 45 s"
  shows "well_separated 45 (cut_to_len s n)" and "s \<noteq> [] \<Longrightarrow> 0 < n \<Longrightarrow> cut_to_len s n \<noteq> []"
proof -
  have sub: "\<not> is_slug_char 45" by simp
  show "well_separated 45 (cut_to_len s n)"
  proof (cases "length s \<le> n")
    case False
    then have n: "n < length s" by simp
    show ?thesis
    proof (cases "s ! n = 45")
      case True
      then show ?thesis
        using n well_separated_take [OF assms sub, of n] by (simp add: cut_to_len_def Let_def)
    next
      case no: False
      show ?thesis
      proof (cases "rposition (\<lambda>c. c = 45) (take n s)")
        case None
        then have "0 < n \<longrightarrow> s ! (n - 1) \<noteq> 45"
          using n by (auto simp: rposition_None in_set_conv_nth)
        then show ?thesis
          using n no None well_separated_take [OF assms sub, of n]
          by (simp add: cut_to_len_def Let_def)
      next
        case (Some i)
        from rposition_Some [OF this] n have i: "i < n" "s ! i = 45" by auto
        then have "well_separated 45 (take i s)"
          using n well_separated_take [OF assms sub, of i] by simp
        then show ?thesis
          using n no Some i by (simp add: cut_to_len_def Let_def min_def)
      qed
    qed
  qed (simp add: cut_to_len_def assms)
  assume ne: "s \<noteq> []" and pos: "0 < n"
  have hd: "s ! 0 \<noteq> 45"
    using well_separated_hd [OF assms ne] ne by (auto simp: hd_conv_nth)
  show "cut_to_len s n \<noteq> []"
    using ne pos hd rposition_Some [of "\<lambda>c. c = 45" "take n s" 0]
    by (auto simp: cut_to_len_def Let_def split: option.splits) (metis gr0I)
qed

lemma make_room_for_shape:
  assumes "well_separated 45 base" "base \<noteq> []" "length suff + 2 \<le> max_slug_len"
  shows "well_separated 45 (make_room_for base suff)" "make_room_for base suff \<noteq> []"
    and "length (make_room_for base suff) + 1 + length suff \<le> max_slug_len"
  using assms cut_to_len_shape [OF assms(1)]
    length_cut_to_len [of base "max_slug_len - Suc (length suff)"]
  by (auto simp: make_room_for_def Let_def)

lemma well_separated_glue:
  "well_separated sep a \<Longrightarrow> well_separated sep b \<Longrightarrow> \<not> is_slug_char sep \<Longrightarrow> a \<noteq> [] \<Longrightarrow> b \<noteq> [] \<Longrightarrow>
    well_separated sep (a @ sep # b)"
  by (induction sep a rule: well_separated.induct) (auto simp: neq_Nil_conv)

lemma digits_well_separated: "\<forall>c\<in>set s. is_ascii_digit c \<Longrightarrow> well_separated 45 s"
  by (induction "45::nat" s rule: well_separated.induct) (auto simp: is_slug_char_def ascii_defs)

lemma with_suffix_ok:
  assumes "slug_ok base" "well_separated 45 suff" "suff \<noteq> []" "length suff + 2 \<le> max_slug_len"
  shows "slug_ok (with_suffix base suff)"
  using make_room_for_shape [of base suff] assms
  by (auto simp: slug_ok_def with_suffix_def intro!: well_separated_glue)

lemma slugify_ok: "slugify u name = Inr s \<Longrightarrow> slug_ok s"
  using cut_to_len_shape(1) [OF collapse_shape [of 45 "latin_fold u name Transliterate"]]
    length_cut_to_len [of "collapse (latin_fold u name Transliterate) 45" max_slug_len]
  by (auto simp: slugify_def Let_def slug_ok_def cap_def split: if_splits)

lemma with_suffix_inject:
  assumes "with_suffix a (show_nat m) = with_suffix b (show_nat n)"
  shows "m = n"
proof -
  have no: "45 \<notin> set (show_nat k)" for k
    using show_nat_digits [of 45 k] by (auto simp: is_ascii_digit_def)
  have "rsplit_once 45 (with_suffix c (show_nat k)) = Some (make_room_for c (show_nat k), show_nat k)" for c k
    using rsplit_once_append [OF no] by (simp add: with_suffix_def)
  with assms show ?thesis by (metis option.inject prod.inject show_nat_inject)
qed

section \<open>The collision search\<close>

lemma find_numbered_Some:
  assumes "find_numbered stem taken n = Some s"
  shows "\<not> taken s \<and> (\<exists>k\<ge>n. k < 2 ^ 32 \<and> s = with_suffix stem (show_nat k))"
  using assms
proof (induction stem taken n rule: find_numbered.induct)
  case (1 stem taken n)
  show ?case
  proof (cases "2 ^ 32 \<le> n \<or> \<not> taken (with_suffix stem (show_nat n))")
    case True
    then show ?thesis using "1.prems"
      by (auto simp: find_numbered.simps [of stem taken n] Let_def split: if_splits)
  next
    case False
    then have "find_numbered stem taken (Suc n) = Some s"
      using "1.prems" by (simp add: find_numbered.simps [of stem taken n] Let_def)
    then show ?thesis using "1.IH" False by (metis Suc_leD not_le)
  qed
qed

lemma find_numbered_None:
  assumes "find_numbered stem taken n = None" "n \<le> k" "k < 2 ^ 32"
  shows "taken (with_suffix stem (show_nat k))"
  using assms
proof (induction stem taken n rule: find_numbered.induct)
  case (1 stem taken n)
  then have "taken (with_suffix stem (show_nat n))" "find_numbered stem taken (Suc n) = None"
    by (auto simp: find_numbered.simps [of stem taken n] Let_def split: if_splits)
  then show ?case
    using "1.IH" "1.prems" by (cases "k = n") (auto simp: Let_def)
qed

lemma find_numbered_total:
  assumes "finite {s. taken s}" "card {s. taken s} < 2 ^ 32 - 2"
  shows "\<exists>s. find_numbered stem taken 2 = Some s"
proof (rule ccontr)
  assume "\<nexists>s. find_numbered stem taken 2 = Some s"
  then have "find_numbered stem taken 2 = None" by simp
  then have "(\<lambda>k. with_suffix stem (show_nat k)) ` {2..<2 ^ 32} \<subseteq> {s. taken s}"
    using find_numbered_None by auto
  moreover have "inj_on (\<lambda>k. with_suffix stem (show_nat k)) {2..<2 ^ 32}"
    by (auto intro!: inj_onI dest: with_suffix_inject)
  ultimately have "card {2..<2 ^ 32 :: nat} \<le> card {s. taken s}"
    by (metis assms(1) card_image card_mono)
  with assms(2) show False by simp
qed

lemma first_free_slug_free: "first_free_slug u base town taken = Some s \<Longrightarrow> \<not> taken s"
  by (auto simp: first_free_slug_def Let_def dest: find_numbered_Some split: if_splits option.splits)

lemma first_free_slug_total:
  assumes "finite {s. taken s}" "card {s. taken s} < 2 ^ 32 - 2"
  shows "\<exists>s. first_free_slug u base town taken = Some s"
  using find_numbered_total [OF assms] by (auto simp: first_free_slug_def Let_def split: option.splits)

lemma first_free_slug_base: "\<not> taken base \<Longrightarrow> first_free_slug u base town taken = Some base"
  by (simp add: first_free_slug_def)

lemma show_nat_u32_length: "n < 2 ^ 32 \<Longrightarrow> length (show_nat n) \<le> 10"
  by (rule length_show_nat_le) auto

lemma numbered_ok: "slug_ok stem \<Longrightarrow> n < 2 ^ 32 \<Longrightarrow> slug_ok (with_suffix stem (show_nat n))"
  using show_nat_u32_length [of n] show_nat_digits [of _ n]
  by (intro with_suffix_ok digits_well_separated) (auto simp: max_slug_len_def)

lemma first_free_slug_ok:
  assumes "slug_ok base" "first_free_slug u base town taken = Some s"
    and "\<And>t w. town = Some t \<Longrightarrow> slugify u t = Inr w \<Longrightarrow> length w \<le> 78"
  shows "slug_ok s"
proof (cases "Option.bind town (\<lambda>t. ok_opt (slugify u t))")
  case None
  then show ?thesis
    using assms(1,2) by (auto simp: first_free_slug_def numbered_ok split: if_splits dest!: find_numbered_Some)
next
  case (Some w)
  then obtain t where t: "town = Some t" "slugify u t = Inr w"
    by (cases town) auto
  then have "slug_ok (with_suffix base w)"
    using slugify_ok [of u t w] assms(1,3) by (intro with_suffix_ok) (auto simp: slug_ok_def max_slug_len_def)
  then show ?thesis
    using assms(1,2) Some
    by (auto simp: first_free_slug_def numbered_ok Let_def split: if_splits dest!: find_numbered_Some)
qed

section \<open>Municipality slugs\<close>

lemma municipality_slug_Inr:
  "municipality_slug u n name = Inr s \<longleftrightarrow>
     str_len n = 4 \<and> list_all is_ascii_digit n \<and> (\<exists>t. slugify u name = Inr t \<and> s = n @ 45 # t)"
  by (auto simp: municipality_slug_def split: sum.splits)

lemma municipality_slug_number:
  "municipality_slug u n name = Inr s \<Longrightarrow> length n = 4 \<and> take 4 s = n"
proof -
  assume "municipality_slug u n name = Inr s"
  then obtain t where n: "str_len n = 4" "list_all is_ascii_digit n" and s: "s = n @ 45 # t"
    unfolding municipality_slug_Inr by blast
  from n(2) have "str_len n = length n"
    by (intro str_len_ascii) (auto simp: list_all_iff is_ascii_digit_def)
  with n s show ?thesis by simp
qed

end
