(* ===== verification/Register_Source.thy ===== *)
theory Register_Source
  imports Fau_Prelude
begin

text \<open>
  \<open>register/source.rs\<close> and \<open>register/scope.rs\<close>: the source records as the register's rules see
  them, and the filter that decides which NSR units can have an FAU. Dates (\<open>'d\<close>) and
  timestamps (\<open>'t\<close>) are \<open>jiff\<close>'s, of which the rules use equality and order only.
\<close>

section \<open>Source records\<close>

record official_name =
  on_name :: str
  on_language :: str
  on_priority :: nat

record municipality_record =
  mr_number :: str
  mr_norwegian_name :: str
  mr_official_name :: str
  mr_county_number :: str
  mr_county_name :: str
  mr_names :: "official_name list"

record 'd code_change =
  old_code :: str
  old_name :: str
  new_code :: str
  new_name :: str
  occurred_on :: 'd

record nsr_address =
  na_street :: "str option"
  na_postcode :: "str option"
  na_post_town :: "str option"

record 't nsr_closure =
  cl_code :: str
  cl_at :: "'t option"

record 't nsr_unit =
  u_orgnr :: str
  u_name :: str
  u_municipality_number :: str
  u_is_school :: bool
  u_is_active :: bool
  u_is_primary_school :: bool
  u_is_private :: bool
  u_category_ids :: "str list"
  u_nace :: "(int \<times> str) list"
  u_grade_from :: "int option"
  u_grade_to :: "int option"
  u_language :: "str option"
  u_website :: "str option"
  u_visiting :: nsr_address
  u_postal :: nsr_address
  u_closure :: "'t nsr_closure option"
  u_changed_at :: "'t option"

section \<open>The scope filter\<close>

record nsr_scope_facts =
  sf_is_school :: bool
  sf_is_active :: bool
  sf_is_primary_school :: bool
  sf_municipality_number :: str
  sf_category_ids :: "str list"
  sf_primary_nace :: "str option"

datatype out_of_scope_reason =
  Not_A_School | Inactive | Not_Primary_School | Abroad | Adult_Education | Upper_Secondary

fun out_of_scope_code :: "out_of_scope_reason \<Rightarrow> str" where
  "out_of_scope_code Not_A_School = lit ''not_a_school''"
| "out_of_scope_code Inactive = lit ''inactive''"
| "out_of_scope_code Not_Primary_School = lit ''not_grunnskole''"
| "out_of_scope_code Abroad = lit ''abroad''"
| "out_of_scope_code Adult_Education = lit ''adult_education''"
| "out_of_scope_code Upper_Secondary = lit ''upper_secondary''"

datatype scope_decision = In_Scope | Out_Of_Scope out_of_scope_reason

fun scope_code :: "scope_decision \<Rightarrow> str" where
  "scope_code In_Scope = lit ''in_scope''"
| "scope_code (Out_Of_Scope r) = out_of_scope_code r"

definition scope_reason_codes :: "str list" where
  "scope_reason_codes = map lit
     [''in_scope'', ''not_a_school'', ''inactive'', ''not_grunnskole'', ''abroad'',
      ''adult_education'', ''upper_secondary'']"

definition classify :: "nsr_scope_facts \<Rightarrow> scope_decision" where
  "classify f =
     (if \<not> sf_is_school f then Out_Of_Scope Not_A_School
      else if \<not> sf_is_active f then Out_Of_Scope Inactive
      else if \<not> sf_is_primary_school f then Out_Of_Scope Not_Primary_School
      else if sf_municipality_number f = lit ''2599'' then Out_Of_Scope Abroad
      else if list_ex (\<lambda>c. c = lit ''10'' \<or> c = lit ''25'') (sf_category_ids f)
        then Out_Of_Scope Adult_Education
      else (case sf_primary_nace f of
          Some code \<Rightarrow>
            if code = lit ''85.593'' then Out_Of_Scope Adult_Education
            else if prefix (lit ''85.3'') code then Out_Of_Scope Upper_Secondary
            else In_Scope
        | None \<Rightarrow> In_Scope))"

definition effective_in_scope :: "bool \<Rightarrow> bool option \<Rightarrow> bool" where
  "effective_in_scope classified_in_scope operator_override =
     unwrap_or operator_override classified_in_scope"

definition primary_nace :: "(int \<times> str) list \<Rightarrow> str option" where
  "primary_nace codes = map_option snd (List.find (\<lambda>(priority, _). priority = 1) codes)"

definition scope_facts :: "'t nsr_unit \<Rightarrow> nsr_scope_facts" where
  "scope_facts u =
     \<lparr>sf_is_school = u_is_school u, sf_is_active = u_is_active u,
      sf_is_primary_school = u_is_primary_school u,
      sf_municipality_number = u_municipality_number u,
      sf_category_ids = u_category_ids u,
      sf_primary_nace = primary_nace (u_nace u)\<rparr>"

lemma classify_In_Scope:
  "classify f = In_Scope \<longleftrightarrow>
     sf_is_school f \<and> sf_is_active f \<and> sf_is_primary_school f \<and>
     sf_municipality_number f \<noteq> lit ''2599'' \<and>
     lit ''10'' \<notin> set (sf_category_ids f) \<and> lit ''25'' \<notin> set (sf_category_ids f) \<and>
     (\<forall>code. sf_primary_nace f = Some code \<longrightarrow>
        code \<noteq> lit ''85.593'' \<and> \<not> prefix (lit ''85.3'') code)"
  by (auto simp: classify_def list_ex_iff split: option.splits)

lemma classify_inactive: "classify (scope_facts u) = In_Scope \<Longrightarrow> u_is_active u"
  by (simp add: classify_In_Scope scope_facts_def)

lemma scope_code_known: "scope_code d \<in> set scope_reason_codes"
proof (cases d)
  case (Out_Of_Scope r)
  then show ?thesis by (cases r) (simp_all add: scope_reason_codes_def)
qed (simp add: scope_reason_codes_def)

lemma scope_code_inject: "scope_code a = scope_code b \<Longrightarrow> a = b"
proof (cases a; cases b)
  fix r r' assume "a = Out_Of_Scope r" "b = Out_Of_Scope r'" "scope_code a = scope_code b"
  then show "a = b" by (cases r; cases r') simp_all
next
  fix r assume "a = In_Scope" "b = Out_Of_Scope r" "scope_code a = scope_code b"
  then show "a = b" by (cases r) simp_all
next
  fix r assume "a = Out_Of_Scope r" "b = In_Scope" "scope_code a = scope_code b"
  then show "a = b" by (cases r) simp_all
qed simp

text \<open>NACE codes of lower priority never decide: only the first entry of priority 1 is read.\<close>

lemma primary_nace_first:
  "primary_nace codes = Some c \<longleftrightarrow>
     (\<exists>xs ys. codes = xs @ (1, c) # ys \<and> (\<forall>p\<in>set xs. fst p \<noteq> 1))"
proof (induction codes)
  case (Cons p codes)
  obtain a b where p: "p = (a, b)" by force
  show ?case
  proof (cases "a = 1")
    case True
    then show ?thesis by (auto simp: p primary_nace_def Cons_eq_append_conv)
  next
    case False
    then have "primary_nace (p # codes) = primary_nace codes" by (simp add: p primary_nace_def)
    with Cons.IH False show ?thesis
      by (auto simp: p Cons_eq_append_conv) (metis append_Cons set_ConsD fst_conv)+
  qed
qed (simp add: primary_nace_def)

end
