(* ===== verification/Sync_Types.thy ===== *)
theory Sync_Types
  imports Register_Source
begin

text \<open>
  \<open>register/sync/types.rs\<close> and \<open>time.rs\<close>: the planner's vocabulary. Row ids are the caller's
  (\<open>'id\<close>, of which only equality and order are used). \<open>Ref::New\<close> carries a \<open>u32\<close>: the model
  keeps it a natural number and panics where the code's conversion would.
\<close>

section \<open>Time\<close>

text \<open>The Europe/Oslo calendar date of an instant is \<open>jiff\<close>'s, a parameter.\<close>

record ('t, 'd) moment =
  m_now :: 't
  m_today :: 'd

definition moment_at :: "('t \<Rightarrow> 'd) \<Rightarrow> 't \<Rightarrow> ('t, 'd) moment" where
  "moment_at oslo_today now = \<lparr>m_now = now, m_today = oslo_today now\<rparr>"

section \<open>Rows\<close>

datatype 'id ref = Existing 'id | New nat

datatype municipality_status = Municipality_Active | Dissolved

datatype municipality_source = Kartverket | Manual

fun municipality_source_code :: "municipality_source \<Rightarrow> str" where
  "municipality_source_code Kartverket = lit ''kartverket''"
| "municipality_source_code Manual = lit ''manual''"

record 'id municipality_snapshot =
  ms_id :: 'id
  ms_number :: str
  ms_name :: str
  ms_official_name :: "str option"
  ms_county_number :: str
  ms_county_name :: str
  ms_slug :: str
  ms_status :: municipality_status
  ms_source :: municipality_source
  ms_names :: "official_name list"

datatype origin = Register | Submitted

datatype verification = Listed | Pending | Verified | Rejected | Held

datatype school_status = School_Active | School_Closed

datatype ownership = Public | Private

fun ownership_code :: "ownership \<Rightarrow> str" where
  "ownership_code Public = lit ''public''"
| "ownership_code Private = lit ''private''"

record school_attributes =
  a_ownership :: "ownership option"
  a_grade_from :: "int option"
  a_grade_to :: "int option"
  a_language :: "str option"
  a_website :: "str option"
  a_street_address :: "str option"
  a_postcode :: "str option"
  a_post_town :: "str option"

definition attributes_from_unit :: "'t nsr_unit \<Rightarrow> school_attributes" where
  "attributes_from_unit u =
     (let address = (if na_street (u_visiting u) \<noteq> None then u_visiting u else u_postal u)
      in \<lparr>a_ownership = Some (if u_is_private u then Private else Public),
          a_grade_from = u_grade_from u, a_grade_to = u_grade_to u,
          a_language = u_language u, a_website = u_website u,
          a_street_address = na_street address, a_postcode = na_postcode address,
          a_post_town = na_post_town address\<rparr>)"

record 'id school_snapshot =
  s_id :: 'id
  s_municipality_id :: 'id
  s_origin :: origin
  s_orgnr :: "str option"
  s_register_name :: "str option"
  s_display_name :: str
  s_display_name_curated :: bool
  s_slug :: "str option"
  s_verification :: verification
  s_status :: school_status
  s_in_scope :: bool
  s_scope_override :: "bool option"
  s_has_live_fau :: bool
  s_attributes :: school_attributes

record 'id register_snapshot =
  municipalities :: "'id municipality_snapshot list"
  schools :: "'id school_snapshot list"
  school_orgnr_history :: "(str \<times> 'id) list"
  school_slug_history :: "('id \<times> str \<times> 'id) list"
  municipality_slug_history :: "(str \<times> 'id) list"

definition empty_snapshot :: "'id register_snapshot" where
  "empty_snapshot = \<lparr>municipalities = [], schools = [], school_orgnr_history = [],
     school_slug_history = [], municipality_slug_history = []\<rparr>"

section \<open>Inputs\<close>

datatype run_kind = Seed | Sync

record ('t, 'd) sync_inputs =
  in_municipalities :: "municipality_record list"
  in_code_changes :: "'d code_change list"
  in_units :: "'t nsr_unit list"
  in_kind :: run_kind
  in_at :: "('t, 'd) moment"

section \<open>Operations\<close>

datatype ('id, 'd) municipality_op =
  Municipality_Create (mc_new: nat) (mc_number: str) (mc_name: str) (mc_official_name: "str option")
    (mc_county_number: str) (mc_county_name: str) (mc_slug: str) (mc_names: "official_name list")
    (mc_source: municipality_source)
| Renumber (mn_id: 'id) (mn_from: str) (mn_to: str) (mn_valid_from: 'd) (mn_name: "str option")
    (mn_old_slug: str) (mn_new_slug: str)
| Municipality_Rename (mn_id: 'id) (mren_name: str) (mn_old_slug: str) (mn_new_slug: str)
| Update_Details (mn_id: 'id) (mu_official_name: "str option") (mu_county_number: str)
    (mu_county_name: str) (mu_names: "official_name list")

record slug_change =
  sc_old :: "str option"
  sc_new :: str

datatype create_verification = Create_Listed | Create_Held

fun create_verification_code :: "create_verification \<Rightarrow> str" where
  "create_verification_code Create_Listed = lit ''listed''"
| "create_verification_code Create_Held = lit ''held''"

datatype closure_reason = Closed | Merged | Duplicate | Out_Of_Scope_Closure

fun closure_reason_code :: "closure_reason \<Rightarrow> str" where
  "closure_reason_code Closed = lit ''closed''"
| "closure_reason_code Merged = lit ''merged''"
| "closure_reason_code Duplicate = lit ''duplicate''"
| "closure_reason_code Out_Of_Scope_Closure = lit ''out_of_scope''"

datatype ('id, 't, 'd) school_op =
  School_Create (c_new: nat) (c_municipality: "'id ref") (c_orgnr: str) (c_register_name: str)
    (c_display_name: str) (c_slug: "str option") (c_verification: create_verification)
    (c_in_scope: bool) (c_attributes: school_attributes) (c_source_changed_at: "'t option")
| School_Rename (o_id: 'id) (r_register_name: str) (r_display_name: "str option")
    (r_slug: "slug_change option")
| Update_Attributes (o_id: 'id) (ua_attributes: school_attributes)
| Move (o_id: 'id) (mv_from: 'id) (mv_to: "'id ref") (mv_slug: "slug_change option")
| Close (o_id: 'id) (cl_reason: closure_reason) (cl_closed_on: 'd) (cl_successor: "'id ref option")

datatype review_kind =
  Closure_With_Fau | Possible_Reregistration | Possible_Submission_Match
| Municipality_Split_Or_Merge | Review_Mass_Change | Unknown_Municipality_Number
| Fau_Several_At_School | Fau_Several_Schools | Fau_Match_Conflict
| Submission_Matches_Listed_School

fun review_kind_code :: "review_kind \<Rightarrow> str" where
  "review_kind_code Closure_With_Fau = lit ''closure_with_fau''"
| "review_kind_code Possible_Reregistration = lit ''possible_reregistration''"
| "review_kind_code Possible_Submission_Match = lit ''possible_submission_match''"
| "review_kind_code Municipality_Split_Or_Merge = lit ''municipality_split_or_merge''"
| "review_kind_code Review_Mass_Change = lit ''mass_change''"
| "review_kind_code Unknown_Municipality_Number = lit ''unknown_municipality_number''"
| "review_kind_code Fau_Several_At_School = lit ''fau_several_at_school''"
| "review_kind_code Fau_Several_Schools = lit ''fau_several_schools''"
| "review_kind_code Fau_Match_Conflict = lit ''fau_match_conflict''"
| "review_kind_code Submission_Matches_Listed_School = lit ''submission_matches_listed_school''"

definition review_kind_codes :: "str list" where
  "review_kind_codes = map lit
     [''closure_with_fau'', ''possible_reregistration'', ''possible_submission_match'',
      ''municipality_split_or_merge'', ''mass_change'', ''unknown_municipality_number'',
      ''fau_several_at_school'', ''fau_several_schools'', ''fau_match_conflict'',
      ''submission_matches_listed_school'']"

record 'id review_item =
  ri_kind :: review_kind
  ri_school :: "'id ref option"
  ri_other_school :: "'id ref option"
  ri_municipality :: "'id ref option"
  ri_details :: "(str \<times> str) list"

record counts =
  n_municipalities_created :: nat
  n_municipalities_updated :: nat
  n_renumbered :: nat
  n_renamed :: nat
  n_schools_created :: nat
  n_schools_renamed :: nat
  n_schools_updated :: nat
  n_attribute_losses :: nat
  n_schools_moved :: nat
  n_schools_closed :: nat
  n_schools_held :: nat
  n_reviews :: nat
  n_skipped :: nat

definition default_counts :: counts where
  "default_counts = \<lparr>n_municipalities_created = 0, n_municipalities_updated = 0, n_renumbered = 0,
     n_renamed = 0, n_schools_created = 0, n_schools_renamed = 0, n_schools_updated = 0,
     n_attribute_losses = 0, n_schools_moved = 0, n_schools_closed = 0, n_schools_held = 0,
     n_reviews = 0, n_skipped = 0\<rparr>"

record ('id, 't, 'd) sync_plan =
  p_municipality_ops :: "('id, 'd) municipality_op list"
  p_school_ops :: "('id, 't, 'd) school_op list"
  p_reviews :: "'id review_item list"
  p_counts :: counts

datatype abort_reason =
  Empty_Source (es_source: str)
| Mass_Change (ab_closes: nat) (ab_renames: nat) (ab_attribute_losses: nat) (ab_active: nat)

datatype ('id, 't, 'd) sync_outcome =
  No_Change | Apply "('id, 't, 'd) sync_plan" | Abort abort_reason counts

section \<open>Facts\<close>

text \<open>The attributes never mix the two addresses.\<close>

lemma attributes_one_address:
  "\<exists>ad\<in>{u_visiting u, u_postal u}.
     a_street_address (attributes_from_unit u) = na_street ad \<and>
     a_postcode (attributes_from_unit u) = na_postcode ad \<and>
     a_post_town (attributes_from_unit u) = na_post_town ad"
  by (auto simp: attributes_from_unit_def Let_def)

lemma review_kind_code_known: "review_kind_code k \<in> set review_kind_codes"
  by (cases k) (simp_all add: review_kind_codes_def)

end
