(* ===== verification/Municipalities.thy ===== *)
theory Municipalities
  imports Ordered_Map Slug Sync_Types
begin

text \<open>
  \<open>register/sync/municipalities.rs\<close>: step 1 of a run. The code's mutable locals (\<open>ops\<close>,
  \<open>reviews\<close>, \<open>by_number\<close>, \<open>working\<close>, \<open>blocked_numbers\<close>, \<open>next_new\<close>) are the fields of the
  record \<open>mwork\<close>, which each loop threads. Indexing a map (\<open>working[&id]\<close>) and the
  \<open>expect\<close>s panic: those branches are \<open>None\<close>.
\<close>

section \<open>State\<close>

definition svalbard_number :: str where
  "svalbard_number = lit ''2100''"

record 'id municipality_state =
  by_number :: "(str, 'id ref) btree"
  blocked_numbers :: "str set"
  blocked_ids :: "'id set"

record ('id, 'd) municipality_plan =
  mpl_ops :: "('id, 'd) municipality_op list"
  mpl_reviews :: "'id review_item list"
  mpl_state :: "'id municipality_state"

record 'id working =
  w_row :: "'id municipality_snapshot"
  w_number :: str
  w_name :: str
  w_slug :: str

record ('id, 'd) mwork =
  mw_ops :: "('id, 'd) municipality_op list"
  mw_reviews :: "'id review_item list"
  mw_by_number :: "(str, 'id ref) btree"
  mw_working :: "('id, 'id working) btree"
  mw_blocked :: "str set"
  mw_next_new :: nat

section \<open>Helpers\<close>

definition record_review :: "municipality_record \<Rightarrow> string \<Rightarrow> 'id option \<Rightarrow> 'id review_item" where
  "record_review r reason i =
     \<lparr>ri_kind = Municipality_Split_Or_Merge, ri_school = None, ri_other_school = None,
      ri_municipality = map_option Existing i,
      ri_details = [(lit ''reason'', lit reason), (lit ''number'', mr_number r),
        (lit ''name'', mr_norwegian_name r)]\<rparr>"

definition sorted_names :: "official_name list \<Rightarrow> official_name list" where
  "sorted_names names =
     sort_by (\<lambda>a b. (on_priority a, on_language a, on_name a) \<le> (on_priority b, on_language b, on_name b)) names"

definition details_differ :: "'id municipality_snapshot \<Rightarrow> municipality_record \<Rightarrow> bool" where
  "details_differ row r =
     (ms_official_name row \<noteq> Some (mr_official_name r) \<or>
      ms_county_number row \<noteq> mr_county_number r \<or>
      ms_county_name row \<noteq> mr_county_name r \<or>
      sorted_names (ms_names row) \<noteq> sorted_names (mr_names r))"

definition join_comma :: "str list \<Rightarrow> str" where
  "join_comma items = join (lit '','') items"

fun earliest :: "'d::linorder list \<Rightarrow> 'd option" where
  "earliest [] = None"
| "earliest (x # xs) = Some (foldl min x xs)"

section \<open>The steps of \<open>plan_municipalities\<close>\<close>

text \<open>The active rows, by id and by number.\<close>

definition load_row :: "('id::linorder, 'd) mwork \<Rightarrow> 'id municipality_snapshot \<Rightarrow> ('id, 'd) mwork" where
  "load_row st row =
     (if ms_status row = Municipality_Active then
        st\<lparr>mw_by_number := bt_insert (ms_number row) (Existing (ms_id row)) (mw_by_number st),
           mw_working := bt_insert (ms_id row)
             \<lparr>w_row = row, w_number = ms_number row, w_name = ms_name row, w_slug = ms_slug row\<rparr>
             (mw_working st)\<rparr>
      else st)"

definition load_rows :: "'id::linorder municipality_snapshot list \<Rightarrow> ('id, 'd) mwork" where
  "load_rows rows =
     foldl load_row \<lparr>mw_ops = [], mw_reviews = [], mw_by_number = [], mw_working = [],
       mw_blocked = {}, mw_next_new = 0\<rparr> rows"

text \<open>SSB's changes by old code, without rows that change nothing and old codes Kartverket
  still lists.\<close>

definition group_changes :: "str set \<Rightarrow> 'd code_change list \<Rightarrow> (str, 'd code_change list) btree" where
  "group_changes kartverket changes =
     foldl (\<lambda>groups c.
       if old_code c = new_code c \<and> old_name c = new_name c then groups
       else if old_code c \<in> kartverket then groups
       else bt_modify (old_code c) [] (\<lambda>cs. cs @ [c]) groups) [] changes"

definition group_targets :: "'d code_change list \<Rightarrow> str list" where
  "group_targets changes = bt_keys (bt_collect (map (\<lambda>c. (new_code c, ())) changes))"

definition count_targets :: "(str, 'd code_change list) btree \<Rightarrow> (str, nat) btree" where
  "count_targets groups =
     foldl (\<lambda>m changes. foldl (\<lambda>m t. bt_modify t 0 Suc m) m (group_targets changes)) []
       (bt_values groups)"

definition order_groups ::
  "(str, 'd::linorder code_change list) btree \<Rightarrow> (str \<times> 'd code_change list) list option" where
  "order_groups groups =
     (if list_ex (\<lambda>(_, changes). changes = []) groups then None
      else Some (sort_by (\<lambda>(a_code, a) (b_code, b).
        (the (earliest (map occurred_on a)), a_code) \<le> (the (earliest (map occurred_on b)), b_code))
        groups))"

text \<open>What becomes of one group: \<open>continue\<close>, or a reason to block it.\<close>

datatype 's verdict = Continue 's | Block_For string

definition renumber_group ::
  "ucd \<Rightarrow> (str, municipality_record) btree \<Rightarrow> ('id::linorder, 'd) mwork \<Rightarrow> str \<Rightarrow> 'd code_change list
     \<Rightarrow> str \<Rightarrow> 'id \<Rightarrow> ('id, 'd) mwork verdict option" where
  "renumber_group u records_by_number st old changes to i =
     (case (bt_get (mw_working st) i, changes) of
        (Some w, c0 # _) \<Rightarrow>
          if ms_source (w_row w) = Manual then Some (Continue st)
          else
            let name = (case bt_get records_by_number to of None \<Rightarrow> w_name w | Some r \<Rightarrow> mr_norwegian_name r)
            in if to \<in> mw_blocked st \<or> old \<in> mw_blocked st then Some (Block_For ''unresolved_chain'')
            else if bt_contains (mw_by_number st) to then Some (Block_For ''target_in_use'')
            else (case municipality_slug u to name of
                Inr new_slug \<Rightarrow>
                  let renamed = (if name \<noteq> w_name w then Some name else None)
                  in Some (Continue (st\<lparr>
                    mw_ops := mw_ops st @ [Renumber i old to (occurred_on c0) renamed (w_slug w) new_slug],
                    mw_by_number := bt_insert to (Existing i) (bt_remove old (mw_by_number st)),
                    mw_working := bt_insert i
                      (w\<lparr>w_number := to, w_slug := new_slug, w_name := unwrap_or renamed (w_name w)\<rparr>)
                      (mw_working st)\<rparr>))
              | Inl _ \<Rightarrow> Some (Block_For ''unsluggable''))
      | _ \<Rightarrow> None)"

definition judge_group ::
  "ucd \<Rightarrow> (str, nat) btree \<Rightarrow> (str, municipality_record) btree \<Rightarrow> ('id::linorder, 'd) mwork
     \<Rightarrow> str \<Rightarrow> 'd code_change list \<Rightarrow> (str, str) btree \<Rightarrow> 'id option
     \<Rightarrow> ('id, 'd) mwork verdict option" where
  "judge_group u gone records_by_number st old changes targets holder =
     (let one_to_one =
        (case bt_keys targets of
           to # _ \<Rightarrow>
             if length targets = 1
             then map_option (\<lambda>n. if n = 1 then Some to else None) (bt_get gone to)
             else Some None
         | [] \<Rightarrow> Some None)
      in case one_to_one of None \<Rightarrow> None
         | Some one \<Rightarrow>
           (case (one, holder) of
              (_, None) \<Rightarrow>
                if bt_contains gone old then Some (Block_For ''unresolved_chain'')
                else (case one of Some _ \<Rightarrow> Some (Continue st)
                      | None \<Rightarrow> if 1 < length targets then Some (Block_For ''split'') else Some (Block_For ''merge''))
            | (Some to, Some i) \<Rightarrow> renumber_group u records_by_number st old changes to i
            | (None, Some _) \<Rightarrow>
                if 1 < length targets then Some (Block_For ''split'') else Some (Block_For ''merge'')))"

definition block_group ::
  "('id, 'd) mwork \<Rightarrow> str \<Rightarrow> 'd code_change \<Rightarrow> (str, str) btree \<Rightarrow> 'id option \<Rightarrow> string \<Rightarrow> ('id, 'd) mwork" where
  "block_group st old c0 targets holder reason =
     (let (codes_key, names_key) =
        (if reason = ''unresolved_chain'' then (''new_code'', ''new_name'') else (''new_codes'', ''new_names''))
      in st\<lparr>mw_blocked := insert old (mw_blocked st) \<union> set (bt_keys targets),
            mw_reviews := mw_reviews st @
              [\<lparr>ri_kind = Municipality_Split_Or_Merge, ri_school = None, ri_other_school = None,
                ri_municipality = map_option Existing holder,
                ri_details = [(lit ''reason'', lit reason), (lit ''old_code'', old),
                  (lit ''old_name'', old_name c0),
                  (lit codes_key, join_comma (bt_keys targets)),
                  (lit names_key, join_comma (bt_values targets))]\<rparr>]\<rparr>)"

definition group_holder :: "('id, 'd) mwork \<Rightarrow> str \<Rightarrow> 'id option" where
  "group_holder st old = (case bt_get (mw_by_number st) old of Some (Existing i) \<Rightarrow> Some i | _ \<Rightarrow> None)"

definition process_group ::
  "ucd \<Rightarrow> (str, nat) btree \<Rightarrow> (str, municipality_record) btree \<Rightarrow> ('id::linorder, 'd) mwork
     \<Rightarrow> str \<times> 'd code_change list \<Rightarrow> ('id, 'd) mwork option" where
  "process_group u gone records_by_number st g =
     (case g of (old, changes) \<Rightarrow>
       let targets = bt_collect (map (\<lambda>c. (new_code c, new_name c)) changes);
           holder = group_holder st old
       in if holder = None \<and> list_all (bt_contains (mw_by_number st)) (bt_keys targets) then Some st
          else (case judge_group u gone records_by_number st old changes targets holder of
              None \<Rightarrow> None
            | Some (Continue st') \<Rightarrow> Some st'
            | Some (Block_For reason) \<Rightarrow>
                (case changes of [] \<Rightarrow> None
                 | c0 # _ \<Rightarrow> Some (block_group st old c0 targets holder reason))))"

text \<open>Kartverket against the municipality holding each number.\<close>

definition compare_record ::
  "ucd \<Rightarrow> run_kind \<Rightarrow> ('id::linorder, 'd) mwork \<Rightarrow> municipality_record \<Rightarrow> ('id, 'd) mwork option" where
  "compare_record u kind st r =
     (if mr_number r \<in> mw_blocked st then Some st
      else (case bt_get (mw_by_number st) (mr_number r) of
          Some (Existing i) \<Rightarrow>
            (case bt_get (mw_working st) i of
               None \<Rightarrow> None
             | Some w \<Rightarrow>
                 if ms_source (w_row w) = Manual then Some st
                 else
                   let st1 =
                     (if mr_norwegian_name r \<noteq> w_name w then
                        (case municipality_slug u (mr_number r) (mr_norwegian_name r) of
                           Inr new_slug \<Rightarrow>
                             st\<lparr>mw_ops := mw_ops st @ [Municipality_Rename i (mr_norwegian_name r) (w_slug w) new_slug]\<rparr>
                         | Inl _ \<Rightarrow> st\<lparr>mw_reviews := mw_reviews st @ [record_review r ''unsluggable'' (Some i)]\<rparr>)
                      else st)
                   in Some (if details_differ (w_row w) r then
                       st1\<lparr>mw_ops := mw_ops st1 @ [Update_Details i (Some (mr_official_name r))
                         (mr_county_number r) (mr_county_name r) (mr_names r)]\<rparr>
                     else st1))
        | Some (New _) \<Rightarrow> Some st
        | None \<Rightarrow>
            (case (kind, municipality_slug u (mr_number r) (mr_norwegian_name r)) of
               (Seed, Inr slug) \<Rightarrow>
                 Some (st\<lparr>mw_ops := mw_ops st @
                     [Municipality_Create (mw_next_new st) (mr_number r) (mr_norwegian_name r)
                       (Some (mr_official_name r)) (mr_county_number r) (mr_county_name r) slug
                       (mr_names r) Kartverket],
                   mw_by_number := bt_insert (mr_number r) (New (mw_next_new st)) (mw_by_number st),
                   mw_next_new := Suc (mw_next_new st)\<rparr>)
             | (Seed, Inl _) \<Rightarrow>
                 Some (st\<lparr>mw_reviews := mw_reviews st @ [record_review r ''unsluggable'' None]\<rparr>)
             | (Sync, _) \<Rightarrow>
                 Some (st\<lparr>mw_reviews := mw_reviews st @ [record_review r ''unknown_number'' None]\<rparr>))))"

definition report_absent :: "str set \<Rightarrow> ('id, 'd) mwork \<Rightarrow> 'id working \<Rightarrow> ('id, 'd) mwork" where
  "report_absent kartverket st w =
     (if ms_source (w_row w) = Kartverket \<and> w_number w \<notin> kartverket \<and> w_number w \<notin> mw_blocked st then
        st\<lparr>mw_reviews := mw_reviews st @
          [\<lparr>ri_kind = Municipality_Split_Or_Merge, ri_school = None, ri_other_school = None,
            ri_municipality = Some (Existing (ms_id (w_row w))),
            ri_details = [(lit ''reason'', lit ''absent_from_kartverket''),
              (lit ''number'', w_number w), (lit ''name'', w_name w)]\<rparr>]\<rparr>
      else st)"

definition svalbard_needed :: "'t nsr_unit list \<Rightarrow> bool" where
  "svalbard_needed units =
     list_ex (\<lambda>u. u_municipality_number u = svalbard_number \<and> classify (scope_facts u) = In_Scope) units"

definition add_svalbard :: "'t nsr_unit list \<Rightarrow> ('id, 'd) mwork \<Rightarrow> ('id, 'd) mwork" where
  "add_svalbard units st =
     (if svalbard_needed units \<and> \<not> bt_contains (mw_by_number st) svalbard_number
         \<and> svalbard_number \<notin> mw_blocked st then
        st\<lparr>mw_ops := mw_ops st @
             [Municipality_Create (mw_next_new st) svalbard_number (lit ''Svalbard'') None
               (lit ''21'') (lit ''Svalbard'') (lit ''2100-svalbard'')
               [\<lparr>on_name = lit ''Svalbard'', on_language = lit ''no'', on_priority = 1\<rparr>] Manual],
           mw_by_number := bt_insert svalbard_number (New (mw_next_new st)) (mw_by_number st)\<rparr>
      else st)"

definition municipality_state_of :: "('id, 'd) mwork \<Rightarrow> 'id municipality_state" where
  "municipality_state_of st =
     \<lparr>by_number = mw_by_number st, blocked_numbers = mw_blocked st,
      blocked_ids = set (map (\<lambda>w. ms_id (w_row w))
        (filter (\<lambda>w. w_number w \<in> mw_blocked st) (bt_values (mw_working st))))\<rparr>"

definition plan_municipalities ::
  "ucd \<Rightarrow> 'id::linorder register_snapshot \<Rightarrow> ('t, 'd::linorder) sync_inputs \<Rightarrow> ('id, 'd) municipality_plan option" where
  "plan_municipalities u snapshot inp =
     (let kartverket = set (map mr_number (in_municipalities inp));
          st0 = load_rows (municipalities snapshot);
          groups = group_changes kartverket (in_code_changes inp);
          gone = count_targets groups;
          records_by_number = bt_collect (map (\<lambda>r. (mr_number r, r)) (in_municipalities inp));
          sorted_records = sort_by (\<lambda>a b. mr_number a \<le> mr_number b) (in_municipalities inp)
      in case order_groups groups of None \<Rightarrow> None
         | Some ordered \<Rightarrow>
           (case foldM (process_group u gone records_by_number) st0 ordered of None \<Rightarrow> None
            | Some st1 \<Rightarrow>
              (case foldM (compare_record u (in_kind inp)) st1 sorted_records of None \<Rightarrow> None
               | Some st2 \<Rightarrow>
                 (let st3 = foldl (report_absent kartverket) st2 (bt_values (mw_working st2));
                      st4 = add_svalbard (in_units inp) st3
                  in Some \<lparr>mpl_ops = mw_ops st4, mpl_reviews = mw_reviews st4,
                           mpl_state = municipality_state_of st4\<rparr>))))"

end
