(* ===== verification/Schools.thy ===== *)
theory Schools
  imports Search Municipalities
begin

text \<open>
  \<open>register/sync/schools.rs\<close>: step 5 of a run. The loop over the units sorts them into the
  fields of \<open>sorting\<close>; re-registrations and submission matches are placed by \<open>place_all\<close>;
  \<open>slug_book\<close> is the mutable book of slugs the mints go through. Panics (\<open>u32\<close> overflow of a
  \<open>Ref::New\<close> number, an exhausted slug search, the final \<open>expect\<close>) are \<open>None\<close>. The record
  \<open>jiff\<close> is the parameter for the calendar library.
\<close>

section \<open>Types\<close>

record ('t, 'd) jiff =
  oslo_today :: "'t \<Rightarrow> 'd"
  date_to_string :: "'d \<Rightarrow> str"

definition max_listed_orgnrs :: nat where
  "max_listed_orgnrs = 20"

record ('id, 't, 'd) school_plan =
  spl_ops :: "('id, 't, 'd) school_op list"
  spl_reviews :: "'id review_item list"
  spl_skipped :: nat

record ('id, 'd) closing =
  cg_school :: "'id school_snapshot"
  cg_reason :: closure_reason
  cg_closed_on :: 'd
  cg_reregistrable :: bool
  cg_successor :: "'id ref option"

record ('id, 'd) fau_closing =
  fc_school :: "'id school_snapshot"
  fc_reregistrable :: bool
  fc_reason :: closure_reason
  fc_closed_on :: 'd
  fc_reregistered :: bool

record ('id, 't) candidate =
  ca_unit :: "'t nsr_unit"
  ca_municipality :: "'id ref"

datatype placement = Successor "str option" | Held_Reregistration | Held_Submission | Placed_Listed

datatype 'id resolved = To "'id ref" | Blocked | Unknown

definition resolve :: "'id municipality_state \<Rightarrow> str \<Rightarrow> 'id resolved" where
  "resolve state number =
     (if number \<in> blocked_numbers state then Blocked
      else (case bt_get (by_number state) number of Some r \<Rightarrow> To r | None \<Rightarrow> Unknown))"

section \<open>The slug book\<close>

record 'id slug_book =
  sb_current :: "('id ref \<times> str) \<rightharpoonup> 'id ref"
  sb_history :: "('id ref \<times> str) \<rightharpoonup> 'id list"
  sb_closed :: "'id set"

definition book_school :: "'id slug_book \<Rightarrow> 'id school_snapshot \<Rightarrow> 'id slug_book" where
  "book_school book s =
     (let book1 = (case s_slug s of
          Some slug \<Rightarrow> book\<lparr>sb_current := hm_insert (Existing (s_municipality_id s), slug) (Existing (s_id s)) (sb_current book)\<rparr>
        | None \<Rightarrow> book)
      in if s_status s = School_Closed then book1\<lparr>sb_closed := insert (s_id s) (sb_closed book1)\<rparr> else book1)"

definition book_history :: "'id slug_book \<Rightarrow> 'id \<times> str \<times> 'id \<Rightarrow> 'id slug_book" where
  "book_history book h =
     (case h of (m, slug, s) \<Rightarrow>
        book\<lparr>sb_history := hm_insert (Existing m, slug)
          (unwrap_or (sb_history book (Existing m, slug)) [] @ [s]) (sb_history book)\<rparr>)"

definition book_new :: "'id register_snapshot \<Rightarrow> 'id slug_book" where
  "book_new snapshot =
     foldl book_history
       (foldl book_school \<lparr>sb_current = Map.empty, sb_history = Map.empty, sb_closed = {}\<rparr> (schools snapshot))
       (school_slug_history snapshot)"

definition book_release :: "'id slug_book \<Rightarrow> 'id school_snapshot \<Rightarrow> 'id slug_book" where
  "book_release book school =
     (let book1 = (case s_slug school of
          Some slug \<Rightarrow> book\<lparr>sb_current := hm_remove (Existing (s_municipality_id school), slug) (sb_current book)\<rparr>
        | None \<Rightarrow> book)
      in book1\<lparr>sb_closed := insert (s_id school) (sb_closed book1)\<rparr>)"

definition is_taken :: "'id slug_book \<Rightarrow> 'id ref \<Rightarrow> str \<Rightarrow> 'id ref \<Rightarrow> bool" where
  "is_taken book municipality slug me =
     ((case sb_current book (municipality, slug) of Some holder \<Rightarrow> holder \<noteq> me | None \<Rightarrow> False) \<or>
      (case sb_history book (municipality, slug) of
         Some holders \<Rightarrow> list_ex (\<lambda>h. Existing h \<noteq> me \<and> h \<notin> sb_closed book) holders
       | None \<Rightarrow> False))"

definition book_take :: "'id slug_book \<Rightarrow> 'id ref \<Rightarrow> str \<Rightarrow> 'id ref \<Rightarrow> 'id slug_book" where
  "book_take book municipality slug holder =
     book\<lparr>sb_current := hm_insert (municipality, slug) holder (sb_current book)\<rparr>"

definition mint ::
  "ucd \<Rightarrow> 'id slug_book \<Rightarrow> 'id ref \<Rightarrow> str \<Rightarrow> str option \<Rightarrow> 'id ref \<Rightarrow> (str \<times> 'id slug_book) option" where
  "mint u book municipality base post_town me =
     (case first_free_slug u base post_town (\<lambda>c. is_taken book municipality c me) of
        None \<Rightarrow> None
      | Some slug \<Rightarrow> Some (slug, book_take book municipality slug me))"

section \<open>Sorting the units\<close>

record ('id, 't, 'd) sorting =
  so_skipped :: nat
  so_unknown :: "(str, str list) btree"
  so_closings :: "('id, 'd) closing list"
  so_fau_closings :: "('id, 'd) fau_closing list"
  so_updates :: "('id school_snapshot \<times> 't nsr_unit \<times> 'id ref) list"
  so_candidates :: "('id, 't) candidate list"

definition closure_facts ::
  "('t, 'd) jiff \<Rightarrow> 't nsr_unit \<Rightarrow> ('t, 'd) moment \<Rightarrow> closure_reason \<times> 'd" where
  "closure_facts j u mom =
     (if u_is_active u then (Out_Of_Scope_Closure, m_today mom)
      else
        let reason = (case map_option cl_code (u_closure u) of
              Some c \<Rightarrow> if c = lit ''D'' then Duplicate else if c = lit ''F'' then Merged else Closed
            | None \<Rightarrow> Closed);
            closed_on = unwrap_or (map_option (oslo_today j) (Option.bind (u_closure u) cl_at)) (m_today mom)
        in (reason, closed_on))"

definition reregistrable :: "'t nsr_unit \<Rightarrow> bool" where
  "reregistrable u =
     (\<not> u_is_active u \<and>
      (case u_closure u of Some c \<Rightarrow> cl_code c = lit ''F'' \<or> cl_code c = lit ''S'' | None \<Rightarrow> False))"

definition note_unknown :: "'t nsr_unit \<Rightarrow> ('id, 't, 'd) sorting \<Rightarrow> ('id, 't, 'd) sorting" where
  "note_unknown u so =
     so\<lparr>so_skipped := Suc (so_skipped so),
        so_unknown := bt_modify (u_municipality_number u) [] (\<lambda>os. os @ [u_orgnr u]) (so_unknown so)\<rparr>"

definition sort_new ::
  "'id municipality_state \<Rightarrow> str set \<Rightarrow> bool \<Rightarrow> 't nsr_unit \<Rightarrow> ('id, 't, 'd) sorting \<Rightarrow> ('id, 't, 'd) sorting" where
  "sort_new state former classified u so =
     (if classified \<and> u_orgnr u \<notin> former then
        (case resolve state (u_municipality_number u) of
           To m \<Rightarrow> so\<lparr>so_candidates := so_candidates so @ [\<lparr>ca_unit = u, ca_municipality = m\<rparr>]\<rparr>
         | Blocked \<Rightarrow> so\<lparr>so_skipped := Suc (so_skipped so)\<rparr>
         | Unknown \<Rightarrow> note_unknown u so)
      else so)"

definition sort_known ::
  "('t, 'd) jiff \<Rightarrow> ('t, 'd) moment \<Rightarrow> 'id municipality_state \<Rightarrow> bool \<Rightarrow> 'id school_snapshot \<Rightarrow> 't nsr_unit
     \<Rightarrow> ('id, 't, 'd) sorting \<Rightarrow> ('id, 't, 'd) sorting" where
  "sort_known j mom state classified school u so =
     (if s_status school = School_Closed \<or> s_verification school \<notin> {Listed, Verified} then so
      else if s_municipality_id school \<in> blocked_ids state then so\<lparr>so_skipped := Suc (so_skipped so)\<rparr>
      else if \<not> u_is_active u \<or> \<not> effective_in_scope classified (s_scope_override school) then
        (let (reason, closed_on) = closure_facts j u mom
         in if s_has_live_fau school
            then so\<lparr>so_fau_closings := so_fau_closings so @
                   [\<lparr>fc_school = school, fc_reregistrable = reregistrable u, fc_reason = reason,
                     fc_closed_on = closed_on, fc_reregistered = False\<rparr>]\<rparr>
            else so\<lparr>so_closings := so_closings so @
                   [\<lparr>cg_school = school, cg_reason = reason, cg_closed_on = closed_on,
                     cg_reregistrable = reregistrable u, cg_successor = None\<rparr>]\<rparr>)
      else (case resolve state (u_municipality_number u) of
          To m \<Rightarrow> so\<lparr>so_updates := so_updates so @ [(school, u, m)]\<rparr>
        | Blocked \<Rightarrow> so\<lparr>so_skipped := Suc (so_skipped so)\<rparr>
        | Unknown \<Rightarrow> note_unknown u so))"

definition schools_by_orgnr :: "'id register_snapshot \<Rightarrow> str \<rightharpoonup> 'id school_snapshot" where
  "schools_by_orgnr snapshot =
     hm_collect (List.map_filter (\<lambda>s. map_option (\<lambda>o'. (o', s)) (s_orgnr s)) (schools snapshot))"

definition sort_unit ::
  "('t, 'd) jiff \<Rightarrow> 'id register_snapshot \<Rightarrow> ('t, 'd) moment \<Rightarrow> 'id municipality_state
     \<Rightarrow> ('id, 't, 'd) sorting \<Rightarrow> 't nsr_unit \<Rightarrow> ('id, 't, 'd) sorting" where
  "sort_unit j snapshot mom state so u =
     (let classified = (classify (scope_facts u) = In_Scope)
      in case schools_by_orgnr snapshot (u_orgnr u) of
           None \<Rightarrow> sort_new state (set (map fst (school_orgnr_history snapshot))) classified u so
         | Some school \<Rightarrow> sort_known j mom state classified school u so)"

definition sort_units ::
  "('t, 'd) jiff \<Rightarrow> 'id register_snapshot \<Rightarrow> ('t, 'd) sync_inputs \<Rightarrow> 'id municipality_state
     \<Rightarrow> ('id, 't, 'd) sorting" where
  "sort_units j snapshot inp state =
     foldl (sort_unit j snapshot (in_at inp) state)
       \<lparr>so_skipped = 0, so_unknown = [], so_closings = [], so_fau_closings = [], so_updates = [],
         so_candidates = []\<rparr>
       (in_units inp)"

section \<open>Placing the candidates\<close>

definition new_number :: "nat \<Rightarrow> nat option" where
  "new_number i = (if i < 2 ^ 32 then Some i else None)"

definition name_similarity :: "ucd \<Rightarrow> 'id school_snapshot \<Rightarrow> str \<Rightarrow> f32" where
  "name_similarity u school name =
     (let display = similarity u (s_display_name school) name
      in case s_register_name school of
           None \<Rightarrow> display
         | Some reg \<Rightarrow> max display (similarity u reg name))"

fun best_go ::
  "('id::linorder school_snapshot \<Rightarrow> f32) \<Rightarrow> f32 \<Rightarrow> ('id school_snapshot \<times> f32) option
     \<Rightarrow> 'id school_snapshot list \<Rightarrow> ('id school_snapshot \<times> f32) option" where
  "best_go score threshold found [] = found"
| "best_go score threshold found (item # items) =
     (let s = score item;
          better = (case found of None \<Rightarrow> True | Some (b, bst) \<Rightarrow> bst < s \<or> s = bst \<and> s_id item < s_id b)
      in best_go score threshold (if threshold \<le> s \<and> better then Some (item, s) else found) items)"

definition best ::
  "'id::linorder school_snapshot list \<Rightarrow> ('id school_snapshot \<Rightarrow> f32) \<Rightarrow> f32 \<Rightarrow> ('id school_snapshot \<times> f32) option" where
  "best items score threshold = best_go score threshold None items"

datatype pred_kind = Pred_Closing nat | Pred_Fau nat

type_synonym match_entry = "nat \<times> pred_kind \<times> f32"

definition in_municipality :: "('id, 't) candidate \<Rightarrow> 'id \<Rightarrow> bool" where
  "in_municipality cand m = (Existing m = ca_municipality cand)"

definition candidate_matches ::
  "ucd \<Rightarrow> ('id, 'd) closing list \<Rightarrow> ('id, 'd) fau_closing list \<Rightarrow> nat \<times> ('id, 't) candidate \<Rightarrow> match_entry list" where
  "candidate_matches u closings fau_closings ic =
     (case ic of (i, cand) \<Rightarrow>
        List.map_filter (\<lambda>(k, c).
          if cg_reregistrable c \<and> in_municipality cand (s_municipality_id (cg_school c)) then
            (let sim = name_similarity u (cg_school c) (u_name (ca_unit cand))
             in if reregistration_threshold \<le> sim then Some (i, Pred_Closing k, sim) else None)
          else None) (enumerate 0 closings)
        @ List.map_filter (\<lambda>(k, f).
          if fc_reregistrable f \<and> in_municipality cand (s_municipality_id (fc_school f)) then
            (let sim = name_similarity u (fc_school f) (u_name (ca_unit cand))
             in if reregistration_threshold \<le> sim then Some (i, Pred_Fau k, sim) else None)
          else None) (enumerate 0 fau_closings))"

definition all_matches ::
  "ucd \<Rightarrow> ('id, 't) candidate list \<Rightarrow> ('id, 'd) closing list \<Rightarrow> ('id, 'd) fau_closing list \<Rightarrow> match_entry list" where
  "all_matches u candidates closings fau_closings =
     concat (map (candidate_matches u closings fau_closings) (enumerate 0 candidates))"

definition pred_school ::
  "('id, 'd) closing list \<Rightarrow> ('id, 'd) fau_closing list \<Rightarrow> pred_kind \<Rightarrow> 'id school_snapshot" where
  "pred_school closings fau_closings p =
     (case p of Pred_Closing k \<Rightarrow> cg_school (closings ! k) | Pred_Fau k \<Rightarrow> fc_school (fau_closings ! k))"

text \<open>Similarity descending, then the candidate's orgnr, then an FAU predecessor first, then the
  predecessor's orgnr and id.\<close>

definition match_le ::
  "('id::linorder, 't) candidate list \<Rightarrow> ('id, 'd) closing list \<Rightarrow> ('id, 'd) fau_closing list
     \<Rightarrow> match_entry \<Rightarrow> match_entry \<Rightarrow> bool" where
  "match_le candidates closings fau_closings a b =
     (case (a, b) of ((i, p, sim), (i', p', sim')) \<Rightarrow>
        let key = (\<lambda>i p. (u_orgnr (ca_unit (candidates ! i)),
              (case p of Pred_Closing _ \<Rightarrow> True | Pred_Fau _ \<Rightarrow> False),
              unwrap_or (s_orgnr (pred_school closings fau_closings p)) [],
              s_id (pred_school closings fau_closings p)))
        in sim' < sim \<or> sim = sim' \<and> key i p \<le> key i' p')"

record ('id, 'd) placing =
  pl_placement :: "placement option list"
  pl_claimed :: "nat set"
  pl_closings :: "('id, 'd) closing list"
  pl_fau_closings :: "('id, 'd) fau_closing list"
  pl_reviews :: "'id review_item list"

definition reregistration_review ::
  "('id, 'd) fau_closing \<Rightarrow> ('id, 't) candidate \<Rightarrow> 'id ref \<Rightarrow> f32 \<Rightarrow> 'id review_item" where
  "reregistration_review f cand me sim =
     \<lparr>ri_kind = Possible_Reregistration, ri_school = Some (Existing (s_id (fc_school f))),
      ri_other_school = Some me, ri_municipality = Some (ca_municipality cand),
      ri_details = [(lit ''old_orgnr'', unwrap_or (s_orgnr (fc_school f)) []),
        (lit ''new_orgnr'', u_orgnr (ca_unit cand)),
        (lit ''old_name'', s_display_name (fc_school f)),
        (lit ''new_name'', u_name (ca_unit cand)),
        (lit ''similarity'', f32_show2 sim)]\<rparr>"

definition assign_match ::
  "('id, 't) candidate list \<Rightarrow> ('id, 'd) placing \<Rightarrow> match_entry \<Rightarrow> ('id, 'd) placing option" where
  "assign_match candidates pl m =
     (case m of (i, pred, sim) \<Rightarrow>
        if pl_placement pl ! i \<noteq> None then Some pl
        else (case pred of
            Pred_Closing k \<Rightarrow>
              if k \<in> pl_claimed pl then Some pl
              else (case new_number i of None \<Rightarrow> None
                | Some n \<Rightarrow>
                  let c = pl_closings pl ! k
                  in Some (pl\<lparr>pl_claimed := insert k (pl_claimed pl),
                       pl_closings := (pl_closings pl)[k := c\<lparr>cg_successor := Some (New n), cg_reason := Merged\<rparr>],
                       pl_placement := (pl_placement pl)[i := Some (Successor (s_slug (cg_school c)))]\<rparr>))
          | Pred_Fau k \<Rightarrow>
              (case new_number i of None \<Rightarrow> None
               | Some n \<Rightarrow>
                 let f = pl_fau_closings pl ! k
                 in Some (pl\<lparr>pl_fau_closings := (pl_fau_closings pl)[k := f\<lparr>fc_reregistered := True\<rparr>],
                      pl_reviews := pl_reviews pl @ [reregistration_review f (candidates ! i) (New n) sim],
                      pl_placement := (pl_placement pl)[i := Some Held_Reregistration]\<rparr>))))"

definition submission_pool :: "'id register_snapshot \<Rightarrow> ('id, 't) candidate \<Rightarrow> 'id school_snapshot list" where
  "submission_pool snapshot cand =
     filter (\<lambda>s. s_origin s = Submitted \<and> s_orgnr s = None \<and> s_status s = School_Active \<and>
       s_verification s \<in> {Pending, Verified} \<and> in_municipality cand (s_municipality_id s)) (schools snapshot)"

definition submission_review ::
  "'id school_snapshot \<Rightarrow> ('id, 't) candidate \<Rightarrow> 'id ref \<Rightarrow> f32 \<Rightarrow> 'id review_item" where
  "submission_review p cand me sim =
     \<lparr>ri_kind = Possible_Submission_Match, ri_school = Some (Existing (s_id p)),
      ri_other_school = Some me, ri_municipality = Some (ca_municipality cand),
      ri_details = [(lit ''orgnr'', u_orgnr (ca_unit cand)),
        (lit ''register_name'', u_name (ca_unit cand)),
        (lit ''submitted_name'', s_display_name p),
        (lit ''similarity'', f32_show2 sim)]\<rparr>"

definition place_submission ::
  "ucd \<Rightarrow> 'id::linorder register_snapshot \<Rightarrow> ('id, 'd) placing \<Rightarrow> nat \<times> ('id, 't) candidate \<Rightarrow> ('id, 'd) placing option" where
  "place_submission u snapshot pl ic =
     (case ic of (i, cand) \<Rightarrow>
        if pl_placement pl ! i \<noteq> None then Some pl
        else (case new_number i of None \<Rightarrow> None
          | Some n \<Rightarrow>
            (case best (submission_pool snapshot cand) (\<lambda>s. name_similarity u s (u_name (ca_unit cand)))
                submission_match_threshold of
               Some (p, sim) \<Rightarrow>
                 Some (pl\<lparr>pl_reviews := pl_reviews pl @ [submission_review p cand (New n) sim],
                          pl_placement := (pl_placement pl)[i := Some Held_Submission]\<rparr>)
             | None \<Rightarrow> Some (pl\<lparr>pl_placement := (pl_placement pl)[i := Some Placed_Listed]\<rparr>))))"

definition place_all ::
  "ucd \<Rightarrow> ('id::linorder, 't) candidate list \<Rightarrow> 'id register_snapshot \<Rightarrow> ('id, 'd) closing list
     \<Rightarrow> ('id, 'd) fau_closing list
     \<Rightarrow> (placement list \<times> ('id, 'd) closing list \<times> ('id, 'd) fau_closing list \<times> 'id review_item list) option" where
  "place_all u candidates snapshot closings fau_closings =
     (let matches = sort_by (match_le candidates closings fau_closings)
            (all_matches u candidates closings fau_closings);
          pl0 = \<lparr>pl_placement = replicate (length candidates) None, pl_claimed = {},
            pl_closings = closings, pl_fau_closings = fau_closings, pl_reviews = []\<rparr>
      in case foldM (assign_match candidates) pl0 matches of None \<Rightarrow> None
         | Some pl1 \<Rightarrow>
           (case foldM (place_submission u snapshot) pl1 (enumerate 0 candidates) of None \<Rightarrow> None
            | Some pl2 \<Rightarrow>
              (if list_ex (\<lambda>p. p = None) (pl_placement pl2) then None
               else Some (map the (pl_placement pl2), pl_closings pl2, pl_fau_closings pl2, pl_reviews pl2))))"

section \<open>A continuing school\<close>

definition rename_slug ::
  "ucd \<Rightarrow> 'id school_snapshot \<Rightarrow> 't nsr_unit \<Rightarrow> bool \<Rightarrow> str option \<Rightarrow> 'id slug_book
     \<Rightarrow> (slug_change option \<times> 'id slug_book) option" where
  "rename_slug u school un moving post_town book =
     (let me = Existing (s_id school); here = Existing (s_municipality_id school)
      in if moving \<or> s_display_name_curated school then Some (None, book)
         else (case s_slug school of
             Some old \<Rightarrow>
               (case opt_filter (\<lambda>base. base \<noteq> old) (ok_opt (slugify u (u_name un))) of
                  None \<Rightarrow> Some (None, book)
                | Some base \<Rightarrow>
                    (case mint u book here base post_town me of None \<Rightarrow> None
                     | Some (new, book') \<Rightarrow>
                         Some (if new \<noteq> old then Some \<lparr>sc_old = Some old, sc_new = new\<rparr> else None, book')))
           | None \<Rightarrow>
               (case ok_opt (slugify u (u_name un)) of
                  None \<Rightarrow> Some (None, book)
                | Some base \<Rightarrow>
                    (case mint u book here base post_town me of None \<Rightarrow> None
                     | Some (new, book') \<Rightarrow> Some (Some \<lparr>sc_old = None, sc_new = new\<rparr>, book')))))"

definition move_slug ::
  "ucd \<Rightarrow> 'id school_snapshot \<Rightarrow> str \<Rightarrow> 'id ref \<Rightarrow> str option \<Rightarrow> 'id slug_book
     \<Rightarrow> (slug_change option \<times> 'id slug_book) option" where
  "move_slug u school display_name dest post_town book =
     (case s_slug school of
        None \<Rightarrow> Some (None, book)
      | Some old \<Rightarrow>
          let base = (case slugify u display_name of Inr b \<Rightarrow> b | Inl _ \<Rightarrow> old)
          in (case mint u book dest base post_town (Existing (s_id school)) of None \<Rightarrow> None
              | Some (new, book') \<Rightarrow> Some (Some \<lparr>sc_old = Some old, sc_new = new\<rparr>, book')))"

definition plan_update ::
  "ucd \<Rightarrow> 'id slug_book \<times> ('id, 't, 'd) school_op list \<Rightarrow> 'id school_snapshot \<times> 't nsr_unit \<times> 'id ref
     \<Rightarrow> ('id slug_book \<times> ('id, 't, 'd) school_op list) option" where
  "plan_update u bo sut =
     (case (bo, sut) of ((book, ops), (school, un, dest)) \<Rightarrow>
        let here = Existing (s_municipality_id school);
            moving = (dest \<noteq> here);
            attributes = attributes_from_unit un;
            post_town = a_post_town attributes;
            renamed = (s_register_name school \<noteq> Some (u_name un));
            display_name = (if renamed \<and> \<not> s_display_name_curated school then u_name un else s_display_name school)
        in case (if renamed then rename_slug u school un moving post_town book else Some (None, book)) of
             None \<Rightarrow> None
           | Some (slug1, book1) \<Rightarrow>
             let ops1 = (if renamed then ops @ [School_Rename (s_id school) (u_name un)
                   (if s_display_name_curated school then None else Some (u_name un)) slug1] else ops);
                 ops2 = (if attributes \<noteq> s_attributes school then ops1 @ [Update_Attributes (s_id school) attributes] else ops1)
             in if \<not> moving then Some (book1, ops2)
                else (case move_slug u school display_name dest post_town book1 of
                    None \<Rightarrow> None
                  | Some (slug2, book2) \<Rightarrow>
                      Some (book2, ops2 @ [Move (s_id school) (s_municipality_id school) dest slug2])))"

section \<open>The plan\<close>

definition take_successor ::
  "('id, 't) candidate list \<Rightarrow> 'id slug_book \<Rightarrow> nat \<times> placement \<Rightarrow> 'id slug_book option" where
  "take_successor candidates book ip =
     (case ip of (i, placement) \<Rightarrow>
        (case placement of
           Successor (Some slug) \<Rightarrow>
             map_option (\<lambda>n. book_take book (ca_municipality (candidates ! i)) slug (New n)) (new_number i)
         | _ \<Rightarrow> Some book))"

definition close_op :: "('id, 'd) closing \<Rightarrow> ('id, 't, 'd) school_op" where
  "close_op c = Close (s_id (cg_school c)) (cg_reason c) (cg_closed_on c) (cg_successor c)"

definition create_school ::
  "ucd \<Rightarrow> 'id slug_book \<times> ('id, 't, 'd) school_op list \<Rightarrow> nat \<times> ('id, 't) candidate \<times> placement
     \<Rightarrow> ('id slug_book \<times> ('id, 't, 'd) school_op list) option" where
  "create_school u bo icp =
     (case (bo, icp) of ((book, ops), (i, cand, placement)) \<Rightarrow>
        (case new_number i of None \<Rightarrow> None
         | Some n \<Rightarrow>
           let me = New n;
               un = ca_unit cand;
               attributes = attributes_from_unit un;
               listed = (case ok_opt (slugify u (u_name un)) of
                   None \<Rightarrow> Some (Create_Listed, None, book)
                 | Some base \<Rightarrow>
                     (case mint u book (ca_municipality cand) base (a_post_town attributes) me of
                        None \<Rightarrow> None
                      | Some (slug, book') \<Rightarrow> Some (Create_Listed, Some slug, book')))
           in case (case placement of
                  Successor (Some slug) \<Rightarrow> Some (Create_Listed, Some slug, book)
                | Held_Reregistration \<Rightarrow> Some (Create_Held, None, book)
                | Held_Submission \<Rightarrow> Some (Create_Held, None, book)
                | Successor None \<Rightarrow> listed
                | Placed_Listed \<Rightarrow> listed) of
                None \<Rightarrow> None
              | Some (verification, slug, book') \<Rightarrow>
                  Some (book', ops @ [School_Create n (ca_municipality cand) (u_orgnr un) (u_name un)
                    (u_name un) slug verification True attributes (u_changed_at un)])))"

definition fau_review :: "('t, 'd) jiff \<Rightarrow> ('id, 'd) fau_closing \<Rightarrow> 'id review_item" where
  "fau_review j f =
     \<lparr>ri_kind = Closure_With_Fau, ri_school = Some (Existing (s_id (fc_school f))),
      ri_other_school = None,
      ri_municipality = Some (Existing (s_municipality_id (fc_school f))),
      ri_details = [(lit ''orgnr'', unwrap_or (s_orgnr (fc_school f)) []),
        (lit ''name'', s_display_name (fc_school f)),
        (lit ''reason'', closure_reason_code (fc_reason f)),
        (lit ''closed_on'', date_to_string j (fc_closed_on f))]\<rparr>"

definition unknown_review :: "str \<times> str list \<Rightarrow> 'id review_item" where
  "unknown_review no =
     (case no of (number, orgnrs) \<Rightarrow>
        \<lparr>ri_kind = Unknown_Municipality_Number, ri_school = None, ri_other_school = None,
         ri_municipality = None,
         ri_details = [(lit ''municipality_number'', number),
           (lit ''unit_count'', show_nat (length orgnrs)),
           (lit ''orgnrs'', join_comma (take max_listed_orgnrs orgnrs))]\<rparr>)"

definition plan_schools ::
  "ucd \<Rightarrow> ('t, 'd) jiff \<Rightarrow> 'id::linorder register_snapshot \<Rightarrow> ('t, 'd) sync_inputs \<Rightarrow> 'id municipality_state
     \<Rightarrow> ('id, 't, 'd) school_plan option" where
  "plan_schools u j snapshot inp state =
     (let so = sort_units j snapshot inp state;
          book0 = foldl book_release (book_new snapshot) (map cg_school (so_closings so));
          candidates = so_candidates so
      in case place_all u candidates snapshot (so_closings so) (so_fau_closings so) of None \<Rightarrow> None
         | Some (placements, closings, fau_closings, reviews) \<Rightarrow>
           (case foldM (take_successor candidates) book0 (enumerate 0 placements) of None \<Rightarrow> None
            | Some book1 \<Rightarrow>
              (case foldM (plan_update u) (book1, []) (so_updates so) of None \<Rightarrow> None
               | Some (book2, update_ops) \<Rightarrow>
                 (case foldM (create_school u) (book2, map close_op closings)
                     (enumerate 0 (zip candidates placements)) of None \<Rightarrow> None
                  | Some (book3, ops) \<Rightarrow>
                      Some \<lparr>spl_ops = ops @ update_ops,
                            spl_reviews = reviews
                              @ map (fau_review j) (filter (\<lambda>f. \<not> fc_reregistered f) fau_closings)
                              @ map unknown_review (so_unknown so),
                            spl_skipped = so_skipped so\<rparr>))))"

end
