(* ===== verification/Sync_Plan.thy ===== *)
theory Sync_Plan
  imports Schools
begin

text \<open>
  \<open>register/sync/mod.rs\<close>: one run's plan, or why it must not be applied. \<open>plan\<close> enforces the
  mass-change breaker, \<open>plan_accepting_mass_change\<close> does not.
\<close>

datatype breaker = Enforce | Accept

definition active_schools :: "'id register_snapshot \<Rightarrow> nat" where
  "active_schools snapshot =
     length (filter (\<lambda>s. s_status s = School_Active \<and> s_verification s \<in> {Listed, Verified}) (schools snapshot))"

definition mass_change :: "'id register_snapshot \<Rightarrow> counts \<Rightarrow> abort_reason option" where
  "mass_change snapshot c =
     (let active = active_schools snapshot;
          closes = n_schools_closed c; renames = n_schools_renamed c; losses = n_attribute_losses c;
          tripped = (0 < active \<and>
            (active * 2 < closes * 100 \<or> active * 5 < renames * 100 \<or> active * 5 < losses * 100))
      in if tripped then Some (Mass_Change closes renames (n_attribute_losses c) active) else None)"

definition lost :: "'a option \<Rightarrow> 'a option \<Rightarrow> bool" where
  "lost a b = (a \<noteq> None \<and> b = None)"

definition loses_a_field :: "school_attributes \<Rightarrow> school_attributes \<Rightarrow> bool" where
  "loses_a_field old new =
     (lost (a_ownership old) (a_ownership new) \<or> lost (a_grade_from old) (a_grade_from new) \<or>
      lost (a_grade_to old) (a_grade_to new) \<or> lost (a_language old) (a_language new) \<or>
      lost (a_website old) (a_website new) \<or> lost (a_street_address old) (a_street_address new) \<or>
      lost (a_postcode old) (a_postcode new) \<or> lost (a_post_town old) (a_post_town new))"

definition attribute_losses :: "'id register_snapshot \<Rightarrow> ('id, 't, 'd) school_op list \<Rightarrow> nat" where
  "attribute_losses snapshot ops =
     length (filter (\<lambda>op. case op of
         Update_Attributes i attributes \<Rightarrow>
           (case List.find (\<lambda>s. s_id s = i) (schools snapshot) of
              Some s \<Rightarrow> loses_a_field (s_attributes s) attributes
            | None \<Rightarrow> False)
       | _ \<Rightarrow> False) ops)"

fun tally_municipality :: "counts \<Rightarrow> ('id, 'd) municipality_op \<Rightarrow> counts" where
  "tally_municipality c (Municipality_Create _ _ _ _ _ _ _ _ _) =
     c\<lparr>n_municipalities_created := Suc (n_municipalities_created c)\<rparr>"
| "tally_municipality c (Renumber _ _ _ _ _ _ _) = c\<lparr>n_renumbered := Suc (n_renumbered c)\<rparr>"
| "tally_municipality c (Municipality_Rename _ _ _ _) = c\<lparr>n_renamed := Suc (n_renamed c)\<rparr>"
| "tally_municipality c (Update_Details _ _ _ _ _) =
     c\<lparr>n_municipalities_updated := Suc (n_municipalities_updated c)\<rparr>"

fun tally_school :: "counts \<Rightarrow> ('id, 't, 'd) school_op \<Rightarrow> counts" where
  "tally_school c (School_Create _ _ _ _ _ _ Create_Listed _ _ _) =
     c\<lparr>n_schools_created := Suc (n_schools_created c)\<rparr>"
| "tally_school c (School_Create _ _ _ _ _ _ Create_Held _ _ _) =
     c\<lparr>n_schools_held := Suc (n_schools_held c)\<rparr>"
| "tally_school c (School_Rename _ _ _ _) = c\<lparr>n_schools_renamed := Suc (n_schools_renamed c)\<rparr>"
| "tally_school c (Update_Attributes _ _) = c\<lparr>n_schools_updated := Suc (n_schools_updated c)\<rparr>"
| "tally_school c (Move _ _ _ _) = c\<lparr>n_schools_moved := Suc (n_schools_moved c)\<rparr>"
| "tally_school c (Close _ _ _ _) = c\<lparr>n_schools_closed := Suc (n_schools_closed c)\<rparr>"

definition tally ::
  "('id, 'd) municipality_op list \<Rightarrow> ('id, 't, 'd) school_op list \<Rightarrow> nat \<Rightarrow> nat \<Rightarrow> counts" where
  "tally municipality_ops school_ops reviews skipped =
     foldl tally_school
       (foldl tally_municipality (default_counts\<lparr>n_reviews := reviews, n_skipped := skipped\<rparr>) municipality_ops)
       school_ops"

definition normalise_units :: "'t nsr_unit list \<Rightarrow> 't nsr_unit list" where
  "normalise_units units = dedup_key u_orgnr (sort_by (\<lambda>a b. u_orgnr a \<le> u_orgnr b) units)"

definition plan_with ::
  "ucd \<Rightarrow> ('t, 'd::linorder) jiff \<Rightarrow> 'id::linorder register_snapshot \<Rightarrow> ('t, 'd) sync_inputs \<Rightarrow> breaker
     \<Rightarrow> ('id, 't, 'd) sync_outcome option" where
  "plan_with u j snapshot inp0 brk =
     (if in_municipalities inp0 = [] then Some (Abort (Empty_Source (lit ''kartverket'')) default_counts)
      else if in_units inp0 = [] then Some (Abort (Empty_Source (lit ''nsr'')) default_counts)
      else
        let inp = inp0\<lparr>in_units := normalise_units (in_units inp0)\<rparr>
        in case plan_municipalities u snapshot inp of None \<Rightarrow> None
           | Some mp \<Rightarrow>
             (case plan_schools u j snapshot inp (mpl_state mp) of None \<Rightarrow> None
              | Some sp \<Rightarrow>
                let reviews = mpl_reviews mp @ spl_reviews sp;
                    c0 = tally (mpl_ops mp) (spl_ops sp) (length reviews) (spl_skipped sp);
                    c = c0\<lparr>n_attribute_losses := attribute_losses snapshot (spl_ops sp)\<rparr>;
                    stop = (if in_kind inp = Sync \<and> brk = Enforce then mass_change snapshot c else None)
                in Some (case stop of
                     Some reason \<Rightarrow> Abort reason c
                   | None \<Rightarrow>
                       if mpl_ops mp = [] \<and> spl_ops sp = [] \<and> reviews = [] then No_Change
                       else Apply \<lparr>p_municipality_ops = mpl_ops mp, p_school_ops = spl_ops sp,
                         p_reviews = reviews, p_counts = c\<rparr>)))"

definition plan ::
  "ucd \<Rightarrow> ('t, 'd::linorder) jiff \<Rightarrow> 'id::linorder register_snapshot \<Rightarrow> ('t, 'd) sync_inputs
     \<Rightarrow> ('id, 't, 'd) sync_outcome option" where
  "plan u j snapshot inp = plan_with u j snapshot inp Enforce"

definition plan_accepting_mass_change ::
  "ucd \<Rightarrow> ('t, 'd::linorder) jiff \<Rightarrow> 'id::linorder register_snapshot \<Rightarrow> ('t, 'd) sync_inputs
     \<Rightarrow> ('id, 't, 'd) sync_outcome option" where
  "plan_accepting_mass_change u j snapshot inp = plan_with u j snapshot inp Accept"

end
