(* ===== verification/Sync_Apply.thy ===== *)
theory Sync_Apply
  imports Sync_Plan
begin

text \<open>
  \<open>register/sync/testkit.rs\<close>: the executable specification of the applier. A plan is applied to a
  snapshot with \<open>u32\<close> row ids; every \<open>Ref::New\<close> gets its id before any operation runs, the
  operations run in order, and after each one the database's uniqueness rules are checked. A failed
  check, a missing row or an exhausted id is a panic: \<open>None\<close>.
\<close>

type_synonym register = "nat register_snapshot"

section \<open>Row ids\<close>

text \<open>\<open>let mut next\<close> and the closure \<open>fresh\<close>; \<open>u32\<close> additions panic on overflow.\<close>

definition next_id :: "nat \<Rightarrow> nat option" where
  "next_id n = (if n + 1 < 2 ^ 32 then Some (n + 1) else None)"

definition first_id :: "register \<Rightarrow> nat option" where
  "first_id snapshot =
     (case map ms_id (municipalities snapshot) @ map s_id (schools snapshot) of
        [] \<Rightarrow> Some 1
      | i # is \<Rightarrow> next_id (foldl max i is))"

fun assign_ids :: "nat \<Rightarrow> nat list \<Rightarrow> ((nat \<times> nat) list \<times> nat) option" where
  "assign_ids next [] = Some ([], next)"
| "assign_ids next (n # ns) =
     (case next_id next of None \<Rightarrow> None
      | Some next' \<Rightarrow> map_option (\<lambda>(ids, last). ((n, next) # ids, last)) (assign_ids next' ns))"

definition municipality_creates :: "(nat, 'd) municipality_op list \<Rightarrow> nat list" where
  "municipality_creates ops =
     List.map_filter (\<lambda>op. case op of Municipality_Create n _ _ _ _ _ _ _ _ \<Rightarrow> Some n | _ \<Rightarrow> None) ops"

definition school_creates :: "(nat, 't, 'd) school_op list \<Rightarrow> nat list" where
  "school_creates ops =
     List.map_filter (\<lambda>op. case op of School_Create n _ _ _ _ _ _ _ _ _ \<Rightarrow> Some n | _ \<Rightarrow> None) ops"

definition municipality_id :: "(nat \<rightharpoonup> nat) \<Rightarrow> nat ref \<Rightarrow> nat option" where
  "municipality_id new_municipalities r =
     (case r of Existing i \<Rightarrow> Some i | New n \<Rightarrow> new_municipalities n)"

section \<open>Rows\<close>

text \<open>\<open>iter_mut().find(\<dots>).expect(\<dots>)\<close> and the change to the row found.\<close>

fun update_first :: "('a \<Rightarrow> bool) \<Rightarrow> ('a \<Rightarrow> 'a) \<Rightarrow> 'a list \<Rightarrow> 'a list option" where
  "update_first p f [] = None"
| "update_first p f (x # xs) = (if p x then Some (f x # xs) else map_option ((#) x) (update_first p f xs))"

definition municipality_mut ::
  "register \<Rightarrow> nat \<Rightarrow> (nat municipality_snapshot \<Rightarrow> nat municipality_snapshot) \<Rightarrow> register option" where
  "municipality_mut out i f =
     map_option (\<lambda>ms. out\<lparr>municipalities := ms\<rparr>) (update_first (\<lambda>m. ms_id m = i) f (municipalities out))"

definition school_ref :: "register \<Rightarrow> nat \<Rightarrow> nat school_snapshot option" where
  "school_ref out i = List.find (\<lambda>s. s_id s = i) (schools out)"

definition school_mut ::
  "register \<Rightarrow> nat \<Rightarrow> (nat school_snapshot \<Rightarrow> nat school_snapshot) \<Rightarrow> register option" where
  "school_mut out i f =
     map_option (\<lambda>ss. out\<lparr>schools := ss\<rparr>) (update_first (\<lambda>s. s_id s = i) f (schools out))"

section \<open>The database's rules\<close>

definition slug_keys :: "nat school_snapshot list \<Rightarrow> (nat \<times> str) list" where
  "slug_keys ss = List.map_filter (\<lambda>s. map_option (\<lambda>slug. (s_municipality_id s, slug)) (s_slug s)) ss"

definition check_invariants :: "register \<Rightarrow> bool" where
  "check_invariants out \<longleftrightarrow>
     list_all (\<lambda>s. s_slug s \<noteq> None \<longrightarrow> s_verification s \<noteq> Held) (schools out) \<and>
     distinct (slug_keys (schools out)) \<and>
     distinct (map ms_slug (municipalities out)) \<and>
     distinct (map ms_number (filter (\<lambda>m. ms_status m = Municipality_Active) (municipalities out)))"

definition checked :: "register \<Rightarrow> register option" where
  "checked out = (if check_invariants out then Some out else None)"

section \<open>Municipality operations\<close>

definition push_municipality_slug :: "str \<Rightarrow> nat \<Rightarrow> register \<Rightarrow> register" where
  "push_municipality_slug slug i out =
     out\<lparr>municipality_slug_history := municipality_slug_history out @ [(slug, i)]\<rparr>"

fun municipality_effect ::
  "(nat \<rightharpoonup> nat) \<Rightarrow> register \<Rightarrow> (nat, 'd) municipality_op \<Rightarrow> register option" where
  "municipality_effect new_municipalities out
     (Municipality_Create n number name official_name county_number county_name slug names source) =
     map_option (\<lambda>i. out\<lparr>municipalities := municipalities out @
         [\<lparr>ms_id = i, ms_number = number, ms_name = name, ms_official_name = official_name,
           ms_county_number = county_number, ms_county_name = county_name, ms_slug = slug,
           ms_status = Municipality_Active, ms_source = source, ms_names = names\<rparr>]\<rparr>)
       (new_municipalities n)"
| "municipality_effect new_municipalities out (Renumber i old to valid_from name old_slug new_slug) =
     map_option (push_municipality_slug old_slug i)
       (municipality_mut out i (\<lambda>m. m\<lparr>ms_number := to, ms_name := unwrap_or name (ms_name m), ms_slug := new_slug\<rparr>))"
| "municipality_effect new_municipalities out (Municipality_Rename i name old_slug new_slug) =
     (if old_slug \<noteq> new_slug
      then map_option (push_municipality_slug old_slug i)
        (municipality_mut out i (\<lambda>m. m\<lparr>ms_name := name, ms_slug := new_slug\<rparr>))
      else municipality_mut out i (\<lambda>m. m\<lparr>ms_name := name\<rparr>))"
| "municipality_effect new_municipalities out (Update_Details i official_name county_number county_name names) =
     municipality_mut out i (\<lambda>m. m\<lparr>ms_official_name := official_name, ms_county_number := county_number,
       ms_county_name := county_name, ms_names := names\<rparr>)"

definition municipality_step ::
  "(nat \<rightharpoonup> nat) \<Rightarrow> register \<Rightarrow> (nat, 'd) municipality_op \<Rightarrow> register option" where
  "municipality_step new_municipalities out op =
     Option.bind (municipality_effect new_municipalities out op) checked"

section \<open>School operations\<close>

text \<open>The state of the second loop: the register and \<open>pending_successors\<close>.\<close>

record applying =
  ap_out :: register
  ap_pending :: "(nat \<times> nat ref) list"

definition push_school_slug :: "nat \<Rightarrow> str option \<Rightarrow> nat \<Rightarrow> register \<Rightarrow> register" where
  "push_school_slug m slug i out =
     out\<lparr>school_slug_history := school_slug_history out @ (case slug of None \<Rightarrow> [] | Some s \<Rightarrow> [(m, s, i)])\<rparr>"

definition set_slug :: "slug_change option \<Rightarrow> nat school_snapshot \<Rightarrow> nat school_snapshot" where
  "set_slug change s = (case change of None \<Rightarrow> s | Some c \<Rightarrow> s\<lparr>s_slug := Some (sc_new c)\<rparr>)"

definition close_effect :: "register \<Rightarrow> nat \<Rightarrow> closure_reason \<Rightarrow> register option" where
  "close_effect out i reason =
     (case school_ref out i of None \<Rightarrow> None
      | Some s \<Rightarrow> map_option (push_school_slug (s_municipality_id s) (s_slug s) i)
          (school_mut out i (\<lambda>s. s\<lparr>s_status := School_Closed,
             s_in_scope := (if reason = Out_Of_Scope_Closure then False else s_in_scope s), s_slug := None\<rparr>)))"

fun created_verification :: "create_verification \<Rightarrow> verification" where
  "created_verification Create_Listed = Listed"
| "created_verification Create_Held = Held"

definition created_school ::
  "nat \<Rightarrow> nat \<Rightarrow> str \<Rightarrow> str \<Rightarrow> str \<Rightarrow> str option \<Rightarrow> create_verification \<Rightarrow> bool \<Rightarrow> school_attributes
     \<Rightarrow> nat school_snapshot" where
  "created_school i m orgnr register_name display_name slug v in_scope attributes =
     \<lparr>s_id = i, s_municipality_id = m, s_origin = Register, s_orgnr = Some orgnr,
      s_register_name = Some register_name, s_display_name = display_name,
      s_display_name_curated = False, s_slug = slug, s_verification = created_verification v,
      s_status = School_Active, s_in_scope = in_scope, s_scope_override = None,
      s_has_live_fau = False, s_attributes = attributes\<rparr>"

fun school_effect ::
  "(nat \<rightharpoonup> nat) \<Rightarrow> (nat \<rightharpoonup> nat) \<Rightarrow> register \<Rightarrow> (nat, 't, 'd) school_op \<Rightarrow> register option" where
  "school_effect new_municipalities new_schools out (Close i reason closed_on successor) = close_effect out i reason"
| "school_effect new_municipalities new_schools out
     (School_Create n municipality orgnr register_name display_name slug v in_scope attributes changed_at) =
     (case (new_schools n, municipality_id new_municipalities municipality) of
        (Some i, Some m) \<Rightarrow> Some (out\<lparr>schools := schools out @
          [created_school i m orgnr register_name display_name slug v in_scope attributes]\<rparr>)
      | _ \<Rightarrow> None)"
| "school_effect new_municipalities new_schools out (School_Rename i register_name display_name slug) =
     (case school_ref out i of None \<Rightarrow> None
      | Some s \<Rightarrow> map_option (push_school_slug (s_municipality_id s) (Option.bind slug sc_old) i)
          (school_mut out i (\<lambda>s. set_slug slug (s\<lparr>s_register_name := Some register_name,
             s_display_name := unwrap_or display_name (s_display_name s)\<rparr>))))"
| "school_effect new_municipalities new_schools out (Update_Attributes i attributes) =
     school_mut out i (\<lambda>s. s\<lparr>s_attributes := attributes\<rparr>)"
| "school_effect new_municipalities new_schools out (Move i source dest slug) =
     (case municipality_id new_municipalities dest of None \<Rightarrow> None
      | Some m \<Rightarrow> map_option (push_school_slug source (Option.bind slug sc_old) i)
          (school_mut out i (\<lambda>s. set_slug slug (s\<lparr>s_municipality_id := m\<rparr>))))"

definition pending_of :: "(nat, 't, 'd) school_op \<Rightarrow> (nat \<times> nat ref) list" where
  "pending_of op = (case op of Close i _ _ (Some h) \<Rightarrow> [(i, h)] | _ \<Rightarrow> [])"

definition school_step ::
  "(nat \<rightharpoonup> nat) \<Rightarrow> (nat \<rightharpoonup> nat) \<Rightarrow> applying \<Rightarrow> (nat, 't, 'd) school_op \<Rightarrow> applying option" where
  "school_step new_municipalities new_schools ap op =
     map_option (\<lambda>out. \<lparr>ap_out = out, ap_pending = ap_pending ap @ pending_of op\<rparr>)
       (Option.bind (school_effect new_municipalities new_schools (ap_out ap) op) checked)"

section \<open>The successors\<close>

definition resolve_successor ::
  "(nat \<rightharpoonup> nat) \<Rightarrow> register \<Rightarrow> (nat, nat) btree \<Rightarrow> nat \<times> nat ref \<Rightarrow> (nat, nat) btree option" where
  "resolve_successor new_schools out successors p =
     (case p of (closed_id, successor) \<Rightarrow>
        (case (case successor of Existing i \<Rightarrow> Some i | New n \<Rightarrow> new_schools n) of None \<Rightarrow> None
         | Some i \<Rightarrow>
           (case (school_ref out closed_id, school_ref out i) of
              (Some c, Some s) \<Rightarrow>
                if s_verification s \<noteq> Held \<and> s_municipality_id s = s_municipality_id c
                then Some (bt_insert closed_id i successors) else None
            | _ \<Rightarrow> None)))"

section \<open>Applying a plan\<close>

definition apply_plan :: "register \<Rightarrow> (nat, 't, 'd) sync_plan \<Rightarrow> (register \<times> (nat, nat) btree) option" where
  "apply_plan snapshot pln =
     (case first_id snapshot of None \<Rightarrow> None
      | Some next \<Rightarrow>
        (case assign_ids next (municipality_creates (p_municipality_ops pln)) of None \<Rightarrow> None
         | Some (municipality_ids, next') \<Rightarrow>
           (case assign_ids next' (school_creates (p_school_ops pln)) of None \<Rightarrow> None
            | Some (school_ids, _) \<Rightarrow>
              let new_municipalities = hm_collect municipality_ids; new_schools = hm_collect school_ids
              in (case foldM (municipality_step new_municipalities) snapshot (p_municipality_ops pln) of None \<Rightarrow> None
                  | Some out1 \<Rightarrow>
                    (case foldM (school_step new_municipalities new_schools)
                        \<lparr>ap_out = out1, ap_pending = []\<rparr> (p_school_ops pln) of None \<Rightarrow> None
                     | Some ap \<Rightarrow>
                         map_option (Pair (ap_out ap))
                           (foldM (resolve_successor new_schools (ap_out ap)) [] (ap_pending ap)))))))"

end
