(* ===== verification/Municipality_Facts.thy ===== *)
theory Municipality_Facts
  imports Municipalities
begin

text \<open>
  What step 1 of a run guarantees: \<open>plan_municipalities\<close> never panics, the operations it writes
  touch only rows it may touch, and the numbers it hands on are held by one municipality each.
\<close>

section \<open>The groups of changes\<close>

lemma foldl_inv:
  assumes "P s" "\<And>s x. P s \<Longrightarrow> x \<in> set xs \<Longrightarrow> P (f s x)"
  shows "P (foldl f s xs)"
  using assms by (induction xs arbitrary: s) auto

lemma group_changes_ok: "bt_ok (group_changes k cs)"
  unfolding group_changes_def
  by (rule foldl_inv) (auto simp: bt.inv_empty bt_ok_modify)

lemma group_changes_nonempty:
  "bt_get (group_changes k cs) old = Some xs \<Longrightarrow> xs \<noteq> []"
proof -
  have "\<forall>old xs. bt_get (group_changes k cs) old = Some xs \<longrightarrow> xs \<noteq> []"
    unfolding group_changes_def
  proof (rule foldl_inv)
    show "\<forall>old xs. bt_get [] old = Some xs \<longrightarrow> xs \<noteq> []" by (simp add: bt_get_def)
  qed (auto simp: bt_get_modify)
  then show "bt_get (group_changes k cs) old = Some xs \<Longrightarrow> xs \<noteq> []" by blast
qed

lemma order_groups_total:
  assumes "bt_ok groups" "\<And>old xs. bt_get groups old = Some xs \<Longrightarrow> xs \<noteq> []"
  shows "\<exists>ordered. order_groups groups = Some ordered \<and> set ordered = set groups"
  using assms bt.entry_iff [OF assms(1)]
  by (auto simp: order_groups_def list_ex_iff)

text \<open>Every target of a group is counted.\<close>

lemma bt_contains_modify: "bt_contains (bt_modify k d f m) k' \<longleftrightarrow> k' = k \<or> bt_contains m k'"
  by (simp add: bt_contains_def bt_get_modify)

lemma foldl_count_contains:
  "bt_contains (foldl (\<lambda>m t. bt_modify t 0 Suc m) m ts) t \<longleftrightarrow> t \<in> set ts \<or> bt_contains m t"
  by (induction ts arbitrary: m) (auto simp: bt_contains_modify)

lemma count_targets_get:
  assumes "(old, changes) \<in> set groups" "t \<in> set (group_targets changes)"
  shows "bt_get (count_targets groups) t \<noteq> None"
proof -
  have "bt_contains (foldl (\<lambda>m changes. foldl (\<lambda>m t. bt_modify t 0 Suc m) m (group_targets changes)) m vs) t
      \<longleftrightarrow> (\<exists>v\<in>set vs. t \<in> set (group_targets v)) \<or> bt_contains m t"
    for m :: "(str, nat) btree" and vs
    by (induction vs arbitrary: m) (auto simp: foldl_count_contains)
  moreover have "changes \<in> set (bt_values groups)" using assms(1) by (force simp: bt_values_def)
  ultimately have "bt_contains (count_targets groups) t"
    using assms(2) unfolding count_targets_def by blast
  then show ?thesis by (simp add: bt_contains_def)
qed

lemma keys_collect: "set (bt_keys (bt_collect xs)) = fst ` set xs"
proof -
  have "k \<in> set (bt_keys (bt_collect xs)) \<longleftrightarrow> k \<in> fst ` set xs" for k
    using bt_get_None [of "bt_collect xs" k] by (simp add: bt_get_collect map_of_eq_None_iff)
  then show ?thesis by blast
qed

lemma targets_are_group_targets:
  "set (bt_keys (bt_collect (map (\<lambda>c. (new_code c, new_name c)) changes))) = set (group_targets changes)"
  by (force simp: keys_collect group_targets_def)

section \<open>Holders are in the working set\<close>

definition holders_known :: "('id::linorder, 'd) mwork \<Rightarrow> bool" where
  "holders_known st \<longleftrightarrow>
     (\<forall>n i. bt_get (mw_by_number st) n = Some (Existing i) \<longrightarrow> bt_get (mw_working st) i \<noteq> None)"

lemma holders_known_load: "holders_known (load_rows rows)"
  unfolding load_rows_def
  by (rule foldl_inv) (auto simp: holders_known_def load_row_def bt_get_insert, simp add: bt_get_def)

lemma renumber_group_total:
  assumes "holders_known st" "bt_get (mw_working st) i \<noteq> None" "changes \<noteq> []"
  shows "\<exists>v. renumber_group u rs st old changes to i = Some v
    \<and> (\<forall>st'. v = Continue st' \<longrightarrow> holders_known st')"
proof -
  from assms obtain w c cs where w: "bt_get (mw_working st) i = Some w" and c: "changes = c # cs"
    by (cases changes) auto
  show ?thesis
    using assms(1)
    by (auto simp: renumber_group_def w c Let_def holders_known_def bt_get_insert bt_get_remove split: sum.splits)
qed

lemma judge_group_total:
  assumes "holders_known st" "changes \<noteq> []"
    and "targets = bt_collect (map (\<lambda>c. (new_code c, new_name c)) changes)"
    and "\<And>t. t \<in> set (group_targets changes) \<Longrightarrow> bt_get gone t \<noteq> None"
    and "holder = group_holder st old"
  shows "\<exists>v. judge_group u gone rs st old changes targets holder = Some v
    \<and> (\<forall>st'. v = Continue st' \<longrightarrow> holders_known st')"
proof -
  have keys: "set (bt_keys targets) = set (group_targets changes)"
    by (simp add: assms(3) targets_are_group_targets)
  define one where "one = (case bt_keys targets of
      to # _ \<Rightarrow> if length targets = 1
        then map_option (\<lambda>n. if n = 1 then Some to else None) (bt_get gone to) else Some None
    | [] \<Rightarrow> Some None)"
  have "one \<noteq> None"
  proof (cases "bt_keys targets")
    case (Cons t ts)
    with keys have "t \<in> set (group_targets changes)" by auto
    with assms(4) [of t] Cons show ?thesis by (auto simp: one_def)
  qed (simp add: one_def)
  then obtain o' where o': "one = Some o'" by blast
  have known: "bt_get (mw_working st) i \<noteq> None" if "holder = Some i" for i
    using that assms(1,5) by (auto simp: group_holder_def holders_known_def split: option.splits ref.splits)
  have "judge_group u gone rs st old changes targets holder =
    (case (o', holder) of
       (_, None) \<Rightarrow>
         if bt_contains gone old then Some (Block_For ''unresolved_chain'')
         else (case o' of Some _ \<Rightarrow> Some (Continue st)
               | None \<Rightarrow> if 1 < length targets then Some (Block_For ''split'') else Some (Block_For ''merge''))
     | (Some to, Some i) \<Rightarrow> renumber_group u rs st old changes to i
     | (None, Some _) \<Rightarrow> if 1 < length targets then Some (Block_For ''split'') else Some (Block_For ''merge''))"
    unfolding judge_group_def one_def [symmetric] Let_def o' by simp
  then show ?thesis
    using renumber_group_total [OF assms(1) known assms(2)] assms(1)
    by (cases o'; cases holder) auto
qed

lemma process_group_total:
  assumes "holders_known st" "(old, changes) \<in> set groups" "changes \<noteq> []"
  shows "\<exists>st'. process_group u (count_targets groups) rs st (old, changes) = Some st' \<and> holders_known st'"
proof -
  let ?t = "bt_collect (map (\<lambda>c. (new_code c, new_name c)) changes)"
  obtain v where v: "judge_group u (count_targets groups) rs st old changes ?t (group_holder st old) = Some v"
    "\<And>st'. v = Continue st' \<Longrightarrow> holders_known st'"
    using judge_group_total [OF assms(1,3) refl count_targets_get [OF assms(2)] refl] by blast
  obtain c cs where c: "changes = c # cs" using assms(3) by (cases changes) auto
  have "holders_known (block_group st old c ?t (group_holder st old) r)" for r
    using assms(1) by (simp add: block_group_def holders_known_def Let_def)
  with v assms(1) c show ?thesis
    by (cases v) (auto simp: process_group_def Let_def)
qed

lemma compare_record_total:
  assumes "holders_known st"
  shows "\<exists>st'. compare_record u kind st r = Some st' \<and> holders_known st'"
proof (cases "mr_number r \<in> mw_blocked st")
  case False
  show ?thesis
  proof (cases "bt_get (mw_by_number st) (mr_number r)")
    case None
    with False assms show ?thesis
      by (cases kind; cases "municipality_slug u (mr_number r) (mr_norwegian_name r)")
        (auto simp: compare_record_def holders_known_def bt_get_insert)
  next
    case (Some h)
    show ?thesis
    proof (cases h)
      case (Existing i)
      with Some assms obtain w where "bt_get (mw_working st) i = Some w"
        by (auto simp: holders_known_def)
      with False Some Existing assms show ?thesis
        by (auto simp: compare_record_def holders_known_def Let_def split: sum.splits)
    qed (use False Some assms in \<open>simp add: compare_record_def\<close>)
  qed
qed (use assms in \<open>simp add: compare_record_def\<close>)

lemma plan_municipalities_total_aux:
  fixes inp :: "('t, 'd::linorder) sync_inputs" and snapshot :: "'id::linorder register_snapshot"
  shows "\<exists>p. plan_municipalities u snapshot inp = Some p"
proof -
  let ?g = "group_changes (set (map mr_number (in_municipalities inp))) (in_code_changes inp)"
  let ?rs = "bt_collect (map (\<lambda>r. (mr_number r, r)) (in_municipalities inp))"
  let ?sorted = "sort_by (\<lambda>a b. mr_number a \<le> mr_number b) (in_municipalities inp)"
  have "\<exists>ordered. order_groups ?g = Some ordered \<and> set ordered = set ?g"
    by (rule order_groups_total [OF group_changes_ok]) (rule group_changes_nonempty)
  then obtain ordered where o': "order_groups ?g = Some ordered" and s: "set ordered = set ?g" by blast
  have ne: "changes \<noteq> []" if "(old, changes) \<in> set ?g" for old changes
    using that group_changes_nonempty bt.entry_iff [OF group_changes_ok] by blast
  have "\<exists>st1. foldM (process_group u (count_targets ?g) ?rs) (load_rows (municipalities snapshot)) ordered = Some st1
      \<and> holders_known st1"
  proof (rule foldM_total)
    fix st :: "('id, 'd) mwork" and g :: "str \<times> 'd code_change list" assume "holders_known st" "g \<in> set ordered"
    with s ne show "\<exists>st'. process_group u (count_targets ?g) ?rs st g = Some st' \<and> holders_known st'"
      by (cases g) (auto intro: process_group_total)
  qed (rule holders_known_load)
  then obtain st1 where st1: "foldM (process_group u (count_targets ?g) ?rs) (load_rows (municipalities snapshot)) ordered = Some st1"
    and k1: "holders_known st1" by blast
  have "\<exists>st2. foldM (compare_record u (in_kind inp)) st1 ?sorted = Some st2 \<and> holders_known st2"
    by (rule foldM_total [where P = holders_known, OF k1]) (rule compare_record_total)
  then obtain st2 where "foldM (compare_record u (in_kind inp)) st1 ?sorted = Some st2" by blast
  with o' st1 show ?thesis by (simp add: plan_municipalities_def Let_def)
qed

section \<open>What the operations may touch\<close>

text \<open>A row an operation may name: active and Kartverket's. Slugs begin with the number.\<close>

definition may_touch :: "'id municipality_snapshot list \<Rightarrow> 'id \<Rightarrow> bool" where
  "may_touch rows i \<longleftrightarrow>
     (\<exists>row\<in>set rows. ms_id row = i \<and> ms_status row = Municipality_Active \<and> ms_source row = Kartverket)"

fun mop_ok :: "'id municipality_snapshot list \<Rightarrow> ('id, 'd) municipality_op \<Rightarrow> bool" where
  "mop_ok rows (Municipality_Create n number name official county county_name slug names source) \<longleftrightarrow>
     length number = 4 \<and> take 4 slug = number"
| "mop_ok rows (Renumber i old to valid_from name old_slug new_slug) \<longleftrightarrow>
     may_touch rows i \<and> length to = 4 \<and> take 4 new_slug = to"
| "mop_ok rows (Municipality_Rename i name old_slug new_slug) \<longleftrightarrow> may_touch rows i"
| "mop_ok rows (Update_Details i official county county_name names) \<longleftrightarrow> may_touch rows i"

fun create_number :: "('id, 'd) municipality_op \<Rightarrow> nat option" where
  "create_number (Municipality_Create n _ _ _ _ _ _ _ _) = Some n"
| "create_number _ = None"

definition create_numbers :: "('id, 'd) municipality_op list \<Rightarrow> nat list" where
  "create_numbers ops = List.map_filter create_number ops"

lemma create_numbers_append [simp]: "create_numbers (a @ b) = create_numbers a @ create_numbers b"
  by (simp add: create_numbers_def List.map_filter_def)

lemma create_numbers_Cons [simp]:
  "create_numbers [] = []"
  "create_numbers (op # ops) = (case create_number op of None \<Rightarrow> create_numbers ops | Some n \<Rightarrow> n # create_numbers ops)"
  by (simp_all add: create_numbers_def map_filter_simps split: option.split)

definition mwork_ok :: "'id::linorder municipality_snapshot list \<Rightarrow> ('id, 'd) mwork \<Rightarrow> bool" where
  "mwork_ok rows st \<longleftrightarrow>
     (\<forall>i w. bt_get (mw_working st) i = Some w \<longrightarrow>
        w_row w \<in> set rows \<and> ms_id (w_row w) = i \<and> ms_status (w_row w) = Municipality_Active) \<and>
     bt_ok (mw_working st) \<and>
     (\<forall>op\<in>set (mw_ops st). mop_ok rows op) \<and>
     create_numbers (mw_ops st) = [0..<mw_next_new st]"

lemma mwork_okD:
  assumes "mwork_ok rows st"
  shows "bt_get (mw_working st) i = Some w \<Longrightarrow> w_row w \<in> set rows"
    and "bt_get (mw_working st) i = Some w \<Longrightarrow> ms_id (w_row w) = i"
    and "bt_get (mw_working st) i = Some w \<Longrightarrow> ms_status (w_row w) = Municipality_Active"
    and "bt_ok (mw_working st)"
    and "op \<in> set (mw_ops st) \<Longrightarrow> mop_ok rows op"
    and "create_numbers (mw_ops st) = [0..<mw_next_new st]"
  using assms by (auto simp: mwork_ok_def)

lemma source_not_manual [simp]: "s \<noteq> Manual \<longleftrightarrow> s = Kartverket"
  by (cases s) auto

lemma may_touch_working:
  assumes "mwork_ok rows st" "bt_get (mw_working st) i = Some w" "ms_source (w_row w) = Kartverket"
  shows "may_touch rows i"
  using mwork_okD(1-3) [OF assms(1,2)] assms(3) by (auto simp: may_touch_def)

lemma mwork_ok_load: "mwork_ok rows (load_rows rows :: ('id::linorder, 'd) mwork)"
  unfolding load_rows_def
proof (rule foldl_inv)
  fix st :: "('id, 'd) mwork" and row
  assume ok: "mwork_ok rows st" and row: "row \<in> set rows"
  then show "mwork_ok rows (load_row st row)"
    by (auto simp: mwork_ok_def load_row_def bt_get_insert bt_ok_insert)
qed (simp add: mwork_ok_def bt_get_def bt.inv_empty)

lemma renumber_group_ok:
  assumes ok: "mwork_ok rows st" and r: "renumber_group u rs st old changes to i = Some (Continue st')"
  shows "mwork_ok rows st'"
proof -
  from r obtain w c cs where w: "bt_get (mw_working st) i = Some w" "changes = c # cs"
    by (auto simp: renumber_group_def split: option.splits list.splits)
  show ?thesis
  proof (cases "st' = st")
    case False
    define name where "name = (case bt_get rs to of None \<Rightarrow> w_name w | Some r \<Rightarrow> mr_norwegian_name r)"
    define renamed where "renamed = (if name \<noteq> w_name w then Some name else None)"
    from r w False obtain slug where src: "ms_source (w_row w) = Kartverket"
      and slug: "municipality_slug u to name = Inr slug"
      and st': "st' = st\<lparr>
          mw_ops := mw_ops st @ [Renumber i old to (occurred_on c) renamed (w_slug w) slug],
          mw_by_number := bt_insert to (Existing i) (bt_remove old (mw_by_number st)),
          mw_working := bt_insert i (w\<lparr>w_number := to, w_slug := slug, w_name := unwrap_or renamed (w_name w)\<rparr>)
            (mw_working st)\<rparr>"
      unfolding renumber_group_def name_def [symmetric] renamed_def
      by (auto simp: Let_def name_def [symmetric] split: if_splits sum.splits)
    have "mop_ok rows (Renumber i old to (occurred_on c) renamed (w_slug w) slug)"
      using may_touch_working [OF ok w(1) src] municipality_slug_number [OF slug] by simp
    then show ?thesis
      using ok mwork_okD(1-3) [OF ok w(1)]
      by (auto simp: st' mwork_ok_def bt_get_insert bt_ok_insert)
  qed (use ok in simp)
qed

lemma judge_group_ok:
  assumes "mwork_ok rows st" "judge_group u gone rs st old changes targets holder = Some (Continue st')"
  shows "mwork_ok rows st'"
  using assms renumber_group_ok [OF assms(1)]
  by (auto simp: judge_group_def Let_def split: option.splits prod.splits if_splits)

lemma process_group_ok:
  assumes ok: "mwork_ok rows st" and p: "process_group u gone rs st g = Some st'"
  shows "mwork_ok rows st'"
proof -
  obtain old changes where g: "g = (old, changes)" by (cases g)
  have block: "mwork_ok rows (block_group st old c t h r)" for c t h r
    using ok by (simp add: block_group_def mwork_ok_def Let_def)
  from p ok show ?thesis
    by (auto simp: process_group_def g Let_def block judge_group_ok [OF ok]
        split: option.splits verdict.splits if_splits list.splits)
qed

lemma compare_record_ok:
  assumes ok: "mwork_ok rows st" and c: "compare_record u kind st r = Some st'"
  shows "mwork_ok rows st'"
proof (cases "mr_number r \<in> mw_blocked st")
  case False
  show ?thesis
  proof (cases "bt_get (mw_by_number st) (mr_number r)")
    case None
    show ?thesis
    proof (cases "municipality_slug u (mr_number r) (mr_norwegian_name r)")
      case (Inr slug)
      show ?thesis
        using c False None Inr ok municipality_slug_number [OF Inr]
        by (cases kind) (auto simp: compare_record_def mwork_ok_def)
    qed (use c False None ok in \<open>cases kind; auto simp: compare_record_def mwork_ok_def\<close>)
  next
    case (Some h)
    show ?thesis
    proof (cases h)
      case (Existing i)
      with c False Some obtain w where w: "bt_get (mw_working st) i = Some w"
        by (auto simp: compare_record_def split: option.splits)
      show ?thesis
      proof (cases "ms_source (w_row w) = Manual")
        case True
        with c False Some Existing w ok show ?thesis by (simp add: compare_record_def)
      next
        case src: False
        then have "may_touch rows i" using may_touch_working [OF ok w] by simp
        with c False Some Existing w src ok show ?thesis
          by (auto simp: compare_record_def Let_def mwork_ok_def split: sum.splits if_splits)
      qed
    qed (use c False Some ok in \<open>simp add: compare_record_def\<close>)
  qed
qed (use assms in \<open>simp add: compare_record_def\<close>)

lemma report_absent_keeps [simp]:
  "mw_ops (foldl (report_absent k) st ws) = mw_ops st"
  "mw_by_number (foldl (report_absent k) st ws) = mw_by_number st"
  "mw_working (foldl (report_absent k) st ws) = mw_working st"
  "mw_blocked (foldl (report_absent k) st ws) = mw_blocked st"
  "mw_next_new (foldl (report_absent k) st ws) = mw_next_new st"
  by (induction ws arbitrary: st) (simp_all add: report_absent_def)

lemma plan_municipalitiesE:
  assumes "plan_municipalities u snapshot inp = Some p"
  obtains ordered st1 st2 where
    "order_groups (group_changes (set (map mr_number (in_municipalities inp))) (in_code_changes inp)) = Some ordered"
    "foldM (process_group u (count_targets (group_changes (set (map mr_number (in_municipalities inp))) (in_code_changes inp)))
        (bt_collect (map (\<lambda>r. (mr_number r, r)) (in_municipalities inp)))) (load_rows (municipalities snapshot)) ordered = Some st1"
    "foldM (compare_record u (in_kind inp)) st1
        (sort_by (\<lambda>a b. mr_number a \<le> mr_number b) (in_municipalities inp)) = Some st2"
    "p = (let st4 = add_svalbard (in_units inp)
            (foldl (report_absent (set (map mr_number (in_municipalities inp)))) st2 (bt_values (mw_working st2)))
          in \<lparr>mpl_ops = mw_ops st4, mpl_reviews = mw_reviews st4, mpl_state = municipality_state_of st4\<rparr>)"
  using assms by (auto simp: plan_municipalities_def Let_def split: option.splits)

lemma plan_municipalities_ops_aux:
  assumes "plan_municipalities u snapshot inp = Some p"
  shows "(\<forall>op\<in>set (mpl_ops p). mop_ok (municipalities snapshot) op)
    \<and> create_numbers (mpl_ops p) = [0..<length (create_numbers (mpl_ops p))]"
proof -
  let ?rows = "municipalities snapshot"
  from assms show ?thesis
  proof (rule plan_municipalitiesE)
    fix ordered st1 st2
    assume f1: "foldM (process_group u (count_targets (group_changes (set (map mr_number (in_municipalities inp))) (in_code_changes inp)))
        (bt_collect (map (\<lambda>r. (mr_number r, r)) (in_municipalities inp)))) (load_rows ?rows) ordered = Some st1"
      and f2: "foldM (compare_record u (in_kind inp)) st1
        (sort_by (\<lambda>a b. mr_number a \<le> mr_number b) (in_municipalities inp)) = Some st2"
      and p: "p = (let st4 = add_svalbard (in_units inp)
            (foldl (report_absent (set (map mr_number (in_municipalities inp)))) st2 (bt_values (mw_working st2)))
          in \<lparr>mpl_ops = mw_ops st4, mpl_reviews = mw_reviews st4, mpl_state = municipality_state_of st4\<rparr>)"
    have ok1: "mwork_ok ?rows st1"
      by (rule foldM_inv [where P = "mwork_ok ?rows", OF f1 mwork_ok_load]) (rule process_group_ok)
    have ok2: "mwork_ok ?rows st2"
      by (rule foldM_inv [where P = "mwork_ok ?rows", OF f2 ok1]) (rule compare_record_ok)
    then show ?thesis
      by (auto simp: p Let_def add_svalbard_def mwork_ok_def svalbard_number_def lit_def)
  qed
qed

section \<open>One number per municipality\<close>

definition apart :: "(str, 'id ref) btree \<Rightarrow> nat \<Rightarrow> bool" where
  "apart m k \<longleftrightarrow>
     (\<forall>x y v. bt_get m x = Some v \<longrightarrow> bt_get m y = Some v \<longrightarrow> x = y) \<and>
     (\<forall>x n. bt_get m x = Some (New n) \<longrightarrow> n < k)"

definition holders_apart :: "('id::linorder, 'd) mwork \<Rightarrow> bool" where
  "holders_apart st \<longleftrightarrow> apart (mw_by_number st) (mw_next_new st)"

lemma apartD:
  assumes "apart m k"
  shows "\<And>x y v. bt_get m x = Some v \<Longrightarrow> bt_get m y = Some v \<Longrightarrow> x = y"
    and "\<And>x n. bt_get m x = Some (New n) \<Longrightarrow> n < k"
  using assms unfolding apart_def by blast+

lemma apart_fresh:
  assumes "apart m k" "\<And>x. bt_get m x \<noteq> Some v" "k \<le> k'" "\<And>n. v = New n \<Longrightarrow> n < k'"
  shows "apart (bt_insert num v m) k'"
  unfolding apart_def
proof (intro conjI allI impI)
  fix x y w
  assume xy: "bt_get (bt_insert num v m) x = Some w" "bt_get (bt_insert num v m) y = Some w"
  show "x = y" by (rule bt.inj_fresh [OF _ _ xy]) (erule (1) apartD(1) [OF assms(1)], rule assms(2))
next
  fix x n assume x: "bt_get (bt_insert num v m) x = Some (New n)"
  show "n < k'"
  proof (cases "x = num")
    case True
    with x assms(4) show ?thesis by (simp add: bt_get_insert)
  next
    case False
    with x have "n < k" using apartD(2) [OF assms(1)] by (simp add: bt_get_insert)
    with assms(3) show ?thesis by simp
  qed
qed

lemma apart_move:
  assumes "apart m k" "bt_get m old = Some (Existing i)" "bt_get m to = None"
  shows "apart (bt_insert to (Existing i) (bt_remove old m)) k"
  unfolding apart_def
proof (intro conjI allI impI)
  fix x y w
  assume xy: "bt_get (bt_insert to (Existing i) (bt_remove old m)) x = Some w"
    "bt_get (bt_insert to (Existing i) (bt_remove old m)) y = Some w"
  show "x = y" by (rule bt.inj_move [OF _ assms(2,3) xy]) (erule (1) apartD(1) [OF assms(1)])
next
  fix x n assume "bt_get (bt_insert to (Existing i) (bt_remove old m)) x = Some (New n)"
  then have "bt_get m x = Some (New n)" by (simp add: bt_get_insert bt_get_remove split: if_splits)
  then show "n < k" by (rule apartD(2) [OF assms(1)])
qed

lemma apart_load_row:
  assumes "apart (mw_by_number st) k" "\<And>x. bt_get (mw_by_number st) x \<noteq> Some (Existing (ms_id r))"
  shows "apart (mw_by_number (load_row st r)) k"
proof (cases "ms_status r = Municipality_Active")
  case True
  then have "mw_by_number (load_row st r) = bt_insert (ms_number r) (Existing (ms_id r)) (mw_by_number st)"
    by (simp add: load_row_def)
  with apart_fresh [OF assms order_refl] show ?thesis by simp
qed (simp add: load_row_def assms(1))

lemma load_row_holds:
  "bt_get (mw_by_number (load_row st r)) x = Some (Existing i) \<Longrightarrow>
     bt_get (mw_by_number st) x = Some (Existing i) \<or> i = ms_id r"
  by (cases "ms_status r = Municipality_Active") (simp_all add: load_row_def bt_get_insert split: if_splits)

lemma apart_foldl_load:
  assumes "apart (mw_by_number st) k" "distinct (map ms_id rows)"
    and "\<And>x r. r \<in> set rows \<Longrightarrow> bt_get (mw_by_number st) x \<noteq> Some (Existing (ms_id r))"
  shows "apart (mw_by_number (foldl load_row st rows)) k"
  using assms
proof (induction rows arbitrary: st)
  case (Cons r rows)
  have "apart (mw_by_number (load_row st r)) k"
    by (rule apart_load_row [OF Cons.prems(1)]) (simp add: Cons.prems(3))
  moreover have "bt_get (mw_by_number (load_row st r)) x \<noteq> Some (Existing (ms_id r'))" if r': "r' \<in> set rows" for x r'
  proof
    assume "bt_get (mw_by_number (load_row st r)) x = Some (Existing (ms_id r'))"
    from load_row_holds [OF this] show False
    proof
      assume "bt_get (mw_by_number st) x = Some (Existing (ms_id r'))"
      then show False using Cons.prems(3) [of r' x] r' by simp
    next
      assume "ms_id r' = ms_id r"
      then show False using Cons.prems(2) r' by (force simp: image_iff)
    qed
  qed
  ultimately show ?case using Cons.IH [of "load_row st r"] Cons.prems(2) by simp
qed simp

lemma load_row_next [simp]: "mw_next_new (foldl load_row st rows) = mw_next_new st"
  by (induction rows arbitrary: st) (simp_all add: load_row_def)

lemma holders_apart_load: "distinct (map ms_id rows) \<Longrightarrow> holders_apart (load_rows rows)"
  unfolding holders_apart_def load_rows_def
  by (rule apart_foldl_load) (simp_all add: apart_def bt_get_def)

lemma renumber_group_apart:
  assumes ok: "holders_apart st" and old: "bt_get (mw_by_number st) old = Some (Existing i)"
    and r: "renumber_group u rs st old changes to i = Some (Continue st')"
  shows "holders_apart st'"
proof (cases "st' = st")
  case False
  with r have free: "bt_get (mw_by_number st) to = None"
    and st': "mw_by_number st' = bt_insert to (Existing i) (bt_remove old (mw_by_number st))"
      "mw_next_new st' = mw_next_new st"
    by (auto simp: renumber_group_def Let_def bt_contains_def split: option.splits list.splits if_splits sum.splits)
  from apart_move [OF ok [unfolded holders_apart_def] old free] show ?thesis
    by (simp add: holders_apart_def st')
qed (use ok in simp)

lemma process_group_apart:
  assumes ok: "holders_apart st" and p: "process_group u gone rs st g = Some st'"
  shows "holders_apart st'"
proof -
  obtain old changes where g: "g = (old, changes)" by (cases g)
  have block: "holders_apart (block_group st old c t h r)" for c t h r
    using ok by (simp add: block_group_def holders_apart_def Let_def)
  have judge: "holders_apart st'"
    if "judge_group u gone rs st old changes targets (group_holder st old) = Some (Continue st')" for targets st'
  proof (cases "group_holder st old")
    case None
    with that ok show ?thesis
      by (auto simp: judge_group_def Let_def split: option.splits prod.splits if_splits)
  next
    case (Some i)
    then have "bt_get (mw_by_number st) old = Some (Existing i)"
      by (auto simp: group_holder_def split: option.splits ref.splits)
    from renumber_group_apart [OF ok this] that Some show ?thesis
      by (auto simp: judge_group_def Let_def split: option.splits prod.splits if_splits)
  qed
  from p ok show ?thesis
    by (auto simp: process_group_def g Let_def block judge
        split: option.splits verdict.splits if_splits list.splits)
qed

lemma compare_record_by_number:
  assumes "compare_record u kind st r = Some st'"
  shows "(mw_by_number st' = mw_by_number st \<and> mw_next_new st' = mw_next_new st)
    \<or> (mw_by_number st' = bt_insert (mr_number r) (New (mw_next_new st)) (mw_by_number st)
        \<and> mw_next_new st' = Suc (mw_next_new st))"
proof (cases "bt_get (mw_by_number st) (mr_number r)")
  case None
  with assms show ?thesis
    by (cases kind; cases "municipality_slug u (mr_number r) (mr_norwegian_name r)")
      (auto simp: compare_record_def split: if_splits)
next
  case (Some h)
  with assms show ?thesis
    by (cases h) (auto simp: compare_record_def Let_def split: if_splits option.splits sum.splits)
qed

lemma compare_record_apart:
  assumes ok: "holders_apart st" and c: "compare_record u kind st r = Some st'"
  shows "holders_apart st'"
proof -
  have fresh: "bt_get (mw_by_number st) x \<noteq> Some (New (mw_next_new st))" for x
    using apartD(2) [OF ok [unfolded holders_apart_def]] by blast
  have "apart (bt_insert (mr_number r) (New (mw_next_new st)) (mw_by_number st)) (Suc (mw_next_new st))"
    by (rule apart_fresh [OF ok [unfolded holders_apart_def] fresh]) auto
  with compare_record_by_number [OF c] ok show ?thesis
    unfolding holders_apart_def by auto
qed

lemma plan_municipalities_apart_aux:
  assumes "plan_municipalities u snapshot inp = Some p" "distinct (map ms_id (municipalities snapshot))"
    and "bt_get (by_number (mpl_state p)) a = Some h" "bt_get (by_number (mpl_state p)) b = Some h"
  shows "a = b"
proof -
  from assms(1) show ?thesis
  proof (rule plan_municipalitiesE)
    fix ordered st1 st2
    assume f1: "foldM (process_group u (count_targets (group_changes (set (map mr_number (in_municipalities inp))) (in_code_changes inp)))
        (bt_collect (map (\<lambda>r. (mr_number r, r)) (in_municipalities inp)))) (load_rows (municipalities snapshot)) ordered = Some st1"
      and f2: "foldM (compare_record u (in_kind inp)) st1
        (sort_by (\<lambda>a b. mr_number a \<le> mr_number b) (in_municipalities inp)) = Some st2"
      and p: "p = (let st4 = add_svalbard (in_units inp)
            (foldl (report_absent (set (map mr_number (in_municipalities inp)))) st2 (bt_values (mw_working st2)))
          in \<lparr>mpl_ops = mw_ops st4, mpl_reviews = mw_reviews st4, mpl_state = municipality_state_of st4\<rparr>)"
    have ok1: "holders_apart st1"
      by (rule foldM_inv [where P = holders_apart, OF f1 holders_apart_load [OF assms(2)]]) (rule process_group_apart)
    have ok2: "holders_apart st2"
      by (rule foldM_inv [where P = holders_apart, OF f2 ok1]) (rule compare_record_apart)
    have fresh: "bt_get (mw_by_number st2) x \<noteq> Some (New (mw_next_new st2))" for x
      using apartD(2) [OF ok2 [unfolded holders_apart_def]] by blast
    have sv: "apart (bt_insert svalbard_number (New (mw_next_new st2)) (mw_by_number st2)) (Suc (mw_next_new st2))"
      by (rule apart_fresh [OF ok2 [unfolded holders_apart_def] fresh]) auto
    have "by_number (mpl_state p) = mw_by_number st2
        \<or> by_number (mpl_state p) = bt_insert svalbard_number (New (mw_next_new st2)) (mw_by_number st2)"
      by (simp add: p Let_def add_svalbard_def municipality_state_of_def)
    then have "\<exists>k. apart (by_number (mpl_state p)) k"
      using ok2 [unfolded holders_apart_def] sv by auto
    then obtain k where "apart (by_number (mpl_state p)) k" by blast
    from apartD(1) [OF this assms(3,4)] show "a = b" .
  qed
qed

end
