(* ===== verification/Apply_Municipalities.thy ===== *)
theory Apply_Municipalities
  imports Sync_Apply Municipality_Facts
begin

text \<open>
  The applier of \<open>register/sync/testkit.rs\<close> accepts the municipality operations of a plan. The rows
  being written are related to the planner's working map after every operation
  (\<open>rows_match\<close>), so that each row the plan names is found and the database's uniqueness rules
  hold at every step.
\<close>

section \<open>Rows\<close>

lemma update_first_map:
  assumes "distinct (map k xs)" "i \<in> k ` set xs"
  shows "update_first (\<lambda>x. k x = i) f xs = Some (map (\<lambda>x. if k x = i then f x else x) xs)"
  using assms
proof (induction xs)
  case (Cons x xs)
  show ?case
  proof (cases "k x = i")
    case True
    with Cons.prems have "map (\<lambda>x. if k x = i then f x else x) xs = xs"
      by (intro map_idI) (auto simp: image_iff)
    with True show ?thesis by simp
  next
    case False
    with Cons show ?thesis by auto
  qed
qed simp

lemma distinct_mapI: "distinct (map k xs) \<Longrightarrow> inj_on f (set xs) \<Longrightarrow> distinct (map f xs)"
  by (simp add: distinct_map)

section \<open>Municipalities\<close>

text \<open>The register's own rules: the database's, unique ids, foreign keys and number-prefixed slugs.\<close>

definition register_ok :: "register \<Rightarrow> bool" where
  "register_ok out \<longleftrightarrow> check_invariants out
     \<and> distinct (map ms_id (municipalities out)) \<and> distinct (map s_id (schools out))
     \<and> (\<forall>s\<in>set (schools out). s_municipality_id s \<in> ms_id ` set (municipalities out))
     \<and> (\<forall>m\<in>set (municipalities out). length (ms_number m) = 4 \<and> take 4 (ms_slug m) = ms_number m)"

definition active_row :: "nat municipality_snapshot \<Rightarrow> bool" where
  "active_row m \<longleftrightarrow> ms_status m = Municipality_Active"

lemma not_active: "\<not> active_row m \<longleftrightarrow> ms_status m = Dissolved"
  by (cases "ms_status m") (simp_all add: active_row_def)

fun id_of :: "nat \<Rightarrow> nat ref \<Rightarrow> nat" where
  "id_of base (Existing i) = i"
| "id_of base (New n) = base + n"

text \<open>The rows \<open>ms\<close> of the register being written, beside the planner's holders \<open>g\<close> and its count
  \<open>k\<close> of new rows. \<open>retired\<close> are the numbers of the dissolved rows.\<close>

definition retired :: "nat municipality_snapshot list \<Rightarrow> str set" where
  "retired rows = ms_number ` {m \<in> set rows. \<not> active_row m}"

definition rows_match ::
  "nat municipality_snapshot list \<Rightarrow> nat \<Rightarrow> (str \<rightharpoonup> nat ref) \<Rightarrow> nat \<Rightarrow> nat municipality_snapshot list \<Rightarrow> bool" where
  "rows_match rows base g k ms \<longleftrightarrow>
     map ms_id ms = map ms_id rows @ map ((+) base) [0..<k] \<and>
     (\<forall>m\<in>set ms. length (ms_number m) = 4 \<and> take 4 (ms_slug m) = ms_number m) \<and>
     (\<forall>m\<in>set ms. active_row m \<longrightarrow> (\<exists>h. g (ms_number m) = Some h \<and> id_of base h = ms_id m)) \<and>
     (\<forall>x h. g x = Some h \<longrightarrow> x \<notin> retired rows \<and> (\<exists>m\<in>set ms. active_row m \<and> ms_number m = x \<and> ms_id m = id_of base h)) \<and>
     (\<forall>m\<in>set ms. \<not> active_row m \<longrightarrow> m \<in> set rows) \<and>
     (\<forall>x i. g x = Some (Existing i) \<longrightarrow> i \<in> ms_id ` set rows)"

lemma rows_matchD:
  assumes "rows_match rows base g k ms"
  shows "map ms_id ms = map ms_id rows @ map ((+) base) [0..<k]"
    and "m \<in> set ms \<Longrightarrow> length (ms_number m) = 4"
    and "m \<in> set ms \<Longrightarrow> take 4 (ms_slug m) = ms_number m"
    and "m \<in> set ms \<Longrightarrow> active_row m \<Longrightarrow> \<exists>h. g (ms_number m) = Some h \<and> id_of base h = ms_id m"
    and "g x = Some h \<Longrightarrow> x \<notin> retired rows"
    and "g x = Some h \<Longrightarrow> \<exists>m\<in>set ms. active_row m \<and> ms_number m = x \<and> ms_id m = id_of base h"
    and "m \<in> set ms \<Longrightarrow> \<not> active_row m \<Longrightarrow> m \<in> set rows"
    and "g x = Some (Existing i) \<Longrightarrow> i \<in> ms_id ` set rows"
  using assms unfolding rows_match_def by blast+

definition rows_ok :: "nat municipality_snapshot list \<Rightarrow> nat \<Rightarrow> bool" where
  "rows_ok rows base \<longleftrightarrow> distinct (map ms_id rows) \<and> distinct (map ms_slug rows) \<and> (\<forall>m\<in>set rows. ms_id m < base)"

lemma rows_match_ids:
  assumes "rows_ok rows base" "rows_match rows base g k ms"
  shows "distinct (map ms_id ms)"
  using assms(1) unfolding rows_matchD(1) [OF assms(2)] rows_ok_def
  by (auto simp: distinct_map image_iff intro!: inj_onI dest: inj_onD) 

lemma rows_match_number_inj:
  assumes ok: "rows_ok rows base" and rm: "rows_match rows base g k ms"
    and m: "m \<in> set ms" "m' \<in> set ms" "active_row m" "active_row m'" "ms_number m = ms_number m'"
  shows "m = m'"
proof -
  from rows_matchD(4) [OF rm m(1,3)] rows_matchD(4) [OF rm m(2,4)] m(5) have "ms_id m = ms_id m'" by auto
  with rows_match_ids [OF ok rm] m(1,2) show ?thesis by (simp add: distinct_map inj_on_def)
qed

lemma rows_match_checks:
  assumes ok: "rows_ok rows base" and rm: "rows_match rows base g k ms"
  shows "distinct (map ms_slug ms)" "distinct (map ms_number (filter active_row ms))"
proof -
  note ids = rows_match_ids [OF ok rm]
  show "distinct (map ms_slug ms)"
  proof (rule distinct_mapI [OF ids], rule inj_onI)
    fix m m' assume m: "m \<in> set ms" "m' \<in> set ms" "ms_slug m = ms_slug m'"
    then have num: "ms_number m = ms_number m'" using rows_matchD(3) [OF rm] by metis
    have mixed: False if "a \<in> set ms" "b \<in> set ms" "active_row a" "\<not> active_row b" "ms_number a = ms_number b" for a b
      using that rows_matchD(4) [OF rm that(1,3)] rows_matchD(5) [OF rm] rows_matchD(7) [OF rm that(2,4)]
      by (auto simp: retired_def)
    consider "active_row m" "active_row m'" | "\<not> active_row m" "\<not> active_row m'"
      using mixed [OF m(1,2)] mixed [OF m(2,1)] num by fastforce
    then show "m = m'"
    proof cases
      case 1
      with rows_match_number_inj [OF ok rm m(1,2)] num show ?thesis by blast
    next
      case 2
      with rows_matchD(7) [OF rm] m ok show ?thesis by (auto simp: rows_ok_def distinct_map dest: inj_onD)
    qed
  qed
  show "distinct (map ms_number (filter active_row ms))"
  proof (rule distinct_mapI)
    show "distinct (map ms_id (filter active_row ms))" using ids by (rule distinct_map_filter)
    show "inj_on ms_number (set (filter active_row ms))"
      using rows_match_number_inj [OF ok rm] by (auto intro!: inj_onI)
  qed
qed

lemma rows_match_renumber:
  assumes ok: "rows_ok rows base" and rm: "rows_match rows base g k ms"
    and old: "g old = Some (Existing i)" and free: "g dest = None" and new: "dest \<notin> retired rows" "length dest = 4"
    and f: "\<And>m. ms_id (f m) = ms_id m" "\<And>m. ms_status (f m) = ms_status m"
      "\<And>m. ms_number (f m) = dest" "\<And>m. take 4 (ms_slug (f m)) = dest"
  shows "rows_match rows base (g(old := None, dest \<mapsto> Existing i)) k (map (\<lambda>m. if ms_id m = i then f m else m) ms)"
proof -
  note ids = rows_match_ids [OF ok rm]
  from rows_matchD(6) [OF rm old] obtain r where r: "r \<in> set ms" "active_row r" "ms_number r = old" "ms_id r = i" by auto
  have only: "m = r" if "m \<in> set ms" "ms_id m = i" for m
    using that r ids by (simp add: distinct_map inj_on_def)
  have ff: "active_row (f m) = active_row m" for m by (simp add: active_row_def f)
  show ?thesis
    unfolding rows_match_def
  proof (intro conjI ballI allI impI)
    show "map ms_id (map (\<lambda>m. if ms_id m = i then f m else m) ms) = map ms_id rows @ map ((+) base) [0..<k]"
      unfolding rows_matchD(1) [OF rm, symmetric] by (auto simp: f)
  next
    fix x h assume x: "(g(old := None, dest \<mapsto> Existing i)) x = Some h"
    show "x \<notin> retired rows" using x new(1) rows_matchD(5) [OF rm] by (auto split: if_splits)
    show "\<exists>m\<in>set (map (\<lambda>m. if ms_id m = i then f m else m) ms). active_row m \<and> ms_number m = x \<and> ms_id m = id_of base h"
    proof (cases "x = dest")
      case True
      with x have h: "h = Existing i" by simp
      have "f r \<in> set (map (\<lambda>m. if ms_id m = i then f m else m) ms)" using r(1,4) by force
      then show ?thesis by (rule rev_bexI) (use r True h in \<open>simp add: f ff\<close>)
    next
      case False
      with x have g: "g x = Some h" "x \<noteq> old" by (auto split: if_splits)
      from rows_matchD(6) [OF rm g(1)] obtain m where m: "m \<in> set ms" "active_row m" "ms_number m = x" "ms_id m = id_of base h" by blast
      with only r(3) g(2) have "ms_id m \<noteq> i" by blast
      with m show ?thesis by auto
    qed
  next
    fix m assume "m \<in> set (map (\<lambda>m. if ms_id m = i then f m else m) ms)" "active_row m"
    then obtain m0 where m0: "m0 \<in> set ms" "m = (if ms_id m0 = i then f m0 else m0)" "active_row m0"
      by (auto simp: ff split: if_splits)
    show "\<exists>h. (g(old := None, dest \<mapsto> Existing i)) (ms_number m) = Some h \<and> id_of base h = ms_id m"
    proof (cases "ms_id m0 = i")
      case True
      with m0 show ?thesis by (simp add: f)
    next
      case False
      from rows_matchD(4) [OF rm m0(1,3)] obtain h where h: "g (ms_number m0) = Some h" "id_of base h = ms_id m0" by blast
      with old free False have "ms_number m0 \<noteq> old" "ms_number m0 \<noteq> dest" by auto
      with h m0 False show ?thesis by simp
    qed
  next
    fix m assume "m \<in> set (map (\<lambda>m. if ms_id m = i then f m else m) ms)" "\<not> active_row m"
    then obtain m0 where m0: "m0 \<in> set ms" "m = (if ms_id m0 = i then f m0 else m0)" "\<not> active_row m0"
      by (auto simp: ff split: if_splits)
    with only r(2) have "ms_id m0 \<noteq> i" by blast
    with m0 rows_matchD(7) [OF rm] show "m \<in> set rows" by simp
  next
    fix y j assume "(g(old := None, dest \<mapsto> Existing i)) y = Some (Existing j)"
    then show "j \<in> ms_id ` set rows"
      using rows_matchD(8) [OF rm old] rows_matchD(8) [OF rm, of y j] by (auto split: if_splits)
  qed (use rows_matchD(2,3) [OF rm] new(2) f in \<open>auto split: if_splits\<close>)
qed

lemma rows_match_rename:
  assumes ok: "rows_ok rows base" and rm: "rows_match rows base g k ms"
    and holds: "g x = Some (Existing i)"
    and f: "\<And>m. ms_id (f m) = ms_id m" "\<And>m. ms_status (f m) = ms_status m"
      "\<And>m. ms_number (f m) = ms_number m"
      "\<And>m. m \<in> set ms \<Longrightarrow> ms_number m = x \<Longrightarrow> take 4 (ms_slug (f m)) = x"
  shows "rows_match rows base g k (map (\<lambda>m. if ms_id m = i then f m else m) ms)"
proof -
  note ids = rows_match_ids [OF ok rm]
  from rows_matchD(6) [OF rm holds] obtain r where r: "r \<in> set ms" "active_row r" "ms_number r = x" "ms_id r = i" by auto
  have only: "m = r" if "m \<in> set ms" "ms_id m = i" for m
    using that r ids by (simp add: distinct_map inj_on_def)
  have ff: "active_row (f m) = active_row m" for m by (simp add: active_row_def f)
  have *: "ms_id (if ms_id m = i then f m else m) = ms_id m" "active_row (if ms_id m = i then f m else m) = active_row m"
    "ms_number (if ms_id m = i then f m else m) = ms_number m" for m by (simp_all add: f ff)
  show ?thesis
    unfolding rows_match_def
  proof (intro conjI ballI allI impI)
    show "map ms_id (map (\<lambda>m. if ms_id m = i then f m else m) ms) = map ms_id rows @ map ((+) base) [0..<k]"
      unfolding rows_matchD(1) [OF rm, symmetric] by (auto simp: f)
  next
    fix m assume "m \<in> set (map (\<lambda>m. if ms_id m = i then f m else m) ms)" "\<not> active_row m"
    then obtain m0 where m0: "m0 \<in> set ms" "m = (if ms_id m0 = i then f m0 else m0)" "\<not> active_row m0"
      by (auto simp: ff split: if_splits)
    with only r(2) have "ms_id m0 \<noteq> i" by blast
    with m0 rows_matchD(7) [OF rm] show "m \<in> set rows" by simp
  next
    fix m assume "m \<in> set (map (\<lambda>m. if ms_id m = i then f m else m) ms)"
    then obtain m0 where m0: "m0 \<in> set ms" "m = (if ms_id m0 = i then f m0 else m0)" by auto
    show "length (ms_number m) = 4" using m0 rows_matchD(2) [OF rm] by (simp add: f)
    show "take 4 (ms_slug m) = ms_number m"
    proof (cases "ms_id m0 = i")
      case True
      with m0 only r(3) f(4) show ?thesis by (simp add: f)
    qed (use m0 rows_matchD(3) [OF rm] in simp)
  next
    fix m assume "m \<in> set (map (\<lambda>m. if ms_id m = i then f m else m) ms)" "active_row m"
    then show "\<exists>h. g (ms_number m) = Some h \<and> id_of base h = ms_id m"
      using rows_matchD(4) [OF rm] * by (force simp: f ff)
  next
    fix y j assume "g y = Some (Existing j)"
    then show "j \<in> ms_id ` set rows" by (rule rows_matchD(8) [OF rm])
  next
    fix y h assume y: "g y = Some h"
    from rows_matchD(5) [OF rm y] show "y \<notin> retired rows" .
    from rows_matchD(6) [OF rm y] obtain m where m: "m \<in> set ms" "active_row m" "ms_number m = y" "ms_id m = id_of base h" by blast
    have "(if ms_id m = i then f m else m) \<in> set (map (\<lambda>m. if ms_id m = i then f m else m) ms)" using m(1) by auto
    then show "\<exists>m\<in>set (map (\<lambda>m. if ms_id m = i then f m else m) ms). active_row m \<and> ms_number m = y \<and> ms_id m = id_of base h"
      by (rule rev_bexI) (simp add: m f ff)
  qed
qed

lemma rows_match_create:
  assumes rm: "rows_match rows base g k ms"
    and free: "g x = None" "x \<notin> retired rows" "length x = 4"
    and m: "ms_id r = base + k" "active_row r" "ms_number r = x" "take 4 (ms_slug r) = x"
  shows "rows_match rows base (g(x \<mapsto> New k)) (Suc k) (ms @ [r])"
proof -
  have old: "ms_number m \<noteq> x" if "m \<in> set ms" "active_row m" for m
    using rows_matchD(4) [OF rm that] free(1) by auto
  show ?thesis
    unfolding rows_match_def
  proof (intro conjI ballI allI impI)
    show "map ms_id (ms @ [r]) = map ms_id rows @ map ((+) base) [0..<Suc k]"
      using rows_matchD(1) [OF rm] m(1) by simp
  next
    fix y h assume y: "(g(x \<mapsto> New k)) y = Some h"
    then show "y \<notin> retired rows" using free(2) rows_matchD(5) [OF rm] by (auto split: if_splits)
    show "\<exists>m\<in>set (ms @ [r]). active_row m \<and> ms_number m = y \<and> ms_id m = id_of base h"
      using y m rows_matchD(6) [OF rm, of y h] by (cases "y = x") auto
  next
    fix m0 assume "m0 \<in> set (ms @ [r])" "active_row m0"
    then show "\<exists>h. (g(x \<mapsto> New k)) (ms_number m0) = Some h \<and> id_of base h = ms_id m0"
      using m rows_matchD(4) [OF rm] old by auto
  next
    fix y j assume "(g(x \<mapsto> New k)) y = Some (Existing j)"
    then show "j \<in> ms_id ` set rows" using rows_matchD(8) [OF rm, of y j] by (auto split: if_splits)
  qed (use rows_matchD(2,3,7) [OF rm] m free(3) in auto)
qed

section \<open>The municipality operations of a plan apply\<close>

definition with_rows :: "register \<Rightarrow> nat municipality_snapshot list \<Rightarrow> (str \<times> nat) list \<Rightarrow> register" where
  "with_rows out ms h = out\<lparr>municipalities := ms, municipality_slug_history := h\<rparr>"

lemma with_rows_simps [simp]:
  "municipalities (with_rows out ms h) = ms" "schools (with_rows out ms h) = schools out"
  "municipality_slug_history (with_rows out ms h) = h"
  "with_rows (with_rows out ms h) ms' h' = with_rows out ms' h'"
  "with_rows out ms h\<lparr>municipalities := ms'\<rparr> = with_rows out ms' h"
  "push_municipality_slug slug i (with_rows out ms h) = with_rows out ms (h @ [(slug, i)])"
  "with_rows out (municipalities out) (municipality_slug_history out) = out"
  by (simp_all add: with_rows_def push_municipality_slug_def)

definition base_ok :: "register \<Rightarrow> nat \<Rightarrow> bool" where
  "base_ok snapshot base \<longleftrightarrow> register_ok snapshot \<and> (\<forall>m\<in>set (municipalities snapshot). ms_id m < base)
     \<and> (\<forall>s\<in>set (schools snapshot). s_id s < base)"

lemma base_rows_ok: "base_ok snapshot base \<Longrightarrow> rows_ok (municipalities snapshot) base"
  by (simp add: base_ok_def register_ok_def rows_ok_def check_invariants_def)

lemma checked_rows:
  assumes "base_ok snapshot base" "rows_match (municipalities snapshot) base g k ms"
  shows "checked (with_rows snapshot ms h) = Some (with_rows snapshot ms h)"
proof -
  note rows_match_checks [OF base_rows_ok [OF assms(1)] assms(2)]
  moreover have "active_row = (\<lambda>m. ms_status m = Municipality_Active)" by (auto simp: active_row_def)
  ultimately show ?thesis
    using assms(1) by (simp add: checked_def check_invariants_def base_ok_def register_ok_def)
qed

definition mun_sim :: "register \<Rightarrow> nat \<Rightarrow> (nat, 'd) mwork \<Rightarrow> bool" where
  "mun_sim snapshot base st \<longleftrightarrow> (\<exists>ms h.
     foldM (municipality_step (\<lambda>n. Some (base + n))) snapshot (mw_ops st) = Some (with_rows snapshot ms h)
     \<and> rows_match (municipalities snapshot) base (bt_get (mw_by_number st)) (mw_next_new st) ms)"

lemma mun_simE:
  assumes "mun_sim snapshot base st"
  obtains ms h where
    "foldM (municipality_step (\<lambda>n. Some (base + n))) snapshot (mw_ops st) = Some (with_rows snapshot ms h)"
    "rows_match (municipalities snapshot) base (bt_get (mw_by_number st)) (mw_next_new st) ms"
  using assms unfolding mun_sim_def by blast

lemma mun_sim_step:
  assumes base: "base_ok snapshot base"
    and run: "foldM (municipality_step (\<lambda>n. Some (base + n))) snapshot (mw_ops st) = Some out"
    and ops: "mw_ops st' = mw_ops st @ [op]"
    and eff: "municipality_effect (\<lambda>n. Some (base + n)) out op = Some (with_rows snapshot ms' h')"
    and rm: "rows_match (municipalities snapshot) base (bt_get (mw_by_number st')) (mw_next_new st') ms'"
  shows "mun_sim snapshot base st'"
  unfolding mun_sim_def
proof (intro exI conjI)
  show "foldM (municipality_step (\<lambda>n. Some (base + n))) snapshot (mw_ops st') = Some (with_rows snapshot ms' h')"
    using checked_rows [OF base rm] by (simp add: ops foldM_append run municipality_step_def eff)
qed (rule rm)

lemma mun_sim_same:
  assumes "mun_sim snapshot base st" "mw_ops st' = mw_ops st" "mw_by_number st' = mw_by_number st" "mw_next_new st' = mw_next_new st"
  shows "mun_sim snapshot base st'"
  using assms unfolding mun_sim_def by simp

lemma municipality_mut_map:
  assumes "distinct (map ms_id ms)" "i \<in> ms_id ` set ms"
  shows "municipality_mut (with_rows out ms h) i f = Some (with_rows out (map (\<lambda>m. if ms_id m = i then f m else m) ms) h)"
  using update_first_map [OF assms] by (simp add: municipality_mut_def)

lemma holder_in_rows:
  assumes "rows_match rows base g k ms" "g x = Some (Existing i)"
  shows "i \<in> ms_id ` set ms"
  using rows_matchD(6) [OF assms] by force

lemma mun_sim_renumber:
  assumes base: "base_ok snapshot base" and sim: "mun_sim snapshot base st"
    and old: "bt_get (mw_by_number st) old = Some (Existing i)"
    and r: "renumber_group u rs st old changes dest i = Some (Continue st')"
    and new: "dest \<notin> retired (municipalities snapshot)"
  shows "mun_sim snapshot base st'"
proof (cases "st' = st")
  case False
  with r obtain slug name name' vf old_slug where
    free: "\<not> bt_contains (mw_by_number st) dest" and slug: "municipality_slug u dest name = Inr slug"
    and st': "mw_ops st' = mw_ops st @ [Renumber i old dest vf name' old_slug slug]"
      "mw_by_number st' = bt_insert dest (Existing i) (bt_remove old (mw_by_number st))" "mw_next_new st' = mw_next_new st"
    by (auto simp: renumber_group_def Let_def split: option.splits list.splits if_splits sum.splits)
  from sim show ?thesis
  proof (rule mun_simE)
    fix ms h
    assume run: "foldM (municipality_step (\<lambda>n. Some (base + n))) snapshot (mw_ops st) = Some (with_rows snapshot ms h)"
      and rm: "rows_match (municipalities snapshot) base (bt_get (mw_by_number st)) (mw_next_new st) ms"
    let ?f = "\<lambda>m. m\<lparr>ms_number := dest, ms_name := unwrap_or name' (ms_name m), ms_slug := slug\<rparr>"
    note ids = rows_match_ids [OF base_rows_ok [OF base] rm] holder_in_rows [OF rm old]
    from free have free': "bt_get (mw_by_number st) dest = None" by (simp add: bt_contains_def)
    have "bt_get (mw_by_number st') = (bt_get (mw_by_number st))(old := None, dest \<mapsto> Existing i)"
      by (rule ext) (simp add: st'(2) bt_get_insert bt_get_remove)
    moreover have "rows_match (municipalities snapshot) base ((bt_get (mw_by_number st))(old := None, dest \<mapsto> Existing i))
        (mw_next_new st) (map (\<lambda>m. if ms_id m = i then ?f m else m) ms)"
      by (rule rows_match_renumber [OF base_rows_ok [OF base] rm old free' new])
        (use municipality_slug_number [OF slug] in simp_all)
    ultimately show ?thesis
      by (intro mun_sim_step [OF base run st'(1), where ms' = "map (\<lambda>m. if ms_id m = i then ?f m else m) ms"
          and h' = "h @ [(old_slug, i)]"]) (simp_all add: municipality_mut_map [OF ids] st'(3))
  qed
qed (use sim in simp)

lemma mun_sim_rename:
  assumes base: "base_ok snapshot base" and sim: "mun_sim snapshot base st"
    and x: "bt_get (mw_by_number st) x = Some (Existing i)" and slug: "take 4 new_slug = x"
    and st': "mw_ops st' = mw_ops st @ [Municipality_Rename i name old_slug new_slug]"
      "mw_by_number st' = mw_by_number st" "mw_next_new st' = mw_next_new st"
  shows "mun_sim snapshot base st'"
  using sim
proof (rule mun_simE)
  fix ms h
  assume run: "foldM (municipality_step (\<lambda>n. Some (base + n))) snapshot (mw_ops st) = Some (with_rows snapshot ms h)"
    and rm: "rows_match (municipalities snapshot) base (bt_get (mw_by_number st)) (mw_next_new st) ms"
  note ids = rows_match_ids [OF base_rows_ok [OF base] rm] holder_in_rows [OF rm x]
  have same: "m\<lparr>ms_name := name, ms_slug := ms_slug m\<rparr> = m\<lparr>ms_name := name\<rparr>" for m :: "nat municipality_snapshot"
    by (cases m) simp
  let ?f = "\<lambda>m. m\<lparr>ms_name := name, ms_slug := (if old_slug \<noteq> new_slug then new_slug else ms_slug m)\<rparr>"
  let ?ms = "map (\<lambda>m. if ms_id m = i then ?f m else m) ms"
  have rm': "rows_match (municipalities snapshot) base (bt_get (mw_by_number st)) (mw_next_new st) ?ms"
    by (rule rows_match_rename [OF base_rows_ok [OF base] rm x]) (use slug rows_matchD(3) [OF rm] in simp_all)
  have eff: "municipality_effect (\<lambda>n. Some (base + n)) (with_rows snapshot ms h) (Municipality_Rename i name old_slug new_slug)
      = Some (with_rows snapshot ?ms (if old_slug \<noteq> new_slug then h @ [(old_slug, i)] else h))"
    by (cases "old_slug = new_slug") (simp_all add: municipality_mut_map [OF ids] same cong: if_cong)
  from mun_sim_step [OF base run st'(1) eff] rm' st' show ?thesis by simp
qed

lemma mun_sim_details:
  assumes base: "base_ok snapshot base" and sim: "mun_sim snapshot base st"
    and x: "bt_get (mw_by_number st) x = Some (Existing i)"
    and st': "mw_ops st' = mw_ops st @ [Update_Details i official county county_name names]"
      "mw_by_number st' = mw_by_number st" "mw_next_new st' = mw_next_new st"
  shows "mun_sim snapshot base st'"
  using sim
proof (rule mun_simE)
  fix ms h
  assume run: "foldM (municipality_step (\<lambda>n. Some (base + n))) snapshot (mw_ops st) = Some (with_rows snapshot ms h)"
    and rm: "rows_match (municipalities snapshot) base (bt_get (mw_by_number st)) (mw_next_new st) ms"
  note ids = rows_match_ids [OF base_rows_ok [OF base] rm] holder_in_rows [OF rm x]
  let ?f = "\<lambda>m. m\<lparr>ms_official_name := official, ms_county_number := county, ms_county_name := county_name, ms_names := names\<rparr>"
  let ?ms = "map (\<lambda>m. if ms_id m = i then ?f m else m) ms"
  have rm': "rows_match (municipalities snapshot) base (bt_get (mw_by_number st)) (mw_next_new st) ?ms"
    by (rule rows_match_rename [OF base_rows_ok [OF base] rm x]) (use rows_matchD(3) [OF rm] in simp_all)
  have eff: "municipality_effect (\<lambda>n. Some (base + n)) (with_rows snapshot ms h) (Update_Details i official county county_name names)
      = Some (with_rows snapshot ?ms h)"
    by (simp add: municipality_mut_map [OF ids])
  from mun_sim_step [OF base run st'(1) eff] rm' st' show ?thesis by simp
qed

lemma mun_sim_create:
  assumes base: "base_ok snapshot base" and sim: "mun_sim snapshot base st"
    and x: "bt_get (mw_by_number st) x = None" "x \<notin> retired (municipalities snapshot)" "length x = 4" "take 4 slug = x"
    and st': "mw_ops st' = mw_ops st @ [Municipality_Create (mw_next_new st) x name official county county_name slug names source]"
      "mw_by_number st' = bt_insert x (New (mw_next_new st)) (mw_by_number st)" "mw_next_new st' = Suc (mw_next_new st)"
  shows "mun_sim snapshot base st'"
  using sim
proof (rule mun_simE)
  fix ms h
  assume run: "foldM (municipality_step (\<lambda>n. Some (base + n))) snapshot (mw_ops st) = Some (with_rows snapshot ms h)"
    and rm: "rows_match (municipalities snapshot) base (bt_get (mw_by_number st)) (mw_next_new st) ms"
  let ?r = "\<lparr>ms_id = base + mw_next_new st, ms_number = x, ms_name = name, ms_official_name = official,
    ms_county_number = county, ms_county_name = county_name, ms_slug = slug,
    ms_status = Municipality_Active, ms_source = source, ms_names = names\<rparr>"
  have rm': "rows_match (municipalities snapshot) base ((bt_get (mw_by_number st))(x \<mapsto> New (mw_next_new st)))
      (Suc (mw_next_new st)) (ms @ [?r])"
    by (rule rows_match_create [OF rm x(1,2,3)]) (simp_all add: active_row_def x)
  moreover have "bt_get (mw_by_number st') = (bt_get (mw_by_number st))(x \<mapsto> New (mw_next_new st))"
    by (rule ext) (simp add: st'(2) bt_get_insert)
  ultimately show ?thesis
    by (intro mun_sim_step [OF base run st'(1), where ms' = "ms @ [?r]" and h' = h]) (simp_all add: st'(3))
qed

definition numbers_written :: "('t, 'd) sync_inputs \<Rightarrow> str set" where
  "numbers_written inp = set (map mr_number (in_municipalities inp)) \<union> new_code ` set (in_code_changes inp) \<union> {svalbard_number}"

text \<open>No source uses the number of a dissolved municipality again, and no active one has it.\<close>

definition retired_stay :: "register \<Rightarrow> ('t, 'd) sync_inputs \<Rightarrow> bool" where
  "retired_stay snapshot inp \<longleftrightarrow> retired (municipalities snapshot)
     \<inter> (numbers_written inp \<union> ms_number ` {m \<in> set (municipalities snapshot). active_row m}) = {}"

lemma load_rows_by_number:
  "bt_get (mw_by_number (foldl load_row st rows)) x =
     (case map_of (rev (map (\<lambda>r. (ms_number r, Existing (ms_id r))) (filter active_row rows))) x of
        None \<Rightarrow> bt_get (mw_by_number st) x | Some h \<Rightarrow> Some h)"
  by (induction rows arbitrary: st)
    (auto simp: load_row_def active_row_def bt_get_insert map_add_def split: option.splits)

lemma load_rows_ops: "mw_ops (foldl load_row st rows) = mw_ops st"
  by (induction rows arbitrary: st) (simp_all add: load_row_def)

lemma mun_sim_load:
  fixes inp :: "('t, 'd) sync_inputs"
  assumes base: "base_ok snapshot base" and ret: "retired_stay snapshot inp"
  shows "mun_sim snapshot base (load_rows (municipalities snapshot) :: (nat, 'd) mwork)"
proof -
  define st0 :: "(nat, 'd) mwork" where "st0 = load_rows (municipalities snapshot)"
  let ?rows = "municipalities snapshot"
  let ?kv = "map (\<lambda>r. (ms_number r, Existing (ms_id r))) (filter active_row ?rows)"
  let ?g = "bt_get (mw_by_number st0)"
  have act: "active_row = (\<lambda>m. ms_status m = Municipality_Active)" by (auto simp: active_row_def)
  have "distinct (map ms_number (filter active_row ?rows))"
    using base by (simp add: base_ok_def register_ok_def check_invariants_def act)
  moreover have "map fst ?kv = map ms_number (filter active_row ?rows)" by simp
  ultimately have "distinct (map fst (rev ?kv))" by (simp add: rev_map [symmetric] del: map_map)
  from map_of_eq_Some_iff [OF this] have kv: "map_of (rev ?kv) x = Some h \<longleftrightarrow> (x, h) \<in> set ?kv" for x h
    by (simp only: set_rev)
  have "?g x = map_of (rev ?kv) x" for x
    unfolding st0_def load_rows_def load_rows_by_number by (simp add: bt_get_def split: option.split)
  with kv have g: "?g x = Some h \<longleftrightarrow> (x, h) \<in> set ?kv" for x h by simp
  have "rows_match ?rows base ?g 0 ?rows"
    unfolding rows_match_def
  proof (intro conjI ballI allI impI)
    fix m assume "m \<in> set ?rows" "active_row m"
    then have "(ms_number m, Existing (ms_id m)) \<in> set ?kv" by auto
    with g show "\<exists>h. ?g (ms_number m) = Some h \<and> id_of base h = ms_id m"
      by (intro exI [of _ "Existing (ms_id m)"]) simp
  next
    fix x h assume "?g x = Some h"
    then have "(x, h) \<in> set ?kv" by (simp only: g)
    then obtain m where m: "m \<in> set ?rows" "active_row m" "x = ms_number m" "h = Existing (ms_id m)" by auto
    with ret show "x \<notin> retired ?rows" by (auto simp: retired_stay_def)
    from m show "\<exists>m\<in>set ?rows. active_row m \<and> ms_number m = x \<and> ms_id m = id_of base h" by auto
  next
    fix x i assume "?g x = Some (Existing i)"
    then have "(x, Existing i) \<in> set ?kv" by (simp only: g)
    then show "i \<in> ms_id ` set ?rows" by auto
  qed (use base in \<open>auto simp: base_ok_def register_ok_def\<close>)
  moreover have "mw_next_new st0 = 0" "mw_ops st0 = []"
    by (simp_all add: st0_def load_rows_def load_rows_ops)
  ultimately show ?thesis
    unfolding mun_sim_def st0_def [symmetric]
    by (intro exI [of _ ?rows] exI [of _ "municipality_slug_history snapshot"]) simp
qed

lemma group_changes_set:
  "bt_get (group_changes k cs) old = Some xs \<Longrightarrow> set xs \<subseteq> set cs"
proof (induction cs arbitrary: old xs rule: rev_induct)
  case Nil
  then show ?case by (simp add: group_changes_def bt_get_def)
next
  case (snoc c cs)
  let ?g = "group_changes k cs"
  have eq: "group_changes k (cs @ [c]) = (if old_code c = new_code c \<and> old_name c = new_name c then ?g
     else if old_code c \<in> k then ?g else bt_modify (old_code c) [] (\<lambda>cs. cs @ [c]) ?g)"
    by (simp add: group_changes_def)
  show ?case
  proof (cases "bt_get ?g old = Some xs")
    case True
    with snoc.IH show ?thesis by auto
  next
    case False
    with snoc.prems have "xs = unwrap_or (bt_get ?g old) [] @ [c]"
      unfolding eq by (auto simp: bt_get_modify split: if_splits)
    with snoc.IH [of old] show ?thesis by (cases "bt_get ?g old") auto
  qed
qed

lemma mun_sim_group:
  assumes base: "base_ok snapshot base" and sim: "mun_sim snapshot base st"
    and p: "process_group u gone rs st (old, changes) = Some st'"
    and new: "\<And>c. c \<in> set changes \<Longrightarrow> new_code c \<notin> retired (municipalities snapshot)"
  shows "mun_sim snapshot base st'"
proof -
  let ?targets = "bt_collect (map (\<lambda>c. (new_code c, new_name c)) changes)"
  let ?holder = "group_holder st old"
  have block: "mun_sim snapshot base (block_group st old c t h r)" for c t h r
    by (rule mun_sim_same [OF sim]) (simp_all add: block_group_def Let_def)
  have judge: "mun_sim snapshot base st2"
    if j: "judge_group u gone rs st old changes ?targets ?holder = Some (Continue st2)" for st2
  proof (cases "st2 = st")
    case False
    with j obtain dest i where d: "?holder = Some i" "dest \<in> set (bt_keys ?targets)"
      and r: "renumber_group u rs st old changes dest i = Some (Continue st2)"
      by (auto simp: judge_group_def Let_def split: option.splits list.splits if_splits)
    from d(2) new have "dest \<notin> retired (municipalities snapshot)" by (auto simp: keys_collect)
    moreover from d(1) have "bt_get (mw_by_number st) old = Some (Existing i)"
      by (auto simp: group_holder_def split: option.splits ref.splits)
    ultimately show ?thesis using mun_sim_renumber [OF base sim _ r] by blast
  qed (use sim in simp)
  from p sim show ?thesis
    by (auto simp: process_group_def Let_def block judge split: option.splits verdict.splits if_splits list.splits)
qed

lemma mun_sim_record:
  assumes base: "base_ok snapshot base" and sim: "mun_sim snapshot base st"
    and c: "compare_record u kind st r = Some st'"
    and new: "mr_number r \<notin> retired (municipalities snapshot)"
  shows "mun_sim snapshot base st'"
proof (cases "mr_number r \<in> mw_blocked st")
  case False
  show ?thesis
  proof (cases "bt_get (mw_by_number st) (mr_number r)")
    case None
    show ?thesis
    proof (cases "kind = Seed \<and> (\<exists>slug. municipality_slug u (mr_number r) (mr_norwegian_name r) = Inr slug)")
      case True
      then obtain slug where slug: "municipality_slug u (mr_number r) (mr_norwegian_name r) = Inr slug" by blast
      note n = municipality_slug_number [OF slug]
      from c False None True slug have
        st': "mw_ops st' = mw_ops st @ [Municipality_Create (mw_next_new st) (mr_number r) (mr_norwegian_name r)
                       (Some (mr_official_name r)) (mr_county_number r) (mr_county_name r) slug (mr_names r) Kartverket]"
          "mw_by_number st' = bt_insert (mr_number r) (New (mw_next_new st)) (mw_by_number st)"
          "mw_next_new st' = Suc (mw_next_new st)"
        by (auto simp: compare_record_def)
      show ?thesis by (rule mun_sim_create [OF base sim None new _ _ st']) (use n in simp_all)
    next
      case unsluggable: False
      show ?thesis
        by (rule mun_sim_same [OF sim])
          (use c False None unsluggable in \<open>auto simp: compare_record_def split: run_kind.splits sum.splits\<close>)
    qed
  next
    case (Some h)
    show ?thesis
    proof (cases h)
      case (Existing i)
      note x = Some [unfolded Existing]
      from c False x obtain w where w: "bt_get (mw_working st) i = Some w"
        by (auto simp: compare_record_def split: option.splits)
      show ?thesis
      proof (cases "ms_source (w_row w) = Manual")
        case True
        with c False x w sim show ?thesis by (simp add: compare_record_def)
      next
        case src: False
        define st1 where "st1 = (if mr_norwegian_name r \<noteq> w_name w then
            (case municipality_slug u (mr_number r) (mr_norwegian_name r) of
               Inr new_slug \<Rightarrow> st\<lparr>mw_ops := mw_ops st @ [Municipality_Rename i (mr_norwegian_name r) (w_slug w) new_slug]\<rparr>
             | Inl _ \<Rightarrow> st\<lparr>mw_reviews := mw_reviews st @ [record_review r ''unsluggable'' (Some i)]\<rparr>) else st)"
        have st': "st' = (if details_differ (w_row w) r then st1\<lparr>mw_ops := mw_ops st1 @ [Update_Details i
            (Some (mr_official_name r)) (mr_county_number r) (mr_county_name r) (mr_names r)]\<rparr> else st1)"
          using c False x w src unfolding st1_def by (simp add: compare_record_def Let_def)
        have same: "mw_by_number st1 = mw_by_number st" "mw_next_new st1 = mw_next_new st"
          by (simp_all add: st1_def split: sum.splits)
        have sim1: "mun_sim snapshot base st1"
        proof (cases "\<exists>slug. mr_norwegian_name r \<noteq> w_name w \<and> municipality_slug u (mr_number r) (mr_norwegian_name r) = Inr slug")
          case True
          then obtain slug where slug: "mr_norwegian_name r \<noteq> w_name w" "municipality_slug u (mr_number r) (mr_norwegian_name r) = Inr slug" by blast
          show ?thesis
            by (rule mun_sim_rename [OF base sim x, where new_slug = slug])
              (use municipality_slug_number [OF slug(2)] slug same in \<open>simp_all add: st1_def\<close>)
        next
          case noslug: False
          show ?thesis
            by (rule mun_sim_same [OF sim]) (use noslug same in \<open>auto simp: st1_def split: sum.splits\<close>)
        qed
        show ?thesis
        proof (cases "details_differ (w_row w) r")
          case True
          show ?thesis
            by (rule mun_sim_details [OF base sim1, of "mr_number r" i]) (use True st' same x in simp_all)
        qed (use st' sim1 in simp)
      qed
    qed (use c False Some sim in \<open>simp add: compare_record_def\<close>)
  qed
qed (use c sim in \<open>simp add: compare_record_def\<close>)

lemma municipality_creates_numbers:
  fixes ops :: "(nat, 'd) municipality_op list"
  shows "municipality_creates ops = create_numbers ops"
proof -
  have "(\<lambda>op :: (nat, 'd) municipality_op. case op of Municipality_Create n _ _ _ _ _ _ _ _ \<Rightarrow> Some n | _ \<Rightarrow> None) = create_number"
    by (rule ext) (simp split: municipality_op.split)
  then show ?thesis by (simp add: municipality_creates_def create_numbers_def)
qed

lemma plan_municipalities_apply:
  fixes inp :: "('t, 'd::linorder) sync_inputs"
  assumes base: "base_ok snapshot base" and ret: "retired_stay snapshot inp"
    and p: "plan_municipalities u snapshot inp = Some mp"
  shows "\<exists>ms h. foldM (municipality_step (\<lambda>n. Some (base + n))) snapshot (mpl_ops mp) = Some (with_rows snapshot ms h)
    \<and> rows_match (municipalities snapshot) base (bt_get (by_number (mpl_state mp))) (length (municipality_creates (mpl_ops mp))) ms"
  using p
proof (rule plan_municipalitiesE)
  let ?rows = "municipalities snapshot"
  let ?groups = "group_changes (set (map mr_number (in_municipalities inp))) (in_code_changes inp)"
  let ?P = "\<lambda>st :: (nat, 'd) mwork. mun_sim snapshot base st \<and> mwork_ok ?rows st"
  fix ordered st1 st2
  assume og: "order_groups ?groups = Some ordered"
    and f1: "foldM (process_group u (count_targets ?groups)
        (bt_collect (map (\<lambda>r. (mr_number r, r)) (in_municipalities inp)))) (load_rows ?rows) ordered = Some st1"
    and f2: "foldM (compare_record u (in_kind inp)) st1
        (sort_by (\<lambda>a b. mr_number a \<le> mr_number b) (in_municipalities inp)) = Some st2"
    and p: "mp = (let st4 = add_svalbard (in_units inp)
            (foldl (report_absent (set (map mr_number (in_municipalities inp)))) st2 (bt_values (mw_working st2)))
          in \<lparr>mpl_ops = mw_ops st4, mpl_reviews = mw_reviews st4, mpl_state = municipality_state_of st4\<rparr>)"
  have written: "x \<notin> retired ?rows" if "x \<in> numbers_written inp" for x
    using that ret by (auto simp: retired_stay_def)
  have set_ordered: "set ordered = set ?groups"
    using og by (auto simp: order_groups_def split: if_splits)
  have targets: "new_code c \<notin> retired ?rows" if "(old, changes) \<in> set ordered" "c \<in> set changes" for old changes c
  proof -
    from that(1) have "bt_get ?groups old = Some changes"
      using bt.entry_iff [OF group_changes_ok] set_ordered by auto
    from group_changes_set [OF this] that(2) show ?thesis by (intro written) (auto simp: numbers_written_def)
  qed
  have P1: "?P st1"
    using f1
  proof (rule foldM_inv)
    show "?P (load_rows ?rows)" using mun_sim_load [OF base ret] mwork_ok_load by blast
    fix st g st' assume st: "?P st" and g: "g \<in> set ordered"
      and s: "process_group u (count_targets ?groups) (bt_collect (map (\<lambda>r. (mr_number r, r)) (in_municipalities inp))) st g = Some st'"
    obtain old changes where g': "g = (old, changes)" by (cases g)
    from mun_sim_group [OF base _ s [unfolded g']] targets g g' st process_group_ok [OF _ s] show "?P st'" by blast
  qed
  have P2: "?P st2"
    using f2
  proof (rule foldM_inv)
    fix st r st' assume st: "?P st" and s: "compare_record u (in_kind inp) st r = Some st'"
      and r: "r \<in> set (sort_by (\<lambda>a b. mr_number a \<le> mr_number b) (in_municipalities inp))"
    from r have "mr_number r \<notin> retired ?rows" by (intro written) (auto simp: numbers_written_def)
    with mun_sim_record [OF base _ s] st compare_record_ok [OF _ s] show "?P st'" by blast
  qed (rule P1)
  let ?st3 = "foldl (report_absent (set (map mr_number (in_municipalities inp)))) st2 (bt_values (mw_working st2))"
  let ?st4 = "add_svalbard (in_units inp) ?st3"
  have P3: "mun_sim snapshot base ?st3" by (rule mun_sim_same [of _ _ st2]) (use P2 in simp_all)
  have n3: "create_numbers (mw_ops ?st3) = [0..<mw_next_new ?st3]" using P2 by (simp add: mwork_ok_def)
  have "\<exists>st5. mun_sim snapshot base st5 \<and> mw_ops st5 = mw_ops ?st4 \<and> mw_by_number st5 = mw_by_number ?st4
    \<and> create_numbers (mw_ops st5) = [0..<mw_next_new st5]"
  proof (cases "?st4 = ?st3")
    case True
    with P3 n3 show ?thesis by metis
  next
    case False
    then have free: "bt_get (mw_by_number ?st3) svalbard_number = None"
      by (auto simp: add_svalbard_def bt_contains_def split: if_splits)
    let ?op = "Municipality_Create (mw_next_new ?st3) svalbard_number (lit ''Svalbard'') None
               (lit ''21'') (lit ''Svalbard'') (lit ''2100-svalbard'')
               [\<lparr>on_name = lit ''Svalbard'', on_language = lit ''no'', on_priority = 1\<rparr>] Manual"
    have st4: "mw_ops ?st4 = mw_ops ?st3 @ [?op]"
      "mw_by_number ?st4 = bt_insert svalbard_number (New (mw_next_new ?st3)) (mw_by_number ?st3)"
      using False by (auto simp: add_svalbard_def split: if_splits)
    let ?st5 = "?st4\<lparr>mw_next_new := Suc (mw_next_new ?st3)\<rparr>"
    have "mun_sim snapshot base ?st5"
      by (rule mun_sim_create [OF base P3 free])
        (use st4 in \<open>simp_all add: written numbers_written_def svalbard_number_def lit_def\<close>)
    moreover have "create_numbers (mw_ops ?st5) = [0..<mw_next_new ?st5]" using st4(1) n3 by simp
    ultimately show ?thesis by (intro exI [of _ ?st5]) simp
  qed
  then obtain st5 where st5: "mun_sim snapshot base st5" "mw_ops st5 = mw_ops ?st4" "mw_by_number st5 = mw_by_number ?st4"
    "create_numbers (mw_ops st5) = [0..<mw_next_new st5]" by blast
  have mp: "mpl_ops mp = mw_ops st5" "by_number (mpl_state mp) = mw_by_number st5"
    by (simp_all add: p Let_def st5 municipality_state_of_def)
  have "length (municipality_creates (mpl_ops mp)) = mw_next_new st5"
    by (simp add: municipality_creates_numbers mp st5(4))
  with st5(1) show ?thesis unfolding mp mun_sim_def by metis
qed

lemma municipality_step_cong:
  assumes "\<And>n. n \<in> set (municipality_creates ops) \<Longrightarrow> f n = g n"
  shows "foldM (municipality_step f) out ops = foldM (municipality_step g) out ops"
  using assms
proof (induction ops arbitrary: out)
  case (Cons op ops)
  have "municipality_effect f out op = municipality_effect g out op"
    using Cons.prems by (cases op) (simp_all add: municipality_creates_def List.map_filter_simps)
  then have "municipality_step f out op = municipality_step g out op" by (simp add: municipality_step_def)
  moreover have "foldM (municipality_step f) out' ops = foldM (municipality_step g) out' ops" for out'
    using Cons.prems
    by (intro Cons.IH) (auto simp: municipality_creates_def List.map_filter_simps split: option.splits)
  ultimately show ?case by (simp split: option.split)
qed simp

lemma assign_ids_upt:
  assumes "next + length ns < 2 ^ 32"
  shows "assign_ids next ns = Some (zip ns [next..<next + length ns], next + length ns)"
  using assms
proof (induction ns arbitrary: "next")
  case (Cons n ns)
  then show ?case
    by (simp add: next_id_def upt_conv_Cons del: upt_Suc)
qed simp

lemma collect_ids:
  "hm_collect (zip [0..<k] [next..<next + k]) n = (if n < k then Some (next + n) else None)"
proof -
  have d: "distinct (map fst (rev (zip [0..<k] [next..<next + k])))" by (simp add: rev_map [symmetric])
  show ?thesis
  proof (cases "n < k")
    case True
    then have "(n, next + n) \<in> set (zip [0..<k] [next..<next + k])" by (force simp: set_zip)
    with d True show ?thesis by (simp add: hm_collect_get)
  next
    case False
    then have "n \<notin> fst ` set (zip [0..<k] [next..<next + k])" by (auto simp: set_zip)
    with False show ?thesis by (simp add: hm_collect_None)
  qed
qed

lemma first_id_bound:
  assumes "first_id snapshot = Some base"
  shows "(\<forall>m\<in>set (municipalities snapshot). ms_id m < base) \<and> (\<forall>s\<in>set (schools snapshot). s_id s < base)"
proof -
  let ?ids = "map ms_id (municipalities snapshot) @ map s_id (schools snapshot)"
  have "\<forall>i\<in>set ?ids. i < base"
  proof (cases ?ids)
    case (Cons i ids)
    have first: "a \<le> foldl max a ids" for a :: nat and ids
    proof (induction ids arbitrary: a)
      case (Cons x xs)
      from Cons.IH [of "max a x"] show ?case by simp
    qed simp
    have "\<forall>x\<in>set ids. x \<le> foldl max a ids" for a :: nat and ids
    proof (induction ids arbitrary: a)
      case (Cons x xs)
      from first [of "max a x" xs] Cons.IH [of "max a x"] show ?case by simp
    qed simp
    with first assms Cons show ?thesis
      by (auto simp: first_id_def next_id_def less_Suc_eq_le split: if_splits)
  qed simp
  then show ?thesis by auto
qed

end
