(* ===== verification/School_Facts.thy ===== *)
theory School_Facts
  imports Municipality_Facts Schools
begin

text \<open>
  What the sorting of the units and the placement of the new schools guarantee: which schools a
  run may close, update or hold back, and how a successor is linked to its predecessor.
\<close>

section \<open>Sorting the units\<close>

text \<open>The schools a unit may change: found by orgnr, open, public, in an unblocked municipality.\<close>

definition changeable :: "'id register_snapshot \<Rightarrow> 'id municipality_state \<Rightarrow> 't nsr_unit \<Rightarrow> 'id school_snapshot \<Rightarrow> bool" where
  "changeable snapshot state u s \<longleftrightarrow>
     s \<in> set (schools snapshot) \<and> s_orgnr s = Some (u_orgnr u) \<and> s_status s = School_Active \<and>
     s_verification s \<in> {Listed, Verified} \<and> s_municipality_id s \<notin> blocked_ids state"

text \<open>The register says the school is gone.\<close>

definition gone_from_register :: "'t nsr_unit \<Rightarrow> 'id school_snapshot \<Rightarrow> bool" where
  "gone_from_register u s \<longleftrightarrow>
     \<not> u_is_active u \<or> \<not> effective_in_scope (classify (scope_facts u) = In_Scope) (s_scope_override s)"

definition sorting_ok ::
  "('t, 'd) jiff \<Rightarrow> ('t, 'd) moment \<Rightarrow> 'id register_snapshot \<Rightarrow> 't nsr_unit set \<Rightarrow> 'id municipality_state \<Rightarrow> ('id, 't, 'd) sorting \<Rightarrow> bool" where
  "sorting_ok j mom snapshot units state so \<longleftrightarrow>
     (\<forall>c\<in>set (so_closings so). cg_successor c = None \<and> \<not> s_has_live_fau (cg_school c) \<and>
        (\<exists>u\<in>units. changeable snapshot state u (cg_school c) \<and> gone_from_register u (cg_school c) \<and>
          (cg_reason c, cg_closed_on c) = closure_facts j u mom \<and> cg_reregistrable c = reregistrable u)) \<and>
     (\<forall>f\<in>set (so_fau_closings so). \<not> fc_reregistered f \<and> s_has_live_fau (fc_school f) \<and>
        (\<exists>u\<in>units. changeable snapshot state u (fc_school f) \<and> gone_from_register u (fc_school f))) \<and>
     (\<forall>(s, u, m)\<in>set (so_updates so). u \<in> units \<and> changeable snapshot state u s \<and> \<not> gone_from_register u s \<and>
        resolve state (u_municipality_number u) = To m) \<and>
     (\<forall>c\<in>set (so_candidates so). ca_unit c \<in> units \<and> classify (scope_facts (ca_unit c)) = In_Scope \<and>
        schools_by_orgnr snapshot (u_orgnr (ca_unit c)) = None \<and>
        u_orgnr (ca_unit c) \<notin> set (map fst (school_orgnr_history snapshot)) \<and>
        resolve state (u_municipality_number (ca_unit c)) = To (ca_municipality c))"

lemma schools_by_orgnr_Some:
  assumes "schools_by_orgnr snapshot o' = Some s"
  shows "s \<in> set (schools snapshot) \<and> s_orgnr s = Some o'"
  using hm_collect_Some [OF assms [unfolded schools_by_orgnr_def]]
  by (auto simp: List.map_filter_def)

lemma sort_unit_ok:
  assumes ok: "sorting_ok j mom snapshot units state so" and u: "u \<in> units"
  shows "sorting_ok j mom snapshot units state (sort_unit j snapshot mom state so u)"
proof (cases "schools_by_orgnr snapshot (u_orgnr u)")
  case None
  with ok u show ?thesis
    by (auto simp: sort_unit_def sort_new_def note_unknown_def sorting_ok_def Let_def split: resolved.splits)
next
  case (Some s)
  note school = schools_by_orgnr_Some [OF Some]
  let ?classified = "classify (scope_facts u) = In_Scope"
  show ?thesis
  proof (cases "s_status s = School_Closed \<or> s_verification s \<notin> {Listed, Verified} \<or> s_municipality_id s \<in> blocked_ids state")
    case True
    with Some ok show ?thesis by (auto simp: sort_unit_def sort_known_def sorting_ok_def Let_def)
  next
    case False
    then have ch: "changeable snapshot state u s"
      using school by (cases "s_status s") (auto simp: changeable_def)
    show ?thesis
    proof (cases "gone_from_register u s")
      case True
      then have "\<not> u_is_active u \<or> \<not> effective_in_scope ?classified (s_scope_override s)"
        by (simp add: gone_from_register_def)
      with Some False ok u ch True show ?thesis
        by (cases "closure_facts j u mom") (auto simp: sort_unit_def sort_known_def sorting_ok_def Let_def)
    next
      case here: False
      then have "u_is_active u" "effective_in_scope ?classified (s_scope_override s)"
        by (simp_all add: gone_from_register_def)
      with Some False ok u ch here show ?thesis
        by (auto simp: sort_unit_def sort_known_def note_unknown_def sorting_ok_def Let_def split: resolved.splits)
    qed
  qed
qed

lemma sort_units_ok:
  "sorting_ok j (in_at inp) snapshot (set (in_units inp)) state (sort_units j snapshot inp state)"
  unfolding sort_units_def
  by (rule foldl_inv) (simp_all add: sorting_ok_def [of _ _ _ _ _ "sorting.make _ _ _ _ _ _", unfolded sorting.make_def] sort_unit_ok)

section \<open>Each school and each unit once\<close>

text \<open>The schools of the three lists, and the units behind the candidates, by orgnr.\<close>

definition sorted_orgnrs :: "('id, 't, 'd) sorting \<Rightarrow> str option list" where
  "sorted_orgnrs so =
     map (s_orgnr \<circ> cg_school) (so_closings so) @ map (s_orgnr \<circ> fc_school) (so_fau_closings so)
     @ map (s_orgnr \<circ> fst) (so_updates so) @ map (Some \<circ> u_orgnr \<circ> ca_unit) (so_candidates so)"

lemma sort_unit_orgnrs:
  "mset (sorted_orgnrs (sort_unit j snapshot mom state so u)) \<in>
     {mset (sorted_orgnrs so), add_mset (Some (u_orgnr u)) (mset (sorted_orgnrs so))}"
proof (cases "schools_by_orgnr snapshot (u_orgnr u)")
  case None
  then show ?thesis
    by (auto simp: sort_unit_def sort_new_def note_unknown_def sorted_orgnrs_def Let_def split: resolved.splits)
next
  case (Some s)
  with schools_by_orgnr_Some [OF Some] show ?thesis
    by (cases "closure_facts j u mom")
      (auto simp: sort_unit_def sort_known_def note_unknown_def sorted_orgnrs_def Let_def split: resolved.splits)
qed

lemma foldl_sort_orgnrs:
  "mset (sorted_orgnrs (foldl (sort_unit j snapshot mom state) so units))
     \<subseteq># mset (map (Some \<circ> u_orgnr) units) + mset (sorted_orgnrs so)"
proof (induction units arbitrary: so)
  case (Cons u units)
  have "mset (sorted_orgnrs (sort_unit j snapshot mom state so u)) \<subseteq># add_mset (Some (u_orgnr u)) (mset (sorted_orgnrs so))"
    using sort_unit_orgnrs [of j snapshot mom state so u] by (auto simp: subset_mset.le_iff_add)
  then have "mset (map (Some \<circ> u_orgnr) units) + mset (sorted_orgnrs (sort_unit j snapshot mom state so u))
      \<subseteq># mset (map (Some \<circ> u_orgnr) units) + add_mset (Some (u_orgnr u)) (mset (sorted_orgnrs so))"
    by (rule subset_mset.add_left_mono)
  with Cons.IH [of "sort_unit j snapshot mom state so u"]
  have "mset (sorted_orgnrs (foldl (sort_unit j snapshot mom state) (sort_unit j snapshot mom state so u) units))
      \<subseteq># mset (map (Some \<circ> u_orgnr) units) + add_mset (Some (u_orgnr u)) (mset (sorted_orgnrs so))"
    by (rule subset_mset.order_trans)
  then show ?case by (simp add: comp_def)
qed simp

lemma sort_units_orgnrs:
  assumes "distinct (map u_orgnr (in_units inp))"
  shows "distinct (sorted_orgnrs (sort_units j snapshot inp state))"
    and "length (sorted_orgnrs (sort_units j snapshot inp state)) \<le> length (in_units inp)"
proof -
  let ?so = "sort_units j snapshot inp state"
  have sub: "mset (sorted_orgnrs ?so) \<subseteq># mset (map (Some \<circ> u_orgnr) (in_units inp))"
    using foldl_sort_orgnrs [of j snapshot "in_at inp" state
        "\<lparr>so_skipped = 0, so_unknown = [], so_closings = [], so_fau_closings = [], so_updates = [], so_candidates = []\<rparr>"
        "in_units inp"]
    by (simp add: sort_units_def sorted_orgnrs_def [of "\<lparr>so_skipped = 0, so_unknown = [], so_closings = [], so_fau_closings = [], so_updates = [], so_candidates = []\<rparr>"])
  have "distinct (map (Some \<circ> u_orgnr) (in_units inp))"
    using assms by (simp add: distinct_map comp_inj_on_iff [symmetric] inj_on_def) 
  then have "\<forall>x. count (mset (map (Some \<circ> u_orgnr) (in_units inp))) x \<le> 1"
    unfolding distinct_count_atmost_1 by auto
  with sub have "\<forall>x. count (mset (sorted_orgnrs ?so)) x \<le> 1"
    by (meson mset_subset_eq_count order_trans)
  then show "distinct (sorted_orgnrs ?so)" by (simp add: distinct_count_atmost_1 le_Suc_eq)
  show "length (sorted_orgnrs ?so) \<le> length (in_units inp)"
    using size_mset_mono [OF sub] by simp
qed

section \<open>Placing the candidates\<close>

text \<open>An entry of the sorted matches: in range, and above the re-registration threshold.\<close>

definition match_ok ::
  "ucd \<Rightarrow> ('id, 't) candidate list \<Rightarrow> ('id, 'd) closing list \<Rightarrow> ('id, 'd) fau_closing list \<Rightarrow> match_entry \<Rightarrow> bool" where
  "match_ok u candidates closings fau_closings m \<longleftrightarrow>
     (case m of (i, pred, sim) \<Rightarrow> i < length candidates \<and>
       (case pred of
          Pred_Closing k \<Rightarrow> k < length closings \<and> cg_reregistrable (closings ! k)
            \<and> in_municipality (candidates ! i) (s_municipality_id (cg_school (closings ! k)))
            \<and> sim = name_similarity u (cg_school (closings ! k)) (u_name (ca_unit (candidates ! i)))
        | Pred_Fau k \<Rightarrow> k < length fau_closings) \<and> reregistration_threshold \<le> sim)"

lemma in_enumerate: "(i, x) \<in> set (enumerate 0 xs) \<longleftrightarrow> i < length xs \<and> x = xs ! i"
  by (auto simp: in_set_enumerate_eq)

lemma all_matches_ok:
  assumes "m \<in> set (all_matches u candidates closings fau_closings)"
  shows "match_ok u candidates closings fau_closings m"
proof -
  from assms obtain i c where i: "i < length candidates" "c = candidates ! i"
    and m: "m \<in> set (candidate_matches u closings fau_closings (i, c))"
    by (auto simp: all_matches_def in_enumerate)
  then show ?thesis
    by (auto simp: candidate_matches_def List.map_filter_def in_enumerate match_ok_def Let_def split: if_splits)
qed

text \<open>The invariant of the assignment: successors and predecessors point at each other.\<close>

definition placing_ok ::
  "('id, 't) candidate list \<Rightarrow> ('id, 'd) closing list \<Rightarrow> ('id, 'd) fau_closing list \<Rightarrow> ('id, 'd) placing \<Rightarrow> bool" where
  "placing_ok candidates closings0 fau0 pl \<longleftrightarrow>
     length (pl_placement pl) = length candidates \<and>
     length (pl_closings pl) = length closings0 \<and>
     map fc_school (pl_fau_closings pl) = map fc_school fau0 \<and>
     (\<forall>k<length closings0. k \<notin> pl_claimed pl \<longrightarrow> pl_closings pl ! k = closings0 ! k) \<and>
     (\<forall>k<length closings0. k \<in> pl_claimed pl \<longrightarrow> (\<exists>i<length candidates.
        pl_closings pl ! k = (closings0 ! k)\<lparr>cg_successor := Some (New i), cg_reason := Merged\<rparr> \<and>
        pl_placement pl ! i = Some (Successor (s_slug (cg_school (closings0 ! k)))) \<and>
        cg_reregistrable (closings0 ! k) \<and>
        in_municipality (candidates ! i) (s_municipality_id (cg_school (closings0 ! k))))) \<and>
     (\<forall>i<length candidates. \<forall>sl. pl_placement pl ! i = Some (Successor sl) \<longrightarrow>
        (\<exists>k<length closings0. k \<in> pl_claimed pl \<and> cg_successor (pl_closings pl ! k) = Some (New i))) \<and>
     (\<forall>k<length closings0. \<forall>k'<length closings0. k \<in> pl_claimed pl \<longrightarrow> k' \<in> pl_claimed pl \<longrightarrow>
        cg_successor (pl_closings pl ! k) = cg_successor (pl_closings pl ! k') \<longrightarrow> k = k')"

lemma placing_okD:
  assumes "placing_ok candidates closings0 fau0 pl"
  shows "length (pl_placement pl) = length candidates"
    and "length (pl_closings pl) = length closings0"
    and "map fc_school (pl_fau_closings pl) = map fc_school fau0"
    and "k < length closings0 \<Longrightarrow> k \<notin> pl_claimed pl \<Longrightarrow> pl_closings pl ! k = closings0 ! k"
    and "k < length closings0 \<Longrightarrow> k \<in> pl_claimed pl \<Longrightarrow> \<exists>i<length candidates.
        pl_closings pl ! k = (closings0 ! k)\<lparr>cg_successor := Some (New i), cg_reason := Merged\<rparr> \<and>
        pl_placement pl ! i = Some (Successor (s_slug (cg_school (closings0 ! k)))) \<and>
        cg_reregistrable (closings0 ! k) \<and>
        in_municipality (candidates ! i) (s_municipality_id (cg_school (closings0 ! k)))"
    and "i < length candidates \<Longrightarrow> pl_placement pl ! i = Some (Successor sl) \<Longrightarrow>
        \<exists>k<length closings0. k \<in> pl_claimed pl \<and> cg_successor (pl_closings pl ! k) = Some (New i)"
    and "k < length closings0 \<Longrightarrow> k' < length closings0 \<Longrightarrow> k \<in> pl_claimed pl \<Longrightarrow> k' \<in> pl_claimed pl \<Longrightarrow>
        cg_successor (pl_closings pl ! k) = cg_successor (pl_closings pl ! k') \<Longrightarrow> k = k'"
  using assms unfolding placing_ok_def by simp_all

text \<open>Placing a candidate that had no placement, without claiming a predecessor.\<close>

lemma placing_ok_hold:
  assumes ok: "placing_ok candidates closings0 fau0 pl" and none: "pl_placement pl ! i = None"
    and p: "\<And>sl. p \<noteq> Successor sl" and f: "map fc_school fau' = map fc_school fau0"
  shows "placing_ok candidates closings0 fau0
    (pl\<lparr>pl_fau_closings := fau', pl_reviews := rv, pl_placement := (pl_placement pl)[i := Some p]\<rparr>)"
proof -
  note d = placing_okD [OF ok]
  show ?thesis
    unfolding placing_ok_def
  proof (intro conjI allI impI; simp)
    fix k assume k: "k < length closings0" "k \<in> pl_claimed pl"
    from d(5) [OF k] obtain i' where i': "i' < length candidates"
      "pl_closings pl ! k = (closings0 ! k)\<lparr>cg_successor := Some (New i'), cg_reason := Merged\<rparr>"
      "pl_placement pl ! i' = Some (Successor (s_slug (cg_school (closings0 ! k))))"
      "cg_reregistrable (closings0 ! k)"
      "in_municipality (candidates ! i') (s_municipality_id (cg_school (closings0 ! k)))" by blast
    with none have "i' \<noteq> i" by auto
    with i' show "\<exists>i'<length candidates.
        pl_closings pl ! k = (closings0 ! k)\<lparr>cg_successor := Some (New i'), cg_reason := Merged\<rparr> \<and>
        (pl_placement pl)[i := Some p] ! i' = Some (Successor (s_slug (cg_school (closings0 ! k)))) \<and>
        cg_reregistrable (closings0 ! k) \<and>
        in_municipality (candidates ! i') (s_municipality_id (cg_school (closings0 ! k)))"
      by auto
  next
    fix i' sl assume "i' < length candidates" "(pl_placement pl)[i := Some p] ! i' = Some (Successor sl)"
    with p d(1) have "i' < length candidates" "pl_placement pl ! i' = Some (Successor sl)"
      by (cases "i' = i"; simp)+
    then show "\<exists>k<length closings0. k \<in> pl_claimed pl \<and> cg_successor (pl_closings pl ! k) = Some (New i')"
      by (rule d(6))
  qed (use d f in auto)
qed

lemma placing_ok_claim:
  assumes ok: "placing_ok candidates closings0 fau0 pl" and none: "pl_placement pl ! i = None"
    and i: "i < length candidates" and k: "k < length closings0" "k \<notin> pl_claimed pl"
    and re: "cg_reregistrable (closings0 ! k)"
      "in_municipality (candidates ! i) (s_municipality_id (cg_school (closings0 ! k)))"
  shows "placing_ok candidates closings0 fau0
    (pl\<lparr>pl_claimed := insert k (pl_claimed pl),
        pl_closings := (pl_closings pl)[k := (pl_closings pl ! k)\<lparr>cg_successor := Some (New i), cg_reason := Merged\<rparr>],
        pl_placement := (pl_placement pl)[i := Some (Successor (s_slug (cg_school (pl_closings pl ! k))))]\<rparr>)"
    (is "placing_ok _ _ _ ?pl")
proof -
  note d = placing_okD [OF ok]
  have ck: "pl_closings pl ! k = closings0 ! k" by (rule d(4) [OF k])
  have other: "cg_successor (pl_closings pl ! k') \<noteq> Some (New i)" if "k' < length closings0" "k' \<in> pl_claimed pl" for k'
  proof
    assume s: "cg_successor (pl_closings pl ! k') = Some (New i)"
    from d(5) [OF that] obtain i' where "pl_closings pl ! k' = (closings0 ! k')\<lparr>cg_successor := Some (New i'), cg_reason := Merged\<rparr>"
      "pl_placement pl ! i' = Some (Successor (s_slug (cg_school (closings0 ! k'))))" by blast
    with s none show False by auto
  qed
  have new: "?pl = pl\<lparr>pl_claimed := insert k (pl_claimed pl),
        pl_closings := (pl_closings pl)[k := (closings0 ! k)\<lparr>cg_successor := Some (New i), cg_reason := Merged\<rparr>],
        pl_placement := (pl_placement pl)[i := Some (Successor (s_slug (cg_school (closings0 ! k))))]\<rparr>"
    by (simp add: ck)
  show ?thesis
    unfolding placing_ok_def new
  proof (intro conjI allI impI; simp)
    fix k' assume k': "k' < length closings0" "k' = k \<or> k' \<in> pl_claimed pl"
    show "\<exists>i'<length candidates.
        (pl_closings pl)[k := (closings0 ! k)\<lparr>cg_successor := Some (New i), cg_reason := Merged\<rparr>] ! k'
          = (closings0 ! k')\<lparr>cg_successor := Some (New i'), cg_reason := Merged\<rparr> \<and>
        (pl_placement pl)[i := Some (Successor (s_slug (cg_school (closings0 ! k))))] ! i'
          = Some (Successor (s_slug (cg_school (closings0 ! k')))) \<and>
        cg_reregistrable (closings0 ! k') \<and>
        in_municipality (candidates ! i') (s_municipality_id (cg_school (closings0 ! k')))"
    proof (cases "k' = k")
      case True
      with i k re d(1,2) show ?thesis by (intro exI [of _ i]) simp
    next
      case False
      with k' have cl: "k' \<in> pl_claimed pl" by simp
      from d(5) [OF k'(1) cl] obtain i' where i': "i' < length candidates"
        "pl_closings pl ! k' = (closings0 ! k')\<lparr>cg_successor := Some (New i'), cg_reason := Merged\<rparr>"
        "pl_placement pl ! i' = Some (Successor (s_slug (cg_school (closings0 ! k'))))"
        "cg_reregistrable (closings0 ! k')"
        "in_municipality (candidates ! i') (s_municipality_id (cg_school (closings0 ! k')))" by blast
      with none have "i' \<noteq> i" by auto
      with i' False show ?thesis by (intro exI [of _ i']) simp
    qed
  next
    fix i' sl assume a: "i' < length candidates"
      "(pl_placement pl)[i := Some (Successor (s_slug (cg_school (closings0 ! k))))] ! i' = Some (Successor sl)"
    show "\<exists>k'<length closings0. (k' = k \<or> k' \<in> pl_claimed pl) \<and>
        cg_successor ((pl_closings pl)[k := (closings0 ! k)\<lparr>cg_successor := Some (New i), cg_reason := Merged\<rparr>] ! k') = Some (New i')"
    proof (cases "i' = i")
      case True
      with k d(2) show ?thesis by (intro exI [of _ k]) simp
    next
      case False
      with a have "pl_placement pl ! i' = Some (Successor sl)" by simp
      from d(6) [OF a(1) this] obtain k' where "k' < length closings0" "k' \<in> pl_claimed pl"
        "cg_successor (pl_closings pl ! k') = Some (New i')" by blast
      moreover from this k have "k' \<noteq> k" by auto
      ultimately show ?thesis by (intro exI [of _ k']) simp
    qed
  next
    fix k1 k2 assume a: "k1 < length closings0" "k2 < length closings0"
      "k1 = k \<or> k1 \<in> pl_claimed pl" "k2 = k \<or> k2 \<in> pl_claimed pl"
      "cg_successor ((pl_closings pl)[k := (closings0 ! k)\<lparr>cg_successor := Some (New i), cg_reason := Merged\<rparr>] ! k1)
        = cg_successor ((pl_closings pl)[k := (closings0 ! k)\<lparr>cg_successor := Some (New i), cg_reason := Merged\<rparr>] ! k2)"
    then show "k1 = k2"
      using other [of k1] other [of k2] d(7) [of k1 k2] k d(2)
      by (cases "k1 = k"; cases "k2 = k") (auto simp: nth_list_update)
  qed (use d k in \<open>auto simp: nth_list_update\<close>)
qed

lemma map_fc_school_update [simp]:
  "map fc_school (fs[k := (fs ! k)\<lparr>fc_reregistered := b\<rparr>]) = map fc_school fs"
proof (rule nth_equalityI)
  fix i assume "i < length (map fc_school (fs[k := (fs ! k)\<lparr>fc_reregistered := b\<rparr>]))"
  then show "map fc_school (fs[k := (fs ! k)\<lparr>fc_reregistered := b\<rparr>]) ! i = map fc_school fs ! i"
    by (cases "i = k") simp_all
qed simp

lemma assign_match_ok:
  assumes ok: "placing_ok candidates closings0 fau0 pl" and m: "match_ok u candidates closings0 fau0 m"
    and a: "assign_match candidates pl m = Some pl'"
  shows "placing_ok candidates closings0 fau0 pl'"
proof -
  obtain i pred sim where mm: "m = (i, pred, sim)" by (cases m)
  show ?thesis
  proof (cases "pl_placement pl ! i = None")
    case none: True
    show ?thesis
    proof (cases pred)
      case (Pred_Closing k)
      show ?thesis
      proof (cases "k \<in> pl_claimed pl")
        case True
        with a ok none show ?thesis by (simp add: assign_match_def mm Pred_Closing)
      next
        case False
        from a none False obtain n where "new_number i = Some n"
          and pl': "pl' = pl\<lparr>pl_claimed := insert k (pl_claimed pl),
              pl_closings := (pl_closings pl)[k := (pl_closings pl ! k)\<lparr>cg_successor := Some (New n), cg_reason := Merged\<rparr>],
              pl_placement := (pl_placement pl)[i := Some (Successor (s_slug (cg_school (pl_closings pl ! k))))]\<rparr>"
          by (auto simp: assign_match_def mm Pred_Closing Let_def split: option.splits)
        then have "n = i" by (simp add: new_number_def split: if_splits)
        with placing_ok_claim [OF ok none _ _ False] m show ?thesis
          by (simp add: pl' match_ok_def mm Pred_Closing)
      qed
    next
      case (Pred_Fau k)
      with a none obtain n where "pl' = pl\<lparr>
          pl_fau_closings := (pl_fau_closings pl)[k := (pl_fau_closings pl ! k)\<lparr>fc_reregistered := True\<rparr>],
          pl_reviews := pl_reviews pl @ [reregistration_review (pl_fau_closings pl ! k) (candidates ! i) (New n) sim],
          pl_placement := (pl_placement pl)[i := Some Held_Reregistration]\<rparr>"
        by (auto simp: assign_match_def mm Let_def split: option.splits)
      with placing_ok_hold [OF ok none, of Held_Reregistration] placing_okD(3) [OF ok] show ?thesis by simp
    qed
  next
    case False
    with a ok show ?thesis by (auto simp: assign_match_def mm)
  qed
qed

lemma place_submission_ok:
  assumes ok: "placing_ok candidates closings0 fau0 pl" and a: "place_submission u snapshot pl ic = Some pl'"
  shows "placing_ok candidates closings0 fau0 pl'"
proof -
  obtain i c where ic: "ic = (i, c)" by (cases ic)
  show ?thesis
  proof (cases "pl_placement pl ! i = None")
    case none: True
    have same: "pl\<lparr>pl_reviews := rv, pl_placement := pp\<rparr>
        = pl\<lparr>pl_fau_closings := pl_fau_closings pl, pl_reviews := rv, pl_placement := pp\<rparr>" for rv pp by simp
    have "\<exists>rv p. (\<forall>sl. p \<noteq> Successor sl) \<and> pl' = pl\<lparr>pl_reviews := rv, pl_placement := (pl_placement pl)[i := Some p]\<rparr>"
      using a none
      by (auto simp: place_submission_def ic split: option.splits)
        (fastforce intro: exI [of _ "pl_reviews pl"] exI [of _ Placed_Listed])+
    then obtain rv p where p: "\<And>sl. p \<noteq> Successor sl"
      and pl': "pl' = pl\<lparr>pl_reviews := rv, pl_placement := (pl_placement pl)[i := Some p]\<rparr>" by blast
    from placing_ok_hold [OF ok none p placing_okD(3) [OF ok]] show ?thesis unfolding pl' same .
  next
    case False
    with a ok show ?thesis by (auto simp: place_submission_def ic)
  qed
qed

lemma placing_ok_start:
  assumes "\<forall>c\<in>set closings. cg_successor c = None"
  shows "placing_ok candidates closings faus
    \<lparr>pl_placement = replicate (length candidates) None, pl_claimed = {}, pl_closings = closings,
     pl_fau_closings = faus, pl_reviews = []\<rparr>"
  by (simp add: placing_ok_def)

lemma place_allE:
  assumes "place_all u candidates snapshot closings faus = Some (placements, closings', faus', reviews)"
  obtains pl1 pl2 where
    "foldM (assign_match candidates)
       \<lparr>pl_placement = replicate (length candidates) None, pl_claimed = {}, pl_closings = closings,
        pl_fau_closings = faus, pl_reviews = []\<rparr>
       (sort_by (match_le candidates closings faus) (all_matches u candidates closings faus)) = Some pl1"
    "foldM (place_submission u snapshot) pl1 (enumerate 0 candidates) = Some pl2"
    "pl_placement pl2 = map Some placements" "closings' = pl_closings pl2"
    "faus' = pl_fau_closings pl2" "reviews = pl_reviews pl2"
proof -
  have some: "pp = map Some (map the pp)" if "\<not> list_ex (\<lambda>p. p = None) pp" for pp :: "placement option list"
    using that by (induction pp) auto
  from assms show thesis
    by (auto simp: place_all_def Let_def split: option.splits if_splits intro!: that dest: some)
qed

lemma place_all_ok:
  assumes "place_all u candidates snapshot closings faus = Some (placements, closings', faus', reviews)"
    and "\<forall>c\<in>set closings. cg_successor c = None"
  shows "\<exists>pl. placing_ok candidates closings faus pl \<and> pl_placement pl = map Some placements
    \<and> closings' = pl_closings pl \<and> faus' = pl_fau_closings pl"
  using assms(1)
proof (rule place_allE)
  fix pl1 pl2
  assume f1: "foldM (assign_match candidates)
       \<lparr>pl_placement = replicate (length candidates) None, pl_claimed = {}, pl_closings = closings,
        pl_fau_closings = faus, pl_reviews = []\<rparr>
       (sort_by (match_le candidates closings faus) (all_matches u candidates closings faus)) = Some pl1"
    and f2: "foldM (place_submission u snapshot) pl1 (enumerate 0 candidates) = Some pl2"
    and r: "pl_placement pl2 = map Some placements" "closings' = pl_closings pl2" "faus' = pl_fau_closings pl2"
  have "placing_ok candidates closings faus pl1"
    using f1 placing_ok_start [OF assms(2)]
    by (rule foldM_inv) (auto intro: assign_match_ok all_matches_ok)
  with f2 have "placing_ok candidates closings faus pl2"
    by (rule foldM_inv) (rule place_submission_ok)
  with r show ?thesis by blast
qed

text \<open>Every candidate is placed: the final \<open>expect\<close> cannot fail, and no number overflows.\<close>

lemma assign_match_total:
  assumes "length candidates < 2 ^ 32" "match_ok u candidates closings faus m"
  shows "\<exists>pl'. assign_match candidates pl m = Some pl' \<and> length (pl_placement pl') = length (pl_placement pl)"
  using assms
  by (cases m; cases "fst (snd m)") (auto simp: assign_match_def match_ok_def new_number_def Let_def)

lemma place_submission_total:
  assumes "i < 2 ^ 32" "i < length (pl_placement pl)"
  shows "\<exists>pl'. place_submission u snapshot pl (i, c) = Some pl'
    \<and> length (pl_placement pl') = length (pl_placement pl)
    \<and> pl_placement pl' ! i \<noteq> None \<and> (\<forall>k. pl_placement pl ! k \<noteq> None \<longrightarrow> pl_placement pl' ! k \<noteq> None)"
proof (cases "pl_placement pl ! i = None")
  case True
  then show ?thesis
    using assms by (auto simp: place_submission_def new_number_def nth_list_update split: option.splits)
qed (simp add: place_submission_def)

lemma place_submissions_total:
  assumes "\<forall>(i, c)\<in>set xs. i < 2 ^ 32 \<and> i < length (pl_placement pl)"
  shows "\<exists>pl'. foldM (place_submission u snapshot) pl xs = Some pl'
    \<and> length (pl_placement pl') = length (pl_placement pl)
    \<and> (\<forall>(i, c)\<in>set xs. pl_placement pl' ! i \<noteq> None)
    \<and> (\<forall>k. pl_placement pl ! k \<noteq> None \<longrightarrow> pl_placement pl' ! k \<noteq> None)"
  using assms
proof (induction xs arbitrary: pl)
  case (Cons x xs)
  obtain i c where x: "x = (i, c)" by (cases x)
  from Cons.prems place_submission_total [of i pl u snapshot c]
  obtain pl1 where p1: "place_submission u snapshot pl (i, c) = Some pl1"
    "length (pl_placement pl1) = length (pl_placement pl)" "pl_placement pl1 ! i \<noteq> None"
    "\<And>k. pl_placement pl ! k \<noteq> None \<Longrightarrow> pl_placement pl1 ! k \<noteq> None"
    by (auto simp: x)
  from Cons.IH [of pl1] Cons.prems p1(2) obtain pl' where p': "foldM (place_submission u snapshot) pl1 xs = Some pl'"
    "length (pl_placement pl') = length (pl_placement pl1)" "\<forall>(i, c)\<in>set xs. pl_placement pl' ! i \<noteq> None"
    "\<And>k. pl_placement pl1 ! k \<noteq> None \<Longrightarrow> pl_placement pl' ! k \<noteq> None" by auto
  have "foldM (place_submission u snapshot) pl (x # xs) = Some pl'" by (simp add: x p1(1) p'(1))
  with p1 p' show ?case by (intro exI [of _ pl']) (auto simp: x)
qed simp

lemma place_all_total:
  fixes closings :: "('id::linorder, 'd) closing list"
  assumes "length candidates < 2 ^ 32"
  shows "\<exists>r. place_all u candidates snapshot closings faus = Some r"
proof -
  let ?pl0 = "\<lparr>pl_placement = replicate (length candidates) None, pl_claimed = {}, pl_closings = closings,
        pl_fau_closings = faus, pl_reviews = []\<rparr>"
  let ?ms = "sort_by (match_le candidates closings faus) (all_matches u candidates closings faus)"
  have "\<exists>pl1. foldM (assign_match candidates) ?pl0 ?ms = Some pl1 \<and> length (pl_placement pl1) = length candidates"
  proof (rule foldM_total)
    fix pl :: "('id, 'd) placing" and m
    assume l: "length (pl_placement pl) = length candidates" and m: "m \<in> set ?ms"
    then have "match_ok u candidates closings faus m" by (simp add: all_matches_ok)
    from assign_match_total [OF assms this, of pl] l
    show "\<exists>s'. assign_match candidates pl m = Some s' \<and> length (pl_placement s') = length candidates" by simp
  qed simp
  then obtain pl1 where f1: "foldM (assign_match candidates) ?pl0 ?ms = Some pl1"
    and l1: "length (pl_placement pl1) = length candidates" by blast
  have "\<forall>(i, c)\<in>set (enumerate 0 candidates). i < 2 ^ 32 \<and> i < length (pl_placement pl1)"
    using assms l1 by (auto simp: in_enumerate)
  from place_submissions_total [OF this, of u snapshot] obtain pl2 where
    f2: "foldM (place_submission u snapshot) pl1 (enumerate 0 candidates) = Some pl2"
    and l2: "length (pl_placement pl2) = length candidates"
    and all: "\<forall>(i, c)\<in>set (enumerate 0 candidates). pl_placement pl2 ! i \<noteq> None"
    unfolding l1 by blast
  have "pl_placement pl2 ! i \<noteq> None" if "i < length candidates" for i
  proof -
    from that have "(i, candidates ! i) \<in> set (enumerate 0 candidates)" by (simp add: in_enumerate)
    with all show ?thesis by blast
  qed
  then have "\<not> list_ex (\<lambda>p. p = None) (pl_placement pl2)"
    using l2 by (auto simp: list_ex_iff in_set_conv_nth)
  with f1 f2 show ?thesis by (simp add: place_all_def Let_def)
qed

end
