(* ===== verification/Slug_Book_Facts.thy ===== *)
theory Slug_Book_Facts
  imports School_Facts
begin

text \<open>
  The mutable book of slugs. Two arguments run over the same three loops: the book stays small,
  so a mint always finds a free slug and the run never panics; and an entry never changes its
  holder, so no two schools of a municipality end the run with one slug.
\<close>

section \<open>The size of the book\<close>

definition book_dom :: "'id slug_book \<Rightarrow> ('id ref \<times> str) set" where
  "book_dom b = dom (sb_current b) \<union> dom (sb_history b)"

definition book_within :: "'id slug_book \<Rightarrow> nat \<Rightarrow> bool" where
  "book_within b n \<longleftrightarrow> finite (book_dom b) \<and> card (book_dom b) \<le> n"

lemma book_within_subset:
  assumes "book_within b n" "book_dom b' \<subseteq> insert x (book_dom b)"
  shows "book_within b' (Suc n)"
proof -
  have fin: "finite (insert x (book_dom b))" using assms(1) by (simp add: book_within_def)
  from card_mono [OF fin assms(2)] have "card (book_dom b') \<le> Suc (card (book_dom b))"
    by (rule order_trans) (use assms(1) in \<open>simp add: book_within_def card_insert_if\<close>)
  with assms finite_subset [OF assms(2) fin] show ?thesis by (simp add: book_within_def)
qed

lemma book_within_mono:
  assumes "book_within b n" "book_dom b' \<subseteq> book_dom b" "n \<le> m"
  shows "book_within b' m"
  using assms card_mono [OF _ assms(2)] finite_subset [OF assms(2)] by (fastforce simp: book_within_def)

lemma book_dom_school: "book_dom (book_school b s) \<subseteq> insert (Existing (s_municipality_id s), the (s_slug s)) (book_dom b)"
  by (auto simp: book_school_def book_dom_def hm_insert_def Let_def split: option.splits if_splits)

lemma book_dom_history: "book_dom (book_history b h) \<subseteq> insert (Existing (fst h), fst (snd h)) (book_dom b)"
  by (cases h) (auto simp: book_history_def book_dom_def hm_insert_def)

lemma book_dom_take: "book_dom (book_take b m slug h) \<subseteq> insert (m, slug) (book_dom b)"
  by (auto simp: book_take_def book_dom_def hm_insert_def)

lemma book_dom_release: "book_dom (book_release b s) \<subseteq> book_dom b"
  by (auto simp: book_release_def book_dom_def hm_remove_def Let_def split: option.splits if_splits)

lemma book_within_foldl:
  assumes "book_within b n" "\<And>b x. \<exists>k. book_dom (f b x) \<subseteq> insert k (book_dom b)"
  shows "book_within (foldl f b xs) (n + length xs)"
  using assms(1)
proof (induction xs arbitrary: b n)
  case (Cons x xs)
  obtain k where "book_dom (f b x) \<subseteq> insert k (book_dom b)" using assms(2) by blast
  from Cons.IH [OF book_within_subset [OF Cons.prems this]] show ?case by simp
qed simp

lemma book_new_within:
  "book_within (book_new snapshot) (length (schools snapshot) + length (school_slug_history snapshot))"
proof -
  let ?b0 = "\<lparr>sb_current = Map.empty, sb_history = Map.empty, sb_closed = {}\<rparr>"
  have "book_within ?b0 0" by (simp add: book_within_def book_dom_def)
  then have "book_within (foldl book_school ?b0 (schools snapshot)) (0 + length (schools snapshot))"
    by (rule book_within_foldl) (use book_dom_school in blast)
  then have "book_within (foldl book_school ?b0 (schools snapshot)) (length (schools snapshot))" by simp
  then show ?thesis
    unfolding book_new_def by (rule book_within_foldl) (use book_dom_history in blast)
qed

lemma book_release_within: "book_within b n \<Longrightarrow> book_within (foldl book_release b ss) n"
proof (induction ss arbitrary: b)
  case (Cons s ss)
  from book_within_mono [OF Cons.prems book_dom_release order_refl] show ?case
    by (simp add: Cons.IH)
qed simp

section \<open>A mint\<close>

lemma is_taken_dom: "is_taken b m slug me \<Longrightarrow> (m, slug) \<in> book_dom b"
  by (auto simp: is_taken_def book_dom_def split: option.splits)

lemma mint_total:
  assumes "book_within b n" "n < 2 ^ 32 - 2"
  shows "\<exists>slug b'. mint u b m base town me = Some (slug, b') \<and> book_within b' (Suc n)"
proof -
  let ?taken = "{s. is_taken b m s me}"
  have "?taken \<subseteq> snd ` book_dom b" using is_taken_dom by force
  moreover have fin: "finite (snd ` book_dom b)" using assms(1) by (simp add: book_within_def)
  ultimately have "finite ?taken" "card ?taken \<le> card (snd ` book_dom b)"
    by (auto intro: finite_subset card_mono)
  moreover have "card (snd ` book_dom b) \<le> n"
    using assms(1) card_image_le [of "book_dom b" snd] by (auto simp: book_within_def)
  ultimately have "finite ?taken" "card ?taken < 2 ^ 32 - 2" using assms(2) by linarith+
  from first_free_slug_total [OF this] obtain s where
    "first_free_slug u base town (\<lambda>c. is_taken b m c me) = Some s" by blast
  then show ?thesis
    using book_within_subset [OF assms(1) book_dom_take] by (auto simp: mint_def)
qed

lemma mint_Some:
  assumes "mint u b m base town me = Some (slug, b')"
  shows "\<not> is_taken b m slug me \<and> b' = book_take b m slug me"
  using assms first_free_slug_free [of u base town "\<lambda>c. is_taken b m c me"]
  by (auto simp: mint_def split: option.splits)

section \<open>Counting loops\<close>

lemma foldM_total_count:
  assumes "Q s k" "k + c * length xs \<le> B"
    and "\<And>s x k. x \<in> set xs \<Longrightarrow> Q s k \<Longrightarrow> k + c \<le> B \<Longrightarrow> \<exists>s'. f s x = Some s' \<and> Q s' (k + c)"
  shows "\<exists>t. foldM f s xs = Some t \<and> Q t (k + c * length xs)"
  using assms
proof (induction xs arbitrary: s k)
  case (Cons x xs)
  obtain s' where s': "f s x = Some s'" "Q s' (k + c)"
    using Cons.prems(3) [of x s k] Cons.prems(1,2) by auto
  have "\<exists>t. foldM f s' xs = Some t \<and> Q t (k + c + c * length xs)"
    by (rule Cons.IH [OF s'(2)]) (use Cons.prems in \<open>auto simp: algebra_simps\<close>)
  with s'(1) show ?case by (simp add: algebra_simps)
qed simp

lemma rename_slug_total:
  assumes "book_within b n" "n < 2 ^ 32 - 2"
  shows "\<exists>c b'. rename_slug u s un moving town b = Some (c, b') \<and> book_within b' (Suc n)"
proof -
  have keep: "book_within b (Suc n)" by (rule book_within_mono [OF assms(1)]) auto
  have m: "\<exists>slug b'. mint u b m base town me = Some (slug, b') \<and> book_within b' (Suc n)" for m base me
    by (rule mint_total [OF assms])
  show ?thesis
  proof (cases "moving \<or> s_display_name_curated s")
    case True
    with keep show ?thesis by (simp add: rename_slug_def)
  next
    case False
    show ?thesis
    proof (cases "s_slug s")
      case None
      show ?thesis
      proof (cases "ok_opt (slugify u (u_name un))")
        case slug: (Some base)
        from m [of "Existing (s_municipality_id s)" base "Existing (s_id s)"] show ?thesis
          by (auto simp: rename_slug_def Let_def False None slug)
      qed (use False None keep in \<open>simp add: rename_slug_def\<close>)
    next
      case (Some old)
      show ?thesis
      proof (cases "opt_filter (\<lambda>base. base \<noteq> old) (ok_opt (slugify u (u_name un)))")
        case slug: (Some base)
        from m [of "Existing (s_municipality_id s)" base "Existing (s_id s)"]
        obtain slug b' where "mint u b (Existing (s_municipality_id s)) base town (Existing (s_id s)) = Some (slug, b')"
          "book_within b' (Suc n)" by blast
        with False Some slug show ?thesis by (auto simp: rename_slug_def Let_def opt_filter_def)
      qed (use False Some keep in \<open>simp add: rename_slug_def\<close>)
    qed
  qed
qed

lemma move_slug_total:
  assumes "book_within b n" "n < 2 ^ 32 - 2"
  shows "\<exists>c b'. move_slug u s name dest town b = Some (c, b') \<and> book_within b' (Suc n)"
proof (cases "s_slug s")
  case None
  have "book_within b (Suc n)" by (rule book_within_mono [OF assms(1)]) auto
  with None show ?thesis by (simp add: move_slug_def)
next
  case (Some old)
  with mint_total [OF assms, of u dest "case slugify u name of Inr b \<Rightarrow> b | Inl _ \<Rightarrow> old" town "Existing (s_id s)"]
  show ?thesis by (auto simp: move_slug_def Let_def)
qed

lemma plan_update_total:
  assumes "book_within b n" "n + 2 \<le> 2 ^ 32 - 3"
  shows "\<exists>b' ops'. plan_update u (b, ops) (s, un, dest) = Some (b', ops') \<and> book_within b' (n + 2)"
proof -
  let ?here = "Existing (s_municipality_id s)"
  let ?town = "a_post_town (attributes_from_unit un)"
  let ?renamed = "s_register_name s \<noteq> Some (u_name un)"
  have "\<exists>c b1. (if ?renamed then rename_slug u s un (dest \<noteq> ?here) ?town b else Some (None, b)) = Some (c, b1)
      \<and> book_within b1 (Suc n)"
    using rename_slug_total [OF assms(1)] book_within_mono [OF assms(1) subset_refl, of "Suc n"] assms(2) by auto
  then obtain c b1 where r: "(if ?renamed then rename_slug u s un (dest \<noteq> ?here) ?town b else Some (None, b)) = Some (c, b1)"
    and b1: "book_within b1 (Suc n)" by blast
  have bound: "Suc n < 2 ^ 32 - 2" using assms(2) by simp
  show ?thesis
  proof (cases "dest = ?here")
    case True
    have "book_within b1 (n + 2)" by (rule book_within_mono [OF b1]) auto
    then show ?thesis
      by (simp only: plan_update_def prod.case Let_def r option.case) (simp add: True)
  next
    case False
    let ?name = "if ?renamed \<and> \<not> s_display_name_curated s then u_name un else s_display_name s"
    from move_slug_total [OF b1 bound, of u s ?name dest ?town]
    obtain c2 b2 where "move_slug u s ?name dest ?town b1 = Some (c2, b2)" "book_within b2 (n + 2)" by auto
    then show ?thesis
      by (simp only: plan_update_def prod.case Let_def r option.case) (simp add: False)
  qed
qed

lemma take_successor_total:
  assumes "book_within b n" "i < 2 ^ 32"
  shows "\<exists>b'. take_successor candidates b (i, p) = Some b' \<and> book_within b' (Suc n)"
proof -
  have keep: "book_within b (Suc n)" by (rule book_within_mono [OF assms(1)]) auto
  show ?thesis
    using assms(2) keep book_within_subset [OF assms(1) book_dom_take]
    by (cases p) (auto simp: take_successor_def new_number_def split: option.split)
qed

lemma create_school_total:
  assumes "book_within b n" "n < 2 ^ 32 - 2" "i < 2 ^ 32"
  shows "\<exists>b' ops'. create_school u (b, ops) (i, c, p) = Some (b', ops') \<and> book_within b' (Suc n)"
proof -
  have keep: "book_within b (Suc n)" by (rule book_within_mono [OF assms(1)]) auto
  let ?town = "a_post_town (attributes_from_unit (ca_unit c))"
  define listed where "listed = (case ok_opt (slugify u (u_name (ca_unit c))) of
       None \<Rightarrow> Some (Create_Listed, None, b)
     | Some base \<Rightarrow>
         (case mint u b (ca_municipality c) base ?town (New i) of
            None \<Rightarrow> None | Some (slug, book') \<Rightarrow> Some (Create_Listed, Some slug, book')))"
  have "\<exists>sl b'. listed = Some (Create_Listed, sl, b') \<and> book_within b' (Suc n)"
  proof (cases "ok_opt (slugify u (u_name (ca_unit c)))")
    case (Some base)
    with mint_total [OF assms(1,2), of u "ca_municipality c" base ?town "New i"] show ?thesis
      by (auto simp: listed_def)
  qed (simp add: listed_def keep)
  then obtain sl b' where l: "listed = Some (Create_Listed, sl, b')" and w: "book_within b' (Suc n)" by blast
  from assms(3) have n: "new_number i = Some i" by (simp add: new_number_def)
  show ?thesis
    unfolding create_school_def Let_def prod.case n option.case listed_def [symmetric] l
    using keep w by (cases p) (auto split: option.split)
qed

text \<open>\<open>plan_schools\<close> never panics while the register is smaller than the numbers it counts with.\<close>

lemma plan_schools_total_aux:
  fixes snapshot :: "'id::linorder register_snapshot" and inp :: "('t, 'd) sync_inputs"
  assumes "distinct (map u_orgnr (in_units inp))"
    and "length (schools snapshot) + length (school_slug_history snapshot) + 4 * length (in_units inp) \<le> 2 ^ 32 - 3"
  shows "\<exists>p. plan_schools u j snapshot inp state = Some p"
proof -
  let ?so = "sort_units j snapshot inp state"
  let ?cs = "so_candidates ?so"
  define N where "N = length (schools snapshot) + length (school_slug_history snapshot)"
  define U where "U = length (in_units inp)"
  have U: "length ?cs + length (so_updates ?so) \<le> U"
    using sort_units_orgnrs(2) [OF assms(1), of j snapshot state] by (simp add: sorted_orgnrs_def U_def)
  have B: "N + 4 * U \<le> 2 ^ 32 - 3" using assms(2) by (simp add: N_def U_def)
  then have c32: "length ?cs < 2 ^ 32" using U by simp
  obtain placements closings faus reviews where
    pl: "place_all u ?cs snapshot (so_closings ?so) (so_fau_closings ?so) = Some (placements, closings, faus, reviews)"
    using place_all_total [OF c32, of u snapshot "so_closings ?so" "so_fau_closings ?so"] by (metis prod_cases4)
  have "\<forall>c\<in>set (so_closings ?so). cg_successor c = None"
    using sort_units_ok [of j inp snapshot state] by (auto simp: sorting_ok_def)
  from place_all_ok [OF pl this] have lp: "length placements = length ?cs"
    by (auto dest!: placing_okD(1))
  let ?b0 = "foldl book_release (book_new snapshot) (map cg_school (so_closings ?so))"
  have b0: "book_within ?b0 N"
    unfolding N_def by (rule book_release_within) (rule book_new_within)
  have "\<exists>b1. foldM (take_successor ?cs) ?b0 (enumerate 0 placements) = Some b1
      \<and> book_within b1 (N + 1 * length (enumerate 0 placements))"
  proof (rule foldM_total_count [where Q = book_within, OF b0])
    show "N + 1 * length (enumerate 0 placements) \<le> 2 ^ 32 - 3" using B U lp by simp
    fix b :: "'id slug_book" and x k
    assume x: "x \<in> set (enumerate 0 placements)" and b: "book_within b k"
    obtain i p where ip: "x = (i, p)" by (cases x)
    with x lp c32 have "i < 2 ^ 32" by (auto simp: in_enumerate)
    from take_successor_total [OF b this] show "\<exists>s'. take_successor ?cs b x = Some s' \<and> book_within s' (k + 1)"
      by (simp add: ip)
  qed
  then obtain b1 where f1: "foldM (take_successor ?cs) ?b0 (enumerate 0 placements) = Some b1"
    and b1: "book_within b1 (N + length ?cs)" using lp by auto
  let ?Q = "\<lambda>(b, ops :: ('id, 't, 'd) school_op list) n. book_within b n"
  have "\<exists>bo. foldM (plan_update u) (b1, []) (so_updates ?so) = Some bo
      \<and> ?Q bo (N + length ?cs + 2 * length (so_updates ?so))"
  proof (rule foldM_total_count [where Q = ?Q])
    show "N + length ?cs + 2 * length (so_updates ?so) \<le> 2 ^ 32 - 3" using B U by simp
    fix bo :: "'id slug_book \<times> ('id, 't, 'd) school_op list"
      and x :: "'id school_snapshot \<times> 't nsr_unit \<times> 'id ref" and k
    assume b: "?Q bo k" and k: "k + 2 \<le> 2 ^ 32 - 3"
    obtain b ops s un d where x: "bo = (b, ops)" "x = (s, un, d)" by (metis prod_cases3 surj_pair)
    with b plan_update_total [of b k u ops s un d] k
    show "\<exists>s'. plan_update u bo x = Some s' \<and> ?Q s' (k + 2)" by auto
  qed (use b1 in simp)
  then obtain b2 and uops :: "('id, 't, 'd) school_op list"
    where f2: "foldM (plan_update u) (b1, []) (so_updates ?so) = Some (b2, uops)"
    and b2: "book_within b2 (N + length ?cs + 2 * length (so_updates ?so))" by auto
  have "\<exists>bo. foldM (create_school u) (b2, map close_op closings) (enumerate 0 (zip ?cs placements)) = Some bo
      \<and> ?Q bo (N + length ?cs + 2 * length (so_updates ?so) + 1 * length (enumerate 0 (zip ?cs placements)))"
  proof (rule foldM_total_count [where Q = ?Q])
    show "N + length ?cs + 2 * length (so_updates ?so) + 1 * length (enumerate 0 (zip ?cs placements)) \<le> 2 ^ 32 - 3"
      using B U lp by simp
    fix bo :: "'id slug_book \<times> ('id, 't, 'd) school_op list" and x k
    assume x: "x \<in> set (enumerate 0 (zip ?cs placements))" and b: "?Q bo k" and k: "k + 1 \<le> 2 ^ 32 - 3"
    obtain b' ops i c p where xx: "bo = (b', ops)" "x = (i, c, p)" by (metis prod_cases3 surj_pair)
    have "i < 2 ^ 32" using x c32 by (auto simp: xx in_enumerate)
    moreover have "k < 2 ^ 32 - 2" using k by simp
    ultimately show "\<exists>s'. create_school u bo x = Some s' \<and> ?Q s' (k + 1)"
      using create_school_total [of b' k i u ops c p] b by (auto simp: xx)
  qed (use b2 in simp)
  then obtain b3 and ops :: "('id, 't, 'd) school_op list"
    where "foldM (create_school u) (b2, map close_op closings) (enumerate 0 (zip ?cs placements)) = Some (b3, ops)"
    by auto
  with pl f1 f2 show ?thesis by (simp add: plan_schools_def Let_def)
qed

end
