(* ===== verification/Slug_Uniqueness.thy ===== *)
theory Slug_Uniqueness
  imports Slug_Book_Facts
begin

text \<open>
  Schools keep their slugs apart. A triple is a slug, the municipality it is used in and the
  school that uses it; the book's \<open>sb_current\<close> agrees with every triple the register holds or the
  plan writes, and a map has one value per key.
\<close>

section \<open>Triples\<close>

type_synonym 'id triple = "'id ref \<times> str \<times> 'id ref"

fun gives :: "'id register_snapshot \<Rightarrow> ('id, 't, 'd) school_op \<Rightarrow> 'id triple set" where
  "gives snapshot (School_Create n m _ _ _ slug _ _ _ _) =
     (case slug of None \<Rightarrow> {} | Some s \<Rightarrow> {(m, s, New n)})"
| "gives snapshot (School_Rename i _ _ change) =
     (case change of None \<Rightarrow> {}
      | Some c \<Rightarrow> (\<lambda>s. (Existing (s_municipality_id s), sc_new c, Existing i)) ` {s \<in> set (schools snapshot). s_id s = i})"
| "gives snapshot (Move i _ m change) =
     (case change of None \<Rightarrow> {} | Some c \<Rightarrow> {(m, sc_new c, Existing i)})"
| "gives snapshot (Update_Attributes _ _) = {}"
| "gives snapshot (Close _ _ _ _) = {}"

definition all_gives :: "'id register_snapshot \<Rightarrow> ('id, 't, 'd) school_op list \<Rightarrow> 'id triple set" where
  "all_gives snapshot ops = \<Union> (gives snapshot ` set ops)"

lemma all_gives_append [simp]: "all_gives snapshot (a @ b) = all_gives snapshot a \<union> all_gives snapshot b"
  by (auto simp: all_gives_def)

lemma all_gives_Nil [simp]: "all_gives snapshot [] = {}"
  and all_gives_Cons [simp]: "all_gives snapshot (op # ops) = gives snapshot op \<union> all_gives snapshot ops"
  by (simp_all add: all_gives_def)

definition book_holds :: "'id slug_book \<Rightarrow> 'id triple set \<Rightarrow> bool" where
  "book_holds b A \<longleftrightarrow> (\<forall>(m, slug, h)\<in>A. sb_current b (m, slug) = Some h)"

lemma book_holds_functional:
  assumes "book_holds b A" "(m, s, h) \<in> A" "(m, s, h') \<in> A"
  shows "h = h'"
proof -
  from assms have "sb_current b (m, s) = Some h" "sb_current b (m, s) = Some h'"
    unfolding book_holds_def by blast+
  then show ?thesis by simp
qed

lemma book_holds_subset: "book_holds b A \<Longrightarrow> B \<subseteq> A \<Longrightarrow> book_holds b B"
  by (auto simp: book_holds_def)

lemma book_holds_take:
  assumes "book_holds b A" "\<And>h'. (m, slug, h') \<in> A \<Longrightarrow> h' = h"
  shows "book_holds (book_take b m slug h) (insert (m, slug, h) A)"
  using assms by (auto simp: book_holds_def book_take_def hm_insert_def)

lemma book_holds_mint:
  assumes "book_holds b A" "mint u b m base town me = Some (slug, b')"
  shows "book_holds b' (insert (m, slug, me) A)"
proof -
  from mint_Some [OF assms(2)] have nt: "\<not> is_taken b m slug me" and b': "b' = book_take b m slug me" by auto
  have "h' = me" if "(m, slug, h') \<in> A" for h'
    using that assms(1) nt by (auto simp: book_holds_def is_taken_def split: option.splits)
  with book_holds_take [OF assms(1)] show ?thesis unfolding b' by blast
qed

section \<open>The register at the start\<close>

text \<open>One row per id, and one school per slug in a municipality.\<close>

definition snapshot_ok :: "'id register_snapshot \<Rightarrow> bool" where
  "snapshot_ok snapshot \<longleftrightarrow> distinct (map s_id (schools snapshot)) \<and>
     (\<forall>s\<in>set (schools snapshot). \<forall>s'\<in>set (schools snapshot).
        s_municipality_id s = s_municipality_id s' \<longrightarrow> s_slug s \<noteq> None \<longrightarrow> s_slug s = s_slug s' \<longrightarrow> s = s')"

lemma snapshot_okD:
  assumes "snapshot_ok snapshot" "s \<in> set (schools snapshot)" "s' \<in> set (schools snapshot)"
  shows "s_id s = s_id s' \<Longrightarrow> s = s'"
    and "s_municipality_id s = s_municipality_id s' \<Longrightarrow> s_slug s \<noteq> None \<Longrightarrow> s_slug s = s_slug s' \<Longrightarrow> s = s'"
  using assms unfolding snapshot_ok_def distinct_map by (auto dest: inj_onD)

text \<open>The triples of the schools that are not closing.\<close>

definition kept_triples :: "'id register_snapshot \<Rightarrow> 'id school_snapshot set \<Rightarrow> 'id triple set" where
  "kept_triples snapshot closing =
     {(Existing (s_municipality_id s), slug, Existing (s_id s)) | s slug.
        s \<in> set (schools snapshot) \<and> s \<notin> closing \<and> s_slug s = Some slug}"

lemma book_history_current [simp]: "sb_current (book_history b h) = sb_current b"
  by (cases h) (simp add: book_history_def)

lemma foldl_history_current [simp]: "sb_current (foldl book_history b hs) = sb_current b"
  by (induction hs arbitrary: b) simp_all

lemma book_school_current:
  "sb_current (book_school b s) =
     (case s_slug s of None \<Rightarrow> sb_current b
      | Some slug \<Rightarrow> (sb_current b)((Existing (s_municipality_id s), slug) \<mapsto> Existing (s_id s)))"
  by (auto simp: book_school_def Let_def hm_insert_def split: option.splits)

lemma foldl_school_current:
  assumes "\<And>s s'. s \<in> set ss \<Longrightarrow> s' \<in> set ss \<Longrightarrow> s_municipality_id s = s_municipality_id s' \<Longrightarrow>
      s_slug s \<noteq> None \<Longrightarrow> s_slug s = s_slug s' \<Longrightarrow> s = s'"
    and "s \<in> set ss" "s_slug s = Some slug"
  shows "sb_current (foldl book_school b ss) (Existing (s_municipality_id s), slug) = Some (Existing (s_id s))"
  using assms
proof (induction ss rule: rev_induct)
  case (snoc x ss)
  show ?case
  proof (cases "s_municipality_id x = s_municipality_id s \<and> s_slug x = Some slug")
    case True
    with snoc.prems(1) [of s x] snoc.prems(2,3) have "x = s" by auto
    with True show ?thesis by (simp add: book_school_current)
  next
    case False
    with snoc.prems have "s \<in> set ss" by auto
    with snoc have "sb_current (foldl book_school b ss) (Existing (s_municipality_id s), slug) = Some (Existing (s_id s))"
      by auto
    with False show ?thesis by (auto simp: book_school_current split: option.splits)
  qed
qed simp

lemma book_release_current:
  "sb_current (book_release b s) =
     (case s_slug s of None \<Rightarrow> sb_current b
      | Some slug \<Rightarrow> (sb_current b)((Existing (s_municipality_id s), slug) := None))"
  by (auto simp: book_release_def Let_def hm_remove_def split: option.splits)

lemma foldl_release_current:
  assumes "\<And>s. s \<in> set ss \<Longrightarrow> \<not> (Existing (s_municipality_id s) = m \<and> s_slug s = Some slug)"
  shows "sb_current (foldl book_release b ss) (m, slug) = sb_current b (m, slug)"
  using assms
proof (induction ss arbitrary: b)
  case (Cons s ss)
  then have "sb_current (book_release b s) (m, slug) = sb_current b (m, slug)"
    by (auto simp: book_release_current split: option.splits)
  with Cons show ?case by simp
qed simp

lemma book_start_holds:
  assumes ok: "snapshot_ok snapshot" and cl: "closing \<subseteq> set (schools snapshot)" "set ss = closing"
  shows "book_holds (foldl book_release (book_new snapshot) ss) (kept_triples snapshot closing)"
proof -
  have "sb_current (foldl book_release (book_new snapshot) ss) (Existing (s_municipality_id s), slug) = Some (Existing (s_id s))"
    if s: "s \<in> set (schools snapshot)" "s \<notin> closing" "s_slug s = Some slug" for s slug
  proof -
    have "\<not> (Existing (s_municipality_id s') = Existing (s_municipality_id s) \<and> s_slug s' = Some slug)" if "s' \<in> set ss" for s'
    proof
      assume e: "Existing (s_municipality_id s') = Existing (s_municipality_id s) \<and> s_slug s' = Some slug"
      have "s' \<in> set (schools snapshot)" using that cl by auto
      from snapshot_okD(2) [OF ok this s(1)] e s(3) have "s' = s" by auto
      with that cl s(2) show False by simp
    qed
    then have "sb_current (foldl book_release (book_new snapshot) ss) (Existing (s_municipality_id s), slug)
        = sb_current (book_new snapshot) (Existing (s_municipality_id s), slug)"
      by (rule foldl_release_current)
    also have "\<dots> = Some (Existing (s_id s))"
      unfolding book_new_def foldl_history_current
      by (rule foldl_school_current [OF _ s(1,3)]) (rule snapshot_okD(2) [OF ok])
    finally show ?thesis .
  qed
  then show ?thesis by (auto simp: book_holds_def kept_triples_def)
qed

section \<open>Successors take their predecessors' slugs\<close>

definition inherited :: "('id, 't) candidate list \<Rightarrow> placement list \<Rightarrow> 'id triple set" where
  "inherited candidates placements =
     {(ca_municipality (candidates ! i), slug, New i) | i slug.
        i < length placements \<and> placements ! i = Successor (Some slug)}"

lemma take_successors_hold:
  assumes "foldM (take_successor candidates) b xs = Some b'" "book_holds b (A \<union> T)"
    and "\<And>i p. (i, p) \<in> set xs \<Longrightarrow> i < length placements \<and> p = placements ! i"
    and fun': "\<And>m s h h'. (m, s, h) \<in> A \<union> inherited candidates placements \<Longrightarrow>
        (m, s, h') \<in> A \<union> inherited candidates placements \<Longrightarrow> h = h'"
    and "T \<subseteq> inherited candidates placements"
  shows "book_holds b' (A \<union> T \<union> {(ca_municipality (candidates ! i), slug, New i) | i slug.
      (i, Successor (Some slug)) \<in> set xs})"
  using assms(1,2,3,5)
proof (induction xs arbitrary: b T)
  case (Cons x xs)
  obtain i p where x: "x = (i, p)" by (cases x)
  with Cons.prems(3) have ip: "i < length placements" "p = placements ! i" by auto
  from Cons.prems(1) obtain b1 where b1: "take_successor candidates b (i, p) = Some b1"
    and rest: "foldM (take_successor candidates) b1 xs = Some b'"
    by (auto simp: x split: option.splits)
  show ?case
  proof (cases "\<exists>slug. p = Successor (Some slug)")
    case True
    then obtain slug where p: "p = Successor (Some slug)" by blast
    let ?t = "(ca_municipality (candidates ! i), slug, New i)"
    have t: "?t \<in> inherited candidates placements" using ip p by (auto simp: inherited_def)
    have "b1 = book_take b (ca_municipality (candidates ! i)) slug (New i)"
      using b1 p by (auto simp: take_successor_def new_number_def split: if_splits)
    moreover have "h' = New i" if "(ca_municipality (candidates ! i), slug, h') \<in> A \<union> T" for h'
      using fun' [of "ca_municipality (candidates ! i)" slug h' "New i"] that t Cons.prems(4) by auto
    ultimately have "book_holds b1 (insert ?t (A \<union> T))"
      using book_holds_take [OF Cons.prems(2)] by metis
    then have "book_holds b1 (A \<union> insert ?t T)" by (simp add: Un_insert_right)
    from Cons.IH [OF rest this] Cons.prems(3,4) t
    have "book_holds b' (A \<union> insert ?t T \<union> {(ca_municipality (candidates ! i), slug, New i) | i slug.
      (i, Successor (Some slug)) \<in> set xs})" by auto
    then show ?thesis by (rule book_holds_subset) (auto simp: x p)
  next
    case False
    then have "b1 = b"
      using b1 by (cases p) (auto simp: take_successor_def split: option.splits)
    with Cons.IH [OF rest] Cons.prems
    have "book_holds b' (A \<union> T \<union> {(ca_municipality (candidates ! i), slug, New i) | i slug.
      (i, Successor (Some slug)) \<in> set xs})" by auto
    then show ?thesis by (rule book_holds_subset) (use False x in auto)
  qed
qed simp

lemma triples_functional:
  assumes ok: "snapshot_ok snapshot"
    and cl: "\<And>c. c \<in> set closings0 \<Longrightarrow> cg_school c \<in> set (schools snapshot)"
    and dist: "distinct (map cg_school closings0)"
    and pl: "placing_ok candidates closings0 faus pl" "pl_placement pl = map Some placements"
    and t: "(m, s, h) \<in> kept_triples snapshot (cg_school ` set closings0) \<union> inherited candidates placements"
    and t': "(m, s, h') \<in> kept_triples snapshot (cg_school ` set closings0) \<union> inherited candidates placements"
  shows "h = h'"
proof -
  note d = placing_okD [OF pl(1)]
  have lp: "length placements = length candidates" using d(1) pl(2) by (metis length_map)
  have owner: "\<exists>k<length closings0. k \<in> pl_claimed pl \<and> cg_successor (pl_closings pl ! k) = Some (New i)
      \<and> m = Existing (s_municipality_id (cg_school (closings0 ! k))) \<and> s_slug (cg_school (closings0 ! k)) = Some slug"
    if "i < length placements" "placements ! i = Successor (Some slug)" "m = ca_municipality (candidates ! i)" for i slug m
  proof -
    have "pl_placement pl ! i = Some (Successor (Some slug))" using that pl(2) by simp
    from d(6) [OF _ this] that lp obtain k where k: "k < length closings0" "k \<in> pl_claimed pl"
      "cg_successor (pl_closings pl ! k) = Some (New i)" by auto
    from d(5) [OF k(1,2)] obtain i' where i': "i' < length candidates"
      "pl_closings pl ! k = (closings0 ! k)\<lparr>cg_successor := Some (New i'), cg_reason := Merged\<rparr>"
      "pl_placement pl ! i' = Some (Successor (s_slug (cg_school (closings0 ! k))))"
      "in_municipality (candidates ! i') (s_municipality_id (cg_school (closings0 ! k)))" by blast
    with k(3) have "i' = i" by simp
    with i' k that pl(2) show ?thesis by (auto simp: in_municipality_def)
  qed
  have split: "(\<exists>x. x \<in> set (schools snapshot) \<and> m = Existing (s_municipality_id x) \<and> s_slug x = Some s \<and>
        (if x \<in> cg_school ` set closings0 then
           (\<exists>k<length closings0. x = cg_school (closings0 ! k) \<and> k \<in> pl_claimed pl \<and> cg_successor (pl_closings pl ! k) = Some h)
         else h = Existing (s_id x)))"
    if "(m, s, h) \<in> kept_triples snapshot (cg_school ` set closings0) \<union> inherited candidates placements" for h
    using that
  proof
    assume "(m, s, h) \<in> kept_triples snapshot (cg_school ` set closings0)"
    then show ?thesis by (auto simp: kept_triples_def)
  next
    assume "(m, s, h) \<in> inherited candidates placements"
    then obtain i where i: "i < length placements" "placements ! i = Successor (Some s)"
      "m = ca_municipality (candidates ! i)" "h = New i" by (auto simp: inherited_def)
    from owner [OF i(1-3)] obtain k where k: "k < length closings0" "k \<in> pl_claimed pl"
      "cg_successor (pl_closings pl ! k) = Some (New i)"
      "m = Existing (s_municipality_id (cg_school (closings0 ! k)))" "s_slug (cg_school (closings0 ! k)) = Some s" by blast
    then have "cg_school (closings0 ! k) \<in> cg_school ` set closings0" "cg_school (closings0 ! k) \<in> set (schools snapshot)"
      using cl by auto
    with k i(4) show ?thesis by (intro exI [of _ "cg_school (closings0 ! k)"]) auto
  qed
  from split [OF t] split [OF t'] obtain x x' where
    x: "x \<in> set (schools snapshot)" "m = Existing (s_municipality_id x)" "s_slug x = Some s"
      "if x \<in> cg_school ` set closings0 then
         (\<exists>k<length closings0. x = cg_school (closings0 ! k) \<and> k \<in> pl_claimed pl \<and> cg_successor (pl_closings pl ! k) = Some h)
       else h = Existing (s_id x)" and
    x': "x' \<in> set (schools snapshot)" "m = Existing (s_municipality_id x')" "s_slug x' = Some s"
      "if x' \<in> cg_school ` set closings0 then
         (\<exists>k<length closings0. x' = cg_school (closings0 ! k) \<and> k \<in> pl_claimed pl \<and> cg_successor (pl_closings pl ! k) = Some h')
       else h' = Existing (s_id x')" by blast
  have "x = x'" using snapshot_okD(2) [OF ok x(1) x'(1)] x x' by simp
  show ?thesis
  proof (cases "x \<in> cg_school ` set closings0")
    case True
    with x(4) obtain k where k: "k < length closings0" "x = cg_school (closings0 ! k)"
      "cg_successor (pl_closings pl ! k) = Some h" by auto
    from True x'(4) \<open>x = x'\<close> obtain k' where k': "k' < length closings0" "x = cg_school (closings0 ! k')"
      "cg_successor (pl_closings pl ! k') = Some h'" by auto
    have "map cg_school closings0 ! k = map cg_school closings0 ! k'" using k k' by simp
    with nth_eq_iff_index_eq [OF dist, of k k'] k(1) k'(1) have "k = k'" by simp
    with k(3) k'(3) show ?thesis by simp
  qed (use x(4) x'(4) \<open>x = x'\<close> in simp)
qed

section \<open>Updates and creates\<close>

lemma rename_slug_holds:
  assumes "book_holds b A" "rename_slug u s un moving town b = Some (c, b')"
  shows "book_holds b' A \<and> (\<forall>ch. c = Some ch \<longrightarrow>
    book_holds b' (insert (Existing (s_municipality_id s), sc_new ch, Existing (s_id s)) A))"
proof -
  have m: "book_holds b' (insert (Existing (s_municipality_id s), slug, Existing (s_id s)) A)"
    if "mint u b (Existing (s_municipality_id s)) base town (Existing (s_id s)) = Some (slug, b')" for base slug
    using book_holds_mint [OF assms(1) that] .
  have sub: "book_holds b' A" if "book_holds b' (insert t A)" for t
    using book_holds_subset [OF that] by auto
  from assms(2) consider "b' = b" "c = None" |
    base slug where "mint u b (Existing (s_municipality_id s)) base town (Existing (s_id s)) = Some (slug, b')"
      "c = None \<or> (\<exists>old. c = Some \<lparr>sc_old = old, sc_new = slug\<rparr>)"
    by (fastforce simp: rename_slug_def Let_def split: if_splits option.splits)
  then show ?thesis
  proof cases
    case 1
    with assms(1) show ?thesis by simp
  next
    case 2
    with m [OF 2(1)] sub show ?thesis by auto
  qed
qed

lemma move_slug_holds:
  assumes "book_holds b A" "move_slug u s name dest town b = Some (c, b')"
  shows "book_holds b' A \<and> (\<forall>ch. c = Some ch \<longrightarrow> book_holds b' (insert (dest, sc_new ch, Existing (s_id s)) A))"
proof (cases "s_slug s")
  case None
  with assms show ?thesis by (simp add: move_slug_def)
next
  case (Some old)
  with assms(2) obtain base slug where "mint u b dest base town (Existing (s_id s)) = Some (slug, b')"
    "c = Some \<lparr>sc_old = Some old, sc_new = slug\<rparr>"
    by (auto simp: move_slug_def Let_def split: option.splits)
  with book_holds_mint [OF assms(1) this(1)] show ?thesis
    using book_holds_subset by (metis option.inject slug_change.select_convs(2) subset_insertI)
qed

lemma plan_update_holds:
  fixes ops :: "('id, 't, 'd) school_op list"
  assumes ok: "snapshot_ok snapshot" and s: "s \<in> set (schools snapshot)"
    and b: "book_holds b (A \<union> all_gives snapshot ops)"
    and p: "plan_update u (b, ops) (s, un, dest) = Some (b', ops')"
  shows "book_holds b' (A \<union> all_gives snapshot ops')"
proof -
  let ?here = "Existing (s_municipality_id s)"
  let ?town = "a_post_town (attributes_from_unit un)"
  let ?renamed = "s_register_name s \<noteq> Some (u_name un)"
  let ?name = "if ?renamed \<and> \<not> s_display_name_curated s then u_name un else s_display_name s"
  have uniq: "{x \<in> set (schools snapshot). s_id x = s_id s} = {s}"
    using s snapshot_okD(1) [OF ok _ s] by auto
  from p obtain c1 b1 where r: "(if ?renamed then rename_slug u s un (dest \<noteq> ?here) ?town b else Some (None, b)) = Some (c1, b1)"
    by (auto simp: plan_update_def Let_def split: option.splits prod.splits)
  let ?ops1 = "if ?renamed then ops @ [School_Rename (s_id s) (u_name un)
      (if s_display_name_curated s then None else Some (u_name un)) c1] else ops"
  let ?ops2 = "if attributes_from_unit un \<noteq> s_attributes s
      then ?ops1 @ [Update_Attributes (s_id s) (attributes_from_unit un)] else ?ops1"
  have b1: "book_holds b1 (A \<union> all_gives snapshot ?ops2)"
  proof (cases ?renamed)
    case True
    with r have rn: "rename_slug u s un (dest \<noteq> ?here) ?town b = Some (c1, b1)" by simp
    from rename_slug_holds [OF b rn]
    have "book_holds b1 (A \<union> all_gives snapshot ops \<union> gives snapshot (School_Rename (s_id s) (u_name un)
      (if s_display_name_curated s then None else Some (u_name un)) c1 :: ('id, 't, 'd) school_op))"
      by (cases c1) (simp_all add: uniq)
    with True show ?thesis by (auto simp: Un_assoc)
  next
    case False
    with r b show ?thesis by auto
  qed
  from p have q: "(if dest = ?here then Some (b1, ?ops2)
     else (case move_slug u s ?name dest ?town b1 of None \<Rightarrow> None
           | Some (slug2, book2) \<Rightarrow> Some (book2, ?ops2 @ [Move (s_id s) (s_municipality_id s) dest slug2]))) = Some (b', ops')"
    by (simp only: plan_update_def prod.case Let_def r option.case) (simp split: if_splits)
  show ?thesis
  proof (cases "dest = ?here")
    case True
    with q b1 show ?thesis by auto
  next
    case False
    with q obtain c2 where mv: "move_slug u s ?name dest ?town b1 = Some (c2, b')"
      and ops': "ops' = ?ops2 @ [Move (s_id s) (s_municipality_id s) dest c2]"
      by (auto split: option.splits prod.splits)
    from move_slug_holds [OF b1 mv]
    have "book_holds b' (A \<union> all_gives snapshot ?ops2 \<union> gives snapshot (Move (s_id s) (s_municipality_id s) dest c2 :: ('id, 't, 'd) school_op))"
      by (cases c2) simp_all
    moreover have "all_gives snapshot ops' = all_gives snapshot ?ops2
        \<union> gives snapshot (Move (s_id s) (s_municipality_id s) dest c2 :: ('id, 't, 'd) school_op)"
      unfolding ops' by simp
    ultimately show ?thesis by (simp only: Un_assoc)
  qed
qed

lemma create_school_holds:
  fixes ops :: "('id, 't, 'd) school_op list"
  assumes b: "book_holds b (A \<union> all_gives snapshot ops)" and T: "inherited candidates placements \<subseteq> A"
    and i: "i < length placements" "c = candidates ! i" "p = placements ! i"
    and cr: "create_school u (b, ops) (i, c, p) = Some (b', ops')"
  shows "book_holds b' (A \<union> all_gives snapshot ops')"
proof -
  let ?town = "a_post_town (attributes_from_unit (ca_unit c))"
  from cr have n: "new_number i = Some i" by (auto simp: create_school_def new_number_def split: option.splits if_splits)
  define op :: "create_verification \<Rightarrow> str option \<Rightarrow> ('id, 't, 'd) school_op"
    where "op v slug = School_Create i (ca_municipality c) (u_orgnr (ca_unit c)) (u_name (ca_unit c))
      (u_name (ca_unit c)) slug v True (attributes_from_unit (ca_unit c)) (u_changed_at (ca_unit c))" for v slug
  from cr consider
    (held) v where "b' = b" "ops' = ops @ [op v None]" |
    (succ) slug where "p = Successor (Some slug)" "b' = b" "ops' = ops @ [op Create_Listed (Some slug)]" |
    (mint) base slug where "mint u b (ca_municipality c) base ?town (New i) = Some (slug, b')"
      "ops' = ops @ [op Create_Listed (Some slug)]"
    unfolding create_school_def Let_def prod.case n option.case op_def [symmetric]
    by (cases p) (auto split: option.splits)
  then show ?thesis
  proof cases
    case held
    with b show ?thesis by (simp add: op_def)
  next
    case succ
    then have "(ca_municipality c, slug, New i) \<in> A" using i T by (auto simp: inherited_def)
    with b succ show ?thesis by (simp add: op_def insert_absorb)
  next
    case mint
    from book_holds_mint [OF b mint(1)] mint(2) show ?thesis by (simp add: op_def)
  qed
qed

section \<open>The plan's slugs\<close>

lemma plan_schoolsE:
  assumes "plan_schools u j snapshot inp state = Some p"
  obtains placements closings faus reviews b1 b2 b3 uops ops where
    "place_all u (so_candidates (sort_units j snapshot inp state)) snapshot
       (so_closings (sort_units j snapshot inp state)) (so_fau_closings (sort_units j snapshot inp state))
       = Some (placements, closings, faus, reviews)"
    "foldM (take_successor (so_candidates (sort_units j snapshot inp state)))
       (foldl book_release (book_new snapshot) (map cg_school (so_closings (sort_units j snapshot inp state))))
       (enumerate 0 placements) = Some b1"
    "foldM (plan_update u) (b1, []) (so_updates (sort_units j snapshot inp state)) = Some (b2, uops)"
    "foldM (create_school u) (b2, map close_op closings)
       (enumerate 0 (zip (so_candidates (sort_units j snapshot inp state)) placements)) = Some (b3, ops)"
    "spl_ops p = ops @ uops"
    "spl_reviews p = reviews @ map (fau_review j) (filter (\<lambda>f. \<not> fc_reregistered f) faus)
       @ map unknown_review (so_unknown (sort_units j snapshot inp state))"
    "spl_skipped p = so_skipped (sort_units j snapshot inp state)"
  using assms by (auto simp: plan_schools_def Let_def split: option.splits prod.splits)

lemma place_all_lengths:
  assumes "place_all u candidates snapshot closings0 faus0 = Some (placements, closings, faus, reviews)"
    and "\<forall>c\<in>set closings0. cg_successor c = None"
  shows "length placements = length candidates \<and> length closings = length closings0
    \<and> (\<forall>k<length closings0. cg_school (closings ! k) = cg_school (closings0 ! k))"
proof -
  from place_all_ok [OF assms] obtain pl where pl: "placing_ok candidates closings0 faus0 pl"
    "pl_placement pl = map Some placements" "closings = pl_closings pl" by blast
  note d = placing_okD [OF pl(1)]
  have "cg_school (closings ! k) = cg_school (closings0 ! k)" if "k < length closings0" for k
  proof (cases "k \<in> pl_claimed pl")
    case True
    from d(5) [OF that True] show ?thesis by (auto simp: pl(3))
  qed (use d(4) [OF that] in \<open>simp add: pl(3)\<close>)
  moreover have "length placements = length candidates" using d(1) pl(2) by (metis length_map)
  ultimately show ?thesis using d(2) by (simp add: pl(3))
qed

text \<open>The close operations close exactly the schools the sorting put in \<open>so_closings\<close>.\<close>

definition closed_ids :: "('id, 't, 'd) school_op list \<Rightarrow> 'id set" where
  "closed_ids ops = {i. \<exists>r d s. Close i r d s \<in> set ops}"

lemma closed_ids_append: "closed_ids (a @ b) = closed_ids a \<union> closed_ids b"
  by (auto simp: closed_ids_def)

lemma closed_ids_close: "closed_ids (map close_op cs :: ('id, 't, 'd) school_op list) = (s_id \<circ> cg_school) ` set cs"
  by (force simp: closed_ids_def close_op_def)

lemma create_school_appends:
  assumes "create_school u (b, ops) (i, c, p) = Some (b', ops')"
  shows "\<exists>slug v. ops' = ops @ [School_Create i (ca_municipality c) (u_orgnr (ca_unit c)) (u_name (ca_unit c))
    (u_name (ca_unit c)) slug v True (attributes_from_unit (ca_unit c)) (u_changed_at (ca_unit c))]
    \<and> (v = Create_Held \<longleftrightarrow> p \<in> {Held_Reregistration, Held_Submission})
    \<and> (v = Create_Held \<longrightarrow> slug = None)
    \<and> (\<forall>sl. p = Successor (Some sl) \<longrightarrow> slug = Some sl)"
  using assms unfolding create_school_def Let_def prod.case
  by (cases p) (auto simp: new_number_def split: option.splits if_splits)

lemma creates_close_nothing:
  assumes "foldM (create_school u) (b, ops) xs = Some (b', ops')"
  shows "closed_ids ops' = closed_ids ops"
proof -
  have "closed_ids (snd (b', ops')) = closed_ids ops"
    using assms
  proof (rule foldM_inv)
    fix bo x bo' assume ih: "closed_ids (snd bo) = closed_ids ops" and c: "create_school u bo x = Some bo'"
    obtain b1 o1 i ca pp b2 o2 where x: "bo = (b1, o1)" "x = (i, ca, pp)" "bo' = (b2, o2)" by (metis surj_pair)
    from create_school_appends [of u b1 o1 i ca pp b2 o2] c ih show "closed_ids (snd bo') = closed_ids ops"
      by (auto simp: x closed_ids_append) (auto simp: closed_ids_def)
  qed simp
  then show ?thesis by simp
qed

lemma plan_schools_holds:
  fixes p :: "('id::linorder, 't, 'd) school_plan"
  assumes ok: "snapshot_ok snapshot" and units: "distinct (map u_orgnr (in_units inp))"
    and p: "plan_schools u j snapshot inp state = Some p"
  shows "\<exists>b. book_holds b (kept_triples snapshot (cg_school ` set (so_closings (sort_units j snapshot inp state)))
    \<union> all_gives snapshot (spl_ops p))"
proof -
  let ?so = "sort_units j snapshot inp state"
  let ?cs = "so_candidates ?so" and ?cl = "so_closings ?so"
  from sort_units_ok [of j inp snapshot state]
  have none: "\<forall>c\<in>set ?cl. cg_successor c = None"
    and known: "\<And>c. c \<in> set ?cl \<Longrightarrow> cg_school c \<in> set (schools snapshot)"
    and upd: "\<And>s un m. (s, un, m) \<in> set (so_updates ?so) \<Longrightarrow> s \<in> set (schools snapshot)"
    by (fastforce simp: sorting_ok_def changeable_def)+
  have "distinct (map s_orgnr (map cg_school ?cl))"
    using sort_units_orgnrs(1) [OF units, of j snapshot state] by (simp add: sorted_orgnrs_def)
  then have dist: "distinct (map cg_school ?cl)" by (rule distinct_map [THEN iffD1, THEN conjunct1])
  let ?K = "kept_triples snapshot (cg_school ` set ?cl)"
  from p show ?thesis
  proof (rule plan_schoolsE)
    fix placements closings faus reviews b1 b2 b3 uops ops
    assume pa: "place_all u ?cs snapshot ?cl (so_fau_closings ?so) = Some (placements, closings, faus, reviews)"
      and f1: "foldM (take_successor ?cs) (foldl book_release (book_new snapshot) (map cg_school ?cl)) (enumerate 0 placements) = Some b1"
      and f2: "foldM (plan_update u) (b1, []) (so_updates ?so) = Some (b2, uops)"
      and f3: "foldM (create_school u) (b2, map close_op closings) (enumerate 0 (zip ?cs placements)) = Some (b3, ops)"
      and ops: "spl_ops p = ops @ uops"
    from place_all_ok [OF pa none] obtain pl where pl: "placing_ok ?cs ?cl (so_fau_closings ?so) pl"
      "pl_placement pl = map Some placements" by blast
    have lp: "length placements = length ?cs" using place_all_lengths [OF pa none] by simp
    let ?I = "inherited ?cs placements"
    have b0: "book_holds (foldl book_release (book_new snapshot) (map cg_school ?cl)) (?K \<union> {})"
      using book_start_holds [OF ok, of "cg_school ` set ?cl" "map cg_school ?cl"] known by auto
    have idx: "\<And>i q. (i, q) \<in> set (enumerate 0 placements) \<Longrightarrow> i < length placements \<and> q = placements ! i"
      by (simp add: in_enumerate)
    have "book_holds b1 (?K \<union> {} \<union> {(ca_municipality (?cs ! i), slug, New i) | i slug.
        (i, Successor (Some slug)) \<in> set (enumerate 0 placements)})"
      by (rule take_successors_hold [OF f1 b0 idx triples_functional [OF ok known dist pl]]) auto
    moreover have "{(ca_municipality (?cs ! i), slug, New i) | i slug.
        (i, Successor (Some slug)) \<in> set (enumerate 0 placements)} = ?I"
      by (auto simp: in_enumerate inherited_def)
    ultimately have b1: "book_holds b1 (?K \<union> ?I)" by simp
    have "case (b2, uops) of (b, o') \<Rightarrow> book_holds b (?K \<union> ?I \<union> all_gives snapshot o')"
      using f2
    proof (rule foldM_inv)
      fix bo x bo'
      assume ih: "case bo of (b, o') \<Rightarrow> book_holds b (?K \<union> ?I \<union> all_gives snapshot o')"
        and x: "x \<in> set (so_updates ?so)" and c: "plan_update u bo x = Some bo'"
      obtain b o1 s un m b' o2 where xx: "bo = (b, o1)" "x = (s, un, m)" "bo' = (b', o2)" by (metis surj_pair)
      from plan_update_holds [OF ok upd] ih x c show "case bo' of (b, o') \<Rightarrow> book_holds b (?K \<union> ?I \<union> all_gives snapshot o')"
        by (simp add: xx) blast
    qed (use b1 in simp)
    then have b2: "book_holds b2 (?K \<union> ?I \<union> all_gives snapshot uops)" by simp
    let ?A = "?K \<union> ?I \<union> all_gives snapshot uops"
    have "case (b3, ops) of (b, o') \<Rightarrow> book_holds b (?A \<union> all_gives snapshot o')"
      using f3
    proof (rule foldM_inv)
      have "all_gives snapshot (map close_op closings :: ('id, 't, 'd) school_op list) = {}"
        by (auto simp: all_gives_def close_op_def)
      with b2 show "case (b2, map close_op closings :: ('id, 't, 'd) school_op list) of (b, o') \<Rightarrow> book_holds b (?A \<union> all_gives snapshot o')" by simp
      fix bo x bo'
      assume ih: "case bo of (b, o') \<Rightarrow> book_holds b (?A \<union> all_gives snapshot o')"
        and x: "x \<in> set (enumerate 0 (zip ?cs placements))" and c: "create_school u bo x = Some bo'"
      obtain b o1 i ca pp b' o2 where xx: "bo = (b, o1)" "x = (i, ca, pp)" "bo' = (b', o2)" by (metis surj_pair)
      from x lp have i: "i < length placements" "ca = ?cs ! i" "pp = placements ! i"
        by (auto simp: xx in_enumerate)
      have "?I \<subseteq> ?A" by auto
      from create_school_holds [OF _ this i, of b snapshot o1 u b' o2] ih c
      show "case bo' of (b, o') \<Rightarrow> book_holds b (?A \<union> all_gives snapshot o')" by (simp add: xx)
    qed
    then have "book_holds b3 (?A \<union> all_gives snapshot ops)" by simp
    then have "book_holds b3 (?K \<union> all_gives snapshot (spl_ops p))"
      by (rule book_holds_subset) (auto simp: ops)
    then show ?thesis by blast
  qed
qed

end
