(* ===== verification/Plan_Facts.thy ===== *)
theory Plan_Facts
  imports Slug_Uniqueness Sync_Plan
begin

text \<open>
  What a whole plan guarantees: which schools it closes, changes and creates, that it cannot
  panic, that the order of the register's units does not matter, and what the breaker lets
  through.
\<close>

section \<open>The operations of a school plan\<close>

definition is_create :: "('id, 't, 'd) school_op \<Rightarrow> bool" where
  "is_create op = (case op of School_Create _ _ _ _ _ _ _ _ _ _ \<Rightarrow> True | _ \<Rightarrow> False)"

text \<open>The create written for the candidate at an index.\<close>

definition create_for :: "('id, 't) candidate list \<Rightarrow> placement list \<Rightarrow> nat \<Rightarrow> ('id, 't, 'd) school_op \<Rightarrow> bool" where
  "create_for cs ps i op \<longleftrightarrow> (\<exists>slug v.
     op = School_Create i (ca_municipality (cs ! i)) (u_orgnr (ca_unit (cs ! i))) (u_name (ca_unit (cs ! i)))
       (u_name (ca_unit (cs ! i))) slug v True (attributes_from_unit (ca_unit (cs ! i))) (u_changed_at (ca_unit (cs ! i)))
     \<and> (v = Create_Held \<longleftrightarrow> ps ! i \<in> {Held_Reregistration, Held_Submission})
     \<and> (v = Create_Held \<longrightarrow> slug = None)
     \<and> (\<forall>sl. ps ! i = Successor (Some sl) \<longrightarrow> slug = Some sl))"

lemma creates_in_order:
  assumes "foldM (create_school u) (b, ops) (enumerate k xs) = Some (b', ops')"
    and "xs = drop k (zip cs ps)" "length ps = length cs"
  shows "\<exists>creates. ops' = ops @ creates \<and> length creates = length xs
    \<and> (\<forall>i<length xs. create_for cs ps (k + i) (creates ! i))"
  using assms
proof (induction xs arbitrary: b ops k)
  case (Cons x xs)
  obtain c p where x: "x = (c, p)" by (cases x)
  have k: "k < length cs" "c = cs ! k" "p = ps ! k"
    using Cons.prems(2,3) x by (metis drop_all length_zip list.distinct(1) min.idem not_le,
      (metis drop_eq_Nil hd_drop_conv_nth length_zip list.distinct(1) list.sel(1) min.idem not_le nth_zip prod.inject)+)
  from Cons.prems(1) obtain b1 o1 where c1: "create_school u (b, ops) (k, c, p) = Some (b1, o1)"
    and rest: "foldM (create_school u) (b1, o1) (enumerate (Suc k) xs) = Some (b', ops')"
    by (auto simp: x split: option.splits)
  from create_school_appends [OF c1] obtain op where op: "o1 = ops @ [op]" "create_for cs ps k op"
    by (auto simp: create_for_def k)
  have "xs = drop (Suc k) (zip cs ps)" using Cons.prems(2) by (metis drop_Suc list.sel(3) tl_drop)
  from Cons.IH [OF rest this Cons.prems(3)] obtain creates where cr: "ops' = o1 @ creates"
    "length creates = length xs" "\<forall>i<length xs. create_for cs ps (Suc k + i) (creates ! i)" by blast
  have "create_for cs ps (k + i) ((op # creates) ! i)" if "i < length (x # xs)" for i
    using that op cr(3) by (cases i) auto
  with cr op show ?case by (intro exI [of _ "op # creates"]) simp
qed simp

text \<open>The operations an update may write.\<close>

definition update_op :: "'id school_snapshot \<Rightarrow> 't nsr_unit \<Rightarrow> 'id ref \<Rightarrow> ('id, 't, 'd) school_op \<Rightarrow> bool" where
  "update_op s un m op \<longleftrightarrow>
     (\<exists>name slug. op = School_Rename (s_id s) (u_name un) name slug \<and> s_register_name s \<noteq> Some (u_name un)
        \<and> name = (if s_display_name_curated s then None else Some (u_name un)) \<and> (s_display_name_curated s \<longrightarrow> slug = None)
        \<and> (slug \<noteq> None \<longrightarrow> m = Existing (s_municipality_id s)))
     \<or> (op = Update_Attributes (s_id s) (attributes_from_unit un) \<and> attributes_from_unit un \<noteq> s_attributes s)
     \<or> (\<exists>slug. op = Move (s_id s) (s_municipality_id s) m slug \<and> m \<noteq> Existing (s_municipality_id s)
        \<and> (slug = None \<longleftrightarrow> s_slug s = None))"

definition updates_of :: "('id school_snapshot \<times> 't nsr_unit \<times> 'id ref) list \<Rightarrow> ('id, 't, 'd) school_op \<Rightarrow> bool" where
  "updates_of us op \<longleftrightarrow> (\<exists>(s, un, m)\<in>set us. update_op s un m op)"

lemma updates_ofI: "(s, un, m) \<in> set us \<Longrightarrow> update_op s un m op \<Longrightarrow> updates_of us op"
  by (auto simp: updates_of_def)

lemma updates_ofE:
  assumes "updates_of us op"
  obtains s un m where "(s, un, m) \<in> set us" "update_op s un m op"
  using assms by (auto simp: updates_of_def)

lemma rename_curated: "rename_slug u s un mv town b = Some (c, b') \<Longrightarrow> s_display_name_curated s \<Longrightarrow> c = None"
  by (simp add: rename_slug_def)

lemma rename_moving: "rename_slug u s un mv town b = Some (c, b') \<Longrightarrow> mv \<Longrightarrow> c = None"
  by (simp add: rename_slug_def)

lemma move_slug_None: "move_slug u s name dest town b = Some (c, b') \<Longrightarrow> (c = None) = (s_slug s = None)"
  by (auto simp: move_slug_def Let_def split: option.splits)

lemma plan_update_shape:
  assumes "plan_update u (b, ops) (s, un, m) = Some (b', ops')"
  shows "\<exists>c1 c2. (s_display_name_curated s \<longrightarrow> c1 = None) \<and> (m \<noteq> Existing (s_municipality_id s) \<longrightarrow> c1 = None)
    \<and> (m \<noteq> Existing (s_municipality_id s) \<longrightarrow> (c2 = None) = (s_slug s = None)) \<and> ops' = ops
    @ (if s_register_name s \<noteq> Some (u_name un)
       then [School_Rename (s_id s) (u_name un) (if s_display_name_curated s then None else Some (u_name un)) c1] else [])
    @ (if attributes_from_unit un \<noteq> s_attributes s then [Update_Attributes (s_id s) (attributes_from_unit un)] else [])
    @ (if m \<noteq> Existing (s_municipality_id s) then [Move (s_id s) (s_municipality_id s) m c2] else [])"
proof -
  let ?here = "Existing (s_municipality_id s)"
  let ?town = "a_post_town (attributes_from_unit un)"
  let ?renamed = "s_register_name s \<noteq> Some (u_name un)"
  from assms obtain c1 b1 where r: "(if ?renamed then rename_slug u s un (m \<noteq> ?here) ?town b else Some (None, b)) = Some (c1, b1)"
    by (auto simp: plan_update_def Let_def split: option.splits prod.splits)
  then have cur: "s_display_name_curated s \<longrightarrow> c1 = None" "m \<noteq> ?here \<longrightarrow> c1 = None"
    by (auto split: if_splits dest: rename_curated rename_moving)
  let ?ops1 = "if ?renamed then ops @ [School_Rename (s_id s) (u_name un)
      (if s_display_name_curated s then None else Some (u_name un)) c1] else ops"
  let ?ops2 = "if attributes_from_unit un \<noteq> s_attributes s
      then ?ops1 @ [Update_Attributes (s_id s) (attributes_from_unit un)] else ?ops1"
  let ?name = "if ?renamed \<and> \<not> s_display_name_curated s then u_name un else s_display_name s"
  from assms have q: "(if m = ?here then Some (b1, ?ops2)
     else (case move_slug u s ?name m ?town b1 of None \<Rightarrow> None
           | Some (slug2, book2) \<Rightarrow> Some (book2, ?ops2 @ [Move (s_id s) (s_municipality_id s) m slug2]))) = Some (b', ops')"
    by (simp only: plan_update_def prod.case Let_def r option.case) (simp split: if_splits)
  have "\<exists>c2. (m \<noteq> ?here \<longrightarrow> (c2 = None) = (s_slug s = None))
      \<and> ops' = (if m = ?here then ?ops2 else ?ops2 @ [Move (s_id s) (s_municipality_id s) m c2])"
  proof (cases "m = ?here")
    case True
    with q show ?thesis by auto
  next
    case False
    with q obtain c2 where mv: "move_slug u s ?name m ?town b1 = Some (c2, b')"
      and ops': "ops' = ?ops2 @ [Move (s_id s) (s_municipality_id s) m c2]"
      by (simp only: if_False) (auto split: option.splits prod.splits)
    show ?thesis by (intro exI [of _ c2]) (simp only: if_False simp_thms False ops' move_slug_None [OF mv])
  qed
  then obtain c2 where c2: "m \<noteq> ?here \<longrightarrow> (c2 = None) = (s_slug s = None)"
    and ops': "ops' = (if m = ?here then ?ops2 else ?ops2 @ [Move (s_id s) (s_municipality_id s) m c2])"
    by (elim exE conjE) (rule that)
  from ops' have "ops' = ops
    @ (if ?renamed then [School_Rename (s_id s) (u_name un) (if s_display_name_curated s then None else Some (u_name un)) c1] else [])
    @ (if attributes_from_unit un \<noteq> s_attributes s then [Update_Attributes (s_id s) (attributes_from_unit un)] else [])
    @ (if m \<noteq> ?here then [Move (s_id s) (s_municipality_id s) m c2] else [])" by simp
  with cur c2 show ?thesis by (iprover intro: exI conjI)
qed

lemma plan_update_ops:
  assumes "plan_update u (b, ops) (s, un, m) = Some (b', ops')" "(s, un, m) \<in> set us"
    "\<forall>op\<in>set ops. updates_of us op"
  shows "\<forall>op\<in>set ops'. updates_of us op"
proof
  fix op assume "op \<in> set ops'"
  with plan_update_shape [OF assms(1)] have "op \<in> set ops \<or> update_op s un m op"
    by (auto simp: update_op_def split: if_splits)
  with assms(2,3) show "updates_of us op" by (auto intro: updates_ofI)
qed

lemma plan_schools_ops:
  fixes p :: "('id::linorder, 't, 'd) school_plan"
  assumes p: "plan_schools u j snapshot inp state = Some p"
  obtains placements closings faus reviews creates uops where
    "place_all u (so_candidates (sort_units j snapshot inp state)) snapshot
       (so_closings (sort_units j snapshot inp state)) (so_fau_closings (sort_units j snapshot inp state))
       = Some (placements, closings, faus, reviews)"
    "spl_ops p = map close_op closings @ creates @ uops"
    "length creates = length (so_candidates (sort_units j snapshot inp state))"
    "\<And>i. i < length creates \<Longrightarrow> create_for (so_candidates (sort_units j snapshot inp state)) placements i (creates ! i)"
    "\<And>op. op \<in> set uops \<Longrightarrow> updates_of (so_updates (sort_units j snapshot inp state)) op"
  using p
proof (rule plan_schoolsE)
  let ?so = "sort_units j snapshot inp state"
  fix placements closings faus reviews b1 b2 b3 uops ops
  assume pa: "place_all u (so_candidates ?so) snapshot (so_closings ?so) (so_fau_closings ?so) = Some (placements, closings, faus, reviews)"
    and f2: "foldM (plan_update u) (b1, []) (so_updates ?so) = Some (b2, uops)"
    and f3: "foldM (create_school u) (b2, map close_op closings) (enumerate 0 (zip (so_candidates ?so) placements)) = Some (b3, ops)"
    and ops: "spl_ops p = ops @ uops"
  have "\<forall>c\<in>set (so_closings ?so). cg_successor c = None"
    using sort_units_ok [of j inp snapshot state] by (auto simp: sorting_ok_def)
  from place_all_lengths [OF pa this] have lp: "length placements = length (so_candidates ?so)" by simp
  from creates_in_order [OF f3 _ lp] obtain creates where cr: "ops = map close_op closings @ creates"
    "length creates = length (so_candidates ?so)"
    "\<forall>i<length (so_candidates ?so). create_for (so_candidates ?so) placements i (creates ! i)"
    using lp by auto
  have "\<forall>op\<in>set (snd (b2, uops)). updates_of (so_updates ?so) op"
    using f2
  proof (rule foldM_inv)
    fix bo x bo'
    assume "\<forall>op\<in>set (snd bo). updates_of (so_updates ?so) op" "x \<in> set (so_updates ?so)" "plan_update u bo x = Some bo'"
    then show "\<forall>op\<in>set (snd bo'). updates_of (so_updates ?so) op"
      using plan_update_ops [of u "fst bo" "snd bo" "fst x" "fst (snd x)" "snd (snd x)" "fst bo'" "snd bo'" "so_updates ?so"]
      by simp
  qed simp
  then have "\<And>op. op \<in> set uops \<Longrightarrow> updates_of (so_updates ?so) op" by simp
  with that [OF pa] cr ops show thesis by simp
qed

lemma close_not_update: "updates_of us op \<Longrightarrow> op \<noteq> Close i r d sc \<and> \<not> is_create op"
  by (auto simp: updates_of_def update_op_def is_create_def)

lemma close_not_create: "create_for cs ps i op \<Longrightarrow> op \<noteq> Close i' r d sc \<and> is_create op"
  by (auto simp: create_for_def is_create_def)

lemma create_for_nth:
  assumes "\<And>i. i < length creates \<Longrightarrow> create_for cs ps i (creates ! i)" "op \<in> set creates"
  shows "\<exists>i<length creates. op = creates ! i \<and> create_for cs ps i op"
  using assms by (metis in_set_conv_nth)

lemma close_in_ops:
  fixes creates :: "('id, 't, 'd) school_op list"
  assumes "Close i r d sc \<in> set (map close_op closings @ creates @ uops)"
    and cr: "\<And>i. i < length creates \<Longrightarrow> create_for cs ps i (creates ! i)"
    and up: "\<And>op. op \<in> set uops \<Longrightarrow> updates_of us op"
  shows "(Close i r d sc :: ('id, 't, 'd) school_op) \<in> set (map close_op closings)"
proof -
  have "Close i r d sc \<notin> set creates"
  proof
    assume "Close i r d sc \<in> set creates"
    from create_for_nth [OF cr this] obtain i' where "create_for cs ps i' (Close i r d sc)" by blast
    then show False by (simp add: create_for_def)
  qed
  moreover have "Close i r d sc \<notin> set uops"
  proof
    assume "Close i r d sc \<in> set uops"
    from up [OF this] show False by (auto simp: updates_of_def update_op_def)
  qed
  ultimately show ?thesis using assms(1) by simp
qed

text \<open>A close operation: a school the register says is gone, without a live FAU, and either on
  the register's own facts or merged into one new school that takes its slug.\<close>

lemma plan_close:
  fixes p :: "('id::linorder, 't, 'd) school_plan"
  assumes p: "plan_schools u j snapshot inp state = Some p" and op: "Close i r d sc \<in> set (spl_ops p)"
  shows "\<exists>s un. un \<in> set (in_units inp) \<and> changeable snapshot state un s \<and> s_id s = i \<and> gone_from_register un s
    \<and> \<not> s_has_live_fau s
    \<and> ((sc = None \<and> (r, d) = closure_facts j un (in_at inp))
       \<or> (\<exists>n orgnr name slug. sc = Some (New n) \<and> r = Merged \<and> reregistrable un
            \<and> (s_slug s \<noteq> None \<longrightarrow> slug = s_slug s)
            \<and> (\<exists>attrs changed. School_Create n (Existing (s_municipality_id s)) orgnr name name slug Create_Listed True attrs changed
                \<in> set (spl_ops p))))"
  using p
proof (rule plan_schools_ops)
  let ?so = "sort_units j snapshot inp state"
  let ?cl = "so_closings ?so" and ?cs = "so_candidates ?so"
  fix placements closings faus reviews creates uops
  assume pa: "place_all u ?cs snapshot ?cl (so_fau_closings ?so) = Some (placements, closings, faus, reviews)"
    and ops: "spl_ops p = map close_op closings @ creates @ uops"
    and lc: "length creates = length ?cs"
    and cr: "\<And>i. i < length creates \<Longrightarrow> create_for ?cs placements i (creates ! i)"
    and up: "\<And>op. op \<in> set uops \<Longrightarrow> updates_of (so_updates ?so) op"
  from sort_units_ok [of j inp snapshot state] have so: "sorting_ok j (in_at inp) snapshot (set (in_units inp)) state ?so" .
  then have none: "\<forall>c\<in>set ?cl. cg_successor c = None" by (auto simp: sorting_ok_def)
  from place_all_ok [OF pa none] obtain pl where pl: "placing_ok ?cs ?cl (so_fau_closings ?so) pl"
    "pl_placement pl = map Some placements" "closings = pl_closings pl" by blast
  note d = placing_okD [OF pl(1)]
  have "(Close i r d sc :: ('id, 't, 'd) school_op) \<in> set (map close_op closings)"
    by (rule close_in_ops [OF op [unfolded ops] cr up])
  then obtain k where k: "k < length ?cl" and c: "(Close i r d sc :: ('id, 't, 'd) school_op) = close_op (closings ! k)"
    using d(2) pl(3) by (auto simp: in_set_conv_nth)
  let ?c = "?cl ! k"
  let ?s = "cg_school ?c"
  have "?c \<in> set ?cl" using k by simp
  with so obtain un where un: "un \<in> set (in_units inp)" "changeable snapshot state un ?s" "gone_from_register un ?s"
    and facts: "\<not> s_has_live_fau ?s" "cg_successor ?c = None"
      "(cg_reason ?c, cg_closed_on ?c) = closure_facts j un (in_at inp)" "cg_reregistrable ?c = reregistrable un"
    unfolding sorting_ok_def by blast
  show ?thesis
  proof (cases "k \<in> pl_claimed pl")
    case False
    with c d(4) [OF k False] facts have "s_id ?s = i" "sc = None \<and> (r, d) = closure_facts j un (in_at inp)"
      by (auto simp: pl(3) close_op_def)
    with un facts show ?thesis by blast
  next
    case True
    from d(5) [OF k True] obtain n where n: "n < length ?cs"
      "closings ! k = ?c\<lparr>cg_successor := Some (New n), cg_reason := Merged\<rparr>"
      "pl_placement pl ! n = Some (Successor (s_slug ?s))" "cg_reregistrable ?c"
      "in_municipality (?cs ! n) (s_municipality_id ?s)" by (auto simp: pl(3))
    have ph: "placements ! n = Successor (s_slug ?s)"
      using n(1,3) pl(2) d(1) by (metis length_map nth_map option.inject)
    have "create_for ?cs placements n (creates ! n)" using cr n(1) lc by simp
    then obtain slug v where cn: "creates ! n = School_Create n (ca_municipality (?cs ! n)) (u_orgnr (ca_unit (?cs ! n)))
        (u_name (ca_unit (?cs ! n))) (u_name (ca_unit (?cs ! n))) slug v True
        (attributes_from_unit (ca_unit (?cs ! n))) (u_changed_at (ca_unit (?cs ! n)))"
      "v \<noteq> Create_Held" "\<forall>sl. placements ! n = Successor (Some sl) \<longrightarrow> slug = Some sl"
      by (auto simp: create_for_def ph)
    from cn(2) have "v = Create_Listed" by (cases v) auto
    moreover have "ca_municipality (?cs ! n) = Existing (s_municipality_id ?s)"
      using n(5) by (simp add: in_municipality_def)
    moreover have "creates ! n \<in> set (spl_ops p)" using n(1) lc ops by simp
    moreover have "s_slug ?s \<noteq> None \<longrightarrow> slug = s_slug ?s" using cn(3) ph by auto
    moreover have "s_id ?s = i" "sc = Some (New n)" "r = Merged" using c n(2) by (auto simp: close_op_def)
    moreover have "reregistrable un" using facts(4) n(4) by simp
    ultimately show ?thesis using un facts(1) cn(1) by metis
  qed
qed

text \<open>A change is made only to an open school the register still has. What it writes are the unit's own values: its
  name, also as the display name unless that is curated; its attributes; the municipality its number names
  once the run's municipality operations are made. It changes something; a rename leaves a curated school's
  slug alone, and a move gives a new slug to a school that has one.\<close>

definition writes_unit ::
  "'id municipality_state \<Rightarrow> 'id school_snapshot \<Rightarrow> 't nsr_unit \<Rightarrow> ('id, 't, 'd) school_op \<Rightarrow> bool" where
  "writes_unit state s un op \<longleftrightarrow>
     (case op of
        School_Rename i reg name slug \<Rightarrow> i = s_id s \<and> reg = u_name un \<and> s_register_name s \<noteq> Some reg
          \<and> name = (if s_display_name_curated s then None else Some (u_name un)) \<and> (s_display_name_curated s \<longrightarrow> slug = None)
      | Update_Attributes i attrs \<Rightarrow> i = s_id s \<and> attrs = attributes_from_unit un \<and> attrs \<noteq> s_attributes s
      | Move i old new slug \<Rightarrow> i = s_id s \<and> old = s_municipality_id s \<and> new \<noteq> Existing old
          \<and> resolve state (u_municipality_number un) = To new \<and> (slug = None \<longleftrightarrow> s_slug s = None)
      | _ \<Rightarrow> False)"

lemma plan_change:
  fixes p :: "('id::linorder, 't, 'd) school_plan"
  assumes p: "plan_schools u j snapshot inp state = Some p" and op: "op \<in> set (spl_ops p)"
    and kind: "\<not> is_create op" "\<And>i r d sc. op \<noteq> Close i r d sc"
  shows "\<exists>s un. un \<in> set (in_units inp) \<and> changeable snapshot state un s \<and> \<not> gone_from_register un s \<and> writes_unit state s un op"
  using p
proof (rule plan_schools_ops)
  let ?so = "sort_units j snapshot inp state"
  fix placements closings faus reviews and creates uops :: "('id, 't, 'd) school_op list"
  assume ops: "spl_ops p = map close_op closings @ creates @ uops"
    and cr: "\<And>i. i < length creates \<Longrightarrow> create_for (so_candidates ?so) placements i (creates ! i)"
    and up: "\<And>op. op \<in> set uops \<Longrightarrow> updates_of (so_updates ?so) op"
  have "op \<notin> set (map close_op closings)" using kind(2) by (auto simp: close_op_def)
  moreover have "op \<notin> set creates"
  proof
    assume "op \<in> set creates"
    from create_for_nth [OF cr this] obtain i where "create_for (so_candidates ?so) placements i op" by blast
    with kind(1) show False by (auto simp: create_for_def is_create_def)
  qed
  ultimately have "updates_of (so_updates ?so) op" using op ops up by auto
  then obtain s un m where sm: "(s, un, m) \<in> set (so_updates ?so)" and o': "update_op s un m op"
    by (rule updates_ofE)
  from sort_units_ok [of j inp snapshot state] sm
  have "un \<in> set (in_units inp) \<and> changeable snapshot state un s \<and> \<not> gone_from_register un s
    \<and> resolve state (u_municipality_number un) = To m"
    unfolding sorting_ok_def by blast
  moreover from o' calculation(1) have "writes_unit state s un op"
    unfolding update_op_def writes_unit_def by (elim disjE exE conjE) simp_all
  ultimately show ?thesis by blast
qed

text \<open>A create: one per candidate, numbered in order, for a unit the register has never held.\<close>

lemma plan_creates:
  fixes p :: "('id::linorder, 't, 'd) school_plan"
  assumes p: "plan_schools u j snapshot inp state = Some p"
  shows "\<exists>creates. filter is_create (spl_ops p) = creates \<and> map c_new creates = [0..<length creates]
    \<and> (\<forall>op\<in>set creates. \<exists>un\<in>set (in_units inp). c_orgnr op = u_orgnr un \<and> c_register_name op = u_name un
        \<and> classify (scope_facts un) = In_Scope
        \<and> schools_by_orgnr snapshot (u_orgnr un) = None
        \<and> u_orgnr un \<notin> set (map fst (school_orgnr_history snapshot))
        \<and> resolve state (u_municipality_number un) = To (c_municipality op)
        \<and> (c_verification op = Create_Held \<longrightarrow> c_slug op = None))"
  using p
proof (rule plan_schools_ops)
  let ?so = "sort_units j snapshot inp state"
  let ?cs = "so_candidates ?so"
  fix placements closings faus reviews and creates uops :: "('id, 't, 'd) school_op list"
  assume ops: "spl_ops p = map close_op closings @ creates @ uops"
    and lc: "length creates = length ?cs"
    and cr: "\<And>i. i < length creates \<Longrightarrow> create_for ?cs placements i (creates ! i)"
    and up: "\<And>op. op \<in> set uops \<Longrightarrow> updates_of (so_updates ?so) op"
  have "filter is_create (map close_op closings :: ('id, 't, 'd) school_op list) = []"
    by (auto simp: filter_empty_conv close_op_def is_create_def)
  moreover have "filter is_create uops = []"
    using up close_not_update by (fastforce simp: filter_empty_conv)
  moreover have "filter is_create creates = creates"
  proof (rule filter_True, rule ballI)
    fix op assume "op \<in> set creates"
    from create_for_nth [OF cr this] obtain i where "create_for ?cs placements i op" by blast
    then show "is_create op" by (auto simp: create_for_def is_create_def)
  qed
  ultimately have f: "filter is_create (spl_ops p) = creates" by (simp add: ops)
  have nums: "map c_new creates = [0..<length creates]"
  proof (rule nth_equalityI)
    fix i assume "i < length (map c_new creates)"
    then show "map c_new creates ! i = [0..<length creates] ! i"
      using cr [of i] by (auto simp: create_for_def)
  qed simp
  have units: "\<exists>un\<in>set (in_units inp). c_orgnr op = u_orgnr un \<and> c_register_name op = u_name un
        \<and> classify (scope_facts un) = In_Scope \<and> schools_by_orgnr snapshot (u_orgnr un) = None
        \<and> u_orgnr un \<notin> set (map fst (school_orgnr_history snapshot))
        \<and> resolve state (u_municipality_number un) = To (c_municipality op)
        \<and> (c_verification op = Create_Held \<longrightarrow> c_slug op = None)" if "op \<in> set creates" for op
  proof -
    from create_for_nth [OF cr that] obtain i where i: "i < length ?cs" and c: "create_for ?cs placements i op"
      using lc by auto
    then have "?cs ! i \<in> set ?cs" by simp
    with sort_units_ok [of j inp snapshot state]
    have "ca_unit (?cs ! i) \<in> set (in_units inp) \<and> classify (scope_facts (ca_unit (?cs ! i))) = In_Scope \<and>
        schools_by_orgnr snapshot (u_orgnr (ca_unit (?cs ! i))) = None \<and>
        u_orgnr (ca_unit (?cs ! i)) \<notin> set (map fst (school_orgnr_history snapshot)) \<and>
        resolve state (u_municipality_number (ca_unit (?cs ! i))) = To (ca_municipality (?cs ! i))"
      unfolding sorting_ok_def by blast
    with c show ?thesis by (intro bexI [of _ "ca_unit (?cs ! i)"]) (auto simp: create_for_def)
  qed
  show ?thesis using f nums units by blast
qed

section \<open>The whole plan\<close>

lemma normalise_units_distinct: "distinct (map u_orgnr (normalise_units us))"
  unfolding normalise_units_def
  using sorted_distinct_dedup_key [OF sorted_sort_by_key] by blast

lemma normalise_units_length: "length (normalise_units us) \<le> length us"
proof -
  have "length (dedup_key k xs) \<le> length xs" for k :: "'a nsr_unit \<Rightarrow> str" and xs
    by (induction k xs rule: dedup_key.induct) auto
  from this [of u_orgnr "sort_by (\<lambda>a b. u_orgnr a \<le> u_orgnr b) us"] show ?thesis
    by (simp add: normalise_units_def)
qed

lemma normalise_units_set: "set (normalise_units us) \<subseteq> set us"
  using set_dedup_key [of u_orgnr "sort_by (\<lambda>a b. u_orgnr a \<le> u_orgnr b) us"]
  by (simp add: normalise_units_def)

text \<open>Of the units of one organisation number the first given is kept, and nothing else of the list matters.\<close>

lemma find_dedup_key: "List.find (\<lambda>x. k x = n) (dedup_key k xs) = List.find (\<lambda>x. k x = n) xs"
  by (induction k xs rule: dedup_key.induct) auto

lemma find_insert_by:
  fixes k :: "'a \<Rightarrow> 'k :: linorder"
  shows "List.find (\<lambda>y. k y = n) (insert_by (\<lambda>a b. k a \<le> k b) x xs)
    = (if k x = n then Some x else List.find (\<lambda>y. k y = n) xs)"
  by (induction xs) auto

lemma find_sort_by_key:
  fixes k :: "'a \<Rightarrow> 'k :: linorder"
  shows "List.find (\<lambda>y. k y = n) (sort_by (\<lambda>a b. k a \<le> k b) xs) = List.find (\<lambda>y. k y = n) xs"
  by (induction xs) (simp_all add: find_insert_by)

lemma find_own_key: "distinct (map k xs) \<Longrightarrow> x \<in> set xs \<longleftrightarrow> List.find (\<lambda>y. k y = k x) xs = Some x"
  by (induction xs) (auto simp: image_iff)

lemma sorted_by_first:
  fixes k :: "'a \<Rightarrow> 'k :: linorder"
  assumes "sorted (map k xs)" "distinct (map k xs)" "sorted (map k ys)" "distinct (map k ys)"
    and "\<And>n. List.find (\<lambda>x. k x = n) xs = List.find (\<lambda>x. k x = n) ys"
  shows "xs = ys"
proof -
  have sets: "set xs = set ys"
    using find_own_key [OF assms(2)] find_own_key [OF assms(4)] assms(5) by (intro set_eqI) simp
  then have "map k xs = map k ys"
    by (intro sorted_distinct_set_unique assms(1-4)) simp
  moreover have "inj_on k (set xs \<union> set ys)" using assms(2) sets by (simp add: distinct_map)
  ultimately show ?thesis by (simp add: inj_on_map_eq_map)
qed

lemma normalise_units_first:
  assumes "\<And>n. List.find (\<lambda>x. u_orgnr x = n) us = List.find (\<lambda>x. u_orgnr x = n) vs"
  shows "normalise_units us = normalise_units vs"
proof (rule sorted_by_first [of u_orgnr])
  show "List.find (\<lambda>x. u_orgnr x = n) (normalise_units us) = List.find (\<lambda>x. u_orgnr x = n) (normalise_units vs)" for n
    using assms by (simp add: normalise_units_def find_dedup_key find_sort_by_key)
qed (simp_all add: normalise_units_distinct normalise_units_def sorted_distinct_dedup_key sorted_sort_by_key)

lemma normalise_units_Nil [simp]: "normalise_units us = [] \<longleftrightarrow> us = []"
  unfolding normalise_units_def by (metis dedup_key_Nil length_0_conv length_sort_by)

text \<open>One run with a sourced register: the two sub-plans it is made of.\<close>

lemma plan_withE:
  assumes "plan_with u j snapshot inp brk = Some out"
    and "in_municipalities inp \<noteq> []" "in_units inp \<noteq> []"
  obtains mp sp where
    "plan_municipalities u snapshot (inp\<lparr>in_units := normalise_units (in_units inp)\<rparr>) = Some mp"
    "plan_schools u j snapshot (inp\<lparr>in_units := normalise_units (in_units inp)\<rparr>) (mpl_state mp) = Some sp"
    "out = (let reviews = mpl_reviews mp @ spl_reviews sp;
        c = (tally (mpl_ops mp) (spl_ops sp) (length reviews) (spl_skipped sp))
              \<lparr>n_attribute_losses := attribute_losses snapshot (spl_ops sp)\<rparr>
      in case (if in_kind inp = Sync \<and> brk = Enforce then mass_change snapshot c else None) of
           Some reason \<Rightarrow> Abort reason c
         | None \<Rightarrow> if mpl_ops mp = [] \<and> spl_ops sp = [] \<and> reviews = [] then No_Change
             else Apply \<lparr>p_municipality_ops = mpl_ops mp, p_school_ops = spl_ops sp, p_reviews = reviews, p_counts = c\<rparr>)"
proof -
  let ?inp = "inp\<lparr>in_units := normalise_units (in_units inp)\<rparr>"
  from assms obtain mp where mp: "plan_municipalities u snapshot ?inp = Some mp"
    by (simp add: plan_with_def Let_def split: option.splits)
  with assms obtain sp where sp: "plan_schools u j snapshot ?inp (mpl_state mp) = Some sp"
    by (simp add: plan_with_def Let_def split: option.splits)
  have kind: "in_kind ?inp = in_kind inp" by simp
  from assms show thesis
    unfolding plan_with_def Let_def if_not_P [OF assms(2)] if_not_P [OF assms(3)] mp sp option.case kind
    by (intro that [OF mp sp]) (simp add: Let_def)
qed

lemma plan_applyE:
  fixes inp :: "('t, 'd::linorder) sync_inputs" and snapshot :: "'id::linorder register_snapshot"
  assumes "plan_with u j snapshot inp brk = Some (Apply pln)"
  obtains mp sp where
    "plan_municipalities u snapshot (inp\<lparr>in_units := normalise_units (in_units inp)\<rparr>) = Some mp"
    "plan_schools u j snapshot (inp\<lparr>in_units := normalise_units (in_units inp)\<rparr>) (mpl_state mp) = Some sp"
    "p_municipality_ops pln = mpl_ops mp" "p_school_ops pln = spl_ops sp"
    "p_reviews pln = mpl_reviews mp @ spl_reviews sp"
    "p_counts pln = (tally (mpl_ops mp) (spl_ops sp) (length (p_reviews pln)) (spl_skipped sp))
              \<lparr>n_attribute_losses := attribute_losses snapshot (spl_ops sp)\<rparr>"
    "in_kind inp = Sync \<Longrightarrow> brk = Enforce \<Longrightarrow> mass_change snapshot (p_counts pln) = None"
    "p_municipality_ops pln \<noteq> [] \<or> p_school_ops pln \<noteq> [] \<or> p_reviews pln \<noteq> []"
proof -
  have ne: "in_municipalities inp \<noteq> []" "in_units inp \<noteq> []"
    using assms by (auto simp: plan_with_def split: if_splits)
  from assms ne show thesis
  proof (rule plan_withE)
    fix mp :: "('id, 'd) municipality_plan" and sp :: "('id, 't, 'd) school_plan"
    let ?c = "(tally (mpl_ops mp) (spl_ops sp) (length (mpl_reviews mp @ spl_reviews sp)) (spl_skipped sp))
        \<lparr>n_attribute_losses := attribute_losses snapshot (spl_ops sp)\<rparr>"
    define stop where "stop = (if in_kind inp = Sync \<and> brk = Enforce then mass_change snapshot ?c else None)"
    assume mp: "plan_municipalities u snapshot (inp\<lparr>in_units := normalise_units (in_units inp)\<rparr>) = Some mp"
      and sp: "plan_schools u j snapshot (inp\<lparr>in_units := normalise_units (in_units inp)\<rparr>) (mpl_state mp) = Some sp"
      and "Apply pln = (let reviews = mpl_reviews mp @ spl_reviews sp;
        c = (tally (mpl_ops mp) (spl_ops sp) (length reviews) (spl_skipped sp))
              \<lparr>n_attribute_losses := attribute_losses snapshot (spl_ops sp)\<rparr>
      in case (if in_kind inp = Sync \<and> brk = Enforce then mass_change snapshot c else None) of
           Some reason \<Rightarrow> Abort reason c
         | None \<Rightarrow> if mpl_ops mp = [] \<and> spl_ops sp = [] \<and> reviews = [] then No_Change
             else Apply \<lparr>p_municipality_ops = mpl_ops mp, p_school_ops = spl_ops sp, p_reviews = reviews, p_counts = c\<rparr>)"
    then have o': "Apply pln = (case stop of Some reason \<Rightarrow> Abort reason ?c
         | None \<Rightarrow> if mpl_ops mp = [] \<and> spl_ops sp = [] \<and> mpl_reviews mp @ spl_reviews sp = [] then No_Change
             else Apply \<lparr>p_municipality_ops = mpl_ops mp, p_school_ops = spl_ops sp,
               p_reviews = mpl_reviews mp @ spl_reviews sp, p_counts = ?c\<rparr>)"
      unfolding Let_def stop_def by simp
    show thesis
    proof (cases stop)
      case None
      show thesis
      proof (cases "mpl_ops mp = [] \<and> spl_ops sp = [] \<and> mpl_reviews mp @ spl_reviews sp = []")
        case True
        with o' None show thesis by simp
      next
        case False
        with o' None have pln: "pln = \<lparr>p_municipality_ops = mpl_ops mp, p_school_ops = spl_ops sp,
               p_reviews = mpl_reviews mp @ spl_reviews sp, p_counts = ?c\<rparr>"
          by (simp only: if_False option.case sync_outcome.inject)
        show thesis
        proof (rule that [OF mp sp])
          show "mass_change snapshot (p_counts pln) = None" if "in_kind inp = Sync" "brk = Enforce"
            using None that unfolding stop_def pln by simp
          show "p_municipality_ops pln \<noteq> [] \<or> p_school_ops pln \<noteq> [] \<or> p_reviews pln \<noteq> []"
            using False unfolding pln by auto
        qed (simp_all add: pln)
      qed
    next
      case (Some r)
      with o' show thesis by simp
    qed
  qed
qed

section \<open>Counts\<close>

definition is_close :: "('id, 't, 'd) school_op \<Rightarrow> bool" where
  "is_close op = (case op of Close _ _ _ _ \<Rightarrow> True | _ \<Rightarrow> False)"

definition is_school_rename :: "('id, 't, 'd) school_op \<Rightarrow> bool" where
  "is_school_rename op = (case op of School_Rename _ _ _ _ \<Rightarrow> True | _ \<Rightarrow> False)"

definition is_update :: "('id, 't, 'd) school_op \<Rightarrow> bool" where
  "is_update op = (case op of Update_Attributes _ _ \<Rightarrow> True | _ \<Rightarrow> False)"

definition is_move :: "('id, 't, 'd) school_op \<Rightarrow> bool" where
  "is_move op = (case op of Move _ _ _ _ \<Rightarrow> True | _ \<Rightarrow> False)"

definition creates_held :: "('id, 't, 'd) school_op \<Rightarrow> bool" where
  "creates_held op = (is_create op \<and> c_verification op = Create_Held)"

definition creates_listed :: "('id, 't, 'd) school_op \<Rightarrow> bool" where
  "creates_listed op = (is_create op \<and> c_verification op = Create_Listed)"

lemmas op_kinds = creates_listed_def is_close_def is_school_rename_def is_update_def is_move_def creates_held_def is_create_def

lemma tally_schools:
  "n_schools_closed (foldl tally_school c ops) = n_schools_closed c + length (filter is_close ops)"
  "n_schools_renamed (foldl tally_school c ops) = n_schools_renamed c + length (filter is_school_rename ops)"
  "n_schools_updated (foldl tally_school c ops) = n_schools_updated c + length (filter is_update ops)"
  "n_schools_moved (foldl tally_school c ops) = n_schools_moved c + length (filter is_move ops)"
  "n_schools_held (foldl tally_school c ops) = n_schools_held c + length (filter creates_held ops)"
  "n_schools_created (foldl tally_school c ops) = n_schools_created c + length (filter creates_listed ops)"
  "n_reviews (foldl tally_school c ops) = n_reviews c"
  "n_skipped (foldl tally_school c ops) = n_skipped c"
proof (induction ops arbitrary: c)
  case (Cons op ops)
  {
    case 1 show ?case using Cons(1) by (cases op; cases "c_verification op") (auto simp: op_kinds)
  next
    case 2 show ?case using Cons(2) by (cases op; cases "c_verification op") (auto simp: op_kinds)
  next
    case 3 show ?case using Cons(3) by (cases op; cases "c_verification op") (auto simp: op_kinds)
  next
    case 4 show ?case using Cons(4) by (cases op; cases "c_verification op") (auto simp: op_kinds)
  next
    case 5 show ?case using Cons(5) by (cases op; cases "c_verification op") (auto simp: op_kinds)
  next
    case 6 show ?case using Cons(6) by (cases op; cases "c_verification op") (auto simp: op_kinds)
  next
    case 7 show ?case using Cons(7) by (cases op; cases "c_verification op") auto
  next
    case 8 show ?case using Cons(8) by (cases op; cases "c_verification op") auto
  }
qed simp_all

lemma tally_municipalities_keep:
  "n_schools_closed (foldl tally_municipality c ops) = n_schools_closed c"
  "n_schools_renamed (foldl tally_municipality c ops) = n_schools_renamed c"
  "n_schools_updated (foldl tally_municipality c ops) = n_schools_updated c"
  "n_schools_moved (foldl tally_municipality c ops) = n_schools_moved c"
  "n_schools_held (foldl tally_municipality c ops) = n_schools_held c"
  "n_schools_created (foldl tally_municipality c ops) = n_schools_created c"
  "n_reviews (foldl tally_municipality c ops) = n_reviews c"
  "n_skipped (foldl tally_municipality c ops) = n_skipped c"
  by (induction ops arbitrary: c; simp; case_tac a; simp)+

lemma tally_counts:
  "n_schools_closed (tally mops ops r k) = length (filter is_close ops)"
  "n_schools_renamed (tally mops ops r k) = length (filter is_school_rename ops)"
  "n_schools_updated (tally mops ops r k) = length (filter is_update ops)"
  "n_schools_moved (tally mops ops r k) = length (filter is_move ops)"
  "n_schools_held (tally mops ops r k) = length (filter creates_held ops)"
  "n_schools_created (tally mops ops r k) = length (filter creates_listed ops)"
  "n_reviews (tally mops ops r k) = r"
  "n_skipped (tally mops ops r k) = k"
  by (simp_all add: tally_def tally_schools tally_municipalities_keep default_counts_def)

section \<open>Closes and merges\<close>

text \<open>Every school sorted as closing is closed.\<close>

lemma plan_closed_ids:
  fixes p :: "('id::linorder, 't, 'd) school_plan"
  assumes p: "plan_schools u j snapshot inp state = Some p"
  shows "(s_id \<circ> cg_school) ` set (so_closings (sort_units j snapshot inp state)) \<subseteq> closed_ids (spl_ops p)"
  using p
proof (rule plan_schoolsE)
  let ?so = "sort_units j snapshot inp state"
  fix placements closings faus reviews b1 b2 b3 uops ops
  assume pa: "place_all u (so_candidates ?so) snapshot (so_closings ?so) (so_fau_closings ?so)
       = Some (placements, closings, faus, reviews)"
    and f: "foldM (create_school u) (b2, map close_op closings)
       (enumerate 0 (zip (so_candidates ?so) placements)) = Some (b3, ops)"
    and ops: "spl_ops p = ops @ uops"
  have "\<forall>c\<in>set (so_closings ?so). cg_successor c = None"
    using sort_units_ok [of j inp snapshot state] by (auto simp: sorting_ok_def)
  from place_all_lengths [OF pa this]
  have l: "length closings = length (so_closings ?so)"
    "\<And>k. k < length (so_closings ?so) \<Longrightarrow> cg_school (closings ! k) = cg_school (so_closings ?so ! k)" by auto
  have "map cg_school closings = map cg_school (so_closings ?so)"
    by (rule nth_equalityI) (use l in auto)
  then have "cg_school ` set (so_closings ?so) = cg_school ` set closings" by (metis set_map)
  then have "(s_id \<circ> cg_school) ` set (so_closings ?so) = closed_ids ops"
    unfolding creates_close_nothing [OF f] closed_ids_close by (metis image_comp)
  then show ?thesis by (simp add: ops closed_ids_append)
qed

text \<open>No two merged schools have the same successor.\<close>

lemma distinct_map_filter_nth:
  assumes "\<And>k k'. k < length xs \<Longrightarrow> k' < length xs \<Longrightarrow> P (xs ! k) \<Longrightarrow> P (xs ! k') \<Longrightarrow> f (xs ! k) = f (xs ! k') \<Longrightarrow> k = k'"
  shows "distinct (map f (filter P xs))"
  using assms
proof (induction xs)
  case (Cons x xs)
  have "distinct (map f (filter P xs))"
    by (rule Cons.IH) (use Cons.prems [of "Suc _" "Suc _"] in auto)
  moreover have "f x \<notin> f ` set (filter P xs)" if "P x"
  proof
    assume "f x \<in> f ` set (filter P xs)"
    then obtain k where "k < length xs" "P (xs ! k)" "f x = f (xs ! k)" by (auto simp: in_set_conv_nth)
    with Cons.prems [of 0 "Suc k"] that show False by simp
  qed
  ultimately show ?case by auto
qed simp

definition is_merge :: "('id, 't, 'd) school_op \<Rightarrow> bool" where
  "is_merge op = (is_close op \<and> cl_successor op \<noteq> None)"

lemma plan_successors_distinct:
  fixes p :: "('id::linorder, 't, 'd) school_plan"
  assumes p: "plan_schools u j snapshot inp state = Some p"
  shows "distinct (map cl_successor (filter is_merge (spl_ops p)))"
  using p
proof (rule plan_schools_ops)
  let ?so = "sort_units j snapshot inp state"
  let ?cl = "so_closings ?so" and ?cs = "so_candidates ?so"
  fix placements closings faus reviews and creates uops :: "('id, 't, 'd) school_op list"
  assume pa: "place_all u ?cs snapshot ?cl (so_fau_closings ?so) = Some (placements, closings, faus, reviews)"
    and ops: "spl_ops p = map close_op closings @ creates @ uops"
    and cr: "\<And>i. i < length creates \<Longrightarrow> create_for ?cs placements i (creates ! i)"
    and up: "\<And>op. op \<in> set uops \<Longrightarrow> updates_of (so_updates ?so) op"
  have none: "\<forall>c\<in>set ?cl. cg_successor c = None"
    using sort_units_ok [of j inp snapshot state] by (auto simp: sorting_ok_def)
  from place_all_ok [OF pa none] obtain pl where pl: "placing_ok ?cs ?cl (so_fau_closings ?so) pl"
    "closings = pl_closings pl" by blast
  note d = placing_okD [OF pl(1)]
  have "\<not> is_merge op" if "op \<in> set (creates @ uops)" for op
  proof
    assume "is_merge op"
    then obtain i r dd h where o': "op = Close i r dd h" by (cases op) (auto simp: is_merge_def is_close_def)
    from that consider "op \<in> set creates" | "op \<in> set uops" by auto
    then show False
    proof cases
      case 1
      from create_for_nth [OF cr 1] show False by (auto simp: o' create_for_def)
    next
      case 2
      from up [OF 2] show False by (auto simp: o' updates_of_def update_op_def)
    qed
  qed
  then have "filter is_merge (spl_ops p) = filter is_merge (map close_op closings)"
    by (simp add: ops filter_empty_conv)
  moreover have "distinct (map cl_successor (filter is_merge (map close_op closings :: ('id, 't, 'd) school_op list)))"
  proof (rule distinct_map_filter_nth)
    fix k k'
    have merged: "k \<in> pl_claimed pl" if "k < length ?cl" "cg_successor (closings ! k) \<noteq> None" for k
      using that d(4) [OF that(1)] none pl(2) by force
    assume "k < length (map close_op closings :: ('id, 't, 'd) school_op list)" "k' < length (map close_op closings :: ('id, 't, 'd) school_op list)"
      "is_merge (map close_op closings ! k :: ('id, 't, 'd) school_op)" "is_merge (map close_op closings ! k' :: ('id, 't, 'd) school_op)"
      "cl_successor (map close_op closings ! k :: ('id, 't, 'd) school_op) = cl_successor (map close_op closings ! k' :: ('id, 't, 'd) school_op)"
    then have "k < length ?cl" "k' < length ?cl" "cg_successor (closings ! k) \<noteq> None" "cg_successor (closings ! k') \<noteq> None"
      "cg_successor (closings ! k) = cg_successor (closings ! k')"
      using d(2) pl(2) by (auto simp: close_op_def is_merge_def)
    with merged d(7) show "k = k'" unfolding pl(2) by metis
  qed
  ultimately show ?thesis by simp
qed
section \<open>The outcome of a run\<close>

lemma unheld_orgnr:
  assumes "schools_by_orgnr snapshot o' = None" "s \<in> set (schools snapshot)"
  shows "s_orgnr s \<noteq> Some o'"
  using assms unfolding schools_by_orgnr_def hm_collect_None by (force simp: List.map_filter_def)

lemma mass_change_counts:
  assumes "mass_change snapshot c = Some r"
  shows "n_schools_closed c \<noteq> 0 \<or> n_schools_renamed c \<noteq> 0 \<or> n_attribute_losses c \<noteq> 0"
  using assms by (auto simp: mass_change_def Let_def split: if_splits)

definition run_counts :: "'id register_snapshot \<Rightarrow> ('id, 'd) municipality_plan \<Rightarrow> ('id, 't, 'd) school_plan \<Rightarrow> counts" where
  "run_counts snapshot mp sp =
     (tally (mpl_ops mp) (spl_ops sp) (length (mpl_reviews mp @ spl_reviews sp)) (spl_skipped sp))
       \<lparr>n_attribute_losses := attribute_losses snapshot (spl_ops sp)\<rparr>"

lemma plan_with_eq:
  assumes "in_municipalities inp \<noteq> []" "in_units inp \<noteq> []"
    and mp: "plan_municipalities u snapshot (inp\<lparr>in_units := normalise_units (in_units inp)\<rparr>) = Some mp"
    and sp: "plan_schools u j snapshot (inp\<lparr>in_units := normalise_units (in_units inp)\<rparr>) (mpl_state mp) = Some sp"
  shows "plan_with u j snapshot inp brk = Some (case (if in_kind inp = Sync \<and> brk = Enforce
        then mass_change snapshot (run_counts snapshot mp sp) else None) of
      Some reason \<Rightarrow> Abort reason (run_counts snapshot mp sp)
    | None \<Rightarrow> if mpl_ops mp = [] \<and> spl_ops sp = [] \<and> mpl_reviews mp @ spl_reviews sp = [] then No_Change
        else Apply \<lparr>p_municipality_ops = mpl_ops mp, p_school_ops = spl_ops sp,
          p_reviews = mpl_reviews mp @ spl_reviews sp, p_counts = run_counts snapshot mp sp\<rparr>)"
proof -
  have kind: "in_kind (inp\<lparr>in_units := normalise_units (in_units inp)\<rparr>) = in_kind inp" by simp
  show ?thesis
    unfolding plan_with_def Let_def if_not_P [OF assms(1)] if_not_P [OF assms(2)] mp sp option.case kind
      run_counts_def by (rule refl)
qed

end
