(* ===== verification/Apply_Schools.thy ===== *)
theory Apply_Schools
  imports Apply_Municipalities Plan_Facts
begin

text \<open>
  The applier of \<open>register/sync/testkit.rs\<close> on the school operations: the closes, then the creates
  and the changes. The invariant \<open>fitting\<close> keeps every slug of the rows inside a set of triples
  (municipality, slug, school) that has one school per slug.
\<close>

section \<open>Rows with slugs\<close>

definition slugs_ok :: "nat school_snapshot list \<Rightarrow> bool" where
  "slugs_ok ss \<longleftrightarrow> (\<forall>s\<in>set ss. s_slug s \<noteq> None \<longrightarrow> s_verification s \<noteq> Held) \<and> distinct (slug_keys ss)"

text \<open>Every slug of the rows \<open>ss\<close> is a triple of \<open>T\<close>, in the ids the applier gives.\<close>

definition covered :: "nat \<Rightarrow> nat \<Rightarrow> nat triple set \<Rightarrow> nat school_snapshot list \<Rightarrow> bool" where
  "covered mb sb T ss \<longleftrightarrow> (\<forall>s\<in>set ss. \<forall>sl. s_slug s = Some sl \<longrightarrow> s_verification s \<noteq> Held
     \<and> (\<exists>m h. (m, sl, h) \<in> T \<and> id_of mb m = s_municipality_id s \<and> id_of sb h = s_id s))"

definition triples_ok :: "nat \<Rightarrow> nat triple set \<Rightarrow> bool" where
  "triples_ok mb T \<longleftrightarrow> (\<forall>m sl h h'. (m, sl, h) \<in> T \<longrightarrow> (m, sl, h') \<in> T \<longrightarrow> h = h')
     \<and> (\<forall>i sl h. (Existing i, sl, h) \<in> T \<longrightarrow> i < mb)"

lemma coveredD:
  assumes "covered mb sb T ss" "s \<in> set ss" "s_slug s = Some sl"
  shows "s_verification s \<noteq> Held" "\<exists>m h. (m, sl, h) \<in> T \<and> id_of mb m = s_municipality_id s \<and> id_of sb h = s_id s"
  using assms unfolding covered_def by blast+

lemma id_of_inj:
  assumes "triples_ok mb T" "(m, sl, h) \<in> T" "(m', sl', h') \<in> T" "id_of mb m = id_of mb m'"
  shows "m = m'"
  using assms unfolding triples_ok_def by (cases m; cases m') (auto dest!: spec)

lemma slug_keys_alt:
  "slug_keys ss = map (\<lambda>s. (s_municipality_id s, the (s_slug s))) (filter (\<lambda>s. s_slug s \<noteq> None) ss)"
  by (induction ss) (auto simp: slug_keys_def List.map_filter_simps)

lemma covered_slugs_ok:
  assumes "covered mb sb T ss" "triples_ok mb T" "distinct (map s_id ss)"
  shows "slugs_ok ss"
  unfolding slugs_ok_def
proof
  show "\<forall>s\<in>set ss. s_slug s \<noteq> None \<longrightarrow> s_verification s \<noteq> Held"
    using coveredD(1) [OF assms(1)] by auto
  show "distinct (slug_keys ss)"
    unfolding slug_keys_alt
  proof (rule distinct_mapI)
    show "distinct (map s_id (filter (\<lambda>s. s_slug s \<noteq> None) ss))" using assms(3) by (rule distinct_map_filter)
    show "inj_on (\<lambda>s. (s_municipality_id s, the (s_slug s))) (set (filter (\<lambda>s. s_slug s \<noteq> None) ss))"
    proof (rule inj_onI)
      fix s s' assume s: "s \<in> set (filter (\<lambda>s. s_slug s \<noteq> None) ss)" "s' \<in> set (filter (\<lambda>s. s_slug s \<noteq> None) ss)"
        and eq: "(s_municipality_id s, the (s_slug s)) = (s_municipality_id s', the (s_slug s'))"
      from s eq obtain sl where sl: "s_slug s = Some sl" "s_slug s' = Some sl" "s \<in> set ss" "s' \<in> set ss" by auto
      from coveredD(2) [OF assms(1) sl(3,1)] obtain m h where
        1: "(m, sl, h) \<in> T" "id_of mb m = s_municipality_id s" "id_of sb h = s_id s" by blast
      from coveredD(2) [OF assms(1) sl(4,2)] obtain m' h' where
        2: "(m', sl, h') \<in> T" "id_of mb m' = s_municipality_id s'" "id_of sb h' = s_id s'" by blast
      from id_of_inj [OF assms(2) 1(1) 2(1)] 1 2 eq have "m = m'" by simp
      with 1 2 assms(2) have "s_id s = s_id s'" unfolding triples_ok_def by metis
      with sl assms(3) show "s = s'" by (simp add: distinct_map inj_on_def)
    qed
  qed
qed

section \<open>One school operation\<close>

definition with_schools :: "register \<Rightarrow> nat school_snapshot list \<Rightarrow> (nat \<times> str \<times> nat) list \<Rightarrow> register" where
  "with_schools out ss h = out\<lparr>schools := ss, school_slug_history := h\<rparr>"

lemma with_schools_simps [simp]:
  "schools (with_schools out ss h) = ss" "municipalities (with_schools out ss h) = municipalities out"
  "with_schools out ss h\<lparr>schools := ss'\<rparr> = with_schools out ss' h"
  "with_schools out (schools out) (school_slug_history out) = out"
  by (simp_all add: with_schools_def)

lemma push_with_schools:
  "\<exists>h'. push_school_slug m slug i (with_schools out ss h) = with_schools out ss h'"
  by (auto simp: with_schools_def push_school_slug_def)

definition towns_ok :: "register \<Rightarrow> bool" where
  "towns_ok out \<longleftrightarrow> distinct (map ms_slug (municipalities out))
     \<and> distinct (map ms_number (filter (\<lambda>m. ms_status m = Municipality_Active) (municipalities out)))"

lemma check_schools: "check_invariants (with_schools out ss h) \<longleftrightarrow> slugs_ok ss \<and> towns_ok out"
  by (auto simp: check_invariants_def slugs_ok_def towns_ok_def list_all_iff)

lemma school_mut_map:
  assumes "distinct (map s_id ss)" "i \<in> s_id ` set ss"
  shows "school_mut (with_schools out ss h) i f = Some (with_schools out (map (\<lambda>s. if s_id s = i then f s else s) ss) h)"
  using update_first_map [OF assms] by (simp add: school_mut_def)

lemma school_ref_found:
  assumes "distinct (map s_id (schools out))" "s \<in> set (schools out)"
  shows "school_ref out (s_id s) = Some s"
proof -
  have "List.find (\<lambda>x. s_id x = s_id s) (schools out) \<noteq> None" using assms(2) by (auto simp: find_None_iff)
  then obtain t where t: "List.find (\<lambda>x. s_id x = s_id s) (schools out) = Some t" by blast
  from find_SomeD [OF t] have "t = s" using assms by (auto simp: distinct_map inj_on_def)
  with t show ?thesis by (simp add: school_ref_def)
qed

text \<open>The row an operation changes, and how.\<close>

fun row_change :: "nat \<Rightarrow> (nat, 't, 'd) school_op \<Rightarrow> nat school_snapshot \<Rightarrow> nat school_snapshot" where
  "row_change mb (Close i reason closed_on successor) s = s\<lparr>s_status := School_Closed,
     s_in_scope := (if reason = Out_Of_Scope_Closure then False else s_in_scope s), s_slug := None\<rparr>"
| "row_change mb (School_Rename i register_name display_name slug) s =
     set_slug slug (s\<lparr>s_register_name := Some register_name, s_display_name := unwrap_or display_name (s_display_name s)\<rparr>)"
| "row_change mb (Update_Attributes i attributes) s = s\<lparr>s_attributes := attributes\<rparr>"
| "row_change mb (Move i source dest slug) s = set_slug slug (s\<lparr>s_municipality_id := id_of mb dest\<rparr>)"
| "row_change mb (School_Create _ _ _ _ _ _ _ _ _ _) s = s"

definition rows_after :: "nat \<Rightarrow> nat \<Rightarrow> nat school_snapshot list \<Rightarrow> (nat, 't, 'd) school_op \<Rightarrow> nat school_snapshot list" where
  "rows_after mb sb ss op =
     (case op of
        School_Create n m orgnr reg name slug v sc attrs _ \<Rightarrow>
          ss @ [created_school (sb + n) (id_of mb m) orgnr reg name slug v sc attrs]
      | _ \<Rightarrow> map (\<lambda>s. if s_id s = o_id op then row_change mb op s else s) ss)"

definition known_ref :: "nat \<Rightarrow> nat ref \<Rightarrow> bool" where
  "known_ref k m = (case m of New n \<Rightarrow> n < k | Existing _ \<Rightarrow> True)"

fun op_known :: "nat \<Rightarrow> nat \<Rightarrow> nat school_snapshot list \<Rightarrow> (nat, 't, 'd) school_op \<Rightarrow> bool" where
  "op_known k l ss (School_Create n m _ _ _ _ _ _ _ _) \<longleftrightarrow> n < l \<and> known_ref k m"
| "op_known k l ss (Move i source dest slug) \<longleftrightarrow> i \<in> s_id ` set ss \<and> known_ref k dest"
| "op_known k l ss (Close i reason closed_on successor) \<longleftrightarrow> i \<in> s_id ` set ss"
| "op_known k l ss (School_Rename i register_name display_name slug) \<longleftrightarrow> i \<in> s_id ` set ss"
| "op_known k l ss (Update_Attributes i attributes) \<longleftrightarrow> i \<in> s_id ` set ss"

definition ids_from :: "nat \<Rightarrow> nat \<Rightarrow> nat \<rightharpoonup> nat" where
  "ids_from base k n = (if n < k then Some (base + n) else None)"

lemma known_ref_id: "known_ref k m \<Longrightarrow> municipality_id (ids_from mb k) m = Some (id_of mb m)"
  by (cases m) (simp_all add: known_ref_def municipality_id_def ids_from_def)

lemma school_effect_rows:
  assumes ids: "distinct (map s_id ss)" and op: "op_known k l ss op"
  shows "\<exists>h'. school_effect (ids_from mb k) (ids_from sb l) (with_schools out ss h) op
    = Some (with_schools out (rows_after mb sb ss op) h')"
proof -
  have ref: "\<exists>s. school_ref (with_schools out ss h) i = Some s" if "i \<in> s_id ` set ss" for i
    using that school_ref_found [of "with_schools out ss h"] ids by force
  have pushed: "\<exists>h'. map_option (push_school_slug m slug i) (school_mut (with_schools out ss h) i f)
      = Some (with_schools out (map (\<lambda>s. if s_id s = i then f s else s) ss) h')" if "i \<in> s_id ` set ss" for m slug i f
    using push_with_schools [of m slug i out "map (\<lambda>s. if s_id s = i then f s else s) ss" h]
    by (simp add: school_mut_map [OF ids that])
  show ?thesis
  proof (cases op)
    case (School_Create n m orgnr reg name slug v sc attrs changed)
    with op show ?thesis
      by (intro exI [of _ h]) (simp add: rows_after_def known_ref_id ids_from_def)
  next
    case (Close i reason closed_on successor)
    with op ref [of i] obtain s where "school_ref (with_schools out ss h) i = Some s" by auto
    with Close op pushed [of i] show ?thesis by (simp add: close_effect_def rows_after_def cong: if_cong)
  next
    case (School_Rename i reg name slug)
    with op ref [of i] obtain s where "school_ref (with_schools out ss h) i = Some s" by auto
    with School_Rename op pushed [of i] show ?thesis by (simp add: rows_after_def cong: if_cong)
  next
    case (Update_Attributes i attrs)
    with op show ?thesis by (intro exI [of _ h]) (simp add: school_mut_map [OF ids] rows_after_def cong: if_cong)
  next
    case (Move i source dest slug)
    with op pushed [of i] show ?thesis by (simp add: rows_after_def known_ref_id cong: if_cong)
  qed
qed

lemma school_step_rows:
  assumes ids: "distinct (map s_id ss)" and op: "op_known k l ss op"
    and ok: "slugs_ok (rows_after mb sb ss op)" "towns_ok out"
  shows "\<exists>h'. school_step (ids_from mb k) (ids_from sb l) \<lparr>ap_out = with_schools out ss h, ap_pending = p\<rparr> op
    = Some \<lparr>ap_out = with_schools out (rows_after mb sb ss op) h', ap_pending = p @ pending_of op\<rparr>"
  using school_effect_rows [OF ids op, of mb sb out h] ok
  by (auto simp: school_step_def checked_def check_schools)

lemma rows_after_ids:
  "map s_id (rows_after mb sb ss op) = map s_id ss @ (if is_create op then [sb + c_new op] else [])"
  by (cases op) (auto simp: rows_after_def is_create_def created_school_def set_slug_def split: option.splits)

text \<open>A run of operations with an invariant on the rows.\<close>

lemma school_steps:
  assumes "\<And>pre op post. ops = pre @ op # post \<Longrightarrow> I pre (foldl (rows_after mb sb) ss pre) \<Longrightarrow>
      distinct (map s_id (foldl (rows_after mb sb) ss pre)) \<and> op_known k l (foldl (rows_after mb sb) ss pre) op
      \<and> I (pre @ [op]) (rows_after mb sb (foldl (rows_after mb sb) ss pre) op)
      \<and> slugs_ok (rows_after mb sb (foldl (rows_after mb sb) ss pre) op)"
    and "I [] ss" "towns_ok out"
  shows "(\<exists>h'. foldM (school_step (ids_from mb k) (ids_from sb l)) \<lparr>ap_out = with_schools out ss h, ap_pending = p\<rparr> ops
    = Some \<lparr>ap_out = with_schools out (foldl (rows_after mb sb) ss ops) h', ap_pending = p @ concat (map pending_of ops)\<rparr>)
    \<and> I ops (foldl (rows_after mb sb) ss ops)"
  using assms(1)
proof (induction ops rule: rev_induct)
  case Nil
  show ?case using assms(2) by auto
next
  case (snoc op ops)
  let ?ss = "foldl (rows_after mb sb) ss ops"
  have "(\<exists>h'. foldM (school_step (ids_from mb k) (ids_from sb l)) \<lparr>ap_out = with_schools out ss h, ap_pending = p\<rparr> ops
    = Some \<lparr>ap_out = with_schools out ?ss h', ap_pending = p @ concat (map pending_of ops)\<rparr>) \<and> I ops ?ss"
    by (rule snoc.IH) (use snoc.prems in auto)
  then obtain h' where run: "foldM (school_step (ids_from mb k) (ids_from sb l)) \<lparr>ap_out = with_schools out ss h, ap_pending = p\<rparr> ops
    = Some \<lparr>ap_out = with_schools out ?ss h', ap_pending = p @ concat (map pending_of ops)\<rparr>" and I: "I ops ?ss" by blast
  from snoc.prems [of ops op "[]"] I have
    st: "distinct (map s_id ?ss)" "op_known k l ?ss op" "I (ops @ [op]) (rows_after mb sb ?ss op)" "slugs_ok (rows_after mb sb ?ss op)"
    by auto
  from school_step_rows [OF st(1,2,4) assms(3), of h' "p @ concat (map pending_of ops)"] obtain h2 where
    "school_step (ids_from mb k) (ids_from sb l) \<lparr>ap_out = with_schools out ?ss h', ap_pending = p @ concat (map pending_of ops)\<rparr> op
      = Some \<lparr>ap_out = with_schools out (rows_after mb sb ?ss op) h2, ap_pending = (p @ concat (map pending_of ops)) @ pending_of op\<rparr>"
    by blast
  with run st(3) show ?case by (auto simp: foldM_append)
qed

section \<open>The closes\<close>

definition closing_rows :: "nat school_snapshot list \<Rightarrow> nat set \<Rightarrow> nat school_snapshot list \<Rightarrow> bool" where
  "closing_rows ss0 shut ss \<longleftrightarrow> map s_id ss = map s_id ss0
     \<and> (\<forall>s\<in>set ss. \<exists>s0\<in>set ss0. s_id s = s_id s0 \<and> s_municipality_id s = s_municipality_id s0
        \<and> s_verification s = s_verification s0 \<and> s_slug s = (if s_id s0 \<in> shut then None else s_slug s0))"

lemma closing_rowsD:
  assumes "closing_rows ss0 shut ss"
  shows "map s_id ss = map s_id ss0"
    and "s \<in> set ss \<Longrightarrow> \<exists>s0\<in>set ss0. s_id s = s_id s0 \<and> s_municipality_id s = s_municipality_id s0
        \<and> s_verification s = s_verification s0 \<and> s_slug s = (if s_id s0 \<in> shut then None else s_slug s0)"
  using assms unfolding closing_rows_def by blast+

lemma closing_rows_start: "closing_rows ss0 {} ss0"
  by (auto simp: closing_rows_def)

lemma closing_rows_step:
  assumes "closing_rows ss0 shut ss"
  shows "closing_rows ss0 (insert i shut) (rows_after mb sb ss (Close i reason closed_on successor))"
  unfolding closing_rows_def
proof (intro conjI ballI)
  let ?op = "Close i reason closed_on successor"
  show "map s_id (rows_after mb sb ss ?op) = map s_id ss0"
    using closing_rowsD(1) [OF assms] by (simp add: rows_after_ids is_create_def)
  fix s assume "s \<in> set (rows_after mb sb ss ?op)"
  then obtain t where t: "t \<in> set ss" "s = (if s_id t = i then row_change mb ?op t else t)"
    by (auto simp: rows_after_def)
  from closing_rowsD(2) [OF assms t(1)] obtain s0 where s0: "s0 \<in> set ss0" "s_id t = s_id s0"
    "s_municipality_id t = s_municipality_id s0" "s_verification t = s_verification s0"
    "s_slug t = (if s_id s0 \<in> shut then None else s_slug s0)" by blast
  with t(2) show "\<exists>s0\<in>set ss0. s_id s = s_id s0 \<and> s_municipality_id s = s_municipality_id s0
        \<and> s_verification s = s_verification s0 \<and> s_slug s = (if s_id s0 \<in> insert i shut then None else s_slug s0)"
    by (intro bexI [of _ s0]) auto
qed

lemma closing_rows_covered:
  assumes "closing_rows ss0 shut ss" "slugs_ok ss0"
    and "\<And>s sl. s \<in> set ss0 \<Longrightarrow> s_id s \<notin> shut \<Longrightarrow> s_slug s = Some sl \<Longrightarrow>
      (Existing (s_municipality_id s), sl, Existing (s_id s)) \<in> T"
  shows "covered mb sb T ss"
  unfolding covered_def
proof (intro ballI allI impI)
  fix s sl assume s: "s \<in> set ss" "s_slug s = Some sl"
  from closing_rowsD(2) [OF assms(1) s(1)] s(2) obtain s0 where s0: "s0 \<in> set ss0" "s_id s = s_id s0"
    "s_municipality_id s = s_municipality_id s0" "s_verification s = s_verification s0" "s_id s0 \<notin> shut" "s_slug s0 = Some sl"
    by (auto split: if_splits)
  with assms(2) have "s_verification s \<noteq> Held" by (auto simp: slugs_ok_def)
  with assms(3) [OF s0(1,5,6)] s0 show "s_verification s \<noteq> Held
     \<and> (\<exists>m h. (m, sl, h) \<in> T \<and> id_of mb m = s_municipality_id s \<and> id_of sb h = s_id s)" by fastforce
qed

lemma covered_by:
  assumes "(m, sl, h) \<in> T" "id_of mb m = x" "id_of sb h = y"
  shows "\<exists>m h. (m, sl, h) \<in> T \<and> id_of mb m = x \<and> id_of sb h = y"
  using assms by blast

section \<open>The creates and the changes\<close>

text \<open>What the rest of a plan keeps to, with \<open>ss0\<close> the schools at the start, \<open>shut\<close> the closed ones,
  \<open>k\<close> and \<open>l\<close> the numbers of new municipalities and schools, \<open>ms\<close> the municipalities' ids.\<close>

definition ops_fit ::
  "nat school_snapshot list \<Rightarrow> nat set \<Rightarrow> nat \<Rightarrow> nat \<Rightarrow> nat set \<Rightarrow> nat triple set \<Rightarrow> nat \<Rightarrow> (nat, 't, 'd) school_op list \<Rightarrow> bool" where
  "ops_fit ss0 shut k mb ms T l ops \<longleftrightarrow>
     map c_new (filter is_create ops) = [0..<l] \<and>
     (\<forall>op\<in>set ops. \<not> is_close op) \<and>
     (\<forall>op\<in>set ops. is_create op \<longrightarrow> known_ref k (c_municipality op) \<and> id_of mb (c_municipality op) \<in> ms
        \<and> (\<forall>sl. c_slug op = Some sl \<longrightarrow> (c_municipality op, sl, New (c_new op)) \<in> T \<and> c_verification op = Create_Listed)) \<and>
     (\<forall>op\<in>set ops. \<not> is_create op \<longrightarrow> (\<exists>s0\<in>set ss0. s_id s0 = o_id op \<and> s_id s0 \<notin> shut \<and> s_verification s0 \<noteq> Held)) \<and>
     (\<forall>i reg name c. School_Rename i reg name (Some c) \<in> set ops \<longrightarrow>
        (\<forall>s0\<in>set ss0. s_id s0 = i \<longrightarrow> (Existing (s_municipality_id s0), sc_new c, Existing i) \<in> T)
        \<and> (\<forall>source dest change. Move i source dest change \<notin> set ops)) \<and>
     (\<forall>i source dest change. Move i source dest change \<in> set ops \<longrightarrow> known_ref k dest \<and> id_of mb dest \<in> ms) \<and>
     (\<forall>i source dest c. Move i source dest (Some c) \<in> set ops \<longrightarrow> (dest, sc_new c, Existing i) \<in> T) \<and>
     (\<forall>i source dest. Move i source dest None \<in> set ops \<longrightarrow>
        (\<forall>s0\<in>set ss0. s_id s0 = i \<longrightarrow> s_slug s0 = None)
        \<and> (\<forall>source' dest' c. Move i source' dest' (Some c) \<notin> set ops))"

lemma ops_fitD:
  assumes "ops_fit ss0 shut k mb ms T l ops"
  shows "map c_new (filter is_create ops) = [0..<l]"
    and "op \<in> set ops \<Longrightarrow> \<not> is_close op"
    and "op \<in> set ops \<Longrightarrow> is_create op \<Longrightarrow> known_ref k (c_municipality op)"
    and "op \<in> set ops \<Longrightarrow> is_create op \<Longrightarrow> id_of mb (c_municipality op) \<in> ms"
    and "op \<in> set ops \<Longrightarrow> is_create op \<Longrightarrow> c_slug op = Some sl \<Longrightarrow>
      (c_municipality op, sl, New (c_new op)) \<in> T \<and> c_verification op = Create_Listed"
    and "op \<in> set ops \<Longrightarrow> \<not> is_create op \<Longrightarrow> \<exists>s0\<in>set ss0. s_id s0 = o_id op \<and> s_id s0 \<notin> shut \<and> s_verification s0 \<noteq> Held"
    and "School_Rename i reg name (Some c) \<in> set ops \<Longrightarrow> s0 \<in> set ss0 \<Longrightarrow> s_id s0 = i \<Longrightarrow>
      (Existing (s_municipality_id s0), sc_new c, Existing i) \<in> T"
    and "School_Rename i reg name (Some c) \<in> set ops \<Longrightarrow> Move i source dest change \<notin> set ops"
    and "Move i source dest change \<in> set ops \<Longrightarrow> known_ref k dest"
    and "Move i source dest change \<in> set ops \<Longrightarrow> id_of mb dest \<in> ms"
    and "Move i source dest (Some c) \<in> set ops \<Longrightarrow> (dest, sc_new c, Existing i) \<in> T"
    and "Move i source dest None \<in> set ops \<Longrightarrow> s0 \<in> set ss0 \<Longrightarrow> s_id s0 = i \<Longrightarrow> s_slug s0 = None"
    and "Move i source dest None \<in> set ops \<Longrightarrow> Move i source' dest' (Some c) \<notin> set ops"
proof -
  note c = assms [unfolded ops_fit_def]
  show "map c_new (filter is_create ops) = [0..<l]" using c [THEN conjunct1] by blast
  show "op \<in> set ops \<Longrightarrow> \<not> is_close op" using c [THEN conjunct2, THEN conjunct1] by blast
  show "op \<in> set ops \<Longrightarrow> is_create op \<Longrightarrow> known_ref k (c_municipality op)" using c [THEN conjunct2, THEN conjunct2, THEN conjunct1] by blast
  show "op \<in> set ops \<Longrightarrow> is_create op \<Longrightarrow> id_of mb (c_municipality op) \<in> ms" using c [THEN conjunct2, THEN conjunct2, THEN conjunct1] by blast
  show "op \<in> set ops \<Longrightarrow> is_create op \<Longrightarrow> c_slug op = Some sl \<Longrightarrow>
      (c_municipality op, sl, New (c_new op)) \<in> T \<and> c_verification op = Create_Listed" using c [THEN conjunct2, THEN conjunct2, THEN conjunct1] by blast
  show "op \<in> set ops \<Longrightarrow> \<not> is_create op \<Longrightarrow> \<exists>s0\<in>set ss0. s_id s0 = o_id op \<and> s_id s0 \<notin> shut \<and> s_verification s0 \<noteq> Held" using c [THEN conjunct2, THEN conjunct2, THEN conjunct2, THEN conjunct1] by blast
  show "School_Rename i reg name (Some c) \<in> set ops \<Longrightarrow> s0 \<in> set ss0 \<Longrightarrow> s_id s0 = i \<Longrightarrow>
      (Existing (s_municipality_id s0), sc_new c, Existing i) \<in> T" using c [THEN conjunct2, THEN conjunct2, THEN conjunct2, THEN conjunct2, THEN conjunct1] by blast
  show "School_Rename i reg name (Some c) \<in> set ops \<Longrightarrow> Move i source dest change \<notin> set ops" using c [THEN conjunct2, THEN conjunct2, THEN conjunct2, THEN conjunct2, THEN conjunct1] by blast
  show "Move i source dest change \<in> set ops \<Longrightarrow> known_ref k dest" using c [THEN conjunct2, THEN conjunct2, THEN conjunct2, THEN conjunct2, THEN conjunct2, THEN conjunct1] by blast
  show "Move i source dest change \<in> set ops \<Longrightarrow> id_of mb dest \<in> ms" using c [THEN conjunct2, THEN conjunct2, THEN conjunct2, THEN conjunct2, THEN conjunct2, THEN conjunct1] by blast
  show "Move i source dest (Some c) \<in> set ops \<Longrightarrow> (dest, sc_new c, Existing i) \<in> T" using c [THEN conjunct2, THEN conjunct2, THEN conjunct2, THEN conjunct2, THEN conjunct2, THEN conjunct2, THEN conjunct1] by blast
  show "Move i source dest None \<in> set ops \<Longrightarrow> s0 \<in> set ss0 \<Longrightarrow> s_id s0 = i \<Longrightarrow> s_slug s0 = None" using c [THEN conjunct2, THEN conjunct2, THEN conjunct2, THEN conjunct2, THEN conjunct2, THEN conjunct2, THEN conjunct2] by blast
  show "Move i source dest None \<in> set ops \<Longrightarrow> Move i source' dest' (Some c) \<notin> set ops" using c [THEN conjunct2, THEN conjunct2, THEN conjunct2, THEN conjunct2, THEN conjunct2, THEN conjunct2, THEN conjunct2] by blast
qed

definition moves :: "nat \<Rightarrow> (nat, 't, 'd) school_op \<Rightarrow> bool" where
  "moves i op = (case op of Move i' _ _ _ \<Rightarrow> i' = i | _ \<Rightarrow> False)"

definition reslugs :: "nat \<Rightarrow> (nat, 't, 'd) school_op \<Rightarrow> bool" where
  "reslugs i op = (case op of Move i' _ _ sl \<Rightarrow> i' = i \<and> sl \<noteq> None | School_Rename i' _ _ sl \<Rightarrow> i' = i \<and> sl \<noteq> None | _ \<Rightarrow> False)"

definition known_row ::
  "nat school_snapshot list \<Rightarrow> nat set \<Rightarrow> (nat, 't, 'd) school_op list \<Rightarrow> nat school_snapshot \<Rightarrow> bool" where
  "known_row ss0 shut pre s \<longleftrightarrow> (\<exists>s0\<in>set ss0. s_id s = s_id s0 \<and> s_verification s = s_verification s0
     \<and> (list_ex (moves (s_id s)) pre \<or> s_municipality_id s = s_municipality_id s0)
     \<and> (list_ex (reslugs (s_id s)) pre \<or> s_slug s = (if s_id s0 \<in> shut then None else s_slug s0)))"

definition made_row :: "nat \<Rightarrow> nat \<Rightarrow> nat school_snapshot list \<Rightarrow> (nat, 't, 'd) school_op \<Rightarrow> bool" where
  "made_row mb sb ss op \<longleftrightarrow> (\<exists>s\<in>set ss. s_id s = sb + c_new op \<and> s_municipality_id s = id_of mb (c_municipality op)
     \<and> s_verification s = created_verification (c_verification op))"

definition fitting ::
  "nat school_snapshot list \<Rightarrow> nat set \<Rightarrow> nat \<Rightarrow> nat \<Rightarrow> nat set \<Rightarrow> nat triple set \<Rightarrow> (nat, 't, 'd) school_op list
     \<Rightarrow> nat school_snapshot list \<Rightarrow> bool" where
  "fitting ss0 shut mb sb ms T pre ss \<longleftrightarrow>
     map s_id ss = map s_id ss0 @ map ((+) sb) [0..<length (filter is_create pre)] \<and>
     covered mb sb T ss \<and>
     (\<forall>s\<in>set ss. s_id s < sb \<longrightarrow> known_row ss0 shut pre s) \<and>
     (\<forall>op\<in>set pre. is_create op \<longrightarrow> made_row mb sb ss op) \<and>
     (\<forall>s\<in>set ss. s_municipality_id s \<in> ms)"

lemma fittingD:
  assumes "fitting ss0 shut mb sb ms T pre ss"
  shows "map s_id ss = map s_id ss0 @ map ((+) sb) [0..<length (filter is_create pre)]"
    and "covered mb sb T ss"
    and "s \<in> set ss \<Longrightarrow> s_id s < sb \<Longrightarrow> known_row ss0 shut pre s"
    and "op \<in> set pre \<Longrightarrow> is_create op \<Longrightarrow> made_row mb sb ss op"
    and "s \<in> set ss \<Longrightarrow> s_municipality_id s \<in> ms"
  using assms unfolding fitting_def by blast+

lemma fitting_ids:
  assumes "fitting ss0 shut mb sb ms T pre ss" "distinct (map s_id ss0)" "\<forall>s\<in>set ss0. s_id s < sb"
  shows "distinct (map s_id ss)"
  using assms(2,3) unfolding fittingD(1) [OF assms(1)] by (auto simp: distinct_map inj_on_def)

lemma fitting_create:
  assumes fit: "ops_fit ss0 shut k mb ms T l (pre @ op # post)" and I: "fitting ss0 shut mb sb ms T pre ss" and op: "is_create op"
    and below: "\<forall>s\<in>set ss0. s_id s < sb"
  shows "fitting ss0 shut mb sb ms T (pre @ [op]) (rows_after mb sb ss op) \<and> op_known k l ss op"
proof -
  obtain n m orgnr reg name slug v sc attrs ch where o': "op = School_Create n m orgnr reg name slug v sc attrs ch"
    using op by (cases op) (auto simp: is_create_def)
  have in_ops: "op \<in> set (pre @ op # post)" by simp
  note d = ops_fitD(1) [OF fit] ops_fitD(3,4) [OF fit in_ops op] ops_fitD(5) [OF fit in_ops op]
  have split: "map c_new (filter is_create pre) @ n # map c_new (filter is_create post) = [0..<l]"
    using d(1) op by (simp add: o')
  then have "length (map c_new (filter is_create pre)) < length [0..<l]" by (metis add_less_cancel_left length_Cons length_append less_add_same_cancel1 zero_less_Suc)
  with arg_cong [OF split, of "\<lambda>xs. xs ! length (filter is_create pre)"]
  have n: "n = length (filter is_create pre)" "n < l" by (simp_all add: nth_append)
  let ?r = "created_school (sb + n) (id_of mb m) orgnr reg name slug v sc attrs"
  have rows: "rows_after mb sb ss op = ss @ [?r]" by (simp add: rows_after_def o')
  have "fitting ss0 shut mb sb ms T (pre @ [op]) (ss @ [?r])"
    unfolding fitting_def
  proof (intro conjI ballI impI)
    show "map s_id (ss @ [?r]) = map s_id ss0 @ map ((+) sb) [0..<length (filter is_create (pre @ [op]))]"
      using fittingD(1) [OF I] op n(1) by (simp add: created_school_def)
    show "covered mb sb T (ss @ [?r])"
      unfolding covered_def
    proof (intro ballI allI impI)
      fix s sl assume s: "s \<in> set (ss @ [?r])" "s_slug s = Some sl"
      then consider "s \<in> set ss" | "s = ?r" by auto
      then show "s_verification s \<noteq> Held \<and> (\<exists>m h. (m, sl, h) \<in> T \<and> id_of mb m = s_municipality_id s \<and> id_of sb h = s_id s)"
      proof cases
        case 1 then show ?thesis using coveredD [OF fittingD(2) [OF I]] s(2) by blast
      next
        case 2 with d(4) [of sl] s(2) show ?thesis
          by (auto simp: created_school_def o' intro: covered_by [of m sl "New n"])
      qed
    qed
    show "s_municipality_id s \<in> ms" if "s \<in> set (ss @ [?r])" for s
      using that fittingD(5) [OF I] d(3) by (auto simp: created_school_def o')
    show "known_row ss0 shut (pre @ [op]) s" if "s \<in> set (ss @ [?r])" "s_id s < sb" for s
    proof -
      from that have "known_row ss0 shut pre s" using fittingD(3) [OF I, of s] by (auto simp: created_school_def)
      then show ?thesis by (auto simp: known_row_def)
    qed
    show "made_row mb sb (ss @ [?r]) op'" if "op' \<in> set (pre @ [op])" "is_create op'" for op'
      using that fittingD(4) [OF I, of op'] by (auto simp: made_row_def o' created_school_def)
  qed
  with n(2) d(2) show ?thesis by (simp only: rows) (simp add: o')
qed

lemma fitting_change:
  assumes fit: "ops_fit ss0 shut k mb ms T l (pre @ op # post)" and I: "fitting ss0 shut mb sb ms T pre ss" and op: "\<not> is_create op"
    and below: "\<forall>s\<in>set ss0. s_id s < sb" and ids: "distinct (map s_id ss0)"
  shows "fitting ss0 shut mb sb ms T (pre @ [op]) (rows_after mb sb ss op) \<and> op_known k l ss op"
proof -
  let ?i = "o_id op"
  have in_ops: "op \<in> set (pre @ op # post)" by simp
  have nc: "\<not> is_close op" using ops_fitD(2) [OF fit in_ops] .
  from ops_fitD(6) [OF fit in_ops op] obtain s0 where s0: "s0 \<in> set ss0" "s_id s0 = ?i" "s_id s0 \<notin> shut" "s_verification s0 \<noteq> Held" by blast
  have i: "?i < sb" using s0 below by auto
  have "?i \<in> set (map s_id ss)" unfolding fittingD(1) [OF I] using s0(1,2) by force
  then have known: "?i \<in> s_id ` set ss" by simp
  have rows: "rows_after mb sb ss op = map (\<lambda>s. if s_id s = ?i then row_change mb op s else s) ss"
    using op by (cases op) (simp_all add: rows_after_def is_create_def)
  have only: "s' = s0" if "s' \<in> set ss0" "s_id s' = ?i" for s'
    using that s0 ids unfolding distinct_map by (metis inj_onD)
  have kept: "s_id (row_change mb op s) = s_id s" "s_verification (row_change mb op s) = s_verification s" for s
    by (cases op; simp add: set_slug_def split: option.splits)+
  have kr: "s_verification s = s_verification s0 \<and> (list_ex (moves ?i) pre \<or> s_municipality_id s = s_municipality_id s0)
     \<and> (list_ex (reslugs ?i) pre \<or> s_slug s = s_slug s0)" if "s \<in> set ss" "s_id s = ?i" for s
    using fittingD(3) [OF I that(1)] that(2) i only s0(3) by (auto simp: known_row_def)
  have changed: "(\<forall>sl. s_slug (row_change mb op s) = Some sl \<longrightarrow>
        (\<exists>m h. (m, sl, h) \<in> T \<and> id_of mb m = s_municipality_id (row_change mb op s) \<and> id_of sb h = ?i))
      \<and> s_municipality_id (row_change mb op s) \<in> ms
      \<and> (moves ?i op \<or> s_municipality_id (row_change mb op s) = s_municipality_id s)
      \<and> (reslugs ?i op \<or> s_slug (row_change mb op s) = s_slug s)" if s: "s \<in> set ss" "s_id s = ?i" for s
  proof -
    note old = fittingD(5) [OF I s(1)]
    have cov: "\<exists>m h. (m, sl, h) \<in> T \<and> id_of mb m = s_municipality_id s \<and> id_of sb h = ?i" if "s_slug s = Some sl" for sl
      using coveredD(2) [OF fittingD(2) [OF I] s(1) that] s(2) by simp
    show ?thesis
    proof (cases op)
      case (School_Rename i reg name slug)
      show ?thesis
      proof (cases slug)
        case None
        with School_Rename cov old show ?thesis by (simp add: set_slug_def)
      next
        case (Some c)
        note r = in_ops [unfolded School_Rename Some]
        have "\<not> list_ex (moves ?i) pre"
          using ops_fitD(8) [OF fit, unfolded School_Rename Some, OF r] 
          by (auto simp: list_ex_iff moves_def School_Rename split: school_op.splits)
        with kr [OF s] have "s_municipality_id s = s_municipality_id s0" by blast
        with ops_fitD(7) [OF fit, unfolded School_Rename Some, OF r s0(1)] s0(2) School_Rename Some old
        show ?thesis by (auto simp: set_slug_def reslugs_def intro: covered_by [of "Existing (s_municipality_id s0)" _ "Existing i"])
      qed
    next
      case (Move i source dest slug)
      note r = in_ops [unfolded Move]
      note dest = ops_fitD(10) [OF fit, unfolded Move, OF r]
      show ?thesis
      proof (cases slug)
        case None
        have "\<not> list_ex (reslugs ?i) pre"
        proof
          assume "list_ex (reslugs ?i) pre"
          then obtain op' where op': "op' \<in> set pre" "reslugs ?i op'" by (auto simp: list_ex_iff)
          have mem: "op' \<in> set (pre @ op # post)" using op'(1) by simp
          show False
          proof (cases op')
            case (School_Rename i' reg name sl)
            with op'(2) Move obtain c where "op' = School_Rename i reg name (Some c)" by (auto simp: reslugs_def)
            with ops_fitD(8) [OF fit] mem in_ops Move show False by blast
          next
            case (Move i' source' dest' sl)
            with op'(2) \<open>op = Move i source dest slug\<close> obtain c where m': "op' = Move i source' dest' (Some c)" by (auto simp: reslugs_def)
            from m' mem have "Move i source' dest' (Some c) \<in> set (pre @ op # post)" by simp
            with ops_fitD(13) [OF fit] in_ops None \<open>op = Move i source dest slug\<close> show False by blast
          qed (use op'(2) in \<open>simp_all add: reslugs_def\<close>)
        qed
        with kr [OF s] have "s_slug s = s_slug s0" by blast
        with ops_fitD(12) [OF fit, unfolded Move None, OF r [unfolded None] s0(1)] s0(2) Move None dest
        show ?thesis by (simp add: set_slug_def moves_def)
      next
        case (Some c)
        with ops_fitD(11) [OF fit, unfolded Move Some, OF r [unfolded Some]] Move dest
        show ?thesis by (auto simp: set_slug_def moves_def reslugs_def intro: covered_by [of dest _ "Existing i"])
      qed
    qed (use op nc cov old in \<open>simp_all add: is_create_def is_close_def\<close>)
  qed
  have known': "op_known k l ss op"
    using known op nc ops_fitD(9) [OF fit] in_ops by (cases op) (auto simp: is_create_def is_close_def)
  have "fitting ss0 shut mb sb ms T (pre @ [op]) (map (\<lambda>s. if s_id s = ?i then row_change mb op s else s) ss)"
    unfolding fitting_def
  proof (intro conjI ballI impI)
    let ?g = "\<lambda>s. if s_id s = ?i then row_change mb op s else s"
    show "map s_id (map ?g ss) = map s_id ss0 @ map ((+) sb) [0..<length (filter is_create (pre @ [op]))]"
      using fittingD(1) [OF I] op by (simp add: kept(1) comp_def if_distrib cong: if_cong)
    show "covered mb sb T (map ?g ss)"
      unfolding covered_def
    proof (intro ballI allI impI)
      fix s sl assume "s \<in> set (map ?g ss)" "s_slug s = Some sl"
      then obtain t where t: "t \<in> set ss" "s = ?g t" "s_slug (?g t) = Some sl" by auto
      show "s_verification s \<noteq> Held \<and> (\<exists>m h. (m, sl, h) \<in> T \<and> id_of mb m = s_municipality_id s \<and> id_of sb h = s_id s)"
      proof (cases "s_id t = ?i")
        case True
        with t changed [OF t(1) True] kr [OF t(1) True] s0(4) show ?thesis by (auto simp: kept)
      next
        case False
        with t coveredD [OF fittingD(2) [OF I] t(1)] show ?thesis by simp
      qed
    qed
    show "s_municipality_id s \<in> ms" if "s \<in> set (map ?g ss)" for s
      using that changed fittingD(5) [OF I] by auto
    show "known_row ss0 shut (pre @ [op]) s" if "s \<in> set (map ?g ss)" "s_id s < sb" for s
    proof -
      from that obtain t where t: "t \<in> set ss" "s = ?g t" by auto
      with that(2) have "s_id t < sb" by (simp add: kept(1) split: if_splits)
      from fittingD(3) [OF I t(1) this] t(2) changed [OF t(1)] show ?thesis
        by (cases "s_id t = ?i") (auto simp: known_row_def kept)
    qed
    show "made_row mb sb (map ?g ss) op'" if "op' \<in> set (pre @ [op])" "is_create op'" for op'
    proof -
      from that op have "op' \<in> set pre" by auto
      from fittingD(4) [OF I this that(2)] obtain s where "s \<in> set ss" "s_id s = sb + c_new op'"
        "s_municipality_id s = id_of mb (c_municipality op')" "s_verification s = created_verification (c_verification op')"
        by (auto simp: made_row_def)
      with i show ?thesis by (auto simp: made_row_def)
    qed
  qed
  with known' rows show ?thesis by simp
qed

end
