(* ===== verification/Apply_Plan.thy ===== *)
theory Apply_Plan
  imports Apply_Schools
begin

text \<open>
  A plan meets what the applier needs: its closes, creates and changes fit the register
  (\<open>plan_ops_fit\<close>), its slugs have one school each (\<open>slug_triples_ok\<close>), and every id it names is a
  row. So \<open>apply_plan\<close> never panics on a plan of the same register while ids last, and every register
  built by runs keeps the database's rules.
\<close>

section \<open>The register and the plan\<close>

lemma register_snapshot_ok:
  assumes "register_ok snapshot"
  shows "snapshot_ok snapshot"
proof -
  let ?ss = "schools snapshot"
  have d: "distinct (map s_id ?ss)" "distinct (slug_keys ?ss)"
    using assms by (simp_all add: register_ok_def check_invariants_def)
  have "s = s'" if "s \<in> set ?ss" "s' \<in> set ?ss" "s_municipality_id s = s_municipality_id s'" "s_slug s \<noteq> None" "s_slug s = s_slug s'" for s s'
    using d(2) that unfolding slug_keys_alt distinct_map by (auto simp: inj_on_def)
  with d(1) show ?thesis unfolding snapshot_ok_def by blast
qed

lemma register_slugs_ok: "register_ok snapshot \<Longrightarrow> slugs_ok (schools snapshot)"
  by (auto simp: register_ok_def check_invariants_def slugs_ok_def list_all_iff)

lemma unit_of_school:
  assumes "distinct (map u_orgnr us)" "un \<in> set us" "un' \<in> set us"
    and "changeable snapshot state un s" "changeable snapshot state un' s"
  shows "un = un'"
  using assms by (auto simp: changeable_def distinct_map dest: inj_onD)

lemma plan_updates:
  fixes p :: "('id::linorder, 't, 'd) school_plan"
  assumes p: "plan_schools u j snapshot inp state = Some p"
    and op: "op \<in> set (spl_ops p)" "\<not> is_create op" "\<not> is_close op"
  obtains s un m where "update_op s un m op" "un \<in> set (in_units inp)" "changeable snapshot state un s"
    "\<not> gone_from_register un s" "resolve state (u_municipality_number un) = To m"
  using p
proof (rule plan_schools_ops)
  let ?so = "sort_units j snapshot inp state"
  fix placements closings faus reviews and creates uops :: "('id, 't, 'd) school_op list"
  assume ops: "spl_ops p = map close_op closings @ creates @ uops"
    and cr: "\<And>i. i < length creates \<Longrightarrow> create_for (so_candidates ?so) placements i (creates ! i)"
    and up: "\<And>op. op \<in> set uops \<Longrightarrow> updates_of (so_updates ?so) op"
  have "op \<notin> set (map close_op closings)" using op(3) by (auto simp: close_op_def is_close_def)
  moreover have "op \<notin> set creates"
  proof
    assume "op \<in> set creates"
    from create_for_nth [OF cr this] op(2) show False by (auto simp: create_for_def is_create_def)
  qed
  ultimately have "updates_of (so_updates ?so) op" using op ops up by auto
  then show thesis
  proof (rule updates_ofE)
    fix s un m assume sm: "(s, un, m) \<in> set (so_updates ?so)" "update_op s un m op"
    from sort_units_ok [of j inp snapshot state] sm(1)
    have "un \<in> set (in_units inp)" "changeable snapshot state un s" "\<not> gone_from_register un s"
      "resolve state (u_municipality_number un) = To m"
      unfolding sorting_ok_def by blast+
    with sm(2) show thesis by (rule that)
  qed
qed

lemma plan_shape:
  fixes p :: "('id::linorder, 't, 'd) school_plan"
  assumes p: "plan_schools u j snapshot inp state = Some p"
  obtains closes rest where "spl_ops p = closes @ rest" "\<forall>op\<in>set closes. is_close op" "\<forall>op\<in>set rest. \<not> is_close op"
  using p
proof (rule plan_schools_ops)
  let ?so = "sort_units j snapshot inp state"
  fix placements closings faus reviews and creates uops :: "('id, 't, 'd) school_op list"
  assume ops: "spl_ops p = map close_op closings @ creates @ uops"
    and cr: "\<And>i. i < length creates \<Longrightarrow> create_for (so_candidates ?so) placements i (creates ! i)"
    and up: "\<And>op. op \<in> set uops \<Longrightarrow> updates_of (so_updates ?so) op"
  have "\<not> is_close op" if "op \<in> set (creates @ uops)" for op
  proof (cases "op \<in> set creates")
    case True
    from create_for_nth [OF cr True] show ?thesis by (auto simp: create_for_def is_close_def)
  next
    case False
    with that have "op \<in> set uops" by simp
    from up [OF this] show ?thesis by (auto simp: updates_of_def update_op_def is_close_def)
  qed
  then show thesis by (intro that [OF ops]) (auto simp: close_op_def is_close_def)
qed

text \<open>Two changes of one school come from the same unit and resolve to the same municipality.\<close>

lemma update_op_same:
  assumes "snapshot_ok snapshot" "distinct (map u_orgnr us)"
    and "un \<in> set us" "changeable snapshot state un s" "resolve state (u_municipality_number un) = To m"
    and "un' \<in> set us" "changeable snapshot state un' s'" "resolve state (u_municipality_number un') = To m'"
    and "s_id s = s_id s'"
  shows "s = s' \<and> m = m'"
proof -
  have "s = s'" using snapshot_okD(1) [OF assms(1) _ _ assms(9)] assms(4,7) by (simp add: changeable_def)
  moreover from this have "un = un'" using unit_of_school [OF assms(2,3,6,4)] assms(7) by simp
  ultimately show ?thesis using assms(5,8) by simp
qed

lemma closed_not_changed:
  fixes p :: "('id::linorder, 't, 'd) school_plan"
  assumes "snapshot_ok snapshot" "distinct (map u_orgnr (in_units inp))"
    and p: "plan_schools u j snapshot inp state = Some p"
    and s: "un \<in> set (in_units inp)" "changeable snapshot state un s" "\<not> gone_from_register un s"
  shows "s_id s \<notin> closed_ids (spl_ops p)"
proof
  assume "s_id s \<in> closed_ids (spl_ops p)"
  then obtain r d sc where "Close (s_id s) r d sc \<in> set (spl_ops p)" by (auto simp: closed_ids_def)
  from plan_close [OF p this] obtain s' un' where s': "un' \<in> set (in_units inp)" "changeable snapshot state un' s'"
    "s_id s' = s_id s" "gone_from_register un' s'" by blast
  have "s' = s" using snapshot_okD(1) [OF assms(1) _ _ s'(3)] s(2) s'(2) by (simp add: changeable_def)
  with unit_of_school [OF assms(2) s(1) s'(1) s(2)] s' s(3) show False by simp
qed

section \<open>What the plan's operations keep to\<close>

text \<open>The holders of the numbers in use are rows of the register or new rows.\<close>

definition holders_known :: "nat \<Rightarrow> nat \<Rightarrow> nat set \<Rightarrow> nat municipality_state \<Rightarrow> bool" where
  "holders_known mb k ids state \<longleftrightarrow> (\<forall>x m. bt_get (by_number state) x = Some m \<longrightarrow>
     known_ref k m \<and> id_of mb m \<in> ids \<and> (\<forall>i. m = Existing i \<longrightarrow> i < mb))"

lemma holders_knownD:
  assumes "holders_known mb k ids state" "resolve state x = To m"
  shows "known_ref k m" "id_of mb m \<in> ids" "m = Existing i \<Longrightarrow> i < mb"
  using assms by (auto simp: holders_known_def resolve_def split: if_splits option.splits)

definition slug_triples :: "register \<Rightarrow> nat municipality_state \<Rightarrow> ('t, 'd) jiff \<Rightarrow> ('t, 'd) sync_inputs \<Rightarrow> (nat, 't, 'd) school_plan \<Rightarrow> nat triple set" where
  "slug_triples snapshot state j inp p =
     kept_triples snapshot (cg_school ` set (so_closings (sort_units j snapshot inp state))) \<union> all_gives snapshot (spl_ops p)"

lemma gives_in: "op \<in> set ops \<Longrightarrow> t \<in> gives snapshot op \<Longrightarrow> t \<in> all_gives snapshot ops"
  by (auto simp: all_gives_def)

lemma create_facts:
  fixes p :: "(nat, 't, 'd) school_plan"
  assumes "plan_schools u j snapshot inp state = Some p" "op \<in> set (spl_ops p)" "is_create op"
  shows "\<exists>un\<in>set (in_units inp). resolve state (u_municipality_number un) = To (c_municipality op)
    \<and> (c_verification op = Create_Held \<longrightarrow> c_slug op = None)"
  using plan_creates [OF assms(1)] assms(2,3) by auto

lemma plan_ops_fit:
  fixes p :: "(nat, 't, 'd) school_plan"
  assumes reg: "register_ok snapshot" and units: "distinct (map u_orgnr (in_units inp))"
    and p: "plan_schools u j snapshot inp state = Some p"
    and known: "holders_known mb k ids state"
    and rest: "set rest \<subseteq> set (spl_ops p)" "filter is_create rest = filter is_create (spl_ops p)" "\<forall>op\<in>set rest. \<not> is_close op"
  shows "ops_fit (schools snapshot) (closed_ids (spl_ops p)) k mb ids (slug_triples snapshot state j inp p)
    (length (filter is_create (spl_ops p))) rest"
proof -
  note ok = register_snapshot_ok [OF reg]
  let ?T = "slug_triples snapshot state j inp p"
  have give: "t \<in> ?T" if "op \<in> set rest" "t \<in> gives snapshot op" for op t
    using gives_in [of op "spl_ops p" t] that rest(1) by (auto simp: slug_triples_def)
  have upd: "\<exists>s un m. update_op s un m op \<and> un \<in> set (in_units inp) \<and> changeable snapshot state un s
      \<and> \<not> gone_from_register un s \<and> resolve state (u_municipality_number un) = To m"
    if "op \<in> set rest" "\<not> is_create op" for op
    using plan_updates [OF p, of op] that rest(1,3) by (metis subsetD)
  show ?thesis
    unfolding ops_fit_def
  proof (intro conjI ballI allI impI)
    show "map c_new (filter is_create rest) = [0..<length (filter is_create (spl_ops p))]"
      unfolding rest(2) using plan_creates [OF p] by (elim exE conjE) (simp only:)
    show "\<not> is_close op" if "op \<in> set rest" for op using that rest(3) by blast
  next
    fix op assume op: "op \<in> set rest" "is_create op"
    have "op \<in> set (spl_ops p)" using op(1) rest(1) by blast
    from create_facts [OF p this op(2)] obtain un where
      "un \<in> set (in_units inp)" and un: "resolve state (u_municipality_number un) = To (c_municipality op)" "c_verification op = Create_Held \<longrightarrow> c_slug op = None" by blast
    from holders_knownD [OF known un(1)] show "known_ref k (c_municipality op)" "id_of mb (c_municipality op) \<in> ids" by blast+
    fix sl assume sl: "c_slug op = Some sl"
    from op(2) sl have "(c_municipality op, sl, New (c_new op)) \<in> gives snapshot op" by (cases op) (auto simp: is_create_def)
    from give [OF op(1) this] show "(c_municipality op, sl, New (c_new op)) \<in> ?T" .
    show "c_verification op = Create_Listed" using un(2) sl by (cases "c_verification op") auto
  next
    fix op assume op: "op \<in> set rest" "\<not> is_create op"
    from upd [OF op] obtain s un m where s: "update_op s un m op" "un \<in> set (in_units inp)" "changeable snapshot state un s"
      "\<not> gone_from_register un s" by blast
    from s(1) have "s_id s = o_id op" by (auto simp: update_op_def)
    with closed_not_changed [OF ok units p s(2-4)] s(3)
    show "\<exists>s0\<in>set (schools snapshot). s_id s0 = o_id op \<and> s_id s0 \<notin> closed_ids (spl_ops p) \<and> s_verification s0 \<noteq> Held"
      by (intro bexI [of _ s]) (auto simp: changeable_def)
  next
    fix i reg' name c s0 assume r: "School_Rename i reg' name (Some c) \<in> set rest" "s0 \<in> set (schools snapshot)" "s_id s0 = i"
    show "(Existing (s_municipality_id s0), sc_new c, Existing i) \<in> ?T" by (rule give [OF r(1)]) (use r in auto)
  next
    fix i reg' name c source dest change assume r: "School_Rename i reg' name (Some c) \<in> set rest"
    from upd [OF r] obtain s un m where s: "update_op s un m (School_Rename i reg' name (Some c) :: (nat, 't, 'd) school_op)"
      "un \<in> set (in_units inp)" "changeable snapshot state un s" "resolve state (u_municipality_number un) = To m"
      by (auto simp: is_create_def)
    show "Move i source dest change \<notin> set rest"
    proof
      assume m: "Move i source dest change \<in> set rest"
      from upd [OF m] obtain s' un' m' where s': "update_op s' un' m' (Move i source dest change :: (nat, 't, 'd) school_op)"
        "un' \<in> set (in_units inp)" "changeable snapshot state un' s'" "resolve state (u_municipality_number un') = To m'"
        by (auto simp: is_create_def)
      have "s_id s = s_id s'" using s(1) s'(1) by (auto simp: update_op_def)
      from update_op_same [OF ok units s(2-4) s'(2-4) this] s(1) s'(1) show False by (auto simp: update_op_def)
    qed
  next
    fix i source dest change assume m: "Move i source dest change \<in> set rest"
    from upd [OF m] obtain s un where "un \<in> set (in_units inp)" and res: "resolve state (u_municipality_number un) = To dest"
      by (auto simp: is_create_def update_op_def)
    from holders_knownD [OF known res] show "known_ref k dest" "id_of mb dest \<in> ids" by blast+
  next
    fix i source dest c assume m: "Move i source dest (Some c) \<in> set rest"
    show "(dest, sc_new c, Existing i) \<in> ?T" by (rule give [OF m]) simp
  next
    fix i source dest assume m: "Move i source dest None \<in> set rest"
    from upd [OF m] obtain s un mm where s: "s_id s = i" "s_slug s = None" "changeable snapshot state un s"
      "un \<in> set (in_units inp)" "resolve state (u_municipality_number un) = To mm"
      by (auto simp: is_create_def update_op_def)
    show "s_slug s0 = None" if "s0 \<in> set (schools snapshot)" "s_id s0 = i" for s0
      using snapshot_okD(1) [OF ok that(1), of s] s that by (auto simp: changeable_def)
    fix source' dest' c
    show "Move i source' dest' (Some c) \<notin> set rest"
    proof
      assume m': "Move i source' dest' (Some c) \<in> set rest"
      from upd [OF m'] obtain s' un' where s': "s_id s' = i" "s_slug s' \<noteq> None" "changeable snapshot state un' s'" "un' \<in> set (in_units inp)"
        by (auto simp: is_create_def update_op_def)
      with s snapshot_okD(1) [OF ok, of s s'] show False by (auto simp: changeable_def)
    qed
  qed
qed

lemma slug_triples_ok:
  fixes p :: "(nat, 't, 'd) school_plan"
  assumes reg: "register_ok snapshot" and units: "distinct (map u_orgnr (in_units inp))"
    and p: "plan_schools u j snapshot inp state = Some p"
    and known: "holders_known mb k ids state"
    and base: "\<forall>m\<in>set (municipalities snapshot). ms_id m < mb"
  shows "triples_ok mb (slug_triples snapshot state j inp p)"
  unfolding triples_ok_def
proof (intro conjI allI impI)
  fix m sl h h' assume "(m, sl, h) \<in> slug_triples snapshot state j inp p" "(m, sl, h') \<in> slug_triples snapshot state j inp p"
  with plan_schools_holds [OF register_snapshot_ok [OF reg] units p] show "h = h'"
    unfolding slug_triples_def by (blast dest: book_holds_functional)
next
  have fk: "s_municipality_id s < mb" if "s \<in> set (schools snapshot)" for s
    using reg base that by (auto simp: register_ok_def)
  fix i sl h assume "(Existing i, sl, h) \<in> slug_triples snapshot state j inp p"
  then consider s where "s \<in> set (schools snapshot)" "i = s_municipality_id s"
    | op where "op \<in> set (spl_ops p)" "(Existing i, sl, h) \<in> gives snapshot op"
    by (auto simp: slug_triples_def kept_triples_def all_gives_def)
  then show "i < mb"
  proof cases
    case 1
    with fk show ?thesis by simp
  next
    case (2 op)
    show ?thesis
    proof (cases op)
      case (School_Create n m orgnr reg' name slug v sc attrs ch)
      with 2 create_facts [OF p 2(1)] holders_knownD(3) [OF known] show ?thesis
        by (auto simp: is_create_def split: option.splits)
    next
      case (School_Rename i' reg' name slug)
      with 2 fk show ?thesis by (auto split: option.splits)
    next
      case (Move i' source dest slug)
      have "\<not> is_create op" "\<not> is_close op" by (simp_all add: Move is_create_def is_close_def)
      from plan_updates [OF p 2(1) this] obtain s un m where
        "update_op s un m op" "resolve state (u_municipality_number un) = To m" by blast
      then have "resolve state (u_municipality_number un) = To dest" by (auto simp: Move update_op_def)
      with 2 Move holders_knownD(3) [OF known] show ?thesis by (auto split: option.splits)
    qed (use 2 in auto)
  qed
qed

section \<open>The school operations of a plan apply\<close>

lemma closed_ids_snoc: "is_close op \<Longrightarrow> closed_ids (ops @ [op]) = insert (o_id op) (closed_ids ops)"
  by (cases op) (auto simp: closed_ids_def is_close_def)

lemma closes_apply:
  fixes p :: "(nat, 't, 'd) school_plan"
  assumes reg: "register_ok snapshot" and p: "plan_schools u j snapshot inp state = Some p"
    and base: "\<forall>m\<in>set (municipalities snapshot). ms_id m < mb"
    and closes: "set closes \<subseteq> set (spl_ops p)" "\<forall>op\<in>set closes. is_close op" and towns: "towns_ok out"
  shows "\<exists>ss h'. foldM (school_step (ids_from mb k) (ids_from sb l))
      \<lparr>ap_out = with_schools out (schools snapshot) h, ap_pending = []\<rparr> closes
      = Some \<lparr>ap_out = with_schools out ss h', ap_pending = concat (map pending_of closes)\<rparr>
    \<and> closing_rows (schools snapshot) (closed_ids closes) ss"
proof -
  let ?rows = "schools snapshot"
  let ?I = "\<lambda>pre ss. closing_rows ?rows (closed_ids pre) ss"
  let ?T = "kept_triples snapshot {}"
  note ok = register_snapshot_ok [OF reg]
  have fk: "s_municipality_id s < mb" if "s \<in> set ?rows" for s
    using reg base that by (auto simp: register_ok_def)
  have T: "triples_ok mb ?T"
    unfolding triples_ok_def
  proof (intro conjI allI impI)
    fix m sl h h' assume "(m, sl, h) \<in> ?T" "(m, sl, h') \<in> ?T"
    then obtain s s' where s: "s \<in> set ?rows" "s' \<in> set ?rows" "m = Existing (s_municipality_id s)" "m = Existing (s_municipality_id s')"
      "s_slug s = Some sl" "s_slug s' = Some sl" "h = Existing (s_id s)" "h' = Existing (s_id s')"
      by (auto simp: kept_triples_def)
    from snapshot_okD(2) [OF ok s(1,2)] s(3-6) have "s = s'" by simp
    with s(7,8) show "h = h'" by simp
  qed (use fk in \<open>auto simp: kept_triples_def\<close>)
  have d0: "distinct (map s_id ?rows)" using ok by (simp add: snapshot_ok_def)
  have "(\<exists>h'. foldM (school_step (ids_from mb k) (ids_from sb l)) \<lparr>ap_out = with_schools out ?rows h, ap_pending = []\<rparr> closes
    = Some \<lparr>ap_out = with_schools out (foldl (rows_after mb sb) ?rows closes) h', ap_pending = [] @ concat (map pending_of closes)\<rparr>)
    \<and> ?I closes (foldl (rows_after mb sb) ?rows closes)"
  proof (rule school_steps [where I = ?I, OF _ _ towns])
    show "?I [] ?rows" using closing_rows_start by (simp add: closed_ids_def)
    fix pre op post assume split: "closes = pre @ op # post" and I: "?I pre (foldl (rows_after mb sb) ?rows pre)"
    let ?ss = "foldl (rows_after mb sb) ?rows pre"
    from split closes obtain i r d sc where op: "op = Close i r d sc" by (cases op) (auto simp: is_close_def)
    from split closes(1) have "Close i r d sc \<in> set (spl_ops p)" by (auto simp: op)
    from plan_close [OF p this] have "i \<in> set (map s_id ?rows)" by (auto simp: changeable_def)
    moreover have ids: "map s_id ?ss = map s_id ?rows" by (rule closing_rowsD(1) [OF I])
    ultimately have "op_known k l ?ss op" by (simp add: op flip: set_map)
    moreover have I': "?I (pre @ [op]) (rows_after mb sb ?ss op)"
      using closing_rows_step [OF I, of i mb sb r d sc] by (simp add: closed_ids_snoc is_close_def op)
    have "covered mb sb ?T (rows_after mb sb ?ss op)"
      by (rule closing_rows_covered [OF I' register_slugs_ok [OF reg]]) (auto simp: kept_triples_def)
    then have "slugs_ok (rows_after mb sb ?ss op)"
      by (rule covered_slugs_ok [OF _ T]) (use closing_rowsD(1) [OF I'] d0 in simp)
    ultimately show "distinct (map s_id ?ss) \<and> op_known k l ?ss op \<and> ?I (pre @ [op]) (rows_after mb sb ?ss op)
      \<and> slugs_ok (rows_after mb sb ?ss op)" using ids d0 I' by simp
  qed
  then show ?thesis by auto
qed

lemma fitting_start:
  assumes "closing_rows ss0 shut ss" "slugs_ok ss0" "\<And>s. s \<in> set ss0 \<Longrightarrow> s_municipality_id s \<in> ids"
    and "\<And>s sl. s \<in> set ss0 \<Longrightarrow> s_id s \<notin> shut \<Longrightarrow> s_slug s = Some sl \<Longrightarrow>
      (Existing (s_municipality_id s), sl, Existing (s_id s)) \<in> T"
  shows "fitting ss0 shut mb sb ids T [] ss"
  unfolding fitting_def
proof (intro conjI ballI impI)
  show "covered mb sb T ss" by (rule closing_rows_covered [OF assms(1,2,4)])
  show "s_municipality_id s \<in> ids" if "s \<in> set ss" for s
    using closing_rowsD(2) [OF assms(1) that] assms(3) by auto
  show "known_row ss0 shut [] s" if "s \<in> set ss" for s
    using closing_rowsD(2) [OF assms(1) that] by (auto simp: known_row_def)
qed (use closing_rowsD(1) [OF assms(1)] in simp_all)

lemma rest_applies:
  fixes rest :: "(nat, 't, 'd) school_op list"
  assumes fit: "ops_fit ss0 shut k mb ids T l rest" and T: "triples_ok mb T"
    and ids: "distinct (map s_id ss0)" "\<forall>s\<in>set ss0. s_id s < sb"
    and start: "fitting ss0 shut mb sb ids T ([] :: (nat, 't, 'd) school_op list) ss" and towns: "towns_ok out"
  shows "\<exists>ss' h'. foldM (school_step (ids_from mb k) (ids_from sb l)) \<lparr>ap_out = with_schools out ss h, ap_pending = p\<rparr> rest
      = Some \<lparr>ap_out = with_schools out ss' h', ap_pending = p\<rparr> \<and> fitting ss0 shut mb sb ids T rest ss'"
proof -
  let ?I = "\<lambda>pre ss. fitting ss0 shut mb sb ids T pre ss"
  have "(\<exists>h'. foldM (school_step (ids_from mb k) (ids_from sb l)) \<lparr>ap_out = with_schools out ss h, ap_pending = p\<rparr> rest
    = Some \<lparr>ap_out = with_schools out (foldl (rows_after mb sb) ss rest) h', ap_pending = p @ concat (map pending_of rest)\<rparr>)
    \<and> ?I rest (foldl (rows_after mb sb) ss rest)"
  proof (rule school_steps [where I = ?I, OF _ start towns])
    fix pre op post assume split: "rest = pre @ op # post" and I: "?I pre (foldl (rows_after mb sb) ss pre)"
    let ?ss = "foldl (rows_after mb sb) ss pre"
    have step: "?I (pre @ [op]) (rows_after mb sb ?ss op) \<and> op_known k l ?ss op"
    proof (cases "is_create op")
      case True
      from fitting_create [OF fit [unfolded split] I True ids(2)] show ?thesis .
    next
      case False
      from fitting_change [OF fit [unfolded split] I False ids(2,1)] show ?thesis .
    qed
    then have "slugs_ok (rows_after mb sb ?ss op)"
      by (intro covered_slugs_ok [OF _ T]) (auto dest: fittingD(2) fitting_ids [OF _ ids])
    with step fitting_ids [OF I ids]
    show "distinct (map s_id ?ss) \<and> op_known k l ?ss op \<and> ?I (pre @ [op]) (rows_after mb sb ?ss op)
      \<and> slugs_ok (rows_after mb sb ?ss op)" by simp
  qed
  moreover have "concat (map pending_of rest) = []"
  proof -
    have "pending_of op = []" if "op \<in> set rest" for op
      using ops_fitD(2) [OF fit that] by (cases op) (simp_all add: pending_of_def is_close_def)
    then show ?thesis by (simp add: concat_eq_Nil_conv)
  qed
  ultimately show ?thesis by auto
qed

section \<open>The successors\<close>

lemma moves_iff: "moves i op \<longleftrightarrow> (\<exists>source dest change. op = Move i source dest change)"
  by (cases op) (auto simp: moves_def)

lemma successor_resolves:
  assumes fit: "ops_fit ss0 shut k mb ids T l rest" and I: "fitting ss0 shut mb sb ids T rest ss"
    and ids: "distinct (map s_id ss0)" "\<forall>s\<in>set ss0. s_id s < sb"
    and i: "i \<in> shut" "s0 \<in> set ss0" "s_id s0 = i"
    and c: "op \<in> set rest" "is_create op" "c_new op = n" "c_municipality op = Existing (s_municipality_id s0)" "c_verification op = Create_Listed"
  shows "resolve_successor (ids_from sb l) (with_schools out ss h) m (i, New n) = Some (bt_insert i (sb + n) m)"
proof -
  note dist = fitting_ids [OF I ids]
  have "c_new op \<in> set (map c_new (filter is_create rest))" using c(1,2) by simp
  then have n: "n < l" unfolding ops_fitD(1) [OF fit] c(3) by simp
  have "i \<in> set (map s_id ss)" unfolding fittingD(1) [OF I] using i by auto
  then obtain s where s: "s \<in> set ss" "s_id s = i" by auto
  from fittingD(4) [OF I c(1,2)] obtain t where t: "t \<in> set ss" "s_id t = sb + n"
    "s_municipality_id t = s_municipality_id s0" "s_verification t = Listed"
    using c(3-5) by (auto simp: made_row_def)
  have "s_id s < sb" using s i ids(2) by auto
  from fittingD(3) [OF I s(1) this] obtain s' where s': "s' \<in> set ss0" "s_id s = s_id s'"
    "list_ex (moves i) rest \<or> s_municipality_id s = s_municipality_id s'" by (auto simp: known_row_def s(2))
  have "s' = s0" using s' s i(2,3) ids(1) unfolding distinct_map by (metis inj_onD)
  moreover have "\<not> list_ex (moves i) rest"
  proof
    assume "list_ex (moves i) rest"
    then obtain source dest change where mv: "Move i source dest change \<in> set rest"
      by (auto simp: list_ex_iff moves_iff)
    from ops_fitD(6) [OF fit mv] i(1) show False by (auto simp: is_create_def)
  qed
  ultimately have "s_municipality_id s = s_municipality_id t" using s' t(3) by simp
  moreover have "school_ref (with_schools out ss h) i = Some s" "school_ref (with_schools out ss h) (sb + n) = Some t"
    using school_ref_found [of "with_schools out ss h" s] school_ref_found [of "with_schools out ss h" t] dist s t by simp_all
  ultimately show ?thesis using n t(4) by (simp add: resolve_successor_def ids_from_def)
qed

lemma plan_merge:
  fixes p :: "(nat, 't, 'd) school_plan"
  assumes p: "plan_schools u j snapshot inp state = Some p" and op: "Close i r d (Some h) \<in> set (spl_ops p)"
  shows "\<exists>s\<in>set (schools snapshot). s_id s = i \<and> (\<exists>n. h = New n \<and> (\<exists>op\<in>set (spl_ops p). is_create op \<and> c_new op = n
    \<and> c_municipality op = Existing (s_municipality_id s) \<and> c_verification op = Create_Listed))"
proof -
  from plan_close [OF p op] obtain s un n orgnr name slug attrs changed where
    s: "changeable snapshot state un s" "s_id s = i" "un \<in> set (in_units inp)" "h = New n"
    and c: "School_Create n (Existing (s_municipality_id s)) orgnr name name slug Create_Listed True attrs changed \<in> set (spl_ops p)"
    by blast
  show ?thesis
    by (rule bexI [of _ s], intro conjI exI [of _ n], rule s(2), rule s(4), rule bexI [OF _ c])
      (use s(1) in \<open>simp_all add: is_create_def changeable_def\<close>)
qed

section \<open>The whole plan applies\<close>

lemma school_creates_Cons:
  "school_creates (op # ops) = (if is_create op then [c_new op] else []) @ school_creates ops"
  by (cases op) (simp_all add: school_creates_def is_create_def List.map_filter_simps)

lemma school_creates_numbers: "school_creates ops = map c_new (filter is_create ops)"
  by (induction ops) (simp_all add: school_creates_Cons, simp add: school_creates_def List.map_filter_simps)

lemma plan_creates_numbered:
  fixes p :: "(nat, 't, 'd) school_plan"
  assumes "plan_schools u j snapshot inp state = Some p"
  shows "school_creates (spl_ops p) = [0..<length (school_creates (spl_ops p))]"
  using plan_creates [OF assms] unfolding school_creates_numbers by (elim exE conjE) (simp only: length_map length_upt diff_zero)

lemma municipality_creates_numbered:
  assumes "plan_municipalities u snapshot inp = Some mp"
  shows "municipality_creates (mpl_ops mp) = [0..<length (municipality_creates (mpl_ops mp))]"
  using plan_municipalities_ops_aux [OF assms] unfolding municipality_creates_numbers by (rule conjunct2)

lemma assigned_ids:
  assumes "ns = [0..<k]" "next + k < 2 ^ 32"
  shows "\<exists>ids. assign_ids next ns = Some (ids, next + k) \<and> hm_collect ids = ids_from next k"
  using assms assign_ids_upt [of "next" "[0..<k]"] collect_ids [of k "next"]
  by (auto simp: ids_from_def)

lemma first_id_ok:
  assumes "register_ok snapshot" "first_id snapshot = Some base"
  shows "base_ok snapshot base"
  using assms first_id_bound [OF assms(2)] by (auto simp: base_ok_def)

lemma holders_of_rows:
  assumes rm: "rows_match rows base (bt_get (by_number state)) k ms" and "\<forall>m\<in>set rows. ms_id m < base"
  shows "holders_known base k (ms_id ` set ms) state"
  unfolding holders_known_def
proof (intro allI impI)
  fix x m assume m: "bt_get (by_number state) x = Some m"
  from rows_matchD(6) [OF rm m] have id: "id_of base m \<in> ms_id ` set ms" by force
  show "known_ref k m \<and> id_of base m \<in> ms_id ` set ms \<and> (\<forall>i. m = Existing i \<longrightarrow> i < base)"
  proof (cases m)
    case (Existing i)
    with rows_matchD(8) [OF rm m [unfolded Existing]] assms(2) id show ?thesis by (auto simp: known_ref_def)
  next
    case (New n)
    have "base + n \<in> set (map ms_id ms)" using id New by auto
    with assms(2) id New show ?thesis unfolding rows_matchD(1) [OF rm] by (auto simp: known_ref_def)
  qed
qed

lemma written_register_ok:
  assumes base: "base_ok snapshot base" and rm: "rows_match (municipalities snapshot) base g k ms"
    and fit: "fitting (schools snapshot) shut base sb (ms_id ` set ms) T rest ss"
    and T: "triples_ok base T" and sb: "base \<le> sb"
  shows "register_ok (with_schools (with_rows snapshot ms h) ss h')"
proof -
  have ids: "distinct (map s_id (schools snapshot))" "\<forall>s\<in>set (schools snapshot). s_id s < sb"
    using base sb by (auto simp: base_ok_def register_ok_def)
  note d = fitting_ids [OF fit ids]
  have "slugs_ok ss" by (rule covered_slugs_ok [OF fittingD(2) [OF fit] T d])
  moreover have "active_row = (\<lambda>m. ms_status m = Municipality_Active)" by (auto simp: active_row_def)
  with rows_match_checks [OF base_rows_ok [OF base] rm] have "towns_ok (with_rows snapshot ms h)"
    by (simp add: towns_ok_def)
  ultimately show ?thesis
    using d rows_match_ids [OF base_rows_ok [OF base] rm] fittingD(5) [OF fit] rows_matchD(2,3) [OF rm]
    by (simp add: register_ok_def check_schools)
qed

lemma known_row_mono:
  assumes "set pre \<subseteq> set ops" "known_row rows shut pre s"
  shows "known_row rows shut ops s"
  using assms unfolding known_row_def list_ex_iff by blast

lemma apply_plan_ok:
  fixes inp :: "('t, 'd::linorder) sync_inputs"
  assumes reg: "register_ok snapshot" and ret: "retired_stay snapshot inp"
    and planned: "plan_with u j snapshot inp brk = Some (Apply pln)"
    and first: "first_id snapshot = Some base"
    and k: "k = length (municipality_creates (p_municipality_ops pln))"
    and l: "l = length (school_creates (p_school_ops pln))" and room: "base + k + l < 2 ^ 32"
  shows "\<exists>out successors. apply_plan snapshot pln = Some (out, successors) \<and> register_ok out
    \<and> map ms_id (municipalities out) = map ms_id (municipalities snapshot) @ map ((+) base) [0..<k]
    \<and> map s_id (schools out) = map s_id (schools snapshot) @ map ((+) (base + k)) [0..<l]
    \<and> retired (municipalities out) \<subseteq> retired (municipalities snapshot)
    \<and> (\<forall>s\<in>set (schools out). s_id s < base + k \<longrightarrow>
          known_row (schools snapshot) (closed_ids (p_school_ops pln)) (p_school_ops pln) s)"
  using planned
proof (rule plan_applyE)
  let ?inp = "inp\<lparr>in_units := normalise_units (in_units inp)\<rparr>"
  fix mp :: "(nat, 'd) municipality_plan" and sp :: "(nat, 't, 'd) school_plan"
  assume mp: "plan_municipalities u snapshot ?inp = Some mp"
    and sp: "plan_schools u j snapshot ?inp (mpl_state mp) = Some sp"
    and ops: "p_municipality_ops pln = mpl_ops mp" "p_school_ops pln = spl_ops sp"
  let ?state = "mpl_state mp"
  note base = first_id_ok [OF reg first]
  have units: "distinct (map u_orgnr (in_units ?inp))" by (simp add: normalise_units_distinct)
  have ret': "retired_stay snapshot ?inp" using ret by (simp add: retired_stay_def numbers_written_def)
  have below: "\<forall>m\<in>set (municipalities snapshot). ms_id m < base" using base by (simp add: base_ok_def)
  from municipality_creates_numbered [OF mp] have mn: "municipality_creates (p_municipality_ops pln) = [0..<k]" by (simp add: ops k)
  from plan_creates_numbered [OF sp] have sn: "school_creates (p_school_ops pln) = [0..<l]" by (simp add: ops l)
  have l': "l = length (filter is_create (spl_ops sp))" by (simp add: l ops school_creates_numbers)
  from room have room': "base + k < 2 ^ 32" by simp
  from assigned_ids [OF mn room'] obtain mids where mids: "assign_ids base (municipality_creates (p_municipality_ops pln)) = Some (mids, base + k)"
    "hm_collect mids = ids_from base k" by blast
  from assigned_ids [OF sn room] obtain sids where sids: "assign_ids (base + k) (school_creates (p_school_ops pln)) = Some (sids, base + k + l)"
    "hm_collect sids = ids_from (base + k) l" by blast
  from plan_municipalities_apply [OF base ret' mp] obtain ms h where
    run: "foldM (municipality_step (\<lambda>n. Some (base + n))) snapshot (mpl_ops mp) = Some (with_rows snapshot ms h)"
    and rm: "rows_match (municipalities snapshot) base (bt_get (by_number ?state)) k ms" by (auto simp: k ops)
  have "foldM (municipality_step (ids_from base k)) snapshot (mpl_ops mp) = foldM (municipality_step (\<lambda>n. Some (base + n))) snapshot (mpl_ops mp)"
    by (rule municipality_step_cong) (use mn ops in \<open>simp add: ids_from_def\<close>)
  with run have run1: "foldM (municipality_step (ids_from base k)) snapshot (p_municipality_ops pln) = Some (with_rows snapshot ms h)"
    by (simp add: ops)
  let ?out1 = "with_rows snapshot ms h" and ?sb = "base + k" and ?ids = "ms_id ` set ms"
  let ?shut = "closed_ids (spl_ops sp)" and ?T = "slug_triples snapshot ?state j ?inp sp"
  have start: "with_schools ?out1 (schools snapshot) (school_slug_history snapshot) = ?out1"
    by (simp add: with_schools_def with_rows_def)
  have towns: "towns_ok ?out1"
    using checked_rows [OF base rm, of h] by (simp add: checked_def check_invariants_def towns_ok_def split: if_splits)
  note known = holders_of_rows [OF rm below]
  note T = slug_triples_ok [OF reg units sp known below]
  from sp show ?thesis
  proof (rule plan_shape)
    fix closes rest assume sops: "spl_ops sp = closes @ rest" and c: "\<forall>op\<in>set closes. is_close op" and r: "\<forall>op\<in>set rest. \<not> is_close op"
    have "filter is_create closes = []"
      using c by (auto simp: filter_empty_conv is_close_def is_create_def split: school_op.splits)
    then have creates: "filter is_create rest = filter is_create (spl_ops sp)" by (simp add: sops)
    have "closed_ids rest = {}" using r by (force simp: closed_ids_def is_close_def)
    then have shut: "closed_ids closes = ?shut" by (simp add: sops closed_ids_append)
    have fit: "ops_fit (schools snapshot) ?shut k base ?ids ?T l rest"
      unfolding l' by (rule plan_ops_fit [OF reg units sp known _ creates r]) (simp add: sops)
    have "\<exists>ss h1. foldM (school_step (ids_from base k) (ids_from ?sb l))
        \<lparr>ap_out = with_schools ?out1 (schools snapshot) (school_slug_history snapshot), ap_pending = []\<rparr> closes
        = Some \<lparr>ap_out = with_schools ?out1 ss h1, ap_pending = concat (map pending_of closes)\<rparr>
      \<and> closing_rows (schools snapshot) (closed_ids closes) ss"
      by (rule closes_apply [OF reg sp below _ c towns]) (simp add: sops)
    then obtain ss h1 where
      run2: "foldM (school_step (ids_from base k) (ids_from ?sb l)) \<lparr>ap_out = ?out1, ap_pending = []\<rparr> closes
        = Some \<lparr>ap_out = with_schools ?out1 ss h1, ap_pending = concat (map pending_of closes)\<rparr>"
      and cl: "closing_rows (schools snapshot) ?shut ss" unfolding start shut by blast
    have ids: "distinct (map s_id (schools snapshot))" "\<forall>s\<in>set (schools snapshot). s_id s < ?sb"
      using base by (auto simp: base_ok_def register_ok_def)
    have "fitting (schools snapshot) ?shut base ?sb ?ids ?T ([] :: (nat, 't, 'd) school_op list) ss"
    proof (rule fitting_start [OF cl register_slugs_ok [OF reg]])
      fix s assume s: "s \<in> set (schools snapshot)"
      with reg have "s_municipality_id s \<in> ms_id ` set (municipalities snapshot)" by (simp add: register_ok_def)
      then have "s_municipality_id s \<in> set (map ms_id ms)" unfolding rows_matchD(1) [OF rm] by simp
      then show "s_municipality_id s \<in> ?ids" by simp
      fix sl assume "s_id s \<notin> ?shut" "s_slug s = Some sl"
      with s plan_closed_ids [OF sp] show "(Existing (s_municipality_id s), sl, Existing (s_id s)) \<in> ?T"
        by (force simp: slug_triples_def kept_triples_def)
    qed
    from rest_applies [OF fit T ids this towns] obtain ss' h2 where
      run3: "foldM (school_step (ids_from base k) (ids_from ?sb l))
          \<lparr>ap_out = with_schools ?out1 ss h1, ap_pending = concat (map pending_of closes)\<rparr> rest
        = Some \<lparr>ap_out = with_schools ?out1 ss' h2, ap_pending = concat (map pending_of closes)\<rparr>"
      and I: "fitting (schools snapshot) ?shut base ?sb ?ids ?T rest ss'" by blast
    let ?out = "with_schools ?out1 ss' h2"
    have "\<exists>m. foldM (resolve_successor (ids_from ?sb l) ?out) [] (concat (map pending_of closes)) = Some m \<and> True"
    proof (rule foldM_total)
      fix m :: "(nat, nat) btree" and x assume "x \<in> set (concat (map pending_of closes))"
      then obtain op where op: "op \<in> set closes" "x \<in> set (pending_of op)" by auto
      with c obtain i rr d hh where cc: "Close i rr d (Some hh) \<in> set (spl_ops sp)" "x = (i, hh)"
        by (cases op) (auto simp: sops pending_of_def is_close_def split: option.splits)
      from plan_merge [OF sp cc(1)] obtain s n op' where s: "s \<in> set (schools snapshot)" "s_id s = i" "hh = New n"
        "op' \<in> set (spl_ops sp)" "is_create op'" "c_new op' = n" "c_municipality op' = Existing (s_municipality_id s)"
        "c_verification op' = Create_Listed" by blast
      have "op' \<in> set (filter is_create rest)" unfolding creates using s(4,5) by simp
      then have "op' \<in> set rest" by simp
      moreover have "i \<in> ?shut" using cc(1) by (auto simp: closed_ids_def)
      ultimately show "\<exists>m'. resolve_successor (ids_from ?sb l) ?out m x = Some m' \<and> True"
        using successor_resolves [OF fit I ids _ s(1,2) _ s(5-8)] by (auto simp: cc(2) s(3))
    qed simp
    then obtain succ where run4: "foldM (resolve_successor (ids_from ?sb l) ?out) [] (concat (map pending_of closes)) = Some succ" by blast
    have "foldM (school_step (ids_from base k) (ids_from ?sb l)) \<lparr>ap_out = ?out1, ap_pending = []\<rparr> (p_school_ops pln)
        = Some \<lparr>ap_out = ?out, ap_pending = concat (map pending_of closes)\<rparr>"
      by (simp add: ops sops foldM_append run2 run3)
    then have "apply_plan snapshot pln = Some (?out, succ)"
      by (simp add: apply_plan_def first mids sids run1 run4)
    moreover have "register_ok ?out" by (rule written_register_ok [OF base rm I T]) simp
    moreover have "map s_id (schools ?out) = map s_id (schools snapshot) @ map ((+) ?sb) [0..<l]"
      using fittingD(1) [OF I] by (simp add: creates l')
    moreover have "retired (municipalities ?out) \<subseteq> retired (municipalities snapshot)"
      using rows_matchD(7) [OF rm] by (auto simp: retired_def)
    moreover have "known_row (schools snapshot) ?shut (spl_ops sp) s" if "s \<in> set (schools ?out)" "s_id s < ?sb" for s
      using fittingD(3) [OF I, of s] that known_row_mono [of rest "spl_ops sp"] by (simp add: sops)
    ultimately show ?thesis using rows_matchD(1) [OF rm] by (auto simp: ops)
  qed
qed

text \<open>A successful run had the ids it needed.\<close>

lemma assign_ids_room:
  assumes "assign_ids next ns = Some (ids, rest)" "next < 2 ^ 32"
  shows "next + length ns < 2 ^ 32 \<and> rest = next + length ns"
  using assms
proof (induction ns arbitrary: "next" ids)
  case (Cons n ns)
  from Cons.prems(1) obtain next' ids' where i: "next_id next = Some next'" "assign_ids next' ns = Some (ids', rest)"
    by (auto split: option.splits)
  then have "next' = next + 1" "next' < 2 ^ 32" by (auto simp: next_id_def split: if_splits)
  with Cons.IH [OF i(2)] show ?case by simp
qed simp

lemma first_id_room: "first_id snapshot = Some base \<Longrightarrow> base < 2 ^ 32"
  by (auto simp: first_id_def next_id_def split: list.splits if_splits)

lemma apply_plan_room:
  assumes "apply_plan snapshot pln = Some (out, successors)"
  obtains base where "first_id snapshot = Some base"
    "base + length (municipality_creates (p_municipality_ops pln)) + length (school_creates (p_school_ops pln)) < 2 ^ 32"
proof -
  from assms obtain base mids b1 sids b2 where
    a: "first_id snapshot = Some base" "assign_ids base (municipality_creates (p_municipality_ops pln)) = Some (mids, b1)"
      "assign_ids b1 (school_creates (p_school_ops pln)) = Some (sids, b2)"
    by (auto simp: apply_plan_def split: option.splits prod.splits)
  from assign_ids_room [OF a(2) first_id_room [OF a(1)]] have b1: "b1 < 2 ^ 32"
    "b1 = base + length (municipality_creates (p_municipality_ops pln))" by auto
  with assign_ids_room [OF a(3) b1(1)] that [OF a(1)] show thesis by simp
qed

section \<open>Registers built by runs\<close>

text \<open>A register that starts empty and changes only by applying the plans of its runs.\<close>

definition empty_register :: register where
  "empty_register = \<lparr>municipalities = [], schools = [], school_orgnr_history = [],
     school_slug_history = [], municipality_slug_history = []\<rparr>"

inductive built :: "ucd \<Rightarrow> ('t, 'd::linorder) jiff \<Rightarrow> register \<Rightarrow> bool" for u j where
  built_empty: "built u j empty_register"
| built_run: "built u j snapshot \<Longrightarrow> plan_with u j snapshot inp brk = Some (Apply pln)
    \<Longrightarrow> apply_plan snapshot pln = Some (out, successors) \<Longrightarrow> built u j out"

lemma built_ok: "built u j out \<Longrightarrow> register_ok out \<and> retired (municipalities out) = {}"
proof (induction rule: built.induct)
  case built_empty
  show ?case by (simp add: empty_register_def register_ok_def check_invariants_def slug_keys_def List.map_filter_simps retired_def)
next
  case (built_run snapshot inp brk pln out successors)
  from built_run.hyps(3) obtain base where room: "first_id snapshot = Some base"
    "base + length (municipality_creates (p_municipality_ops pln)) + length (school_creates (p_school_ops pln)) < 2 ^ 32"
    by (rule apply_plan_room)
  from built_run.IH have "retired_stay snapshot inp" by (simp add: retired_stay_def)
  from apply_plan_ok [OF conjunct1 [OF built_run.IH] this built_run.hyps(2) room(1) refl refl room(2)]
    built_run.hyps(3) built_run.IH show ?case by auto
qed

end
