(* ===== verification/Samples.thy ===== *)
theory Samples
  imports Unicode_Text
begin

text \<open>
  Concrete tables for evaluating the model on Norwegian names: case folding and the alphabet for
  ASCII and the three extra letters of the alphabet, which is what the parameter \<open>ucd\<close> needs in the witnesses.
\<close>

definition sample_lower :: "nat \<Rightarrow> nat" where
  "sample_lower c = (if is_ascii_upper c \<or> c \<in> {197, 198, 216} then c + 32 else c)"

definition sample_ucd :: ucd where
  "sample_ucd =
     \<lparr>nfc = (\<lambda>s. s), nfkd = (\<lambda>s. s), is_combining_mark = (\<lambda>c. False),
      to_lowercase = map sample_lower,
      char_uppercase = (\<lambda>c. [if is_ascii_lower c \<or> c \<in> {229, 230, 248} then c - 32 else c]),
      is_alphanumeric = (\<lambda>c. is_ascii_alnum c \<or> c \<in> {197, 198, 216, 229, 230, 248}),
      is_lowercase = (\<lambda>c. is_ascii_lower c \<or> c \<in> {229, 230, 248})\<rparr>"

end
