(* ===== verification/Sync_Samples.thy ===== *)
theory Sync_Samples
  imports Plan_Facts Samples
begin

text \<open>
  A small register for the witnesses of the plan's properties: one municipality, an open school the
  source closes and re-registers under a new number, a school that is renamed, and a new school.
\<close>

definition no_address :: nsr_address where
  "no_address = \<lparr>na_street = None, na_postcode = None, na_post_town = None\<rparr>"

definition sample_unit :: "string \<Rightarrow> string \<Rightarrow> int nsr_unit" where
  "sample_unit orgnr name =
     \<lparr>u_orgnr = lit orgnr, u_name = lit name, u_municipality_number = lit ''3201'',
      u_is_school = True, u_is_active = True, u_is_primary_school = True, u_is_private = False,
      u_category_ids = [], u_nace = [(1, lit ''85.201'')], u_grade_from = Some 1,
      u_grade_to = Some 7, u_language = None, u_website = None,
      u_visiting = no_address, u_postal = no_address, u_closure = None, u_changed_at = None\<rparr>"

definition closed_unit :: "string \<Rightarrow> string \<Rightarrow> int nsr_unit" where
  "closed_unit orgnr name = (sample_unit orgnr name)
     \<lparr>u_is_active := False, u_closure := Some \<lparr>cl_code = lit ''F'', cl_at = Some 7\<rparr>\<rparr>"

definition sample_school :: "nat \<Rightarrow> string \<Rightarrow> string \<Rightarrow> string \<Rightarrow> nat school_snapshot" where
  "sample_school i orgnr name slug =
     \<lparr>s_id = i, s_municipality_id = 1, s_origin = Register, s_orgnr = Some (lit orgnr),
      s_register_name = Some (lit name), s_display_name = lit name, s_display_name_curated = False,
      s_slug = Some (lit slug), s_verification = Listed, s_status = School_Active, s_in_scope = True,
      s_scope_override = None, s_has_live_fau = False,
      s_attributes = attributes_from_unit (sample_unit orgnr name)\<rparr>"

definition sample_snapshot :: "nat register_snapshot" where
  "sample_snapshot =
     \<lparr>municipalities = [\<lparr>ms_id = 1, ms_number = lit ''3201'', ms_name = lit ''Baerum'',
        ms_official_name = Some (lit ''Baerum''), ms_county_number = lit ''32'', ms_county_name = lit ''Akershus'',
        ms_slug = lit ''3201-baerum'', ms_status = Municipality_Active, ms_source = Kartverket, ms_names = []\<rparr>],
      schools = [sample_school 10 ''974'' ''Hosle skole'' ''hosle-skole'',
        sample_school 11 ''975'' ''Jar skole'' ''jar-skole''],
      school_orgnr_history = [], school_slug_history = [], municipality_slug_history = []\<rparr>"

definition sample_inputs :: "run_kind \<Rightarrow> int nsr_unit list \<Rightarrow> (int, int) sync_inputs" where
  "sample_inputs kind units =
     \<lparr>in_municipalities = [\<lparr>mr_number = lit ''3201'', mr_norwegian_name = lit ''Asker'',
        mr_official_name = lit ''Asker'', mr_county_number = lit ''32'', mr_county_name = lit ''Akershus'', mr_names = []\<rparr>],
      in_code_changes = [], in_units = units, in_kind = kind, in_at = \<lparr>m_now = 0, m_today = 0\<rparr>\<rparr>"

definition sample_units :: "int nsr_unit list" where
  "sample_units = [closed_unit ''974'' ''Hosle skole'', sample_unit ''975'' ''Jar barneskole'',
     sample_unit ''980'' ''Hosle skole'', sample_unit ''981'' ''Jar skole'']"

definition sample_jiff :: "(int, int) jiff" where
  "sample_jiff = \<lparr>oslo_today = (\<lambda>t. t), date_to_string = (\<lambda>d. show_nat (nat d))\<rparr>"

definition sample_outcome :: "(nat, int, int) sync_outcome option" where
  "sample_outcome = plan_with sample_ucd sample_jiff sample_snapshot (sample_inputs Sync sample_units) Accept"

definition outcome_applies :: "(nat, int, int) sync_outcome option \<Rightarrow> bool" where
  "outcome_applies r = (case r of Some (Apply _) \<Rightarrow> True | _ \<Rightarrow> False)"

definition applied :: "(nat, int, int) sync_outcome option \<Rightarrow> (nat, int, int) sync_plan" where
  "applied r = (case r of Some (Apply p) \<Rightarrow> p
     | _ \<Rightarrow> \<lparr>p_municipality_ops = [], p_school_ops = [], p_reviews = [], p_counts = default_counts\<rparr>)"

lemma applied_eq: "outcome_applies r \<Longrightarrow> r = Some (Apply (applied r))"
  by (auto simp: outcome_applies_def applied_def split: option.splits sync_outcome.splits)

definition sample_plan :: "(nat, int, int) sync_plan" where
  "sample_plan = applied sample_outcome"

text \<open>What the witnesses need of the plan, evaluated once.\<close>

definition sample_plan_shows :: "(nat, int, int) sync_plan \<Rightarrow> bool" where
  "sample_plan_shows p \<longleftrightarrow>
     (Existing 1, lit ''hosle-skole'', New 0) \<in> all_gives sample_snapshot (p_school_ops p)
     \<and> Close 10 Merged 7 (Some (New 0)) \<in> set (p_school_ops p)
     \<and> list_ex (\<lambda>op. \<not> is_create op \<and> \<not> is_close op \<and> o_id op = 11) (p_school_ops p)
     \<and> length (filter is_create (p_school_ops p)) = 2 \<and> length (p_municipality_ops p) = 2"

definition shown :: "((nat, int, int) sync_plan \<Rightarrow> bool) \<Rightarrow> (nat, int, int) sync_outcome option \<Rightarrow> bool" where
  "shown P r = (case r of Some (Apply p) \<Rightarrow> P p | _ \<Rightarrow> False)"

lemma shownD: "shown P r \<Longrightarrow> r = Some (Apply (applied r)) \<and> P (applied r)"
  by (auto simp: shown_def applied_def split: option.splits sync_outcome.splits)

lemma sample_shown: "shown sample_plan_shows sample_outcome"
  by code_simp

lemma sample_planned:
  "plan_with sample_ucd sample_jiff sample_snapshot (sample_inputs Sync sample_units) Accept = Some (Apply sample_plan)"
  using shownD [OF sample_shown] unfolding sample_plan_def by (simp only: sample_outcome_def)

lemma sample_plan_facts:
  "(Existing 1, lit ''hosle-skole'', New 0) \<in> all_gives sample_snapshot (p_school_ops sample_plan)"
  "Close 10 Merged 7 (Some (New 0)) \<in> set (p_school_ops sample_plan)"
  "\<exists>op\<in>set (p_school_ops sample_plan). \<not> is_create op \<and> \<not> is_close op \<and> o_id op = 11"
  "length (filter is_create (p_school_ops sample_plan)) = 2" "length (p_municipality_ops sample_plan) = 2"
  using shownD [OF sample_shown] unfolding sample_plan_def sample_plan_shows_def list_ex_iff by blast+

text \<open>A quieter run, which the breaker lets through.\<close>

definition quiet_units :: "int nsr_unit list" where
  "quiet_units = [sample_unit ''974'' ''Hosle skole'', sample_unit ''975'' ''Jar skole'', sample_unit ''980'' ''Jar skole'']"

definition quiet_outcome :: "(nat, int, int) sync_outcome option" where
  "quiet_outcome = plan sample_ucd sample_jiff sample_snapshot (sample_inputs Sync quiet_units)"

definition quiet_plan :: "(nat, int, int) sync_plan" where
  "quiet_plan = applied quiet_outcome"

lemma quiet_shown: "shown (\<lambda>p. p_school_ops p \<noteq> []) quiet_outcome"
  by code_simp

lemma quiet_planned:
  "plan sample_ucd sample_jiff sample_snapshot (sample_inputs Sync quiet_units) = Some (Apply quiet_plan)"
  "p_school_ops quiet_plan \<noteq> []"
  using shownD [OF quiet_shown] unfolding quiet_plan_def by (simp_all only: quiet_outcome_def simp_thms)

end
