(* ===== verification/Apply_Properties.thy ===== *)
theory Apply_Properties
  imports Apply_Plan Sync_Samples
begin

text \<open>
  Properties of planning and applying together: the applier accepts every plan of the register it
  was made for, leaves what the plan does not name alone, and keeps the database's rules over any
  number of runs.
\<close>

section \<open>A seeded register\<close>

text \<open>The register after the first run on an empty one, and after a second run.\<close>

definition seed_units :: "int nsr_unit list" where
  "seed_units = [sample_unit ''974'' ''Hosle skole'', sample_unit ''975'' ''Jar skole'']"

definition seed_plan :: "(nat, int, int) sync_plan" where
  "seed_plan = applied (plan_with sample_ucd sample_jiff empty_register (sample_inputs Seed seed_units) Accept)"

definition applied_register :: "(register \<times> (nat, nat) btree) option \<Rightarrow> register" where
  "applied_register r = (case r of Some (out, _) \<Rightarrow> out | None \<Rightarrow> empty_register)"

definition seeded :: register where
  "seeded = \<lparr>municipalities = [\<lparr>ms_id = 1, ms_number = lit ''3201'', ms_name = lit ''Asker'',
        ms_official_name = Some (lit ''Asker''), ms_county_number = lit ''32'', ms_county_name = lit ''Akershus'',
        ms_slug = lit ''3201-asker'', ms_status = Municipality_Active, ms_source = Kartverket, ms_names = []\<rparr>],
      schools = [sample_school 2 ''974'' ''Hosle skole'' ''hosle-skole'', sample_school 3 ''975'' ''Jar skole'' ''jar-skole''],
      school_orgnr_history = [], school_slug_history = [], municipality_slug_history = []\<rparr>"

definition second_plan :: "(nat, int, int) sync_plan" where
  "second_plan = applied (plan_with sample_ucd sample_jiff seeded (sample_inputs Sync sample_units) Accept)"

definition resynced :: register where
  "resynced = applied_register (apply_plan seeded second_plan)"

lemma applied_register_eq: "r \<noteq> None \<Longrightarrow> \<exists>successors. r = Some (applied_register r, successors)"
  by (auto simp: applied_register_def)

lemma seed_planned: "plan_with sample_ucd sample_jiff empty_register (sample_inputs Seed seed_units) Accept = Some (Apply seed_plan)"
proof -
  have "outcome_applies (plan_with sample_ucd sample_jiff empty_register (sample_inputs Seed seed_units) Accept)" by code_simp
  from applied_eq [OF this] show ?thesis unfolding seed_plan_def .
qed

lemma seed_applied: "\<exists>successors. apply_plan empty_register seed_plan = Some (seeded, successors)"
proof -
  have "apply_plan empty_register seed_plan = Some (seeded, [])" by code_simp
  then show ?thesis by blast
qed

lemma second_planned: "plan_with sample_ucd sample_jiff seeded (sample_inputs Sync sample_units) Accept = Some (Apply second_plan)"
proof -
  have "outcome_applies (plan_with sample_ucd sample_jiff seeded (sample_inputs Sync sample_units) Accept)" by code_simp
  from applied_eq [OF this] show ?thesis unfolding second_plan_def .
qed

lemma second_applied: "\<exists>successors. apply_plan seeded second_plan = Some (resynced, successors)"
proof -
  have "apply_plan seeded second_plan \<noteq> None" by code_simp
  from applied_register_eq [OF this] show ?thesis unfolding resynced_def .
qed

text \<open>What the witnesses use of the two registers and the second plan, evaluated once.\<close>

lemma seeded_facts:
  "register_ok seeded" "retired_stay seeded (sample_inputs Sync sample_units)" "first_id seeded = Some 4"
  "s_id (hd (schools seeded)) = 2" "s_verification (hd (schools seeded)) = Listed"
  "s_municipality_id (hd (schools seeded)) = 1" "hd (schools seeded) \<in> set (schools seeded)"
  by code_simp+

definition second_plan_facts :: "(nat, int, int) sync_plan \<Rightarrow> bool" where
  "second_plan_facts p \<longleftrightarrow> municipality_creates (p_municipality_ops p) = [] \<and> school_creates (p_school_ops p) = [0, 1]
     \<and> list_all (\<lambda>op. \<not> moves 2 op \<and> \<not> reslugs 2 op) (p_school_ops p)
     \<and> list_ex (\<lambda>op. is_close op \<and> o_id op = 2) (p_school_ops p)"

lemma second_plan_facts: "second_plan_facts second_plan"
  by code_simp

lemma seeded_built: "built sample_ucd sample_jiff seeded"
  using seed_applied built_run [OF built_empty seed_planned] by blast

lemma closed_ids_ex: "i \<in> closed_ids ops \<longleftrightarrow> list_ex (\<lambda>op. is_close op \<and> o_id op = i) ops"
proof -
  have "is_close op \<and> o_id op = i \<longleftrightarrow> (\<exists>r d s. op = Close i r d s)" for op :: "('a, 'b, 'c) school_op"
    by (cases op) (auto simp: is_close_def)
  then show ?thesis by (auto simp: closed_ids_def list_ex_iff)
qed

section \<open>Applying a plan\<close>

text \<open>C2 plans_are_applied: the applier accepts every plan made for its register while row ids last,
  provided no source uses the number of a dissolved municipality again. No lookup misses, no
  uniqueness rule of the database fails between two operations, every successor is a listed school in
  its predecessor's municipality, and the result keeps the rules, with the new rows numbered after the old.\<close>

theorem plans_are_applied:
  fixes inp :: "('t, 'd::linorder) sync_inputs"
  assumes "register_ok snapshot" and "retired_stay snapshot inp"
    and "plan_with u j snapshot inp brk = Some (Apply pln)" and "first_id snapshot = Some base"
    and "base + length (municipality_creates (p_municipality_ops pln)) + length (school_creates (p_school_ops pln)) < 2 ^ 32"
  shows "\<exists>out successors. apply_plan snapshot pln = Some (out, successors)
    \<and> check_invariants out \<and> distinct (map s_id (schools out)) \<and> distinct (map ms_id (municipalities out))
    \<and> s_municipality_id ` set (schools out) \<subseteq> ms_id ` set (municipalities out)
    \<and> map ms_id (municipalities out) = map ms_id (municipalities snapshot)
        @ [base..<base + length (municipality_creates (p_municipality_ops pln))]
    \<and> map s_id (schools out) = map s_id (schools snapshot)
        @ map ((+) (base + length (municipality_creates (p_municipality_ops pln)))) (school_creates (p_school_ops pln))"
proof -
  from assms(3) have numbers: "school_creates (p_school_ops pln) = [0..<length (school_creates (p_school_ops pln))]"
    by (rule plan_applyE) (use plan_creates_numbered in metis)
  from apply_plan_ok [OF assms(1-4) refl refl assms(5)] obtain out successors where
    o': "apply_plan snapshot pln = Some (out, successors)" "register_ok out"
      "map ms_id (municipalities out) = map ms_id (municipalities snapshot)
        @ map ((+) base) [0..<length (municipality_creates (p_municipality_ops pln))]"
      "map s_id (schools out) = map s_id (schools snapshot)
        @ map ((+) (base + length (municipality_creates (p_municipality_ops pln)))) [0..<length (school_creates (p_school_ops pln))]"
    by blast
  have "map ((+) base) [0..<n] = [base..<base + n]" for n by (induction n) simp_all
  with o' numbers show ?thesis by (auto simp: register_ok_def)
qed

theorem plans_are_applied_witness:
  "\<exists>out successors. apply_plan seeded second_plan = Some (out, successors)
    \<and> check_invariants out \<and> map s_id (schools out) = [2, 3, 4, 5]"
proof -
  have "municipality_creates (p_municipality_ops second_plan) = []" "school_creates (p_school_ops second_plan) = [0, 1]"
    using second_plan_facts by (simp_all add: second_plan_facts_def)
  moreover have "map s_id (schools seeded) = [2, 3]" by code_simp
  ultimately show ?thesis
    using plans_are_applied [OF seeded_facts(1,2) second_planned seeded_facts(3)] by force
qed

text \<open>C9 applying_keeps_other_rows: an applied plan keeps every school row, under its id and
  verification. A school is in another municipality only if the plan moves it, and has another slug
  only if the plan closes, renames or moves it; a closed school has no slug.\<close>

theorem applying_keeps_other_rows:
  fixes inp :: "('t, 'd::linorder) sync_inputs"
  assumes "register_ok snapshot" and "retired_stay snapshot inp"
    and "plan_with u j snapshot inp brk = Some (Apply pln)"
    and "apply_plan snapshot pln = Some (out, successors)" and "s0 \<in> set (schools snapshot)"
  shows "\<exists>s\<in>set (schools out). s_id s = s_id s0 \<and> s_verification s = s_verification s0
    \<and> (s_municipality_id s = s_municipality_id s0
        \<or> (\<exists>source dest change. Move (s_id s0) source dest change \<in> set (p_school_ops pln)))
    \<and> (s_slug s = (if s_id s0 \<in> closed_ids (p_school_ops pln) then None else s_slug s0)
        \<or> (\<exists>op\<in>set (p_school_ops pln). reslugs (s_id s0) op))"
proof -
  from assms(4) obtain base where room: "first_id snapshot = Some base"
    "base + length (municipality_creates (p_municipality_ops pln)) + length (school_creates (p_school_ops pln)) < 2 ^ 32"
    by (rule apply_plan_room)
  let ?k = "length (municipality_creates (p_municipality_ops pln))"
  from apply_plan_ok [OF assms(1-3) room(1) refl refl room(2)] assms(4) have
    ids: "map s_id (schools out) = map s_id (schools snapshot) @ map ((+) (base + ?k)) [0..<length (school_creates (p_school_ops pln))]"
    and rows: "\<And>s. s \<in> set (schools out) \<Longrightarrow> s_id s < base + ?k \<Longrightarrow>
      known_row (schools snapshot) (closed_ids (p_school_ops pln)) (p_school_ops pln) s" by auto
  have "s_id s0 \<in> set (map s_id (schools out))" unfolding ids using assms(5) by simp
  then obtain s where s: "s \<in> set (schools out)" "s_id s = s_id s0" by auto
  have "s_id s < base + ?k" using first_id_bound [OF room(1)] assms(5) s(2) by auto
  from rows [OF s(1) this] obtain s' where s': "s' \<in> set (schools snapshot)" "s_id s = s_id s'" "s_verification s = s_verification s'"
    "list_ex (moves (s_id s)) (p_school_ops pln) \<or> s_municipality_id s = s_municipality_id s'"
    "list_ex (reslugs (s_id s)) (p_school_ops pln) \<or> s_slug s = (if s_id s' \<in> closed_ids (p_school_ops pln) then None else s_slug s')"
    unfolding known_row_def by blast
  have "s' = s0" using snapshot_okD(1) [OF register_snapshot_ok [OF assms(1)] s'(1) assms(5)] s'(2) s(2) by simp
  with s s' show ?thesis by (intro bexI [OF _ s(1)]) (auto simp: list_ex_iff moves_iff)
qed

theorem applying_keeps_other_rows_witness:
  "\<exists>s\<in>set (schools resynced). s_id s = 2 \<and> s_verification s = Listed \<and> s_slug s = None \<and> s_municipality_id s = 1"
proof -
  let ?ops = "p_school_ops second_plan"
  note facts = second_plan_facts [unfolded second_plan_facts_def]
  have closed: "2 \<in> closed_ids ?ops" using facts unfolding closed_ids_ex by blast
  have still: "\<not> (\<exists>source dest change. Move 2 source dest change \<in> set ?ops)" "\<not> (\<exists>op\<in>set ?ops. reslugs 2 op)"
    using facts unfolding list_all_iff moves_iff by blast+
  from second_applied obtain successors where "apply_plan seeded second_plan = Some (resynced, successors)" by blast
  from applying_keeps_other_rows [OF seeded_facts(1,2) second_planned this seeded_facts(7), unfolded seeded_facts(4-6)]
    closed still show ?thesis by (simp only: if_True simp_thms) blast
qed

section \<open>Any number of runs\<close>

text \<open>C3 built_registers_keep_the_rules: a register that starts empty and changes only by applying
  the plans of its runs keeps the database's uniqueness rules, has one row per id, and every school is
  in a municipality of the register.\<close>

theorem built_registers_keep_the_rules:
  assumes "built u j out"
  shows "check_invariants out \<and> distinct (map s_id (schools out)) \<and> distinct (map ms_id (municipalities out))
    \<and> s_municipality_id ` set (schools out) \<subseteq> ms_id ` set (municipalities out)
    \<and> list_all (\<lambda>m. ms_status m = Municipality_Active) (municipalities out)"
  using built_ok [OF assms] by (auto simp: register_ok_def retired_def active_row_def list_all_iff)

theorem built_registers_keep_the_rules_witness:
  "check_invariants resynced \<and> length (schools resynced) = 4"
proof -
  from second_applied built_run [OF seeded_built second_planned] have "built sample_ucd sample_jiff resynced" by blast
  moreover have "length (schools resynced) = 4" by code_simp
  ultimately show ?thesis using built_registers_keep_the_rules by blast
qed

text \<open>C4 the_next_run_goes_through: on a register built by runs, every plan the next run returns is
  applied while row ids last, and gives a register built by runs again.\<close>

theorem the_next_run_goes_through:
  fixes inp :: "('t, 'd::linorder) sync_inputs"
  assumes "built u j snapshot" and "plan_with u j snapshot inp brk = Some (Apply pln)"
    and "\<exists>base. first_id snapshot = Some base \<and>
      base + length (municipality_creates (p_municipality_ops pln)) + length (school_creates (p_school_ops pln)) < 2 ^ 32"
  shows "\<exists>out successors. apply_plan snapshot pln = Some (out, successors) \<and> built u j out"
proof -
  from assms(3) obtain base where room: "first_id snapshot = Some base"
    "base + length (municipality_creates (p_municipality_ops pln)) + length (school_creates (p_school_ops pln)) < 2 ^ 32" by blast
  from built_ok [OF assms(1)] have "register_ok snapshot" "retired_stay snapshot inp" by (simp_all add: retired_stay_def)
  from apply_plan_ok [OF this assms(2) room(1) refl refl room(2)] built_run [OF assms(1,2)] show ?thesis by blast
qed

theorem the_next_run_goes_through_witness:
  "\<exists>out successors. apply_plan seeded second_plan = Some (out, successors) \<and> built sample_ucd sample_jiff out"
proof -
  have "first_id seeded = Some 4" "municipality_creates (p_municipality_ops second_plan) = []"
    "length (school_creates (p_school_ops second_plan)) = 2"
    using second_plan_facts seeded_facts(3) by (simp_all add: second_plan_facts_def)
  then show ?thesis by (intro the_next_run_goes_through [OF seeded_built second_planned]) simp
qed

end
