(* ===== verification/Access.thy ===== *)
theory Access
  imports Fau_Prelude
begin

text \<open>
  \<open>membership/period.rs\<close> and \<open>membership/access.rs\<close>: half-open periods and the rights they
  give. Dates are any linear order \<open>'d\<close>. The interface \<open>dated_right\<close> is what an assignment
  and a handover grant have in common; the coverage argument behind
  \<open>removal_leaves_no_admin\<close> is proved once inside it.
\<close>

section \<open>Periods\<close>

record 'd period =
  starts_on :: 'd
  ends_on_exclusive :: 'd

datatype empty_period = Empty_Period

definition period_new :: "'d::linorder \<Rightarrow> 'd \<Rightarrow> (empty_period, 'd period) result" where
  "period_new s e = (if s < e then Inr \<lparr>starts_on = s, ends_on_exclusive = e\<rparr> else Inl Empty_Period)"

definition period_contains :: "'d::linorder period \<Rightarrow> 'd \<Rightarrow> bool" where
  "period_contains p day = (starts_on p \<le> day \<and> day < ends_on_exclusive p)"

definition has_ended_by :: "'d::linorder period \<Rightarrow> 'd \<Rightarrow> bool" where
  "has_ended_by p day = (ends_on_exclusive p \<le> day)"

text \<open>The invariant \<open>Period::new\<close> establishes: its fields are private, so every period has it.\<close>

definition period_ok :: "'d::linorder period \<Rightarrow> bool" where
  "period_ok p = (starts_on p < ends_on_exclusive p)"

lemma period_new_ok: "period_new s e = Inr p \<Longrightarrow> period_ok p \<and> starts_on p = s \<and> ends_on_exclusive p = e"
  by (auto simp: period_new_def period_ok_def split: if_splits)

lemma period_ended: "has_ended_by p day \<Longrightarrow> day \<le> d \<Longrightarrow> \<not> period_contains p d"
  by (auto simp: has_ended_by_def period_contains_def)

section \<open>Capabilities\<close>

datatype capability = No_Capability | Guest | Member | Admin

fun capability_rank :: "capability \<Rightarrow> nat" where
  "capability_rank No_Capability = 0"
| "capability_rank Guest = 1"
| "capability_rank Member = 2"
| "capability_rank Admin = 3"

instantiation capability :: linorder
begin

definition less_eq_capability :: "capability \<Rightarrow> capability \<Rightarrow> bool" where
  "less_eq_capability a b = (capability_rank a \<le> capability_rank b)"

definition less_capability :: "capability \<Rightarrow> capability \<Rightarrow> bool" where
  "less_capability a b = (capability_rank a < capability_rank b)"

instance
proof
  fix x y :: capability
  show "x \<le> y \<Longrightarrow> y \<le> x \<Longrightarrow> x = y"
    by (cases x; cases y) (simp_all add: less_eq_capability_def)
qed (auto simp: less_eq_capability_def less_capability_def)

end

lemma No_Capability_least [simp]: "No_Capability \<le> c"
  by (simp add: less_eq_capability_def)

lemma capability_le_None [simp]: "c \<le> No_Capability \<longleftrightarrow> c = No_Capability"
  by (cases c) (simp_all add: less_eq_capability_def)

lemma Admin_greatest [simp]: "c \<le> Admin" and Admin_le [simp]: "Admin \<le> c \<longleftrightarrow> c = Admin"
  by (cases c; simp add: less_eq_capability_def)+

section \<open>Rows\<close>

datatype capability_class = Member_Class | Admin_Class | Guest_Class

record 'd assignment_view =
  as_capability :: capability_class
  as_period :: "'d period"
  as_revoked :: bool

definition assignment_valid_on :: "'d::linorder assignment_view \<Rightarrow> 'd \<Rightarrow> bool" where
  "assignment_valid_on a day = (\<not> as_revoked a \<and> period_contains (as_period a) day)"

record 'd grant_view =
  gr_period :: "'d period"
  gr_revoked :: bool

definition grant_valid_on :: "'d::linorder grant_view \<Rightarrow> 'd \<Rightarrow> bool" where
  "grant_valid_on g day = (\<not> gr_revoked g \<and> period_contains (gr_period g) day)"

record standing =
  tenant_active :: bool
  account_usable :: bool
  membership_active :: bool

record 'd access =
  ac_capability :: capability
  ac_handover :: bool
  ac_next_start :: "'d option"

definition access_none :: "'d access" where
  "access_none = \<lparr>ac_capability = No_Capability, ac_handover = False, ac_next_start = None\<rparr>"

fun class_capability :: "capability_class \<Rightarrow> capability" where
  "class_capability Guest_Class = Guest"
| "class_capability Member_Class = Member"
| "class_capability Admin_Class = Admin"

text \<open>\<open>Iterator::max\<close> and \<open>min\<close>.\<close>

fun max_opt :: "'a::linorder list \<Rightarrow> 'a option" where
  "max_opt [] = None"
| "max_opt (x # xs) = Some (foldl max x xs)"

fun min_opt :: "'a::linorder list \<Rightarrow> 'a option" where
  "min_opt [] = None"
| "min_opt (x # xs) = Some (foldl min x xs)"

definition evaluate_access ::
  "standing \<Rightarrow> 'd::linorder assignment_view list \<Rightarrow> 'd grant_view list \<Rightarrow> 'd \<Rightarrow> 'd access" where
  "evaluate_access st assignments grants today =
     (if \<not> (tenant_active st \<and> account_usable st \<and> membership_active st) then access_none
      else
        let cap = unwrap_or (max_opt (map (\<lambda>a. class_capability (as_capability a))
              (filter (\<lambda>a. assignment_valid_on a today) assignments))) No_Capability;
            handover = list_ex (\<lambda>g. grant_valid_on g today) grants;
            next_start = (if cap = No_Capability
              then min_opt (map (\<lambda>a. starts_on (as_period a))
                (filter (\<lambda>a. \<not> as_revoked a \<and> today < starts_on (as_period a)) assignments))
              else None)
        in \<lparr>ac_capability = cap, ac_handover = handover, ac_next_start = next_start\<rparr>)"

definition tenant_has_admin ::
  "'d::linorder assignment_view list \<Rightarrow> 'd grant_view list \<Rightarrow> 'd \<Rightarrow> bool" where
  "tenant_has_admin assignments grants today =
     (list_ex (\<lambda>a. as_capability a = Admin_Class \<and> assignment_valid_on a today) assignments \<or>
      list_ex (\<lambda>g. grant_valid_on g today) grants)"

text \<open>The loop over the removed periods of \<open>removal_leaves_no_admin\<close>.\<close>

fun leaves_gap :: "('d::linorder \<Rightarrow> bool) \<Rightarrow> 'd list \<Rightarrow> 'd \<Rightarrow> 'd period list \<Rightarrow> bool" where
  "leaves_gap covered remaining_ends today [] = False"
| "leaves_gap covered remaining_ends today (p # ps) =
     (if has_ended_by p today then leaves_gap covered remaining_ends today ps
      else
        let first = max (starts_on p) today
        in if \<not> covered first then True
           else if list_ex (\<lambda>e. first < e \<and> e < ends_on_exclusive p \<and> \<not> covered e) remaining_ends then True
           else leaves_gap covered remaining_ends today ps)"

definition admin_periods :: "'d assignment_view list \<Rightarrow> 'd grant_view list \<Rightarrow> 'd period list" where
  "admin_periods assignments grants =
     map as_period (filter (\<lambda>a. \<not> as_revoked a \<and> as_capability a = Admin_Class) assignments)
     @ map gr_period (filter (\<lambda>g. \<not> gr_revoked g) grants)"

definition removal_leaves_no_admin ::
  "'d::linorder assignment_view list \<Rightarrow> 'd grant_view list \<Rightarrow> 'd assignment_view list \<Rightarrow> 'd grant_view list
     \<Rightarrow> 'd \<Rightarrow> bool" where
  "removal_leaves_no_admin remaining_assignments remaining_grants removed_assignments removed_grants today =
     leaves_gap (tenant_has_admin remaining_assignments remaining_grants)
       (map ends_on_exclusive (admin_periods remaining_assignments remaining_grants)) today
       (admin_periods removed_assignments removed_grants)"

section \<open>The interface of a dated right\<close>

locale dated_right =
  fixes live :: "'r \<Rightarrow> bool"
    and span :: "'r \<Rightarrow> 'd::linorder period"
    and valid_on :: "'r \<Rightarrow> 'd \<Rightarrow> bool"
  assumes valid_on_iff: "valid_on r d \<longleftrightarrow> live r \<and> period_contains (span r) d"
begin

lemma revoked_never_valid: "\<not> live r \<Longrightarrow> \<not> valid_on r d"
  by (simp add: valid_on_iff)

lemma not_valid_at_end: "\<not> valid_on r (ends_on_exclusive (span r))"
  by (simp add: valid_on_iff period_contains_def)

text \<open>Validity is convex: between two valid days every day is valid.\<close>

lemma valid_between: "valid_on r a \<Longrightarrow> valid_on r c \<Longrightarrow> a \<le> b \<Longrightarrow> b \<le> c \<Longrightarrow> valid_on r b"
  by (auto simp: valid_on_iff period_contains_def)

text \<open>Coverage by a list of rights can only drop where a live one ends.\<close>

lemma coverage_drops_at_an_end:
  assumes "\<exists>r\<in>set rs. valid_on r a" "a \<le> d" "\<not> (\<exists>r\<in>set rs. valid_on r d)"
  shows "\<exists>r\<in>set rs. live r \<and> a < ends_on_exclusive (span r) \<and> ends_on_exclusive (span r) \<le> d
    \<and> \<not> (\<exists>q\<in>set rs. valid_on q (ends_on_exclusive (span r)))"
proof -
  let ?E = "{e \<in> (ends_on_exclusive \<circ> span) ` {r \<in> set rs. live r}. a < e \<and> e \<le> d}"
  obtain r0 where r0: "r0 \<in> set rs" "live r0" "starts_on (span r0) \<le> a" "a < ends_on_exclusive (span r0)"
    using assms(1) by (auto simp: valid_on_iff period_contains_def)
  with assms(2,3) have "ends_on_exclusive (span r0) \<le> d"
    by (force simp: valid_on_iff period_contains_def)
  with r0 have ne: "?E \<noteq> {}" by auto
  define e where "e = Max ?E"
  have "e \<in> ?E" unfolding e_def using ne by (intro Max_in) auto
  then obtain r where r: "r \<in> set rs" "live r" "e = ends_on_exclusive (span r)" "a < e" "e \<le> d"
    by auto
  have "\<not> valid_on q e" if q: "q \<in> set rs" for q
  proof
    assume v: "valid_on q e"
    then have live: "live q" "starts_on (span q) \<le> e" "e < ends_on_exclusive (span q)"
      by (auto simp: valid_on_iff period_contains_def)
    with q r assms(3) have "ends_on_exclusive (span q) \<le> d"
      by (force simp: valid_on_iff period_contains_def)
    with live q r have "ends_on_exclusive (span q) \<in> ?E" by auto
    then have "ends_on_exclusive (span q) \<le> e" unfolding e_def by (intro Max_ge) auto
    with live show False by simp
  qed
  with r show ?thesis by blast
qed

end

interpretation assignment: dated_right "\<lambda>a. \<not> as_revoked a" as_period assignment_valid_on
  by unfold_locales (simp add: assignment_valid_on_def)

interpretation grant: dated_right "\<lambda>g. \<not> gr_revoked g" gr_period grant_valid_on
  by unfold_locales (simp add: grant_valid_on_def)

text \<open>Admin-class assignments and grants together, as \<open>tenant_has_admin\<close> reads them: once the
  filter has run, only the period is left.\<close>

interpretation admin_period: dated_right "\<lambda>p. True" "\<lambda>p. p" period_contains
  by unfold_locales simp

section \<open>Facts\<close>

lemma foldl_max: "foldl max (x::'a::linorder) xs = Max (set (x # xs))"
proof -
  have "(\<lambda>x s. max s x) = (max :: 'a \<Rightarrow> 'a \<Rightarrow> 'a)" by (simp add: fun_eq_iff max.commute)
  then show ?thesis unfolding Max.set_eq_fold foldl_conv_fold by simp
qed

lemma foldl_min: "foldl min (x::'a::linorder) xs = Min (set (x # xs))"
proof -
  have "(\<lambda>x s. min s x) = (min :: 'a \<Rightarrow> 'a \<Rightarrow> 'a)" by (simp add: fun_eq_iff min.commute)
  then show ?thesis unfolding Min.set_eq_fold foldl_conv_fold by simp
qed

lemma max_opt_Some: "max_opt xs = Some m \<longleftrightarrow> m \<in> set xs \<and> (\<forall>x\<in>set xs. x \<le> m)"
proof (cases xs)
  case (Cons y ys)
  then show ?thesis
    by (simp add: foldl_max del: List.set_simps Max_insert) (metis Max_eq_iff List.finite_set empty_iff list.set_intros(1))
qed simp

lemma max_opt_None [simp]: "max_opt xs = None \<longleftrightarrow> xs = []"
  by (cases xs) auto

lemma min_opt_Some: "min_opt xs = Some m \<longleftrightarrow> m \<in> set xs \<and> (\<forall>x\<in>set xs. m \<le> x)"
proof (cases xs)
  case (Cons y ys)
  then show ?thesis
    by (simp add: foldl_min del: List.set_simps Min_insert) (metis Min_eq_iff List.finite_set empty_iff list.set_intros(1))
qed simp

lemma min_opt_None [simp]: "min_opt xs = None \<longleftrightarrow> xs = []"
  by (cases xs) auto

lemma class_capability_not_None [simp]: "class_capability c \<noteq> No_Capability"
  by (cases c) auto

lemma capability_reached:
  "c \<le> ac_capability (evaluate_access st assignments grants today) \<longleftrightarrow> c = No_Capability \<or>
     (tenant_active st \<and> account_usable st \<and> membership_active st
      \<and> (\<exists>a\<in>set assignments. assignment_valid_on a today \<and> c \<le> class_capability (as_capability a)))"
proof (cases "tenant_active st \<and> account_usable st \<and> membership_active st")
  case True
  let ?caps = "map (\<lambda>a. class_capability (as_capability a)) (filter (\<lambda>a. assignment_valid_on a today) assignments)"
  have cap: "ac_capability (evaluate_access st assignments grants today) = unwrap_or (max_opt ?caps) No_Capability"
    using True by (simp add: evaluate_access_def Let_def)
  have "c \<le> unwrap_or (max_opt ?caps) No_Capability \<longleftrightarrow> c = No_Capability \<or> (\<exists>x\<in>set ?caps. c \<le> x)"
  proof (cases "max_opt ?caps")
    case (Some m)
    then have "m \<in> set ?caps" "\<forall>x\<in>set ?caps. x \<le> m" by (auto simp: max_opt_Some)
    then have "c \<le> m \<longleftrightarrow> c = No_Capability \<or> (\<exists>x\<in>set ?caps. c \<le> x)"
      using No_Capability_least order_trans by blast
    with Some show ?thesis by simp
  next
    case None
    then have "?caps = []" by simp
    with None show ?thesis by simp
  qed
  with True show ?thesis by (auto simp: cap)
qed (auto simp: evaluate_access_def access_none_def)

lemma tenant_has_admin_periods:
  "tenant_has_admin as gs d \<longleftrightarrow> (\<exists>p\<in>set (admin_periods as gs). period_contains p d)"
  by (auto simp: tenant_has_admin_def admin_periods_def list_ex_iff assignment_valid_on_def grant_valid_on_def)

lemma leaves_gap_iff:
  "leaves_gap covered ends today ps \<longleftrightarrow>
     (\<exists>p\<in>set ps. \<not> has_ended_by p today \<and>
        (\<not> covered (max (starts_on p) today) \<or>
         (\<exists>e\<in>set ends. max (starts_on p) today < e \<and> e < ends_on_exclusive p \<and> \<not> covered e)))"
  by (induction ps) (auto simp: Let_def list_ex_iff)

text \<open>One removed period: the two tests find a gap exactly when there is one.\<close>

lemma gap_in_period:
  fixes p :: "'d::linorder period"
  assumes ok: "period_ok p" and live: "\<not> has_ended_by p today"
    and covered: "\<And>d. covered d \<longleftrightarrow> (\<exists>q\<in>set qs. period_contains q d)"
  shows "(\<not> covered (max (starts_on p) today) \<or>
      (\<exists>e\<in>set (map ends_on_exclusive qs). max (starts_on p) today < e \<and> e < ends_on_exclusive p \<and> \<not> covered e))
    \<longleftrightarrow> (\<exists>d\<ge>today. period_contains p d \<and> \<not> covered d)" (is "?tests \<longleftrightarrow> ?gap")
proof
  assume ?tests
  then show ?gap
  proof
    assume "\<not> covered (max (starts_on p) today)"
    then show ?gap using ok live
      by (intro exI [of _ "max (starts_on p) today"])
        (auto simp: period_ok_def has_ended_by_def period_contains_def)
  next
    assume "\<exists>e\<in>set (map ends_on_exclusive qs). max (starts_on p) today < e \<and> e < ends_on_exclusive p \<and> \<not> covered e"
    then obtain e where "max (starts_on p) today < e" "e < ends_on_exclusive p" "\<not> covered e" by blast
    then show ?gap by (intro exI [of _ e]) (auto simp: period_contains_def)
  qed
next
  assume ?gap
  then obtain d where d: "today \<le> d" "period_contains p d" "\<not> covered d" by blast
  let ?first = "max (starts_on p) today"
  show ?tests
  proof (cases "covered ?first")
    case True
    have "?first \<le> d" using d by (auto simp: period_contains_def)
    from admin_period.coverage_drops_at_an_end [of qs ?first d] True this d(3)
    obtain q where "q \<in> set qs" "?first < ends_on_exclusive q" "ends_on_exclusive q \<le> d"
      "\<not> covered (ends_on_exclusive q)"
      unfolding covered by blast
    with d show ?thesis by (auto simp: period_contains_def)
  qed simp
qed

text \<open>The two families of days the safeguard tests stand for every day from today on.\<close>

lemma removal_leaves_gap:
  assumes "\<forall>p\<in>set (admin_periods removed_assignments removed_grants). period_ok p"
  shows "removal_leaves_no_admin remaining_assignments remaining_grants removed_assignments removed_grants today
    \<longleftrightarrow> (\<exists>d\<ge>today. (\<exists>p\<in>set (admin_periods removed_assignments removed_grants). period_contains p d)
          \<and> \<not> tenant_has_admin remaining_assignments remaining_grants d)"
proof -
  let ?covered = "tenant_has_admin remaining_assignments remaining_grants"
  let ?ends = "map ends_on_exclusive (admin_periods remaining_assignments remaining_grants)"
  have one: "(\<not> ?covered (max (starts_on p) today) \<or>
      (\<exists>e\<in>set ?ends. max (starts_on p) today < e \<and> e < ends_on_exclusive p \<and> \<not> ?covered e))
    \<longleftrightarrow> (\<exists>d\<ge>today. period_contains p d \<and> \<not> ?covered d)"
    if "p \<in> set (admin_periods removed_assignments removed_grants)" "\<not> has_ended_by p today" for p
    by (rule gap_in_period) (use that assms in \<open>auto simp: tenant_has_admin_periods\<close>)
  have ended: "\<not> (\<exists>d\<ge>today. period_contains p d \<and> \<not> ?covered d)" if "has_ended_by p today" for p
    using period_ended [OF that] by blast
  show ?thesis
    unfolding removal_leaves_no_admin_def leaves_gap_iff using one ended by blast
qed

end
