(* ===== verification/Vocabulary.thy ===== *)
theory Vocabulary
  imports Access
begin

text \<open>
  \<open>membership/vocabulary.rs\<close>, and the enum decoders of \<open>persistence/register/sql.rs\<close>'s kind:
  closed sets of values with their codes. The macro \<open>codes!\<close> generates \<open>ALL\<close>, \<open>code\<close> and
  \<open>from_code\<close> for seven enums; the locale \<open>coded\<close> is its contract, interpreted for each.
\<close>

section \<open>The contract of a coded enum\<close>

text \<open>The generated \<open>match\<close>: the first variant whose code is the string, else \<open>None\<close>.\<close>

definition decode :: "'a list \<Rightarrow> ('a \<Rightarrow> 'c) \<Rightarrow> 'c \<Rightarrow> 'a option" where
  "decode all code c = List.find (\<lambda>v. code v = c) all"

locale coded =
  fixes all :: "'a list"
    and code :: "'a \<Rightarrow> 'c"
    and from_code :: "'c \<Rightarrow> 'a option"
  assumes all_listed: "v \<in> set all"
    and codes_distinct: "distinct (map code all)"
    and from_code_decode: "from_code c = decode all code c"
begin

lemma code_inject: "code a = code b \<longleftrightarrow> a = b"
proof -
  from codes_distinct have "inj_on code (set all)" by (simp add: distinct_map)
  from inj_on_eq_iff [OF this all_listed all_listed] show ?thesis .
qed

lemma from_code_Some: "from_code c = Some v \<longleftrightarrow> code v = c"
proof
  assume "from_code c = Some v"
  then show "code v = c"
    unfolding from_code_decode decode_def by (blast dest: find_SomeD)
next
  assume c: "code v = c"
  show "from_code c = Some v"
  proof (cases "from_code c")
    case None
    then show ?thesis
      using c all_listed [of v] unfolding from_code_decode decode_def by (blast dest: find_NoneD)
  next
    case (Some w)
    then have "code w = c"
      unfolding from_code_decode decode_def by (blast dest: find_SomeD)
    with c have "code w = code v" by simp
    with Some show ?thesis by (simp only: code_inject)
  qed
qed

lemma round_trip: "from_code (code v) = Some v"
  by (simp add: from_code_Some)

lemma from_code_None: "from_code c = None \<longleftrightarrow> c \<notin> code ` UNIV"
proof
  assume "from_code c = None"
  then show "c \<notin> code ` UNIV" using round_trip by auto
next
  assume "c \<notin> code ` UNIV"
  then have "from_code c \<noteq> Some v" for v using from_code_Some [of c v] by blast
  then show "from_code c = None" by (cases "from_code c") auto
qed

end

section \<open>The enums\<close>

datatype tenant_status = Tenant_Pending | Tenant_Active | Tenant_Closed
datatype invitation_mode = Normal | Activation | Handover | Recovery
datatype request_kind = Access_Request | Replacement
datatype request_status = Request_Pending | Approved | Declined | Withdrawn | Lapsed
datatype recovery_holder = Ewb | School_Rep
datatype visibility = Visible_Open | Visible_Closed

fun capability_class_code :: "capability_class \<Rightarrow> str" where
  "capability_class_code Member_Class = lit ''member''"
| "capability_class_code Admin_Class = lit ''admin''"
| "capability_class_code Guest_Class = lit ''guest''"

definition capability_class_from :: "str \<Rightarrow> capability_class option" where
  "capability_class_from = decode [Member_Class, Admin_Class, Guest_Class] capability_class_code"

fun visibility_code :: "visibility \<Rightarrow> str" where
  "visibility_code Visible_Open = lit ''open''"
| "visibility_code Visible_Closed = lit ''closed''"

definition visibility_from :: "str \<Rightarrow> visibility option" where
  "visibility_from = decode [Visible_Open, Visible_Closed] visibility_code"

fun tenant_status_code :: "tenant_status \<Rightarrow> str" where
  "tenant_status_code Tenant_Pending = lit ''pending''"
| "tenant_status_code Tenant_Active = lit ''active''"
| "tenant_status_code Tenant_Closed = lit ''closed''"

definition tenant_status_from :: "str \<Rightarrow> tenant_status option" where
  "tenant_status_from = decode [Tenant_Pending, Tenant_Active, Tenant_Closed] tenant_status_code"

fun invitation_mode_code :: "invitation_mode \<Rightarrow> str" where
  "invitation_mode_code Normal = lit ''normal''"
| "invitation_mode_code Activation = lit ''activation''"
| "invitation_mode_code Handover = lit ''handover''"
| "invitation_mode_code Recovery = lit ''recovery''"

definition invitation_mode_from :: "str \<Rightarrow> invitation_mode option" where
  "invitation_mode_from = decode [Normal, Activation, Handover, Recovery] invitation_mode_code"

fun request_kind_code :: "request_kind \<Rightarrow> str" where
  "request_kind_code Access_Request = lit ''access''"
| "request_kind_code Replacement = lit ''replacement''"

definition request_kind_from :: "str \<Rightarrow> request_kind option" where
  "request_kind_from = decode [Access_Request, Replacement] request_kind_code"

fun request_status_code :: "request_status \<Rightarrow> str" where
  "request_status_code Request_Pending = lit ''pending''"
| "request_status_code Approved = lit ''approved''"
| "request_status_code Declined = lit ''declined''"
| "request_status_code Withdrawn = lit ''withdrawn''"
| "request_status_code Lapsed = lit ''lapsed''"

definition request_status_from :: "str \<Rightarrow> request_status option" where
  "request_status_from = decode [Request_Pending, Approved, Declined, Withdrawn, Lapsed] request_status_code"

fun recovery_holder_code :: "recovery_holder \<Rightarrow> str" where
  "recovery_holder_code Ewb = lit ''ewb''"
| "recovery_holder_code School_Rep = lit ''school_rep''"

definition recovery_holder_from :: "str \<Rightarrow> recovery_holder option" where
  "recovery_holder_from = decode [Ewb, School_Rep] recovery_holder_code"

interpretation capability_class: coded "[Member_Class, Admin_Class, Guest_Class]" capability_class_code capability_class_from
proof
  show "v \<in> set [Member_Class, Admin_Class, Guest_Class]" for v by (cases v) simp_all
qed (simp_all add: capability_class_from_def)

interpretation visibility: coded "[Visible_Open, Visible_Closed]" visibility_code visibility_from
proof
  show "v \<in> set [Visible_Open, Visible_Closed]" for v by (cases v) simp_all
qed (simp_all add: visibility_from_def)

interpretation tenant_status: coded "[Tenant_Pending, Tenant_Active, Tenant_Closed]" tenant_status_code tenant_status_from
proof
  show "v \<in> set [Tenant_Pending, Tenant_Active, Tenant_Closed]" for v by (cases v) simp_all
qed (simp_all add: tenant_status_from_def)

interpretation invitation_mode: coded "[Normal, Activation, Handover, Recovery]" invitation_mode_code invitation_mode_from
proof
  show "v \<in> set [Normal, Activation, Handover, Recovery]" for v by (cases v) simp_all
qed (simp_all add: invitation_mode_from_def)

interpretation request_kind: coded "[Access_Request, Replacement]" request_kind_code request_kind_from
proof
  show "v \<in> set [Access_Request, Replacement]" for v by (cases v) simp_all
qed (simp_all add: request_kind_from_def)

interpretation request_status: coded "[Request_Pending, Approved, Declined, Withdrawn, Lapsed]" request_status_code request_status_from
proof
  show "v \<in> set [Request_Pending, Approved, Declined, Withdrawn, Lapsed]" for v by (cases v) simp_all
qed (simp_all add: request_status_from_def)

interpretation recovery_holder: coded "[Ewb, School_Rep]" recovery_holder_code recovery_holder_from
proof
  show "v \<in> set [Ewb, School_Rep]" for v by (cases v) simp_all
qed (simp_all add: recovery_holder_from_def)

section \<open>Names\<close>

datatype name_error = Name_Empty | Name_Too_Long | Control_Character

definition validate_name :: "str \<Rightarrow> nat \<Rightarrow> (name_error, str) result" where
  "validate_name raw max_chars =
     (let s = trim raw
      in if s = [] then Inl Name_Empty
         else if max_chars < length s then Inl Name_Too_Long
         else if list_ex is_control s then Inl Control_Character
         else Inr s)"

text \<open>The newtypes: the only constructor of each is its \<open>parse\<close>.\<close>

datatype role_name = Role_Name (role_name_str: str)
datatype fau_name = Fau_Name (fau_name_str: str)
datatype group_name = Group_Name (group_name_str: str)
datatype display_name = Display_Name (display_name_str: str)

definition role_name_parse :: "str \<Rightarrow> (name_error, role_name) result" where
  "role_name_parse raw = map_sum id Role_Name (validate_name raw 100)"

definition fau_name_parse :: "str \<Rightarrow> (name_error, fau_name) result" where
  "fau_name_parse raw = map_sum id Fau_Name (validate_name raw 200)"

definition group_name_parse :: "str \<Rightarrow> (name_error, group_name) result" where
  "group_name_parse raw = map_sum id Group_Name (validate_name raw 100)"

definition display_name_parse :: "str \<Rightarrow> (name_error, display_name) result" where
  "display_name_parse raw = map_sum id Display_Name (validate_name raw 100)"

lemma validate_name_Inr:
  "validate_name raw n = Inr s \<longleftrightarrow>
     s = trim raw \<and> s \<noteq> [] \<and> length s \<le> n \<and> (\<forall>c\<in>set s. \<not> is_control c)"
  by (auto simp: validate_name_def Let_def list_ex_iff split: if_splits)

text \<open>A validated name validates again, to itself.\<close>

lemma validate_name_stable: "validate_name raw n = Inr s \<Longrightarrow> n \<le> m \<Longrightarrow> validate_name s m = Inr s"
  by (auto simp: validate_name_Inr)

end
