(* ===== verification/Membership_Rules.thy ===== *)
theory Membership_Rules
  imports Vocabulary
begin

text \<open>
  \<open>membership/rules.rs\<close>, \<open>retention.rs\<close> and \<open>requests.rs\<close>. Calendar arithmetic is \<open>jiff\<close>'s: the record \<open>calendar\<close> is the parameter.
\<close>

section \<open>The calendar\<close>

record ('d, 't) calendar =
  add_months_checked :: "'d \<Rightarrow> int \<Rightarrow> 'd option"
  sub_months_checked :: "'d \<Rightarrow> int \<Rightarrow> 'd option"
  sub_days_checked :: "'d \<Rightarrow> int \<Rightarrow> 'd option"
  make_date :: "int \<Rightarrow> int \<Rightarrow> int \<Rightarrow> 'd option"
  date_year :: "'d \<Rightarrow> int"
  date_min :: 'd
  date_max :: 'd
  add_hours_checked :: "'t \<Rightarrow> int \<Rightarrow> 't option"
  timestamp_max :: 't

section \<open>\<open>rules.rs\<close>\<close>

definition handover_months :: int where "handover_months = 6"
definition admin_end_min_months :: int where "admin_end_min_months = 1"
definition admin_end_max_months :: int where "admin_end_max_months = 24"
definition admin_end_default_lead_months :: int where "admin_end_default_lead_months = 3"
definition pending_signup_days :: int where "pending_signup_days = 7"
definition invitation_days :: int where "invitation_days = 14"
definition recent_holder_months :: int where "recent_holder_months = 24"

definition add_months :: "('d, 't) calendar \<Rightarrow> 'd \<Rightarrow> int \<Rightarrow> 'd" where
  "add_months cal day months = unwrap_or (add_months_checked cal day months) (date_max cal)"

definition handover_boundary :: "('d, 't) calendar \<Rightarrow> 'd \<Rightarrow> 'd" where
  "handover_boundary cal admin_end = add_months cal admin_end handover_months"

definition handover_period :: "('d::linorder, 't) calendar \<Rightarrow> 'd \<Rightarrow> 'd period option" where
  "handover_period cal admin_end = ok_opt (period_new admin_end (handover_boundary cal admin_end))"

definition default_admin_end :: "('d::linorder, 't) calendar \<Rightarrow> 'd \<Rightarrow> 'd" where
  "default_admin_end cal today =
     (let earliest = add_months cal today admin_end_default_lead_months;
          this_year = unwrap_or (make_date cal (date_year cal earliest) 10 1) (date_max cal)
      in if earliest \<le> this_year then this_year
         else unwrap_or (make_date cal (date_year cal earliest + 1) 10 1) (date_max cal))"

datatype admin_end_error = Too_Soon | Too_Late

definition validate_admin_end :: "('d::linorder, 't) calendar \<Rightarrow> 'd \<Rightarrow> 'd \<Rightarrow> (admin_end_error, unit) result" where
  "validate_admin_end cal today admin_end =
     (if admin_end < add_months cal today admin_end_min_months then Inl Too_Soon
      else if add_months cal today admin_end_max_months < admin_end then Inl Too_Late
      else Inr ())"

definition pending_signup_expiry :: "('d, 't) calendar \<Rightarrow> 't \<Rightarrow> 't" where
  "pending_signup_expiry cal now = unwrap_or (add_hours_checked cal now (24 * pending_signup_days)) (timestamp_max cal)"

definition invitation_expiry :: "('d, 't) calendar \<Rightarrow> 't \<Rightarrow> 't" where
  "invitation_expiry cal now = unwrap_or (add_hours_checked cal now (24 * invitation_days)) (timestamp_max cal)"

definition recent_holder_window_start :: "('d, 't) calendar \<Rightarrow> 'd \<Rightarrow> 'd" where
  "recent_holder_window_start cal today = unwrap_or (sub_months_checked cal today recent_holder_months) (date_min cal)"

section \<open>\<open>retention.rs\<close>\<close>

datatype retention_months = No_Months | Three | Six | Twelve | Twenty_Four

definition all_retention_months :: "retention_months list" where
  "all_retention_months = [No_Months, Three, Six, Twelve, Twenty_Four]"

fun months_of :: "retention_months \<Rightarrow> int" where
  "months_of No_Months = 0"
| "months_of Three = 3"
| "months_of Six = 6"
| "months_of Twelve = 12"
| "months_of Twenty_Four = 24"

definition from_months :: "int \<Rightarrow> retention_months option" where
  "from_months n = List.find (\<lambda>v. months_of v = n) all_retention_months"

definition retained_until :: "('d, 't) calendar \<Rightarrow> 'd \<Rightarrow> retention_months \<Rightarrow> 'd option" where
  "retained_until cal ended_on months =
     (if months = No_Months then None else add_months_checked cal ended_on (months_of months))"

definition keep_until :: "('d::linorder, 't) calendar \<Rightarrow> 'd \<Rightarrow> retention_months \<Rightarrow> 'd \<Rightarrow> 'd option" where
  "keep_until cal ended_on months today =
     opt_filter (\<lambda>until. today < until) (retained_until cal ended_on months)"

text \<open>\<open>from_months\<close> is the same contract as the generated \<open>from_code\<close>s.\<close>

interpretation retention: coded all_retention_months months_of from_months
proof
  show "v \<in> set all_retention_months" for v by (cases v) (simp_all add: all_retention_months_def)
qed (simp_all add: from_months_def decode_def all_retention_months_def)

section \<open>\<open>requests.rs\<close>\<close>

definition max_open_requests_per_address :: int where "max_open_requests_per_address = 1"
definition max_requests_per_tenant_per_day :: int where "max_requests_per_tenant_per_day = 5"
definition request_lapse_days :: int where "request_lapse_days = 30"
definition message_max_chars :: nat where "message_max_chars = 500"

datatype request_limit = Open_Request_Exists | Tenant_Daily_Limit

definition check_request_limits :: "int \<Rightarrow> int \<Rightarrow> (request_limit, unit) result" where
  "check_request_limits open_by_address created_today =
     (if max_open_requests_per_address \<le> open_by_address then Inl Open_Request_Exists
      else if max_requests_per_tenant_per_day \<le> created_today then Inl Tenant_Daily_Limit
      else Inr ())"

datatype message_error = Message_Control_Character | Message_Too_Long

text \<open>\<open>replace("\r\n", "\n")\<close>.\<close>

fun replace_crlf :: "str \<Rightarrow> str" where
  "replace_crlf (c # d # s) = (if c = 13 \<and> d = 10 then 10 # replace_crlf s else c # replace_crlf (d # s))"
| "replace_crlf s = s"

definition normalise_newlines :: "str \<Rightarrow> str" where
  "normalise_newlines s = map (\<lambda>c. if c = 13 then 10 else c) (replace_crlf s)"

definition normalise_message :: "str option \<Rightarrow> (message_error, str option) result" where
  "normalise_message raw =
     (case map_option trim raw of
        None \<Rightarrow> Inr None
      | Some trimmed \<Rightarrow>
          if trimmed = [] then Inr None
          else
            let normalised = normalise_newlines trimmed
            in if list_ex (\<lambda>c. c \<noteq> 10 \<and> is_control c) normalised then Inl Message_Control_Character
               else if message_max_chars < length normalised then Inl Message_Too_Long
               else Inr (Some normalised))"

definition lapse_cutoff :: "('d, 't) calendar \<Rightarrow> 'd \<Rightarrow> 'd" where
  "lapse_cutoff cal today = unwrap_or (sub_days_checked cal today request_lapse_days) (date_min cal)"

datatype replacement_date_error = Starts_In_Past | Replacement_Empty

definition check_replacement_dates :: "'d::linorder \<Rightarrow> 'd \<Rightarrow> 'd \<Rightarrow> (replacement_date_error, 'd period) result" where
  "check_replacement_dates today s e =
     (if s < today then Inl Starts_In_Past
      else map_sum (\<lambda>_. Replacement_Empty) id (period_new s e))"

section \<open>Facts\<close>

lemma check_request_limits_ok:
  "check_request_limits o' c = Inr () \<longleftrightarrow> o' < 1 \<and> c < 5"
  by (auto simp: check_request_limits_def max_open_requests_per_address_def max_requests_per_tenant_per_day_def)

lemma replacement_period:
  "check_replacement_dates today s e = Inr p \<longleftrightarrow> today \<le> s \<and> s < e \<and> p = \<lparr>starts_on = s, ends_on_exclusive = e\<rparr>"
  by (auto simp: check_replacement_dates_def period_new_def)

lemma set_replace_crlf: "c \<in> set (replace_crlf s) \<Longrightarrow> c \<in> set s \<or> c = 10"
  by (induction s rule: replace_crlf.induct) (auto split: if_splits)

lemma normalise_newlines_no_cr: "13 \<notin> set (normalise_newlines s)"
  by (auto simp: normalise_newlines_def split: if_splits)

lemma replace_crlf_no_cr: "13 \<notin> set s \<Longrightarrow> replace_crlf s = s"
  by (induction s rule: replace_crlf.induct) auto

lemma normalise_newlines_fix: "13 \<notin> set s \<Longrightarrow> normalise_newlines s = s"
proof -
  assume s: "13 \<notin> set s"
  then have "map (\<lambda>c. if c = 13 then 10 else c) s = map id s" by (intro map_cong) auto
  then show ?thesis by (simp add: normalise_newlines_def replace_crlf_no_cr s)
qed

lemma replace_crlf_Nil [simp]: "replace_crlf s = [] \<longleftrightarrow> s = []"
  by (cases s rule: replace_crlf.cases) auto

lemma is_whitespace_newline: "is_whitespace 10" "is_whitespace 13"
  by (simp_all add: is_whitespace_def)

lemma normalise_newlines_hd:
  "s \<noteq> [] \<Longrightarrow> \<not> is_whitespace (hd s) \<Longrightarrow> hd (normalise_newlines s) = hd s"
  by (cases s rule: replace_crlf.cases) (auto simp: normalise_newlines_def is_whitespace_newline)

lemma last_replace_crlf: "s \<noteq> [] \<Longrightarrow> last (replace_crlf s) = last s"
  by (induction s rule: replace_crlf.induct) auto

lemma normalise_newlines_last:
  "s \<noteq> [] \<Longrightarrow> \<not> is_whitespace (last s) \<Longrightarrow> last (normalise_newlines s) = last s"
  by (auto simp: normalise_newlines_def last_map last_replace_crlf is_whitespace_newline)

lemma normalise_message_trimmed:
  assumes "normalise_message raw = Inr (Some m)"
  shows "trim m = m \<and> m \<noteq> [] \<and> 13 \<notin> set m \<and> length m \<le> message_max_chars
    \<and> (\<forall>c\<in>set m. is_control c \<longrightarrow> c = 10)"
proof -
  from assms obtain r where "raw = Some r" by (cases raw) (simp_all add: normalise_message_def)
  with assms have t: "trim r \<noteq> []" and m: "m = normalise_newlines (trim r)"
    and rest: "length m \<le> message_max_chars" "\<forall>c\<in>set m. is_control c \<longrightarrow> c = 10"
    by (auto simp: normalise_message_def Let_def list_ex_iff split: if_splits)
  have ne: "m \<noteq> []" using t by (simp add: m normalise_newlines_def)
  have "\<not> is_whitespace (hd m)" "\<not> is_whitespace (last m)"
    using t trim_hd [of r] trim_last [of r]
    by (simp_all add: m normalise_newlines_hd normalise_newlines_last)
  then have "trim m = m" by (intro trim_fix) simp
  with ne rest show ?thesis by (auto simp: m normalise_newlines_no_cr)
qed

end
