(* ===== verification/Authz.thy ===== *)
theory Authz
  imports Vocabulary
begin

text \<open>
  \<open>authz.rs\<close>: the one rule that decides what a viewer may do with a resource. Facts about its
  shape (no read, no act; more capability never means less) are proved once here.
\<close>

datatype action = Read | Write | Manage

record group_facts =
  gf_visibility :: visibility
  gf_archived :: bool
  gf_viewer_in_group :: bool

datatype target = Fau | Group group_facts | Group_Content group_facts

datatype denied = No_Access | Hidden | Forbidden

type_synonym decision = "(denied, unit) result"

definition can_read :: "capability \<Rightarrow> target \<Rightarrow> bool" where
  "can_read cap t =
     (case (cap, t) of
        (Admin, _) \<Rightarrow> True
      | (Member, Fau) \<Rightarrow> True
      | (Guest, Fau) \<Rightarrow> False
      | (Member, Group g) \<Rightarrow> gf_visibility g = Visible_Open \<or> gf_viewer_in_group g
      | (Member, Group_Content g) \<Rightarrow> gf_visibility g = Visible_Open \<or> gf_viewer_in_group g
      | (Guest, Group g) \<Rightarrow> gf_viewer_in_group g
      | (Guest, Group_Content g) \<Rightarrow> gf_viewer_in_group g
      | (No_Capability, _) \<Rightarrow> False)"

definition allowed :: "capability \<Rightarrow> target \<Rightarrow> action \<Rightarrow> bool" where
  "allowed cap t a =
     (let admin = (cap = Admin)
      in case (a, t) of
           (Read, _) \<Rightarrow> True
         | (Manage, _) \<Rightarrow> admin
         | (Write, Group _) \<Rightarrow> admin
         | (Write, Fau) \<Rightarrow> True
         | (Write, Group_Content g) \<Rightarrow> \<not> gf_archived g \<and> (admin \<or> gf_viewer_in_group g))"

definition decide :: "capability \<Rightarrow> target \<Rightarrow> action \<Rightarrow> decision" where
  "decide cap t a =
     (if cap = No_Capability then Inl No_Access
      else if \<not> can_read cap t then Inl Hidden
      else if allowed cap t a then Inr ()
      else Inl Forbidden)"

lemma decide_ok: "decide cap t a = Inr () \<longleftrightarrow> can_read cap t \<and> allowed cap t a"
  by (cases cap; cases t) (auto simp: decide_def can_read_def)

lemma can_read_mono: "cap \<le> cap' \<Longrightarrow> can_read cap t \<Longrightarrow> can_read cap' t"
  by (cases cap; cases cap'; cases t) (auto simp: can_read_def less_eq_capability_def)

lemma allowed_mono:
  "cap \<le> cap' \<Longrightarrow> allowed cap t a \<Longrightarrow> allowed cap' t a"
  by (cases cap; cases cap'; cases t; cases a) (auto simp: allowed_def less_eq_capability_def)

lemma decide_hidden: "decide cap t a = Inl Hidden \<longleftrightarrow> cap \<noteq> No_Capability \<and> \<not> can_read cap t"
  by (auto simp: decide_def)

end
