(* ===== verification/Email.thy ===== *)
theory Email
  imports Unicode_Text
begin

text \<open>
  \<open>email.rs\<close>: login addresses. \<open>Email\<close> is a newtype whose only constructor is \<open>parse\<close>, and
  \<open>VerifiedEmail\<close> a newtype over it that records the provider's verification. Case folding and
  alphanumerics come from the Unicode tables \<open>ucd\<close>.
\<close>

section \<open>Parsing\<close>

datatype email = Email (email_str: str)

datatype email_error = Email_Empty | Email_Too_Long | Email_Malformed

definition email_max_len :: nat where "email_max_len = 254"

definition is_domain_label :: "ucd \<Rightarrow> str \<Rightarrow> bool" where
  "is_domain_label U label \<longleftrightarrow>
     label \<noteq> [] \<and> hd label \<noteq> 45 \<and> last label \<noteq> 45
     \<and> list_all (\<lambda>c. is_alphanumeric U c \<or> c = 45) label"

definition email_parse :: "ucd \<Rightarrow> str \<Rightarrow> (email_error, email) result" where
  "email_parse U raw =
     (let s = trim raw
      in if s = [] then Inl Email_Empty
         else if email_max_len < str_len s then Inl Email_Too_Long
         else if list_ex (\<lambda>c. is_whitespace c \<or> is_control c) s then Inl Email_Malformed
         else case rsplit_once 64 s of
             None \<Rightarrow> Inl Email_Malformed
           | Some (local, domain) \<Rightarrow>
               if local = [] \<or> 64 \<in> set local \<or> 46 \<notin> set domain
                  \<or> (domain \<noteq> [] \<and> hd domain = 46) \<or> (domain \<noteq> [] \<and> last domain = 46)
                  \<or> \<not> list_all (is_domain_label U) (split_by (\<lambda>c. c = 46) domain)
               then Inl Email_Malformed
               else Inr (Email (to_lowercase U s)))"

datatype verified_email = Verified_Email (verified_email: email)

definition from_provider :: "email \<Rightarrow> verified_email" where
  "from_provider e = Verified_Email e"

section \<open>Facts\<close>

lemma email_parse_Inr:
  assumes "email_parse U raw = Inr e"
  obtains local domain where
    "trim raw = local @ 64 # domain" "e = Email (to_lowercase U (trim raw))"
    "local \<noteq> []" "64 \<notin> set local" "64 \<notin> set domain" "46 \<in> set domain"
    "list_all (is_domain_label U) (split_by (\<lambda>c. c = 46) domain)"
    "str_len (trim raw) \<le> email_max_len"
    "\<forall>c\<in>set (trim raw). \<not> is_whitespace c \<and> \<not> is_control c"
  using assms
  by (auto simp: email_parse_def Let_def list_ex_iff dest: rsplit_once_Some
      split: if_splits option.splits prod.splits)

text \<open>An address has exactly one \<open>@\<close> before it is lower-cased, and a non-empty part on each side of it.\<close>

lemma email_parse_one_at:
  assumes "email_parse U raw = Inr e"
  shows "count_list (trim raw) 64 = 1"
proof -
  from assms obtain local domain where "trim raw = local @ 64 # domain"
    "64 \<notin> set local" "64 \<notin> set domain"
    by (rule email_parse_Inr)
  then show ?thesis by simp
qed

end
