(* ===== verification/Acceptance.thy ===== *)
theory Acceptance
  imports Vocabulary Email
begin

text \<open>
  \<open>membership/acceptance.rs\<close>: the rule that decides whether an invitation may be accepted,
  on a snapshot of everything it reads. \<open>'t\<close> is \<open>jiff::Timestamp\<close>.
\<close>

section \<open>The rule\<close>

record 't acceptance_snapshot =
  mode :: invitation_mode
  expires_at :: 't
  accepted :: bool
  revoked :: bool
  recipient :: email
  acceptor :: verified_email
  acceptor_account_disabled :: bool
  snapshot_tenant_status :: tenant_status
  tenant_frozen :: bool
  issuer_admin_today :: bool
  handover_grant_valid_today :: bool
  snapshot_tenant_has_admin_today :: bool
  recovery_seat_matches_today :: bool

datatype acceptance_refusal = Revoked | Already_Accepted | Expired | Email_Mismatch
  | Account_Disabled | Tenant_Not_Active | Tenant_Frozen | Issuer_Lacks_Authority

definition issuer_authorised :: "'t acceptance_snapshot \<Rightarrow> bool" where
  "issuer_authorised s =
     (case mode s of
        Normal \<Rightarrow> issuer_admin_today s
      | Handover \<Rightarrow> handover_grant_valid_today s
      | Recovery \<Rightarrow> \<not> snapshot_tenant_has_admin_today s \<and> recovery_seat_matches_today s
      | Activation \<Rightarrow> True)"

definition check_acceptance :: "'t::linorder acceptance_snapshot \<Rightarrow> 't \<Rightarrow> (acceptance_refusal, unit) result" where
  "check_acceptance s now =
     (if revoked s then Inl Revoked
      else if accepted s then Inl Already_Accepted
      else if expires_at s \<le> now then Inl Expired
      else if recipient s \<noteq> verified_email (acceptor s) then Inl Email_Mismatch
      else if acceptor_account_disabled s then Inl Account_Disabled
      else if snapshot_tenant_status s \<noteq> Tenant_Active then Inl Tenant_Not_Active
      else if tenant_frozen s then Inl Tenant_Frozen
      else if \<not> issuer_authorised s then Inl Issuer_Lacks_Authority
      else Inr ())"

section \<open>The specification: independent conditions in a fixed order\<close>

text \<open>Each refusal is one failed condition, told apart from the order in which they are checked.\<close>

fun refusal_applies :: "'t::linorder acceptance_snapshot \<Rightarrow> 't \<Rightarrow> acceptance_refusal \<Rightarrow> bool" where
  "refusal_applies s now Revoked = revoked s"
| "refusal_applies s now Already_Accepted = accepted s"
| "refusal_applies s now Expired = (expires_at s \<le> now)"
| "refusal_applies s now Email_Mismatch = (recipient s \<noteq> verified_email (acceptor s))"
| "refusal_applies s now Account_Disabled = acceptor_account_disabled s"
| "refusal_applies s now Tenant_Not_Active = (snapshot_tenant_status s \<noteq> Tenant_Active)"
| "refusal_applies s now Tenant_Frozen = tenant_frozen s"
| "refusal_applies s now Issuer_Lacks_Authority = (\<not> issuer_authorised s)"

definition refusal_order :: "acceptance_refusal list" where
  "refusal_order = [Revoked, Already_Accepted, Expired, Email_Mismatch, Account_Disabled,
     Tenant_Not_Active, Tenant_Frozen, Issuer_Lacks_Authority]"

lemma all_refusals: "r \<in> set refusal_order"
  by (cases r) (simp_all add: refusal_order_def)

lemma check_acceptance_find:
  "check_acceptance s now =
     (case List.find (refusal_applies s now) refusal_order of None \<Rightarrow> Inr () | Some r \<Rightarrow> Inl r)"
  by (simp add: check_acceptance_def refusal_order_def)

lemma check_acceptance_Inr:
  "check_acceptance s now = Inr () \<longleftrightarrow> (\<forall>r. \<not> refusal_applies s now r)"
  by (auto simp: check_acceptance_find all_refusals dest: find_NoneD find_SomeD split: option.splits)

end
