(* ===== verification/History.thy ===== *)
theory History
  imports Vocabulary
begin

text \<open>
  \<open>directory/history.rs\<close>: how history shows a membership that has ended. Dates are an ordered type
  \<open>'d\<close>; their year and predecessor are \<open>jiff\<close>'s, the record \<open>day_ops\<close>.
\<close>

record 'd day_ops =
  day_year :: "'d \<Rightarrow> int"
  yesterday :: "'d \<Rightarrow> 'd option"

section \<open>\<open>min_by_key\<close> and \<open>Reverse\<close>\<close>

text \<open>\<open>Iterator::min_by_key\<close>: the first of the elements with the least key.\<close>

fun min_by_key :: "('a \<Rightarrow> 'k::linorder) \<Rightarrow> 'a list \<Rightarrow> 'a option" where
  "min_by_key k [] = None"
| "min_by_key k (x # xs) =
     (case min_by_key k xs of None \<Rightarrow> Some x | Some y \<Rightarrow> Some (if k x \<le> k y then x else y))"

datatype 'a reverse = Reverse (unreverse: 'a)

instantiation reverse :: (linorder) linorder
begin

definition less_eq_reverse :: "'a reverse \<Rightarrow> 'a reverse \<Rightarrow> bool" where
  "less_eq_reverse a b \<longleftrightarrow> unreverse b \<le> unreverse a"

definition less_reverse :: "'a reverse \<Rightarrow> 'a reverse \<Rightarrow> bool" where
  "less_reverse a b \<longleftrightarrow> unreverse b < unreverse a"

instance
  by standard (auto simp: less_eq_reverse_def less_reverse_def reverse.expand)

end

lemma min_by_key_None [simp]: "min_by_key k xs = None \<longleftrightarrow> xs = []"
  by (cases xs) (auto split: option.splits)

lemma min_by_key_Some:
  "min_by_key k xs = Some m \<Longrightarrow> m \<in> set xs \<and> (\<forall>x\<in>set xs. k m \<le> k x)"
proof (induction xs arbitrary: m)
  case (Cons x xs)
  then show ?case
    by (cases "min_by_key k xs") (fastforce split: if_splits)+
qed simp

section \<open>The label\<close>

record 'd held_role =
  held_name :: str
  held_class :: capability_class
  held_from :: 'd
  held_until :: 'd

record role_label =
  label_role :: str
  first_year :: int
  last_year :: int

definition is_one_year :: "role_label \<Rightarrow> bool" where
  "is_one_year l \<longleftrightarrow> first_year l = last_year l"

fun rank :: "capability_class \<Rightarrow> nat" where
  "rank Admin_Class = 0"
| "rank Member_Class = 1"
| "rank Guest_Class = 2"

text \<open>\<open>during.or_else(after).or_else(before)\<close>.\<close>

definition chosen_role :: "'d::linorder held_role list \<Rightarrow> 'd \<Rightarrow> 'd held_role option" where
  "chosen_role held on =
     (case min_by_key (\<lambda>r. (rank (held_class r), held_from r))
             (filter (\<lambda>r. held_from r \<le> on \<and> on < held_until r) held) of
        Some r \<Rightarrow> Some r
      | None \<Rightarrow>
          (case min_by_key (\<lambda>r. (Reverse (held_until r), rank (held_class r), held_from r))
                  (filter (\<lambda>r. held_until r \<le> on) held) of
             Some r \<Rightarrow> Some r
           | None \<Rightarrow> min_by_key (\<lambda>r. (held_from r, rank (held_class r))) held))"

definition role_label :: "'d::linorder day_ops \<Rightarrow> 'd held_role list \<Rightarrow> 'd \<Rightarrow> role_label option" where
  "role_label D held on =
     map_option (\<lambda>r.
         \<lparr>label_role = held_name r, first_year = day_year D (held_from r),
          last_year = day_year D (unwrap_or (yesterday D (held_until r)) (held_from r))\<rparr>)
       (chosen_role held on)"

definition ended_on :: "'d::linorder held_role list \<Rightarrow> 'd \<Rightarrow> 'd" where
  "ended_on held today =
     (case max_opt (map held_until held) of None \<Rightarrow> today | Some d \<Rightarrow> min d today)"

section \<open>The current period\<close>

record 'd active_period =
  since :: 'd
  earlier :: "'d held_role list"

definition label_on :: "'d::linorder day_ops \<Rightarrow> 'd active_period \<Rightarrow> 'd \<Rightarrow> role_label option" where
  "label_on D p on = (if since p \<le> on then None else role_label D (earlier p) on)"

text \<open>The \<open>for\<close> loop over the sorted spans; \<open>runs\<close> is kept last-first, as \<open>last_mut\<close> reads it.\<close>

fun push_span :: "('d::linorder \<times> 'd) list \<Rightarrow> 'd \<times> 'd \<Rightarrow> ('d \<times> 'd) list" where
  "push_span ((s, u) # runs) (a, b) =
     (if a \<le> u then (s, max u b) # runs else (a, b) # (s, u) # runs)"
| "push_span [] (a, b) = [(a, b)]"

definition merge_spans :: "('d::linorder \<times> 'd) list \<Rightarrow> ('d \<times> 'd) list" where
  "merge_spans spans = rev (foldl push_span [] (sort_by (\<le>) spans))"

definition active_period :: "'d::linorder held_role list \<Rightarrow> 'd \<Rightarrow> 'd active_period" where
  "active_period held today =
     (case List.find (\<lambda>(a, b). a \<le> today \<and> today < b)
             (merge_spans (map (\<lambda>r. (held_from r, held_until r)) held)) of
        Some (s, _) \<Rightarrow> \<lparr>since = s, earlier = filter (\<lambda>r. held_until r < s) held\<rparr>
      | None \<Rightarrow> \<lparr>since = today, earlier = filter (\<lambda>r. held_until r \<le> today) held\<rparr>)"

section \<open>Facts about the label\<close>

lemma chosen_role_in: "chosen_role held on = Some r \<Longrightarrow> r \<in> set held"
  unfolding chosen_role_def by (auto split: option.splits dest!: min_by_key_Some)

lemma chosen_role_None [simp]: "chosen_role held on = None \<longleftrightarrow> held = []"
  by (auto simp: chosen_role_def split: option.splits)

text \<open>A role held on the day is chosen before any other.\<close>

lemma chosen_role_during:
  assumes "chosen_role held on = Some r" "\<exists>x\<in>set held. held_from x \<le> on \<and> on < held_until x"
  shows "held_from r \<le> on \<and> on < held_until r
    \<and> (\<forall>x\<in>set held. held_from x \<le> on \<and> on < held_until x \<longrightarrow>
         (rank (held_class r), held_from r) \<le> (rank (held_class x), held_from x))"
proof -
  let ?d = "filter (\<lambda>r. held_from r \<le> on \<and> on < held_until r) held"
  from assms(2) have "?d \<noteq> []" by (auto simp: filter_empty_conv)
  with assms(1) have "min_by_key (\<lambda>r. (rank (held_class r), held_from r)) ?d = Some r"
    by (auto simp: chosen_role_def split: option.splits)
  from min_by_key_Some [OF this] show ?thesis by auto
qed

lemma chosen_role_after:
  assumes "chosen_role held on = Some r" "\<not> (\<exists>x\<in>set held. held_from x \<le> on \<and> on < held_until x)"
    and "\<exists>x\<in>set held. held_until x \<le> on"
  shows "held_until r \<le> on \<and> (\<forall>x\<in>set held. held_until x \<le> on \<longrightarrow> held_until x \<le> held_until r)"
proof -
  let ?a = "filter (\<lambda>r. held_until r \<le> on) held"
  from assms(3) have "?a \<noteq> []" by (auto simp: filter_empty_conv)
  moreover from assms(2) have "filter (\<lambda>r. held_from r \<le> on \<and> on < held_until r) held = []"
    by (auto simp: filter_empty_conv)
  ultimately have "min_by_key (\<lambda>r. (Reverse (held_until r), rank (held_class r), held_from r)) ?a = Some r"
    using assms(1) by (auto simp: chosen_role_def split: option.splits)
  from min_by_key_Some [OF this] show ?thesis
    by (auto simp: less_eq_prod_def less_eq_reverse_def less_reverse_def)
qed

section \<open>Facts about the current period\<close>

text \<open>Runs are the held days: a day is in a run exactly when some span covers it.\<close>

definition spans_cover :: "('d::linorder \<times> 'd) list \<Rightarrow> 'd \<Rightarrow> bool" where
  "spans_cover spans x \<longleftrightarrow> (\<exists>(a, b)\<in>set spans. a \<le> x \<and> x < b)"

text \<open>Invariant of the loop: the runs, last first, are non-empty, separated and after one another.\<close>

fun runs_ok :: "('d::linorder \<times> 'd) list \<Rightarrow> bool" where
  "runs_ok [] = True"
| "runs_ok [(s, u)] = (s < u)"
| "runs_ok ((s, u) # (s', u') # runs) = (s < u \<and> u' < s \<and> runs_ok ((s', u') # runs))"

lemma push_span_ok:
  assumes "runs_ok runs" "a < b" "runs = [] \<or> fst (hd runs) \<le> a"
  shows "runs_ok (push_span runs (a, b)) \<and> fst (hd (push_span runs (a, b))) \<le> a
    \<and> push_span runs (a, b) \<noteq> []"
  using assms
  by (cases runs rule: runs_ok.cases) (auto simp: less_max_iff_disj)

lemma push_span_cover:
  assumes "runs = [] \<or> fst (hd runs) \<le> a" "a < b"
  shows "spans_cover (push_span runs (a, b)) x \<longleftrightarrow> spans_cover runs x \<or> (a \<le> x \<and> x < b)"
proof (cases runs)
  case (Cons r rs)
  obtain s u where r: "r = (s, u)" by (cases r)
  show ?thesis
    using assms by (auto simp: spans_cover_def Cons r less_max_iff_disj)
qed (auto simp: spans_cover_def)

lemma foldl_push_span:
  assumes "sorted (map fst spans)" "\<forall>(a, b)\<in>set spans. a < b" "runs_ok runs"
    and "\<forall>(a, b)\<in>set spans. runs = [] \<or> fst (hd runs) \<le> a"
  shows "runs_ok (foldl push_span runs spans)
    \<and> spans_cover (foldl push_span runs spans) = (\<lambda>x. spans_cover runs x \<or> spans_cover spans x)"
  using assms
proof (induction spans arbitrary: runs)
  case Nil
  then show ?case by (simp add: spans_cover_def)
next
  case (Cons p spans)
  obtain a b where p: "p = (a, b)" by (cases p)
  from Cons.prems have ab: "a < b" and hd: "runs = [] \<or> fst (hd runs) \<le> a"
    and rest: "sorted (map fst spans)" "\<forall>(a, b)\<in>set spans. a < b" and le: "\<forall>(c, d)\<in>set spans. a \<le> c"
    by (auto simp: p)
  from push_span_ok [OF Cons.prems(3) ab hd] have ok: "runs_ok (push_span runs (a, b))"
    and hd': "fst (hd (push_span runs (a, b))) \<le> a" by auto
  have "\<forall>(c, d)\<in>set spans. push_span runs (a, b) = [] \<or> fst (hd (push_span runs (a, b))) \<le> c"
    using le hd' by fastforce
  from Cons.IH [OF rest ok this] push_span_cover [OF hd ab]
  show ?case by (auto simp: p spans_cover_def fun_eq_iff)
qed

lemma sorted_fst_sort_by: "sorted (map fst (sort_by (\<le>) (xs :: ('d::linorder \<times> 'd) list)))"
proof -
  have "sorted (map (\<lambda>x. x) (sort_by (\<lambda>a b. a \<le> b) xs))" by (rule sorted_sort_by_key)
  then have "sorted_wrt (\<le>) (sort_by (\<le>) xs)" by simp
  then have "sorted_wrt (\<lambda>p q. fst p \<le> fst q) (sort_by (\<le>) xs)"
    by (rule sorted_wrt_mono_rel [rotated]) (auto simp: less_eq_prod_def)
  then show ?thesis by (simp add: sorted_wrt_map)
qed

lemma runs_ok_apart:
  assumes "runs_ok runs" "(s, u) \<in> set runs" "(s', u') \<in> set runs"
  shows "(s, u) = (s', u') \<or> u < s' \<or> u' < s"
proof -
  have below: "snd q < fst p \<or> q = p"
    if "runs_ok (p # rs)" "q \<in> set (p # rs)" for p q :: "'a \<times> 'a" and rs
    using that
  proof (induction rs arbitrary: p)
    case (Cons r rs)
    obtain a b c d where pr: "p = (a, b)" "r = (c, d)" by (cases p, cases r)
    from Cons.prems have ok: "runs_ok (r # rs)" and "d < a" by (auto simp: pr)
    have "c < d" using ok by (cases rs) (auto simp: pr)
    from Cons.prems(2) consider "q = p" | "q \<in> set (r # rs)" by auto
    then show ?case
    proof cases
      case 2
      from Cons.IH [OF ok this] show ?thesis using \<open>d < a\<close> \<open>c < d\<close> by (auto simp: pr)
    qed simp
  qed simp
  from assms show ?thesis
  proof (induction runs)
    case (Cons p rs)
    have ok: "runs_ok rs" using Cons.prems(1) by (cases "p # rs" rule: runs_ok.cases) auto
    show ?case
    proof (cases "(s, u) = p \<or> (s', u') = p")
      case True
      then show ?thesis using below [OF Cons.prems(1) Cons.prems(2)] below [OF Cons.prems(1) Cons.prems(3)] by auto
    next
      case False
      with Cons.prems Cons.IH [OF ok] show ?thesis by auto
    qed
  qed simp
qed

text \<open>Every span lies within one run.\<close>

definition within_run :: "('d::linorder \<times> 'd) list \<Rightarrow> 'd \<times> 'd \<Rightarrow> bool" where
  "within_run runs p \<longleftrightarrow> (\<exists>(s, u)\<in>set runs. s \<le> fst p \<and> snd p \<le> u)"

lemma push_span_within:
  assumes "runs = [] \<or> fst (hd runs) \<le> a"
  shows "within_run (push_span runs (a, b)) (a, b)"
    and "within_run runs q \<Longrightarrow> within_run (push_span runs (a, b)) q"
  using assms by (cases runs; auto simp: within_run_def le_max_iff_disj)+

lemma foldl_push_span_within:
  assumes "sorted (map fst spans)" "\<forall>(a, b)\<in>set spans. a < b" "runs_ok runs"
    and "\<forall>(a, b)\<in>set spans. runs = [] \<or> fst (hd runs) \<le> a"
    and "q \<in> set spans \<or> within_run runs q"
  shows "within_run (foldl push_span runs spans) q"
  using assms
proof (induction spans arbitrary: runs)
  case (Cons p spans)
  obtain a b where p: "p = (a, b)" by (cases p)
  from Cons.prems have ab: "a < b" and hd: "runs = [] \<or> fst (hd runs) \<le> a"
    and rest: "sorted (map fst spans)" "\<forall>(a, b)\<in>set spans. a < b" and le: "\<forall>(c, d)\<in>set spans. a \<le> c"
    by (auto simp: p)
  from push_span_ok [OF Cons.prems(3) ab hd] have ok: "runs_ok (push_span runs (a, b))"
    and hd': "fst (hd (push_span runs (a, b))) \<le> a" by auto
  have before: "\<forall>(c, d)\<in>set spans. push_span runs (a, b) = [] \<or> fst (hd (push_span runs (a, b))) \<le> c"
    using le hd' by fastforce
  have "q \<in> set spans \<or> within_run (push_span runs (a, b)) q"
    using Cons.prems(5) push_span_within(1) [OF hd, of b] push_span_within(2) [OF hd, of q b]
    by (auto simp: p)
  from Cons.IH [OF rest ok before this] show ?case by (simp add: p)
qed simp

lemma merge_spans_spec:
  assumes "\<forall>(a, b)\<in>set spans. a < b"
  shows "runs_ok (rev (merge_spans spans))"
    and "spans_cover (merge_spans spans) x \<longleftrightarrow> spans_cover spans x"
    and "q \<in> set spans \<Longrightarrow> within_run (merge_spans spans) q"
proof -
  let ?s = "sort_by (\<le>) spans"
  have s: "sorted (map fst ?s)" "\<forall>(a, b)\<in>set ?s. a < b" "runs_ok ([] :: ('a \<times> 'a) list)"
    "\<forall>(a, b)\<in>set ?s. ([] :: ('a \<times> 'a) list) = [] \<or> fst (hd ([] :: ('a \<times> 'a) list)) \<le> a"
    using assms sorted_fst_sort_by [of spans] by auto
  from foldl_push_span [OF s]
  have ok: "runs_ok (foldl push_span [] ?s)"
    and cov: "spans_cover (foldl push_span [] ?s) = (\<lambda>x. spans_cover [] x \<or> spans_cover ?s x)" by auto
  from ok show "runs_ok (rev (merge_spans spans))" by (simp add: merge_spans_def)
  from fun_cong [OF cov, of x] show "spans_cover (merge_spans spans) x \<longleftrightarrow> spans_cover spans x"
    by (simp add: merge_spans_def spans_cover_def)
  show "within_run (merge_spans spans) q" if "q \<in> set spans"
    using foldl_push_span_within [OF s, of q] that by (simp add: merge_spans_def within_run_def)
qed

lemma active_period_current:
  assumes spans: "\<forall>r\<in>set held. held_from r < held_until r"
    and p: "active_period held today = p"
    and now: "\<exists>r\<in>set held. held_from r \<le> today \<and> today < held_until r"
  shows "since p \<le> today"
    and "since p \<le> d \<Longrightarrow> d \<le> today \<Longrightarrow> \<exists>r\<in>set held. held_from r \<le> d \<and> d < held_until r"
    and "r \<in> set held \<Longrightarrow> r \<in> set (earlier p) \<or> since p \<le> held_from r"
    and "r \<in> set (earlier p) \<Longrightarrow> r \<in> set held \<and> held_until r < since p"
proof -
  let ?sp = "map (\<lambda>r. (held_from r, held_until r)) held"
  have lt: "\<forall>(a, b)\<in>set ?sp. a < b" using spans by auto
  note m = merge_spans_spec [OF lt]
  have cover: "spans_cover ?sp x \<longleftrightarrow> (\<exists>r\<in>set held. held_from r \<le> x \<and> x < held_until r)" for x
    by (auto simp: spans_cover_def)
  from now have "spans_cover (merge_spans ?sp) today" by (simp add: m(2) cover)
  then obtain s u where f: "List.find (\<lambda>(a, b). a \<le> today \<and> today < b) (merge_spans ?sp) = Some (s, u)"
    by (cases "List.find (\<lambda>(a, b). a \<le> today \<and> today < b) (merge_spans ?sp)")
      (auto simp: spans_cover_def dest: find_NoneD)
  then have su: "s \<le> today" "today < u" and run: "(s, u) \<in> set (merge_spans ?sp)"
    by (auto dest: find_SomeD)
  from f p have pe: "since p = s" "earlier p = filter (\<lambda>r. held_until r < s) held"
    by (auto simp: active_period_def)
  show "since p \<le> today" by (simp add: pe su)
  show "\<exists>r\<in>set held. held_from r \<le> d \<and> d < held_until r" if "since p \<le> d" "d \<le> today"
  proof -
    from that su have "s \<le> d" "d < u" by (auto simp: pe)
    with run have "spans_cover (merge_spans ?sp) d" unfolding spans_cover_def by blast
    then show ?thesis by (simp add: m(2) cover)
  qed
  show "r \<in> set held \<and> held_until r < since p" if "r \<in> set (earlier p)"
    using that by (simp add: pe)
  show "r \<in> set (earlier p) \<or> since p \<le> held_from r" if r: "r \<in> set held"
  proof -
    from r have "(held_from r, held_until r) \<in> set ?sp" by auto
    from m(3) [OF this] obtain s' u' where su': "(s', u') \<in> set (merge_spans ?sp)"
      "s' \<le> held_from r" "held_until r \<le> u'"
      by (auto simp: within_run_def)
    have "(s, u) \<in> set (rev (merge_spans ?sp))" "(s', u') \<in> set (rev (merge_spans ?sp))"
      using run su'(1) by simp_all
    from runs_ok_apart [OF m(1) this] show ?thesis
      using su su' r by (auto simp: pe)
  qed
qed

lemma active_period_gap:
  assumes spans: "\<forall>r\<in>set held. held_from r < held_until r"
    and "\<not> (\<exists>r\<in>set held. held_from r \<le> today \<and> today < held_until r)"
  shows "active_period held today = \<lparr>since = today, earlier = filter (\<lambda>r. held_until r \<le> today) held\<rparr>"
proof -
  let ?sp = "map (\<lambda>r. (held_from r, held_until r)) held"
  have lt: "\<forall>(a, b)\<in>set ?sp. a < b" using spans by auto
  have "\<not> spans_cover ?sp today"
    using assms(2) by (auto simp: spans_cover_def)
  then have "\<not> spans_cover (merge_spans ?sp) today" by (simp only: merge_spans_spec(2) [OF lt] simp_thms)
  then have "List.find (\<lambda>(a, b). a \<le> today \<and> today < b) (merge_spans ?sp) = None"
    by (cases "List.find (\<lambda>(a, b). a \<le> today \<and> today < b) (merge_spans ?sp)")
      (auto simp: spans_cover_def dest: find_SomeD)
  then show ?thesis by (simp add: active_period_def)
qed

end
