(* ===== verification/Membership_Properties.thy ===== *)
theory Membership_Properties
  imports Membership_Rules Authz Acceptance History
begin

text \<open>
  The properties of the membership components (\<open>Access\<close>, \<open>Authz\<close>, \<open>Acceptance\<close>, \<open>Vocabulary\<close>,
  \<open>Membership_Rules\<close>, \<open>History\<close>), each with a witness where it has hypotheses. Dates are natural
  numbers in the witnesses.
\<close>

section \<open>Administrators\<close>

text \<open>C21 removal_leaves_no_admin_iff: removing admin rights is refused exactly when some day from
  today on, covered by a removed right, is left without any administrator. The code only tests the
  first day of each removed period and the ends of the remaining ones.\<close>

theorem removal_leaves_no_admin_iff:
  assumes "\<forall>p\<in>set (admin_periods removed_assignments removed_grants). period_ok p"
  shows "removal_leaves_no_admin remaining_assignments remaining_grants removed_assignments removed_grants today
    \<longleftrightarrow> (\<exists>d\<ge>today. (\<exists>p\<in>set (admin_periods removed_assignments removed_grants). period_contains p d)
          \<and> \<not> tenant_has_admin remaining_assignments remaining_grants d)"
  by (rule removal_leaves_gap [OF assms])

text \<open>Chair until day 200 and deputy until day 100: removing the chair leaves a gap.\<close>

definition admin_until :: "nat \<Rightarrow> nat \<Rightarrow> nat assignment_view" where
  "admin_until s e = \<lparr>as_capability = Admin_Class, as_period = \<lparr>starts_on = s, ends_on_exclusive = e\<rparr>, as_revoked = False\<rparr>"

theorem removal_leaves_no_admin_iff_witness:
  "\<exists>d\<ge>10::nat. (\<exists>p\<in>set (admin_periods [admin_until 0 200] []). period_contains p d)
     \<and> \<not> tenant_has_admin [admin_until 0 100] [] d"
proof -
  have "\<forall>p\<in>set (admin_periods [admin_until 0 200] []). period_ok p"
    by (simp add: admin_periods_def admin_until_def period_ok_def)
  moreover have "removal_leaves_no_admin [admin_until 0 100] [] [admin_until 0 200] [] 10"
    by code_simp
  ultimately show ?thesis
    using removal_leaves_no_admin_iff [of "[admin_until 0 200]" "[]" "[admin_until 0 100]" "[]" 10] by blast
qed

text \<open>An active member's capability today is the highest of the
  assignments valid today, and without one the next start is the earliest that is still to come;
  a handover right is any grant valid today.\<close>

theorem access_of_active_member:
  assumes "tenant_active st" "account_usable st" "membership_active st"
    and "evaluate_access st assignments grants today = acc"
  shows "(c \<le> ac_capability acc \<longleftrightarrow> c = No_Capability \<or>
      (\<exists>a\<in>set assignments. assignment_valid_on a today \<and> c \<le> class_capability (as_capability a)))
    \<and> (ac_handover acc \<longleftrightarrow> (\<exists>g\<in>set grants. grant_valid_on g today))
    \<and> (ac_next_start acc = Some d \<longleftrightarrow> ac_capability acc = No_Capability
        \<and> (\<exists>a\<in>set assignments. \<not> as_revoked a \<and> today < starts_on (as_period a) \<and> d = starts_on (as_period a))
        \<and> (\<forall>a\<in>set assignments. \<not> as_revoked a \<and> today < starts_on (as_period a) \<longrightarrow> d \<le> starts_on (as_period a)))"
proof -
  let ?caps = "map (\<lambda>a. class_capability (as_capability a)) (filter (\<lambda>a. assignment_valid_on a today) assignments)"
  have "ac_handover acc = list_ex (\<lambda>g. grant_valid_on g today) grants" "ac_capability acc = unwrap_or (max_opt ?caps) No_Capability"
    "ac_next_start acc = (if unwrap_or (max_opt ?caps) No_Capability = No_Capability
        then min_opt (map (\<lambda>a. starts_on (as_period a))
                (filter (\<lambda>a. \<not> as_revoked a \<and> today < starts_on (as_period a)) assignments)) else None)"
    using assms by (auto simp: evaluate_access_def Let_def)
  then show ?thesis
    using capability_reached [of c st assignments grants today] assms by (auto simp: list_ex_iff min_opt_Some)
qed

section \<open>Authorization\<close>

text \<open>Whoever may do something may still do it with a higher capability.\<close>

theorem decide_monotone:
  assumes "cap \<le> cap'" "decide cap t a = Inr ()"
  shows "decide cap' t a = Inr ()"
  using assms can_read_mono allowed_mono by (auto simp: decide_ok)

text \<open>The boundaries the groups design draws. Nothing without a
  membership; a guest never reaches the FAU-wide content; only an admin manages; content of an
  archived group is never written; and a closed group is hidden from, and only from, members and
  guests outside it.\<close>

theorem decide_boundaries:
  "(decide No_Capability t a = Inl No_Access)
   \<and> (decide Guest target.Fau a = Inl Hidden)
   \<and> (decide cap t Manage = Inr () \<longleftrightarrow> cap = Admin)
   \<and> (decide cap (Group_Content g) Write = Inr () \<longleftrightarrow>
     \<not> gf_archived g \<and> (cap = Admin \<or> cap \<noteq> No_Capability \<and> gf_viewer_in_group g))
   \<and> (decide cap (Group \<lparr>gf_visibility = Visible_Closed, gf_archived = b, gf_viewer_in_group = inside\<rparr>) a = Inl Hidden
     \<longleftrightarrow> cap \<in> {Member, Guest} \<and> \<not> inside)"
  by (intro conjI; cases cap; cases a; cases t; auto simp: decide_def can_read_def allowed_def)

section \<open>Accepting an invitation\<close>

text \<open>An acceptance is refused for the first condition, in the
  documented order, that does not hold.\<close>

theorem acceptance_first_refusal:
  "check_acceptance s now = Inl r \<longleftrightarrow>
     refusal_applies s now r \<and> (\<forall>r'\<in>set (takeWhile (\<lambda>x. x \<noteq> r) refusal_order). \<not> refusal_applies s now r')"
proof -
  have find: "List.find P xs = Some r \<longleftrightarrow> r \<in> set xs \<and> P r \<and> (\<forall>r'\<in>set (takeWhile (\<lambda>x. x \<noteq> r) xs). \<not> P r')"
    for P :: "acceptance_refusal \<Rightarrow> bool" and xs
    by (induction xs) auto
  have "check_acceptance s now = Inl r \<longleftrightarrow> List.find (refusal_applies s now) refusal_order = Some r"
    by (auto simp: check_acceptance_find split: option.splits)
  then show ?thesis by (simp add: find all_refusals)
qed

definition sample_acceptance :: "nat acceptance_snapshot" where
  "sample_acceptance = \<lparr>mode = Recovery, expires_at = 10, accepted = False, revoked = False,
     recipient = Email (lit ''a@b.no''), acceptor = Verified_Email (Email (lit ''a@b.no'')),
     acceptor_account_disabled = False, snapshot_tenant_status = Tenant_Active, tenant_frozen = False,
     issuer_admin_today = False, handover_grant_valid_today = False,
     snapshot_tenant_has_admin_today = True, recovery_seat_matches_today = True\<rparr>"

section \<open>Closed sets of values\<close>

text \<open>Every stored code reads back as the value it was written from,
  and no other string reads as a value.\<close>

theorem vocabulary_round_trips:
  "(invitation_mode_from c = Some im \<longleftrightarrow> invitation_mode_code im = c)
   \<and> (request_kind_from c = Some rk \<longleftrightarrow> request_kind_code rk = c)
   \<and> (request_status_from c = Some rs \<longleftrightarrow> request_status_code rs = c)
   \<and> (tenant_status_from c = Some ts \<longleftrightarrow> tenant_status_code ts = c)
   \<and> (recovery_holder_from c = Some rh \<longleftrightarrow> recovery_holder_code rh = c)
   \<and> (visibility_from c = Some v \<longleftrightarrow> visibility_code v = c)
   \<and> (capability_class_from c = Some cc \<longleftrightarrow> capability_class_code cc = c)
   \<and> (from_months n = Some m \<longleftrightarrow> months_of m = n)"
  by (intro conjI) (rule invitation_mode.from_code_Some request_kind.from_code_Some request_status.from_code_Some
      tenant_status.from_code_Some recovery_holder.from_code_Some visibility.from_code_Some
      capability_class.from_code_Some retention.from_code_Some)+

text \<open>A message that is kept is trimmed, not empty, has only line feeds
  for line breaks, no other control character and at most 500 characters; and normalising it again
  gives it back.\<close>

theorem message_normal_form:
  assumes "normalise_message raw = Inr (Some m)"
  shows "trim m = m \<and> m \<noteq> [] \<and> length m \<le> 500 \<and> 13 \<notin> set m \<and> {c \<in> set m. is_control c} \<subseteq> {10}
    \<and> normalise_message (Some m) = Inr (Some m)"
proof -
  from normalise_message_trimmed [OF assms]
  have m: "trim m = m" "m \<noteq> []" "13 \<notin> set m" "length m \<le> message_max_chars"
    "\<forall>c\<in>set m. is_control c \<longrightarrow> c = 10" by auto
  then have "normalise_message (Some m) = Inr (Some m)"
    by (auto simp: normalise_message_def Let_def normalise_newlines_fix list_ex_iff)
  with m show ?thesis by (auto simp: message_max_chars_def)
qed

section \<open>History\<close>

text \<open>An event on a day some role was held is shown with a role held that
  day, an admin's before a member's before a guest's and the earliest among equals, and with the
  years of that role's first and last day.\<close>

theorem label_of_the_day:
  assumes "\<exists>r\<in>set held. held_from r \<le> on \<and> on < held_until r" "yesterday D = (\<lambda>d. Some (pred d))"
  shows "\<exists>r\<in>set held. held_from r \<le> on \<and> on < held_until r
    \<and> (\<forall>q\<in>set held. held_from q \<le> on \<and> on < held_until q \<longrightarrow>
         rank (held_class r) < rank (held_class q)
         \<or> rank (held_class r) = rank (held_class q) \<and> held_from r \<le> held_from q)
    \<and> role_label D held on = Some \<lparr>label_role = held_name r, first_year = day_year D (held_from r),
         last_year = day_year D (pred (held_until r))\<rparr>"
proof -
  from assms(1) have "held \<noteq> []" by auto
  then obtain r where r: "chosen_role held on = Some r" by (cases "chosen_role held on") auto
  from chosen_role_during [OF this assms(1)] chosen_role_in [OF r] assms(2) r show ?thesis
    by (intro bexI [of _ r]) (auto simp: role_label_def less_eq_prod_def)
qed

definition sample_roles :: "nat held_role list" where
  "sample_roles =
     [\<lparr>held_name = lit ''Medlem'', held_class = Member_Class, held_from = 0, held_until = 800\<rparr>,
      \<lparr>held_name = lit ''Leder'', held_class = Admin_Class, held_from = 100, held_until = 500\<rparr>]"

definition sample_days :: "nat day_ops" where
  "sample_days = \<lparr>day_year = (\<lambda>d. int (d div 365)), yesterday = (\<lambda>d. Some (d - 1))\<rparr>"

text \<open>C40 current_period_is_unbroken: for a member holding a role today, every day from the start
  of the current period to today was covered by some role, every role is either in the period or
  ended strictly before it, and only the latter are shown as earlier.\<close>

theorem current_period_is_unbroken:
  assumes "\<forall>r\<in>set held. held_from r < held_until r"
    and "\<exists>r\<in>set held. held_from r \<le> today \<and> today < held_until r"
    and "active_period held today = p"
  shows "since p \<le> today
    \<and> (\<forall>d. since p \<le> d \<and> d \<le> today \<longrightarrow> (\<exists>r\<in>set held. held_from r \<le> d \<and> d < held_until r))
    \<and> (\<forall>r\<in>set held. r \<in> set (earlier p) \<or> since p \<le> held_from r)
    \<and> (\<forall>r\<in>set (earlier p). r \<in> set held \<and> held_until r < since p)"
  using active_period_current [OF assms(1,3,2)] by blast

theorem current_period_is_unbroken_witness:
  "since (active_period sample_roles 600) \<le> 600"
proof -
  have "\<forall>r\<in>set sample_roles. held_from r < held_until r"
    "\<exists>r\<in>set sample_roles. held_from r \<le> 600 \<and> 600 < held_until r"
    by (simp_all add: sample_roles_def)
  from current_period_is_unbroken [OF this refl] show ?thesis by blast
qed

end
