(* ===== verification/Addresses.thy ===== *)
theory Addresses
  imports Email
begin

text \<open>
  \<open>directory/address.rs\<close>: a selection of addresses as a \<open>mailto:\<close> link or a text to copy.
  A Rust string is its UTF-8 bytes: \<open>utf8_bytes\<close> encodes a list of code points, since
  \<open>percent_encode\<close> works on bytes. \<open>expect("Email::parse guarantees an @")\<close> is a panic, here
  \<open>None\<close>.
\<close>

section \<open>UTF-8\<close>

definition utf8_char :: "nat \<Rightarrow> nat list" where
  "utf8_char c =
     (if c < 128 then [c]
      else if c < 2048 then [192 + c div 64, 128 + c mod 64]
      else if c < 65536 then [224 + c div 4096, 128 + c div 64 mod 64, 128 + c mod 64]
      else [240 + c div 262144, 128 + c div 4096 mod 64, 128 + c div 64 mod 64, 128 + c mod 64])"

definition utf8_bytes :: "str \<Rightarrow> nat list" where
  "utf8_bytes s = concat (map utf8_char s)"

section \<open>Recipients\<close>

datatype recipient_field = To_Field | Bcc_Field
datatype copy_separator = Comma | Semicolon
datatype mailto = Link str | Link_Too_Long nat

definition bcc_above :: nat where "bcc_above = 10"
definition mailto_max_chars :: nat where "mailto_max_chars = 1800"

definition field_default_for :: "nat \<Rightarrow> recipient_field" where
  "field_default_for n = (if bcc_above < n then Bcc_Field else To_Field)"

fun separator_str :: "copy_separator \<Rightarrow> str" where
  "separator_str Comma = lit '', ''"
| "separator_str Semicolon = lit ''; ''"

datatype recipients = Recipients (recipient_list: "email list")

text \<open>\<open>filter(|a| seen.insert(\<dots>))\<close>: keep the addresses not seen before.\<close>

fun keep_unseen :: "('a \<Rightarrow> 'k) \<Rightarrow> 'k set \<Rightarrow> 'a list \<Rightarrow> 'a list" where
  "keep_unseen k seen [] = []"
| "keep_unseen k seen (x # xs) =
     (if k x \<in> seen then keep_unseen k seen xs else x # keep_unseen k (insert (k x) seen) xs)"

definition recipients_new :: "email list \<Rightarrow> recipients" where
  "recipients_new addresses = Recipients (keep_unseen email_str {} addresses)"

definition recipients_len :: "recipients \<Rightarrow> nat" where
  "recipients_len r = length (recipient_list r)"

definition default_field :: "recipients \<Rightarrow> recipient_field" where
  "default_field r = field_default_for (recipients_len r)"

section \<open>Address text\<close>

definition atext_specials :: str where
  "atext_specials = map of_char ''!#$%&'' @ [39] @ map of_char ''*+-/=?^_'' @ [96] @ map of_char ''{|}~''"

definition is_atext :: "nat \<Rightarrow> bool" where
  "is_atext c \<longleftrightarrow> is_ascii_alnum c \<or> c \<in> set atext_specials \<or> 128 \<le> c"

definition is_dot_atom :: "str \<Rightarrow> bool" where
  "is_dot_atom s \<longleftrightarrow>
     s \<noteq> [] \<and> list_all (\<lambda>part. part \<noteq> [] \<and> list_all is_atext part) (split_by (\<lambda>c. c = 46) s)"

fun escape_quoted :: "str \<Rightarrow> str" where
  "escape_quoted [] = []"
| "escape_quoted (c # s) = (if c = 34 \<or> c = 92 then 92 # c # escape_quoted s else c # escape_quoted s)"

definition address_spec :: "email \<Rightarrow> str option" where
  "address_spec a =
     map_option (\<lambda>(local, domain).
         if is_dot_atom local then email_str a
         else 34 # escape_quoted local @ [34, 64] @ domain)
       (rsplit_once 64 (email_str a))"

definition hex_digit :: "nat \<Rightarrow> nat" where
  "hex_digit n = (if n < 10 then 48 + n else 55 + n)"

definition unreserved_byte :: "nat \<Rightarrow> bool" where
  "unreserved_byte b \<longleftrightarrow> is_ascii_alnum b \<or> b \<in> {45, 46, 95, 126, 64}"

definition encode_byte :: "nat \<Rightarrow> str" where
  "encode_byte b = (if unreserved_byte b then [b] else [37, hex_digit (b div 16), hex_digit (b mod 16)])"

definition percent_encode :: "str \<Rightarrow> str" where
  "percent_encode s = concat (map encode_byte (utf8_bytes s))"

definition mailto_url :: "recipient_field \<Rightarrow> str list \<Rightarrow> str" where
  "mailto_url field specs =
     (let joined = join (lit '','') (map percent_encode specs)
      in case field of
           To_Field \<Rightarrow> lit ''mailto:'' @ joined
         | Bcc_Field \<Rightarrow> lit ''mailto:?bcc='' @ joined)"

definition mailto :: "recipients \<Rightarrow> recipient_field \<Rightarrow> mailto option" where
  "mailto r field =
     map_option (\<lambda>specs.
         let url = mailto_url field specs
         in if mailto_max_chars < str_len url then Link_Too_Long (str_len url) else Link url)
       (those (map address_spec (recipient_list r)))"

definition copy_text :: "recipients \<Rightarrow> copy_separator \<Rightarrow> str option" where
  "copy_text r sep = map_option (join (separator_str sep)) (those (map address_spec (recipient_list r)))"

section \<open>Readers: what a mail client undoes\<close>

text \<open>Percent decoding (RFC 3986), on the bytes of a URL part.\<close>

definition hex_value :: "nat \<Rightarrow> nat" where
  "hex_value c = (if c < 58 then c - 48 else c - 55)"

fun percent_decode :: "str \<Rightarrow> nat list" where
  "percent_decode (c # h # l # s) =
     (if c = 37 then (16 * hex_value h + hex_value l) # percent_decode s
      else c # percent_decode (h # l # s))"
| "percent_decode s = s"

text \<open>An \<open>addr-spec\<close> (RFC 5322): a quoted local part is unescaped up to its closing quote.\<close>

fun unquote :: "str \<Rightarrow> str" where
  "unquote (c # d # s) =
     (if c = 92 then d # unquote s else if c = 34 then d # s else c # unquote (d # s))"
| "unquote s = s"

definition read_spec :: "str \<Rightarrow> str" where
  "read_spec s = (if s \<noteq> [] \<and> hd s = 34 then unquote (tl s) else s)"

section \<open>Facts\<close>

lemma keep_unseen_set: "k ` set (keep_unseen k seen xs) = k ` set xs - seen"
  by (induction xs arbitrary: seen) (auto split: if_splits)

lemma keep_unseen_subset: "set (keep_unseen k seen xs) \<subseteq> set xs"
  by (induction xs arbitrary: seen) (auto split: if_splits)

lemma keep_unseen_distinct: "distinct (map k (keep_unseen k seen xs))"
proof (induction xs arbitrary: seen)
  case (Cons x xs)
  then show ?case using keep_unseen_set [of k "insert (k x) seen" xs] by auto
qed simp

lemma keep_unseen_id: "distinct (map k xs) \<Longrightarrow> k ` set xs \<inter> seen = {} \<Longrightarrow> keep_unseen k seen xs = xs"
  by (induction xs arbitrary: seen) auto

lemma keep_unseen_subseq: "subseq (keep_unseen k seen xs) xs"
  by (induction xs arbitrary: seen) auto

lemma utf8_char_bytes: "c < 1114112 \<Longrightarrow> b \<in> set (utf8_char c) \<Longrightarrow> b < 256"
  by (auto simp: utf8_char_def split: if_splits)

lemma utf8_char_len: "length (utf8_char c) = utf8_width c"
  by (simp add: utf8_char_def utf8_width_def)

lemma hex_value_digit: "n < 16 \<Longrightarrow> hex_value (hex_digit n) = n"
  by (simp add: hex_value_def hex_digit_def)

lemma percent_decode_byte:
  assumes "b < 256"
  shows "percent_decode (encode_byte b @ s) = b # percent_decode s"
proof (cases "unreserved_byte b")
  case True
  then have "b \<noteq> 37" by (auto simp: unreserved_byte_def ascii_defs)
  with True show ?thesis
    by (cases s rule: percent_decode.cases) (simp_all add: encode_byte_def)
next
  case False
  with assms have "16 * (b div 16) + b mod 16 = b" "b div 16 < 16" "b mod 16 < 16" by simp_all
  with False show ?thesis by (simp add: encode_byte_def hex_value_digit)
qed

lemma percent_decode_encode_bytes:
  "\<forall>b\<in>set bs. b < 256 \<Longrightarrow> percent_decode (concat (map encode_byte bs)) = bs"
  by (induction bs) (simp_all add: percent_decode_byte)

lemma percent_decode_encode:
  assumes "\<forall>c\<in>set s. c < 1114112"
  shows "percent_decode (percent_encode s) = utf8_bytes s"
  unfolding percent_encode_def
  by (rule percent_decode_encode_bytes) (use assms utf8_char_bytes in \<open>auto simp: utf8_bytes_def\<close>)

lemma hex_digit_unreserved: "n < 16 \<Longrightarrow> unreserved_byte (hex_digit n)"
  by (cases "n < 10") (auto simp: unreserved_byte_def hex_digit_def ascii_defs)

lemma encode_byte_chars:
  assumes "b < 256" "c \<in> set (encode_byte b)"
  shows "unreserved_byte c \<or> c = 37"
proof (cases "unreserved_byte b")
  case True
  with assms show ?thesis by (simp add: encode_byte_def)
next
  case False
  with assms(2) have "c = 37 \<or> c = hex_digit (b div 16) \<or> c = hex_digit (b mod 16)"
    by (simp add: encode_byte_def)
  moreover have "b div 16 < 16" "b mod 16 < 16" using assms(1) by simp_all
  ultimately show ?thesis using hex_digit_unreserved by blast
qed

lemma percent_encode_chars:
  assumes "\<forall>c\<in>set s. c < 1114112" "x \<in> set (percent_encode s)"
  shows "unreserved_byte x \<or> x = 37"
proof -
  from assms(2) obtain b where "b \<in> set (utf8_bytes s)" "x \<in> set (encode_byte b)"
    by (auto simp: percent_encode_def)
  moreover from this assms(1) have "b < 256" by (auto simp: utf8_bytes_def dest: utf8_char_bytes)
  ultimately show ?thesis using encode_byte_chars by blast
qed

lemma unquote_escape: "unquote (escape_quoted l @ [34, 64] @ d) = l @ 64 # d"
proof (induction l)
  case (Cons c l)
  show ?case
  proof (cases "c = 34 \<or> c = 92")
    case True
    with Cons show ?thesis by simp
  next
    case False
    obtain x y where "escape_quoted l @ [34, 64] @ d = x # y"
      by (cases "escape_quoted l") auto
    with Cons False show ?thesis by simp
  qed
qed simp

lemma dot_atom_hd: "is_dot_atom s \<Longrightarrow> hd s \<noteq> 34"
  by (cases s) (auto simp: is_dot_atom_def is_atext_def atext_specials_def ascii_defs
      split: list.splits if_splits)

lemma read_address_spec:
  assumes "address_spec a = Some s"
  shows "read_spec s = email_str a"
proof -
  from assms obtain l d where ld: "rsplit_once 64 (email_str a) = Some (l, d)"
    and s: "s = (if is_dot_atom l then email_str a else 34 # escape_quoted l @ [34, 64] @ d)"
    by (auto simp: address_spec_def)
  from rsplit_once_Some [OF ld] have e: "email_str a = l @ 64 # d" by blast
  show ?thesis
  proof (cases "is_dot_atom l")
    case True
    then have "l \<noteq> []" "hd l \<noteq> 34" by (simp_all add: dot_atom_hd) (simp add: is_dot_atom_def)
    with True show ?thesis by (simp add: s e read_spec_def)
  next
    case False
    then show ?thesis using unquote_escape [of l d] by (simp add: s e read_spec_def)
  qed
qed

text \<open>Decoding UTF-8, the inverse of \<open>utf8_bytes\<close>.\<close>

fun utf8_decode :: "nat list \<Rightarrow> str" where
  "utf8_decode [] = []"
| "utf8_decode (a # s) =
     (if a < 192 then a # utf8_decode s
      else if a < 224 then (64 * (a - 192) + (hd s - 128)) # utf8_decode (drop 1 s)
      else if a < 240 then (4096 * (a - 224) + 64 * (hd s - 128) + (hd (drop 1 s) - 128)) # utf8_decode (drop 2 s)
      else (262144 * (a - 240) + 4096 * (hd s - 128) + 64 * (hd (drop 1 s) - 128) + (hd (drop 2 s) - 128))
         # utf8_decode (drop 3 s))"

lemma base64_digits3: "4096 * (c div 4096) + 64 * (c div 64 mod 64) + c mod 64 = (c::nat)"
proof -
  have "c div 4096 = c div 64 div 64" by (simp add: div_mult2_eq [symmetric])
  moreover have "64 * (c div 64 div 64) + c div 64 mod 64 = c div 64" by simp
  moreover have "64 * (c div 64) + c mod 64 = c" by simp
  ultimately show ?thesis by linarith
qed

lemma base64_digits4:
  "262144 * (c div 262144) + 4096 * (c div 4096 mod 64) + 64 * (c div 64 mod 64) + c mod 64 = (c::nat)"
proof -
  have "c div 262144 = c div 4096 div 64" by (simp add: div_mult2_eq [symmetric])
  moreover have "64 * (c div 4096 div 64) + c div 4096 mod 64 = c div 4096" by simp
  ultimately show ?thesis using base64_digits3 [of c] by linarith
qed

lemma utf8_decode_char:
  assumes "c < 1114112"
  shows "utf8_decode (utf8_char c @ s) = c # utf8_decode s"
proof -
  consider "c < 128" | "128 \<le> c" "c < 2048" | "2048 \<le> c" "c < 65536" | "65536 \<le> c" by linarith
  then show ?thesis
  proof cases
    case 2
    then have "c div 64 < 32" by linarith
    with 2 show ?thesis by (simp add: utf8_char_def)
  next
    case 3
    then have "c div 4096 < 16" by linarith
    with 3 show ?thesis using base64_digits3 [of c] by (simp add: utf8_char_def numeral_2_eq_2)
  next
    case 4
    with assms show ?thesis using base64_digits4 [of c] by (simp add: utf8_char_def numeral_2_eq_2 numeral_3_eq_3)
  qed (simp add: utf8_char_def)
qed

lemma utf8_decode_bytes: "\<forall>c\<in>set s. c < 1114112 \<Longrightarrow> utf8_decode (utf8_bytes s) = s"
  unfolding utf8_bytes_def by (induction s) (simp_all add: utf8_decode_char)

lemma those_Some: "those xs = Some ys \<longleftrightarrow> xs = map Some ys"
  by (induction xs arbitrary: ys) (auto split: option.splits simp: Cons_eq_map_conv)

lemma escape_quoted_set: "set (escape_quoted s) \<subseteq> insert 92 (set s)"
  by (induction s) auto

lemma address_spec_chars:
  assumes "address_spec a = Some s" "\<forall>c\<in>set (email_str a). c < 1114112"
  shows "\<forall>c\<in>set s. c < 1114112"
proof -
  from assms(1) obtain l d where ld: "rsplit_once 64 (email_str a) = Some (l, d)"
    and s: "s = (if is_dot_atom l then email_str a else 34 # escape_quoted l @ [34, 64] @ d)"
    by (auto simp: address_spec_def)
  from rsplit_once_Some [OF ld] have e: "email_str a = l @ 64 # d" by blast
  have "set s \<subseteq> insert 34 (insert 92 (set (email_str a)))"
    using escape_quoted_set [of l] by (auto simp: s e)
  with assms(2) show ?thesis by auto
qed

text \<open>The addresses a \<open>mailto:\<close> URL names, as a mail client reads them.\<close>

definition read_mailto :: "recipient_field \<Rightarrow> str \<Rightarrow> str list" where
  "read_mailto field url =
     map (read_spec \<circ> utf8_decode \<circ> percent_decode)
       (split_by (\<lambda>c. c = 44) (drop (case field of To_Field \<Rightarrow> 7 | Bcc_Field \<Rightarrow> 12) url))"

lemma read_mailto_url:
  assumes specs: "map address_spec as = map Some ss" and ne: "ss \<noteq> []"
    and chars: "\<forall>a\<in>set as. \<forall>c\<in>set (email_str a). c < 1114112"
  shows "read_mailto field (mailto_url field ss) = map email_str as"
proof -
  from specs have len: "length as = length ss" using map_eq_imp_length_eq by blast
  have spec: "address_spec (as ! i) = Some (ss ! i)" if "i < length ss" for i
    using arg_cong [OF specs, of "\<lambda>xs. xs ! i"] that len by simp
  have ok: "\<forall>c\<in>set (ss ! i). c < 1114112" if "i < length ss" for i
  proof (rule address_spec_chars [OF spec [OF that]])
    from that len have "as ! i \<in> set as" by simp
    with chars show "\<forall>c\<in>set (email_str (as ! i)). c < 1114112" by blast
  qed
  have "44 \<notin> set (percent_encode s)" if "s \<in> set ss" for s
    using that ok percent_encode_chars [of s 44] by (auto simp: in_set_conv_nth unreserved_byte_def ascii_defs)
  then have "split_by (\<lambda>c. c = 44) (join [44] (map percent_encode ss)) = map percent_encode ss"
    using ne by (intro split_join) auto
  moreover have "drop (case field of To_Field \<Rightarrow> 7 | Bcc_Field \<Rightarrow> 12) (mailto_url field ss)
      = join [44] (map percent_encode ss)"
    by (cases field) (simp_all add: mailto_url_def Let_def lit_def)
  ultimately have "read_mailto field (mailto_url field ss)
      = map (read_spec \<circ> utf8_decode \<circ> percent_decode \<circ> percent_encode) ss"
    by (simp add: read_mailto_def)
  also have "\<dots> = map email_str as"
  proof (rule nth_equalityI)
    show "length (map (read_spec \<circ> utf8_decode \<circ> percent_decode \<circ> percent_encode) ss) = length (map email_str as)"
      by (simp add: len)
    fix i assume "i < length (map (read_spec \<circ> utf8_decode \<circ> percent_decode \<circ> percent_encode) ss)"
    then have i: "i < length ss" by simp
    then show "map (read_spec \<circ> utf8_decode \<circ> percent_decode \<circ> percent_encode) ss ! i = map email_str as ! i"
      using ok [OF i] read_address_spec [OF spec [OF i]] len
      by (simp add: percent_decode_encode utf8_decode_bytes)
  qed
  finally show ?thesis .
qed

end
