(* ===== verification/Listing.thy ===== *)
theory Listing
  imports Addresses Vocabulary
begin

text \<open>
  \<open>directory/listing.rs\<close> and the interface of \<open>directory/collation.rs\<close>: the directory as the
  screen shows it. The collation itself is ICU4X's, the parameter \<open>collate\<close>; \<open>'id\<close> is
  \<open>Uuid\<close>, a type ordered by its bytes.
\<close>

section \<open>Comparisons\<close>

datatype ordering = Less | Equal | Greater

fun then_cmp :: "ordering \<Rightarrow> ordering \<Rightarrow> ordering" where
  "then_cmp Equal o2 = o2"
| "then_cmp o1 o2 = o1"

definition cmp :: "'a::linorder \<Rightarrow> 'a \<Rightarrow> ordering" where
  "cmp a b = (if a < b then Less else if a = b then Equal else Greater)"

type_synonym collator = "str \<Rightarrow> str \<Rightarrow> ordering"

text \<open>\<open>slice::sort_by\<close> with a three-way comparison.\<close>

definition sort_cmp :: "('a \<Rightarrow> 'a \<Rightarrow> ordering) \<Rightarrow> 'a list \<Rightarrow> 'a list" where
  "sort_cmp c xs = sort_by (\<lambda>a b. c a b \<noteq> Greater) xs"

section \<open>Data\<close>

datatype 'id section_id = Fau | Group_Section 'id

record 'id dir_section =
  section_id :: "'id section_id"
  title :: "str option"
  members :: "'id list"

datatype shown_name = Named display_name | Unnamed

datatype place = Unit_Place str | Cohort_Place str

record role_held =
  role_held_name :: str
  role_held_place :: "place option"

record 'id person =
  membership_id :: 'id
  shown_name :: shown_name
  person_address :: email
  is_guest :: bool
  roles :: "role_held list"
  groups :: "'id list"

record 'id listing =
  listing_sections :: "'id dir_section list"
  people :: "'id person list"

section \<open>The arrangement\<close>

fun compare_names :: "collator \<Rightarrow> shown_name \<Rightarrow> shown_name \<Rightarrow> ordering" where
  "compare_names c (Named a) (Named b) = c (display_name_str a) (display_name_str b)"
| "compare_names c (Named _) Unnamed = Less"
| "compare_names c Unnamed (Named _) = Greater"
| "compare_names c Unnamed Unnamed = Equal"

fun place_text :: "place option \<Rightarrow> str" where
  "place_text None = []"
| "place_text (Some (Unit_Place s)) = s"
| "place_text (Some (Cohort_Place s)) = s"

definition compare_people :: "collator \<Rightarrow> 'id::linorder person \<Rightarrow> 'id person \<Rightarrow> ordering" where
  "compare_people c a b =
     then_cmp (compare_names c (shown_name a) (shown_name b)) (cmp (membership_id a) (membership_id b))"

definition compare_sections :: "collator \<Rightarrow> 'id::linorder dir_section \<Rightarrow> 'id dir_section \<Rightarrow> ordering" where
  "compare_sections c a b =
     (case (section_id a, section_id b) of
        (Fau, Fau) \<Rightarrow> Equal
      | (Fau, Group_Section _) \<Rightarrow> Less
      | (Group_Section _, Fau) \<Rightarrow> Greater
      | (Group_Section x, Group_Section y) \<Rightarrow>
          then_cmp (c (unwrap_or (title a) []) (unwrap_or (title b) [])) (cmp x y))"

definition compare_roles :: "collator \<Rightarrow> role_held \<Rightarrow> role_held \<Rightarrow> ordering" where
  "compare_roles c a b =
     then_cmp (c (role_held_name a) (role_held_name b))
       (c (place_text (role_held_place a)) (place_text (role_held_place b)))"

text \<open>
  The two \<open>HashMap\<close>s from an id to its index: a later duplicate overwrites. The sort keys
  \<open>rank[m]\<close> are only read for members that \<open>retain\<close> kept, so the lookup cannot panic.
\<close>

definition index_of :: "'id list \<Rightarrow> 'id \<Rightarrow> nat option" where
  "index_of ids m = rposition (\<lambda>x. x = m) ids"

definition retain_ranked :: "('id \<Rightarrow> nat option) \<Rightarrow> 'id list \<Rightarrow> 'id list" where
  "retain_ranked r xs = keep_unseen id {} (filter (\<lambda>m. r m \<noteq> None) xs)"

definition sort_ranked :: "('id \<Rightarrow> nat option) \<Rightarrow> 'id list \<Rightarrow> 'id list" where
  "sort_ranked r xs = sort_by (\<lambda>a b. the (r a) \<le> the (r b)) (retain_ranked r xs)"

definition arrange_people :: "'id::linorder person list \<Rightarrow> collator \<Rightarrow> 'id person list" where
  "arrange_people ps c = sort_cmp (compare_people c) (keep_unseen membership_id {} ps)"

definition arrange_sections :: "'id::linorder dir_section list \<Rightarrow> 'id list \<Rightarrow> collator \<Rightarrow> 'id dir_section list" where
  "arrange_sections ss ids c =
     map (\<lambda>s. s\<lparr>members := sort_ranked (index_of ids) (members s)\<rparr>) (sort_cmp (compare_sections c) ss)"

text \<open>\<open>group_rank\<close> indexes the whole list of sections, the FAU section included.\<close>

definition group_rank :: "'id dir_section list \<Rightarrow> 'id \<Rightarrow> nat option" where
  "group_rank ss g = index_of (map section_id ss) (Group_Section g)"

definition arrange :: "'id::linorder dir_section list \<Rightarrow> 'id person list \<Rightarrow> collator \<Rightarrow> 'id listing" where
  "arrange ss ps c =
     (let sorted_people = arrange_people ps c;
          sorted_sections = arrange_sections ss (map membership_id sorted_people) c
      in \<lparr>listing_sections = sorted_sections,
          people = map (\<lambda>p. p\<lparr>roles := sort_cmp (compare_roles c) (roles p),
                              groups := sort_ranked (group_rank sorted_sections) (groups p)\<rparr>)
                     sorted_people\<rparr>)"

section \<open>The collation's contract\<close>

text \<open>What \<open>sort_by\<close> needs of \<open>Collator::compare\<close>: a total preorder. ICU documents it.\<close>

definition total_preorder :: "('a \<Rightarrow> 'a \<Rightarrow> ordering) \<Rightarrow> bool" where
  "total_preorder c \<longleftrightarrow>
     (\<forall>a b. c a b = Greater \<longleftrightarrow> c b a = Less) \<and>
     (\<forall>a b d. c a b \<noteq> Greater \<longrightarrow> c b d \<noteq> Greater \<longrightarrow> c a d \<noteq> Greater)"

lemma total_preorderD:
  assumes "total_preorder c"
  shows "c a b = Greater \<longleftrightarrow> c b a = Less"
    and "c a b \<noteq> Greater \<Longrightarrow> c b d \<noteq> Greater \<Longrightarrow> c a d \<noteq> Greater"
    and "c a b \<noteq> Greater \<or> c b a \<noteq> Greater"
proof -
  show 1: "c a b = Greater \<longleftrightarrow> c b a = Less" for a b
    using assms unfolding total_preorder_def by blast
  show "c a b \<noteq> Greater \<Longrightarrow> c b d \<noteq> Greater \<Longrightarrow> c a d \<noteq> Greater"
    using assms unfolding total_preorder_def by blast
  show "c a b \<noteq> Greater \<or> c b a \<noteq> Greater"
    using 1 [of a b] by auto
qed

lemma cmp_total [simp]: "total_preorder cmp"
  by (auto simp: total_preorder_def cmp_def split: if_splits)

lemma then_cmp_simps:
  "then_cmp x y = Greater \<longleftrightarrow> x = Greater \<or> (x = Equal \<and> y = Greater)"
  "then_cmp x y = Less \<longleftrightarrow> x = Less \<or> (x = Equal \<and> y = Less)"
  by (cases x; simp)+

lemma total_preorder_equal:
  assumes "total_preorder c"
  shows "c a b = Equal \<longleftrightarrow> c a b \<noteq> Greater \<and> c b a \<noteq> Greater"
  by (metis total_preorderD(1) [OF assms] ordering.distinct(1,3) ordering.exhaust)

lemma total_preorder_then:
  assumes "total_preorder c" "total_preorder d"
  shows "total_preorder (\<lambda>a b. then_cmp (c (f a) (f b)) (d (g a) (g b)))"
  unfolding total_preorder_def
proof (intro conjI allI impI)
  fix a b
  show "then_cmp (c (f a) (f b)) (d (g a) (g b)) = Greater \<longleftrightarrow> then_cmp (c (f b) (f a)) (d (g b) (g a)) = Less"
    using total_preorderD(1) [OF assms(1)] total_preorderD(1) [OF assms(2)] total_preorder_equal [OF assms(1)]
    by (auto simp: then_cmp_simps)
next
  fix x y z
  assume xy: "then_cmp (c (f x) (f y)) (d (g x) (g y)) \<noteq> Greater"
    and yz: "then_cmp (c (f y) (f z)) (d (g y) (g z)) \<noteq> Greater"
  then have le: "c (f x) (f y) \<noteq> Greater" "c (f y) (f z) \<noteq> Greater" by (simp_all add: then_cmp_simps)
  then have xz: "c (f x) (f z) \<noteq> Greater" by (rule total_preorderD(2) [OF assms(1)])
  show "then_cmp (c (f x) (f z)) (d (g x) (g z)) \<noteq> Greater"
  proof (cases "c (f x) (f z) = Equal")
    case True
    then have "c (f z) (f x) \<noteq> Greater" by (simp add: total_preorder_equal [OF assms(1)])
    then have "c (f y) (f x) \<noteq> Greater" "c (f z) (f y) \<noteq> Greater"
      using le total_preorderD(2) [OF assms(1)] by blast+
    with le have "c (f x) (f y) = Equal" "c (f y) (f z) = Equal"
      by (simp_all add: total_preorder_equal [OF assms(1)])
    with xy yz have "d (g x) (g z) \<noteq> Greater"
      using total_preorderD(2) [OF assms(2)] by (simp add: then_cmp_simps)
    with xz show ?thesis by (simp add: then_cmp_simps)
  next
    case False
    with xz show ?thesis by (simp add: then_cmp_simps)
  qed
qed

lemma sort_cmp_sorted:
  assumes "total_preorder c"
  shows "sorted_wrt (\<lambda>a b. c a b \<noteq> Greater) (sort_cmp c xs)"
  unfolding sort_cmp_def
proof (rule sorted_wrt_sort_by)
  show "c a b \<noteq> Greater \<or> c b a \<noteq> Greater" for a b by (rule total_preorderD(3) [OF assms])
  show "c a b \<noteq> Greater \<Longrightarrow> c b d \<noteq> Greater \<Longrightarrow> c a d \<noteq> Greater" for a b d
    by (rule total_preorderD(2) [OF assms])
qed

lemma set_sort_cmp [simp]: "set (sort_cmp c xs) = set xs"
  and mset_sort_cmp [simp]: "mset (sort_cmp c xs) = mset xs"
  and distinct_map_sort_cmp [simp]: "distinct (map f (sort_cmp c xs)) = distinct (map f xs)"
  by (simp_all add: sort_cmp_def)

lemma compare_names_total: "total_preorder c \<Longrightarrow> total_preorder (compare_names c)"
proof -
  assume c: "total_preorder c"
  have "compare_names c a b = Greater \<longleftrightarrow> compare_names c b a = Less" for a b
    using total_preorderD(1) [OF c] by (cases a; cases b; simp)
  moreover have "compare_names c a d \<noteq> Greater"
    if "compare_names c a b \<noteq> Greater" "compare_names c b d \<noteq> Greater" for a b d
  proof (cases "\<exists>x y z. a = Named x \<and> b = Named y \<and> d = Named z")
    case True
    with that total_preorderD(2) [OF c] show ?thesis by auto
  next
    case False
    with that show ?thesis by (cases a; cases b; cases d) auto
  qed
  ultimately show ?thesis unfolding total_preorder_def by blast
qed

lemma compare_people_total: "total_preorder c \<Longrightarrow> total_preorder (compare_people c)"
  using total_preorder_then [OF compare_names_total cmp_total]
  unfolding compare_people_def [abs_def] by blast

lemma compare_sections_total: "total_preorder c \<Longrightarrow> total_preorder (compare_sections c)"
proof -
  assume c: "total_preorder c"
  have t: "total_preorder (\<lambda>a b. then_cmp (c (fst a) (fst b)) (cmp (snd a) (snd b)))"
    by (rule total_preorder_then [OF c cmp_total])
  note t1 = total_preorderD(1) [OF t, of "(x, i)" "(y, j)" for x i y j, simplified]
  note t2 = total_preorderD(2) [OF t, of "(x, i)" "(y, j)" "(z, l)" for x i y j z l, simplified]
  show ?thesis
    unfolding total_preorder_def
  proof (intro conjI allI impI)
    show "compare_sections c a b = Greater \<longleftrightarrow> compare_sections c b a = Less" for a b
      using t1 by (cases "section_id a"; cases "section_id b") (simp_all add: compare_sections_def)
    show "compare_sections c a d \<noteq> Greater"
      if "compare_sections c a b \<noteq> Greater" "compare_sections c b d \<noteq> Greater" for a b d
      using that t2
      by (cases "section_id a"; cases "section_id b"; cases "section_id d")
        (simp_all add: compare_sections_def)
  qed
qed

lemma cmp_Equal: "cmp a b \<noteq> Greater \<Longrightarrow> cmp b a \<noteq> Greater \<Longrightarrow> a = b"
  by (auto simp: cmp_def split: if_splits)

text \<open>People with the same name are told apart by id, so the order is total on distinct people.\<close>

lemma compare_people_antisym:
  assumes "total_preorder c" "compare_people c a b \<noteq> Greater" "compare_people c b a \<noteq> Greater"
  shows "membership_id a = membership_id b"
proof -
  have "compare_names c (shown_name a) (shown_name b) = Equal"
    "compare_names c (shown_name b) (shown_name a) = Equal"
    using assms(2,3) total_preorder_equal [OF compare_names_total [OF assms(1)]]
    by (auto simp: compare_people_def then_cmp_simps)
  with assms(2,3) have "cmp (membership_id a) (membership_id b) \<noteq> Greater"
    "cmp (membership_id b) (membership_id a) \<noteq> Greater"
    by (auto simp: compare_people_def then_cmp_simps)
  then show ?thesis by (rule cmp_Equal)
qed

lemma arrange_people_distinct: "distinct (map membership_id (arrange_people ps c))"
  by (simp add: arrange_people_def keep_unseen_distinct)

lemma arrange_people_ids: "membership_id ` set (arrange_people ps c) = membership_id ` set ps"
  by (simp add: arrange_people_def keep_unseen_set)

lemma index_of_None: "index_of ids m = None \<longleftrightarrow> m \<notin> set ids"
  by (auto simp: index_of_def rposition_None)

lemma set_sort_ranked: "set (sort_ranked r xs) = {m \<in> set xs. r m \<noteq> None}"
  using keep_unseen_set [of id "{}" "filter (\<lambda>m. r m \<noteq> None) xs"]
  by (auto simp: sort_ranked_def retain_ranked_def)

lemma distinct_sort_ranked: "distinct (sort_ranked r xs)"
  using keep_unseen_distinct [of id "{}" "filter (\<lambda>m. r m \<noteq> None) xs"]
  by (simp add: sort_ranked_def retain_ranked_def)

lemma sorted_sort_ranked: "sorted (map (\<lambda>m. the (r m)) (sort_ranked r xs))"
  unfolding sort_ranked_def by (rule sorted_sort_by_key)

lemma section_id_arrange:
  "map section_id (arrange_sections ss ids c) = map section_id (sort_cmp (compare_sections c) ss)"
  by (simp add: arrange_sections_def)

end
