(* ===== verification/Directory_Properties.thy ===== *)
theory Directory_Properties
  imports Listing Samples
begin

text \<open>The properties of \<open>Email\<close>, \<open>Addresses\<close> and \<open>Listing\<close>.\<close>

section \<open>Addresses\<close>

text \<open>A parsed address is the lower-cased, trimmed input, which has one
  at sign, a non-empty local part and a domain of at least two labels, and no blank or control
  character.\<close>

theorem parsed_email_has_one_at:
  assumes "email_parse U raw = Inr e"
  shows "e = Email (to_lowercase U (trim raw)) \<and> count_list (trim raw) 64 = 1 \<and> hd (trim raw) \<noteq> 64
    \<and> 2 \<le> length (split_by (\<lambda>c. c = 46) (tl (dropWhile (\<lambda>c. c \<noteq> 64) (trim raw))))
    \<and> {c \<in> set (trim raw). is_whitespace c \<or> is_control c} = {}"
  using assms
proof (rule email_parse_Inr)
  fix l d
  assume t: "trim raw = l @ 64 # d" and e: "e = Email (to_lowercase U (trim raw))"
    and l: "l \<noteq> []" "64 \<notin> set l" "64 \<notin> set d" and dot: "46 \<in> set d"
    and blank: "\<forall>c\<in>set (trim raw). \<not> is_whitespace c \<and> \<not> is_control c"
  have "dropWhile (\<lambda>c. c \<noteq> 64) (trim raw) = 64 # d"
    unfolding t using l(2) by (induction l) auto
  moreover have "2 \<le> length (split_by (\<lambda>c. c = 46) d)"
  proof -
    from dot obtain a b where ab: "d = a @ 46 # b" "46 \<notin> set a" by (meson split_list_first)
    then have "\<forall>x\<in>set a. \<not> x = 46" by auto
    from split_by_append_sep [OF this refl] ab have "split_by (\<lambda>c. c = 46) d = a # split_by (\<lambda>c. c = 46) b"
      by simp
    then show ?thesis by (cases "split_by (\<lambda>c. c = 46) b") auto
  qed
  moreover have "hd (trim raw) \<noteq> 64" using l(1,2) by (cases l) (auto simp: t)
  moreover have "count_list (trim raw) 64 = 1" by (rule email_parse_one_at [OF assms])
  ultimately show ?thesis using e blank by auto
qed

text \<open>C36 mailto_reads_back: the link of a selection, read the way a mail client reads it, gives
  exactly the selected addresses in order; whatever an address contains, it never splits in two.\<close>

theorem mailto_reads_back:
  assumes "mailto r field = Some (Link url)" "recipient_list r \<noteq> []"
    and "\<forall>a\<in>set (recipient_list r). \<forall>c\<in>set (email_str a). c < 1114112"
  shows "read_mailto field url = map email_str (recipient_list r) \<and> str_len url \<le> 1800"
proof -
  from assms(1) obtain ss where ss: "map address_spec (recipient_list r) = map Some ss"
    and url: "url = mailto_url field ss" "str_len url \<le> mailto_max_chars"
    by (auto simp: mailto_def Let_def those_Some split: if_splits)
  from ss assms(2) have "ss \<noteq> []" by auto
  from read_mailto_url [OF ss this assms(3)] url show ?thesis by (simp add: mailto_max_chars_def)
qed

definition sample_recipients :: recipients where
  "sample_recipients = recipients_new [Email (lit ''kari, ola@fau.no''), Email (lit ''per@fau.no''), Email (lit ''kari, ola@fau.no'')]"

theorem mailto_reads_back_witness:
  "\<exists>url. mailto sample_recipients Bcc_Field = Some (Link url)
     \<and> read_mailto Bcc_Field url = [lit ''kari, ola@fau.no'', lit ''per@fau.no'']"
proof -
  have m: "mailto sample_recipients Bcc_Field
      = Some (Link (lit ''mailto:?bcc=%22kari%2C%20ola%22@fau.no,per@fau.no''))" by code_simp
  have l: "recipient_list sample_recipients = [Email (lit ''kari, ola@fau.no''), Email (lit ''per@fau.no'')]" by code_simp
  have "\<forall>a\<in>set (recipient_list sample_recipients). \<forall>c\<in>set (email_str a). c < 1114112"
    unfolding l by (simp add: lit_def)
  with m mailto_reads_back [OF m] show ?thesis by (auto simp: l)
qed

text \<open>A selection keeps every address, once, in first-seen order.\<close>

theorem recipients_once:
  "(distinct (recipient_list (recipients_new as)))
   \<and> (set (recipient_list (recipients_new as)) = set as)
   \<and> (subseq (recipient_list (recipients_new as)) as)"
proof (intro conjI)
  have "distinct (map email_str (keep_unseen email_str {} as))" by (rule keep_unseen_distinct)
  then show "distinct (recipient_list (recipients_new as))"
    by (simp add: recipients_new_def distinct_map)
  have "email_str ` set (keep_unseen email_str {} as) = email_str ` set as" by (simp add: keep_unseen_set)
  then show "set (recipient_list (recipients_new as)) = set as"
    by (simp add: recipients_new_def inj_image_eq_iff inj_def email.expand)
  show "subseq (recipient_list (recipients_new as)) as"
    by (simp add: recipients_new_def keep_unseen_subseq)
qed

section \<open>The directory\<close>

text \<open>With a total collation, the people of the directory do not depend on
  the order they were read in, when no two rows are of one person; everyone is listed once, in name
  order.\<close>

theorem directory_is_stable:
  assumes "total_preorder c" "mset ps = mset qs" "distinct (map membership_id ps)"
  shows "arrange ss ps c = arrange ss qs c
    \<and> distinct (map membership_id (people (arrange ss ps c)))
    \<and> membership_id ` set (people (arrange ss ps c)) = membership_id ` set ps
    \<and> sorted_wrt (\<lambda>a b. compare_people c a b \<noteq> Greater) (people (arrange ss ps c))"
proof -
  have dq: "distinct (map membership_id qs)"
    using assms(2,3) by (metis mset_eq_imp_distinct_iff mset_map)
  have keep: "keep_unseen membership_id {} ps = ps" "keep_unseen membership_id {} qs = qs"
    using keep_unseen_id [OF assms(3), of "{}"] keep_unseen_id [OF dq, of "{}"] by simp_all
  have inj: "inj_on membership_id (set ps)" using assms(3) by (simp add: distinct_map)
  have "sort_cmp (compare_people c) ps = sort_cmp (compare_people c) qs"
  proof (rule sorted_wrt_unique)
    show "sorted_wrt (\<lambda>a b. compare_people c a b \<noteq> Greater) (sort_cmp (compare_people c) ps)"
      "sorted_wrt (\<lambda>a b. compare_people c a b \<noteq> Greater) (sort_cmp (compare_people c) qs)"
      by (rule sort_cmp_sorted [OF compare_people_total [OF assms(1)]])+
    fix a b assume "a \<in> set (sort_cmp (compare_people c) ps)" "b \<in> set (sort_cmp (compare_people c) ps)"
      "compare_people c a b \<noteq> Greater" "compare_people c b a \<noteq> Greater"
    with compare_people_antisym [OF assms(1)] inj show "a = b" by (auto dest: inj_onD)
  qed (simp add: assms(2))
  then have same: "arrange_people ps c = arrange_people qs c"
    by (simp add: arrange_people_def keep)
  let ?f = "\<lambda>p. p\<lparr>roles := sort_cmp (compare_roles c) (roles p),
      groups := sort_ranked (group_rank (arrange_sections ss (map membership_id (arrange_people ps c)) c)) (groups p)\<rparr>"
  have people: "people (arrange ss ps c) = map ?f (arrange_people ps c)"
    by (simp add: arrange_def Let_def)
  have "sorted_wrt (\<lambda>a b. compare_people c a b \<noteq> Greater) (arrange_people ps c)"
    unfolding arrange_people_def by (rule sort_cmp_sorted [OF compare_people_total [OF assms(1)]])
  then have "sorted_wrt (\<lambda>a b. compare_people c a b \<noteq> Greater) (map ?f (arrange_people ps c))"
    by (simp add: sorted_wrt_map compare_people_def)
  moreover have "map membership_id (map ?f (arrange_people ps c)) = map membership_id (arrange_people ps c)"
    by simp
  moreover have "membership_id ` set (map ?f (arrange_people ps c)) = membership_id ` set (arrange_people ps c)"
    by (simp add: image_image)
  ultimately show ?thesis
    using same arrange_people_distinct [of ps c] arrange_people_ids [of ps c]
    by (simp only: people) (simp add: arrange_def Let_def)
qed

definition sample_person :: "nat \<Rightarrow> string \<Rightarrow> nat person" where
  "sample_person i name = \<lparr>membership_id = i, shown_name = Named (Display_Name (lit name)),
     person_address = Email (lit ''a@b.no''), is_guest = False, roles = [], groups = []\<rparr>"

text \<open>A section of the directory lists only people the directory
  describes, each once, in the order of the people list; and a person's groups are listed sections,
  each once, in section order.\<close>

theorem sections_list_people_described:
  assumes "arrange ss ps c = l" "s \<in> set (listing_sections l)" "p \<in> set (people l)"
  shows "set (members s) \<subseteq> membership_id ` set (people l) \<and> distinct (members s)
    \<and> sorted (map (\<lambda>m. the (index_of (map membership_id (people l)) m)) (members s))
    \<and> Group_Section ` set (groups p) \<subseteq> section_id ` set (listing_sections l) \<and> distinct (groups p)
    \<and> sorted (map (\<lambda>g. the (group_rank (listing_sections l) g)) (groups p))"
proof -
  let ?ids = "map membership_id (arrange_people ps c)"
  let ?ss = "arrange_sections ss ?ids c"
  let ?f = "\<lambda>p. p\<lparr>roles := sort_cmp (compare_roles c) (roles p), groups := sort_ranked (group_rank ?ss) (groups p)\<rparr>"
  have l: "listing_sections l = ?ss" "people l = map ?f (arrange_people ps c)"
    using assms(1) by (auto simp: arrange_def Let_def)
  have ids: "map membership_id (people l) = ?ids" by (simp add: l(2))
  from assms(2) l(1) obtain m0 where m: "members s = sort_ranked (index_of ?ids) m0"
    by (auto simp: arrange_sections_def)
  from assms(3) l(2) obtain g0 where g: "groups p = sort_ranked (group_rank ?ss) g0" by auto
  have "set (members s) \<subseteq> set ?ids" by (auto simp: m set_sort_ranked index_of_None)
  then have "set (members s) \<subseteq> membership_id ` set (people l)" unfolding ids [symmetric] by simp
  moreover have "Group_Section ` set (groups p) \<subseteq> section_id ` set ?ss"
    by (auto simp: g set_sort_ranked group_rank_def index_of_None)
  ultimately show ?thesis
    by (simp only: ids l(1) m g distinct_sort_ranked sorted_sort_ranked simp_thms)
qed

definition sample_section :: "nat dir_section" where
  "sample_section = \<lparr>section_id = section_id.Fau, title = None, members = [2, 7, 1]\<rparr>"

end
