(* ===== verification/Crypto.thy ===== *)
theory Crypto
  imports Addresses
begin

text \<open>
  \<open>crypto/src/unit.rs\<close> and \<open>envelope.rs\<close>: the units with a transit key, their key names, and the
  stored ciphertext's envelope. \<open>Uuid\<close>'s bytes and text are the parameter \<open>uuid_ops\<close>, the AEAD
  cipher the parameter \<open>aead\<close>. Bytes are numbers below 256.
\<close>

section \<open>Chat months\<close>

record chat_month =
  cm_year :: int
  cm_month :: int

definition zero_pad :: "nat \<Rightarrow> str \<Rightarrow> str" where
  "zero_pad w s = replicate (w - length s) 48 @ s"

text \<open>\<open>{:0w}\<close> of a signed integer: the sign counts towards the width.\<close>

definition show_padded :: "nat \<Rightarrow> int \<Rightarrow> str" where
  "show_padded w n =
     (if n < 0 then 45 # zero_pad (w - 1) (show_nat (nat (- n))) else zero_pad w (show_nat (nat n)))"

definition chat_month_display :: "chat_month \<Rightarrow> str" where
  "chat_month_display m = show_padded 4 (cm_year m) @ 45 # show_padded 2 (cm_month m)"

definition chat_month_parse :: "str \<Rightarrow> chat_month option" where
  "chat_month_parse s =
     (case split_once 45 s of
        None \<Rightarrow> None
      | Some (y, m) \<Rightarrow>
          if str_len y \<noteq> 4 \<or> str_len m \<noteq> 2 \<or> \<not> list_all is_ascii_digit (y @ m) then None
          else let month = int (read_nat m)
               in if 1 \<le> month \<and> month \<le> 12
                  then Some \<lparr>cm_year = int (read_nat y), cm_month = month\<rparr> else None)"

definition chat_month_index :: "chat_month \<Rightarrow> int" where
  "chat_month_index m = cm_year m * 12 + cm_month m - 1"

definition chat_month_valid :: "chat_month \<Rightarrow> bool" where
  "chat_month_valid m \<longleftrightarrow> 0 \<le> cm_year m \<and> cm_year m \<le> 9999 \<and> 1 \<le> cm_month m \<and> cm_month m \<le> 12"

section \<open>Units\<close>

record 'u uuid_ops =
  uuid_bytes :: "'u \<Rightarrow> nat list"
  uuid_text :: "'u \<Rightarrow> str"

text \<open>What \<open>Uuid\<close> documents: 16 bytes, and 36 characters, that identify it.\<close>

definition uuid_ops_ok :: "'u uuid_ops \<Rightarrow> bool" where
  "uuid_ops_ok U \<longleftrightarrow> (\<forall>a. length (uuid_bytes U a) = 16 \<and> length (uuid_text U a) = 36) \<and>
     inj (uuid_bytes U) \<and> inj (uuid_text U)"

datatype 'u crypto_unit =
    Record_Unit (unit_tenant: 'u)
  | Document_Unit (unit_tenant: 'u) (unit_document: 'u)
  | Chat_Unit (unit_tenant: 'u) (unit_month: chat_month)
  | Messages_Unit (unit_tenant: 'u)

fun key_name :: "'u uuid_ops \<Rightarrow> 'u crypto_unit \<Rightarrow> str" where
  "key_name U (Record_Unit t) = lit ''fau-'' @ uuid_text U t @ lit ''-record''"
| "key_name U (Document_Unit t d) = lit ''fau-'' @ uuid_text U t @ lit ''-doc-'' @ uuid_text U d"
| "key_name U (Chat_Unit t m) = lit ''fau-'' @ uuid_text U t @ lit ''-chat-'' @ chat_month_display m"
| "key_name U (Messages_Unit t) = lit ''fau-'' @ uuid_text U t @ lit ''-messages''"

fun storage :: "'u uuid_ops \<Rightarrow> 'u crypto_unit \<Rightarrow> (str \<times> str option) option" where
  "storage U (Record_Unit t) = Some (lit ''record'', None)"
| "storage U (Document_Unit t d) = Some (lit ''document'', Some (uuid_text U d))"
| "storage U (Chat_Unit t m) = Some (lit ''chat'', Some (chat_month_display m))"
| "storage U (Messages_Unit t) = None"

definition strip_start :: "str \<Rightarrow> str \<Rightarrow> str option" where
  "strip_start p s = (if prefix p s then Some (drop (length p) s) else None)"

definition has_transit_prefix :: "str \<Rightarrow> bool" where
  "has_transit_prefix s =
     (case strip_start (lit ''vault:v'') s of
        None \<Rightarrow> False
      | Some rest \<Rightarrow>
          (case split_once 58 rest of
             None \<Rightarrow> False
           | Some (v, body) \<Rightarrow> v \<noteq> [] \<and> list_all is_ascii_digit v \<and> body \<noteq> []))"

datatype wrapped_key = Wrapped_Key (wrapped_key_str: str)

definition wrapped_key_new :: "str \<Rightarrow> wrapped_key option" where
  "wrapped_key_new s = (if has_transit_prefix s then Some (Wrapped_Key s) else None)"

datatype message_ciphertext = Message_Ciphertext (message_ciphertext_str: str)

definition message_ciphertext_new :: "str \<Rightarrow> message_ciphertext option" where
  "message_ciphertext_new s = (if has_transit_prefix s then Some (Message_Ciphertext s) else None)"

section \<open>Associated data\<close>

record 'u aad =
  aad_tenant_id :: 'u
  aad_table :: str
  aad_column :: str
  aad_row_id :: 'u

text \<open>\<open>(n as u32).to_be_bytes()\<close>: the cast wraps at $2^{32}$.\<close>

definition u32_be :: "nat \<Rightarrow> nat list" where
  "u32_be n = (let m = n mod 4294967296
     in [m div 16777216, m div 65536 mod 256, m div 256 mod 256, m mod 256])"

definition length_prefixed :: "str \<Rightarrow> nat list" where
  "length_prefixed part = u32_be (str_len part) @ utf8_bytes part"

definition aad_to_bytes :: "'u uuid_ops \<Rightarrow> 'u aad \<Rightarrow> nat list" where
  "aad_to_bytes U a =
     lit ''fau-aad-v1'' @ uuid_bytes U (aad_tenant_id a)
       @ length_prefixed (aad_table a) @ length_prefixed (aad_column a)
       @ uuid_bytes U (aad_row_id a)"

section \<open>The envelope\<close>

record 'k aead =
  aead_encrypt :: "'k \<Rightarrow> nat list \<Rightarrow> nat list \<Rightarrow> nat list \<Rightarrow> nat list option"
  aead_decrypt :: "'k \<Rightarrow> nat list \<Rightarrow> nat list \<Rightarrow> nat list \<Rightarrow> nat list option"

text \<open>What an AEAD cipher promises: decryption inverts encryption, with a 16-byte tag.\<close>

definition aead_ok :: "'k aead \<Rightarrow> bool" where
  "aead_ok A \<longleftrightarrow> (\<forall>k n a m c. aead_encrypt A k n a m = Some c \<longrightarrow>
     aead_decrypt A k n a c = Some m \<and> length c = length m + 16)"

datatype crypto_error = Randomness | Decrypt | Malformed

definition is_scalar :: "nat \<Rightarrow> bool" where
  "is_scalar c \<longleftrightarrow> c < 55296 \<or> (57344 \<le> c \<and> c < 1114112)"

text \<open>\<open>str::from_utf8\<close>: the bytes are the encoding of a string of scalar values.\<close>

definition from_utf8 :: "nat list \<Rightarrow> str option" where
  "from_utf8 bs =
     (let s = utf8_decode bs
      in if list_all is_scalar s \<and> utf8_bytes s = bs then Some s else None)"

definition envelope_header :: nat where "envelope_header = 25"

definition encrypt :: "'u uuid_ops \<Rightarrow> 'k aead \<Rightarrow> nat list option \<Rightarrow> 'k \<Rightarrow> 'u aad \<Rightarrow> str \<Rightarrow> (crypto_error, nat list) result" where
  "encrypt U A random key a plaintext =
     (case random of
        None \<Rightarrow> Inl Randomness
      | Some nonce \<Rightarrow>
          (case aead_encrypt A key nonce (aad_to_bytes U a) (utf8_bytes plaintext) of
             None \<Rightarrow> Inl Decrypt
           | Some body \<Rightarrow> Inr (1 # nonce @ body)))"

definition decrypt :: "'u uuid_ops \<Rightarrow> 'k aead \<Rightarrow> 'k \<Rightarrow> 'u aad \<Rightarrow> nat list \<Rightarrow> (crypto_error, str) result" where
  "decrypt U A key a b =
     (if length b < envelope_header + 16 \<or> b ! 0 \<noteq> 1 then Inl Malformed
      else case aead_decrypt A key (take (envelope_header - 1) (drop 1 b)) (aad_to_bytes U a) (drop envelope_header b) of
          None \<Rightarrow> Inl Decrypt
        | Some plain \<Rightarrow> (case from_utf8 plain of None \<Rightarrow> Inl Malformed | Some text \<Rightarrow> Inr text))"

section \<open>Facts: numbers and months\<close>

lemma read_nat_zeros: "read_nat (replicate n 48 @ s) = read_nat s"
  unfolding read_nat_def by (induction n) simp_all

lemma zero_pad_length: "length s \<le> w \<Longrightarrow> length (zero_pad w s) = w"
  by (simp add: zero_pad_def)

lemma zero_pad_digits: "list_all is_ascii_digit s \<Longrightarrow> list_all is_ascii_digit (zero_pad w s)"
  by (auto simp: zero_pad_def list_all_iff ascii_defs)

lemma show_padded_nat:
  assumes "n < 10 ^ w" "0 < w"
  shows "length (show_padded w (int n)) = w" "list_all is_ascii_digit (show_padded w (int n))"
    "read_nat (show_padded w (int n)) = n"
proof -
  have "length (show_nat n) \<le> w" using assms by (rule length_show_nat_le)
  then show "length (show_padded w (int n)) = w" by (simp add: show_padded_def zero_pad_length)
  have "list_all is_ascii_digit (show_nat n)" by (auto simp: list_all_iff show_nat_digits)
  then show "list_all is_ascii_digit (show_padded w (int n))" by (simp add: show_padded_def zero_pad_digits)
  show "read_nat (show_padded w (int n)) = n" by (simp add: show_padded_def zero_pad_def read_nat_zeros)
qed

lemma digits_ascii: "list_all is_ascii_digit s \<Longrightarrow> str_len s = length s"
  by (rule str_len_ascii) (auto simp: list_all_iff ascii_defs)

lemma digits_no_hyphen: "list_all is_ascii_digit s \<Longrightarrow> 45 \<notin> set s"
  by (auto simp: list_all_iff ascii_defs)

lemma parse_display:
  assumes "chat_month_valid m"
  shows "chat_month_parse (chat_month_display m) = Some m"
proof -
  from assms obtain y n where m: "cm_year m = int y" "cm_month m = int n" and b: "y < 10 ^ 4" "n < 10 ^ 2" "1 \<le> n" "n \<le> 12"
    by (cases "cm_year m" rule: int_cases2; cases "cm_month m" rule: int_cases2)
      (auto simp: chat_month_valid_def)
  note y = show_padded_nat [OF b(1), simplified] and n = show_padded_nat [OF b(2), simplified]
  from y n b show ?thesis
    by (simp add: chat_month_display_def chat_month_parse_def m split_once_append digits_no_hyphen
        digits_ascii Let_def)
qed

lemma read_nat_snoc: "read_nat (s @ [c]) = 10 * read_nat s + (c - 48)"
  by (simp add: read_nat_def)

lemma decimal_step:
  fixes a b p q :: nat
  assumes "10 * a + p = 10 * b + q" "p < 10" "q < 10"
  shows "p = q \<and> a = b"
  using assms by presburger

lemma read_nat_inject:
  "length s = length t \<Longrightarrow> list_all is_ascii_digit s \<Longrightarrow> list_all is_ascii_digit t \<Longrightarrow>
     read_nat s = read_nat t \<Longrightarrow> s = t"
proof (induction s arbitrary: t rule: rev_induct)
  case (snoc c s)
  then obtain d t' where t: "t = t' @ [d]" by (cases t rule: rev_cases) auto
  from snoc.prems have c: "48 \<le> c" "c < 58" "48 \<le> d" "d < 58" by (auto simp: t ascii_defs)
  from snoc.prems(4) have e: "10 * read_nat s + (c - 48) = 10 * read_nat t' + (d - 48)"
    by (simp add: t read_nat_snoc)
  moreover from c have "c - 48 < 10" "d - 48 < 10" by linarith+
  ultimately have "c - 48 = d - 48" "read_nat s = read_nat t'" using decimal_step by blast+
  with c have "c = d" "read_nat s = read_nat t'" by linarith+
  with snoc show ?case by (auto simp: t)
qed simp

lemma read_nat_bound: "list_all is_ascii_digit s \<Longrightarrow> read_nat s < 10 ^ length s"
proof (induction s rule: rev_induct)
  case (snoc c s)
  then show ?case by (auto simp: read_nat_snoc ascii_defs)
qed (simp add: read_nat_def)

lemma show_padded_read:
  assumes "list_all is_ascii_digit s" "0 < length s"
  shows "show_padded (length s) (int (read_nat s)) = s"
  using show_padded_nat [OF read_nat_bound [OF assms(1)] assms(2)] assms(1)
  by (intro read_nat_inject) auto

lemma parse_Some:
  assumes "chat_month_parse s = Some m"
  shows "chat_month_valid m \<and> chat_month_display m = s"
proof -
  from assms obtain y n where s: "split_once 45 s = Some (y, n)" and
    l: "str_len y = 4" "str_len n = 2" and d: "list_all is_ascii_digit y" "list_all is_ascii_digit n" and
    b: "1 \<le> read_nat n" "read_nat n \<le> 12" and m: "m = \<lparr>cm_year = int (read_nat y), cm_month = int (read_nat n)\<rparr>"
    by (auto simp: chat_month_parse_def Let_def split: option.splits if_splits)
  from l d have len: "length y = 4" "length n = 2" by (simp_all add: digits_ascii)
  with d show_padded_read [of y] show_padded_read [of n] split_once_Some [OF s] read_nat_bound [OF d(1)] b
  show ?thesis by (simp add: chat_month_display_def chat_month_valid_def m)
qed

lemma chat_month_index_less:
  assumes "chat_month_valid a" "chat_month_valid b"
  shows "chat_month_index a < chat_month_index b \<longleftrightarrow>
    cm_year a < cm_year b \<or> (cm_year a = cm_year b \<and> cm_month a < cm_month b)"
  using assms unfolding chat_month_valid_def chat_month_index_def by linarith

section \<open>Facts: key names\<close>

definition unit_valid :: "'u crypto_unit \<Rightarrow> bool" where
  "unit_valid un \<longleftrightarrow> (case un of Chat_Unit t m \<Rightarrow> chat_month_valid m | _ \<Rightarrow> True)"

lemma chat_month_display_inject:
  "chat_month_valid a \<Longrightarrow> chat_month_valid b \<Longrightarrow> chat_month_display a = chat_month_display b \<Longrightarrow> a = b"
proof -
  assume v: "chat_month_valid a" "chat_month_valid b" and e: "chat_month_display a = chat_month_display b"
  have "chat_month_parse (chat_month_display a) = Some b" unfolding e by (rule parse_display [OF v(2)])
  then show "a = b" unfolding parse_display [OF v(1)] by (rule option.inject [THEN iffD1])
qed

lemma key_name_inject:
  assumes U: "uuid_ops_ok U" and v: "unit_valid a" "unit_valid b" and e: "key_name U a = key_name U b"
  shows "a = b"
proof -
  have len: "length (uuid_text U x) = 36" for x using U by (simp add: uuid_ops_ok_def)
  have inj: "uuid_text U x = uuid_text U y \<Longrightarrow> x = y" for x y
    using U by (simp add: uuid_ops_ok_def inj_eq)
  have drop: "take 36 (drop 4 (key_name U un)) = uuid_text U (unit_tenant un)" for un
    by (cases un) (simp_all only: key_name.simps crypto_unit.sel drop_append length_lit, simp_all add: len)
  from drop [of a] drop [of b] have "uuid_text U (unit_tenant a) = uuid_text U (unit_tenant b)"
    unfolding e by simp
  then have t: "unit_tenant a = unit_tenant b" by (rule inj)
  have tag: "drop 40 (key_name U un) = (case un of Record_Unit _ \<Rightarrow> lit ''-record''
      | Document_Unit _ d \<Rightarrow> lit ''-doc-'' @ uuid_text U d
      | Chat_Unit _ m \<Rightarrow> lit ''-chat-'' @ chat_month_display m | Messages_Unit _ \<Rightarrow> lit ''-messages'')" for un
    by (cases un) (simp_all add: len)
  from tag [of a] tag [of b] e
  have tags: "(case a of Record_Unit _ \<Rightarrow> lit ''-record''
      | Document_Unit _ d \<Rightarrow> lit ''-doc-'' @ uuid_text U d
      | Chat_Unit _ m \<Rightarrow> lit ''-chat-'' @ chat_month_display m | Messages_Unit _ \<Rightarrow> lit ''-messages'')
    = (case b of Record_Unit _ \<Rightarrow> lit ''-record''
      | Document_Unit _ d \<Rightarrow> lit ''-doc-'' @ uuid_text U d
      | Chat_Unit _ m \<Rightarrow> lit ''-chat-'' @ chat_month_display m | Messages_Unit _ \<Rightarrow> lit ''-messages'')"
    by simp
  show ?thesis
  proof (cases a; cases b)
    fix x d y d' assume ab: "a = Document_Unit x d" "b = Document_Unit y d'"
    with tags have "uuid_text U d = uuid_text U d'" by simp
    then have "d = d'" by (rule inj)
    with ab t show ?thesis by simp
  next
    fix x m y m' assume ab: "a = Chat_Unit x m" "b = Chat_Unit y m'"
    with tags have "chat_month_display m = chat_month_display m'" by simp
    moreover have "chat_month_valid m" "chat_month_valid m'" using v ab by (simp_all add: unit_valid_def)
    ultimately have "m = m'" using chat_month_display_inject by blast
    with ab t show ?thesis by simp
  qed (use tags t in \<open>simp_all add: lit_def\<close>)
qed

section \<open>Facts: associated data and the envelope\<close>

lemma byte_digits:
  fixes k :: nat
  shows "k = 16777216 * (k div 16777216) + 65536 * (k div 65536 mod 256) + 256 * (k div 256 mod 256) + k mod 256"
proof -
  define a b c where abc: "a = k div 256" "b = a div 256" "c = b div 256"
  have d: "k div 65536 = b" "k div 16777216 = c"
    by (simp_all add: abc div_mult2_eq [symmetric])
  have "k = 256 * a + k mod 256" "a = 256 * b + a mod 256" "b = 256 * c + b mod 256"
    by (simp_all add: abc)
  then show ?thesis unfolding d abc(1) [symmetric] by linarith
qed

lemma u32_be_inject: "m < 4294967296 \<Longrightarrow> n < 4294967296 \<Longrightarrow> u32_be m = u32_be n \<Longrightarrow> m = n"
  using byte_digits [of m] byte_digits [of n] by (simp add: u32_be_def Let_def)

lemma length_u32_be [simp]: "length (u32_be n) = 4"
  by (simp add: u32_be_def Let_def)

lemma length_utf8_bytes: "length (utf8_bytes s) = str_len s"
  unfolding utf8_bytes_def str_len_def by (induction s) (simp_all add: utf8_char_len)

lemma utf8_bytes_inject:
  "\<forall>c\<in>set s. c < 1114112 \<Longrightarrow> \<forall>c\<in>set t. c < 1114112 \<Longrightarrow> utf8_bytes s = utf8_bytes t \<Longrightarrow> s = t"
proof -
  assume v: "\<forall>c\<in>set s. c < 1114112" "\<forall>c\<in>set t. c < 1114112" and e: "utf8_bytes s = utf8_bytes t"
  have "utf8_decode (utf8_bytes s) = t" unfolding e by (rule utf8_decode_bytes [OF v(2)])
  then show "s = t" unfolding utf8_decode_bytes [OF v(1)] .
qed

definition aad_valid :: "'u aad \<Rightarrow> bool" where
  "aad_valid a \<longleftrightarrow> str_len (aad_table a) < 4294967296 \<and> str_len (aad_column a) < 4294967296
     \<and> list_all is_scalar (aad_table a) \<and> list_all is_scalar (aad_column a)"

lemma scalars_valid: "list_all is_scalar s \<Longrightarrow> \<forall>c\<in>set s. c < 1114112"
  by (auto simp: list_all_iff is_scalar_def)

lemma length_prefixed_inject:
  assumes "str_len s < 4294967296" "str_len t < 4294967296" "list_all is_scalar s" "list_all is_scalar t"
    and "length_prefixed s @ x = length_prefixed t @ y"
  shows "s = t \<and> x = y"
proof -
  from assms(5) have u: "u32_be (str_len s) = u32_be (str_len t)"
    and r: "utf8_bytes s @ x = utf8_bytes t @ y"
    by (simp_all add: length_prefixed_def)
  from u32_be_inject [OF assms(1,2) u] r have "utf8_bytes s = utf8_bytes t" "x = y"
    by (simp_all add: length_utf8_bytes)
  with utf8_bytes_inject [OF scalars_valid [OF assms(3)] scalars_valid [OF assms(4)]] show ?thesis by simp
qed

lemma aad_to_bytes_inject:
  assumes U: "uuid_ops_ok U" and v: "aad_valid a" "aad_valid b" and e: "aad_to_bytes U a = aad_to_bytes U b"
  shows "a = b"
proof -
  have len: "length (uuid_bytes U x) = 16" for x using U by (simp add: uuid_ops_ok_def)
  have inj: "uuid_bytes U x = uuid_bytes U y \<Longrightarrow> x = y" for x y
    using U unfolding uuid_ops_ok_def by (blast dest: injD)
  from e have t: "uuid_bytes U (aad_tenant_id a) = uuid_bytes U (aad_tenant_id b)"
    and r: "length_prefixed (aad_table a) @ length_prefixed (aad_column a) @ uuid_bytes U (aad_row_id a)
      = length_prefixed (aad_table b) @ length_prefixed (aad_column b) @ uuid_bytes U (aad_row_id b)"
    by (simp_all add: aad_to_bytes_def len)
  have "aad_table a = aad_table b" and r2:
    "length_prefixed (aad_column a) @ uuid_bytes U (aad_row_id a)
      = length_prefixed (aad_column b) @ uuid_bytes U (aad_row_id b)"
    using length_prefixed_inject [OF _ _ _ _ r] v by (auto simp: aad_valid_def)
  moreover have "aad_column a = aad_column b" "uuid_bytes U (aad_row_id a) = uuid_bytes U (aad_row_id b)"
    using length_prefixed_inject [OF _ _ _ _ r2] v by (auto simp: aad_valid_def)
  ultimately show ?thesis using inj t by (cases a; cases b) auto
qed

lemma from_utf8_bytes: "list_all is_scalar s \<Longrightarrow> from_utf8 (utf8_bytes s) = Some s"
  by (simp add: from_utf8_def utf8_decode_bytes [OF scalars_valid])

lemma decrypt_encrypt:
  assumes "aead_ok A" "length nonce = 24" "list_all is_scalar text"
    and "encrypt U A (Some nonce) key a text = Inr ct"
  shows "decrypt U A key a ct = Inr text"
proof -
  from assms(4) obtain body where b: "aead_encrypt A key nonce (aad_to_bytes U a) (utf8_bytes text) = Some body"
    and ct: "ct = 1 # nonce @ body" by (auto simp: encrypt_def split: option.splits)
  from assms(1) b have d: "aead_decrypt A key nonce (aad_to_bytes U a) body = Some (utf8_bytes text)"
    and l: "length body = length (utf8_bytes text) + 16" by (auto simp: aead_ok_def)
  with assms(2,3) show ?thesis
    by (simp add: decrypt_def ct envelope_header_def from_utf8_bytes)
qed

end
