(* ===== verification/Key_Cache.thy ===== *)
theory Key_Cache
  imports Crypto Ordered_Map "HOL-Library.AList"
begin

text \<open>
  \<open>keys/src/cache.rs\<close>: the data keys a session holds. The \<open>HashMap\<close> is an association list with
  distinct keys (its order is never observed), an instant is an integer number of nanoseconds,
  and the clock's reading is an argument. \<open>get\<close> is \<open>async\<close>: on a miss it awaits OpenBao without the
  lock, so it is two steps, and other operations may run between them.
\<close>

section \<open>The operations\<close>

record 'k entry =
  entry_key :: 'k
  last_activity :: int

type_synonym ('s, 'u, 'k) entries = "(('s \<times> 'u crypto_unit) \<times> 'k entry) list"

definition cache_new :: "('s, 'u, 'k) entries" where
  "cache_new = []"

definition cache_len :: "('s, 'u, 'k) entries \<Rightarrow> nat" where
  "cache_len m = length m"

definition cache_put :: "int \<Rightarrow> 's \<Rightarrow> 'u crypto_unit \<Rightarrow> 'k \<Rightarrow> ('s, 'u, 'k) entries \<Rightarrow> ('s, 'u, 'k) entries" where
  "cache_put now session un key m = AList.update (session, un) \<lparr>entry_key = key, last_activity = now\<rparr> m"

text \<open>The first half of \<open>get\<close>: a hit refreshes the entry and returns its key.\<close>

definition cache_get_hit ::
  "int \<Rightarrow> 's \<Rightarrow> 'u crypto_unit \<Rightarrow> ('s, 'u, 'k) entries \<Rightarrow> ('k option \<times> ('s, 'u, 'k) entries)" where
  "cache_get_hit now session un m =
     (case map_of m (session, un) of
        None \<Rightarrow> (None, m)
      | Some e \<Rightarrow> (Some (entry_key e), AList.update (session, un) (e\<lparr>last_activity := now\<rparr>) m))"

text \<open>
  \<open>get\<close> run without interruption: \<open>now\<close> is read before the lookup, \<open>now2\<close> by \<open>put\<close> after the
  unwrap, whose answer is \<open>unwrapped\<close>.
\<close>

definition cache_get ::
  "int \<Rightarrow> int \<Rightarrow> ('e, 'k) result \<Rightarrow> 's \<Rightarrow> 'u crypto_unit \<Rightarrow> ('s, 'u, 'k) entries
     \<Rightarrow> ('e, 'k) result \<times> ('s, 'u, 'k) entries" where
  "cache_get now now2 unwrapped session un m =
     (case cache_get_hit now session un m of
        (Some key, m') \<Rightarrow> (Inr key, m')
      | (None, m') \<Rightarrow>
          (case unwrapped of Inl e \<Rightarrow> (Inl e, m')
           | Inr key \<Rightarrow> (Inr key, cache_put now2 session un key m')))"

definition touch_session :: "int \<Rightarrow> 's \<Rightarrow> ('s, 'u, 'k) entries \<Rightarrow> ('s, 'u, 'k) entries" where
  "touch_session now session m =
     map (\<lambda>((s, un), e). ((s, un), if s = session then e\<lparr>last_activity := now\<rparr> else e)) m"

definition release_session :: "'s \<Rightarrow> ('s, 'u, 'k) entries \<Rightarrow> ('s, 'u, 'k) entries" where
  "release_session session m = filter (\<lambda>((s, un), e). s \<noteq> session) m"

definition release_document :: "'s \<Rightarrow> 'u \<Rightarrow> 'u \<Rightarrow> ('s, 'u, 'k) entries \<Rightarrow> ('s, 'u, 'k) entries" where
  "release_document session tenant document m =
     filter (\<lambda>((s, un), e). \<not> (s = session \<and> un = Document_Unit tenant document)) m"

definition sweep :: "int \<Rightarrow> int \<Rightarrow> ('s, 'u, 'k) entries \<Rightarrow> nat \<times> ('s, 'u, 'k) entries" where
  "sweep idle now m =
     (let m' = filter (\<lambda>(k, e). now - last_activity e < idle) m in (length m - length m', m'))"

section \<open>The data-key flow\<close>

text \<open>
  \<open>data_key.rs\<close>: \<open>load\<close> and \<open>store\<close> are the answers of the key table, \<open>fresh\<close> that of OpenBao's
  \<open>new_data_key\<close> and \<open>unwrapped\<close> that of \<open>unwrap\<close>, a function of the wrapped key.
\<close>

datatype ('e, 'f) data_key_error = Keys_Error 'e | Store_Error 'f

definition data_key ::
  "int \<Rightarrow> int \<Rightarrow> ('f, wrapped_key option) result \<Rightarrow> ('e, 'k \<times> wrapped_key) result
     \<Rightarrow> (wrapped_key \<Rightarrow> ('f, wrapped_key) result) \<Rightarrow> (wrapped_key \<Rightarrow> ('e, 'k) result)
     \<Rightarrow> 's \<Rightarrow> 'u crypto_unit \<Rightarrow> ('s, 'u, 'k) entries
     \<Rightarrow> (('e, 'f) data_key_error, 'k) result \<times> ('s, 'u, 'k) entries" where
  "data_key now now2 load fresh store unwrapped session un m =
     (case load of
        Inl f \<Rightarrow> (Inl (Store_Error f), m)
      | Inr (Some wrapped) \<Rightarrow> map_prod (map_sum Keys_Error id) id (cache_get now now2 (unwrapped wrapped) session un m)
      | Inr None \<Rightarrow>
          (case fresh of
             Inl e \<Rightarrow> (Inl (Keys_Error e), m)
           | Inr (key, wrapped) \<Rightarrow>
               (case store wrapped of
                  Inl f \<Rightarrow> (Inl (Store_Error f), m)
                | Inr stored \<Rightarrow>
                    if stored = wrapped then (Inr key, cache_put now session un key m)
                    else map_prod (map_sum Keys_Error id) id
                           (cache_get now now2 (unwrapped stored) session un m))))"

section \<open>The cache as a state machine\<close>

datatype ('s, 'u, 'k) cache_event =
    Get_Event 's "'u crypto_unit"
  | Put_Event 's "'u crypto_unit" 'k
  | Touch_Event 's
  | Release_Event 's
  | Release_Document_Event 's 'u 'u
  | Sweep_Event

fun cache_step :: "int \<Rightarrow> int \<Rightarrow> ('s, 'u, 'k) cache_event \<Rightarrow> ('s, 'u, 'k) entries \<Rightarrow> ('s, 'u, 'k) entries" where
  "cache_step idle now (Get_Event s un) m = snd (cache_get_hit now s un m)"
| "cache_step idle now (Put_Event s un k) m = cache_put now s un k m"
| "cache_step idle now (Touch_Event s) m = touch_session now s m"
| "cache_step idle now (Release_Event s) m = release_session s m"
| "cache_step idle now (Release_Document_Event s t d) m = release_document s t d m"
| "cache_step idle now Sweep_Event m = snd (sweep idle now m)"

text \<open>Steps of one cache: the clock never goes back.\<close>

inductive cache_reach :: "int \<Rightarrow> int \<Rightarrow> ('s, 'u, 'k) entries \<Rightarrow> bool" for idle where
  cache_start: "cache_reach idle now cache_new"
| cache_next: "cache_reach idle before m \<Longrightarrow> before \<le> now \<Longrightarrow> cache_reach idle now (cache_step idle now ev m)"

inductive_cases cache_reachE: "cache_reach idle now m"

section \<open>Invariant\<close>

definition cache_ok :: "int \<Rightarrow> ('s, 'u, 'k) entries \<Rightarrow> bool" where
  "cache_ok now m \<longleftrightarrow> distinct (map fst m) \<and> (\<forall>(k, e)\<in>set m. last_activity e \<le> now)"

lemma touch_keys: "map fst (touch_session now s m) = map fst m"
  by (induction m) (auto simp: touch_session_def)

lemma set_update_subset: "set (AList.update k v m) \<subseteq> insert (k, v) (set m)"
  by (induction m) auto

lemma cache_step_ok:
  assumes "cache_ok before m" "before \<le> now"
  shows "cache_ok now (cache_step idle now ev m)"
proof (cases ev)
  case (Get_Event s un)
  then show ?thesis
    using assms set_update_subset [of "(s, un)" _ m]
    by (fastforce simp: cache_ok_def cache_get_hit_def distinct_update split: option.splits)
next
  case (Put_Event s un k)
  then show ?thesis
    using assms set_update_subset [of "(s, un)" _ m]
    by (fastforce simp: cache_ok_def cache_put_def distinct_update)
next
  case (Touch_Event s)
  have "last_activity e \<le> now" if "(k, e) \<in> set (touch_session now s m)" for k e
    using that assms by (fastforce simp: touch_session_def cache_ok_def split: if_splits)
  with Touch_Event assms show ?thesis by (auto simp: cache_ok_def touch_keys)
next
  case (Release_Event s)
  with assms show ?thesis by (fastforce simp: cache_ok_def release_session_def distinct_map_filter)
next
  case (Release_Document_Event s t d)
  with assms show ?thesis by (fastforce simp: cache_ok_def release_document_def distinct_map_filter)
next
  case Sweep_Event
  with assms show ?thesis by (fastforce simp: cache_ok_def sweep_def Let_def distinct_map_filter)
qed

lemma cache_reach_ok: "cache_reach idle now m \<Longrightarrow> cache_ok now m"
proof (induction rule: cache_reach.induct)
  case (cache_start now)
  show ?case by (simp add: cache_ok_def cache_new_def)
next
  case (cache_next before m now ev)
  then show ?case by (intro cache_step_ok)
qed

section \<open>Lookups after each operation\<close>

interpretation entries_map: lookup_map "[]" map_of AList.update AList.delete
  by unfold_locales (simp_all add: update_conv' delete_conv')

lemma map_of_touch:
  "map_of (touch_session now s m) (s', un) =
     map_option (\<lambda>e. if s' = s then e\<lparr>last_activity := now\<rparr> else e) (map_of m (s', un))"
  by (induction m) (auto simp: touch_session_def)

lemma map_of_filter_key:
  "(\<And>k e. P (k, e) = Q k) \<Longrightarrow> map_of (filter P m) k = (if Q k then map_of m k else None)"
  by (induction m) auto

lemma map_of_release:
  "map_of (release_session s m) (s', un) = (if s' = s then None else map_of m (s', un))"
  unfolding release_session_def by (subst map_of_filter_key [where Q = "\<lambda>(s', un). s' \<noteq> s"]) auto

lemma map_of_release_document:
  "map_of (release_document s t d m) (s', un) =
     (if s' = s \<and> un = Document_Unit t d then None else map_of m (s', un))"
  unfolding release_document_def
  by (subst map_of_filter_key [where Q = "\<lambda>(s', un). \<not> (s' = s \<and> un = Document_Unit t d)"]) auto

lemma map_of_sweep:
  assumes "distinct (map fst m)"
  shows "map_of (snd (sweep idle now m)) k = opt_filter (\<lambda>e. now - last_activity e < idle) (map_of m k)"
  using assms
  by (induction m) (auto simp: sweep_def Let_def opt_filter_def map_of_eq_None_iff image_iff split: option.splits)

lemma map_of_get_hit:
  "map_of (snd (cache_get_hit now s un m)) k =
     (if k = (s, un) then map_option (\<lambda>e. e\<lparr>last_activity := now\<rparr>) (map_of m k) else map_of m k)"
  by (auto simp: cache_get_hit_def update_conv' split: option.splits)

section \<open>Where a key comes from\<close>

definition cache_run :: "int \<Rightarrow> (int \<times> ('s, 'u, 'k) cache_event) list \<Rightarrow> ('s, 'u, 'k) entries" where
  "cache_run idle evs = fold (\<lambda>(now, ev). cache_step idle now ev) evs cache_new"

fun drops_key :: "('s, 'u, 'k) cache_event \<Rightarrow> 's \<Rightarrow> 'u crypto_unit \<Rightarrow> bool" where
  "drops_key (Release_Event s) s' un \<longleftrightarrow> s = s'"
| "drops_key (Release_Document_Event s t d) s' un \<longleftrightarrow> s = s' \<and> un = Document_Unit t d"
| "drops_key (Put_Event s un k) s' un' \<longleftrightarrow> s = s' \<and> un = un'"
| "drops_key ev s' un \<longleftrightarrow> False"

lemma cache_step_lookup:
  assumes "distinct (map fst m)" "map_of (cache_step idle now ev m) (s, un) = Some e"
  shows "ev = Put_Event s un (entry_key e)
    \<or> (\<not> drops_key ev s un \<and> (\<exists>e'. map_of m (s, un) = Some e' \<and> entry_key e' = entry_key e))"
proof (cases ev)
  case (Put_Event s' un' k)
  with assms show ?thesis by (auto simp: cache_put_def update_conv' split: if_splits)
next
  case Sweep_Event
  with assms(2) have "map_of m (s, un) = Some e"
    by (simp only: cache_step.simps map_of_sweep [OF assms(1)] opt_filter_eq_Some)
  with Sweep_Event show ?thesis by simp
qed (use assms in \<open>auto simp: map_of_get_hit map_of_touch map_of_release map_of_release_document split: if_splits\<close>)

lemma cache_step_distinct: "distinct (map fst m) \<Longrightarrow> distinct (map fst (cache_step idle now ev m))"
  by (cases ev) (auto simp: cache_get_hit_def cache_put_def distinct_update touch_keys release_session_def
      release_document_def sweep_def Let_def distinct_map_filter split: option.splits)

lemma cache_run_snoc: "cache_run idle (evs @ [(now, ev)]) = cache_step idle now ev (cache_run idle evs)"
  by (simp add: cache_run_def)

lemma cache_run_distinct: "distinct (map fst (cache_run idle evs))"
  by (induction evs rule: rev_induct) (auto simp: cache_run_snoc cache_step_distinct, simp add: cache_run_def cache_new_def)

lemma cache_run_origin:
  assumes "map_of (cache_run idle evs) (s, un) = Some e"
  shows "\<exists>pre now post. evs = pre @ (now, Put_Event s un (entry_key e)) # post
    \<and> (\<forall>(_, ev)\<in>set post. \<not> drops_key ev s un)"
  using assms
proof (induction evs arbitrary: e rule: rev_induct)
  case Nil
  then show ?case by (simp add: cache_run_def cache_new_def)
next
  case (snoc x evs)
  obtain now ev where x: "x = (now, ev)" by (cases x)
  from snoc.prems have "map_of (cache_step idle now ev (cache_run idle evs)) (s, un) = Some e"
    by (simp add: x cache_run_snoc)
  from cache_step_lookup [OF cache_run_distinct this] show ?case
  proof
    assume "ev = Put_Event s un (entry_key e)"
    then have "evs @ [x] = evs @ (now, Put_Event s un (entry_key e)) # []" by (simp add: x)
    then show ?thesis by fastforce
  next
    assume "\<not> drops_key ev s un \<and> (\<exists>e'. map_of (cache_run idle evs) (s, un) = Some e' \<and> entry_key e' = entry_key e)"
    then obtain e' where d: "\<not> drops_key ev s un" and e': "map_of (cache_run idle evs) (s, un) = Some e'"
      "entry_key e' = entry_key e" by blast
    from snoc.IH [OF e'(1)] e'(2) obtain pre t post where
      "evs = pre @ (t, Put_Event s un (entry_key e)) # post" "\<forall>(_, ev)\<in>set post. \<not> drops_key ev s un"
      by auto
    with d have "evs @ [x] = pre @ (t, Put_Event s un (entry_key e)) # (post @ [x])"
      "\<forall>(_, ev)\<in>set (post @ [x]). \<not> drops_key ev s un" by (simp_all add: x)
    then show ?thesis by blast
  qed
qed

end
