(* ===== verification/Crypto_Properties.thy ===== *)
theory Crypto_Properties
  imports Key_Cache
begin

text \<open>The properties of \<open>Crypto\<close> and \<open>Key_Cache\<close>. In the witnesses an id is its own text.\<close>

section \<open>A concrete id type for the witnesses\<close>

text \<open>Two ids: their bytes and their texts differ in the last place.\<close>

definition sample_bytes :: "bool \<Rightarrow> nat list" where
  "sample_bytes b = replicate 15 0 @ [if b then 1 else 0]"

definition sample_uuid :: "bool uuid_ops" where
  "sample_uuid = \<lparr>uuid_bytes = sample_bytes, uuid_text = (\<lambda>b. replicate 35 48 @ [if b then 49 else 48])\<rparr>"

lemma sample_uuid_ok: "uuid_ops_ok sample_uuid"
  by (auto simp: uuid_ops_ok_def sample_uuid_def sample_bytes_def inj_def split: if_splits)

section \<open>Units and associated data\<close>

text \<open>A chat month's text reads back as that month, and the only text that
  reads as a month is the one it is displayed as.\<close>

theorem chat_month_text:
  "chat_month_parse s = Some m \<longleftrightarrow> chat_month_valid m \<and> chat_month_display m = s"
  using parse_display [of m] parse_Some [of s m] by blast

text \<open>Two different units never share a transit key.\<close>

theorem key_names_differ:
  assumes "uuid_ops_ok U" "unit_valid a" "unit_valid b" "key_name U a = key_name U b"
  shows "a = b"
  by (rule key_name_inject [OF assms])

text \<open>The associated data of two values is equal only when tenant, table,
  column and row are; so a ciphertext moved to another row is decrypted under other data.\<close>

theorem aad_binds_the_row:
  assumes "uuid_ops_ok U" "aad_valid a" "aad_valid b" "aad_to_bytes U a = aad_to_bytes U b"
  shows "a = b"
  by (rule aad_to_bytes_inject [OF assms])

definition sample_aad :: "string \<Rightarrow> string \<Rightarrow> bool aad" where
  "sample_aad t c = \<lparr>aad_tenant_id = True, aad_table = lit t, aad_column = lit c, aad_row_id = False\<rparr>"

section \<open>The envelope\<close>

text \<open>C22 envelope_round_trip: under a correct cipher, what was encrypted decrypts, with the same
  key and associated data, to the same text.\<close>

theorem envelope_round_trip:
  assumes "aead_ok A" "length nonce = 24" "list_all is_scalar text"
    and "encrypt U A (Some nonce) key a text = Inr ct"
  shows "decrypt U A key a ct = Inr text"
  by (rule decrypt_encrypt [OF assms])

text \<open>A transparent cipher, with a tag of 16 zeroes.\<close>

definition sample_aead :: "nat aead" where
  "sample_aead = \<lparr>aead_encrypt = (\<lambda>k n a m. Some (m @ replicate 16 0)),
     aead_decrypt = (\<lambda>k n a c. Some (take (length c - 16) c))\<rparr>"

theorem envelope_round_trip_witness:
  "decrypt sample_uuid sample_aead 5 (sample_aad ''ab'' ''c'')
     (1 # replicate 24 9 @ utf8_bytes (lit ''hei'') @ replicate 16 0) = Inr (lit ''hei'')"
proof -
  have "aead_ok sample_aead" by (auto simp: aead_ok_def sample_aead_def)
  moreover have "length (replicate 24 (9::nat)) = 24" by simp
  moreover have "list_all is_scalar (lit ''hei'')" by code_simp
  moreover have "encrypt sample_uuid sample_aead (Some (replicate 24 9)) 5 (sample_aad ''ab'' ''c'') (lit ''hei'')
      = Inr (1 # replicate 24 9 @ utf8_bytes (lit ''hei'') @ replicate 16 0)"
    by (simp add: encrypt_def sample_aead_def)
  ultimately show ?thesis by (rule envelope_round_trip)
qed

text \<open>A value too short to hold a header and a tag, or of another
  version, is refused before the cipher is asked; and nothing but UTF-8 comes out.\<close>

theorem malformed_envelopes_refused:
  "length ct < 41 \<or> hd ct \<noteq> 1 \<Longrightarrow> decrypt U A key a ct = Inl Malformed"
  by (cases ct) (auto simp: decrypt_def envelope_header_def)

section \<open>The key cache\<close>

text \<open>C35 cached_keys_were_put: a key a session can still read was put there for that session and
  unit, and since then neither the session nor the document was released and no other key was put.\<close>

theorem cached_keys_were_put:
  assumes "map_of (cache_run idle evs) (s, un) = Some e"
  shows "\<exists>pre now post. evs = pre @ (now, Put_Event s un (entry_key e)) # post
    \<and> (\<forall>(_, ev)\<in>set post. \<not> drops_key ev s un)"
  by (rule cache_run_origin [OF assms])

definition sample_events :: "(int \<times> (nat, bool, nat) cache_event) list" where
  "sample_events = [(0, Put_Event 1 (Record_Unit True) 42), (3, Touch_Event 1), (5, Sweep_Event)]"

text \<open>A sweep keeps exactly the entries used within the idle time, with
  their keys, and returns how many it dropped; a reachable cache never holds an entry from the
  future.\<close>

theorem sweep_drops_idle_keys:
  assumes "cache_reach idle now m"
  shows "(map_of (snd (sweep idle now m)) k = Some e \<longleftrightarrow> map_of m k = Some e \<and> now - last_activity e < idle)
    \<and> fst (sweep idle now m) + cache_len (snd (sweep idle now m)) = cache_len m
    \<and> (map_of m k = Some e \<longrightarrow> last_activity e \<le> now)"
proof -
  have ok: "distinct (map fst m)" "\<forall>(k, e)\<in>set m. last_activity e \<le> now"
    using cache_reach_ok [OF assms] by (simp_all add: cache_ok_def)
  have "map_of (snd (sweep idle now m)) k = Some e \<longleftrightarrow> map_of m k = Some e \<and> now - last_activity e < idle"
    unfolding map_of_sweep [OF ok(1)] by simp
  moreover have "fst (sweep idle now m) + cache_len (snd (sweep idle now m)) = cache_len m"
    by (simp add: sweep_def Let_def cache_len_def)
  moreover have "map_of m k = Some e \<longrightarrow> last_activity e \<le> now" using ok(2) by (auto dest: map_of_SomeD)
  ultimately show ?thesis by blast
qed

theorem cached_keys_were_put_witness:
  "\<exists>pre now post. sample_events = pre @ (now, Put_Event 1 (Record_Unit True) 42) # post
     \<and> (\<forall>(_, ev)\<in>set post. \<not> drops_key ev 1 (Record_Unit True))"
proof -
  have "map_of (cache_run 4 sample_events) (1, Record_Unit True) = Some \<lparr>entry_key = 42, last_activity = 3\<rparr>"
    by code_simp
  from cached_keys_were_put [OF this] show ?thesis by simp
qed

end
