(* ===== verification/Brreg.thy ===== *)
theory Brreg
  imports Search
begin

text \<open>
  \<open>register/brreg.rs\<close>: names and address lines of the FAU entities in the business register.
  Address keys exist in memory only; the rule that matters is that a line naming a person
  yields none.
\<close>

section \<open>Word lists\<close>

definition fau_words :: "str list" where
  "fau_words = map lit [''fau'', ''arbeidsutvalg'', ''arbeidsutval'', ''arbeidsutvalet'',
     ''arbeidsutvalget'', ''foreldrerad'', ''foreldreradet'']"

definition generic_words :: "str list" where
  "generic_words = map lit [''fau'', ''foreldrenes'', ''foreldreradets'', ''foreldreradet'',
     ''foreldrerad'', ''arbeidsutvalg'', ''arbeidsutval'', ''arbeidsutvalet'', ''arbeidsutvalget'',
     ''ved'', ''pa'', ''for'', ''i'', ''og'', ''v'', ''skole'', ''skolen'', ''skoles'', ''skule'',
     ''skulen'', ''skules'', ''barneskole'', ''barneskule'', ''ungdomsskole'', ''ungdomsskule'',
     ''ungdomskole'', ''barne'', ''oppvekstsenter'']"

definition acronyms :: "str list" where
  "acronyms = map lit [''FAU'', ''SFO'', ''AU'']"

definition school_words :: "str list" where
  "school_words = map lit [''skole'', ''skolen'', ''skule'', ''skulen'', ''barneskole'',
     ''barneskule'', ''ungdomsskole'', ''ungdomsskule'', ''oppvekstsenter'']"

definition split_space :: "str \<Rightarrow> str list" where
  "split_space s = split_by (\<lambda>c. c = 32) s"

definition is_fau_name :: "ucd \<Rightarrow> str \<Rightarrow> bool" where
  "is_fau_name u name \<longleftrightarrow> list_ex (\<lambda>w. w \<in> set fau_words) (split_space (search_query u name))"

section \<open>Address lines\<close>

record address_key =
  street :: str
  postcode :: str

definition key_order :: "address_key \<Rightarrow> str \<times> str" where
  "key_order k = (street k, postcode k)"

definition valid_postcode :: "str option \<Rightarrow> str option" where
  "valid_postcode p = opt_filter (\<lambda>p. str_len p = 4 \<and> list_all is_ascii_digit p) (map_option trim p)"

definition fold_words :: "ucd \<Rightarrow> str \<Rightarrow> str list" where
  "fold_words u line = filter (\<lambda>w. w \<noteq> []) (split_space (search_query u line))"

definition first_digit_index :: "str list \<Rightarrow> nat option" where
  "first_digit_index words = position (list_ex is_ascii_digit) words"

definition is_postbox :: "str list \<Rightarrow> bool" where
  "is_postbox words \<longleftrightarrow>
     list_ex (\<lambda>w. w = lit ''postboks'' \<or> w = lit ''pb'' \<or> w = lit ''boks'') words
     \<or> list_ex (\<lambda>w. w ! 0 = lit ''p'' \<and> w ! 1 = lit ''b'') (windows 2 words)"

definition marker_end :: "str list \<Rightarrow> nat option" where
  "marker_end words =
     (case position (\<lambda>w. w ! 0 = lit ''c'' \<and> w ! 1 = lit ''o'') (windows 2 words) of
        Some i \<Rightarrow> Some (i + 2)
      | None \<Rightarrow>
          (case first_digit_index words of
             None \<Rightarrow> None
           | Some first_digit \<Rightarrow>
               (case rposition (\<lambda>w. w = lit ''v'') (take first_digit words) of
                  Some i \<Rightarrow> Some (i + 1)
                | None \<Rightarrow>
                    let aft = drop (first_digit + 1) words
                    in if aft = [] then None
                       else map_option (\<lambda>i. first_digit + 1 + i + 1)
                              (position (\<lambda>w. w = lit ''v'') (take (length aft - 1) aft)))))"

definition is_personal :: "str list \<Rightarrow> bool" where
  "is_personal words \<longleftrightarrow> marker_end words \<noteq> None"

definition strip_end :: "str \<Rightarrow> str \<Rightarrow> str option" where
  "strip_end sfx w = (if suffix sfx w then Some (take (length w - length sfx) w) else None)"

definition street_suffixes :: "(str \<times> str) list" where
  "street_suffixes = map (map_prod lit lit)
     [(''veien'', ''vei''), (''vegen'', ''vei''), (''veg'', ''vei''), (''gaten'', ''gate''), (''gata'', ''gate'')]"

fun try_suffixes :: "(str \<times> str) list \<Rightarrow> str \<Rightarrow> str option" where
  "try_suffixes [] w = None"
| "try_suffixes ((sfx, canonical) # rest) w =
     (case strip_end sfx w of Some stem \<Rightarrow> Some (stem @ canonical) | None \<Rightarrow> try_suffixes rest w)"

definition street_word :: "str \<Rightarrow> str" where
  "street_word w =
     (case try_suffixes street_suffixes w of
        Some r \<Rightarrow> r
      | None \<Rightarrow> if w = lit ''vn'' \<or> w = lit ''v'' then lit ''vei''
                else if w = lit ''gt'' then lit ''gate'' else w)"

definition push_street_word :: "str list \<Rightarrow> str \<Rightarrow> str list" where
  "push_street_word out w =
     (if str_len w = 1 \<and> is_ascii_lower (hd w) \<and> out \<noteq> [] \<and> list_all is_ascii_digit (last out)
      then butlast out @ [last out @ w]
      else out @ [street_word w])"

definition normalise_street_words :: "str list \<Rightarrow> str option" where
  "normalise_street_words words =
     (if is_postbox words \<or> first_digit_index words = None then None
      else Some (join [32] (foldl push_street_word [] words)))"

definition street_line :: "ucd \<Rightarrow> str \<Rightarrow> str option" where
  "street_line u line =
     (let words = fold_words u line
      in if is_personal words then None else normalise_street_words words)"

definition sort_keys :: "address_key list \<Rightarrow> address_key list" where
  "sort_keys keys = dedup_key key_order (sort_by (\<lambda>a b. key_order a \<le> key_order b) keys)"

definition address_keys :: "ucd \<Rightarrow> str list \<Rightarrow> str option \<Rightarrow> address_key list" where
  "address_keys u lines pc =
     (case valid_postcode pc of
        None \<Rightarrow> []
      | Some p \<Rightarrow> sort_keys (map (\<lambda>s. \<lparr>street = s, postcode = p\<rparr>) (List.map_filter (street_line u) lines)))"

definition find_sequence :: "str list \<Rightarrow> str list \<Rightarrow> nat option" where
  "find_sequence haystack needle =
     (if needle = [] \<or> length haystack < length needle then None
      else map_option (\<lambda>s. s + length needle) (position (\<lambda>w. w = needle) (windows (length needle) haystack)))"

definition school_match_end :: "str list \<Rightarrow> str list \<Rightarrow> str list \<Rightarrow> nat option" where
  "school_match_end name_part school_lossy school_core =
     (case find_sequence name_part school_lossy of
        Some e \<Rightarrow> Some e
      | None \<Rightarrow>
          (case find_sequence name_part school_core of
             None \<Rightarrow> None
           | Some core_end \<Rightarrow>
               if core_end < length name_part \<and> name_part ! core_end \<in> set school_words
               then Some (core_end + 1) else None))"

definition care_of_line :: "ucd \<Rightarrow> str \<Rightarrow> str list \<Rightarrow> str list \<Rightarrow> str option" where
  "care_of_line u line school_lossy school_core =
     (let words = fold_words u line
      in case marker_end words of
           None \<Rightarrow> None
         | Some me \<Rightarrow>
             let npe = unwrap_or (first_digit_index words) (length words)
             in if npe < me then None
                else case school_match_end (drop me (take npe words)) school_lossy school_core of
                    None \<Rightarrow> None
                  | Some matched \<Rightarrow> normalise_street_words (drop (me + matched) words))"

definition name_core :: "ucd \<Rightarrow> str \<Rightarrow> str" where
  "name_core u name =
     join [32] (filter (\<lambda>w. w \<noteq> [] \<and> w \<notin> set generic_words) (split_space (search_query u name)))"

definition care_of_keys :: "ucd \<Rightarrow> str list \<Rightarrow> str option \<Rightarrow> str \<Rightarrow> address_key list" where
  "care_of_keys u lines pc school_name =
     (case valid_postcode pc of
        None \<Rightarrow> []
      | Some p \<Rightarrow>
          let school_lossy = fold_words u school_name;
              school_core = filter (\<lambda>w. w \<noteq> []) (split_space (name_core u school_name))
          in sort_keys (map (\<lambda>s. \<lparr>street = s, postcode = p\<rparr>)
               (List.map_filter (\<lambda>line. care_of_line u line school_lossy school_core) lines)))"

section \<open>Name suggestions\<close>

definition trim_matches :: "(nat \<Rightarrow> bool) \<Rightarrow> str \<Rightarrow> str" where
  "trim_matches P s = rev (dropWhile P (rev (dropWhile P s)))"

definition recase_run :: "ucd \<Rightarrow> str \<Rightarrow> bool \<Rightarrow> str list \<Rightarrow> str" where
  "recase_run u run first_run sw =
     (let run_lower = to_lowercase u run
      in if run \<in> set acronyms then run
         else case List.find (\<lambda>w. to_lowercase u w = run_lower)
                     (map (trim_matches (\<lambda>c. \<not> is_alphanumeric u c)) sw) of
             Some school \<Rightarrow> school
           | None \<Rightarrow>
               if first_run
               then (case run_lower of [] \<Rightarrow> [] | c # cs \<Rightarrow> char_uppercase u c @ cs)
               else run_lower)"

function recase_go :: "ucd \<Rightarrow> bool \<Rightarrow> str list \<Rightarrow> bool \<Rightarrow> str \<Rightarrow> str" where
  "recase_go u first sw is_first_run rest =
     (let gap = takeWhile (\<lambda>c. \<not> is_alphanumeric u c) rest;
          rest1 = dropWhile (\<lambda>c. \<not> is_alphanumeric u c) rest
      in if rest1 = [] then gap
         else gap @ recase_run u (takeWhile (is_alphanumeric u) rest1) (first \<and> is_first_run) sw
              @ recase_go u first sw False (dropWhile (is_alphanumeric u) rest1))"
  by pat_completeness auto
termination
proof (relation "measure (\<lambda>(_, _, _, _, rest). length rest)", goal_cases)
  case (2 u first sw is_first_run rest gap rest1)
  then have r1: "dropWhile (\<lambda>c. \<not> is_alphanumeric u c) rest = rest1" "rest1 \<noteq> []" by simp_all
  then have "is_alphanumeric u (hd rest1)" using hd_dropWhile by blast
  with r1(2) have "length (dropWhile (is_alphanumeric u) rest1) < length rest1"
    by (cases rest1) (simp_all add: length_dropWhile_le less_Suc_eq_le)
  moreover have "length rest1 \<le> length rest" using length_dropWhile_le r1(1) by blast
  ultimately show ?case by simp
qed simp

definition recase :: "ucd \<Rightarrow> str \<Rightarrow> bool \<Rightarrow> str list \<Rightarrow> str" where
  "recase u word first sw = recase_go u first sw True word"

definition suggest_fau_name :: "ucd \<Rightarrow> str \<Rightarrow> str \<Rightarrow> str" where
  "suggest_fau_name u registered0 school_display_name =
     (let registered = trim registered0
      in if list_ex (is_lowercase u) registered then registered
         else
           let sw = filter (\<lambda>w. w \<noteq> [])
                      (split_by (\<lambda>c. is_whitespace c \<or> c = 45 \<or> c = 47) school_display_name)
           in join [32] (map (\<lambda>(i, word). recase u word (i = 0) sw)
                (enumerate 0 (split_ws registered))))"

section \<open>Facts\<close>

lemma valid_postcode_Some:
  "valid_postcode pc = Some p \<Longrightarrow> length p = 4 \<and> list_all is_ascii_digit p"
proof -
  assume "valid_postcode pc = Some p"
  then have p: "str_len p = 4" "list_all is_ascii_digit p" by (auto simp: valid_postcode_def)
  then have "\<forall>c\<in>set p. c < 128" by (auto simp: list_all_iff ascii_defs)
  with p show ?thesis by (simp add: str_len_ascii)
qed

lemma mem_sort_keys: "k \<in> set (sort_keys ks) \<Longrightarrow> k \<in> set ks"
  using set_dedup_key by (fastforce simp: sort_keys_def)

lemma key_order_inj: "key_order a = key_order b \<longleftrightarrow> a = b"
  by (cases a; cases b) (simp add: key_order_def)

lemma sort_keys_set: "set (sort_keys ks) = set ks"
proof -
  have "key_order ` set (sort_keys ks) = key_order ` set ks"
    by (simp add: sort_keys_def keys_dedup_key)
  then show ?thesis by (simp add: inj_image_eq_iff inj_def key_order_inj)
qed

lemma sort_keys_sorted: "sorted (map key_order (sort_keys ks)) \<and> distinct (sort_keys ks)"
  unfolding sort_keys_def
  using sorted_distinct_dedup_key [OF sorted_sort_by_key] by (auto simp: distinct_map)

lemma address_keys_iff:
  "k \<in> set (address_keys u lines pc) \<longleftrightarrow>
     valid_postcode pc = Some (postcode k) \<and> (\<exists>line\<in>set lines. street_line u line = Some (street k))"
proof (cases "valid_postcode pc")
  case (Some p)
  have "k \<in> set (address_keys u lines pc) \<longleftrightarrow>
      (\<exists>line\<in>set lines. \<exists>st. street_line u line = Some st \<and> k = \<lparr>street = st, postcode = p\<rparr>)"
    by (force simp: address_keys_def sort_keys_set map_filter_def Some image_iff)
  then show ?thesis by (cases k) (auto simp: Some)
qed (simp add: address_keys_def)

lemma street_line_not_personal: "is_personal (fold_words u line) \<Longrightarrow> street_line u line = None"
  by (simp add: street_line_def)

text \<open>Where a marker is, without the code's positions.\<close>

lemma windows2_nth: "i < length xs - 1 \<Longrightarrow> windows 2 xs ! i = [xs ! i, xs ! Suc i]"
  by (simp add: windows_def take_Suc_conv_app_nth numeral_2_eq_2 Cons_nth_drop_Suc [symmetric])

lemma length_windows: "length (windows n xs) = length xs + 1 - n"
  by (simp add: windows_def)

definition care_of_pair :: "str list \<Rightarrow> bool" where
  "care_of_pair words \<longleftrightarrow> (\<exists>i. Suc i < length words \<and> words ! i = lit ''c'' \<and> words ! Suc i = lit ''o'')"

lemma care_of_pair_windows:
  "position (\<lambda>w. w ! 0 = lit ''c'' \<and> w ! Suc 0 = lit ''o'') (windows 2 words) = None \<longleftrightarrow> \<not> care_of_pair words"
proof -
  have "(\<exists>w\<in>set (windows 2 words). w ! 0 = lit ''c'' \<and> w ! 1 = lit ''o'') \<longleftrightarrow>
      (\<exists>i<length words - 1. words ! i = lit ''c'' \<and> words ! Suc i = lit ''o'')"
    unfolding in_set_conv_nth Bex_def by (auto simp: length_windows windows2_nth)
  then show ?thesis by (auto simp: position_None care_of_pair_def)
qed

lemma is_personal_iff:
  "is_personal words \<longleftrightarrow>
     care_of_pair words \<or>
     (\<exists>d. first_digit_index words = Some d \<and>
       (\<exists>i<length words. words ! i = lit ''v'' \<and> (i < d \<or> d < i \<and> Suc i < length words)))"
proof (cases "care_of_pair words")
  case True
  then obtain y where "position (\<lambda>w. w ! 0 = lit ''c'' \<and> w ! Suc 0 = lit ''o'') (windows 2 words) = Some y"
    using care_of_pair_windows [of words] by blast
  then show ?thesis using True by (simp add: is_personal_def marker_end_def)
next
  case False
  then have pos: "position (\<lambda>w. w ! 0 = lit ''c'' \<and> w ! Suc 0 = lit ''o'') (windows 2 words) = None"
    by (simp add: care_of_pair_windows)
  show ?thesis
  proof (cases "first_digit_index words")
    case None
    with False pos show ?thesis by (simp add: is_personal_def marker_end_def)
  next
    case (Some d)
    then have dl: "d < length words"
      using position_Some unfolding first_digit_index_def by blast
    have before: "lit ''v'' \<in> set (take d words) \<longleftrightarrow> (\<exists>i<d. words ! i = lit ''v'')"
      using dl by (auto simp: in_set_conv_nth)
    let ?a = "drop (Suc d) words"
    have aft: "lit ''v'' \<in> set (take (length ?a - 1) ?a)
        \<longleftrightarrow> (\<exists>i. d < i \<and> Suc i < length words \<and> words ! i = lit ''v'')"
    proof
      assume "lit ''v'' \<in> set (take (length ?a - 1) ?a)"
      then obtain j where "j < length ?a - 1" "?a ! j = lit ''v''" by (auto simp: in_set_conv_nth)
      then have "d < Suc d + j \<and> Suc (Suc d + j) < length words \<and> words ! (Suc d + j) = lit ''v''" by auto
      then show "\<exists>i. d < i \<and> Suc i < length words \<and> words ! i = lit ''v''" by blast
    next
      assume "\<exists>i. d < i \<and> Suc i < length words \<and> words ! i = lit ''v''"
      then obtain i where i: "d < i" "Suc i < length words" "words ! i = lit ''v''" by blast
      then have "i - Suc d < length (take (length ?a - 1) ?a)"
        "take (length ?a - 1) ?a ! (i - Suc d) = lit ''v''" by auto
      then show "lit ''v'' \<in> set (take (length ?a - 1) ?a)" by (metis nth_mem)
    qed
    have r: "rposition (\<lambda>w. w = lit ''v'') (take d words) = None \<longleftrightarrow> lit ''v'' \<notin> set (take d words)"
      by (auto simp: rposition_None)
    have p: "position (\<lambda>w. w = lit ''v'') (take (length ?a - 1) ?a) = None
        \<longleftrightarrow> lit ''v'' \<notin> set (take (length ?a - 1) ?a)"
      by (auto simp: position_None)
    have "is_personal words \<longleftrightarrow> rposition (\<lambda>w. w = lit ''v'') (take d words) \<noteq> None
        \<or> (?a \<noteq> [] \<and> position (\<lambda>w. w = lit ''v'') (take (length ?a - 1) ?a) \<noteq> None)"
      by (simp add: is_personal_def marker_end_def pos Some Let_def split: option.split)
    then have "is_personal words \<longleftrightarrow> lit ''v'' \<in> set (take d words) \<or> lit ''v'' \<in> set (take (length ?a - 1) ?a)"
      unfolding r p by auto
    with False Some before aft dl show ?thesis by (auto intro: less_trans Suc_lessD)
  qed
qed

lemma find_sequence_Some:
  assumes "find_sequence haystack needle = Some e"
  shows "needle \<noteq> [] \<and> (\<exists>xs ys. haystack = xs @ needle @ ys \<and> e = length (xs @ needle))"
proof -
  from assms obtain s where ne: "needle \<noteq> []" "length needle \<le> length haystack"
    and s: "position (\<lambda>w. w = needle) (windows (length needle) haystack) = Some s" "e = s + length needle"
    by (auto simp: find_sequence_def split: if_splits)
  from position_Some [OF s(1)] have sl: "s < length haystack + 1 - length needle"
    and "windows (length needle) haystack ! s = needle" by (auto simp: length_windows)
  then have "take (length needle) (drop s haystack) = needle" by (simp add: windows_def)
  then have "haystack = take s haystack @ needle @ drop (length needle) (drop s haystack)"
    by (metis append_take_drop_id)
  moreover have "e = length (take s haystack @ needle)" using sl ne s(2) by simp
  ultimately show ?thesis using ne(1) by blast
qed

text \<open>A name part that counts for a school contains its name, or its core and a school word.\<close>

lemma school_match_end_Some:
  assumes "school_match_end name_part lossy core = Some e"
  shows "(lossy \<noteq> [] \<and> sublist lossy name_part)
    \<or> (core \<noteq> [] \<and> (\<exists>w\<in>set school_words. sublist (core @ [w]) name_part))"
proof (cases "find_sequence name_part lossy")
  case (Some e')
  with find_sequence_Some [OF Some] show ?thesis by (auto simp: sublist_def)
next
  case None
  with assms obtain ce where ce: "find_sequence name_part core = Some ce"
    and w: "ce < length name_part" "name_part ! ce \<in> set school_words"
    by (auto simp: school_match_end_def split: option.splits if_splits)
  from find_sequence_Some [OF ce] obtain xs ys where xy: "core \<noteq> []" "name_part = xs @ core @ ys"
    "ce = length (xs @ core)" by blast
  with w obtain zs where "ys = name_part ! ce # zs" by (cases ys) (auto simp: nth_append)
  with xy have "name_part = xs @ (core @ [name_part ! ce]) @ zs" by simp
  then have "sublist (core @ [name_part ! ce]) name_part" unfolding sublist_def by blast
  with w xy show ?thesis by blast
qed

end
