(* ===== verification/Register_Properties.thy ===== *)
theory Register_Properties
  imports Slug Brreg Register_Source Samples
begin

text \<open>The properties of \<open>Slug\<close>, \<open>Search\<close>, \<open>Brreg\<close> and \<open>Register_Source\<close>.\<close>

section \<open>Slugs\<close>

text \<open>C31 slugs_are_url_words: a slug is words of lower-case letters and digits with single hyphens
  between them, not empty and at most 80 characters, whatever the Unicode tables say.\<close>

theorem slugs_are_url_words:
  assumes "slugify u name = Inr s"
  shows "well_separated 45 s \<and> s \<noteq> [] \<and> length s \<le> 80 \<and> set s \<subseteq> insert 45 {c. is_ascii_lower c \<or> is_ascii_digit c}
    \<and> hd s \<noteq> 45 \<and> last s \<noteq> 45"
proof -
  from slugify_ok [OF assms] have ok: "well_separated 45 s" "s \<noteq> []" "length s \<le> 80"
    by (auto simp: slug_ok_def max_slug_len_def)
  have "is_slug_char (hd s)" "is_slug_char (last s)"
    using well_separated_hd [OF ok(1,2)] well_separated_last [OF ok(1,2)] by auto
  then have "hd s \<noteq> 45" "last s \<noteq> 45" by (metis slug_char_not_hyphen(1))+
  moreover have "set s \<subseteq> insert 45 {c. is_ascii_lower c \<or> is_ascii_digit c}"
    using well_separated_set [OF ok(1)] by (auto simp: is_slug_char_def)
  ultimately show ?thesis using ok by blast
qed

theorem slugs_are_url_words_witness:
  "well_separated 45 (lit ''hosle-skole'') \<and> length (lit ''hosle-skole'') \<le> 80"
proof -
  have "slugify sample_ucd (lit ''  Hosle / skole '') = Inr (lit ''hosle-skole'')" by code_simp
  from slugs_are_url_words [OF this] show ?thesis by blast
qed

text \<open>While fewer than $2^{32}-2$ slugs are taken, the collision search
  ends with a slug that is not taken and has a slug's shape; it is the base itself when that is free.
  The post town's slug must leave room for a letter and the hyphen.\<close>

theorem a_free_slug_is_found:
  assumes "finite {s. taken s}" "card {s. taken s} < 2 ^ 32 - 2" "slug_ok base"
    and "\<And>t w. town = Some t \<Longrightarrow> slugify u t = Inr w \<Longrightarrow> length w \<le> 78"
  shows "\<exists>s. first_free_slug u base town taken = Some s \<and> \<not> taken s \<and> slug_ok s \<and> (taken base \<or> s = base)"
proof -
  from first_free_slug_total [OF assms(1,2)] obtain s where s: "first_free_slug u base town taken = Some s" by blast
  with first_free_slug_free [OF s] first_free_slug_ok [OF assms(3) s assms(4)] first_free_slug_base [of taken base u town]
  show ?thesis by auto
qed

text \<open>C39 long_town_slug_overflows: without that room the documented bound fails: a post town whose
  slug has 80 characters gives a slug of 81 that starts with a hyphen.\<close>

theorem long_town_slug_overflows:
  "first_free_slug sample_ucd (lit ''hosle'') (Some (replicate 80 97)) (\<lambda>s. s = lit ''hosle'')
     = Some (45 # replicate 80 97)
   \<and> max_slug_len < length (45 # replicate 80 (97::nat))"
proof -
  have "slugify sample_ucd (replicate 80 97) = Inr (replicate 80 97)" by code_simp
  moreover have "with_suffix (lit ''hosle'') (replicate 80 97) = 45 # replicate 80 97" by code_simp
  moreover have "45 # replicate 80 97 \<noteq> lit ''hosle''" by (simp add: lit_def)
  ultimately show ?thesis by (simp add: first_free_slug_def Let_def max_slug_len_def)
qed

text \<open>Municipalities with different numbers have different slugs,
  whatever their names.\<close>

theorem municipality_slugs_differ:
  assumes "municipality_slug u n name = Inr s" "municipality_slug u n' name' = Inr s'" "n \<noteq> n'"
  shows "s \<noteq> s'"
  using municipality_slug_number [OF assms(1)] municipality_slug_number [OF assms(2)] assms(3) by auto

section \<open>Similarity\<close>

text \<open>The trigram similarity, in \<open>f32\<close> arithmetic, is symmetric, at
  most one, one for names with the same folded query, and zero for names without a common trigram.\<close>

theorem similarity_is_a_similarity:
  "similarity u a b = similarity u b a
   \<and> similarity u a b \<le> f32_one
   \<and> (trigrams (search_query u a) \<noteq> {} \<longrightarrow> search_query u a = search_query u b \<longrightarrow> similarity u a b = f32_one)
   \<and> (trigrams (search_query u a) \<inter> trigrams (search_query u b) = {} \<longrightarrow> similarity u a b = F32_Zero)"
  using similarity_sym [of u a b] similarity_le_one [of u a b] similarity_same_query [of u a b]
    similarity_disjoint [of u a b]
  by blast

section \<open>FAU addresses\<close>

text \<open>An address key is never made from a line that names a person:
  one with the words \<open>c o\<close> side by side, with a word \<open>v\<close> before its house number, or with a word
  \<open>v\<close> after it and before the last word. Every key has a four-digit postcode, and the keys are
  sorted without repeats.\<close>

theorem personal_lines_yield_no_key:
  assumes "k \<in> set (address_keys u lines pc)"
  shows "(\<exists>line\<in>set lines. street_line u line = Some (street k)
      \<and> \<not> care_of_pair (fold_words u line)
      \<and> (\<exists>d. first_digit_index (fold_words u line) = Some d
           \<and> (\<forall>i<length (fold_words u line). fold_words u line ! i = lit ''v'' \<longrightarrow>
                i = d \<or> Suc i = length (fold_words u line) \<and> d < i)))
    \<and> length (postcode k) = 4 \<and> list_all is_ascii_digit (postcode k)
    \<and> sorted (map key_order (address_keys u lines pc)) \<and> distinct (address_keys u lines pc)"
proof -
  from assms have pc: "valid_postcode pc = Some (postcode k)"
    and "\<exists>line\<in>set lines. street_line u line = Some (street k)" by (simp_all add: address_keys_iff)
  then obtain line where line: "line \<in> set lines" "street_line u line = Some (street k)" by blast
  let ?w = "fold_words u line"
  have np: "\<not> is_personal ?w" using line(2) street_line_not_personal by fastforce
  then have nopair: "\<not> care_of_pair ?w" by (simp add: is_personal_iff)
  have "first_digit_index ?w \<noteq> None"
    using line(2) np by (auto simp: street_line_def Let_def normalise_street_words_def split: if_splits)
  then obtain d where d: "first_digit_index ?w = Some d" by blast
  have "i = d \<or> Suc i = length ?w \<and> d < i" if "i < length ?w" "?w ! i = lit ''v''" for i
    using np that d unfolding is_personal_iff by (metis Suc_lessI linorder_neqE_nat)
  with line nopair d have 1: "\<exists>line\<in>set lines. street_line u line = Some (street k)
      \<and> \<not> care_of_pair (fold_words u line)
      \<and> (\<exists>d. first_digit_index (fold_words u line) = Some d
           \<and> (\<forall>i<length (fold_words u line). fold_words u line ! i = lit ''v'' \<longrightarrow>
                i = d \<or> Suc i = length (fold_words u line) \<and> d < i))" by blast
  have 2: "sorted (map key_order (address_keys u lines pc)) \<and> distinct (address_keys u lines pc)"
    using sort_keys_sorted by (auto simp: address_keys_def split: option.splits)
  show ?thesis using 1 2 valid_postcode_Some [OF pc] by blast
qed

text \<open>A key from a care-of line is made only when the words
  between the marker and the house number contain the school's folded name, or its identifying core
  followed by a word for school.\<close>

theorem care_of_keys_name_the_school:
  assumes "care_of_line u line lossy core = Some st"
  shows "\<exists>me npe. marker_end (fold_words u line) = Some me
    \<and> npe = unwrap_or (first_digit_index (fold_words u line)) (length (fold_words u line)) \<and> me \<le> npe
    \<and> ((lossy \<noteq> [] \<and> sublist lossy (drop me (take npe (fold_words u line))))
       \<or> (core \<noteq> [] \<and> (\<exists>w\<in>set school_words. sublist (core @ [w]) (drop me (take npe (fold_words u line))))))"
proof -
  from assms obtain me matched where me: "marker_end (fold_words u line) = Some me"
    and le: "\<not> unwrap_or (first_digit_index (fold_words u line)) (length (fold_words u line)) < me"
    and m: "school_match_end (drop me (take (unwrap_or (first_digit_index (fold_words u line)) (length (fold_words u line))) (fold_words u line))) lossy core = Some matched"
    by (auto simp: care_of_line_def Let_def split: option.splits if_splits)
  from school_match_end_Some [OF m] me le show ?thesis by auto
qed

section \<open>Scope\<close>

text \<open>A unit of the source register is in scope exactly when it is an
  active primary school in Norway that is neither for adults nor upper secondary, and of its industry
  codes only the first of priority one counts.\<close>

theorem scope_is_public_primary:
  "classify (scope_facts un) = In_Scope \<longleftrightarrow>
     u_is_school un \<and> u_is_active un \<and> u_is_primary_school un \<and> u_municipality_number un \<noteq> lit ''2599''
     \<and> set (u_category_ids un) \<inter> {lit ''10'', lit ''25''} = {}
     \<and> (\<forall>xs ys code. u_nace un = xs @ (1, code) # ys \<longrightarrow> (\<forall>p\<in>set xs. fst p \<noteq> 1) \<longrightarrow>
          code \<noteq> lit ''85.593'' \<and> \<not> prefix (lit ''85.3'') code)"
proof -
  have "(\<forall>code. primary_nace (u_nace un) = Some code \<longrightarrow> code \<noteq> lit ''85.593'' \<and> \<not> prefix (lit ''85.3'') code)
      \<longleftrightarrow> (\<forall>xs ys code. u_nace un = xs @ (1, code) # ys \<longrightarrow> (\<forall>p\<in>set xs. fst p \<noteq> 1) \<longrightarrow>
          code \<noteq> lit ''85.593'' \<and> \<not> prefix (lit ''85.3'') code)"
    unfolding primary_nace_first by blast
  then show ?thesis by (auto simp: classify_In_Scope scope_facts_def)
qed

definition sample_scope_unit :: "unit nsr_unit" where
  "sample_scope_unit =
     \<lparr>u_orgnr = lit ''974'', u_name = lit ''Hosle skole'', u_municipality_number = lit ''3201'',
      u_is_school = True, u_is_active = True, u_is_primary_school = True, u_is_private = False,
      u_category_ids = [], u_nace = [(1, lit ''85.201''), (2, lit ''85.310'')], u_grade_from = Some 1,
      u_grade_to = Some 7, u_language = None, u_website = None,
      u_visiting = \<lparr>na_street = None, na_postcode = None, na_post_town = None\<rparr>,
      u_postal = \<lparr>na_street = None, na_postcode = None, na_post_town = None\<rparr>,
      u_closure = None, u_changed_at = None\<rparr>"

end
