(* ===== verification/Store_Types.thy ===== *)
theory Store_Types
  imports Acceptance Membership_Rules Authz History Sync_Types
begin

text \<open>
  The membership store: the tables of \<open>backend/migrations\<close> that \<open>persistence/src/membership\<close> reads and
  writes, and the shape of its transactions. A table is the list of its rows in insertion order,
  each with its tenant. A transaction maps a store to an error (rolled back, nothing kept) or to a
  result and the store it commits; the tenant lock makes the transactions of one tenant serial.
\<close>

section \<open>Errors and chaining\<close>

datatype existing_fau = Fau_Pending | Fau_Active

datatype membership_error =
    E_Admin_End admin_end_error | E_Empty_Period | E_Period_Already_Ended | E_No_Roles_Offered | E_Duplicate_Role
  | E_School_Taken existing_fau | E_Too_Many_Pending_Signups | E_Signup_Expired | E_Registrant_Mismatch
  | E_Signup_Race_Unresolved
  | E_Unknown_Tenant | E_Tenant_Not_Pending | E_Tenant_Not_Active | E_Tenant_Frozen
  | E_Not_Authorized | E_Self_Invitation | E_Account_Disabled
  | E_Unknown_Invitation | E_Invitation_Not_Pending | E_Acceptance acceptance_refusal | E_Override_Not_Allowed
  | E_Unknown_Role | E_Not_Admin_Role | E_Unknown_Membership | E_Unknown_Account | E_Membership_Revoked
  | E_Unknown_Assignment | E_Assignment_Already_Revoked | E_Role_Not_Held_Today | E_Would_Leave_No_Admin
  | E_Not_In_No_Admin_State | E_Role_Group_Mismatch
  | E_Replacement_Dates replacement_date_error | E_Request_Limit request_limit | E_Message_Too_Long
  | E_Message_Control_Character | E_Unknown_Request | E_Request_Not_Pending
  | E_Unknown_Group | E_Group_Archived | E_Already_In_Group | E_Not_In_Group | E_Membership_Ended_Invite_As_Guest
  | E_Group_Name_Malformed | E_Unknown_Unit | E_Unknown_Cohort
  | E_Display_Name_Malformed | E_Contact_Email_Malformed | E_Membership_Id_Malformed | E_Acceptance_Target_Changed
  | E_Membership_Erased | E_Membership_Ended | E_Empty_Selection
  | E_Randomness | E_Database

text \<open>The \<open>?\<close> operator, \<open>ok_or\<close> and an early \<open>return Err\<close>.\<close>

definition and_then :: "('e, 'a) result \<Rightarrow> ('a \<Rightarrow> ('e, 'b) result) \<Rightarrow> ('e, 'b) result" where
  "and_then r f = (case r of Inl e \<Rightarrow> Inl e | Inr a \<Rightarrow> f a)"

definition ok_or :: "'e \<Rightarrow> 'a option \<Rightarrow> ('e, 'a) result" where
  "ok_or e x = (case x of None \<Rightarrow> Inl e | Some a \<Rightarrow> Inr a)"

definition require :: "bool \<Rightarrow> 'e \<Rightarrow> ('e, unit) result" where
  "require c e = (if c then Inr () else Inl e)"

lemma and_then_simps [simp]: "and_then (Inl e) f = Inl e" "and_then (Inr a) f = f a"
  by (simp_all add: and_then_def)

lemma and_then_Inr [simp]: "and_then r f = Inr b \<longleftrightarrow> (\<exists>a. r = Inr a \<and> f a = Inr b)"
  by (cases r) simp_all

lemma and_then_InrE:
  assumes "and_then r f = Inr b" obtains a where "r = Inr a" "f a = Inr b"
  using assms by auto

lemma ok_or_Inr [simp]: "ok_or e x = Inr a \<longleftrightarrow> x = Some a"
  by (cases x) (simp_all add: ok_or_def)

lemma require_Inr [simp]: "require c e = Inr u \<longleftrightarrow> c"
  by (simp add: require_def)

lemma and_then_cong [fundef_cong]:
  "r = r' \<Longrightarrow> (\<And>a. r' = Inr a \<Longrightarrow> f a = g a) \<Longrightarrow> and_then r f = and_then r' g"
  by (cases r') simp_all

text \<open>\<open>iter.map(f).collect::<Result<Vec<_>, _>>()\<close>.\<close>

fun collect_results :: "('a \<Rightarrow> ('e, 'b) result) \<Rightarrow> 'a list \<Rightarrow> ('e, 'b list) result" where
  "collect_results f [] = Inr []"
| "collect_results f (x # xs) = and_then (f x) (\<lambda>y. and_then (collect_results f xs) (\<lambda>ys. Inr (y # ys)))"

section \<open>Rows\<close>

text \<open>A \<open>Uuid\<close> is its 128-bit number, so that it is ordered as Postgres orders it.\<close>

type_synonym uuid = nat
type_synonym bytes = "nat list"

record 't tenant_row =
  tn_id :: uuid
  tn_name :: str
  tn_school :: "uuid option"
  tn_status :: tenant_status
  tn_frozen_at :: "'t option"

record ('t, 'd) signup_row =
  sg_tenant :: uuid
  sg_registrant :: str
  sg_leader :: str
  sg_admin_end :: 'd
  sg_expires_at :: 't

record 't account_row =
  acc_id :: uuid
  acc_email :: str
  acc_verified_at :: "'t option"
  acc_disabled_at :: "'t option"
  acc_retention :: retention_months

record ('t, 'd) membership_row =
  mb_tenant :: uuid
  mb_id :: uuid
  mb_account :: uuid
  mb_revoked_at :: "'t option"
  mb_display_name :: "bytes option"
  mb_contact_email :: "bytes option"
  mb_name_erased_at :: "'t option"
  mb_retained_until :: "'d option"

record role_row =
  ro_tenant :: uuid
  ro_id :: uuid
  ro_name :: str
  ro_class :: capability_class
  ro_unit :: "uuid option"
  ro_cohort :: "uuid option"
  ro_group :: "uuid option"

record ('t, 'd) assignment_row =
  ra_tenant :: uuid
  ra_id :: uuid
  ra_membership :: uuid
  ra_role :: uuid
  ra_period :: "'d period"
  ra_revoked_at :: "'t option"
  ra_granted_by :: "uuid option"

record ('t, 'd) handover_row =
  hg_tenant :: uuid
  hg_id :: uuid
  hg_source :: uuid
  hg_period :: "'d period"
  hg_revoked_at :: "'t option"

text \<open>\<open>encrypted_message\<close> holds the UTF-8 bytes of a text, here the text.\<close>

record 't invitation_row =
  iv_tenant :: uuid
  iv_id :: uuid
  iv_token_hash :: bytes
  iv_mode :: invitation_mode
  iv_recipient :: str
  iv_issued_by :: "uuid option"
  iv_grant :: "uuid option"
  iv_request :: "uuid option"
  iv_holder :: "recovery_holder option"
  iv_expires_at :: 't
  iv_accepted_at :: "'t option"
  iv_accepted_membership :: "uuid option"
  iv_revoked_at :: "'t option"
  iv_created_at :: 't
  iv_message :: "str option"

record 'd invitation_role_row =
  ir_tenant :: uuid
  ir_invitation :: uuid
  ir_role :: uuid
  ir_period :: "'d period"

record 't group_row =
  grp_tenant :: uuid
  grp_id :: uuid
  grp_name :: bytes
  grp_visibility :: visibility
  grp_unit :: "uuid option"
  grp_cohort :: "uuid option"
  grp_created_by :: uuid
  grp_created_at :: 't
  grp_archived_at :: "'t option"

record 't group_member_row =
  gm_tenant :: uuid
  gm_id :: uuid
  gm_group :: uuid
  gm_membership :: uuid
  gm_added_by :: uuid
  gm_added_at :: 't
  gm_removed_at :: "'t option"

record recovery_contact_row =
  rc_tenant :: uuid
  rc_holder :: recovery_holder
  rc_nominee :: "str option"

record ('t, 'd) request_row =
  rq_tenant :: uuid
  rq_id :: uuid
  rq_kind :: request_kind
  rq_requester_email :: str
  rq_invitee_email :: str
  rq_requester :: "uuid option"
  rq_replaced :: "uuid option"
  rq_proposed :: "'d period option"
  rq_message :: "str option"
  rq_status :: request_status
  rq_created_on :: 'd
  rq_created_at :: 't
  rq_decided_by :: "uuid option"
  rq_closed_at :: "'t option"

section \<open>Logs\<close>

datatype actor_kind = Actor_Member | Actor_System | Actor_Registrant | Actor_Requester
  | Actor_Recovery_Ewb | Actor_Recovery_School_Rep

definition all_actor_kinds :: "actor_kind list" where
  "all_actor_kinds = [Actor_Member, Actor_System, Actor_Registrant, Actor_Requester,
     Actor_Recovery_Ewb, Actor_Recovery_School_Rep]"

fun actor_kind_code :: "actor_kind \<Rightarrow> str" where
  "actor_kind_code Actor_Member = lit ''member''"
| "actor_kind_code Actor_System = lit ''system''"
| "actor_kind_code Actor_Registrant = lit ''registrant''"
| "actor_kind_code Actor_Requester = lit ''requester''"
| "actor_kind_code Actor_Recovery_Ewb = lit ''recovery_ewb''"
| "actor_kind_code Actor_Recovery_School_Rep = lit ''recovery_school_rep''"

text \<open>A JSON object of parameters: ids, codes, dates and flags only.\<close>

datatype 'd param = P_Id uuid | P_Code str | P_Date 'd | P_Flag bool | P_Count nat | P_Null

type_synonym 'd params = "(str \<times> 'd param) list"

record 'd audit =
  ad_tenant :: "uuid option"
  ad_actor_kind :: actor_kind
  ad_actor_account :: "uuid option"
  ad_actor_membership :: "uuid option"
  ad_action :: str
  ad_subject_type :: str
  ad_subject_id :: uuid
  ad_params :: "'d params"

record ('t, 'd) audit_row =
  au_id :: uuid
  au_occurred_at :: 't
  au_entry :: "'d audit"

record ('t, 'd) outbox_row =
  ob_id :: uuid
  ob_tenant :: "uuid option"
  ob_template :: str
  ob_recipient :: str
  ob_params :: "'d params"
  ob_created_at :: 't

datatype resource = Res_Fau | Res_Group uuid | Res_Group_Content uuid

datatype change = Changed resource | Access_Revoked uuid

section \<open>The store\<close>

text \<open>\<open>db_notices\<close> holds the \<open>NOTIFY\<close>s a commit delivers, \<open>db_drawn\<close> counts the random ids and tokens
  drawn, so that each draw is a new one of the environment's.\<close>

record ('t, 'd) store =
  db_tenants :: "'t tenant_row list"
  db_signups :: "('t, 'd) signup_row list"
  db_accounts :: "'t account_row list"
  db_memberships :: "('t, 'd) membership_row list"
  db_roles :: "role_row list"
  db_assignments :: "('t, 'd) assignment_row list"
  db_grants :: "('t, 'd) handover_row list"
  db_invitations :: "'t invitation_row list"
  db_invitation_roles :: "'d invitation_role_row list"
  db_groups :: "'t group_row list"
  db_group_members :: "'t group_member_row list"
  db_recovery_contacts :: "recovery_contact_row list"
  db_requests :: "('t, 'd) request_row list"
  db_units :: "(uuid \<times> uuid) list"
  db_cohorts :: "(uuid \<times> uuid) list"
  db_audit :: "('t, 'd) audit_row list"
  db_outbox :: "('t, 'd) outbox_row list"
  db_notices :: "(uuid \<times> change) list"
  db_drawn :: nat

text \<open>What the store uses of other code: the calendar, Oslo's date, \<open>Uuid::now_v7\<close>, the random
  source behind \<open>InvitationToken::generate\<close>, SHA-256 and the Unicode tables.\<close>

record ('t, 'd) env =
  env_calendar :: "('d, 't) calendar"
  env_oslo :: "'t \<Rightarrow> 'd"
  env_uuid :: "nat \<Rightarrow> uuid"
  env_random :: "nat \<Rightarrow> bytes option"
  env_sha256 :: "bytes \<Rightarrow> bytes"
  env_ucd :: ucd

type_synonym 'a outcome = "(membership_error, 'a) result"

section \<open>Statements\<close>

text \<open>An insert whose key is taken or whose row breaks a constraint fails; so does an update of
  rows to rows that break one.\<close>

definition insert_row :: "('a \<Rightarrow> 'k) \<Rightarrow> bool \<Rightarrow> 'a \<Rightarrow> 'a list \<Rightarrow> 'a list outcome" where
  "insert_row key ok row rows =
     (if ok \<and> \<not> list_ex (\<lambda>r. key r = key row) rows then Inr (rows @ [row]) else Inl E_Database)"

definition update_rows :: "('a \<Rightarrow> bool) \<Rightarrow> ('a \<Rightarrow> bool) \<Rightarrow> ('a \<Rightarrow> 'a) \<Rightarrow> 'a list \<Rightarrow> 'a list outcome" where
  "update_rows ok p f rows =
     (if list_all (\<lambda>r. p r \<longrightarrow> ok (f r)) rows then Inr (map (\<lambda>r. if p r then f r else r) rows) else Inl E_Database)"

lemma insert_row_Inr [simp]:
  "insert_row key ok row rows = Inr rows' \<longleftrightarrow> ok \<and> key row \<notin> key ` set rows \<and> rows' = rows @ [row]"
  by (auto simp: insert_row_def list_ex_iff image_iff dest: sym)

lemma update_rows_Inr [simp]:
  "update_rows ok p f rows = Inr rows' \<longleftrightarrow>
     list_all (\<lambda>r. p r \<longrightarrow> ok (f r)) rows \<and> rows' = map (\<lambda>r. if p r then f r else r) rows"
  by (auto simp: update_rows_def)

text \<open>A \<open>for\<close> loop that stops at the first error.\<close>

fun for_each :: "('a \<Rightarrow> 's \<Rightarrow> 's outcome) \<Rightarrow> 'a list \<Rightarrow> 's \<Rightarrow> 's outcome" where
  "for_each f [] s = Inr s"
| "for_each f (x # xs) s = and_then (f x s) (for_each f xs)"

lemma for_each_cong [fundef_cong]:
  "xs = ys \<Longrightarrow> s = s' \<Longrightarrow> (\<And>x s. x \<in> set ys \<Longrightarrow> f x s = g x s) \<Longrightarrow> for_each f xs s = for_each g ys s'"
proof (induction ys arbitrary: xs s s')
  case (Cons y ys)
  then show ?case by (auto intro!: and_then_cong)
qed simp

text \<open>What every step keeps, the loop keeps.\<close>

lemma for_each_rel:
  assumes "for_each f xs s = Inr s'" "\<And>s. R s s" "\<And>a b c. R a b \<Longrightarrow> R b c \<Longrightarrow> R a c"
    and "\<And>x s s'. x \<in> set xs \<Longrightarrow> f x s = Inr s' \<Longrightarrow> R s s'"
  shows "R s s'"
  using assms(1,4)
proof (induction xs arbitrary: s)
  case Nil
  then show ?case using assms(2) by simp
next
  case (Cons x xs)
  then obtain s1 where "f x s = Inr s1" "for_each f xs s1 = Inr s'" by auto
  with Cons show ?case by (meson assms(3) list.set_intros)
qed

text \<open>\<open>Uuid::now_v7()\<close>.\<close>

definition now_v7 :: "('t, 'd) env \<Rightarrow> ('t, 'd) store \<Rightarrow> uuid \<times> ('t, 'd) store" where
  "now_v7 E db = (env_uuid E (db_drawn db), db\<lparr>db_drawn := Suc (db_drawn db)\<rparr>)"

end
