(* ===== verification/Store_Sql.thy ===== *)
theory Store_Sql
  imports Store_Types
begin

text \<open>
  \<open>persistence/src/membership/sql.rs\<close>, \<open>access.rs\<close> and \<open>authz.rs\<close>: the reads and writes every
  membership transaction is made of. A join on a primary key is a lookup; an \<open>exists\<close> is
  \<open>list_ex\<close>; a comparison with a null column is never true (\<open>sql_eq\<close>).
\<close>

section \<open>Rows by primary key\<close>

definition find_tenant :: "uuid \<Rightarrow> ('t, 'd) store \<Rightarrow> 't tenant_row option" where
  "find_tenant t db = List.find (\<lambda>r. tn_id r = t) (db_tenants db)"

definition find_account :: "uuid \<Rightarrow> ('t, 'd) store \<Rightarrow> 't account_row option" where
  "find_account a db = List.find (\<lambda>r. acc_id r = a) (db_accounts db)"

definition account_by_email :: "str \<Rightarrow> ('t, 'd) store \<Rightarrow> 't account_row option" where
  "account_by_email e db = List.find (\<lambda>r. acc_email r = e) (db_accounts db)"

definition find_membership :: "uuid \<Rightarrow> uuid \<Rightarrow> ('t, 'd) store \<Rightarrow> ('t, 'd) membership_row option" where
  "find_membership t m db = List.find (\<lambda>r. mb_tenant r = t \<and> mb_id r = m) (db_memberships db)"

definition find_role :: "uuid \<Rightarrow> uuid \<Rightarrow> ('t, 'd) store \<Rightarrow> role_row option" where
  "find_role t i db = List.find (\<lambda>r. ro_tenant r = t \<and> ro_id r = i) (db_roles db)"

definition find_assignment :: "uuid \<Rightarrow> uuid \<Rightarrow> ('t, 'd) store \<Rightarrow> ('t, 'd) assignment_row option" where
  "find_assignment t i db = List.find (\<lambda>r. ra_tenant r = t \<and> ra_id r = i) (db_assignments db)"

definition find_grant :: "uuid \<Rightarrow> uuid \<Rightarrow> ('t, 'd) store \<Rightarrow> ('t, 'd) handover_row option" where
  "find_grant t i db = List.find (\<lambda>r. hg_tenant r = t \<and> hg_id r = i) (db_grants db)"

definition find_group :: "uuid \<Rightarrow> uuid \<Rightarrow> ('t, 'd) store \<Rightarrow> 't group_row option" where
  "find_group t i db = List.find (\<lambda>r. grp_tenant r = t \<and> grp_id r = i) (db_groups db)"

definition find_invitation :: "uuid \<Rightarrow> uuid \<Rightarrow> ('t, 'd) store \<Rightarrow> 't invitation_row option" where
  "find_invitation t i db = List.find (\<lambda>r. iv_tenant r = t \<and> iv_id r = i) (db_invitations db)"

lemmas find_defs = find_tenant_def find_account_def account_by_email_def find_membership_def
  find_role_def find_assignment_def find_grant_def find_group_def find_invitation_def

lemma find_tenant_Some: "find_tenant t db = Some r \<Longrightarrow> r \<in> set (db_tenants db) \<and> tn_id r = t"
  by (auto simp: find_tenant_def find_Some_iff)

lemma find_account_Some: "find_account a db = Some r \<Longrightarrow> r \<in> set (db_accounts db) \<and> acc_id r = a"
  by (auto simp: find_account_def find_Some_iff)

lemma account_by_email_Some: "account_by_email e db = Some r \<Longrightarrow> r \<in> set (db_accounts db) \<and> acc_email r = e"
  by (auto simp: account_by_email_def find_Some_iff)

lemma find_membership_Some:
  "find_membership t m db = Some r \<Longrightarrow> r \<in> set (db_memberships db) \<and> mb_tenant r = t \<and> mb_id r = m"
  by (auto simp: find_membership_def find_Some_iff)

lemma find_role_Some: "find_role t i db = Some r \<Longrightarrow> r \<in> set (db_roles db) \<and> ro_tenant r = t \<and> ro_id r = i"
  by (auto simp: find_role_def find_Some_iff)

lemma find_assignment_Some:
  "find_assignment t i db = Some r \<Longrightarrow> r \<in> set (db_assignments db) \<and> ra_tenant r = t \<and> ra_id r = i"
  by (auto simp: find_assignment_def find_Some_iff)

lemma find_group_Some: "find_group t i db = Some r \<Longrightarrow> r \<in> set (db_groups db) \<and> grp_tenant r = t \<and> grp_id r = i"
  by (auto simp: find_group_def find_Some_iff)

lemma find_invitation_Some:
  "find_invitation t i db = Some r \<Longrightarrow> r \<in> set (db_invitations db) \<and> iv_tenant r = t \<and> iv_id r = i"
  by (auto simp: find_invitation_def find_Some_iff)

definition sql_eq :: "'a option \<Rightarrow> 'a option \<Rightarrow> bool" where
  "sql_eq a b \<longleftrightarrow> a \<noteq> None \<and> a = b"

section \<open>Tenant state and authority\<close>

record tenant_state =
  ts_status :: tenant_status
  ts_frozen :: bool

definition lock_tenant :: "uuid \<Rightarrow> ('t, 'd) store \<Rightarrow> tenant_state outcome" where
  "lock_tenant t db =
     and_then (ok_or E_Unknown_Tenant (find_tenant t db)) (\<lambda>r.
       Inr \<lparr>ts_status = tn_status r, ts_frozen = (tn_frozen_at r \<noteq> None)\<rparr>)"

definition require_open :: "tenant_state \<Rightarrow> unit outcome" where
  "require_open st =
     (if ts_status st \<noteq> Tenant_Active then Inl E_Tenant_Not_Active
      else if ts_frozen st then Inl E_Tenant_Frozen
      else Inr ())"

definition membership_not_revoked :: "('t, 'd) membership_row \<Rightarrow> bool" where
  "membership_not_revoked m \<longleftrightarrow> mb_revoked_at m = None"

definition login_usable :: "'t account_row \<Rightarrow> bool" where
  "login_usable a \<longleftrightarrow> acc_disabled_at a = None \<and> acc_verified_at a \<noteq> None"

definition usable_account :: "('t, 'd) membership_row \<Rightarrow> 't account_row \<Rightarrow> bool" where
  "usable_account m a \<longleftrightarrow> membership_not_revoked m \<and> login_usable a"

text \<open>\<open>memberships m join accounts a\<close>, for one membership.\<close>

definition member_account ::
  "uuid \<Rightarrow> uuid \<Rightarrow> ('t, 'd) store \<Rightarrow> (('t, 'd) membership_row \<times> 't account_row) option" where
  "member_account t m db =
     Option.bind (find_membership t m db) (\<lambda>mb. map_option (Pair mb) (find_account (mb_account mb) db))"

definition membership_usable :: "uuid \<Rightarrow> uuid \<Rightarrow> ('t, 'd) store \<Rightarrow> bool" where
  "membership_usable t m db =
     (case member_account t m db of Some (mb, a) \<Rightarrow> usable_account mb a | None \<Rightarrow> False)"

definition usable_member_email :: "uuid \<Rightarrow> uuid \<Rightarrow> ('t, 'd) store \<Rightarrow> str option" where
  "usable_member_email t m db =
     (case member_account t m db of
        Some (mb, a) \<Rightarrow> if usable_account mb a then Some (acc_email a) else None
      | None \<Rightarrow> None)"

definition membership_and_account_state :: "uuid \<Rightarrow> uuid \<Rightarrow> ('t, 'd) store \<Rightarrow> (bool \<times> bool) option" where
  "membership_and_account_state t m db =
     map_option (\<lambda>(mb, a). (mb_revoked_at mb \<noteq> None, usable_account mb a)) (member_account t m db)"

definition role_of :: "('t, 'd) store \<Rightarrow> ('t, 'd) assignment_row \<Rightarrow> role_row option" where
  "role_of db ra = find_role (ra_tenant ra) (ra_role ra) db"

definition has_class :: "('t, 'd) store \<Rightarrow> capability_class \<Rightarrow> ('t, 'd) assignment_row \<Rightarrow> bool" where
  "has_class db c ra = (case role_of db ra of Some r \<Rightarrow> ro_class r = c | None \<Rightarrow> False)"

text \<open>\<open>ASSIGNMENT_VALID_ON_3\<close>.\<close>

definition row_valid_on :: "'d::linorder \<Rightarrow> ('t, 'd) assignment_row \<Rightarrow> bool" where
  "row_valid_on today ra \<longleftrightarrow> ra_revoked_at ra = None \<and> period_contains (ra_period ra) today"

definition held_by :: "uuid \<Rightarrow> uuid \<Rightarrow> ('t, 'd) assignment_row \<Rightarrow> bool" where
  "held_by t m ra \<longleftrightarrow> ra_tenant ra = t \<and> ra_membership ra = m"

definition is_admin_today :: "uuid \<Rightarrow> uuid \<Rightarrow> 'd::linorder \<Rightarrow> ('t, 'd) store \<Rightarrow> bool" where
  "is_admin_today t m today db \<longleftrightarrow>
     membership_usable t m db \<and>
     list_ex (\<lambda>ra. held_by t m ra \<and> row_valid_on today ra \<and> has_class db Admin_Class ra) (db_assignments db)"

definition require_admin :: "uuid \<Rightarrow> uuid \<Rightarrow> 'd::linorder \<Rightarrow> ('t, 'd) store \<Rightarrow> unit outcome" where
  "require_admin t m today db = require (is_admin_today t m today db) E_Not_Authorized"

definition assignment_of_grant :: "('t, 'd) store \<Rightarrow> ('t, 'd) handover_row \<Rightarrow> ('t, 'd) assignment_row option" where
  "assignment_of_grant db g = find_assignment (hg_tenant g) (hg_source g) db"

definition handover_grant_valid :: "uuid \<Rightarrow> uuid \<Rightarrow> uuid \<Rightarrow> 'd::linorder \<Rightarrow> ('t, 'd) store \<Rightarrow> bool" where
  "handover_grant_valid t i m today db =
     (case find_grant t i db of
        None \<Rightarrow> False
      | Some g \<Rightarrow>
          (case assignment_of_grant db g of
             None \<Rightarrow> False
           | Some ra \<Rightarrow> ra_membership ra = m \<and> hg_revoked_at g = None \<and> ra_revoked_at ra = None
               \<and> period_contains (hg_period g) today \<and> membership_usable t m db))"

section \<open>The admin state\<close>

record 'd admin_assignment_row =
  aa_id :: uuid
  aa_membership :: uuid
  aa_view :: "'d assignment_view"

record 'd grant_row =
  ag_source :: uuid
  ag_membership :: uuid
  ag_view :: "'d grant_view"

record 'd admin_state =
  ad_assignments :: "'d admin_assignment_row list"
  ad_grants :: "'d grant_row list"

definition load_assignments :: "uuid \<Rightarrow> ('t, 'd) store \<Rightarrow> 'd admin_assignment_row list" where
  "load_assignments t db =
     map (\<lambda>ra. \<lparr>aa_id = ra_id ra, aa_membership = ra_membership ra,
            aa_view = \<lparr>as_capability = Admin_Class, as_period = ra_period ra, as_revoked = (ra_revoked_at ra \<noteq> None)\<rparr>\<rparr>)
       (filter (\<lambda>ra. ra_tenant ra = t \<and> has_class db Admin_Class ra \<and> membership_usable t (ra_membership ra) db)
          (db_assignments db))"

definition load_grant :: "uuid \<Rightarrow> ('t, 'd) store \<Rightarrow> ('t, 'd) handover_row \<Rightarrow> 'd grant_row option" where
  "load_grant t db g =
     (if hg_tenant g \<noteq> t then None
      else case assignment_of_grant db g of
        None \<Rightarrow> None
      | Some ra \<Rightarrow>
          if ra_revoked_at ra = None \<and> membership_usable t (ra_membership ra) db
          then Some \<lparr>ag_source = hg_source g, ag_membership = ra_membership ra,
                 ag_view = \<lparr>gr_period = hg_period g, gr_revoked = (hg_revoked_at g \<noteq> None)\<rparr>\<rparr>
          else None)"

definition admin_state_load :: "uuid \<Rightarrow> ('t, 'd) store \<Rightarrow> 'd admin_state" where
  "admin_state_load t db =
     \<lparr>ad_assignments = load_assignments t db, ad_grants = List.map_filter (load_grant t db) (db_grants db)\<rparr>"

definition has_admin :: "'d::linorder admin_state \<Rightarrow> 'd \<Rightarrow> bool" where
  "has_admin st today = tenant_has_admin (map aa_view (ad_assignments st)) (map ag_view (ad_grants st)) today"

definition check_last_admin ::
  "'d::linorder admin_state \<Rightarrow> 'd \<Rightarrow> bool \<Rightarrow> (uuid \<Rightarrow> uuid \<Rightarrow> bool) \<Rightarrow> bool outcome" where
  "check_last_admin st today confirm_no_admin removed =
     (let gone_a = filter (\<lambda>r. removed (aa_id r) (aa_membership r)) (ad_assignments st);
          kept_a = filter (\<lambda>r. \<not> removed (aa_id r) (aa_membership r)) (ad_assignments st);
          gone_g = filter (\<lambda>r. removed (ag_source r) (ag_membership r)) (ad_grants st);
          kept_g = filter (\<lambda>r. \<not> removed (ag_source r) (ag_membership r)) (ad_grants st);
          leaves_none = removal_leaves_no_admin (map aa_view kept_a) (map ag_view kept_g)
            (map aa_view gone_a) (map ag_view gone_g) today
      in if leaves_none \<and> \<not> confirm_no_admin then Inl E_Would_Leave_No_Admin else Inr leaves_none)"

section \<open>Recipients\<close>

text \<open>\<open>select distinct \<dots> order by a.email\<close>, in code point order.\<close>

definition distinct_sorted :: "str list \<Rightarrow> str list" where
  "distinct_sorted es = sort (remdups es)"

definition member_emails :: "uuid \<Rightarrow> 'd::linorder \<Rightarrow> bool \<Rightarrow> ('t, 'd) store \<Rightarrow> str list" where
  "member_emails t today admins_only db =
     distinct_sorted (List.map_filter (\<lambda>ra.
       if ra_tenant ra = t \<and> row_valid_on today ra
          \<and> (admins_only \<longrightarrow> has_class db Admin_Class ra)
          \<and> (has_class db Member_Class ra \<or> has_class db Admin_Class ra)
       then usable_member_email t (ra_membership ra) db
       else None) (db_assignments db))"

definition current_member_emails :: "uuid \<Rightarrow> 'd::linorder \<Rightarrow> ('t, 'd) store \<Rightarrow> str list" where
  "current_member_emails t today db = member_emails t today False db"

definition admin_emails :: "uuid \<Rightarrow> 'd::linorder \<Rightarrow> ('t, 'd) store \<Rightarrow> str list" where
  "admin_emails t today db = member_emails t today True db"

definition ewb_oversight_address :: str where
  "ewb_oversight_address = lit ''fau@ewb-solutions.as''"

definition recent_holder_emails :: "('t, 'd::linorder) env \<Rightarrow> uuid \<Rightarrow> 'd \<Rightarrow> ('t, 'd) store \<Rightarrow> str list" where
  "recent_holder_emails E t today db =
     distinct_sorted (List.map_filter (\<lambda>ra.
       if ra_tenant ra = t
          \<and> (has_class db Member_Class ra \<or> has_class db Admin_Class ra)
          \<and> starts_on (ra_period ra) \<le> today
          \<and> recent_holder_window_start (env_calendar E) today < ends_on_exclusive (ra_period ra)
       then (case member_account t (ra_membership ra) db of
               Some (_, a) \<Rightarrow> if acc_disabled_at a = None then Some (acc_email a) else None
             | None \<Rightarrow> None)
       else None) (db_assignments db))"

definition recovery_notice_recipients ::
  "('t, 'd::linorder) env \<Rightarrow> uuid \<Rightarrow> 'd \<Rightarrow> ('t, 'd) store \<Rightarrow> str list" where
  "recovery_notice_recipients E t today db =
     (let now = current_member_emails t today db;
          recipients = (if now = [] then recent_holder_emails E t today db else now)
      in if ewb_oversight_address \<in> set recipients then recipients else recipients @ [ewb_oversight_address])"

section \<open>Writes\<close>

definition audit_member :: "uuid \<Rightarrow> uuid \<Rightarrow> string \<Rightarrow> string \<Rightarrow> uuid \<Rightarrow> 'd params \<Rightarrow> 'd audit" where
  "audit_member t m action subject_type subject params =
     \<lparr>ad_tenant = Some t, ad_actor_kind = Actor_Member, ad_actor_account = None,
      ad_actor_membership = Some m, ad_action = lit action, ad_subject_type = lit subject_type,
      ad_subject_id = subject, ad_params = params\<rparr>"

definition audit_system :: "uuid \<Rightarrow> string \<Rightarrow> string \<Rightarrow> uuid \<Rightarrow> 'd params \<Rightarrow> 'd audit" where
  "audit_system t action subject_type subject params =
     \<lparr>ad_tenant = Some t, ad_actor_kind = Actor_System, ad_actor_account = None,
      ad_actor_membership = None, ad_action = lit action, ad_subject_type = lit subject_type,
      ad_subject_id = subject, ad_params = params\<rparr>"

definition write_audit ::
  "('t, 'd) env \<Rightarrow> ('t, 'd) moment \<Rightarrow> 'd audit \<Rightarrow> ('t, 'd) store \<Rightarrow> ('t, 'd) store outcome" where
  "write_audit E at e db =
     (let (i, db) = now_v7 E db
      in and_then (insert_row au_id True \<lparr>au_id = i, au_occurred_at = m_now at, au_entry = e\<rparr> (db_audit db))
           (\<lambda>rows. Inr (db\<lparr>db_audit := rows\<rparr>)))"

definition enqueue ::
  "('t, 'd) env \<Rightarrow> ('t, 'd) moment \<Rightarrow> uuid option \<Rightarrow> string \<Rightarrow> str \<Rightarrow> 'd params
     \<Rightarrow> ('t, 'd) store \<Rightarrow> ('t, 'd) store outcome" where
  "enqueue E at t template email params db =
     (let (i, db) = now_v7 E db
      in and_then (insert_row ob_id (t \<noteq> None \<or> template = ''signup.collision'')
             \<lparr>ob_id = i, ob_tenant = t, ob_template = lit template, ob_recipient = email,
              ob_params = params, ob_created_at = m_now at\<rparr> (db_outbox db))
           (\<lambda>rows. Inr (db\<lparr>db_outbox := rows\<rparr>)))"

definition notify :: "uuid \<Rightarrow> change \<Rightarrow> ('t, 'd) store \<Rightarrow> ('t, 'd) store" where
  "notify t c db = db\<lparr>db_notices := db_notices db @ [(t, c)]\<rparr>"

definition upsert_verified_account ::
  "('t, 'd) env \<Rightarrow> str \<Rightarrow> ('t, 'd) moment \<Rightarrow> ('t, 'd) store \<Rightarrow> ((uuid \<times> bool) \<times> ('t, 'd) store) outcome" where
  "upsert_verified_account E email at db =
     (let (i, db) = now_v7 E db
      in case account_by_email email db of
           Some a \<Rightarrow>
             Inr ((acc_id a, acc_disabled_at a \<noteq> None),
               db\<lparr>db_accounts := map (\<lambda>r. if acc_email r = email
                   then r\<lparr>acc_verified_at := (case acc_verified_at r of Some v \<Rightarrow> Some v | None \<Rightarrow> Some (m_now at))\<rparr>
                   else r) (db_accounts db)\<rparr>)
         | None \<Rightarrow>
             and_then (insert_row acc_id True
                 \<lparr>acc_id = i, acc_email = email, acc_verified_at = Some (m_now at), acc_disabled_at = None,
                  acc_retention = Three\<rparr> (db_accounts db))
               (\<lambda>rows. Inr ((i, False), db\<lparr>db_accounts := rows\<rparr>)))"

text \<open>\<open>role_assignments\<close>' foreign keys and its check on the period.\<close>

definition insert_assignment ::
  "('t, 'd::linorder) env \<Rightarrow> uuid \<Rightarrow> uuid \<Rightarrow> uuid \<Rightarrow> 'd period \<Rightarrow> uuid option
     \<Rightarrow> ('t, 'd) store \<Rightarrow> (uuid \<times> ('t, 'd) store) outcome" where
  "insert_assignment E t m role p granted_by db =
     (let (i, db) = now_v7 E db
      in and_then (insert_row (\<lambda>r. (ra_tenant r, ra_id r))
             (find_membership t m db \<noteq> None \<and> find_role t role db \<noteq> None
              \<and> (case granted_by of None \<Rightarrow> True | Some g \<Rightarrow> find_membership t g db \<noteq> None) \<and> period_ok p)
             \<lparr>ra_tenant = t, ra_id = i, ra_membership = m, ra_role = role, ra_period = p,
              ra_revoked_at = None, ra_granted_by = granted_by\<rparr> (db_assignments db))
           (\<lambda>rows. Inr (i, db\<lparr>db_assignments := rows\<rparr>)))"

section \<open>Access and authorisation\<close>

definition assignment_views :: "uuid \<Rightarrow> uuid \<Rightarrow> ('t, 'd) store \<Rightarrow> 'd assignment_view list" where
  "assignment_views t m db =
     List.map_filter (\<lambda>ra.
       if held_by t m ra
       then map_option (\<lambda>r. \<lparr>as_capability = ro_class r, as_period = ra_period ra,
              as_revoked = (ra_revoked_at ra \<noteq> None)\<rparr>) (role_of db ra)
       else None) (db_assignments db)"

definition grant_views :: "uuid \<Rightarrow> uuid \<Rightarrow> ('t, 'd) store \<Rightarrow> 'd grant_view list" where
  "grant_views t m db =
     List.map_filter (\<lambda>g.
       if hg_tenant g = t
       then (case assignment_of_grant db g of
               Some ra \<Rightarrow> if ra_membership ra = m \<and> ra_revoked_at ra = None
                 then Some \<lparr>gr_period = hg_period g, gr_revoked = (hg_revoked_at g \<noteq> None)\<rparr> else None
             | None \<Rightarrow> None)
       else None) (db_grants db)"

definition membership_access :: "uuid \<Rightarrow> uuid \<Rightarrow> 'd::linorder \<Rightarrow> ('t, 'd) store \<Rightarrow> 'd access" where
  "membership_access t m today db =
     (case (member_account t m db, find_tenant t db) of
        (Some (mb, a), Some tn) \<Rightarrow>
          evaluate_access
            \<lparr>tenant_active = (tn_status tn = Tenant_Active), account_usable = login_usable a,
             membership_active = membership_not_revoked mb\<rparr>
            (assignment_views t m db) (grant_views t m db) today
      | _ \<Rightarrow> access_none)"

definition effective_access :: "uuid \<Rightarrow> uuid \<Rightarrow> ('t, 'd::linorder) moment \<Rightarrow> ('t, 'd) store \<Rightarrow> 'd access" where
  "effective_access account t at db =
     (case List.find (\<lambda>m. mb_tenant m = t \<and> mb_account m = account) (db_memberships db) of
        Some mb \<Rightarrow> membership_access t (mb_id mb) (m_today at) db
      | None \<Rightarrow> access_none)"

record viewer =
  vw_tenant :: uuid
  vw_membership :: uuid

definition audience :: "uuid option \<Rightarrow> resource" where
  "audience g = (case g of Some i \<Rightarrow> Res_Group_Content i | None \<Rightarrow> Res_Fau)"

definition role_follows_group :: "role_row \<Rightarrow> 't group_row \<Rightarrow> bool" where
  "role_follows_group r g \<longleftrightarrow>
     sql_eq (ro_group r) (Some (grp_id g)) \<or> sql_eq (ro_unit r) (grp_unit g) \<or> sql_eq (ro_cohort r) (grp_cohort g)"

definition added_by_hand :: "uuid \<Rightarrow> uuid \<Rightarrow> uuid \<Rightarrow> 't group_member_row \<Rightarrow> bool" where
  "added_by_hand t g m gm \<longleftrightarrow>
     gm_tenant gm = t \<and> gm_group gm = g \<and> gm_membership gm = m \<and> gm_removed_at gm = None"

definition role_in_group :: "('t, 'd::linorder) store \<Rightarrow> 'd \<Rightarrow> uuid \<Rightarrow> 't group_row \<Rightarrow> ('t, 'd) assignment_row \<Rightarrow> bool" where
  "role_in_group db today m g ra \<longleftrightarrow>
     held_by (grp_tenant g) m ra \<and> row_valid_on today ra
     \<and> (case role_of db ra of Some r \<Rightarrow> role_follows_group r g | None \<Rightarrow> False)"

definition in_group :: "uuid \<Rightarrow> 'd::linorder \<Rightarrow> ('t, 'd) store \<Rightarrow> 't group_row \<Rightarrow> bool" where
  "in_group m today db g \<longleftrightarrow>
     list_ex (added_by_hand (grp_tenant g) (grp_id g) m) (db_group_members db) \<or>
     list_ex (role_in_group db today m g) (db_assignments db)"

definition facts_of_group :: "uuid \<Rightarrow> 'd::linorder \<Rightarrow> ('t, 'd) store \<Rightarrow> 't group_row \<Rightarrow> group_facts" where
  "facts_of_group m today db g =
     \<lparr>gf_visibility = grp_visibility g, gf_archived = (grp_archived_at g \<noteq> None), gf_viewer_in_group = in_group m today db g\<rparr>"

definition read_group_facts :: "viewer \<Rightarrow> uuid \<Rightarrow> ('t, 'd::linorder) moment \<Rightarrow> ('t, 'd) store \<Rightarrow> group_facts option" where
  "read_group_facts vw g at db =
     map_option (facts_of_group (vw_membership vw) (m_today at) db) (find_group (vw_tenant vw) g db)"

definition authorize ::
  "viewer \<Rightarrow> resource \<Rightarrow> action \<Rightarrow> ('t, 'd::linorder) moment \<Rightarrow> ('t, 'd) store \<Rightarrow> decision" where
  "authorize vw res act at db =
     (let cap = ac_capability (membership_access (vw_tenant vw) (vw_membership vw) (m_today at) db)
      in if cap = No_Capability then Inl No_Access
         else case res of
           Res_Fau \<Rightarrow> decide cap Fau act
         | Res_Group i \<Rightarrow>
             (case read_group_facts vw i at db of
                Some facts \<Rightarrow> decide cap (Group facts) act
              | None \<Rightarrow> Inl Hidden)
         | Res_Group_Content i \<Rightarrow>
             (case read_group_facts vw i at db of
                Some facts \<Rightarrow> decide cap (Group_Content facts) act
              | None \<Rightarrow> Inl Hidden))"

fun denied_error :: "denied \<Rightarrow> membership_error \<Rightarrow> membership_error" where
  "denied_error Hidden hidden = hidden"
| "denied_error Forbidden hidden = E_Not_Authorized"
| "denied_error No_Access hidden = E_Not_Authorized"

text \<open>\<open>authorize(\<dots>).await?.map_err(|d| denied(d, hidden))?\<close>.\<close>

definition permit :: "decision \<Rightarrow> membership_error \<Rightarrow> unit outcome" where
  "permit d hidden = (case d of Inl e \<Rightarrow> Inl (denied_error e hidden) | Inr u \<Rightarrow> Inr u)"

lemma permit_Inr [simp]: "permit d hidden = Inr u \<longleftrightarrow> d = Inr u"
  by (cases d) (simp_all add: permit_def)

text \<open>\<open>profile.rs\<close>, \<open>membership_ended\<close>: revoked, or no role still running or yet to start.\<close>

definition roles_over :: "uuid \<Rightarrow> uuid \<Rightarrow> 'd::linorder \<Rightarrow> ('t, 'd) store \<Rightarrow> bool" where
  "roles_over t m today db \<longleftrightarrow>
     \<not> list_ex (\<lambda>ra. held_by t m ra \<and> ra_revoked_at ra = None \<and> today < ends_on_exclusive (ra_period ra)) (db_assignments db)"

definition membership_ended :: "'d::linorder \<Rightarrow> ('t, 'd) store \<Rightarrow> ('t, 'd) membership_row \<Rightarrow> bool" where
  "membership_ended today db m \<longleftrightarrow> mb_revoked_at m \<noteq> None \<or> roles_over (mb_tenant m) (mb_id m) today db"

end
