(* ===== verification/Store_Groups.thy ===== *)
theory Store_Groups
  imports Store_Sql
begin

text \<open>
  \<open>persistence/src/membership/groups.rs\<close>: groups and their members. Names are ciphertexts, stored
  and returned as they are. Row checks are those of \<open>0007_groups.sql\<close>.
\<close>

section \<open>Requests\<close>

datatype group_binding = Bound_Unit uuid | Bound_Cohort uuid

record create_group_req =
  cg_tenant :: uuid
  cg_actor :: uuid
  cg_group :: uuid
  cg_name :: bytes
  cg_visibility :: visibility
  cg_binding :: "group_binding option"

record rename_group_req =
  rg_tenant :: uuid
  rg_actor :: uuid
  rg_group :: uuid
  rg_name :: bytes

record set_group_visibility_req =
  gv_tenant :: uuid
  gv_actor :: uuid
  gv_group :: uuid
  gv_visibility :: visibility

record archive_group_req =
  ag_tenant :: uuid
  ag_actor :: uuid
  ag_group :: uuid

record group_member_change =
  gc_tenant :: uuid
  gc_actor :: uuid
  gc_group :: uuid
  gc_membership :: uuid

section \<open>Statements\<close>

definition group_name_min :: nat where "group_name_min = 42"
definition group_name_max :: nat where "group_name_max = 512"

text \<open>The envelope check of \<open>check_name\<close>, of the profile fields and of the tables.\<close>

definition envelope_ok :: "bytes \<Rightarrow> bool" where
  "envelope_ok ct \<longleftrightarrow> group_name_min \<le> length ct \<and> length ct \<le> group_name_max \<and> hd ct = 1"

definition check_name :: "bytes \<Rightarrow> unit outcome" where
  "check_name ct = require (envelope_ok ct) E_Group_Name_Malformed"

definition group_audit :: "uuid \<Rightarrow> uuid \<Rightarrow> string \<Rightarrow> uuid \<Rightarrow> 'd params \<Rightarrow> 'd audit" where
  "group_audit t actor action g params = audit_member t actor action ''group'' g params"

definition insert_group :: "'t group_row \<Rightarrow> ('t, 'd) store \<Rightarrow> ('t, 'd) store outcome" where
  "insert_group g db =
     and_then (insert_row (\<lambda>r. (grp_tenant r, grp_id r))
         (find_membership (grp_tenant g) (grp_created_by g) db \<noteq> None
          \<and> (\<forall>u\<in>set_option (grp_unit g). (grp_tenant g, u) \<in> set (db_units db))
          \<and> (\<forall>c\<in>set_option (grp_cohort g). (grp_tenant g, c) \<in> set (db_cohorts db))
          \<and> (grp_unit g = None \<or> grp_cohort g = None) \<and> envelope_ok (grp_name g)) g (db_groups db))
       (\<lambda>rows. Inr (db\<lparr>db_groups := rows\<rparr>))"

definition update_group :: "uuid \<Rightarrow> uuid \<Rightarrow> ('t group_row \<Rightarrow> 't group_row) \<Rightarrow> ('t, 'd) store \<Rightarrow> ('t, 'd) store outcome" where
  "update_group t g f db =
     and_then (update_rows (\<lambda>r. envelope_ok (grp_name r)) (\<lambda>r. grp_tenant r = t \<and> grp_id r = g) f (db_groups db))
       (\<lambda>rows. Inr (db\<lparr>db_groups := rows\<rparr>))"

definition insert_group_member :: "'t group_member_row \<Rightarrow> ('t, 'd) store \<Rightarrow> ('t, 'd) store outcome" where
  "insert_group_member gm db =
     and_then (insert_row (\<lambda>r. (gm_tenant r, gm_id r))
         (find_group (gm_tenant gm) (gm_group gm) db \<noteq> None
          \<and> find_membership (gm_tenant gm) (gm_membership gm) db \<noteq> None
          \<and> find_membership (gm_tenant gm) (gm_added_by gm) db \<noteq> None
          \<and> \<not> list_ex (added_by_hand (gm_tenant gm) (gm_group gm) (gm_membership gm)) (db_group_members db))
         gm (db_group_members db))
       (\<lambda>rows. Inr (db\<lparr>db_group_members := rows\<rparr>))"

definition removed_after_added :: "'t::linorder group_member_row \<Rightarrow> bool" where
  "removed_after_added gm \<longleftrightarrow> (case gm_removed_at gm of None \<Rightarrow> True | Some t \<Rightarrow> gm_added_at gm \<le> t)"

definition end_group_members ::
  "('t::linorder group_member_row \<Rightarrow> bool) \<Rightarrow> 't \<Rightarrow> ('t, 'd) store \<Rightarrow> ('t, 'd) store outcome" where
  "end_group_members p now db =
     and_then (update_rows removed_after_added p (\<lambda>r. r\<lparr>gm_removed_at := Some now\<rparr>) (db_group_members db))
       (\<lambda>rows. Inr (db\<lparr>db_group_members := rows\<rparr>))"

section \<open>Operations\<close>

text \<open>Authority to manage the group, then its archived flag.\<close>

definition manage ::
  "uuid \<Rightarrow> uuid \<Rightarrow> uuid \<Rightarrow> ('t, 'd::linorder) moment \<Rightarrow> ('t, 'd) store \<Rightarrow> bool outcome" where
  "manage t actor g at db =
     and_then (permit (authorize \<lparr>vw_tenant = t, vw_membership = actor\<rparr> (Res_Group g) Manage at db) E_Unknown_Group) (\<lambda>_.
     and_then (ok_or E_Database (find_group t g db)) (\<lambda>r.
       Inr (grp_archived_at r \<noteq> None)))"

definition announce_group ::
  "('t, 'd) env \<Rightarrow> ('t, 'd) moment \<Rightarrow> uuid \<Rightarrow> uuid \<Rightarrow> string \<Rightarrow> uuid \<Rightarrow> 'd params
     \<Rightarrow> ('t, 'd) store \<Rightarrow> ('t, 'd) store outcome" where
  "announce_group E at t actor action g params db =
     and_then (write_audit E at (group_audit t actor action g params) db) (\<lambda>db.
       Inr (notify t (Changed (Res_Group g)) db))"

definition require_exists :: "(uuid \<times> uuid) list \<Rightarrow> uuid \<Rightarrow> uuid \<Rightarrow> membership_error \<Rightarrow> unit outcome" where
  "require_exists rows t i missing = require ((t, i) \<in> set rows) missing"

definition bind_columns ::
  "uuid \<Rightarrow> group_binding option \<Rightarrow> ('t, 'd) store \<Rightarrow> (uuid option \<times> uuid option) outcome" where
  "bind_columns t b db =
     (case b of
        None \<Rightarrow> Inr (None, None)
      | Some (Bound_Unit i) \<Rightarrow> and_then (require_exists (db_units db) t i E_Unknown_Unit) (\<lambda>_. Inr (Some i, None))
      | Some (Bound_Cohort i) \<Rightarrow> and_then (require_exists (db_cohorts db) t i E_Unknown_Cohort) (\<lambda>_. Inr (None, Some i)))"

definition id_param :: "uuid option \<Rightarrow> 'd param" where
  "id_param i = (case i of Some u \<Rightarrow> P_Id u | None \<Rightarrow> P_Null)"

definition create_group ::
  "('t, 'd::linorder) env \<Rightarrow> create_group_req \<Rightarrow> ('t, 'd) moment \<Rightarrow> ('t, 'd) store \<Rightarrow> (uuid \<times> ('t, 'd) store) outcome" where
  "create_group E req at db =
     and_then (check_name (cg_name req)) (\<lambda>_.
     and_then (lock_tenant (cg_tenant req) db) (\<lambda>st.
     and_then (require_open st) (\<lambda>_.
     and_then (permit (authorize \<lparr>vw_tenant = cg_tenant req, vw_membership = cg_actor req\<rparr> Res_Fau Manage at db)
         E_Not_Authorized) (\<lambda>_.
     and_then (bind_columns (cg_tenant req) (cg_binding req) db) (\<lambda>(unit, cohort).
     and_then (insert_group
         \<lparr>grp_tenant = cg_tenant req, grp_id = cg_group req, grp_name = cg_name req, grp_visibility = cg_visibility req,
          grp_unit = unit, grp_cohort = cohort, grp_created_by = cg_actor req, grp_created_at = m_now at,
          grp_archived_at = None\<rparr> db) (\<lambda>db.
     and_then (announce_group E at (cg_tenant req) (cg_actor req) ''group.created'' (cg_group req)
         [(lit ''visibility'', P_Code (visibility_code (cg_visibility req))),
          (lit ''unit_id'', id_param unit), (lit ''cohort_id'', id_param cohort)] db) (\<lambda>db.
       Inr (cg_group req, db))))))))"

definition rename_group ::
  "('t, 'd::linorder) env \<Rightarrow> rename_group_req \<Rightarrow> ('t, 'd) moment \<Rightarrow> ('t, 'd) store \<Rightarrow> ('t, 'd) store outcome" where
  "rename_group E req at db =
     and_then (check_name (rg_name req)) (\<lambda>_.
     and_then (lock_tenant (rg_tenant req) db) (\<lambda>st.
     and_then (require_open st) (\<lambda>_.
     and_then (manage (rg_tenant req) (rg_actor req) (rg_group req) at db) (\<lambda>archived.
     and_then (require (\<not> archived) E_Group_Archived) (\<lambda>_.
     and_then (update_group (rg_tenant req) (rg_group req) (\<lambda>g. g\<lparr>grp_name := rg_name req\<rparr>) db)
       (announce_group E at (rg_tenant req) (rg_actor req) ''group.renamed'' (rg_group req) []))))))"

definition set_group_visibility ::
  "('t, 'd::linorder) env \<Rightarrow> set_group_visibility_req \<Rightarrow> ('t, 'd) moment \<Rightarrow> ('t, 'd) store \<Rightarrow> ('t, 'd) store outcome" where
  "set_group_visibility E req at db =
     and_then (lock_tenant (gv_tenant req) db) (\<lambda>st.
     and_then (if gv_visibility req = Visible_Open then require_open st else Inr ()) (\<lambda>_.
     and_then (manage (gv_tenant req) (gv_actor req) (gv_group req) at db) (\<lambda>archived.
     and_then (require (\<not> (archived \<and> gv_visibility req = Visible_Open)) E_Group_Archived) (\<lambda>_.
     and_then (ok_or E_Database (find_group (gv_tenant req) (gv_group req) db)) (\<lambda>g.
       if grp_visibility g = gv_visibility req then Inr db
       else
         and_then (update_group (gv_tenant req) (gv_group req) (\<lambda>g. g\<lparr>grp_visibility := gv_visibility req\<rparr>) db)
           (announce_group E at (gv_tenant req) (gv_actor req)
              (case gv_visibility req of Visible_Closed \<Rightarrow> ''group.closed'' | Visible_Open \<Rightarrow> ''group.opened'')
              (gv_group req) []))))))"

definition archive_group ::
  "('t, 'd::linorder) env \<Rightarrow> archive_group_req \<Rightarrow> ('t, 'd) moment \<Rightarrow> ('t, 'd) store \<Rightarrow> ('t, 'd) store outcome" where
  "archive_group E req at db =
     and_then (lock_tenant (ag_tenant req) db) (\<lambda>_.
     and_then (manage (ag_tenant req) (ag_actor req) (ag_group req) at db) (\<lambda>archived.
     and_then (require (\<not> archived) E_Group_Archived) (\<lambda>_.
     and_then (update_group (ag_tenant req) (ag_group req) (\<lambda>g. g\<lparr>grp_archived_at := Some (m_now at)\<rparr>) db)
       (announce_group E at (ag_tenant req) (ag_actor req) ''group.archived'' (ag_group req) []))))"

text \<open>\<open>grant_role\<close> makes the same test of its target.\<close>

definition require_addable :: "(bool \<times> bool) option \<Rightarrow> unit outcome" where
  "require_addable st =
     (case st of
        None \<Rightarrow> Inl E_Unknown_Membership
      | Some (True, _) \<Rightarrow> Inl E_Membership_Revoked
      | Some (False, False) \<Rightarrow> Inl E_Account_Disabled
      | Some (False, True) \<Rightarrow> Inr ())"

definition add_group_member ::
  "('t, 'd::linorder) env \<Rightarrow> group_member_change \<Rightarrow> ('t, 'd) moment \<Rightarrow> ('t, 'd) store \<Rightarrow> ('t, 'd) store outcome" where
  "add_group_member E req at db =
     and_then (lock_tenant (gc_tenant req) db) (\<lambda>st.
     and_then (require_open st) (\<lambda>_.
     and_then (manage (gc_tenant req) (gc_actor req) (gc_group req) at db) (\<lambda>archived.
     and_then (require (\<not> archived) E_Group_Archived) (\<lambda>_.
     and_then (require_addable (membership_and_account_state (gc_tenant req) (gc_membership req) db)) (\<lambda>_.
     and_then (ok_or E_Database (find_membership (gc_tenant req) (gc_membership req) db)) (\<lambda>m.
     and_then (require (\<not> membership_ended (m_today at) db m) E_Membership_Ended_Invite_As_Guest) (\<lambda>_.
     and_then (require (\<not> list_ex (added_by_hand (gc_tenant req) (gc_group req) (gc_membership req)) (db_group_members db))
         E_Already_In_Group) (\<lambda>_.
     let (i, db) = now_v7 E db
     in and_then (insert_group_member
         \<lparr>gm_tenant = gc_tenant req, gm_id = i, gm_group = gc_group req, gm_membership = gc_membership req,
          gm_added_by = gc_actor req, gm_added_at = m_now at, gm_removed_at = None\<rparr> db)
       (announce_group E at (gc_tenant req) (gc_actor req) ''group.member_added'' (gc_group req)
          [(lit ''membership_id'', P_Id (gc_membership req))])))))))))"

definition remove_group_member ::
  "('t::linorder, 'd::linorder) env \<Rightarrow> group_member_change \<Rightarrow> ('t, 'd) moment \<Rightarrow> ('t, 'd) store \<Rightarrow> ('t, 'd) store outcome" where
  "remove_group_member E req at db =
     and_then (lock_tenant (gc_tenant req) db) (\<lambda>_.
     and_then (manage (gc_tenant req) (gc_actor req) (gc_group req) at db) (\<lambda>_.
     and_then (ok_or E_Not_In_Group
         (List.find (added_by_hand (gc_tenant req) (gc_group req) (gc_membership req)) (db_group_members db))) (\<lambda>row.
     and_then (end_group_members (\<lambda>r. gm_tenant r = gc_tenant req \<and> gm_id r = gm_id row) (m_now at) db) (\<lambda>db.
     and_then (write_audit E at (group_audit (gc_tenant req) (gc_actor req) ''group.member_removed'' (gc_group req)
         [(lit ''membership_id'', P_Id (gc_membership req))]) db) (\<lambda>db.
       Inr (notify (gc_tenant req) (Changed (Res_Group (gc_group req)))
              (notify (gc_tenant req) (Access_Revoked (gc_membership req)) db)))))))"

definition remove_from_all_groups ::
  "('t::linorder, 'd) env \<Rightarrow> uuid \<Rightarrow> uuid option \<Rightarrow> uuid \<Rightarrow> string \<Rightarrow> ('t, 'd) moment
     \<Rightarrow> ('t, 'd) store \<Rightarrow> ('t, 'd) store outcome" where
  "remove_from_all_groups E t actor m cause at db =
     (let current = (\<lambda>r. gm_tenant r = t \<and> gm_membership r = m \<and> gm_removed_at r = None);
          groups = map gm_group (filter current (db_group_members db));
          params = [(lit ''membership_id'', P_Id m), (lit ''cause'', P_Code (lit cause))]
      in and_then (end_group_members current (m_now at) db)
           (for_each (\<lambda>g db.
              and_then (write_audit E at
                  (case actor of
                     Some a \<Rightarrow> group_audit t a ''group.member_removed'' g params
                   | None \<Rightarrow> audit_system t ''group.member_removed'' ''group'' g params) db) (\<lambda>db.
                Inr (notify t (Changed (Res_Group g)) db))) groups))"

section \<open>Reads\<close>

record group_view =
  gw_id :: uuid
  gw_name :: bytes
  gw_visibility :: visibility
  gw_archived :: bool
  gw_binding :: "group_binding option"
  gw_viewer_in_group :: bool

record group_member_view =
  gmv_membership :: uuid
  gmv_added_by_hand :: bool
  gmv_through_role :: bool

definition view_group :: "uuid \<Rightarrow> 'd::linorder \<Rightarrow> ('t, 'd) store \<Rightarrow> 't group_row \<Rightarrow> group_view outcome" where
  "view_group m today db g =
     and_then (case (grp_unit g, grp_cohort g) of
                 (None, None) \<Rightarrow> Inr None
               | (Some u, None) \<Rightarrow> Inr (Some (Bound_Unit u))
               | (None, Some c) \<Rightarrow> Inr (Some (Bound_Cohort c))
               | (Some _, Some _) \<Rightarrow> Inl E_Database) (\<lambda>b.
       Inr \<lparr>gw_id = grp_id g, gw_name = grp_name g, gw_visibility = grp_visibility g,
            gw_archived = (grp_archived_at g \<noteq> None), gw_binding = b, gw_viewer_in_group = in_group m today db g\<rparr>)"

fun map_rows :: "('a \<Rightarrow> 'b outcome) \<Rightarrow> 'a list \<Rightarrow> 'b list outcome" where
  "map_rows f [] = Inr []"
| "map_rows f (x # xs) = and_then (f x) (\<lambda>y. and_then (map_rows f xs) (\<lambda>ys. Inr (y # ys)))"

definition readable_groups ::
  "viewer \<Rightarrow> capability \<Rightarrow> ('t, 'd::linorder) moment \<Rightarrow> ('t, 'd) store \<Rightarrow> group_view list outcome" where
  "readable_groups vw cap at db =
     and_then (map_rows (view_group (vw_membership vw) (m_today at) db)
         (sort_key grp_id (filter (\<lambda>g. grp_tenant g = vw_tenant vw) (db_groups db)))) (\<lambda>views.
       Inr (filter (\<lambda>v. decide cap (Group \<lparr>gf_visibility = gw_visibility v, gf_archived = gw_archived v,
                          gf_viewer_in_group = gw_viewer_in_group v\<rparr>) Read = Inr ()) views))"

definition list_groups ::
  "viewer \<Rightarrow> ('t, 'd::linorder) moment \<Rightarrow> ('t, 'd) store \<Rightarrow> group_view list outcome" where
  "list_groups vw at db =
     (let cap = ac_capability (membership_access (vw_tenant vw) (vw_membership vw) (m_today at) db)
      in if cap = No_Capability then Inl E_Not_Authorized else readable_groups vw cap at db)"

definition get_group ::
  "viewer \<Rightarrow> uuid \<Rightarrow> ('t, 'd::linorder) moment \<Rightarrow> ('t, 'd) store \<Rightarrow> group_view outcome" where
  "get_group vw g at db =
     and_then (permit (authorize vw (Res_Group g) Read at db) E_Unknown_Group) (\<lambda>_.
     and_then (ok_or E_Database (find_group (vw_tenant vw) g db))
       (view_group (vw_membership vw) (m_today at) db))"

definition standing_today :: "uuid \<Rightarrow> uuid \<Rightarrow> 'd::linorder \<Rightarrow> ('t, 'd) store \<Rightarrow> bool" where
  "standing_today t m today db \<longleftrightarrow>
     membership_usable t m db \<and> list_ex (\<lambda>ra. held_by t m ra \<and> row_valid_on today ra) (db_assignments db)"

text \<open>The union below the grouping: \<open>(group, membership, by_hand)\<close>.\<close>

definition group_member_sources ::
  "uuid \<Rightarrow> (uuid \<Rightarrow> bool) \<Rightarrow> 'd::linorder \<Rightarrow> ('t, 'd) store \<Rightarrow> ((uuid \<times> uuid) \<times> bool) list" where
  "group_member_sources t wanted today db =
     map (\<lambda>gm. ((gm_group gm, gm_membership gm), True))
       (filter (\<lambda>gm. gm_tenant gm = t \<and> wanted (gm_group gm) \<and> gm_removed_at gm = None) (db_group_members db))
     @ concat (map (\<lambda>g. map (\<lambda>ra. ((grp_id g, ra_membership ra), False))
            (filter (\<lambda>ra. role_in_group db today (ra_membership ra) g ra) (db_assignments db)))
         (filter (\<lambda>g. grp_tenant g = t \<and> wanted (grp_id g)) (db_groups db)))"

definition group_members ::
  "uuid \<Rightarrow> (uuid \<Rightarrow> bool) \<Rightarrow> 'd::linorder \<Rightarrow> ('t, 'd) store \<Rightarrow> ((uuid \<times> uuid) \<times> bool \<times> bool) list" where
  "group_members t wanted today db =
     (let s = filter (\<lambda>((g, m), _). standing_today t m today db) (group_member_sources t wanted today db)
      in map (\<lambda>k. (k, (k, True) \<in> set s, (k, False) \<in> set s)) (sort (remdups (map fst s))))"

definition list_group_members ::
  "viewer \<Rightarrow> uuid \<Rightarrow> ('t, 'd::linorder) moment \<Rightarrow> ('t, 'd) store \<Rightarrow> group_member_view list outcome" where
  "list_group_members vw g at db =
     and_then (permit (authorize vw (Res_Group g) Read at db) E_Unknown_Group) (\<lambda>_.
       Inr (map (\<lambda>((_, m), by_hand, through_role).
               \<lparr>gmv_membership = m, gmv_added_by_hand = by_hand, gmv_through_role = through_role\<rparr>)
             (group_members (vw_tenant vw) (\<lambda>i. i = g) (m_today at) db)))"

end
