(* ===== verification/Store_Profiles.thy ===== *)
theory Store_Profiles
  imports Store_Groups
begin

text \<open>
  \<open>persistence/src/membership/profile.rs\<close>, \<open>retention.rs\<close>, \<open>names.rs\<close> and \<open>ensure_membership\<close> of
  \<open>sql.rs\<close>: the name and address a membership carries, and how long it keeps them once it has ended.
  The checks and the trigger on \<open>memberships\<close> are those of \<open>0008_member_directory.sql\<close> and
  \<open>0009_member_retention.sql\<close>.
\<close>

section \<open>The memberships table\<close>

definition has_field :: "('t, 'd) membership_row \<Rightarrow> bool" where
  "has_field m \<longleftrightarrow> mb_display_name m \<noteq> None \<or> mb_contact_email m \<noteq> None"

text \<open>\<open>memberships_retention_follows_fields\<close>: the row as the trigger rewrites an update of it.\<close>

definition retention_follows_fields ::
  "('t, 'd) membership_row \<Rightarrow> ('t, 'd) membership_row \<Rightarrow> ('t, 'd) membership_row" where
  "retention_follows_fields old new =
     (if (\<not> has_field new \<and> has_field old) \<or> (mb_name_erased_at new \<noteq> None \<and> mb_name_erased_at old = None)
      then new\<lparr>mb_retained_until := None\<rparr> else new)"

definition membership_row_ok :: "('t, 'd) membership_row \<Rightarrow> bool" where
  "membership_row_ok m \<longleftrightarrow>
     (\<forall>ct\<in>set_option (mb_display_name m). envelope_ok ct) \<and> (\<forall>ct\<in>set_option (mb_contact_email m). envelope_ok ct)
     \<and> (mb_revoked_at m = None \<or> \<not> has_field m \<or> mb_retained_until m \<noteq> None)
     \<and> (mb_retained_until m = None \<or> has_field m)
     \<and> (mb_name_erased_at m = None \<or> (\<not> has_field m \<and> mb_retained_until m = None))"

definition update_memberships ::
  "(('t, 'd) membership_row \<Rightarrow> bool) \<Rightarrow> (('t, 'd) membership_row \<Rightarrow> ('t, 'd) membership_row)
     \<Rightarrow> ('t, 'd) store \<Rightarrow> ('t, 'd) store outcome" where
  "update_memberships p f db =
     and_then (update_rows membership_row_ok p (\<lambda>r. retention_follows_fields r (f r)) (db_memberships db))
       (\<lambda>rows. Inr (db\<lparr>db_memberships := rows\<rparr>))"

definition is_membership :: "uuid \<Rightarrow> uuid \<Rightarrow> ('t, 'd) membership_row \<Rightarrow> bool" where
  "is_membership t m r \<longleftrightarrow> mb_tenant r = t \<and> mb_id r = m"

definition insert_membership :: "uuid \<Rightarrow> uuid \<Rightarrow> uuid \<Rightarrow> ('t, 'd) store \<Rightarrow> ('t, 'd) store outcome" where
  "insert_membership t m account db =
     and_then (insert_row (\<lambda>r. (mb_tenant r, mb_id r))
         (find_account account db \<noteq> None \<and> find_tenant t db \<noteq> None
          \<and> \<not> list_ex (\<lambda>r. mb_tenant r = t \<and> mb_account r = account) (db_memberships db))
         \<lparr>mb_tenant = t, mb_id = m, mb_account = account, mb_revoked_at = None, mb_display_name = None,
          mb_contact_email = None, mb_name_erased_at = None, mb_retained_until = None\<rparr> (db_memberships db))
       (\<lambda>rows. Inr (db\<lparr>db_memberships := rows\<rparr>))"

section \<open>Profiles\<close>

record member_profile =
  mp_membership :: uuid
  mp_name :: bytes
  mp_contact :: "bytes option"

definition well_formed :: "bytes \<Rightarrow> bool" where
  "well_formed ct = envelope_ok ct"

definition check_display_name :: "bytes \<Rightarrow> unit outcome" where
  "check_display_name ct = require (well_formed ct) E_Display_Name_Malformed"

definition check_contact_email :: "bytes \<Rightarrow> unit outcome" where
  "check_contact_email ct = require (well_formed ct) E_Contact_Email_Malformed"

text \<open>\<open>Uuid::get_version\<close>: the four bits below the 48 bits of the timestamp.\<close>

definition uuid_version :: "uuid \<Rightarrow> nat" where
  "uuid_version i = i div 2 ^ 76 mod 16"

definition check_membership_id :: "uuid \<Rightarrow> unit outcome" where
  "check_membership_id i = require (uuid_version i = 7) E_Membership_Id_Malformed"

definition check_profile :: "member_profile \<Rightarrow> unit outcome" where
  "check_profile p =
     and_then (check_membership_id (mp_membership p)) (\<lambda>_.
     and_then (check_display_name (mp_name p)) (\<lambda>_.
       case mp_contact p of None \<Rightarrow> Inr () | Some ct \<Rightarrow> check_contact_email ct))"

definition write_profile :: "uuid \<Rightarrow> member_profile \<Rightarrow> bool \<Rightarrow> ('t, 'd) store \<Rightarrow> ('t, 'd) store outcome" where
  "write_profile t p already_current =
     update_memberships (is_membership t (mp_membership p))
       (\<lambda>r. r\<lparr>mb_display_name := Some (mp_name p),
            mb_contact_email := (if already_current \<and> mp_contact p = None then mb_contact_email r else mp_contact p)\<rparr>)"

record set_display_name_req =
  sn_tenant :: uuid
  sn_actor :: uuid
  sn_membership :: uuid
  sn_name :: bytes

definition set_display_name ::
  "('t, 'd::linorder) env \<Rightarrow> set_display_name_req \<Rightarrow> ('t, 'd) moment \<Rightarrow> ('t, 'd) store \<Rightarrow> ('t, 'd) store outcome" where
  "set_display_name E req at db =
     and_then (check_display_name (sn_name req)) (\<lambda>_.
     and_then (lock_tenant (sn_tenant req) db) (\<lambda>st.
     and_then (require_open st) (\<lambda>_.
     let own = (sn_actor req = sn_membership req)
     in and_then (if own
           then require (ac_capability (membership_access (sn_tenant req) (sn_actor req) (m_today at) db) \<noteq> No_Capability) E_Not_Authorized
           else require (is_admin_today (sn_tenant req) (sn_actor req) (m_today at) db) E_Not_Authorized) (\<lambda>_.
     and_then (ok_or E_Unknown_Membership (find_membership (sn_tenant req) (sn_membership req) db)) (\<lambda>m.
     and_then (require (mb_name_erased_at m = None) E_Membership_Erased) (\<lambda>_.
     and_then (require (\<not> membership_ended (m_today at) db m) E_Membership_Ended) (\<lambda>_.
     and_then (update_memberships (is_membership (sn_tenant req) (sn_membership req))
         (\<lambda>r. r\<lparr>mb_display_name := Some (sn_name req)\<rparr>) db)
       (write_audit E at (audit_member (sn_tenant req) (sn_actor req) ''membership.display_name_changed'' ''membership''
          (sn_membership req) [(lit ''by_admin'', P_Flag (\<not> own))])))))))))"

record set_contact_email_req =
  sc_tenant :: uuid
  sc_membership :: uuid
  sc_contact :: "bytes option"

definition set_contact_email ::
  "('t, 'd::linorder) env \<Rightarrow> set_contact_email_req \<Rightarrow> ('t, 'd) moment \<Rightarrow> ('t, 'd) store \<Rightarrow> ('t, 'd) store outcome" where
  "set_contact_email E req at db =
     and_then (case sc_contact req of None \<Rightarrow> Inr () | Some ct \<Rightarrow> check_contact_email ct) (\<lambda>_.
     and_then (lock_tenant (sc_tenant req) db) (\<lambda>st.
     and_then (if sc_contact req \<noteq> None then require_open st else Inr ()) (\<lambda>_.
     and_then (require (ac_capability (membership_access (sc_tenant req) (sc_membership req) (m_today at) db) \<noteq> No_Capability)
         E_Not_Authorized) (\<lambda>_.
     and_then (ok_or E_Database (find_membership (sc_tenant req) (sc_membership req) db)) (\<lambda>m.
     and_then (require (mb_name_erased_at m = None) E_Membership_Erased) (\<lambda>_.
     and_then (update_memberships (is_membership (sc_tenant req) (sc_membership req))
         (\<lambda>r. r\<lparr>mb_contact_email := sc_contact req\<rparr>) db)
       (write_audit E at (audit_member (sc_tenant req) (sc_membership req) ''membership.contact_email_changed'' ''membership''
          (sc_membership req) [(lit ''cleared'', P_Flag (sc_contact req = None))]))))))))"

section \<open>When a membership ended\<close>

text \<open>\<open>names.rs\<close>, \<open>held_roles\<close>, for one membership: the roles it actually held, a revoked one up to
  the Oslo date of its revocation. No entry in the map is an empty list.\<close>

definition held_role_of :: "('t, 'd::linorder) env \<Rightarrow> ('t, 'd) store \<Rightarrow> ('t, 'd) assignment_row \<Rightarrow> 'd held_role option" where
  "held_role_of E db ra =
     (case role_of db ra of
        None \<Rightarrow> None
      | Some r \<Rightarrow>
          let until = (case ra_revoked_at ra of
                None \<Rightarrow> ends_on_exclusive (ra_period ra)
              | Some ts \<Rightarrow> min (ends_on_exclusive (ra_period ra)) (env_oslo E ts))
          in if starts_on (ra_period ra) < until
             then Some \<lparr>held_name = ro_name r, held_class = ro_class r, held_from = starts_on (ra_period ra), held_until = until\<rparr>
             else None)"

definition held_roles :: "('t, 'd::linorder) env \<Rightarrow> uuid \<Rightarrow> uuid \<Rightarrow> ('t, 'd) store \<Rightarrow> 'd held_role list" where
  "held_roles E t m db =
     List.map_filter (held_role_of E db)
       (sort_key (\<lambda>ra. (starts_on (ra_period ra), ra_id ra)) (filter (held_by t m) (db_assignments db)))"

definition account_retention :: "uuid \<Rightarrow> uuid \<Rightarrow> ('t, 'd) store \<Rightarrow> retention_months outcome" where
  "account_retention t m db =
     and_then (ok_or E_Unknown_Membership (member_account t m db)) (\<lambda>(_, a). Inr (acc_retention a))"

definition ended_on_for ::
  "('t::linorder, 'd::linorder) env \<Rightarrow> uuid \<Rightarrow> uuid \<Rightarrow> 'd \<Rightarrow> ('t, 'd) store \<Rightarrow> 'd outcome" where
  "ended_on_for E t m today db =
     (let held = held_roles E t m db
      in if held \<noteq> [] then Inr (ended_on held today)
         else and_then (ok_or E_Unknown_Membership (find_membership t m db)) (\<lambda>mb.
           let last = (case max_opt (List.map_filter ra_revoked_at (filter (held_by t m) (db_assignments db))) of
                 Some ts \<Rightarrow> Some ts | None \<Rightarrow> mb_revoked_at mb)
           in Inr (case last of Some ts \<Rightarrow> min (env_oslo E ts) today | None \<Rightarrow> today)))"

definition effective_keep_until ::
  "('t::linorder, 'd::linorder) env \<Rightarrow> uuid \<Rightarrow> uuid \<Rightarrow> 'd option \<Rightarrow> 'd \<Rightarrow> ('t, 'd) store \<Rightarrow> 'd option outcome" where
  "effective_keep_until E t m stamped today db =
     (case stamped of
        Some until \<Rightarrow> Inr (if today < until then Some until else None)
      | None \<Rightarrow>
          and_then (account_retention t m db) (\<lambda>months.
          and_then (ended_on_for E t m today db) (\<lambda>ended.
            Inr (keep_until (env_calendar E) ended months today))))"

definition clearing_cause :: "uuid \<Rightarrow> uuid \<Rightarrow> bool \<Rightarrow> ('t, 'd) store \<Rightarrow> string outcome" where
  "clearing_cause t m stamped db =
     (if stamped then Inr ''retention_ended''
      else and_then (account_retention t m db) (\<lambda>months.
        Inr (if months \<noteq> No_Months then ''retention_ended'' else ''membership_ended'')))"

section \<open>Settling\<close>

datatype settled = Settled_Active | Settled_Retained | Settled_Cleared | Settled_Absent

definition audit_profile_cleared ::
  "('t, 'd) env \<Rightarrow> uuid \<Rightarrow> uuid \<Rightarrow> ('t, 'd) moment \<Rightarrow> string \<Rightarrow> ('t, 'd) store \<Rightarrow> ('t, 'd) store outcome" where
  "audit_profile_cleared E t m at cause =
     write_audit E at (audit_system t ''membership.profile_cleared'' ''membership'' m [(lit ''cause'', P_Code (lit cause))])"

definition audit_profile_retained ::
  "('t, 'd) env \<Rightarrow> uuid \<Rightarrow> uuid \<Rightarrow> ('t, 'd) moment \<Rightarrow> 'd \<Rightarrow> ('t, 'd) store \<Rightarrow> ('t, 'd) store outcome" where
  "audit_profile_retained E t m at until =
     write_audit E at (audit_system t ''membership.profile_retained'' ''membership'' m [(lit ''until'', P_Date until)])"

definition clear_profile ::
  "('t, 'd) env \<Rightarrow> uuid \<Rightarrow> uuid \<Rightarrow> ('t, 'd) moment \<Rightarrow> string \<Rightarrow> ('t, 'd) store \<Rightarrow> ('t, 'd) store outcome" where
  "clear_profile E t m at cause db =
     and_then (update_memberships (is_membership t m)
         (\<lambda>r. r\<lparr>mb_display_name := None, mb_contact_email := None, mb_retained_until := None\<rparr>) db)
       (audit_profile_cleared E t m at cause)"

definition settle_profile ::
  "('t::linorder, 'd::linorder) env \<Rightarrow> uuid \<Rightarrow> uuid \<Rightarrow> ('t, 'd) moment \<Rightarrow> ('t, 'd) store
     \<Rightarrow> (settled \<times> ('t, 'd) store) outcome" where
  "settle_profile E t m at db =
     and_then (ok_or E_Unknown_Membership (find_membership t m db)) (\<lambda>mb.
     if mb_name_erased_at mb \<noteq> None \<or> \<not> has_field mb then Inr (Settled_Absent, db)
     else if \<not> membership_ended (m_today at) db mb then Inr (Settled_Active, db)
     else
       and_then (effective_keep_until E t m (mb_retained_until mb) (m_today at) db) (\<lambda>until.
       case until of
         Some d \<Rightarrow>
           if mb_retained_until mb \<noteq> None then Inr (Settled_Retained, db)
           else
             and_then (update_memberships (is_membership t m) (\<lambda>r. r\<lparr>mb_retained_until := Some d\<rparr>) db) (\<lambda>db.
             and_then (audit_profile_retained E t m at d db) (\<lambda>db. Inr (Settled_Retained, db)))
       | None \<Rightarrow>
           and_then (clearing_cause t m (mb_retained_until mb \<noteq> None) db) (\<lambda>cause.
           and_then (clear_profile E t m at cause db) (\<lambda>db. Inr (Settled_Cleared, db)))))"

definition reopen_profile ::
  "('t::linorder, 'd::linorder) env \<Rightarrow> uuid \<Rightarrow> uuid \<Rightarrow> ('t, 'd) moment \<Rightarrow> ('t, 'd) store
     \<Rightarrow> (settled \<times> ('t, 'd) store) outcome" where
  "reopen_profile E t m at db =
     and_then (ok_or E_Unknown_Membership (find_membership t m db)) (\<lambda>mb.
     and_then (if membership_ended (m_today at) db mb
               then remove_from_all_groups E t None m ''membership_ended'' at db else Inr db) (\<lambda>db.
     and_then (settle_profile E t m at db) (\<lambda>(settled, db).
     and_then (update_memberships (is_membership t m) (\<lambda>r. r\<lparr>mb_revoked_at := None, mb_retained_until := None\<rparr>) db) (\<lambda>db.
     and_then (if settled = Settled_Retained
               then write_audit E at (audit_system t ''membership.profile_restored'' ''membership'' m []) db else Inr db) (\<lambda>db.
       Inr (settled, db))))))"

definition ensure_membership ::
  "('t::linorder, 'd::linorder) env \<Rightarrow> uuid \<Rightarrow> uuid \<Rightarrow> uuid \<Rightarrow> ('t, 'd) moment \<Rightarrow> ('t, 'd) store
     \<Rightarrow> ((uuid \<times> bool \<times> bool) \<times> ('t, 'd) store) outcome" where
  "ensure_membership E t account expected at db =
     (case List.find (\<lambda>m. mb_tenant m = t \<and> mb_account m = account) (db_memberships db) of
        Some mb \<Rightarrow>
          and_then (require (mb_id mb = expected) E_Acceptance_Target_Changed) (\<lambda>_.
          and_then (require (mb_name_erased_at mb = None) E_Membership_Erased) (\<lambda>_.
          and_then (reopen_profile E t (mb_id mb) at db) (\<lambda>(settled, db).
            Inr ((mb_id mb, True, settled = Settled_Active \<or> settled = Settled_Retained), db))))
      | None \<Rightarrow>
          and_then (insert_membership t expected account db) (\<lambda>db. Inr ((expected, False, False), db)))"

section \<open>Sweeps and account-wide changes\<close>

text \<open>A loop of transactions, one per tenant: an error ends it and leaves the earlier ones committed.\<close>

fun sweep_tenants ::
  "(uuid \<Rightarrow> 's \<Rightarrow> (nat \<times> 's) outcome) \<Rightarrow> uuid list \<Rightarrow> nat \<Rightarrow> 's \<Rightarrow> nat outcome \<times> 's" where
  "sweep_tenants f [] n s = (Inr n, s)"
| "sweep_tenants f (t # ts) n s =
     (case f t s of
        Inl e \<Rightarrow> (Inl e, s)
      | Inr (k, s') \<Rightarrow> sweep_tenants f ts (n + k) s')"

definition profile_due :: "'d::linorder \<Rightarrow> ('t, 'd) store \<Rightarrow> ('t, 'd) membership_row \<Rightarrow> bool" where
  "profile_due today db m \<longleftrightarrow>
     has_field m \<and> (case mb_retained_until m of None \<Rightarrow> True | Some d \<Rightarrow> d \<le> today) \<and> membership_ended today db m"

definition ended_in_groups :: "'d::linorder \<Rightarrow> ('t, 'd) store \<Rightarrow> ('t, 'd) membership_row \<Rightarrow> bool" where
  "ended_in_groups today db m \<longleftrightarrow>
     list_ex (\<lambda>gm. gm_tenant gm = mb_tenant m \<and> gm_membership gm = mb_id m \<and> gm_removed_at gm = None) (db_group_members db)
     \<and> membership_ended today db m"

definition ids_where :: "uuid \<Rightarrow> (('t, 'd) membership_row \<Rightarrow> bool) \<Rightarrow> ('t, 'd) store \<Rightarrow> uuid list" where
  "ids_where t p db = sort (map mb_id (filter (\<lambda>m. mb_tenant m = t \<and> p m) (db_memberships db)))"

fun settle_all ::
  "('t::linorder, 'd::linorder) env \<Rightarrow> uuid \<Rightarrow> ('t, 'd) moment \<Rightarrow> uuid list \<Rightarrow> nat \<Rightarrow> ('t, 'd) store
     \<Rightarrow> (nat \<times> ('t, 'd) store) outcome" where
  "settle_all E t at [] n db = Inr (n, db)"
| "settle_all E t at (i # is) n db =
     and_then (settle_profile E t i at db) (\<lambda>(settled, db).
       settle_all E t at is (if settled = Settled_Cleared then n + 1 else n) db)"

definition clear_tenant_profiles ::
  "('t::linorder, 'd::linorder) env \<Rightarrow> ('t, 'd) moment \<Rightarrow> uuid \<Rightarrow> ('t, 'd) store \<Rightarrow> (nat \<times> ('t, 'd) store) outcome" where
  "clear_tenant_profiles E at t db =
     and_then (lock_tenant t db) (\<lambda>_.
     and_then (settle_all E t at (ids_where t (profile_due (m_today at) db) db) 0 db) (\<lambda>(cleared, db).
     and_then (for_each (\<lambda>i. remove_from_all_groups E t None i ''membership_ended'' at)
         (ids_where t (ended_in_groups (m_today at) db) db) db) (\<lambda>db.
       Inr (cleared, db))))"

definition clear_ended_profiles ::
  "('t::linorder, 'd::linorder) env \<Rightarrow> ('t, 'd) moment \<Rightarrow> ('t, 'd) store \<Rightarrow> nat outcome \<times> ('t, 'd) store" where
  "clear_ended_profiles E at db =
     (let tenants = sort (remdups (map mb_tenant (filter
            (\<lambda>m. profile_due (m_today at) db m \<or> ended_in_groups (m_today at) db m) (db_memberships db))))
      in sweep_tenants (clear_tenant_profiles E at) tenants 0 db)"

definition keeps_profile :: "uuid \<Rightarrow> ('t, 'd) membership_row \<Rightarrow> bool" where
  "keeps_profile account m \<longleftrightarrow> mb_account m = account \<and> mb_name_erased_at m = None \<and> has_field m"

text \<open>The recalculation of one stamped period under the new setting.\<close>

definition restamp ::
  "('t::linorder, 'd::linorder) env \<Rightarrow> uuid \<Rightarrow> retention_months \<Rightarrow> ('t, 'd) moment \<Rightarrow> uuid \<times> 'd
     \<Rightarrow> ('t, 'd) store \<Rightarrow> ('t, 'd) store outcome" where
  "restamp E t months at = (\<lambda>(i, stamped) db.
     and_then (ended_on_for E t i (m_today at) db) (\<lambda>ended.
     case keep_until (env_calendar E) ended months (m_today at) of
       None \<Rightarrow> clear_profile E t i at ''retention_shortened'' db
     | Some until \<Rightarrow>
         if until \<noteq> stamped then
           and_then (update_memberships (is_membership t i) (\<lambda>r. r\<lparr>mb_retained_until := Some until\<rparr>) db)
             (write_audit E at (audit_member t i ''membership.retention_changed'' ''membership'' i [(lit ''until'', P_Date until)]))
         else Inr db))"

definition stamped_rows :: "uuid \<Rightarrow> uuid \<Rightarrow> 'd::linorder \<Rightarrow> ('t, 'd) store \<Rightarrow> (uuid \<times> 'd) list" where
  "stamped_rows t account today db =
     List.map_filter (\<lambda>m. map_option (Pair (mb_id m)) (mb_retained_until m))
       (sort_key mb_id (filter (\<lambda>m. mb_tenant m = t \<and> mb_account m = account \<and> membership_ended today db m) (db_memberships db)))"

definition set_retention_months ::
  "('t::linorder, 'd::linorder) env \<Rightarrow> uuid \<Rightarrow> retention_months \<Rightarrow> ('t, 'd) moment \<Rightarrow> ('t, 'd) store \<Rightarrow> ('t, 'd) store outcome" where
  "set_retention_months E account months at db =
     (let tenants = sort (remdups (map mb_tenant (filter (keeps_profile account) (db_memberships db))))
      in and_then (for_each (\<lambda>t db. and_then (lock_tenant t db) (\<lambda>_. Inr db)) tenants db) (\<lambda>db.
         and_then (for_each (\<lambda>t db.
             and_then (settle_all E t at (ids_where t (keeps_profile account) db) 0 db) (\<lambda>(_, db). Inr db)) tenants db) (\<lambda>db.
         and_then (ok_or E_Unknown_Account (find_account account db)) (\<lambda>_.
         for_each (\<lambda>t db. for_each (restamp E t months at) (stamped_rows t account (m_today at) db) db) tenants
           (db\<lparr>db_accounts := map (\<lambda>a. if acc_id a = account then a\<lparr>acc_retention := months\<rparr> else a) (db_accounts db)\<rparr>)))))"

definition erase_tenant_names ::
  "('t, 'd) env \<Rightarrow> uuid \<Rightarrow> ('t, 'd) moment \<Rightarrow> uuid \<Rightarrow> nat \<times> ('t, 'd) store \<Rightarrow> (nat \<times> ('t, 'd) store) outcome" where
  "erase_tenant_names E account at t = (\<lambda>(erased, db).
     and_then (lock_tenant t db) (\<lambda>_.
     let here = (\<lambda>m. mb_tenant m = t \<and> mb_account m = account \<and> mb_name_erased_at m = None);
         ids = map mb_id (filter here (db_memberships db))
     in and_then (update_memberships here
            (\<lambda>r. r\<lparr>mb_name_erased_at := Some (m_now at), mb_display_name := None, mb_contact_email := None,
                 mb_retained_until := None\<rparr>) db) (\<lambda>db.
        and_then (for_each (\<lambda>i. write_audit E at (audit_system t ''membership.name_erased'' ''membership'' i [])) ids db) (\<lambda>db.
          Inr (erased + length ids, db)))))"

definition erase_member_names ::
  "('t, 'd) env \<Rightarrow> uuid \<Rightarrow> ('t, 'd) moment \<Rightarrow> ('t, 'd) store \<Rightarrow> (nat \<times> ('t, 'd) store) outcome" where
  "erase_member_names E account at db =
     for_each (erase_tenant_names E account at)
       (sort (map mb_tenant (filter (\<lambda>m. mb_account m = account) (db_memberships db)))) (0, db)"

section \<open>Names in history\<close>

text \<open>\<open>names.rs\<close>, \<open>member_names\<close>.\<close>

datatype 'd member_name = Named bytes | Unnamed | Returned bytes "'d active_period"
  | Ended "'d held_role list" | Former

definition shown_member_name :: "('t, 'd::linorder) env \<Rightarrow> 'd \<Rightarrow> ('t, 'd) store \<Rightarrow> ('t, 'd) membership_row \<Rightarrow> 'd member_name" where
  "shown_member_name E today db m =
     (let held = held_roles E (mb_tenant m) (mb_id m) db
      in if mb_name_erased_at m \<noteq> None then Former
         else if membership_ended today db m then (if held \<noteq> [] then Ended held else Former)
         else case mb_display_name m of
           Some n \<Rightarrow> let p = active_period held today in if earlier p \<noteq> [] then Returned n p else Named n
         | None \<Rightarrow> Unnamed)"

definition member_names ::
  "('t, 'd::linorder) env \<Rightarrow> viewer \<Rightarrow> uuid list \<Rightarrow> ('t, 'd) moment \<Rightarrow> ('t, 'd) store \<Rightarrow> (uuid \<times> 'd member_name) list outcome" where
  "member_names E vw ids at db =
     and_then (permit (authorize vw Res_Fau Read at db) E_Not_Authorized) (\<lambda>_.
       Inr (List.map_filter (\<lambda>i. map_option (\<lambda>m. (i, shown_member_name E (m_today at) db m))
              (find_membership (vw_tenant vw) i db)) (rev (remdups (rev ids)))))"

end
