(* ===== verification/Store_Invitations.thy ===== *)
theory Store_Invitations
  imports Store_Profiles Crypto
begin

text \<open>
  \<open>persistence/src/membership/token.rs\<close> and \<open>invitations.rs\<close>: issue, re-send, withdraw, accept.
  Row checks are those of \<open>0003_membership.sql\<close>, \<open>0005_wrapped_keys.sql\<close> and \<open>0007_groups.sql\<close>.
\<close>

section \<open>Tokens\<close>

definition hex_digit :: "nat \<Rightarrow> nat" where
  "hex_digit n = (if n < 10 then 48 + n else 87 + n)"

definition token_text :: "bytes \<Rightarrow> str" where
  "token_text bs = concat (map (\<lambda>b. [hex_digit (b div 16), hex_digit (b mod 16)]) bs)"

definition generate_token :: "('t, 'd) env \<Rightarrow> ('t, 'd) store \<Rightarrow> (str \<times> ('t, 'd) store) outcome" where
  "generate_token E db =
     (case env_random E (db_drawn db) of
        None \<Rightarrow> Inl E_Randomness
      | Some bs \<Rightarrow> Inr (token_text bs, db\<lparr>db_drawn := Suc (db_drawn db)\<rparr>))"

text \<open>Only called on texts of ASCII characters, whose bytes are their code points.\<close>

definition hash_token :: "('t, 'd) env \<Rightarrow> str \<Rightarrow> bytes" where
  "hash_token E raw = env_sha256 E raw"

definition looks_like_token :: "str \<Rightarrow> bool" where
  "looks_like_token raw \<longleftrightarrow>
     str_len raw = 64 \<and> list_all (\<lambda>b. (48 \<le> b \<and> b \<le> 57) \<or> (97 \<le> b \<and> b \<le> 102)) raw"

section \<open>Requests\<close>

datatype role_choice = Existing_Role uuid | New_Role role_name capability_class "uuid option"

record 'd offered_role =
  or_role :: role_choice
  or_period :: "'d period"

record 't issued_invitation =
  is_invitation :: uuid
  is_token :: str
  is_expires_at :: 't

record 'd new_invitation =
  ni_tenant :: uuid
  ni_mode :: invitation_mode
  ni_recipient :: email
  ni_issued_by :: "uuid option"
  ni_grant :: "uuid option"
  ni_request :: "uuid option"
  ni_holder :: "recovery_holder option"
  ni_roles :: "(uuid \<times> 'd period) list"
  ni_actor_kind :: actor_kind
  ni_actor :: "uuid option"
  ni_id :: "uuid option"
  ni_message :: "str option"

section \<open>Statements\<close>

definition message_max_bytes :: nat where "message_max_bytes = 4096"

definition invitation_row_ok :: "'t invitation_row \<Rightarrow> bool" where
  "invitation_row_ok r \<longleftrightarrow>
     (iv_mode r \<in> {Normal, Handover} \<longleftrightarrow> iv_issued_by r \<noteq> None)
     \<and> (iv_mode r = Handover \<longleftrightarrow> iv_grant r \<noteq> None)
     \<and> (iv_mode r = Recovery \<longleftrightarrow> iv_holder r \<noteq> None)
     \<and> (iv_accepted_at r = None \<longleftrightarrow> iv_accepted_membership r = None)
     \<and> (iv_accepted_at r = None \<or> iv_revoked_at r = None)
     \<and> length (iv_token_hash r) = 32
     \<and> (\<forall>m\<in>set_option (iv_message r). str_len m \<le> message_max_bytes)"

definition insert_invitation_row :: "'t invitation_row \<Rightarrow> ('t, 'd) store \<Rightarrow> ('t, 'd) store outcome" where
  "insert_invitation_row r db =
     and_then (insert_row (\<lambda>r. (iv_tenant r, iv_id r))
         (find_tenant (iv_tenant r) db \<noteq> None \<and> invitation_row_ok r \<and> \<not> list_ex (\<lambda>q. iv_token_hash q = iv_token_hash r) (db_invitations db)
          \<and> (\<forall>m\<in>set_option (iv_issued_by r). find_membership (iv_tenant r) m db \<noteq> None)
          \<and> (\<forall>g\<in>set_option (iv_grant r). find_grant (iv_tenant r) g db \<noteq> None)
          \<and> (\<forall>m\<in>set_option (iv_accepted_membership r). find_membership (iv_tenant r) m db \<noteq> None)
          \<and> (\<forall>q\<in>set_option (iv_request r). list_ex (\<lambda>s. rq_tenant s = iv_tenant r \<and> rq_id s = q) (db_requests db)))
         r (db_invitations db))
       (\<lambda>rows. Inr (db\<lparr>db_invitations := rows\<rparr>))"

definition is_invitation_row :: "uuid \<Rightarrow> uuid \<Rightarrow> 't invitation_row \<Rightarrow> bool" where
  "is_invitation_row t i r \<longleftrightarrow> iv_tenant r = t \<and> iv_id r = i"

definition update_invitation ::
  "uuid \<Rightarrow> uuid \<Rightarrow> ('t invitation_row \<Rightarrow> 't invitation_row) \<Rightarrow> ('t, 'd) store \<Rightarrow> ('t, 'd) store outcome" where
  "update_invitation t i f db =
     and_then (update_rows (\<lambda>r. invitation_row_ok r
           \<and> (\<forall>m\<in>set_option (iv_accepted_membership r). find_membership (iv_tenant r) m db \<noteq> None))
         (is_invitation_row t i) f (db_invitations db)) (\<lambda>rows.
     and_then (require (distinct (map iv_token_hash rows)) E_Database) (\<lambda>_.
       Inr (db\<lparr>db_invitations := rows\<rparr>)))"

definition insert_invitation_role ::
  "uuid \<Rightarrow> uuid \<Rightarrow> uuid \<times> 'd::linorder period \<Rightarrow> ('t, 'd) store \<Rightarrow> ('t, 'd) store outcome" where
  "insert_invitation_role t i = (\<lambda>(role, p) db.
     and_then (insert_row (\<lambda>r. (ir_tenant r, ir_invitation r, ir_role r))
         (find_invitation t i db \<noteq> None \<and> find_role t role db \<noteq> None \<and> period_ok p)
         \<lparr>ir_tenant = t, ir_invitation = i, ir_role = role, ir_period = p\<rparr> (db_invitation_roles db))
       (\<lambda>rows. Inr (db\<lparr>db_invitation_roles := rows\<rparr>)))"

definition insert_role :: "role_row \<Rightarrow> ('t, 'd) store \<Rightarrow> ('t, 'd) store outcome" where
  "insert_role r db =
     and_then (insert_row (\<lambda>r. (ro_tenant r, ro_id r))
         (find_tenant (ro_tenant r) db \<noteq> None \<and> (ro_class r = Guest_Class \<longleftrightarrow> ro_group r \<noteq> None)
          \<and> (ro_class r = Guest_Class \<longrightarrow> ro_unit r = None \<and> ro_cohort r = None)
          \<and> (\<forall>u\<in>set_option (ro_unit r). (ro_tenant r, u) \<in> set (db_units db))
          \<and> (\<forall>c\<in>set_option (ro_cohort r). (ro_tenant r, c) \<in> set (db_cohorts db))
          \<and> (\<forall>g\<in>set_option (ro_group r). find_group (ro_tenant r) g db \<noteq> None)) r (db_roles db))
       (\<lambda>rows. Inr (db\<lparr>db_roles := rows\<rparr>))"

definition insert_invitation ::
  "('t, 'd::linorder) env \<Rightarrow> ('t, 'd) moment \<Rightarrow> 'd new_invitation \<Rightarrow> ('t, 'd) store
     \<Rightarrow> ('t issued_invitation \<times> ('t, 'd) store) outcome" where
  "insert_invitation E at ni db =
     and_then (generate_token E db) (\<lambda>(token, db).
     let (i, db) = (case ni_id ni of Some i \<Rightarrow> (i, db) | None \<Rightarrow> now_v7 E db);
         expires = invitation_expiry (env_calendar E) (m_now at)
     in and_then (insert_invitation_row
          \<lparr>iv_tenant = ni_tenant ni, iv_id = i, iv_token_hash = hash_token E token, iv_mode = ni_mode ni,
           iv_recipient = email_str (ni_recipient ni), iv_issued_by = ni_issued_by ni, iv_grant = ni_grant ni,
           iv_request = ni_request ni, iv_holder = ni_holder ni, iv_expires_at = expires, iv_accepted_at = None,
           iv_accepted_membership = None, iv_revoked_at = None, iv_created_at = m_now at, iv_message = ni_message ni\<rparr> db) (\<lambda>db.
        and_then (for_each (insert_invitation_role (ni_tenant ni) i) (ni_roles ni) db) (\<lambda>db.
        and_then (write_audit E at
            \<lparr>ad_tenant = Some (ni_tenant ni), ad_actor_kind = ni_actor_kind ni, ad_actor_account = None,
             ad_actor_membership = ni_actor ni, ad_action = lit ''invitation.issued'', ad_subject_type = lit ''invitation'',
             ad_subject_id = i, ad_params = [(lit ''mode'', P_Code (invitation_mode_code (ni_mode ni))),
               (lit ''role_count'', P_Count (length (ni_roles ni)))]\<rparr> db) (\<lambda>db.
        and_then (enqueue E at (Some (ni_tenant ni)) ''invitation.issued'' (email_str (ni_recipient ni))
            [(lit ''tenant_id'', P_Id (ni_tenant ni)), (lit ''invitation_id'', P_Id i),
             (lit ''mode'', P_Code (invitation_mode_code (ni_mode ni)))] db) (\<lambda>db.
          Inr (\<lparr>is_invitation = i, is_token = token, is_expires_at = expires\<rparr>, db))))))"

text \<open>The \<open>left join\<close> with the group a guest role names.\<close>

definition role_group_archived :: "('t, 'd) store \<Rightarrow> role_row \<Rightarrow> bool" where
  "role_group_archived db r =
     (case Option.bind (ro_group r) (\<lambda>g. find_group (ro_tenant r) g db) of
        Some g \<Rightarrow> grp_archived_at g \<noteq> None
      | None \<Rightarrow> False)"

definition resolve_role ::
  "('t, 'd) env \<Rightarrow> ('t, 'd) moment \<Rightarrow> uuid \<Rightarrow> uuid option \<Rightarrow> role_choice \<Rightarrow> ('t, 'd) store
     \<Rightarrow> ((uuid \<times> capability_class) \<times> ('t, 'd) store) outcome" where
  "resolve_role E at t actor choice db =
     (case choice of
        Existing_Role i \<Rightarrow>
          and_then (ok_or E_Unknown_Role (find_role t i db)) (\<lambda>r.
          and_then (require (\<not> role_group_archived db r) E_Group_Archived) (\<lambda>_.
            Inr ((i, ro_class r), db)))
      | New_Role name c g \<Rightarrow>
          and_then (require (c = Guest_Class \<longleftrightarrow> g \<noteq> None) E_Role_Group_Mismatch) (\<lambda>_.
          and_then (case g of
                      None \<Rightarrow> Inr ()
                    | Some i \<Rightarrow>
                        and_then (ok_or E_Unknown_Group (find_group t i db)) (\<lambda>r.
                          require (grp_archived_at r = None) E_Group_Archived)) (\<lambda>_.
          let (i, db) = now_v7 E db
          in and_then (insert_role \<lparr>ro_tenant = t, ro_id = i, ro_name = role_name_str name, ro_class = c,
                 ro_unit = None, ro_cohort = None, ro_group = g\<rparr> db) (\<lambda>db.
             and_then (write_audit E at
                 \<lparr>ad_tenant = Some t, ad_actor_kind = (if actor \<noteq> None then Actor_Member else Actor_System),
                  ad_actor_account = None, ad_actor_membership = actor, ad_action = lit ''role.created'',
                  ad_subject_type = lit ''role'', ad_subject_id = i,
                  ad_params = [(lit ''capability_class'', P_Code (capability_class_code c)), (lit ''group_id'', id_param g)]\<rparr> db) (\<lambda>db.
               Inr ((i, c), db))))))"

fun resolve_each ::
  "('t, 'd::linorder) env \<Rightarrow> ('t, 'd) moment \<Rightarrow> uuid \<Rightarrow> uuid option \<Rightarrow> uuid list \<Rightarrow> 'd offered_role list \<Rightarrow> ('t, 'd) store
     \<Rightarrow> ((uuid \<times> capability_class \<times> 'd period) list \<times> ('t, 'd) store) outcome" where
  "resolve_each E at t actor seen [] db = Inr ([], db)"
| "resolve_each E at t actor seen (r # rs) db =
     and_then (require (\<not> has_ended_by (or_period r) (m_today at)) E_Period_Already_Ended) (\<lambda>_.
     and_then (resolve_role E at t actor (or_role r) db) (\<lambda>((i, c), db).
     and_then (require (i \<notin> set seen) E_Duplicate_Role) (\<lambda>_.
     and_then (resolve_each E at t actor (i # seen) rs db) (\<lambda>(resolved, db).
       Inr ((i, c, or_period r) # resolved, db)))))"

definition resolve_roles ::
  "('t, 'd::linorder) env \<Rightarrow> ('t, 'd) moment \<Rightarrow> uuid \<Rightarrow> uuid option \<Rightarrow> 'd offered_role list \<Rightarrow> ('t, 'd) store
     \<Rightarrow> ((uuid \<times> capability_class \<times> 'd period) list \<times> ('t, 'd) store) outcome" where
  "resolve_roles E at t actor offered db =
     and_then (require (offered \<noteq> []) E_No_Roles_Offered) (\<lambda>_. resolve_each E at t actor [] offered db)"

section \<open>Issue\<close>

record attached_invitation_message =
  im_invitation :: uuid
  im_ciphertext :: message_ciphertext

record 'd issue_invitation_req =
  ii_tenant :: uuid
  ii_actor :: uuid
  ii_recipient :: email
  ii_roles :: "'d offered_role list"
  ii_grant :: "uuid option"
  ii_message :: "attached_invitation_message option"

fun is_new_role :: "role_choice \<Rightarrow> bool" where
  "is_new_role (New_Role _ _ _) = True"
| "is_new_role (Existing_Role _) = False"

text \<open>Whether the choice is an existing role of the guest class, looked up before \<open>resolve_roles\<close>.\<close>

definition offers_guest :: "uuid \<Rightarrow> ('t, 'd) store \<Rightarrow> role_choice \<Rightarrow> bool" where
  "offers_guest t db choice =
     (case choice of
        Existing_Role i \<Rightarrow> (case find_role t i db of Some r \<Rightarrow> ro_class r = Guest_Class | None \<Rightarrow> False)
      | New_Role _ _ _ \<Rightarrow> False)"

definition issuing_mode ::
  "'d issue_invitation_req \<Rightarrow> ('t, 'd::linorder) moment \<Rightarrow> ('t, 'd) store \<Rightarrow> invitation_mode outcome" where
  "issuing_mode req at db =
     (case ii_grant req of
        None \<Rightarrow> and_then (require_admin (ii_tenant req) (ii_actor req) (m_today at) db) (\<lambda>_. Inr Normal)
      | Some g \<Rightarrow>
          and_then (require (handover_grant_valid (ii_tenant req) g (ii_actor req) (m_today at) db) E_Not_Authorized) (\<lambda>_.
          and_then (require (\<not> list_ex (\<lambda>r. is_new_role (or_role r)) (ii_roles req)) E_Not_Authorized) (\<lambda>_.
          and_then (require (\<not> list_ex (\<lambda>r. offers_guest (ii_tenant req) db (or_role r)) (ii_roles req)) E_Not_Authorized) (\<lambda>_.
          and_then (ok_or E_Not_Authorized (usable_member_email (ii_tenant req) (ii_actor req) db)) (\<lambda>own.
          and_then (require (own \<noteq> email_str (ii_recipient req)) E_Self_Invitation) (\<lambda>_.
            Inr Handover))))))"

definition issue_invitation ::
  "('t, 'd::linorder) env \<Rightarrow> 'd issue_invitation_req \<Rightarrow> ('t, 'd) moment \<Rightarrow> ('t, 'd) store
     \<Rightarrow> ('t issued_invitation \<times> ('t, 'd) store) outcome" where
  "issue_invitation E req at db =
     and_then (require (\<not> (case ii_message req of
           Some m \<Rightarrow> message_max_bytes < str_len (message_ciphertext_str (im_ciphertext m)) | None \<Rightarrow> False))
         E_Message_Too_Long) (\<lambda>_.
     and_then (lock_tenant (ii_tenant req) db) (\<lambda>st.
     and_then (require_open st) (\<lambda>_.
     and_then (issuing_mode req at db) (\<lambda>md.
     and_then (resolve_roles E at (ii_tenant req) (Some (ii_actor req)) (ii_roles req) db) (\<lambda>(roles, db).
     and_then (require (\<not> (md = Handover \<and> list_ex (\<lambda>(_, c, _). c = Guest_Class) roles)) E_Not_Authorized) (\<lambda>_.
       insert_invitation E at
         \<lparr>ni_tenant = ii_tenant req, ni_mode = md, ni_recipient = ii_recipient req, ni_issued_by = Some (ii_actor req),
          ni_grant = ii_grant req, ni_request = None, ni_holder = None, ni_roles = map (\<lambda>(i, _, p). (i, p)) roles,
          ni_actor_kind = Actor_Member, ni_actor = Some (ii_actor req), ni_id = map_option im_invitation (ii_message req),
          ni_message = map_option (\<lambda>m. message_ciphertext_str (im_ciphertext m)) (ii_message req)\<rparr> db))))))"

section \<open>Re-send and withdraw\<close>

definition lock_invitation :: "uuid \<Rightarrow> uuid \<Rightarrow> bytes option \<Rightarrow> ('t, 'd) store \<Rightarrow> 't invitation_row option" where
  "lock_invitation t i hash db =
     opt_filter (\<lambda>r. hash = None \<or> hash = Some (iv_token_hash r)) (find_invitation t i db)"

definition recovery_seat_matches :: "uuid \<Rightarrow> recovery_holder \<Rightarrow> ('t, 'd) store \<Rightarrow> bool" where
  "recovery_seat_matches t holder db =
     (case List.find (\<lambda>r. rc_tenant r = t) (db_recovery_contacts db) of
        Some r \<Rightarrow> rc_holder r = holder
      | None \<Rightarrow> False)"

record invitation_change =
  ic_tenant :: uuid
  ic_actor :: uuid
  ic_invitation :: uuid

datatype change_kind = Resend | Withdraw

definition change_allowed ::
  "invitation_change \<Rightarrow> 't invitation_row \<Rightarrow> 'd::linorder \<Rightarrow> change_kind \<Rightarrow> ('t, 'd) store \<Rightarrow> bool" where
  "change_allowed ch r today kind db =
     (case (iv_mode r, iv_grant r) of
        (Handover, Some g) \<Rightarrow>
          (case kind of
             Resend \<Rightarrow> handover_grant_valid (ic_tenant ch) g (ic_actor ch) today db
           | Withdraw \<Rightarrow> membership_usable (ic_tenant ch) (ic_actor ch) db)
      | (Normal, _) \<Rightarrow> kind = Withdraw \<and> membership_usable (ic_tenant ch) (ic_actor ch) db
      | _ \<Rightarrow> False)"

definition authorize_change ::
  "invitation_change \<Rightarrow> 't invitation_row option \<Rightarrow> 'd::linorder \<Rightarrow> change_kind \<Rightarrow> ('t, 'd) store \<Rightarrow> unit outcome" where
  "authorize_change ch found today kind db =
     (if is_admin_today (ic_tenant ch) (ic_actor ch) today db then Inr ()
      else case found of
        None \<Rightarrow> Inl E_Not_Authorized
      | Some r \<Rightarrow>
          and_then (require (iv_issued_by r = Some (ic_actor ch)) E_Not_Authorized) (\<lambda>_.
            require (change_allowed ch r today kind db) E_Not_Authorized))"

definition invitation_pending :: "'t invitation_row \<Rightarrow> bool" where
  "invitation_pending r \<longleftrightarrow> iv_accepted_at r = None \<and> iv_revoked_at r = None"

definition offers_archived_group :: "uuid \<Rightarrow> uuid \<Rightarrow> ('t, 'd) store \<Rightarrow> bool" where
  "offers_archived_group t i db =
     list_ex (\<lambda>ir. ir_tenant ir = t \<and> ir_invitation ir = i \<and>
       (case find_role t (ir_role ir) db of Some r \<Rightarrow> role_group_archived db r | None \<Rightarrow> False)) (db_invitation_roles db)"

definition resend_invitation ::
  "('t, 'd::linorder) env \<Rightarrow> invitation_change \<Rightarrow> ('t, 'd) moment \<Rightarrow> ('t, 'd) store
     \<Rightarrow> ('t issued_invitation \<times> ('t, 'd) store) outcome" where
  "resend_invitation E ch at db =
     and_then (lock_tenant (ic_tenant ch) db) (\<lambda>st.
     let found = lock_invitation (ic_tenant ch) (ic_invitation ch) None db
     in and_then (authorize_change ch found (m_today at) Resend db) (\<lambda>_.
     and_then (require_open st) (\<lambda>_.
     and_then (ok_or E_Unknown_Invitation found) (\<lambda>r.
     and_then (require (invitation_pending r) E_Invitation_Not_Pending) (\<lambda>_.
     and_then (require (\<not> offers_archived_group (ic_tenant ch) (ic_invitation ch) db) E_Group_Archived) (\<lambda>_.
     and_then (generate_token E db) (\<lambda>(token, db).
     let expires = invitation_expiry (env_calendar E) (m_now at)
     in and_then (update_invitation (ic_tenant ch) (ic_invitation ch)
          (\<lambda>q. q\<lparr>iv_token_hash := hash_token E token, iv_expires_at := expires\<rparr>) db) (\<lambda>db.
     and_then (write_audit E at (audit_member (ic_tenant ch) (ic_actor ch) ''invitation.resent'' ''invitation''
         (ic_invitation ch) [(lit ''mode'', P_Code (invitation_mode_code (iv_mode r)))]) db) (\<lambda>db.
     and_then (enqueue E at (Some (ic_tenant ch)) ''invitation.issued'' (iv_recipient r)
         [(lit ''tenant_id'', P_Id (ic_tenant ch)), (lit ''invitation_id'', P_Id (ic_invitation ch)),
          (lit ''mode'', P_Code (invitation_mode_code (iv_mode r)))] db) (\<lambda>db.
       Inr (\<lparr>is_invitation = ic_invitation ch, is_token = token, is_expires_at = expires\<rparr>, db)))))))))))"

definition withdraw_invitation ::
  "('t, 'd::linorder) env \<Rightarrow> invitation_change \<Rightarrow> ('t, 'd) moment \<Rightarrow> ('t, 'd) store \<Rightarrow> ('t, 'd) store outcome" where
  "withdraw_invitation E ch at db =
     and_then (lock_tenant (ic_tenant ch) db) (\<lambda>_.
     let found = lock_invitation (ic_tenant ch) (ic_invitation ch) None db
     in and_then (authorize_change ch found (m_today at) Withdraw db) (\<lambda>_.
     and_then (ok_or E_Unknown_Invitation found) (\<lambda>r.
     and_then (require (invitation_pending r) E_Invitation_Not_Pending) (\<lambda>_.
     and_then (update_invitation (ic_tenant ch) (ic_invitation ch) (\<lambda>q. q\<lparr>iv_revoked_at := Some (m_now at)\<rparr>) db)
       (write_audit E at (audit_member (ic_tenant ch) (ic_actor ch) ''invitation.withdrawn'' ''invitation''
          (ic_invitation ch) [(lit ''mode'', P_Code (invitation_mode_code (iv_mode r)))]))))))"

end
