(* ===== verification/Store_Requests.thy ===== *)
theory Store_Requests
  imports Store_Invitations
begin

text \<open>
  \<open>persistence/src/membership/requests.rs\<close>: access requests and replacement proposals, decided by an
  admin or lapsed by the sweep. Row checks are those of \<open>0003_membership.sql\<close>.
\<close>

section \<open>The table\<close>

definition request_row_ok :: "('t, 'd::linorder) request_row \<Rightarrow> bool" where
  "request_row_ok r \<longleftrightarrow>
     (rq_kind r = Replacement \<longleftrightarrow> rq_requester r \<noteq> None \<and> rq_replaced r \<noteq> None \<and> rq_proposed r \<noteq> None)
     \<and> (\<forall>p\<in>set_option (rq_proposed r). period_ok p)
     \<and> (rq_status r = Request_Pending \<longleftrightarrow> rq_closed_at r = None)
     \<and> (rq_status r \<in> {Approved, Declined} \<longleftrightarrow> rq_decided_by r \<noteq> None)
     \<and> (\<forall>m\<in>set_option (rq_message r). str_len m \<le> message_max_bytes)"

text \<open>\<open>access_requests_one_open_per_address\<close>.\<close>

definition open_from :: "uuid \<Rightarrow> str \<Rightarrow> ('t, 'd) request_row \<Rightarrow> bool" where
  "open_from t email r \<longleftrightarrow> rq_tenant r = t \<and> rq_requester_email r = email \<and> rq_status r = Request_Pending"

definition insert_request_row :: "('t, 'd::linorder) request_row \<Rightarrow> ('t, 'd) store \<Rightarrow> ('t, 'd) store outcome" where
  "insert_request_row r db =
     and_then (insert_row (\<lambda>r. (rq_tenant r, rq_id r))
         (find_tenant (rq_tenant r) db \<noteq> None \<and> request_row_ok r \<and> \<not> list_ex (open_from (rq_tenant r) (rq_requester_email r)) (db_requests db)
          \<and> (\<forall>m\<in>set_option (rq_requester r). find_membership (rq_tenant r) m db \<noteq> None)
          \<and> (\<forall>a\<in>set_option (rq_replaced r). find_assignment (rq_tenant r) a db \<noteq> None)
          \<and> (\<forall>m\<in>set_option (rq_decided_by r). find_membership (rq_tenant r) m db \<noteq> None)) r (db_requests db))
       (\<lambda>rows. Inr (db\<lparr>db_requests := rows\<rparr>))"

definition update_requests ::
  "(('t, 'd::linorder) request_row \<Rightarrow> bool) \<Rightarrow> (('t, 'd) request_row \<Rightarrow> ('t, 'd) request_row)
     \<Rightarrow> ('t, 'd) store \<Rightarrow> ('t, 'd) store outcome" where
  "update_requests p f db =
     and_then (update_rows (\<lambda>r. request_row_ok r
           \<and> (\<forall>m\<in>set_option (rq_decided_by r). find_membership (rq_tenant r) m db \<noteq> None)) p f (db_requests db))
       (\<lambda>rows. Inr (db\<lparr>db_requests := rows\<rparr>))"

definition find_request :: "uuid \<Rightarrow> uuid \<Rightarrow> ('t, 'd) store \<Rightarrow> ('t, 'd) request_row option" where
  "find_request t i db = List.find (\<lambda>r. rq_tenant r = t \<and> rq_id r = i) (db_requests db)"

section \<open>Creation\<close>

definition check_limits ::
  "uuid \<Rightarrow> str \<Rightarrow> 'd \<Rightarrow> ('t, 'd) store \<Rightarrow> unit outcome" where
  "check_limits t email today db =
     (case check_request_limits (int (length (filter (open_from t email) (db_requests db))))
             (int (length (filter (\<lambda>r. rq_tenant r = t \<and> rq_created_on r = today) (db_requests db)))) of
        Inl e \<Rightarrow> Inl (E_Request_Limit e)
      | Inr u \<Rightarrow> Inr u)"

record 'd new_request =
  nr_id :: "uuid option"
  nr_tenant :: uuid
  nr_kind :: request_kind
  nr_requester_email :: str
  nr_invitee_email :: str
  nr_requester :: "uuid option"
  nr_replaced :: "uuid option"
  nr_proposed :: "'d period option"
  nr_message :: "str option"

definition insert_request ::
  "('t, 'd::linorder) env \<Rightarrow> ('t, 'd) moment \<Rightarrow> 'd new_request \<Rightarrow> ('t, 'd) store \<Rightarrow> (uuid \<times> ('t, 'd) store) outcome" where
  "insert_request E at r db =
     (let (i, db) = (case nr_id r of Some i \<Rightarrow> (i, db) | None \<Rightarrow> now_v7 E db)
      in and_then (insert_request_row
           \<lparr>rq_tenant = nr_tenant r, rq_id = i, rq_kind = nr_kind r, rq_requester_email = nr_requester_email r,
            rq_invitee_email = nr_invitee_email r, rq_requester = nr_requester r, rq_replaced = nr_replaced r,
            rq_proposed = nr_proposed r, rq_message = nr_message r, rq_status = Request_Pending,
            rq_created_on = m_today at, rq_created_at = m_now at, rq_decided_by = None, rq_closed_at = None\<rparr> db)
         (\<lambda>db. Inr (i, db)))"

definition notify_admins ::
  "('t, 'd::linorder) env \<Rightarrow> ('t, 'd) moment \<Rightarrow> uuid \<Rightarrow> uuid \<Rightarrow> request_kind \<Rightarrow> ('t, 'd) store \<Rightarrow> ('t, 'd) store outcome" where
  "notify_admins E at t i kind db =
     for_each (\<lambda>e. enqueue E at (Some t) ''request.received'' e
         [(lit ''tenant_id'', P_Id t), (lit ''request_id'', P_Id i), (lit ''kind'', P_Code (request_kind_code kind))])
       (admin_emails t (m_today at) db) db"

record attached_request_message =
  rmsg_request :: uuid
  rmsg_ciphertext :: message_ciphertext

record create_access_request_req =
  ca_tenant :: uuid
  ca_requester :: verified_email
  ca_message :: "attached_request_message option"

definition create_access_request ::
  "('t, 'd::linorder) env \<Rightarrow> create_access_request_req \<Rightarrow> ('t, 'd) moment \<Rightarrow> ('t, 'd) store
     \<Rightarrow> (uuid \<times> ('t, 'd) store) outcome" where
  "create_access_request E req at db =
     and_then (require (\<not> (case ca_message req of
           Some m \<Rightarrow> message_max_bytes < str_len (message_ciphertext_str (rmsg_ciphertext m)) | None \<Rightarrow> False))
         E_Message_Too_Long) (\<lambda>_.
     and_then (lock_tenant (ca_tenant req) db) (\<lambda>st.
     and_then (require_open st) (\<lambda>_.
     let requester = email_str (verified_email (ca_requester req))
     in and_then (check_limits (ca_tenant req) requester (m_today at) db) (\<lambda>_.
     and_then (insert_request E at
         \<lparr>nr_id = map_option rmsg_request (ca_message req), nr_tenant = ca_tenant req, nr_kind = Access_Request,
          nr_requester_email = requester, nr_invitee_email = requester, nr_requester = None, nr_replaced = None,
          nr_proposed = None, nr_message = map_option (\<lambda>m. message_ciphertext_str (rmsg_ciphertext m)) (ca_message req)\<rparr> db) (\<lambda>(i, db).
     and_then (notify_admins E at (ca_tenant req) i Access_Request db) (\<lambda>db.
     and_then (write_audit E at
         \<lparr>ad_tenant = Some (ca_tenant req), ad_actor_kind = Actor_Requester, ad_actor_account = None,
          ad_actor_membership = None, ad_action = lit ''request.created'', ad_subject_type = lit ''access_request'',
          ad_subject_id = i, ad_params = [(lit ''kind'', P_Code (request_kind_code Access_Request))]\<rparr> db) (\<lambda>db.
       Inr (i, db))))))))"

record 'd create_replacement_proposal_req =
  cp_tenant :: uuid
  cp_proposer :: uuid
  cp_replaced :: uuid
  cp_successor :: email
  cp_starts_on :: 'd
  cp_ends_on_exclusive :: 'd

definition create_replacement_proposal ::
  "('t, 'd::linorder) env \<Rightarrow> 'd create_replacement_proposal_req \<Rightarrow> ('t, 'd) moment \<Rightarrow> ('t, 'd) store
     \<Rightarrow> (uuid \<times> ('t, 'd) store) outcome" where
  "create_replacement_proposal E req at db =
     and_then (lock_tenant (cp_tenant req) db) (\<lambda>st.
     and_then (require_open st) (\<lambda>_.
     and_then (ok_or E_Not_Authorized (usable_member_email (cp_tenant req) (cp_proposer req) db)) (\<lambda>proposer_email.
     and_then (ok_or E_Not_Authorized (opt_filter (\<lambda>ra. ra_membership ra = cp_proposer req)
         (find_assignment (cp_tenant req) (cp_replaced req) db))) (\<lambda>ra.
     and_then (require (row_valid_on (m_today at) ra) E_Role_Not_Held_Today) (\<lambda>_.
     and_then (case check_replacement_dates (m_today at) (cp_starts_on req) (cp_ends_on_exclusive req) of
           Inl e \<Rightarrow> Inl (E_Replacement_Dates e) | Inr p \<Rightarrow> Inr p) (\<lambda>proposed.
     and_then (check_limits (cp_tenant req) proposer_email (m_today at) db) (\<lambda>_.
     and_then (insert_request E at
         \<lparr>nr_id = None, nr_tenant = cp_tenant req, nr_kind = Replacement, nr_requester_email = proposer_email,
          nr_invitee_email = email_str (cp_successor req), nr_requester = Some (cp_proposer req),
          nr_replaced = Some (cp_replaced req), nr_proposed = Some proposed, nr_message = None\<rparr> db) (\<lambda>(i, db).
     and_then (notify_admins E at (cp_tenant req) i Replacement db) (\<lambda>db.
     and_then (write_audit E at (audit_member (cp_tenant req) (cp_proposer req) ''request.created'' ''access_request'' i
         [(lit ''kind'', P_Code (request_kind_code Replacement)), (lit ''replaced_assignment_id'', P_Id (cp_replaced req))]) db) (\<lambda>db.
       Inr (i, db)))))))))))"

section \<open>Decisions\<close>

record request_decision =
  rd_tenant :: uuid
  rd_actor :: uuid
  rd_request :: uuid

definition lock_pending_request :: "uuid \<Rightarrow> uuid \<Rightarrow> ('t, 'd) store \<Rightarrow> ('t, 'd) request_row outcome" where
  "lock_pending_request t i db =
     and_then (ok_or E_Unknown_Request (find_request t i db)) (\<lambda>r.
     and_then (require (rq_status r = Request_Pending) E_Request_Not_Pending) (\<lambda>_. Inr r))"

definition close_request ::
  "('t, 'd::linorder) env \<Rightarrow> ('t, 'd) moment \<Rightarrow> request_decision \<Rightarrow> request_status \<Rightarrow> ('t, 'd) store \<Rightarrow> ('t, 'd) store outcome" where
  "close_request E at d status db =
     and_then (update_requests (\<lambda>r. rq_tenant r = rd_tenant d \<and> rq_id r = rd_request d)
         (\<lambda>r. r\<lparr>rq_status := status, rq_decided_by := Some (rd_actor d), rq_closed_at := Some (m_now at)\<rparr>) db)
       (write_audit E at (audit_member (rd_tenant d) (rd_actor d)
          (if status = Approved then ''request.approved'' else ''request.declined'') ''access_request'' (rd_request d) []))"

definition approve_request ::
  "('t, 'd::linorder) env \<Rightarrow> request_decision \<Rightarrow> 'd offered_role list \<Rightarrow> ('t, 'd) moment \<Rightarrow> ('t, 'd) store
     \<Rightarrow> ('t issued_invitation \<times> ('t, 'd) store) outcome" where
  "approve_request E d offered at db =
     and_then (lock_tenant (rd_tenant d) db) (\<lambda>st.
     and_then (require_open st) (\<lambda>_.
     and_then (require_admin (rd_tenant d) (rd_actor d) (m_today at) db) (\<lambda>_.
     and_then (lock_pending_request (rd_tenant d) (rd_request d) db) (\<lambda>r.
     and_then (case email_parse (env_ucd E) (rq_invitee_email r) of Inl _ \<Rightarrow> Inl E_Database | Inr e \<Rightarrow> Inr e) (\<lambda>invitee.
     and_then (resolve_roles E at (rd_tenant d) (Some (rd_actor d)) offered db) (\<lambda>(roles, db).
     and_then (insert_invitation E at
         \<lparr>ni_tenant = rd_tenant d, ni_mode = Normal, ni_recipient = invitee, ni_issued_by = Some (rd_actor d),
          ni_grant = None, ni_request = Some (rd_request d), ni_holder = None, ni_roles = map (\<lambda>(i, _, p). (i, p)) roles,
          ni_actor_kind = Actor_Member, ni_actor = Some (rd_actor d), ni_id = None, ni_message = None\<rparr> db) (\<lambda>(issued, db).
     and_then (close_request E at d Approved db) (\<lambda>db.
       Inr (issued, db)))))))))"

definition decline_request ::
  "('t, 'd::linorder) env \<Rightarrow> request_decision \<Rightarrow> ('t, 'd) moment \<Rightarrow> ('t, 'd) store \<Rightarrow> ('t, 'd) store outcome" where
  "decline_request E d at db =
     and_then (lock_tenant (rd_tenant d) db) (\<lambda>_.
     and_then (require_admin (rd_tenant d) (rd_actor d) (m_today at) db) (\<lambda>_.
     and_then (lock_pending_request (rd_tenant d) (rd_request d) db) (\<lambda>r.
     and_then (close_request E at d Declined db)
       (enqueue E at (Some (rd_tenant d)) ''request.declined'' (rq_requester_email r)
          [(lit ''tenant_id'', P_Id (rd_tenant d)), (lit ''request_id'', P_Id (rd_request d))]))))"

text \<open>The sweep takes no tenant lock: it closes the due requests of every tenant at once.\<close>

definition lapse_requests ::
  "('t, 'd::linorder) env \<Rightarrow> ('t, 'd) moment \<Rightarrow> ('t, 'd) store \<Rightarrow> (nat \<times> ('t, 'd) store) outcome" where
  "lapse_requests E at db =
     (let due = (\<lambda>r. rq_status r = Request_Pending \<and> rq_created_on r \<le> lapse_cutoff (env_calendar E) (m_today at));
          lapsed = filter due (db_requests db)
      in and_then (update_requests due (\<lambda>r. r\<lparr>rq_status := Lapsed, rq_closed_at := Some (m_now at)\<rparr>) db) (\<lambda>db.
         and_then (for_each (\<lambda>r db.
             and_then (enqueue E at (Some (rq_tenant r)) ''request.lapsed'' (rq_requester_email r)
                 [(lit ''tenant_id'', P_Id (rq_tenant r)), (lit ''request_id'', P_Id (rq_id r))] db)
               (write_audit E at (audit_system (rq_tenant r) ''request.lapsed'' ''access_request'' (rq_id r) []))) lapsed db) (\<lambda>db.
           Inr (length lapsed, db))))"

definition access_request_message ::
  "uuid \<Rightarrow> uuid \<Rightarrow> uuid \<Rightarrow> ('t, 'd::linorder) moment \<Rightarrow> ('t, 'd) store \<Rightarrow> message_ciphertext option outcome" where
  "access_request_message t i actor at db =
     and_then (permit (authorize \<lparr>vw_tenant = t, vw_membership = actor\<rparr> Res_Fau Manage at db) E_Not_Authorized) (\<lambda>_.
       case Option.bind (find_request t i db) rq_message of
         None \<Rightarrow> Inr None
       | Some m \<Rightarrow> (case message_ciphertext_new m of None \<Rightarrow> Inl E_Database | Some ct \<Rightarrow> Inr (Some ct)))"

end
