(* ===== verification/Store_Acceptance.thy ===== *)
theory Store_Acceptance
  imports Store_Invitations
begin

text \<open>
  \<open>persistence/src/membership/invitations.rs\<close>: \<open>accept_invitation\<close>, \<open>prepare_acceptance\<close> and
  \<open>invitation_message\<close>. The snapshot \<open>check_acceptance\<close> judges is built from the store.
\<close>

section \<open>The snapshot\<close>

record 'd accept_invitation_req =
  ai_token :: str
  ai_acceptor :: verified_email
  ai_admin_end :: "'d option"
  ai_profile :: member_profile

record accepted_result =
  av_tenant :: uuid
  av_account :: uuid
  av_membership :: uuid
  av_assignments :: "uuid list"

definition invitation_by_hash :: "bytes \<Rightarrow> ('t, 'd) store \<Rightarrow> 't invitation_row option" where
  "invitation_by_hash h db = List.find (\<lambda>r. iv_token_hash r = h) (db_invitations db)"

definition acceptance_snapshot_of ::
  "('t, 'd) env \<Rightarrow> uuid \<Rightarrow> tenant_state \<Rightarrow> 't invitation_row \<Rightarrow> verified_email \<Rightarrow> ('t, 'd::linorder) moment
     \<Rightarrow> ('t, 'd) store \<Rightarrow> 't acceptance_snapshot outcome" where
  "acceptance_snapshot_of E t st r who at db =
     (let today = m_today at;
          acceptor_email = email_str (verified_email who);
          account_disabled = (case account_by_email acceptor_email db of
             Some a \<Rightarrow> acc_disabled_at a \<noteq> None | None \<Rightarrow> False);
          issuer_admin = (case (iv_mode r, iv_issued_by r) of
             (Normal, Some issuer) \<Rightarrow> is_admin_today t issuer today db | _ \<Rightarrow> False);
          grant_valid = (case (iv_mode r, iv_grant r, iv_issued_by r) of
             (Handover, Some g, Some issuer) \<Rightarrow> handover_grant_valid t g issuer today db | _ \<Rightarrow> False);
          admin_today = (if iv_mode r = Recovery then has_admin (admin_state_load t db) today else True);
          seat_matches = (case (iv_mode r, iv_holder r) of
             (Recovery, Some holder) \<Rightarrow> recovery_seat_matches t holder db | _ \<Rightarrow> True)
      in case email_parse (env_ucd E) (iv_recipient r) of
           Inl _ \<Rightarrow> Inl E_Database
         | Inr e \<Rightarrow>
             Inr \<lparr>mode = iv_mode r, expires_at = iv_expires_at r, accepted = (iv_accepted_at r \<noteq> None),
                  revoked = (iv_revoked_at r \<noteq> None), recipient = e, acceptor = who,
                  acceptor_account_disabled = account_disabled, snapshot_tenant_status = ts_status st,
                  tenant_frozen = ts_frozen st, issuer_admin_today = issuer_admin,
                  handover_grant_valid_today = grant_valid, snapshot_tenant_has_admin_today = admin_today,
                  recovery_seat_matches_today = seat_matches\<rparr>)"

section \<open>The roles offered\<close>

fun offered_rows ::
  "('t, 'd) store \<Rightarrow> 'd invitation_role_row list \<Rightarrow> (uuid \<times> capability_class \<times> 'd period) list outcome" where
  "offered_rows db [] = Inr []"
| "offered_rows db (ir # irs) =
     (case find_role (ir_tenant ir) (ir_role ir) db of
        None \<Rightarrow> offered_rows db irs
      | Some r \<Rightarrow>
          and_then (require (\<not> role_group_archived db r) E_Group_Archived) (\<lambda>_.
          and_then (offered_rows db irs) (\<lambda>rows.
            Inr ((ir_role ir, ro_class r, ir_period ir) # rows))))"

definition invitation_offer ::
  "uuid \<Rightarrow> uuid \<Rightarrow> ('t, 'd) store \<Rightarrow> (uuid \<times> capability_class \<times> 'd period) list outcome" where
  "invitation_offer t i db =
     offered_rows db (sort_key ir_role (filter (\<lambda>ir. ir_tenant ir = t \<and> ir_invitation ir = i) (db_invitation_roles db)))"

text \<open>The leader's own end date, for the admin roles of an activation.\<close>

definition override_period ::
  "'d::linorder \<Rightarrow> uuid \<times> capability_class \<times> 'd period \<Rightarrow> (uuid \<times> capability_class \<times> 'd period) outcome" where
  "override_period admin_end = (\<lambda>(i, c, p).
     if c = Admin_Class then
       (case period_new (starts_on p) admin_end of Inr q \<Rightarrow> Inr (i, c, q) | Inl _ \<Rightarrow> Inl E_Empty_Period)
     else Inr (i, c, p))"

definition apply_override ::
  "('t, 'd::linorder) env \<Rightarrow> invitation_mode \<Rightarrow> 'd option \<Rightarrow> 'd \<Rightarrow> (uuid \<times> capability_class \<times> 'd period) list
     \<Rightarrow> (uuid \<times> capability_class \<times> 'd period) list outcome" where
  "apply_override E md override today roles =
     (case override of
        None \<Rightarrow> Inr roles
      | Some admin_end \<Rightarrow>
          and_then (require (md = Activation) E_Override_Not_Allowed) (\<lambda>_.
          case validate_admin_end (env_calendar E) today admin_end of
            Inl e \<Rightarrow> Inl (E_Admin_End e)
          | Inr _ \<Rightarrow> map_rows (override_period admin_end) roles))"

fun insert_assignments ::
  "('t, 'd::linorder) env \<Rightarrow> uuid \<Rightarrow> uuid \<Rightarrow> uuid option \<Rightarrow> (uuid \<times> capability_class \<times> 'd period) list
     \<Rightarrow> ('t, 'd) store \<Rightarrow> (uuid list \<times> ('t, 'd) store) outcome" where
  "insert_assignments E t m granted_by [] db = Inr ([], db)"
| "insert_assignments E t m granted_by ((role, _, p) # roles) db =
     and_then (insert_assignment E t m role p granted_by db) (\<lambda>(i, db).
     and_then (insert_assignments E t m granted_by roles db) (\<lambda>(is, db).
       Inr (i # is, db)))"

section \<open>Acceptance\<close>

text \<open>What \<open>accept_invitation\<close> writes, once every check has passed.\<close>

definition seat_acceptor ::
  "('t::linorder, 'd::linorder) env \<Rightarrow> 'd accept_invitation_req \<Rightarrow> ('t, 'd) moment \<Rightarrow> 't invitation_row
     \<Rightarrow> (uuid \<times> capability_class \<times> 'd period) list \<Rightarrow> str list \<Rightarrow> ('t, 'd) store
     \<Rightarrow> (accepted_result \<times> ('t, 'd) store) outcome" where
  "seat_acceptor E req at r roles recovery_recipients db =
     (let t = iv_tenant r; i = iv_id r
      in and_then (upsert_verified_account E (email_str (verified_email (ai_acceptor req))) at db) (\<lambda>((account, _), db).
         and_then (ensure_membership E t account (mp_membership (ai_profile req)) at db) (\<lambda>((m, reused, already_current), db).
         and_then (write_profile t (ai_profile req) already_current db) (\<lambda>db.
         and_then (insert_assignments E t m (iv_issued_by r) roles db) (\<lambda>(is, db).
         and_then (update_invitation t i (\<lambda>q. q\<lparr>iv_accepted_at := Some (m_now at), iv_accepted_membership := Some m\<rparr>) db) (\<lambda>db.
         and_then (write_audit E at
             \<lparr>ad_tenant = Some t, ad_actor_kind = Actor_Member, ad_actor_account = Some account,
              ad_actor_membership = Some m, ad_action = lit ''invitation.accepted'', ad_subject_type = lit ''invitation'',
              ad_subject_id = i, ad_params = [(lit ''mode'', P_Code (invitation_mode_code (iv_mode r))),
                (lit ''membership_reused'', P_Flag reused), (lit ''assignment_count'', P_Count (length is))]\<rparr> db) (\<lambda>db.
         and_then (for_each (\<lambda>e. enqueue E at (Some t) ''recovery.invitation_accepted'' e
             [(lit ''tenant_id'', P_Id t), (lit ''invitation_id'', P_Id i)]) recovery_recipients db) (\<lambda>db.
           Inr (\<lparr>av_tenant = t, av_account = account, av_membership = m, av_assignments = is\<rparr>, db)))))))))"

definition accept_invitation ::
  "('t::linorder, 'd::linorder) env \<Rightarrow> 'd accept_invitation_req \<Rightarrow> ('t, 'd) moment \<Rightarrow> ('t, 'd) store
     \<Rightarrow> (accepted_result \<times> ('t, 'd) store) outcome" where
  "accept_invitation E req at db =
     and_then (require (looks_like_token (ai_token req)) E_Unknown_Invitation) (\<lambda>_.
     and_then (check_profile (ai_profile req)) (\<lambda>_.
     and_then (ok_or E_Unknown_Invitation (invitation_by_hash (hash_token E (ai_token req)) db)) (\<lambda>hit.
     let t = iv_tenant hit; i = iv_id hit
     in and_then (lock_tenant t db) (\<lambda>st.
     and_then (ok_or E_Unknown_Invitation (lock_invitation t i (Some (hash_token E (ai_token req))) db)) (\<lambda>r.
     and_then (acceptance_snapshot_of E t st r (ai_acceptor req) at db) (\<lambda>snapshot.
     and_then (case check_acceptance snapshot (m_now at) of Inl e \<Rightarrow> Inl (E_Acceptance e) | Inr u \<Rightarrow> Inr u) (\<lambda>_.
     and_then (invitation_offer t i db) (\<lambda>offered.
     and_then (apply_override E (iv_mode r) (ai_admin_end req) (m_today at) offered) (\<lambda>roles.
       seat_acceptor E req at r roles
         (if iv_mode r = Recovery then recovery_notice_recipients E t (m_today at) db else []) db)))))))))"

section \<open>Reads for the invitee\<close>

record acceptance_target =
  at_tenant :: uuid
  at_membership :: uuid
  at_existing_current :: bool

text \<open>Only the counter behind \<open>now_v7\<close> moves.\<close>

definition prepare_acceptance ::
  "('t::linorder, 'd::linorder) env \<Rightarrow> str \<Rightarrow> verified_email \<Rightarrow> ('t, 'd) moment \<Rightarrow> ('t, 'd) store
     \<Rightarrow> (acceptance_target \<times> ('t, 'd) store) outcome" where
  "prepare_acceptance E token who at db =
     and_then (require (looks_like_token token) E_Unknown_Invitation) (\<lambda>_.
     and_then (ok_or E_Unknown_Invitation (invitation_by_hash (hash_token E token) db)) (\<lambda>r.
     and_then (require (iv_recipient r = email_str (verified_email who)) E_Unknown_Invitation) (\<lambda>_.
     let t = iv_tenant r;
         existing = Option.bind (account_by_email (email_str (verified_email who)) db)
           (\<lambda>a. List.find (\<lambda>m. mb_tenant m = t \<and> mb_account m = acc_id a) (db_memberships db))
     in case existing of
          None \<Rightarrow>
            let (i, db) = now_v7 E db
            in Inr (\<lparr>at_tenant = t, at_membership = i, at_existing_current = False\<rparr>, db)
        | Some m \<Rightarrow>
            and_then (if mb_name_erased_at m \<noteq> None then Inr False
                      else if \<not> membership_ended (m_today at) db m then Inr True
                      else if mb_display_name m = None then Inr False
                      else and_then (effective_keep_until E t (mb_id m) (mb_retained_until m) (m_today at) db)
                             (\<lambda>until. Inr (until \<noteq> None))) (\<lambda>current.
              Inr (\<lparr>at_tenant = t, at_membership = mb_id m, at_existing_current = current\<rparr>, db)))))"

record invitation_message_view =
  mv_tenant :: uuid
  mv_invitation :: uuid
  mv_ciphertext :: message_ciphertext

definition invitation_message ::
  "('t::linorder, 'd) env \<Rightarrow> str \<Rightarrow> verified_email \<Rightarrow> ('t, 'd) moment \<Rightarrow> ('t, 'd) store \<Rightarrow> invitation_message_view option outcome" where
  "invitation_message E token reader at db =
     and_then (require (looks_like_token token) E_Unknown_Invitation) (\<lambda>_.
     and_then (ok_or E_Unknown_Invitation
         (opt_filter (\<lambda>r. invitation_pending r \<and> m_now at < iv_expires_at r) (invitation_by_hash (hash_token E token) db))) (\<lambda>r.
     and_then (require (iv_recipient r = email_str (verified_email reader)) E_Unknown_Invitation) (\<lambda>_.
       case iv_message r of
         None \<Rightarrow> Inr None
       | Some m \<Rightarrow>
           (case message_ciphertext_new m of
              None \<Rightarrow> Inl E_Database
            | Some ct \<Rightarrow> Inr (Some \<lparr>mv_tenant = iv_tenant r, mv_invitation = iv_id r, mv_ciphertext = ct\<rparr>)))))"

end
