(* ===== verification/Store_Signup.thy ===== *)
theory Store_Signup
  imports Store_Acceptance
begin

text \<open>
  \<open>persistence/src/membership/signup.rs\<close>: an FAU is created pending, activated by its registrant or
  deleted when the signup expires. Transactions run one after another here, so the insert that loses
  a race to another signup is the one that finds a live FAU of the school.
\<close>

section \<open>Statements\<close>

definition bootstrap_admin_role_name :: str where "bootstrap_admin_role_name = lit ''Administrator''"
definition max_pending_signups_per_address :: nat where "max_pending_signups_per_address = 3"

record 'd pending_signup =
  ps_school :: uuid
  ps_fau_name :: fau_name
  ps_registrant :: email
  ps_leader :: email
  ps_admin_end :: 'd

record 't pending_tenant =
  pt_tenant :: uuid
  pt_expires_at :: 't

text \<open>\<open>tenants_one_live_per_school\<close>.\<close>

definition live_at_school :: "uuid \<Rightarrow> 't tenant_row \<Rightarrow> bool" where
  "live_at_school school r \<longleftrightarrow> tn_school r = Some school \<and> tn_status r \<in> {Tenant_Pending, Tenant_Active}"

definition live_tenant_for_school :: "uuid \<Rightarrow> ('t, 'd) store \<Rightarrow> (uuid \<times> existing_fau) option" where
  "live_tenant_for_school school db =
     map_option (\<lambda>r. (tn_id r, if tn_status r = Tenant_Active then Fau_Active else Fau_Pending))
       (List.find (live_at_school school) (db_tenants db))"

definition try_insert_tenant ::
  "uuid \<Rightarrow> 'd pending_signup \<Rightarrow> ('t, 'd) store \<Rightarrow> (uuid option \<times> ('t, 'd) store) outcome" where
  "try_insert_tenant t signup db =
     (if list_ex (live_at_school (ps_school signup)) (db_tenants db) then Inr (None, db)
      else and_then (insert_row tn_id True
          \<lparr>tn_id = t, tn_name = fau_name_str (ps_fau_name signup), tn_school = Some (ps_school signup),
           tn_status = Tenant_Pending, tn_frozen_at = None\<rparr> (db_tenants db))
        (\<lambda>rows. Inr (Some t, db\<lparr>db_tenants := rows\<rparr>)))"

definition insert_signup :: "('t, 'd) signup_row \<Rightarrow> ('t, 'd) store \<Rightarrow> ('t, 'd) store outcome" where
  "insert_signup s db =
     and_then (insert_row sg_tenant (find_tenant (sg_tenant s) db \<noteq> None) s (db_signups db))
       (\<lambda>rows. Inr (db\<lparr>db_signups := rows\<rparr>))"

definition delete_signup :: "uuid \<Rightarrow> ('t, 'd) store \<Rightarrow> ('t, 'd) store" where
  "delete_signup t db = db\<lparr>db_signups := filter (\<lambda>s. sg_tenant s \<noteq> t) (db_signups db)\<rparr>"

definition activate_row :: "uuid \<Rightarrow> ('t, 'd) store \<Rightarrow> ('t, 'd) store outcome" where
  "activate_row t db =
     (let rows = map (\<lambda>r. if tn_id r = t then r\<lparr>tn_status := Tenant_Active\<rparr> else r) (db_tenants db)
      in if list_all (\<lambda>r. tn_id r = t \<longrightarrow> (case tn_school r of
             None \<Rightarrow> True | Some s \<Rightarrow> length (filter (live_at_school s) rows) \<le> 1)) rows
         then Inr (db\<lparr>db_tenants := rows\<rparr>) else Inl E_Database)"

definition insert_recovery_contact :: "uuid \<Rightarrow> ('t, 'd) store \<Rightarrow> ('t, 'd) store outcome" where
  "insert_recovery_contact t db =
     and_then (insert_row rc_tenant (find_tenant t db \<noteq> None) \<lparr>rc_tenant = t, rc_holder = Ewb, rc_nominee = None\<rparr>
         (db_recovery_contacts db))
       (\<lambda>rows. Inr (db\<lparr>db_recovery_contacts := rows\<rparr>))"

section \<open>Expiry\<close>

text \<open>Whether a row of another table still refers to the tenant: its foreign key forbids the deletion.\<close>

definition tenant_in_use :: "('t, 'd) store \<Rightarrow> uuid \<Rightarrow> bool" where
  "tenant_in_use db t \<longleftrightarrow>
     list_ex (\<lambda>r. mb_tenant r = t) (db_memberships db) \<or> list_ex (\<lambda>r. ro_tenant r = t) (db_roles db)
     \<or> list_ex (\<lambda>r. rc_tenant r = t) (db_recovery_contacts db) \<or> list_ex (\<lambda>r. rq_tenant r = t) (db_requests db)
     \<or> list_ex (\<lambda>r. iv_tenant r = t) (db_invitations db) \<or> list_ex (\<lambda>r. grp_tenant r = t) (db_groups db)
     \<or> list_ex (\<lambda>r. fst r = t) (db_units db) \<or> list_ex (\<lambda>r. fst r = t) (db_cohorts db)"

definition signup_due :: "('t::linorder, 'd) store \<Rightarrow> 't \<Rightarrow> uuid option \<Rightarrow> 't tenant_row \<Rightarrow> bool" where
  "signup_due db now school r \<longleftrightarrow>
     tn_status r = Tenant_Pending \<and> list_ex (\<lambda>s. sg_tenant s = tn_id r \<and> sg_expires_at s \<le> now) (db_signups db)
     \<and> (school = None \<or> tn_school r = school)"

definition expire_due ::
  "('t::linorder, 'd) env \<Rightarrow> ('t, 'd) moment \<Rightarrow> uuid option \<Rightarrow> ('t, 'd) store \<Rightarrow> (nat \<times> ('t, 'd) store) outcome" where
  "expire_due E at school db =
     (let expired = map tn_id (filter (signup_due db (m_now at) school) (db_tenants db))
      in and_then (require (\<not> list_ex (tenant_in_use db) expired) E_Database) (\<lambda>_.
         and_then (for_each (\<lambda>t. write_audit E at (audit_system t ''tenant.signup_expired'' ''tenant'' t [])) expired
             (db\<lparr>db_tenants := filter (\<lambda>r. \<not> signup_due db (m_now at) school r) (db_tenants db),
                 db_signups := filter (\<lambda>s. sg_tenant s \<notin> set expired) (db_signups db)\<rparr>)) (\<lambda>db.
           Inr (length expired, db))))"

definition expire_pending_tenants ::
  "('t::linorder, 'd) env \<Rightarrow> ('t, 'd) moment \<Rightarrow> ('t, 'd) store \<Rightarrow> (nat \<times> ('t, 'd) store) outcome" where
  "expire_pending_tenants E at db = expire_due E at None db"

section \<open>Creation\<close>

text \<open>A refusal that is committed: the copy to EWB and the audit entry stay.\<close>

definition existing_code :: "existing_fau \<Rightarrow> string" where
  "existing_code f = (case f of Fau_Active \<Rightarrow> ''active'' | Fau_Pending \<Rightarrow> ''pending'')"

definition record_collision ::
  "('t, 'd) env \<Rightarrow> ('t, 'd) moment \<Rightarrow> uuid \<Rightarrow> uuid \<times> existing_fau \<Rightarrow> ('t, 'd) store
     \<Rightarrow> ('t pending_tenant outcome \<times> ('t, 'd) store) outcome" where
  "record_collision E at school = (\<lambda>(holder, existing) db.
     (let params = [(lit ''existing_status'', P_Code (lit (existing_code existing))), (lit ''existing_tenant_id'', P_Id holder)]
      in and_then (enqueue E at None ''signup.collision'' ewb_oversight_address ((lit ''school_id'', P_Id school) # params) db) (\<lambda>db.
         and_then (write_audit E at
             \<lparr>ad_tenant = None, ad_actor_kind = Actor_Registrant, ad_actor_account = None, ad_actor_membership = None,
              ad_action = lit ''tenant.signup_collision'', ad_subject_type = lit ''school'', ad_subject_id = school,
              ad_params = params\<rparr> db) (\<lambda>db.
           Inr (Inl (E_School_Taken existing), db)))))"

text \<open>The loop over the attempts: a tenant placed, or the live one that took the school.\<close>

fun place_tenant ::
  "('t, 'd) env \<Rightarrow> nat \<Rightarrow> 'd pending_signup \<Rightarrow> ('t, 'd) store
     \<Rightarrow> ((uuid \<times> existing_fau, uuid) result \<times> ('t, 'd) store) outcome" where
  "place_tenant E 0 signup db = Inl E_Signup_Race_Unresolved"
| "place_tenant E (Suc n) signup db =
     (let (t, db) = now_v7 E db
      in and_then (try_insert_tenant t signup db) (\<lambda>(placed, db).
         case placed of
           Some t \<Rightarrow> Inr (Inr t, db)
         | None \<Rightarrow>
             (case live_tenant_for_school (ps_school signup) db of
                Some holder \<Rightarrow> Inr (Inl holder, db)
              | None \<Rightarrow> place_tenant E n signup db)))"

definition pending_signups_of :: "str \<Rightarrow> 't::linorder \<Rightarrow> ('t, 'd) store \<Rightarrow> nat" where
  "pending_signups_of email now db =
     length (filter (\<lambda>s. sg_registrant s = email \<and> now < sg_expires_at s
       \<and> (case find_tenant (sg_tenant s) db of Some r \<Rightarrow> tn_status r = Tenant_Pending | None \<Rightarrow> False)) (db_signups db))"

definition create_pending_tenant ::
  "('t::linorder, 'd::linorder) env \<Rightarrow> 'd pending_signup \<Rightarrow> ('t, 'd) moment \<Rightarrow> ('t, 'd) store
     \<Rightarrow> ('t pending_tenant outcome \<times> ('t, 'd) store) outcome" where
  "create_pending_tenant E signup at db =
     and_then (case validate_admin_end (env_calendar E) (m_today at) (ps_admin_end signup) of
           Inl e \<Rightarrow> Inl (E_Admin_End e) | Inr u \<Rightarrow> Inr u) (\<lambda>_.
     and_then (expire_due E at (Some (ps_school signup)) db) (\<lambda>(_, db).
     case live_tenant_for_school (ps_school signup) db of
       Some holder \<Rightarrow> record_collision E at (ps_school signup) holder db
     | None \<Rightarrow>
         and_then (require (pending_signups_of (email_str (ps_registrant signup)) (m_now at) db < max_pending_signups_per_address)
             E_Too_Many_Pending_Signups) (\<lambda>_.
         and_then (place_tenant E 2 signup db) (\<lambda>(placed, db).
         case placed of
           Inl holder \<Rightarrow> record_collision E at (ps_school signup) holder db
         | Inr t \<Rightarrow>
             let expires = pending_signup_expiry (env_calendar E) (m_now at)
             in and_then (insert_signup
                  \<lparr>sg_tenant = t, sg_registrant = email_str (ps_registrant signup), sg_leader = email_str (ps_leader signup),
                   sg_admin_end = ps_admin_end signup, sg_expires_at = expires\<rparr> db) (\<lambda>db.
                and_then (write_audit E at
                    \<lparr>ad_tenant = Some t, ad_actor_kind = Actor_Registrant, ad_actor_account = None, ad_actor_membership = None,
                     ad_action = lit ''tenant.signup_created'', ad_subject_type = lit ''tenant'', ad_subject_id = t,
                     ad_params = [(lit ''school_id'', P_Id (ps_school signup))]\<rparr> db) (\<lambda>db.
                  Inr (Inr \<lparr>pt_tenant = t, pt_expires_at = expires\<rparr>, db)))))))"

section \<open>Activation\<close>

record activation =
  ac_tenant :: uuid
  ac_registrant :: verified_email
  ac_profile :: member_profile

record 't activated =
  an_account :: uuid
  an_membership :: uuid
  an_role :: uuid
  an_assignment :: uuid
  an_leader_invitation :: "'t issued_invitation option"

text \<open>The leader gets an invitation to the same role, unless the leader is the registrant.\<close>

definition invite_leader ::
  "('t, 'd::linorder) env \<Rightarrow> ('t, 'd) moment \<Rightarrow> ('t, 'd) signup_row \<Rightarrow> uuid \<Rightarrow> uuid \<Rightarrow> 'd period \<Rightarrow> ('t, 'd) store
     \<Rightarrow> ('t issued_invitation option \<times> ('t, 'd) store) outcome" where
  "invite_leader E at s m role p db =
     (if sg_leader s = sg_registrant s then Inr (None, db)
      else case email_parse (env_ucd E) (sg_leader s) of
        Inl _ \<Rightarrow> Inl E_Database
      | Inr leader \<Rightarrow>
          and_then (insert_invitation E at
              \<lparr>ni_tenant = sg_tenant s, ni_mode = Activation, ni_recipient = leader, ni_issued_by = None, ni_grant = None,
               ni_request = None, ni_holder = None, ni_roles = [(role, p)], ni_actor_kind = Actor_Registrant,
               ni_actor = Some m, ni_id = None, ni_message = None\<rparr> db) (\<lambda>(issued, db). Inr (Some issued, db)))"

definition activate_tenant ::
  "('t::linorder, 'd::linorder) env \<Rightarrow> activation \<Rightarrow> ('t, 'd) moment \<Rightarrow> ('t, 'd) store
     \<Rightarrow> ('t activated \<times> ('t, 'd) store) outcome" where
  "activate_tenant E act at db =
     (let t = ac_tenant act
      in and_then (check_profile (ac_profile act)) (\<lambda>_.
     and_then (lock_tenant t db) (\<lambda>st.
     and_then (require (ts_status st = Tenant_Pending) E_Tenant_Not_Pending) (\<lambda>_.
     and_then (require (\<not> ts_frozen st) E_Tenant_Frozen) (\<lambda>_.
     and_then (ok_or E_Tenant_Not_Pending (List.find (\<lambda>s. sg_tenant s = t) (db_signups db))) (\<lambda>s.
     and_then (require (m_now at < sg_expires_at s) E_Signup_Expired) (\<lambda>_.
     and_then (require (sg_registrant s = email_str (verified_email (ac_registrant act))) E_Registrant_Mismatch) (\<lambda>_.
     and_then (case period_new (m_today at) (sg_admin_end s) of Inl _ \<Rightarrow> Inl E_Empty_Period | Inr p \<Rightarrow> Inr p) (\<lambda>p.
     and_then (activate_row t db) (\<lambda>db.
     and_then (upsert_verified_account E (sg_registrant s) at db) (\<lambda>((account, disabled), db).
     and_then (require (\<not> disabled) E_Account_Disabled) (\<lambda>_.
     and_then (ensure_membership E t account (mp_membership (ac_profile act)) at db) (\<lambda>((m, _, already_current), db).
     and_then (write_profile t (ac_profile act) already_current db) (\<lambda>db.
     let (role, db) = now_v7 E db
     in and_then (insert_role \<lparr>ro_tenant = t, ro_id = role, ro_name = bootstrap_admin_role_name, ro_class = Admin_Class,
          ro_unit = None, ro_cohort = None, ro_group = None\<rparr> db) (\<lambda>db.
     and_then (insert_assignment E t m role p None db) (\<lambda>(assignment, db).
     and_then (invite_leader E at s m role p db) (\<lambda>(leader, db).
     and_then (insert_recovery_contact t db) (\<lambda>db.
     and_then (write_audit E at
         \<lparr>ad_tenant = Some t, ad_actor_kind = Actor_Registrant, ad_actor_account = Some account, ad_actor_membership = Some m,
          ad_action = lit ''tenant.activated'', ad_subject_type = lit ''tenant'', ad_subject_id = t,
          ad_params = [(lit ''admin_assignment_id'', P_Id assignment), (lit ''leader_invited'', P_Flag (leader \<noteq> None))]\<rparr>
         (delete_signup t db)) (\<lambda>db.
     and_then (enqueue E at (Some t) ''tenant.activated'' ewb_oversight_address [(lit ''tenant_id'', P_Id t)] db) (\<lambda>db.
       Inr (\<lparr>an_account = account, an_membership = m, an_role = role, an_assignment = assignment,
             an_leader_invitation = leader\<rparr>, db)))))))))))))))))))))"

end
