(* ===== verification/Store_Roles.thy ===== *)
theory Store_Roles
  imports Store_Requests Store_Signup
begin

text \<open>
  \<open>persistence/src/membership/roles.rs\<close> and \<open>handover.rs\<close>: granting and revoking roles and
  memberships behind the last-admin safeguard, the handover sweep, and the recovery contact's grant.
\<close>

section \<open>Granting\<close>

record 'd grant_role_req =
  gr_tenant :: uuid
  gr_actor :: uuid
  gr_membership :: uuid
  gr_role :: role_choice
  gr_term :: "'d period"

definition grant_role ::
  "('t::linorder, 'd::linorder) env \<Rightarrow> 'd grant_role_req \<Rightarrow> ('t, 'd) moment \<Rightarrow> ('t, 'd) store
     \<Rightarrow> (uuid \<times> ('t, 'd) store) outcome" where
  "grant_role E req at db =
     and_then (lock_tenant (gr_tenant req) db) (\<lambda>st.
     and_then (require_open st) (\<lambda>_.
     and_then (require_admin (gr_tenant req) (gr_actor req) (m_today at) db) (\<lambda>_.
     and_then (require_addable (membership_and_account_state (gr_tenant req) (gr_membership req) db)) (\<lambda>_.
     and_then (resolve_roles E at (gr_tenant req) (Some (gr_actor req)) [\<lparr>or_role = gr_role req, or_period = gr_term req\<rparr>] db) (\<lambda>(resolved, db).
     let (role, c, p) = hd resolved
     in and_then (reopen_profile E (gr_tenant req) (gr_membership req) at db) (\<lambda>(_, db).
     and_then (insert_assignment E (gr_tenant req) (gr_membership req) role p (Some (gr_actor req)) db) (\<lambda>(i, db).
     and_then (write_audit E at (audit_member (gr_tenant req) (gr_actor req) ''role.granted'' ''role_assignment'' i
         [(lit ''membership_id'', P_Id (gr_membership req)), (lit ''role_id'', P_Id role),
          (lit ''capability_class'', P_Code (capability_class_code c)), (lit ''starts_on'', P_Date (starts_on p)),
          (lit ''ends_on_exclusive'', P_Date (ends_on_exclusive p))]) db) (\<lambda>db.
       Inr (i, db)))))))))"

section \<open>Revoking one role\<close>

definition revoke_assignments :: "(('t, 'd) assignment_row \<Rightarrow> bool) \<Rightarrow> 't \<Rightarrow> ('t, 'd) store \<Rightarrow> ('t, 'd) store" where
  "revoke_assignments p now db =
     db\<lparr>db_assignments := map (\<lambda>r. if p r then r\<lparr>ra_revoked_at := Some now\<rparr> else r) (db_assignments db)\<rparr>"

definition revoke_grants :: "(('t, 'd) handover_row \<Rightarrow> bool) \<Rightarrow> 't \<Rightarrow> ('t, 'd) store \<Rightarrow> ('t, 'd) store" where
  "revoke_grants p now db =
     db\<lparr>db_grants := map (\<lambda>g. if p g \<and> hg_revoked_at g = None then g\<lparr>hg_revoked_at := Some now\<rparr> else g) (db_grants db)\<rparr>"

record revoke_assignment_req =
  rv_tenant :: uuid
  rv_actor :: uuid
  rv_assignment :: uuid
  rv_confirm :: bool

definition revoke_role_assignment ::
  "('t, 'd::linorder) env \<Rightarrow> revoke_assignment_req \<Rightarrow> ('t, 'd) moment \<Rightarrow> ('t, 'd) store \<Rightarrow> ('t, 'd) store outcome" where
  "revoke_role_assignment E req at db =
     and_then (lock_tenant (rv_tenant req) db) (\<lambda>_.
     let admin = is_admin_today (rv_tenant req) (rv_actor req) (m_today at) db
     in and_then (ok_or (if admin then E_Unknown_Assignment else E_Not_Authorized)
         (opt_filter (\<lambda>ra. admin \<or> ra_membership ra = rv_actor req) (find_assignment (rv_tenant req) (rv_assignment req) db))) (\<lambda>ra.
     and_then (require (ra_revoked_at ra = None) E_Assignment_Already_Revoked) (\<lambda>_.
     and_then (check_last_admin (admin_state_load (rv_tenant req) db) (m_today at) (rv_confirm req)
         (\<lambda>i _. i = rv_assignment req)) (\<lambda>leaves_none.
     let db = revoke_assignments (\<lambda>r. ra_tenant r = rv_tenant req \<and> ra_id r = rv_assignment req) (m_now at) db;
         db = revoke_grants (\<lambda>g. hg_tenant g = rv_tenant req \<and> hg_source g = rv_assignment req) (m_now at) db;
         db = notify (rv_tenant req) (Access_Revoked (ra_membership ra)) db
     in write_audit E at (audit_member (rv_tenant req) (rv_actor req) ''role.revoked'' ''role_assignment'' (rv_assignment req)
          [(lit ''membership_id'', P_Id (ra_membership ra)), (lit ''left_no_admin'', P_Flag leaves_none)]) db))))"

section \<open>Revoking a membership\<close>

record revoke_membership_req =
  rm_tenant :: uuid
  rm_actor :: uuid
  rm_membership :: uuid
  rm_confirm :: bool

text \<open>An ended admin role whose handover window is still open.\<close>

definition window_open :: "('t, 'd::linorder) env \<Rightarrow> 'd \<Rightarrow> ('t, 'd) assignment_row \<Rightarrow> bool" where
  "window_open E today ra =
     (case handover_period (env_calendar E) (ends_on_exclusive (ra_period ra)) of
        Some w \<Rightarrow> \<not> has_ended_by w today
      | None \<Rightarrow> False)"

definition ended_admin_role :: "uuid \<Rightarrow> uuid \<Rightarrow> 'd::linorder \<Rightarrow> ('t, 'd) store \<Rightarrow> ('t, 'd) assignment_row \<Rightarrow> bool" where
  "ended_admin_role t m today db ra \<longleftrightarrow>
     held_by t m ra \<and> ra_revoked_at ra = None \<and> has_class db Admin_Class ra \<and> has_ended_by (ra_period ra) today"

definition revoke_ended_admin_roles_with_open_window ::
  "('t, 'd::linorder) env \<Rightarrow> uuid \<Rightarrow> uuid \<Rightarrow> ('t, 'd) moment \<Rightarrow> ('t, 'd) store \<Rightarrow> ('t, 'd) store" where
  "revoke_ended_admin_roles_with_open_window E t m at db =
     (let ended = filter (ended_admin_role t m (m_today at) db) (db_assignments db);
          still_open = map ra_id (filter (window_open E (m_today at)) ended)
      in revoke_assignments (\<lambda>r. ra_tenant r = t \<and> ra_id r \<in> set still_open) (m_now at) db)"

definition pending_request_of :: "uuid \<Rightarrow> uuid \<Rightarrow> ('t, 'd) store \<Rightarrow> ('t, 'd) request_row \<Rightarrow> bool" where
  "pending_request_of t m db rq \<longleftrightarrow>
     rq_tenant rq = t \<and> rq_status rq = Request_Pending
     \<and> (rq_requester rq = Some m
        \<or> (case member_account t m db of Some (_, a) \<Rightarrow> rq_requester_email rq = acc_email a | None \<Rightarrow> False))"

definition withdraw_pending_requests ::
  "('t, 'd::linorder) env \<Rightarrow> uuid \<Rightarrow> uuid \<Rightarrow> uuid \<Rightarrow> ('t, 'd) moment \<Rightarrow> ('t, 'd) store \<Rightarrow> ('t, 'd) store outcome" where
  "withdraw_pending_requests E t actor m at db =
     (let mine = pending_request_of t m db;
          ids = map rq_id (filter mine (db_requests db))
      in and_then (update_requests mine (\<lambda>rq. rq\<lparr>rq_status := Withdrawn, rq_closed_at := Some (m_now at)\<rparr>) db)
           (for_each (\<lambda>i. write_audit E at (audit_member t actor ''request.withdrawn'' ''access_request'' i
             [(lit ''cause'', P_Code (lit ''membership_revoked'')), (lit ''membership_id'', P_Id m)])) ids))"

text \<open>The update of the row itself, with the date its fields are kept until.\<close>

definition end_membership ::
  "uuid \<Rightarrow> uuid \<Rightarrow> 't \<Rightarrow> 'd option \<Rightarrow> ('t, 'd) store \<Rightarrow> ('t, 'd) store outcome" where
  "end_membership t m now keep =
     update_memberships (is_membership t m)
       (\<lambda>r. r\<lparr>mb_revoked_at := Some now, mb_retained_until := keep,
            mb_display_name := (if keep = None then None else mb_display_name r),
            mb_contact_email := (if keep = None then None else mb_contact_email r)\<rparr>)"

text \<open>\<open>update handover_grants g \<dots> from role_assignments ra\<close>.\<close>

definition grant_held_by :: "uuid \<Rightarrow> uuid \<Rightarrow> ('t, 'd) store \<Rightarrow> ('t, 'd) handover_row \<Rightarrow> bool" where
  "grant_held_by t m db g \<longleftrightarrow>
     hg_tenant g = t \<and> (case assignment_of_grant db g of Some ra \<Rightarrow> ra_membership ra = m | None \<Rightarrow> False)"

definition audit_profile_fate ::
  "('t, 'd) env \<Rightarrow> uuid \<Rightarrow> uuid \<Rightarrow> ('t, 'd) moment \<Rightarrow> bool \<Rightarrow> 'd option \<Rightarrow> 'd option \<Rightarrow> ('t, 'd) store \<Rightarrow> ('t, 'd) store outcome" where
  "audit_profile_fate E t m at filled stamped keep db =
     (case keep of
        Some until \<Rightarrow> if stamped = None then audit_profile_retained E t m at until db else Inr db
      | None \<Rightarrow>
          if filled then and_then (clearing_cause t m (stamped \<noteq> None) db) (\<lambda>cause. audit_profile_cleared E t m at cause db)
          else Inr db)"

definition revoke_membership ::
  "('t::linorder, 'd::linorder) env \<Rightarrow> revoke_membership_req \<Rightarrow> ('t, 'd) moment \<Rightarrow> ('t, 'd) store \<Rightarrow> ('t, 'd) store outcome" where
  "revoke_membership E req at db =
     (let t = rm_tenant req; m = rm_membership req; actor = rm_actor req; today = m_today at; leaving = (actor = m)
      in and_then (lock_tenant t db) (\<lambda>_.
     and_then (if leaving then Inr () else require_admin t actor today db) (\<lambda>_.
     and_then (ok_or E_Unknown_Membership (find_membership t m db)) (\<lambda>mb.
     and_then (require (mb_revoked_at mb = None) E_Membership_Revoked) (\<lambda>_.
     let filled = has_field mb;
         stamped = (if membership_ended today db mb then mb_retained_until mb else None)
     in and_then (check_last_admin (admin_state_load t db) today (rm_confirm req) (\<lambda>_ h. h = m)) (\<lambda>leaves_none.
     let db = revoke_assignments (\<lambda>r. held_by t m r \<and> ra_revoked_at r = None \<and> today < ends_on_exclusive (ra_period r)) (m_now at) db;
         db = revoke_ended_admin_roles_with_open_window E t m at db
     in and_then (if filled then effective_keep_until E t m stamped today db else Inr None) (\<lambda>keep.
     and_then (end_membership t m (m_now at) keep db) (\<lambda>db.
     and_then (audit_profile_fate E t m at filled stamped keep db) (\<lambda>db.
     and_then (withdraw_pending_requests E t actor m at (revoke_grants (grant_held_by t m db) (m_now at) db)) (\<lambda>db.
     and_then (remove_from_all_groups E t (Some actor) m ''membership_revoked'' at db) (\<lambda>db.
       write_audit E at (audit_member t actor (if leaving then ''membership.left'' else ''membership.revoked'') ''membership'' m
         [(lit ''left_no_admin'', P_Flag leaves_none)]) (notify t (Access_Revoked m) db))))))))))))"

section \<open>The handover sweep\<close>

definition grant_candidate :: "'d::linorder \<Rightarrow> ('t, 'd) store \<Rightarrow> ('t, 'd) assignment_row \<Rightarrow> bool" where
  "grant_candidate today db ra \<longleftrightarrow>
     has_class db Admin_Class ra \<and> ra_revoked_at ra = None \<and> has_ended_by (ra_period ra) today
     \<and> \<not> list_ex (\<lambda>g. hg_tenant g = ra_tenant ra \<and> hg_source g = ra_id ra) (db_grants db)"

definition insert_grant ::
  "('t, 'd::linorder) env \<Rightarrow> uuid \<Rightarrow> uuid \<Rightarrow> 'd period \<Rightarrow> ('t, 'd) store \<Rightarrow> (uuid option \<times> ('t, 'd) store) outcome" where
  "insert_grant E t source p db =
     (let (i, db) = now_v7 E db
      in if list_ex (\<lambda>g. hg_tenant g = t \<and> hg_source g = source) (db_grants db) then Inr (None, db)
         else and_then (insert_row (\<lambda>g. (hg_tenant g, hg_id g)) (find_assignment t source db \<noteq> None \<and> period_ok p)
                \<lparr>hg_tenant = t, hg_id = i, hg_source = source, hg_period = p, hg_revoked_at = None\<rparr> (db_grants db))
              (\<lambda>rows. Inr (Some i, db\<lparr>db_grants := rows\<rparr>)))"

fun grant_each ::
  "('t, 'd::linorder) env \<Rightarrow> uuid \<Rightarrow> ('t, 'd) moment \<Rightarrow> (uuid \<times> 'd) list \<Rightarrow> nat \<Rightarrow> ('t, 'd) store \<Rightarrow> (nat \<times> ('t, 'd) store) outcome" where
  "grant_each E t at [] n db = Inr (n, db)"
| "grant_each E t at ((source, ends) # cs) n db =
     (case handover_period (env_calendar E) ends of
        None \<Rightarrow> grant_each E t at cs n db
      | Some w \<Rightarrow>
          if has_ended_by w (m_today at) then grant_each E t at cs n db
          else and_then (insert_grant E t source w db) (\<lambda>(i, db).
            case i of
              None \<Rightarrow> grant_each E t at cs n db
            | Some g \<Rightarrow>
                and_then (write_audit E at (audit_system t ''handover.granted'' ''handover_grant'' g
                    [(lit ''source_assignment_id'', P_Id source), (lit ''ends_on_exclusive'', P_Date (ends_on_exclusive w))]) db)
                  (grant_each E t at cs (n + 1))))"

definition create_tenant_handover_grants ::
  "('t, 'd::linorder) env \<Rightarrow> ('t, 'd) moment \<Rightarrow> uuid \<Rightarrow> ('t, 'd) store \<Rightarrow> (nat \<times> ('t, 'd) store) outcome" where
  "create_tenant_handover_grants E at t db =
     and_then (lock_tenant t db) (\<lambda>st.
     if ts_status st \<noteq> Tenant_Active then Inr (0, db)
     else grant_each E t at
       (map (\<lambda>ra. (ra_id ra, ends_on_exclusive (ra_period ra)))
         (filter (\<lambda>ra. ra_tenant ra = t \<and> grant_candidate (m_today at) db ra \<and> membership_usable t (ra_membership ra) db)
           (db_assignments db))) 0 db)"

definition create_handover_grants ::
  "('t, 'd::linorder) env \<Rightarrow> ('t, 'd) moment \<Rightarrow> ('t, 'd) store \<Rightarrow> nat outcome \<times> ('t, 'd) store" where
  "create_handover_grants E at db =
     sweep_tenants (create_tenant_handover_grants E at)
       (remdups (map ra_tenant (filter (grant_candidate (m_today at) db) (db_assignments db)))) 0 db"

section \<open>The recovery contact\<close>

datatype recovery_actor = Ewb_Actor | School_Rep_Actor verified_email

record 'd recovery_grant_req =
  rr_tenant :: uuid
  rr_actor :: recovery_actor
  rr_recipient :: email
  rr_role :: role_choice
  rr_period :: "'d period"

definition seat_of_actor :: "recovery_actor \<Rightarrow> recovery_contact_row \<Rightarrow> (actor_kind \<times> str) option" where
  "seat_of_actor actor seat =
     (case (actor, rc_holder seat) of
        (Ewb_Actor, Ewb) \<Rightarrow> Some (Actor_Recovery_Ewb, ewb_oversight_address)
      | (School_Rep_Actor e, School_Rep) \<Rightarrow>
          if rc_nominee seat = Some (email_str (verified_email e))
          then Some (Actor_Recovery_School_Rep, email_str (verified_email e)) else None
      | _ \<Rightarrow> None)"

definition recovery_grant_admin ::
  "('t, 'd::linorder) env \<Rightarrow> 'd recovery_grant_req \<Rightarrow> ('t, 'd) moment \<Rightarrow> ('t, 'd) store
     \<Rightarrow> ('t issued_invitation \<times> ('t, 'd) store) outcome" where
  "recovery_grant_admin E req at db =
     (let t = rr_tenant req; today = m_today at
      in and_then (lock_tenant t db) (\<lambda>st.
     and_then (require_open st) (\<lambda>_.
     and_then (ok_or E_Not_Authorized (List.find (\<lambda>r. rc_tenant r = t) (db_recovery_contacts db))) (\<lambda>seat.
     and_then (ok_or E_Not_Authorized (seat_of_actor (rr_actor req) seat)) (\<lambda>(kind, own_address).
     and_then (require (\<not> is_new_role (rr_role req)) E_Not_Authorized) (\<lambda>_.
     and_then (require (email_str (rr_recipient req) \<noteq> own_address) E_Self_Invitation) (\<lambda>_.
     and_then (require (\<not> has_admin (admin_state_load t db) today) E_Not_In_No_Admin_State) (\<lambda>_.
     and_then (resolve_roles E at t None [\<lparr>or_role = rr_role req, or_period = rr_period req\<rparr>] db) (\<lambda>(resolved, db).
     let (role, c, p) = hd resolved
     in and_then (require (c = Admin_Class) E_Not_Admin_Role) (\<lambda>_.
     let recipients = recovery_notice_recipients E t today db
     in and_then (insert_invitation E at
         \<lparr>ni_tenant = t, ni_mode = Recovery, ni_recipient = rr_recipient req, ni_issued_by = None, ni_grant = None,
          ni_request = None, ni_holder = Some (rc_holder seat), ni_roles = [(role, p)], ni_actor_kind = kind,
          ni_actor = None, ni_id = None, ni_message = None\<rparr> db) (\<lambda>(issued, db).
     and_then (write_audit E at
         \<lparr>ad_tenant = Some t, ad_actor_kind = kind, ad_actor_account = None, ad_actor_membership = None,
          ad_action = lit ''recovery.admin_invited'', ad_subject_type = lit ''invitation'', ad_subject_id = is_invitation issued,
          ad_params = [(lit ''holder'', P_Code (recovery_holder_code (rc_holder seat))), (lit ''role_id'', P_Id role)]\<rparr> db) (\<lambda>db.
     and_then (for_each (\<lambda>e. enqueue E at (Some t) ''recovery.invitation_created'' e
         [(lit ''tenant_id'', P_Id t), (lit ''invitation_id'', P_Id (is_invitation issued))]) recipients db) (\<lambda>db.
       Inr (issued, db))))))))))))))"

end
