(* ===== verification/Store_Rules.thy ===== *)
theory Store_Rules
  imports Store_Roles
begin

text \<open>
  How facts about transactions are proved. \<open>on_ok P r\<close> says that \<open>P\<close> holds of what \<open>r\<close> returns when it
  commits; the rules \<open>wp\<close> walk through a transaction statement by statement. The locale \<open>statements\<close>
  is the contract of one tenant's statements with a predicate on stores: what every statement keeps,
  every transaction keeps.
\<close>

section \<open>Committed results\<close>

named_theorems wp \<open>rules that walk through a transaction\<close>

definition on_ok :: "('a \<Rightarrow> bool) \<Rightarrow> 'a outcome \<Rightarrow> bool" where
  "on_ok P r = (case r of Inl _ \<Rightarrow> True | Inr a \<Rightarrow> P a)"

lemma on_ok_simps [simp]: "on_ok P (Inl e)" "on_ok P (Inr a) \<longleftrightarrow> P a"
  by (simp_all add: on_ok_def)

lemma on_ok_D: "on_ok P r \<Longrightarrow> r = Inr a \<Longrightarrow> P a"
  by simp

lemma on_ok_I: "(\<And>a. r = Inr a \<Longrightarrow> P a) \<Longrightarrow> on_ok P r"
  by (cases r) simp_all

lemma on_ok_Inr [wp]: "P a \<Longrightarrow> on_ok P (Inr a)" and on_ok_Inl [wp]: "on_ok P (Inl e)"
  by simp_all

lemma on_ok_mono: "on_ok P r \<Longrightarrow> (\<And>a. P a \<Longrightarrow> Q a) \<Longrightarrow> on_ok Q r"
  by (cases r) simp_all

lemma on_ok_bind [wp]: "on_ok (\<lambda>a. on_ok P (f a)) r \<Longrightarrow> on_ok P (and_then r f)"
  by (cases r) simp_all

lemma on_ok_require [wp]: "(c \<Longrightarrow> P ()) \<Longrightarrow> on_ok P (require c e)"
  by (simp add: require_def)

lemma on_ok_ok_or [wp]: "(\<And>a. x = Some a \<Longrightarrow> P a) \<Longrightarrow> on_ok P (ok_or e x)"
  by (cases x) (simp_all add: ok_or_def)

lemma on_ok_permit [wp]: "(d = Inr () \<Longrightarrow> P ()) \<Longrightarrow> on_ok P (permit d e)"
  by (cases d) (simp_all add: permit_def)

lemma on_ok_if [wp]: "(c \<Longrightarrow> on_ok P x) \<Longrightarrow> (\<not> c \<Longrightarrow> on_ok P y) \<Longrightarrow> on_ok P (if c then x else y)"
  by simp

lemma on_ok_option [wp]:
  "(x = None \<Longrightarrow> on_ok P n) \<Longrightarrow> (\<And>a. x = Some a \<Longrightarrow> on_ok P (s a)) \<Longrightarrow>
     on_ok P (case x of None \<Rightarrow> n | Some a \<Rightarrow> s a)"
  by (cases x) simp_all

lemma on_ok_prod [wp]: "(\<And>a b. x = (a, b) \<Longrightarrow> on_ok P (f a b)) \<Longrightarrow> on_ok P (case x of (a, b) \<Rightarrow> f a b)"
  by (cases x) simp_all

lemma on_ok_sum [wp]:
  "(\<And>e. x = Inl e \<Longrightarrow> on_ok P (l e)) \<Longrightarrow> (\<And>a. x = Inr a \<Longrightarrow> on_ok P (s a)) \<Longrightarrow>
     on_ok P (case x of Inl e \<Rightarrow> l e | Inr a \<Rightarrow> s a)"
  by (cases x) simp_all

lemma on_ok_Let [wp]: "(\<And>x. x = v \<Longrightarrow> on_ok P (f x)) \<Longrightarrow> on_ok P (Let v f)"
  by simp

lemma on_ok_for_each:
  assumes "\<And>x s. x \<in> set xs \<Longrightarrow> I s \<Longrightarrow> on_ok I (f x s)" "I s" "\<And>s. I s \<Longrightarrow> P s"
  shows "on_ok P (for_each f xs s)"
  using assms
proof (induction xs arbitrary: s)
  case (Cons x xs)
  have "on_ok I (f x s)" using Cons.prems by simp
  then have "on_ok (\<lambda>s. on_ok P (for_each f xs s)) (f x s)"
    by (rule on_ok_mono) (rule Cons.IH, use Cons.prems in auto)
  then show ?case by (simp add: on_ok_bind)
qed simp

lemma on_ok_lock [wp]:
  "(\<And>r. find_tenant t db = Some r \<Longrightarrow> P \<lparr>ts_status = tn_status r, ts_frozen = (tn_frozen_at r \<noteq> None)\<rparr>) \<Longrightarrow>
     on_ok P (lock_tenant t db)"
  unfolding lock_tenant_def by (intro wp)

lemma on_ok_require_open [wp]:
  "(ts_status st = Tenant_Active \<Longrightarrow> \<not> ts_frozen st \<Longrightarrow> P ()) \<Longrightarrow> on_ok P (require_open st)"
  by (simp add: require_open_def)

lemma on_ok_require_admin [wp]:
  "(is_admin_today t m today db \<Longrightarrow> P ()) \<Longrightarrow> on_ok P (require_admin t m today db)"
  unfolding require_admin_def by (intro wp)

text \<open>A result that carries no store: whatever it is.\<close>

lemma on_ok_any: "(\<And>a. P a) \<Longrightarrow> on_ok P r"
  by (cases r) simp_all

text \<open>The parts of a transaction that only read.\<close>

lemma on_ok_manage [wp]:
  "(\<And>g. authorize \<lparr>vw_tenant = t, vw_membership = actor\<rparr> (Res_Group i) Manage at db = Inr ()
      \<Longrightarrow> find_group t i db = Some g \<Longrightarrow> P (grp_archived_at g \<noteq> None)) \<Longrightarrow> on_ok P (manage t actor i at db)"
  unfolding manage_def by (intro wp)

lemmas reads [wp] =
  on_ok_I [where r = "check_name ct" for ct]
  on_ok_I [where r = "bind_columns t b db" for t b db]
  on_ok_I [where r = "require_addable st" for st]
  on_ok_I [where r = "check_profile p" for p]
  on_ok_I [where r = "check_display_name ct" for ct]
  on_ok_I [where r = "check_contact_email ct" for ct]
  on_ok_I [where r = "account_retention t m db" for t m db]
  on_ok_I [where r = "ended_on_for E t m today db" for E t m today db]
  on_ok_I [where r = "effective_keep_until E t m stamped today db" for E t m stamped today db]
  on_ok_I [where r = "clearing_cause t m stamped db" for t m stamped db]
  on_ok_I [where r = "issuing_mode req at db" for req at db]
  on_ok_I [where r = "authorize_change ch row today kind db" for ch row today kind db]
  on_ok_I [where r = "acceptance_snapshot_of E t st row who at db" for E t st row who at db]
  on_ok_I [where r = "invitation_offer t i db" for t i db]
  on_ok_I [where r = "apply_override E md override today roles" for E md override today roles]
  on_ok_I [where r = "check_limits t e today db" for t e today db]
  on_ok_I [where r = "lock_pending_request t i db" for t i db]
  on_ok_I [where r = "check_last_admin st today confirm_no_admin removed" for st today confirm_no_admin removed]

text \<open>What an acceptance that passes its checks says of the invitation.\<close>

lemma snapshot_accepted:
  "acceptance_snapshot_of E t st r who at db = Inr s \<Longrightarrow>
     accepted s = (iv_accepted_at r \<noteq> None) \<and> revoked s = (iv_revoked_at r \<noteq> None)"
  by (auto simp: acceptance_snapshot_of_def Let_def split: sum.splits)

lemma accepted_pending:
  assumes "acceptance_snapshot_of E t st r who at db = Inr s" "check_acceptance s now = Inr u"
  shows "invitation_pending r"
  using snapshot_accepted [OF assms(1)] assms(2)
  by (auto simp: check_acceptance_def invitation_pending_def split: if_splits)

lemma case_error [simp]: "(case x of Inl e \<Rightarrow> Inl (f e) | Inr u \<Rightarrow> Inr u) = Inr v \<longleftrightarrow> x = Inr v"
  by (cases x) simp_all

lemma find_drawn [simp]:
  "find_membership t m (db\<lparr>db_drawn := n\<rparr>) = find_membership t m db" "find_role t i (db\<lparr>db_drawn := n\<rparr>) = find_role t i db"
  "find_assignment t i (db\<lparr>db_drawn := n\<rparr>) = find_assignment t i db" "find_group t i (db\<lparr>db_drawn := n\<rparr>) = find_group t i db"
  "find_invitation t i (db\<lparr>db_drawn := n\<rparr>) = find_invitation t i db"
  by (simp_all add: find_defs)

section \<open>The contract of a tenant's statements\<close>

text \<open>The statements that find a member a membership and settle a profile.\<close>

locale settling =
  fixes E :: "('t::linorder, 'd::linorder) env"
    and t :: uuid
    and I :: "('t, 'd) store \<Rightarrow> bool"
  assumes draw: "I db \<Longrightarrow> db_drawn db \<le> n \<Longrightarrow> I (db\<lparr>db_drawn := n\<rparr>)"
    and notice: "I db \<Longrightarrow> I (notify t c db)"
    and audit: "I db \<Longrightarrow> ad_tenant e = Some t \<Longrightarrow> on_ok I (write_audit E at e db)"
    and mail: "I db \<Longrightarrow> on_ok I (enqueue E at (Some t) template email params db)"
    and account: "I db \<Longrightarrow> on_ok (\<lambda>(_, db'). I db') (upsert_verified_account E email at db)"
    and group_members_ended: "I db \<Longrightarrow> (\<And>r. q'' r \<Longrightarrow> gm_tenant r = t) \<Longrightarrow> on_ok I (end_group_members q'' now db)"
    and membership: "I db \<Longrightarrow> on_ok I (insert_membership t m a db)"
    and membership_row: "I db \<Longrightarrow> (\<And>r. q3 r \<Longrightarrow> mb_tenant r = t)
        \<Longrightarrow> (\<And>r. mb_tenant (f r) = mb_tenant r \<and> mb_id (f r) = mb_id r \<and> mb_account (f r) = mb_account r)
        \<Longrightarrow> (\<And>r. mb_name_erased_at r \<noteq> None \<Longrightarrow> mb_name_erased_at (f r) \<noteq> None) \<Longrightarrow> on_ok I (update_memberships q3 f db)"
begin

lemmas keep = audit [THEN on_ok_mono] mail [THEN on_ok_mono] account [THEN on_ok_mono] group_members_ended [THEN on_ok_mono] membership [THEN on_ok_mono]
  membership_row [THEN on_ok_mono]

lemma drawn: "I db \<Longrightarrow> now_v7 E db = (i, db') \<Longrightarrow> I db'"
  using draw [of db "Suc (db_drawn db)"] by (auto simp: now_v7_def)

lemma announce:
  "I db \<Longrightarrow> (\<And>db'. I db' \<Longrightarrow> P db') \<Longrightarrow> on_ok P (announce_group E at t actor action g params db)"
  unfolding announce_group_def group_audit_def
  by (intro wp keep) (auto simp: audit_member_def intro: notice)

lemma remove_from_all_groups:
  assumes "I db"
  shows "on_ok I (remove_from_all_groups E t actor m cause at db)"
  unfolding remove_from_all_groups_def group_audit_def audit_member_def audit_system_def using assms
  by (auto intro!: wp keep on_ok_for_each [where I = I] notice split: option.split)

lemma set_display_name:
  assumes "I db" "sn_tenant req = t"
  shows "on_ok I (set_display_name E req at db)"
  unfolding set_display_name_def audit_member_def assms(2) using assms(1) by (auto intro!: wp keep announce simp: is_membership_def)

lemma set_contact_email:
  assumes "I db" "sc_tenant req = t"
  shows "on_ok I (set_contact_email E req at db)"
  unfolding set_contact_email_def audit_member_def assms(2) using assms(1) by (auto intro!: wp keep announce simp: is_membership_def)

lemma write_profile: "I db \<Longrightarrow> on_ok I (write_profile t p current db)"
  unfolding write_profile_def by (auto intro!: membership_row simp: is_membership_def)

lemma clear_profile: "I db \<Longrightarrow> on_ok I (clear_profile E t m at cause db)"
  unfolding clear_profile_def audit_profile_cleared_def audit_system_def
  by (auto intro!: wp keep simp: is_membership_def)

lemma settle_profile: "I db \<Longrightarrow> on_ok (\<lambda>(_, db'). I db') (settle_profile E t m at db)"
  unfolding settle_profile_def audit_profile_retained_def audit_system_def
  by (auto intro!: wp keep clear_profile [THEN on_ok_mono] simp: is_membership_def)

lemma settle_all: "I db \<Longrightarrow> on_ok (\<lambda>(_, db'). I db') (settle_all E t at is n db)"
  by (induction "is" arbitrary: n db) (auto intro!: wp settle_profile [THEN on_ok_mono])

lemma reopen_profile: "I db \<Longrightarrow> on_ok (\<lambda>(_, db'). I db') (reopen_profile E t m at db)"
  unfolding reopen_profile_def audit_system_def
  by (auto intro!: wp keep remove_from_all_groups [THEN on_ok_mono] settle_profile [THEN on_ok_mono] simp: is_membership_def)

lemma ensure_membership: "I db \<Longrightarrow> on_ok (\<lambda>(_, db'). I db') (ensure_membership E t account i at db)"
  unfolding ensure_membership_def by (auto intro!: wp keep reopen_profile [THEN on_ok_mono])

lemma clear_tenant_profiles: "I db \<Longrightarrow> on_ok (\<lambda>(_, db'). I db') (clear_tenant_profiles E at t db)"
  unfolding clear_tenant_profiles_def
  by (auto intro!: wp settle_all [THEN on_ok_mono] on_ok_for_each [where I = I] remove_from_all_groups)

lemma erase_tenant_names: "I db \<Longrightarrow> on_ok (\<lambda>(_, db'). I db') (erase_tenant_names E account at t (n, db))"
  unfolding erase_tenant_names_def audit_system_def by (auto intro!: wp keep on_ok_for_each [where I = I])

lemma restamp: "I db \<Longrightarrow> on_ok I (restamp E t months at x db)"
  unfolding restamp_def audit_member_def
  by (cases x) (auto intro!: wp keep clear_profile [THEN on_ok_mono] simp: is_membership_def)

end

text \<open>They leave the roles and their assignments as they are.\<close>

interpretation role_rows: settling E t "\<lambda>db. db_assignments db = assignments \<and> db_roles db = roles" for E t assignments roles
  by unfold_locales (auto intro!: on_ok_I simp: now_v7_def notify_def write_audit_def enqueue_def upsert_verified_account_def
    end_group_members_def insert_membership_def update_memberships_def split: option.splits)

locale seating = settling +
  assumes assignment: "I db \<Longrightarrow> on_ok (\<lambda>(_, db'). I db') (insert_assignment E t m role p by db)"
begin

lemma insert_assignments: "I db \<Longrightarrow> on_ok (\<lambda>(_, db'). I db') (insert_assignments E t m by roles db)"
proof (induction roles arbitrary: db)
  case (Cons r roles)
  then show ?case by (cases r) (auto intro!: wp assignment [THEN on_ok_mono] Cons.IH [THEN on_ok_mono])
qed simp

end

text \<open>Two contracts hold together; none of these statements touches an invitation.\<close>

lemma on_ok_both: "on_ok P r \<Longrightarrow> on_ok Q r \<Longrightarrow> on_ok (\<lambda>a. P a \<and> Q a) r"
  by (cases r) simp_all

lemma on_ok_both_pair:
  "on_ok (\<lambda>(_, db). P db) r \<Longrightarrow> on_ok (\<lambda>(_, db). Q db) r \<Longrightarrow> on_ok (\<lambda>(_, db). P db \<and> Q db) r"
  by (cases r) auto

lemma seating_conj:
  assumes "seating E t I" "seating E t J"
  shows "seating E t (\<lambda>db. I db \<and> J db)"
  by (unfold_locales; (rule on_ok_both on_ok_both_pair)?)
    (use assms in \<open>auto simp: seating_def settling_def seating_axioms_def\<close>)

interpretation invitation_rows: seating E t "\<lambda>db. db_invitations db = rows" for E t rows
  by unfold_locales (auto intro!: on_ok_I simp: now_v7_def notify_def write_audit_def enqueue_def upsert_verified_account_def
    insert_assignment_def end_group_members_def insert_membership_def update_memberships_def split: option.splits)

text \<open>A token drawn in a store that kept the predicate.\<close>

definition drawn_while ::
  "(('t, 'd) store \<Rightarrow> bool) \<Rightarrow> ('t, 'd) env \<Rightarrow> str \<Rightarrow> bool" where
  "drawn_while I E token \<longleftrightarrow> (\<exists>db db'. I db \<and> generate_token E db = Inr (token, db'))"

lemma drawn_whileI: "I db \<Longrightarrow> env_random E (db_drawn db) = Some bs \<Longrightarrow> drawn_while I E (token_text bs)"
  by (auto simp: drawn_while_def generate_token_def)

text \<open>The statements of every transaction but the creation of a request.\<close>

locale tenant_writes = seating +
  assumes revoked_assignments: "I db \<Longrightarrow> (\<And>r. q r \<Longrightarrow> ra_tenant r = t) \<Longrightarrow> I (revoke_assignments q now db)"
    and grant: "I db \<Longrightarrow> on_ok (\<lambda>(_, db'). I db') (insert_grant E t source p db)"
    and revoked_grants: "I db \<Longrightarrow> (\<And>g. q' g \<Longrightarrow> hg_tenant g = t) \<Longrightarrow> I (revoke_grants q' now db)"
    and group: "I db \<Longrightarrow> grp_tenant g = t \<Longrightarrow> on_ok I (insert_group g db)"
    and group_name: "I db \<Longrightarrow> on_ok I (update_group t i (\<lambda>g. g\<lparr>grp_name := name\<rparr>) db)"
    and group_visibility: "I db \<Longrightarrow> on_ok I (update_group t i (\<lambda>g. g\<lparr>grp_visibility := v\<rparr>) db)"
    and group_archived: "I db \<Longrightarrow> on_ok I (update_group t i (\<lambda>g. g\<lparr>grp_archived_at := Some now\<rparr>) db)"
    and group_member: "I db \<Longrightarrow> gm_tenant gm = t \<Longrightarrow> on_ok I (insert_group_member gm db)"
    and role: "I db \<Longrightarrow> ro_tenant r = t \<Longrightarrow> on_ok I (insert_role r db)"
    and invitation: "I db \<Longrightarrow> iv_tenant v' = t \<Longrightarrow> drawn_while I E token \<Longrightarrow> iv_token_hash v' = hash_token E token
        \<Longrightarrow> on_ok I (insert_invitation_row v' db)"
    and invitation_role: "I db \<Longrightarrow> on_ok I (insert_invitation_role t i rp db)"
    and invitation_token: "I db \<Longrightarrow> (\<And>r. find_invitation t i db = Some r \<Longrightarrow> invitation_pending r) \<Longrightarrow> drawn_while I E token
        \<Longrightarrow> on_ok I (update_invitation t i (\<lambda>q. q\<lparr>iv_token_hash := hash_token E token, iv_expires_at := x\<rparr>) db)"
    and invitation_revoked: "I db \<Longrightarrow> (\<And>r. find_invitation t i db = Some r \<Longrightarrow> invitation_pending r)
        \<Longrightarrow> on_ok I (update_invitation t i (\<lambda>q. q\<lparr>iv_revoked_at := Some now\<rparr>) db)"
    and invitation_accepted: "I db \<Longrightarrow> (\<And>r. find_invitation t i db = Some r \<Longrightarrow> invitation_pending r)
        \<Longrightarrow> on_ok I (update_invitation t i (\<lambda>q. q\<lparr>iv_accepted_at := Some now, iv_accepted_membership := Some m\<rparr>) db)"
    and requests_closed: "I db \<Longrightarrow> (\<And>r. q4 r \<Longrightarrow> rq_tenant r = t)
        \<Longrightarrow> (\<And>r. rq_tenant (f' r) = rq_tenant r \<and> rq_id (f' r) = rq_id r \<and> rq_requester_email (f' r) = rq_requester_email r \<and> rq_requester (f' r) = rq_requester r
              \<and> rq_replaced (f' r) = rq_replaced r
              \<and> rq_status (f' r) \<noteq> Request_Pending) \<Longrightarrow> on_ok I (update_requests q4 f' db)"
    and activated: "I db \<Longrightarrow> on_ok I (activate_row t db)"
    and signup_deleted: "I db \<Longrightarrow> I (delete_signup t db)"
    and seat: "I db \<Longrightarrow> on_ok I (insert_recovery_contact t db)"
begin

lemmas keeps = keep assignment [THEN on_ok_mono] grant [THEN on_ok_mono] group [THEN on_ok_mono] group_name [THEN on_ok_mono]
  group_visibility [THEN on_ok_mono] group_archived [THEN on_ok_mono] group_member [THEN on_ok_mono]
  role [THEN on_ok_mono] invitation [THEN on_ok_mono] invitation_role [THEN on_ok_mono]
  invitation_token [THEN on_ok_mono] invitation_revoked [THEN on_ok_mono] invitation_accepted [THEN
  on_ok_mono] requests_closed [THEN on_ok_mono] activated [THEN on_ok_mono] seat [THEN on_ok_mono]

lemma token_drawn:
  "I db \<Longrightarrow> (\<And>token n. I (db\<lparr>db_drawn := n\<rparr>) \<Longrightarrow> drawn_while I E token \<Longrightarrow> P (token, db\<lparr>db_drawn := n\<rparr>))
     \<Longrightarrow> on_ok P (generate_token E db)"
  using draw [of db "Suc (db_drawn db)"] drawn_whileI [of I db E]
  by (intro on_ok_I) (auto simp: generate_token_def split: option.splits)

lemma create_group:
  assumes "I db" "cg_tenant req = t"
  shows "on_ok (\<lambda>(_, db'). I db') (create_group E req at db)"
  unfolding create_group_def assms(2) using assms(1) by (auto intro!: wp keeps announce)

lemma rename_group:
  assumes "I db" "rg_tenant req = t"
  shows "on_ok I (rename_group E req at db)"
  unfolding rename_group_def assms(2) using assms(1) by (auto intro!: wp keeps announce)

lemma set_group_visibility:
  assumes "I db" "gv_tenant req = t"
  shows "on_ok I (set_group_visibility E req at db)"
  unfolding set_group_visibility_def assms(2) using assms(1) by (auto intro!: wp keeps announce)

lemma archive_group:
  assumes "I db" "ag_tenant req = t"
  shows "on_ok I (archive_group E req at db)"
  unfolding archive_group_def assms(2) using assms(1) by (auto intro!: wp keeps announce)

lemma add_group_member:
  assumes "I db" "gc_tenant req = t"
  shows "on_ok I (add_group_member E req at db)"
  unfolding add_group_member_def assms(2) using assms(1) by (auto intro!: wp keeps announce intro: drawn)

lemma remove_group_member:
  assumes "I db" "gc_tenant req = t"
  shows "on_ok I (remove_group_member E req at db)"
  unfolding remove_group_member_def group_audit_def audit_member_def assms(2) using assms(1) by (auto intro!: wp keeps announce notice)

lemma insert_invitation:
  assumes "I db" "ni_tenant ni = t"
  shows "on_ok (\<lambda>(_, db'). I db') (insert_invitation E at ni db)"
  unfolding insert_invitation_def assms(2) using assms(1)
  by (auto intro!: wp keeps token_drawn on_ok_for_each [where I = I] intro: drawn split: option.splits prod.splits)

lemma resolve_role: "I db \<Longrightarrow> on_ok (\<lambda>(_, db'). I db') (resolve_role E at t actor choice db)"
  unfolding resolve_role_def by (cases choice) (auto intro!: wp keeps intro: drawn)

lemma resolve_each: "I db \<Longrightarrow> on_ok (\<lambda>(_, db'). I db') (resolve_each E at t actor seen rs db)"
proof (induction rs arbitrary: seen db)
  case (Cons r rs)
  then show ?case by (auto intro!: wp resolve_role [THEN on_ok_mono] Cons.IH [THEN on_ok_mono])
qed simp

lemma resolve_roles: "I db \<Longrightarrow> on_ok (\<lambda>(_, db'). I db') (resolve_roles E at t actor rs db)"
  unfolding resolve_roles_def by (intro wp resolve_each)

lemma issue_invitation:
  assumes "I db" "ii_tenant req = t"
  shows "on_ok (\<lambda>(_, db'). I db') (issue_invitation E req at db)"
  unfolding issue_invitation_def assms(2) using assms(1) by (auto intro!: wp keeps announce insert_invitation resolve_roles [THEN on_ok_mono])

lemma resend_invitation:
  assumes "I db" "ic_tenant ch = t"
  shows "on_ok (\<lambda>(_, db'). I db') (resend_invitation E ch at db)"
  unfolding resend_invitation_def audit_member_def assms(2) using assms(1) by (auto intro!: wp keeps token_drawn simp: lock_invitation_def)

lemma withdraw_invitation:
  assumes "I db" "ic_tenant ch = t"
  shows "on_ok I (withdraw_invitation E ch at db)"
  unfolding withdraw_invitation_def audit_member_def assms(2) using assms(1) by (auto intro!: wp keeps simp: lock_invitation_def)

text \<open>What is written before the invitation is closed leaves the invitations as they are.\<close>

lemmas seats = seating_conj [OF seating_axioms invitation_rows.seating_axioms]

lemma seat_acceptor:
  assumes "I db" "iv_tenant row = t" "find_invitation t (iv_id row) db = Some row" "invitation_pending row"
  shows "on_ok (\<lambda>(_, db'). I db') (seat_acceptor E req at row roles es db)"
proof -
  define Q where "Q db' \<longleftrightarrow> I db' \<and> db_invitations db' = db_invitations db" for db'
  have Q: "seating E t Q" unfolding Q_def by (rule seats)
  note QS = seating.axioms(1) [OF Q]
  have start: "Q db" using assms(1) by (simp add: Q_def)
  have close: "on_ok I (update_invitation t (iv_id row) (\<lambda>q. q\<lparr>iv_accepted_at := Some now, iv_accepted_membership := Some m\<rparr>) db')"
    if "Q db'" for db' m now
    using that assms(3,4) by (intro invitation_accepted) (auto simp: Q_def find_invitation_def)
  show ?thesis
    unfolding seat_acceptor_def assms(2) Let_def
    by (intro wp settling.account [OF QS start, THEN on_ok_mono])
      (auto intro!: wp settling.ensure_membership [OF QS, THEN on_ok_mono] settling.write_profile [OF QS, THEN on_ok_mono]
        seating.insert_assignments [OF Q, THEN on_ok_mono] close [THEN on_ok_mono] audit [THEN on_ok_mono] mail
        on_ok_for_each [where I = I])
qed

lemma locked: "find_invitation t i db = Some r \<Longrightarrow> find_invitation t (iv_id r) db = Some r"
  by (frule find_invitation_Some) simp

lemma accept_invitation:
  assumes "I db" "\<And>row. invitation_by_hash (hash_token E (ai_token req)) db = Some row \<Longrightarrow> iv_tenant row = t"
  shows "on_ok (\<lambda>(_, db'). I db') (accept_invitation E req at db)"
  unfolding accept_invitation_def using assms
  by (auto intro!: wp seat_acceptor simp: lock_invitation_def dest: find_invitation_Some accepted_pending intro: locked)

lemma prepare_acceptance: "I db \<Longrightarrow> on_ok (\<lambda>(_, db'). I db') (prepare_acceptance E token who at db)"
  unfolding prepare_acceptance_def by (auto intro!: wp intro: drawn)

lemma grant_role:
  assumes "I db" "gr_tenant req = t"
  shows "on_ok (\<lambda>(_, db'). I db') (grant_role E req at db)"
  unfolding grant_role_def audit_member_def assms(2) using assms(1) by (auto intro!: wp keeps announce resolve_roles [THEN on_ok_mono] reopen_profile [THEN on_ok_mono] simp: split_beta)

lemma revoke_role_assignment:
  assumes "I db" "rv_tenant req = t"
  shows "on_ok I (revoke_role_assignment E req at db)"
  unfolding revoke_role_assignment_def audit_member_def assms(2) using assms(1) by (auto intro!: wp keeps announce notice revoked_grants revoked_assignments)

lemma revoke_ended_admin_roles:
  "I db \<Longrightarrow> I (revoke_ended_admin_roles_with_open_window E t m at db)"
  unfolding revoke_ended_admin_roles_with_open_window_def by (auto intro: revoked_assignments)

lemma withdraw_pending_requests: "I db \<Longrightarrow> on_ok I (withdraw_pending_requests E t actor m at db)"
  unfolding withdraw_pending_requests_def audit_member_def
  by (auto intro!: wp keeps on_ok_for_each [where I = I] simp: pending_request_of_def)

lemma end_membership: "I db \<Longrightarrow> on_ok I (end_membership t m now keep db)"
  unfolding end_membership_def by (auto intro!: membership_row simp: is_membership_def)

lemma audit_profile_fate: "I db \<Longrightarrow> on_ok I (audit_profile_fate E t m at b stamped keep db)"
  unfolding audit_profile_fate_def audit_profile_retained_def audit_profile_cleared_def audit_system_def
  by (auto intro!: wp keeps)

lemma revoke_membership:
  assumes "I db" "rm_tenant req = t"
  shows "on_ok I (revoke_membership E req at db)"
  unfolding revoke_membership_def audit_member_def assms(2) using assms(1) by (auto intro!: wp keeps announce notice revoked_grants revoked_assignments revoke_ended_admin_roles end_membership [THEN on_ok_mono] audit_profile_fate [THEN on_ok_mono] withdraw_pending_requests [THEN on_ok_mono] remove_from_all_groups [THEN on_ok_mono] simp: held_by_def grant_held_by_def)

lemma grant_each: "I db \<Longrightarrow> on_ok (\<lambda>(_, db'). I db') (grant_each E t at cs n db)"
proof (induction cs arbitrary: n db)
  case (Cons c cs)
  then show ?case by (cases c) (auto intro!: wp keeps Cons.IH [THEN on_ok_mono] simp: audit_system_def)
qed simp

lemma create_tenant_handover_grants: "I db \<Longrightarrow> on_ok (\<lambda>(_, db'). I db') (create_tenant_handover_grants E at t db)"
  unfolding create_tenant_handover_grants_def by (auto intro!: wp grant_each)

lemma recovery_grant_admin:
  assumes "I db" "rr_tenant req = t"
  shows "on_ok (\<lambda>(_, db'). I db') (recovery_grant_admin E req at db)"
  unfolding recovery_grant_admin_def assms(2) using assms(1) by (auto intro!: wp keeps announce resolve_roles [THEN on_ok_mono] insert_invitation [THEN on_ok_mono] on_ok_for_each [where I = I] simp: split_beta)

lemma notify_admins: "I db \<Longrightarrow> on_ok I (notify_admins E at t i kind db)"
  unfolding notify_admins_def by (auto intro!: keeps on_ok_for_each [where I = I])

lemma close_request:
  assumes "I db" "rd_tenant d = t" "status \<noteq> Request_Pending"
  shows "on_ok I (close_request E at d status db)"
  unfolding close_request_def assms(2) audit_member_def using assms(1,3) by (auto intro!: wp keeps)

lemma invite_leader:
  assumes "I db" "sg_tenant s = t"
  shows "on_ok (\<lambda>(_, db'). I db') (invite_leader E at s m role p db)"
  unfolding invite_leader_def assms(2) using assms(1) by (auto intro!: wp insert_invitation [THEN on_ok_mono])

lemma approve_request:
  assumes "I db" "rd_tenant d = t"
  shows "on_ok (\<lambda>(_, db'). I db') (approve_request E d offered at db)"
  unfolding approve_request_def assms(2) using assms(1) by (auto intro!: wp keeps announce resolve_roles [THEN on_ok_mono] insert_invitation [THEN on_ok_mono] close_request [THEN on_ok_mono] simp: assms(2))

lemma decline_request:
  assumes "I db" "rd_tenant d = t"
  shows "on_ok I (decline_request E d at db)"
  unfolding decline_request_def assms(2) using assms(1) by (auto intro!: wp keeps announce close_request [THEN on_ok_mono] simp: assms(2))

lemma activate_tenant:
  assumes "I db" "ac_tenant act = t"
  shows "on_ok (\<lambda>(_, db'). I db') (activate_tenant E act at db)"
  unfolding activate_tenant_def assms(2) using assms(1) by (auto intro!: wp keeps announce ensure_membership [THEN on_ok_mono] write_profile [THEN on_ok_mono] invite_leader [THEN on_ok_mono] signup_deleted intro: drawn simp: find_Some_iff)

end

locale statements = tenant_writes +
  assumes request: "I db \<Longrightarrow> rq_tenant rq = t \<Longrightarrow> on_ok I (insert_request_row rq db)"
begin

lemma insert_request:
  assumes "I db" "nr_tenant r = t"
  shows "on_ok (\<lambda>(_, db'). I db') (insert_request E at r db)"
  unfolding insert_request_def using assms by (auto intro!: wp keeps request [THEN on_ok_mono] intro: drawn split: option.splits prod.splits)

lemma create_access_request:
  assumes "I db" "ca_tenant req = t"
  shows "on_ok (\<lambda>(_, db'). I db') (create_access_request E req at db)"
  unfolding create_access_request_def assms(2) using assms(1) by (auto intro!: wp keeps request [THEN on_ok_mono] announce insert_request [THEN on_ok_mono] notify_admins [THEN on_ok_mono])

lemma create_replacement_proposal:
  assumes "I db" "cp_tenant req = t"
  shows "on_ok (\<lambda>(_, db'). I db') (create_replacement_proposal E req at db)"
  unfolding create_replacement_proposal_def audit_member_def assms(2) using assms(1) by (auto intro!: wp keeps request [THEN on_ok_mono] announce insert_request [THEN on_ok_mono] notify_admins [THEN on_ok_mono])

end

end
