(* ===== verification/Store_Isolation.thy ===== *)
theory Store_Isolation
  imports Store_Rules
begin

text \<open>
  The frame of a tenant's transactions: they leave every row, log entry and message of every other
  tenant as it was, and only add to the logs. \<open>within t db0\<close> is that frame as a predicate on stores;
  it interprets the contract \<open>statements\<close>.
\<close>

section \<open>What belongs to a tenant\<close>

definition tenant_slice :: "uuid \<Rightarrow> ('t, 'd) store \<Rightarrow> ('t, 'd) store" where
  "tenant_slice t db =
     \<lparr>db_tenants = filter (\<lambda>r. tn_id r = t) (db_tenants db),
      db_signups = filter (\<lambda>r. sg_tenant r = t) (db_signups db),
      db_accounts = [],
      db_memberships = filter (\<lambda>r. mb_tenant r = t) (db_memberships db),
      db_roles = filter (\<lambda>r. ro_tenant r = t) (db_roles db),
      db_assignments = filter (\<lambda>r. ra_tenant r = t) (db_assignments db),
      db_grants = filter (\<lambda>r. hg_tenant r = t) (db_grants db),
      db_invitations = filter (\<lambda>r. iv_tenant r = t) (db_invitations db),
      db_invitation_roles = filter (\<lambda>r. ir_tenant r = t) (db_invitation_roles db),
      db_groups = filter (\<lambda>r. grp_tenant r = t) (db_groups db),
      db_group_members = filter (\<lambda>r. gm_tenant r = t) (db_group_members db),
      db_recovery_contacts = filter (\<lambda>r. rc_tenant r = t) (db_recovery_contacts db),
      db_requests = filter (\<lambda>r. rq_tenant r = t) (db_requests db),
      db_units = filter (\<lambda>r. fst r = t) (db_units db),
      db_cohorts = filter (\<lambda>r. fst r = t) (db_cohorts db),
      db_audit = filter (\<lambda>r. ad_tenant (au_entry r) = Some t) (db_audit db),
      db_outbox = filter (\<lambda>r. ob_tenant r = Some t) (db_outbox db),
      db_notices = filter (\<lambda>n. fst n = t) (db_notices db),
      db_drawn = 0\<rparr>"

text \<open>Log entries are never changed or removed.\<close>

definition logs_grow :: "('t, 'd) store \<Rightarrow> ('t, 'd) store \<Rightarrow> bool" where
  "logs_grow db db' \<longleftrightarrow>
     prefix (db_audit db) (db_audit db') \<and> prefix (db_outbox db) (db_outbox db')
     \<and> prefix (db_notices db) (db_notices db') \<and> db_drawn db \<le> db_drawn db'"

definition within :: "uuid \<Rightarrow> ('t, 'd) store \<Rightarrow> ('t, 'd) store \<Rightarrow> bool" where
  "within t db0 db \<longleftrightarrow> (\<forall>s. s \<noteq> t \<longrightarrow> tenant_slice s db = tenant_slice s db0) \<and> logs_grow db0 db"

lemma within_refl [simp]: "within t db db"
  by (simp add: within_def logs_grow_def)

lemma logs_grow_trans: "logs_grow a b \<Longrightarrow> logs_grow b c \<Longrightarrow> logs_grow a c"
  by (auto simp: logs_grow_def intro: prefix_order.trans)

lemma within_trans: "within t a b \<Longrightarrow> within t b c \<Longrightarrow> within t a c"
  by (auto simp: within_def intro: logs_grow_trans)

text \<open>Rewriting the rows of a tenant leaves the rows of the others.\<close>

lemma filter_rewritten:
  "(\<And>r. p r \<Longrightarrow> \<not> q r) \<Longrightarrow> (\<And>r. p r \<Longrightarrow> \<not> q (f r)) \<Longrightarrow>
     filter q (map (\<lambda>r. if p r then f r else r) rows) = filter q rows"
  by (induction rows) auto

lemma within_I:
  assumes "within t db0 db" "logs_grow db db'" "\<And>s. s \<noteq> t \<Longrightarrow> tenant_slice s db' = tenant_slice s db"
  shows "within t db0 db'"
  using assms within_trans [of t db0 db db'] by (simp add: within_def)

lemma retention_follows_fields_keys [simp]:
  "mb_tenant (retention_follows_fields old new) = mb_tenant new"
  "mb_id (retention_follows_fields old new) = mb_id new"
  "mb_account (retention_follows_fields old new) = mb_account new"
  by (simp_all add: retention_follows_fields_def)

lemmas slices = tenant_slice_def logs_grow_def now_v7_def

lemma on_ok_within:
  assumes "within t db0 db"
    "\<And>db'. r = Inr db' \<Longrightarrow> logs_grow db db' \<and> (\<forall>s. s \<noteq> t \<longrightarrow> tenant_slice s db' = tenant_slice s db)"
  shows "on_ok (within t db0) r"
  by (rule on_ok_I, rule within_I [OF assms(1)]) (use assms(2) in auto)

lemma on_ok_within_pair:
  assumes "within t db0 db"
    "\<And>a db'. r = Inr (a, db') \<Longrightarrow> logs_grow db db' \<and> (\<forall>s. s \<noteq> t \<longrightarrow> tenant_slice s db' = tenant_slice s db)"
  shows "on_ok (\<lambda>(_, db'). within t db0 db') r"
  by (rule on_ok_I, clarify, rule within_I [OF assms(1)]) (use assms(2) in auto)

lemma within_draw:
  "within t db0 db \<Longrightarrow> db_drawn db \<le> n \<Longrightarrow> 
     within t db0 (db\<lparr>db_drawn := n\<rparr>)"
  by (erule within_I) (auto simp: slices )

lemma within_notice:
  "within t db0 db \<Longrightarrow> 
     within t db0 (notify t c db)"
  by (erule within_I) (auto simp: slices notify_def)

lemma within_audit:
  "within t db0 db \<Longrightarrow> ad_tenant e = Some t \<Longrightarrow> 
     on_ok (within t db0) (write_audit E at e db)"
  by (rule on_ok_within) (auto simp: slices write_audit_def)

lemma within_mail:
  "within t db0 db \<Longrightarrow> 
     on_ok (within t db0) (enqueue E at (Some t) template email params db)"
  by (rule on_ok_within) (auto simp: slices enqueue_def)

lemma within_account:
  "within t db0 db \<Longrightarrow> 
     on_ok (\<lambda>(_, db'). within t db0 db') (upsert_verified_account E email at db)"
  by (rule on_ok_within_pair) (auto simp: slices upsert_verified_account_def split: option.splits)

lemma within_assignment:
  "within t db0 db \<Longrightarrow> 
     on_ok (\<lambda>(_, db'). within t db0 db') (insert_assignment E t m role p by db)"
  by (rule on_ok_within_pair) (auto simp: slices insert_assignment_def)

lemma within_revoked_assignments:
  "within t db0 db \<Longrightarrow> (\<And>r. q r \<Longrightarrow> ra_tenant r = t) \<Longrightarrow> 
     within t db0 (revoke_assignments q now db)"
  by (erule within_I) (auto simp: slices revoke_assignments_def intro!: filter_rewritten)

lemma within_grant:
  "within t db0 db \<Longrightarrow> 
     on_ok (\<lambda>(_, db'). within t db0 db') (insert_grant E t source p db)"
  by (rule on_ok_within_pair) (auto simp: slices insert_grant_def split: if_splits)

lemma within_revoked_grants:
  "within t db0 db \<Longrightarrow> (\<And>g. q g \<Longrightarrow> hg_tenant g = t) \<Longrightarrow> 
     within t db0 (revoke_grants q now db)"
  by (erule within_I) (auto simp: slices revoke_grants_def intro!: filter_rewritten)

lemma within_group:
  "within t db0 db \<Longrightarrow> grp_tenant g = t \<Longrightarrow> 
     on_ok (within t db0) (insert_group g db)"
  by (rule on_ok_within) (auto simp: slices insert_group_def)

lemma within_group_name:
  "within t db0 db \<Longrightarrow> 
     on_ok (within t db0) (update_group t i (\<lambda>g. g\<lparr>grp_name := name\<rparr>) db)"
  by (rule on_ok_within) (auto simp: slices update_group_def intro!: filter_rewritten)

lemma within_group_visibility:
  "within t db0 db \<Longrightarrow> 
     on_ok (within t db0) (update_group t i (\<lambda>g. g\<lparr>grp_visibility := v\<rparr>) db)"
  by (rule on_ok_within) (auto simp: slices update_group_def intro!: filter_rewritten)

lemma within_group_archived:
  "within t db0 db \<Longrightarrow> 
     on_ok (within t db0) (update_group t i (\<lambda>g. g\<lparr>grp_archived_at := Some now\<rparr>) db)"
  by (rule on_ok_within) (auto simp: slices update_group_def intro!: filter_rewritten)

lemma within_group_member:
  "within t db0 db \<Longrightarrow> gm_tenant gm = t \<Longrightarrow> 
     on_ok (within t db0) (insert_group_member gm db)"
  by (rule on_ok_within) (auto simp: slices insert_group_member_def)

lemma within_group_members_ended:
  "within t db0 db \<Longrightarrow> (\<And>r. q r \<Longrightarrow> gm_tenant r = t) \<Longrightarrow> 
     on_ok (within t db0) (end_group_members q now db)"
  by (rule on_ok_within) (auto simp: slices end_group_members_def intro!: filter_rewritten)

lemma within_membership:
  "within t db0 db \<Longrightarrow> 
     on_ok (within t db0) (insert_membership t m a db)"
  by (rule on_ok_within) (auto simp: slices insert_membership_def)

lemma within_membership_row:
  "within t db0 db \<Longrightarrow> (\<And>r. q r \<Longrightarrow> mb_tenant r = t) \<Longrightarrow>
     (\<And>r. mb_tenant (f r) = mb_tenant r \<and> mb_id (f r) = mb_id r \<and> mb_account (f r) = mb_account r) \<Longrightarrow> 
     on_ok (within t db0) (update_memberships q f db)"
  by (rule on_ok_within) (auto simp: slices update_memberships_def intro!: filter_rewritten)

lemma within_role:
  "within t db0 db \<Longrightarrow> ro_tenant r = t \<Longrightarrow> 
     on_ok (within t db0) (insert_role r db)"
  by (rule on_ok_within) (auto simp: slices insert_role_def)

lemma within_invitation:
  "within t db0 db \<Longrightarrow> iv_tenant r = t \<Longrightarrow> 
     on_ok (within t db0) (insert_invitation_row r db)"
  by (rule on_ok_within) (auto simp: slices insert_invitation_row_def)

lemma within_invitation_role:
  "within t db0 db \<Longrightarrow> 
     on_ok (within t db0) (insert_invitation_role t i rp db)"
  by (rule on_ok_within) (auto simp: slices insert_invitation_role_def split: prod.splits)

lemma within_invitation_token:
  "within t db0 db \<Longrightarrow> 
     on_ok (within t db0) (update_invitation t i (\<lambda>q. q\<lparr>iv_token_hash := h, iv_expires_at := x\<rparr>) db)"
  by (rule on_ok_within) (auto simp: slices update_invitation_def is_invitation_row_def intro!: filter_rewritten)

lemma within_invitation_revoked:
  "within t db0 db \<Longrightarrow> 
     on_ok (within t db0) (update_invitation t i (\<lambda>q. q\<lparr>iv_revoked_at := Some now\<rparr>) db)"
  by (rule on_ok_within) (auto simp: slices update_invitation_def is_invitation_row_def intro!: filter_rewritten)

lemma within_invitation_accepted:
  "within t db0 db \<Longrightarrow> 
     on_ok (within t db0) (update_invitation t i (\<lambda>q. q\<lparr>iv_accepted_at := Some now, iv_accepted_membership := Some m\<rparr>) db)"
  by (rule on_ok_within) (auto simp: slices update_invitation_def is_invitation_row_def intro!: filter_rewritten)

lemma within_request: "within t db0 db \<Longrightarrow> rq_tenant r = t \<Longrightarrow> on_ok (within t db0) (insert_request_row r db)"
  by (rule on_ok_within) (auto simp: slices insert_request_row_def)

lemma within_requests_closed:
  "within t db0 db \<Longrightarrow> (\<And>r. q r \<Longrightarrow> rq_tenant r = t) \<Longrightarrow>
     (\<And>r. rq_tenant (f r) = rq_tenant r \<and> rq_id (f r) = rq_id r \<and> rq_requester_email (f r) = rq_requester_email r \<and> rq_requester (f r) = rq_requester r
          \<and> rq_replaced (f r) = rq_replaced r
        \<and> rq_status (f r) \<noteq> Request_Pending) \<Longrightarrow> on_ok (within t db0) (update_requests q f db)"
  by (rule on_ok_within) (auto simp: slices update_requests_def intro!: filter_rewritten)

lemma within_activated: "within t db0 db \<Longrightarrow> on_ok (within t db0) (activate_row t db)"
  by (rule on_ok_within) (auto simp: slices activate_row_def Let_def intro!: filter_rewritten split: if_splits)

lemma within_signup_deleted: "within t db0 db \<Longrightarrow> within t db0 (delete_signup t db)"
  by (erule within_I) (auto simp: slices delete_signup_def intro!: filter_cong)

lemma within_seat: "within t db0 db \<Longrightarrow> on_ok (within t db0) (insert_recovery_contact t db)"
  by (rule on_ok_within) (auto simp: slices insert_recovery_contact_def)

interpretation tenant_frame: statements E t "within t db0" for E t db0
  by unfold_locales
    (fact within_draw
      | fact within_notice
      | fact within_audit
      | fact within_mail
      | fact within_account
      | fact within_assignment
      | fact within_revoked_assignments
      | fact within_grant
      | fact within_revoked_grants
      | fact within_group
      | fact within_group_name
      | fact within_group_visibility
      | fact within_group_archived
      | fact within_group_member
      | fact within_group_members_ended
      | fact within_membership
      | (rule within_membership_row, assumption+)
      | fact within_role
      | (rule within_invitation, assumption+)
      | fact within_invitation_role
      | (rule within_invitation_token, assumption)
      | (rule within_invitation_revoked, assumption)
      | (rule within_invitation_accepted, assumption)
      | fact within_request
      | fact within_requests_closed
      | fact within_activated
      | fact within_signup_deleted
      | fact within_seat)+

end
