(* ===== verification/Store_Steps.thy ===== *)
theory Store_Steps
  imports Store_Isolation
begin

text \<open>
  The transactions of a tenant as a step relation between stores, and the runs they make up. A
  predicate that keeps the contract \<open>statements\<close> is kept by every step.
\<close>

section \<open>Steps\<close>

text \<open>\<open>tenant_step E t at db db'\<close>: a transaction of tenant \<open>t\<close> at the moment \<open>at\<close> turns \<open>db\<close> into \<open>db'\<close>
  and commits. An acceptance belongs to the tenant of the invitation its token names.\<close>

inductive tenant_step ::
  "('t::linorder, 'd::linorder) env \<Rightarrow> uuid \<Rightarrow> ('t, 'd) moment \<Rightarrow> ('t, 'd) store \<Rightarrow> ('t, 'd) store \<Rightarrow> bool"
  for E t at where
  created_group: "cg_tenant req = t \<Longrightarrow> create_group E req at db = Inr (out, db') \<Longrightarrow> tenant_step E t at db db'"
| renamed_group: "rg_tenant req = t \<Longrightarrow> rename_group E req at db = Inr db' \<Longrightarrow> tenant_step E t at db db'"
| changed_visibility: "gv_tenant req = t \<Longrightarrow> set_group_visibility E req at db = Inr db' \<Longrightarrow> tenant_step E t at db db'"
| archived_group: "ag_tenant req = t \<Longrightarrow> archive_group E req at db = Inr db' \<Longrightarrow> tenant_step E t at db db'"
| added_member: "gc_tenant req = t \<Longrightarrow> add_group_member E req at db = Inr db' \<Longrightarrow> tenant_step E t at db db'"
| removed_member: "gc_tenant req = t \<Longrightarrow> remove_group_member E req at db = Inr db' \<Longrightarrow> tenant_step E t at db db'"
| changed_name: "sn_tenant req = t \<Longrightarrow> set_display_name E req at db = Inr db' \<Longrightarrow> tenant_step E t at db db'"
| changed_address: "sc_tenant req = t \<Longrightarrow> set_contact_email E req at db = Inr db' \<Longrightarrow> tenant_step E t at db db'"
| swept_profiles: "clear_tenant_profiles E at t db = Inr (out, db') \<Longrightarrow> tenant_step E t at db db'"
| issued: "ii_tenant req = t \<Longrightarrow> issue_invitation E req at db = Inr (out, db') \<Longrightarrow> tenant_step E t at db db'"
| resent: "ic_tenant req = t \<Longrightarrow> resend_invitation E req at db = Inr (out, db') \<Longrightarrow> tenant_step E t at db db'"
| withdrawn: "ic_tenant req = t \<Longrightarrow> withdraw_invitation E req at db = Inr db' \<Longrightarrow> tenant_step E t at db db'"
| accepted_invitation: "invitation_by_hash (hash_token E (ai_token req)) db = Some row \<Longrightarrow> iv_tenant row = t \<Longrightarrow> accept_invitation E req at db = Inr (out, db') \<Longrightarrow> tenant_step E t at db db'"
| granted_role: "gr_tenant req = t \<Longrightarrow> grant_role E req at db = Inr (out, db') \<Longrightarrow> tenant_step E t at db db'"
| revoked_role: "rv_tenant req = t \<Longrightarrow> revoke_role_assignment E req at db = Inr db' \<Longrightarrow> tenant_step E t at db db'"
| revoked_membership: "rm_tenant req = t \<Longrightarrow> revoke_membership E req at db = Inr db' \<Longrightarrow> tenant_step E t at db db'"
| swept_handover: "create_tenant_handover_grants E at t db = Inr (out, db') \<Longrightarrow> tenant_step E t at db db'"
| recovered: "rr_tenant req = t \<Longrightarrow> recovery_grant_admin E req at db = Inr (out, db') \<Longrightarrow> tenant_step E t at db db'"
| requested: "ca_tenant req = t \<Longrightarrow> create_access_request E req at db = Inr (out, db') \<Longrightarrow> tenant_step E t at db db'"
| proposed: "cp_tenant req = t \<Longrightarrow> create_replacement_proposal E req at db = Inr (out, db') \<Longrightarrow> tenant_step E t at db db'"
| approved_request: "rd_tenant req = t \<Longrightarrow> approve_request E req offered at db = Inr (out, db') \<Longrightarrow> tenant_step E t at db db'"
| declined_request: "rd_tenant req = t \<Longrightarrow> decline_request E req at db = Inr db' \<Longrightarrow> tenant_step E t at db db'"
| activated_tenant: "ac_tenant req = t \<Longrightarrow> activate_tenant E req at db = Inr (out, db') \<Longrightarrow> tenant_step E t at db db'"

text \<open>The facts below hold under the contract; they are reached through its interpretations.\<close>

context statements
begin

lemma committed: "r = Inr a \<Longrightarrow> on_ok P r \<Longrightarrow> P a"
  by simp

lemmas commits = committed [OF _ create_group]
  committed [OF _ rename_group]
  committed [OF _ set_group_visibility]
  committed [OF _ archive_group]
  committed [OF _ add_group_member]
  committed [OF _ remove_group_member]
  committed [OF _ set_display_name]
  committed [OF _ set_contact_email]
  committed [OF _ clear_tenant_profiles]
  committed [OF _ issue_invitation]
  committed [OF _ resend_invitation]
  committed [OF _ withdraw_invitation]
  committed [OF _ accept_invitation]
  committed [OF _ grant_role]
  committed [OF _ revoke_role_assignment]
  committed [OF _ revoke_membership]
  committed [OF _ create_tenant_handover_grants]
  committed [OF _ recovery_grant_admin]
  committed [OF _ create_access_request]
  committed [OF _ create_replacement_proposal]
  committed [OF _ approve_request]
  committed [OF _ decline_request]
  committed [OF _ activate_tenant]

lemma step_keeps: "tenant_step E t at db db' \<Longrightarrow> I db \<Longrightarrow> I db'"
  by (induction rule: tenant_step.induct) (drule commits; simp; fail)+

end

section \<open>Transactions of the whole store\<close>

text \<open>Signup, its expiry, the lapse of requests, and what an account changes in all its tenants. The sweeps
  \<open>clear_ended_profiles\<close> and \<open>create_handover_grants\<close> are sequences of steps of tenants.\<close>

inductive store_step :: "('t::linorder, 'd::linorder) env \<Rightarrow> ('t, 'd) store \<Rightarrow> ('t, 'd) store \<Rightarrow> bool" for E where
  of_tenant: "tenant_step E t at db db' \<Longrightarrow> store_step E db db'"
| signed_up: "create_pending_tenant E signup at db = Inr (out, db') \<Longrightarrow> store_step E db db'"
| expired_signups: "expire_pending_tenants E at db = Inr (n, db') \<Longrightarrow> store_step E db db'"
| lapsed_requests: "lapse_requests E at db = Inr (n, db') \<Longrightarrow> store_step E db db'"
| changed_retention: "set_retention_months E account months at db = Inr db' \<Longrightarrow> store_step E db db'"
| erased_names: "erase_member_names E account at db = Inr (n, db') \<Longrightarrow> store_step E db db'"

definition store_run :: "('t::linorder, 'd::linorder) env \<Rightarrow> ('t, 'd) store \<Rightarrow> ('t, 'd) store \<Rightarrow> bool" where
  "store_run E = (store_step E)\<^sup>*\<^sup>*"

locale store_statements =
  fixes E :: "('t::linorder, 'd::linorder) env"
    and I :: "('t, 'd) store \<Rightarrow> bool"
  assumes each_tenant: "statements E t I"
    and global_audit: "I db \<Longrightarrow> on_ok I (write_audit E at e db)"
    and global_mail: "I db \<Longrightarrow> on_ok I (enqueue E at t' template email params db)"
    and placed: "I db \<Longrightarrow> on_ok (\<lambda>(_, db'). I db') (try_insert_tenant t signup db)"
    and signup_kept: "I db \<Longrightarrow> on_ok I (insert_signup s db)"
    and signups_expired: "I db \<Longrightarrow> gone = map tn_id (filter due (db_tenants db)) \<Longrightarrow> \<not> list_ex (tenant_in_use db) gone
        \<Longrightarrow> (\<And>r. due r \<Longrightarrow> tn_status r = Tenant_Pending)
        \<Longrightarrow> I (db\<lparr>db_tenants := filter (\<lambda>r. \<not> due r) (db_tenants db), db_signups := filter (\<lambda>s. sg_tenant s \<notin> set gone) (db_signups db)\<rparr>)"
    and requests_lapsed: "I db \<Longrightarrow> (\<And>r. rq_tenant (f r) = rq_tenant r \<and> rq_id (f r) = rq_id r \<and> rq_requester_email (f r) = rq_requester_email r \<and> rq_requester (f r) = rq_requester r
          \<and> rq_replaced (f r) = rq_replaced r
          \<and> rq_status (f r) \<noteq> Request_Pending) \<Longrightarrow> on_ok I (update_requests q f db)"
    and retention_chosen: "I db \<Longrightarrow> I (db\<lparr>db_accounts :=
          map (\<lambda>a. if acc_id a = account then a\<lparr>acc_retention := months\<rparr> else a) (db_accounts db)\<rparr>)"
begin

lemmas each_writes = each_tenant [THEN statements.axioms(1)]
lemmas each_seat = each_writes [THEN tenant_writes.axioms(1), THEN seating.axioms(1)]
lemmas each_keeps = global_audit [THEN on_ok_mono] global_mail [THEN on_ok_mono] placed [THEN on_ok_mono]
  signup_kept [THEN on_ok_mono] requests_lapsed [THEN on_ok_mono]

lemma expire_due: "I db \<Longrightarrow> on_ok (\<lambda>(_, db'). I db') (expire_due E at school db)"
  unfolding expire_due_def Let_def
  by (intro wp on_ok_for_each [where I = I] global_audit signups_expired [OF _ refl]) (auto simp: signup_due_def)

lemma lapse_requests: "I db \<Longrightarrow> on_ok (\<lambda>(_, db'). I db') (lapse_requests E at db)"
  unfolding lapse_requests_def by (auto intro!: wp each_keeps on_ok_for_each [where I = I])

lemma record_collision: "I db \<Longrightarrow> on_ok (\<lambda>(_, db'). I db') (record_collision E at school x db)"
  unfolding record_collision_def by (cases x) (auto intro!: wp each_keeps)

lemma place_tenant: "I db \<Longrightarrow> on_ok (\<lambda>(_, db'). I db') (place_tenant E n signup db)"
proof (induction n arbitrary: db)
  case (Suc n)
  obtain i db1 where drawn: "now_v7 E db = (i, db1)" by (cases "now_v7 E db")
  then have "I db1" using settling.drawn [OF each_seat Suc.prems] by blast
  with drawn show ?case by (auto intro!: wp placed [THEN on_ok_mono] Suc.IH)
qed simp

lemma create_pending_tenant: "I db \<Longrightarrow> on_ok (\<lambda>(_, db'). I db') (create_pending_tenant E signup at db)"
  unfolding create_pending_tenant_def
  by (auto intro!: wp expire_due [THEN on_ok_mono] record_collision place_tenant [THEN on_ok_mono] each_keeps)

lemma set_retention_months: "I db \<Longrightarrow> on_ok I (set_retention_months E account months at db)"
  unfolding set_retention_months_def
  by (auto intro!: wp on_ok_for_each [where I = I] settling.settle_all [OF each_seat, THEN on_ok_mono]
      settling.restamp [OF each_seat] retention_chosen)

lemma erase_member_names: "I db \<Longrightarrow> on_ok (\<lambda>(_, db'). I db') (erase_member_names E account at db)"
  unfolding erase_member_names_def
  by (rule on_ok_for_each [where I = "\<lambda>(_, db'). I db'"])
    (auto intro!: settling.erase_tenant_names [OF each_seat] split: prod.splits)

lemma store_step_keeps: "store_step E db db' \<Longrightarrow> I db \<Longrightarrow> I db'"
proof (induction rule: store_step.induct)
  case (of_tenant t at db db')
  then show ?case by (rule statements.step_keeps [OF each_tenant])
next
  case (signed_up signup at db out db')
  then show ?case using create_pending_tenant [of db signup at] by simp
next
  case (expired_signups at db n db')
  then show ?case using expire_due [of db at None] by (simp add: expire_pending_tenants_def)
next
  case (lapsed_requests at db n db')
  then show ?case using lapse_requests [of db at] by simp
next
  case (changed_retention account months at db db')
  then show ?case using set_retention_months [of db account months at] by simp
next
  case (erased_names account at db n db')
  then show ?case using erase_member_names [of db account at] by simp
qed

lemma run_keeps: "store_run E db db' \<Longrightarrow> I db \<Longrightarrow> I db'"
  unfolding store_run_def by (induction rule: rtranclp_induct) (auto intro: store_step_keeps)

end

end
