(* ===== verification/Store_Invariant.thy ===== *)
theory Store_Invariant
  imports Store_Steps
begin

text \<open>
  The integrity of the store, first part: keys are unique, the references that other proofs lean on resolve, and
  every row meets its table's checks. \<open>tables_ok\<close> interprets the contract \<open>statements\<close> for every tenant, so
  every transaction keeps it. The rest of the references is in \<open>Store_References\<close>.
\<close>

section \<open>Keys\<close>

definition membership_keys :: "('t, 'd) store \<Rightarrow> (uuid \<times> uuid) list" where
  "membership_keys db = map (\<lambda>r. (mb_tenant r, mb_id r)) (db_memberships db)"

definition holder_keys :: "('t, 'd) store \<Rightarrow> (uuid \<times> uuid) list" where
  "holder_keys db = map (\<lambda>r. (mb_tenant r, mb_account r)) (db_memberships db)"

definition role_keys :: "('t, 'd) store \<Rightarrow> (uuid \<times> uuid) list" where
  "role_keys db = map (\<lambda>r. (ro_tenant r, ro_id r)) (db_roles db)"

definition assignment_keys :: "('t, 'd) store \<Rightarrow> (uuid \<times> uuid) list" where
  "assignment_keys db = map (\<lambda>r. (ra_tenant r, ra_id r)) (db_assignments db)"

definition source_keys :: "('t, 'd) store \<Rightarrow> (uuid \<times> uuid) list" where
  "source_keys db = map (\<lambda>g. (hg_tenant g, hg_source g)) (db_grants db)"

definition group_keys :: "('t, 'd) store \<Rightarrow> (uuid \<times> uuid) list" where
  "group_keys db = map (\<lambda>g. (grp_tenant g, grp_id g)) (db_groups db)"

definition group_member_keys :: "('t, 'd) store \<Rightarrow> (uuid \<times> uuid) list" where
  "group_member_keys db = map (\<lambda>r. (gm_tenant r, gm_id r)) (db_group_members db)"

definition invitation_keys :: "('t, 'd) store \<Rightarrow> (uuid \<times> uuid) list" where
  "invitation_keys db = map (\<lambda>r. (iv_tenant r, iv_id r)) (db_invitations db)"

definition request_keys :: "('t, 'd) store \<Rightarrow> (uuid \<times> uuid) list" where
  "request_keys db = map (\<lambda>r. (rq_tenant r, rq_id r)) (db_requests db)"

lemmas key_defs = membership_keys_def holder_keys_def role_keys_def assignment_keys_def source_keys_def
  group_keys_def group_member_keys_def invitation_keys_def request_keys_def

definition core_keys :: "('t, 'd) store \<Rightarrow> bool" where
  "core_keys db \<longleftrightarrow>
     distinct (map tn_id (db_tenants db)) \<and> distinct (map acc_id (db_accounts db)) \<and> distinct (map acc_email (db_accounts db))
     \<and> distinct (membership_keys db) \<and> distinct (holder_keys db) \<and> distinct (role_keys db)
     \<and> distinct (assignment_keys db) \<and> distinct (source_keys db) \<and> distinct (group_keys db)
     \<and> distinct (group_member_keys db) \<and> distinct (invitation_keys db)
     \<and> distinct (map iv_token_hash (db_invitations db)) \<and> distinct (request_keys db)"

definition core_references :: "('t, 'd) store \<Rightarrow> bool" where
  "core_references db \<longleftrightarrow>
     (\<forall>m\<in>set (db_memberships db). mb_account m \<in> acc_id ` set (db_accounts db))
     \<and> (\<forall>ra\<in>set (db_assignments db). (ra_tenant ra, ra_membership ra) \<in> set (membership_keys db)
          \<and> (ra_tenant ra, ra_role ra) \<in> set (role_keys db))
     \<and> set (source_keys db) \<subseteq> set (assignment_keys db)
     \<and> (\<forall>gm\<in>set (db_group_members db). (gm_tenant gm, gm_membership gm) \<in> set (membership_keys db)
          \<and> (gm_tenant gm, gm_group gm) \<in> set (group_keys db))
     \<and> (\<forall>r\<in>set (db_roles db). \<forall>g. ro_group r = Some g \<longrightarrow> (ro_tenant r, g) \<in> set (group_keys db))"

definition role_row_ok :: "role_row \<Rightarrow> bool" where
  "role_row_ok r \<longleftrightarrow>
     (ro_class r = Guest_Class \<longleftrightarrow> ro_group r \<noteq> None) \<and> (ro_class r = Guest_Class \<longrightarrow> ro_unit r = None \<and> ro_cohort r = None)"

definition row_checks :: "('t::linorder, 'd::linorder) store \<Rightarrow> bool" where
  "row_checks db \<longleftrightarrow>
     list_all (\<lambda>ra. period_ok (ra_period ra)) (db_assignments db) \<and> list_all (\<lambda>g. period_ok (hg_period g)) (db_grants db)
     \<and> list_all membership_row_ok (db_memberships db) \<and> list_all role_row_ok (db_roles db)
     \<and> list_all invitation_row_ok (db_invitations db) \<and> list_all request_row_ok (db_requests db)
     \<and> list_all (\<lambda>g. envelope_ok (grp_name g) \<and> (grp_unit g = None \<or> grp_cohort g = None)) (db_groups db)"

text \<open>The three partial unique indexes on state.\<close>

definition one_live_tenant :: "('t, 'd) store \<Rightarrow> bool" where
  "one_live_tenant db \<longleftrightarrow> (\<forall>s. length (filter (live_at_school s) (db_tenants db)) \<le> 1)"

definition one_open_request :: "('t, 'd) store \<Rightarrow> bool" where
  "one_open_request db \<longleftrightarrow> (\<forall>t e. length (filter (open_from t e) (db_requests db)) \<le> 1)"

definition one_current_member :: "('t, 'd) store \<Rightarrow> bool" where
  "one_current_member db \<longleftrightarrow> (\<forall>t g m. length (filter (added_by_hand t g m) (db_group_members db)) \<le> 1)"

definition tables_ok :: "('t::linorder, 'd::linorder) store \<Rightarrow> bool" where
  "tables_ok db \<longleftrightarrow> core_keys db \<and> core_references db \<and> row_checks db \<and> one_live_tenant db \<and> one_open_request db \<and> one_current_member db"

section \<open>Lemmas on rows\<close>

lemma map_rewritten:
  "(\<And>r. key (f r) = key r) \<Longrightarrow> map key (map (\<lambda>r. if p r then f r else r) rows) = map key rows"
  by (induction rows) auto

lemma find_membership_key: "find_membership t m db \<noteq> None \<longleftrightarrow> (t, m) \<in> set (membership_keys db)"
  by (force simp: find_membership_def membership_keys_def find_None_iff)

lemma find_role_key: "find_role t i db \<noteq> None \<longleftrightarrow> (t, i) \<in> set (role_keys db)"
  by (force simp: find_role_def role_keys_def find_None_iff)

lemma find_assignment_key: "find_assignment t i db \<noteq> None \<longleftrightarrow> (t, i) \<in> set (assignment_keys db)"
  by (force simp: find_assignment_def assignment_keys_def find_None_iff)

lemma find_group_key: "find_group t i db \<noteq> None \<longleftrightarrow> (t, i) \<in> set (group_keys db)"
  by (force simp: find_group_def group_keys_def find_None_iff)

lemma find_account_key: "find_account a db \<noteq> None \<longleftrightarrow> a \<in> acc_id ` set (db_accounts db)"
  by (force simp: find_account_def find_None_iff)

lemmas find_keys = find_membership_key find_role_key find_assignment_key find_group_key find_account_key

text \<open>A row is found by its key.\<close>

lemma find_distinct: "distinct (map key rows) \<Longrightarrow> r \<in> set rows \<Longrightarrow> List.find (\<lambda>x. key x = key r) rows = Some r"
  by (induction rows) force+

lemma find_membership_row:
  "tables_ok db \<Longrightarrow> r \<in> set (db_memberships db) \<Longrightarrow> find_membership (mb_tenant r) (mb_id r) db = Some r"
  using find_distinct [of "\<lambda>r. (mb_tenant r, mb_id r)" "db_memberships db" r]
  by (simp add: tables_ok_def core_keys_def key_defs find_membership_def)

lemma find_assignment_row:
  "tables_ok db \<Longrightarrow> r \<in> set (db_assignments db) \<Longrightarrow> find_assignment (ra_tenant r) (ra_id r) db = Some r"
  using find_distinct [of "\<lambda>r. (ra_tenant r, ra_id r)" "db_assignments db" r]
  by (simp add: tables_ok_def core_keys_def key_defs find_assignment_def)

lemma find_group_row:
  "tables_ok db \<Longrightarrow> r \<in> set (db_groups db) \<Longrightarrow> find_group (grp_tenant r) (grp_id r) db = Some r"
  using find_distinct [of "\<lambda>r. (grp_tenant r, grp_id r)" "db_groups db" r]
  by (simp add: tables_ok_def core_keys_def key_defs find_group_def)

lemma find_account_row: "tables_ok db \<Longrightarrow> a \<in> set (db_accounts db) \<Longrightarrow> find_account (acc_id a) db = Some a"
  using find_distinct [of acc_id "db_accounts db" a] by (simp add: tables_ok_def core_keys_def find_account_def)

lemma account_by_email_row: "tables_ok db \<Longrightarrow> a \<in> set (db_accounts db) \<Longrightarrow> account_by_email (acc_email a) db = Some a"
  using find_distinct [of acc_email "db_accounts db" a] by (simp add: tables_ok_def core_keys_def account_by_email_def)

lemma invitation_by_hash_row:
  "tables_ok db \<Longrightarrow> r \<in> set (db_invitations db) \<Longrightarrow> invitation_by_hash (iv_token_hash r) db = Some r"
  using find_distinct [of iv_token_hash "db_invitations db" r]
  by (simp add: tables_ok_def core_keys_def invitation_by_hash_def)

lemma find_invitation_row:
  "tables_ok db \<Longrightarrow> r \<in> set (db_invitations db) \<Longrightarrow> find_invitation (iv_tenant r) (iv_id r) db = Some r"
  using find_distinct [of "\<lambda>r. (iv_tenant r, iv_id r)" "db_invitations db" r]
  by (simp add: tables_ok_def core_keys_def key_defs find_invitation_def)

lemma length_filter_rewritten:
  "(\<And>r. r \<in> set rows \<Longrightarrow> p r \<Longrightarrow> q (f r) \<Longrightarrow> q r) \<Longrightarrow>
     length (filter q (map (\<lambda>r. if p r then f r else r) rows)) \<le> length (filter q rows)"
  by (induction rows) auto

section \<open>Every statement keeps the invariant\<close>

text \<open>What the rows of a table must meet to replace it.\<close>

lemmas ok_defs = tables_ok_def core_keys_def core_references_def row_checks_def one_live_tenant_def one_open_request_def
  one_current_member_def list_all_iff

lemma put_tenants:
  assumes "tables_ok db"
    "distinct (map tn_id rows)"
    "\<And>s. length (filter (live_at_school s) rows) \<le> 1"
  shows "tables_ok (db\<lparr>db_tenants := rows\<rparr>)"
  using assms unfolding ok_defs key_defs by simp

lemma put_accounts:
  assumes "tables_ok db"
    "distinct (map acc_id rows)"
    "distinct (map acc_email rows)"
    "set (map acc_id (db_accounts db)) \<subseteq> set (map acc_id rows)"
  shows "tables_ok (db\<lparr>db_accounts := rows\<rparr>)"
  using assms unfolding ok_defs key_defs by simp (meson subsetD)

lemma put_memberships:
  assumes "tables_ok db"
    "distinct (map (\<lambda>r. (mb_tenant r, mb_id r)) rows)"
    "distinct (map (\<lambda>r. (mb_tenant r, mb_account r)) rows)"
    "set (map (\<lambda>r. (mb_tenant r, mb_id r)) (db_memberships db)) \<subseteq> set (map (\<lambda>r. (mb_tenant r, mb_id r)) rows)"
    "\<And>r. r \<in> set rows \<Longrightarrow> mb_account r \<in> acc_id ` set (db_accounts db) \<and> membership_row_ok r"
  shows "tables_ok (db\<lparr>db_memberships := rows\<rparr>)"
  using assms unfolding ok_defs key_defs by simp (meson subsetD)

lemma put_roles:
  assumes "tables_ok db"
    "distinct (map (\<lambda>r. (ro_tenant r, ro_id r)) rows)"
    "set (map (\<lambda>r. (ro_tenant r, ro_id r)) (db_roles db)) \<subseteq> set (map (\<lambda>r. (ro_tenant r, ro_id r)) rows)"
    "\<And>r. r \<in> set rows \<Longrightarrow> role_row_ok r \<and> (\<forall>g. ro_group r = Some g \<longrightarrow> (ro_tenant r, g) \<in> set (group_keys db))"
  shows "tables_ok (db\<lparr>db_roles := rows\<rparr>)"
  using assms unfolding ok_defs key_defs by simp (meson subsetD)

lemma put_assignments:
  assumes "tables_ok db"
    "distinct (map (\<lambda>r. (ra_tenant r, ra_id r)) rows)"
    "set (map (\<lambda>r. (ra_tenant r, ra_id r)) (db_assignments db)) \<subseteq> set (map (\<lambda>r. (ra_tenant r, ra_id r)) rows)"
    "\<And>r. r \<in> set rows \<Longrightarrow> period_ok (ra_period r) \<and> (ra_tenant r, ra_membership r) \<in> set (membership_keys db)
       \<and> (ra_tenant r, ra_role r) \<in> set (role_keys db)"
  shows "tables_ok (db\<lparr>db_assignments := rows\<rparr>)"
  using assms unfolding ok_defs key_defs by simp (meson order.trans)

lemma put_grants:
  assumes "tables_ok db"
    "distinct (map (\<lambda>g. (hg_tenant g, hg_source g)) rows)"
    "\<And>g. g \<in> set rows \<Longrightarrow> period_ok (hg_period g) \<and> (hg_tenant g, hg_source g) \<in> set (assignment_keys db)"
  shows "tables_ok (db\<lparr>db_grants := rows\<rparr>)"
  using assms unfolding ok_defs key_defs by (simp add: image_subset_iff)

lemma put_groups:
  assumes "tables_ok db"
    "distinct (map (\<lambda>g. (grp_tenant g, grp_id g)) rows)"
    "set (map (\<lambda>g. (grp_tenant g, grp_id g)) (db_groups db)) \<subseteq> set (map (\<lambda>g. (grp_tenant g, grp_id g)) rows)"
    "\<And>g. g \<in> set rows \<Longrightarrow> envelope_ok (grp_name g) \<and> (grp_unit g = None \<or> grp_cohort g = None)"
  shows "tables_ok (db\<lparr>db_groups := rows\<rparr>)"
  using assms unfolding ok_defs key_defs by simp (meson subsetD)

lemma put_group_members:
  assumes "tables_ok db"
    "distinct (map (\<lambda>r. (gm_tenant r, gm_id r)) rows)"
    "\<And>r. r \<in> set rows \<Longrightarrow> (gm_tenant r, gm_membership r) \<in> set (membership_keys db)
       \<and> (gm_tenant r, gm_group r) \<in> set (group_keys db)"
    "\<And>t g m. length (filter (added_by_hand t g m) rows) \<le> 1"
  shows "tables_ok (db\<lparr>db_group_members := rows\<rparr>)"
  using assms unfolding ok_defs key_defs by (simp; blast)

lemma put_invitations:
  assumes "tables_ok db"
    "distinct (map (\<lambda>r. (iv_tenant r, iv_id r)) rows)"
    "distinct (map iv_token_hash rows)"
    "\<And>r. r \<in> set rows \<Longrightarrow> invitation_row_ok r"
  shows "tables_ok (db\<lparr>db_invitations := rows\<rparr>)"
  using assms unfolding ok_defs key_defs by (simp; blast)

lemma put_requests:
  assumes "tables_ok db"
    "distinct (map (\<lambda>r. (rq_tenant r, rq_id r)) rows)"
    "\<And>r. r \<in> set rows \<Longrightarrow> request_row_ok r"
    "\<And>t e. length (filter (open_from t e) rows) \<le> 1"
  shows "tables_ok (db\<lparr>db_requests := rows\<rparr>)"
  using assms unfolding ok_defs key_defs by (simp; blast)

lemmas put_tables = put_tenants put_accounts put_memberships put_roles put_assignments put_grants
  put_groups put_group_members put_invitations put_requests

text \<open>The other fields do not matter.\<close>

lemma tables_ok_other [simp]:
  "tables_ok (db\<lparr>db_drawn := n\<rparr>) \<longleftrightarrow> tables_ok db" "tables_ok (db\<lparr>db_audit := rows1\<rparr>) \<longleftrightarrow> tables_ok db"
  "tables_ok (db\<lparr>db_outbox := rows2\<rparr>) \<longleftrightarrow> tables_ok db" "tables_ok (db\<lparr>db_notices := rows3\<rparr>) \<longleftrightarrow> tables_ok db"
  "tables_ok (db\<lparr>db_signups := rows4\<rparr>) \<longleftrightarrow> tables_ok db" "tables_ok (db\<lparr>db_recovery_contacts := rows5\<rparr>) \<longleftrightarrow> tables_ok db"
  "tables_ok (db\<lparr>db_invitation_roles := rows6\<rparr>) \<longleftrightarrow> tables_ok db"
  by (simp_all add: ok_defs key_defs)

lemma keys_other [simp]:
  "membership_keys (db\<lparr>db_drawn := n\<rparr>) = membership_keys db" "role_keys (db\<lparr>db_drawn := n\<rparr>) = role_keys db"
  "assignment_keys (db\<lparr>db_drawn := n\<rparr>) = assignment_keys db" "group_keys (db\<lparr>db_drawn := n\<rparr>) = group_keys db"
  by (simp_all add: key_defs)

text \<open>What the invariant says of one row.\<close>

lemma ok_rows [simp]:
  assumes "tables_ok db"
  shows "ra \<in> set (db_assignments db) \<Longrightarrow> period_ok (ra_period ra)"
    and "ra \<in> set (db_assignments db) \<Longrightarrow> (ra_tenant ra, ra_membership ra) \<in> set (membership_keys db)"
    and "ra \<in> set (db_assignments db) \<Longrightarrow> (ra_tenant ra, ra_role ra) \<in> set (role_keys db)"
    and "hg \<in> set (db_grants db) \<Longrightarrow> period_ok (hg_period hg)"
    and "hg \<in> set (db_grants db) \<Longrightarrow> (hg_tenant hg, hg_source hg) \<in> set (assignment_keys db)"
    and "m \<in> set (db_memberships db) \<Longrightarrow> membership_row_ok m"
    and "m \<in> set (db_memberships db) \<Longrightarrow> mb_account m \<in> acc_id ` set (db_accounts db)"
    and "r \<in> set (db_roles db) \<Longrightarrow> role_row_ok r"
    and "r \<in> set (db_roles db) \<Longrightarrow> ro_group r = Some i \<Longrightarrow> (ro_tenant r, i) \<in> set (group_keys db)"
    and "g \<in> set (db_groups db) \<Longrightarrow> envelope_ok (grp_name g)"
    and "g \<in> set (db_groups db) \<Longrightarrow> grp_unit g = None \<or> grp_cohort g = None"
    and "gm \<in> set (db_group_members db) \<Longrightarrow> (gm_tenant gm, gm_membership gm) \<in> set (membership_keys db)"
    and "gm \<in> set (db_group_members db) \<Longrightarrow> (gm_tenant gm, gm_group gm) \<in> set (group_keys db)"
    and "iv \<in> set (db_invitations db) \<Longrightarrow> invitation_row_ok iv"
    and "rq \<in> set (db_requests db) \<Longrightarrow> request_row_ok rq"
  using assms by (auto simp: ok_defs source_keys_def)

lemma found_membership_key: "find_membership t m db = Some r \<Longrightarrow> (t, m) \<in> set (membership_keys db)"
  by (drule find_membership_Some) (elim conjE, simp add: membership_keys_def, rule rev_image_eqI, assumption, simp)

lemma found_role_key: "find_role t i db = Some r \<Longrightarrow> (t, i) \<in> set (role_keys db)"
  by (drule find_role_Some) (elim conjE, simp add: role_keys_def, rule rev_image_eqI, assumption, simp)

lemma found_assignment_key: "find_assignment t i db = Some r \<Longrightarrow> (t, i) \<in> set (assignment_keys db)"
  by (drule find_assignment_Some) (elim conjE, simp add: assignment_keys_def, rule rev_image_eqI, assumption, simp)

lemma found_group_key: "find_group t i db = Some r \<Longrightarrow> (t, i) \<in> set (group_keys db)"
  by (drule find_group_Some) (elim conjE, simp add: group_keys_def, rule rev_image_eqI, assumption, simp)

lemma found_account_key: "find_account i db = Some r \<Longrightarrow> i \<in> acc_id ` set (db_accounts db)"
  by (drule find_account_Some) (elim conjE, simp, rule rev_image_eqI, assumption, simp)

lemmas find_keys_D = found_membership_key found_role_key found_assignment_key found_group_key found_account_key

lemma ok_unique:
  assumes "tables_ok db"
  shows "distinct (map tn_id (db_tenants db))" "distinct (map acc_id (db_accounts db))" "distinct (map acc_email (db_accounts db))"
    "distinct (map (\<lambda>r. (mb_tenant r, mb_id r)) (db_memberships db))" "distinct (map (\<lambda>r. (mb_tenant r, mb_account r)) (db_memberships db))" "distinct (map (\<lambda>r. (ro_tenant r, ro_id r)) (db_roles db))" "distinct (map (\<lambda>r. (ra_tenant r, ra_id r)) (db_assignments db))"
    "distinct (map (\<lambda>g. (hg_tenant g, hg_source g)) (db_grants db))" "distinct (map (\<lambda>g. (grp_tenant g, grp_id g)) (db_groups db))" "distinct (map (\<lambda>r. (gm_tenant r, gm_id r)) (db_group_members db))" "distinct (map (\<lambda>r. (iv_tenant r, iv_id r)) (db_invitations db))"
    "distinct (map iv_token_hash (db_invitations db))" "distinct (map (\<lambda>r. (rq_tenant r, rq_id r)) (db_requests db))"
    "\<forall>t e. length (filter (open_from t e) (db_requests db)) \<le> 1"
    "\<forall>t g m. length (filter (added_by_hand t g m) (db_group_members db)) \<le> 1"
    "\<forall>s. length (filter (live_at_school s) (db_tenants db)) \<le> 1"
  using assms unfolding ok_defs key_defs by - (elim conjE, assumption)+

text \<open>Rewriting rows in place, keys and references kept.\<close>

lemma set_rewritten:
  "\<lbrakk>x \<in> set (map (\<lambda>r. if p r then f r else r) rows); \<And>r. r \<in> set rows \<Longrightarrow> Q r; \<And>r. r \<in> set rows \<Longrightarrow> Q r \<Longrightarrow> p r \<Longrightarrow> Q (f r)\<rbrakk> \<Longrightarrow> Q x"
  by auto

lemma rewrite_accounts:
  assumes "tables_ok db" "\<And>r. acc_id (f r) = acc_id r" "\<And>r. acc_email (f r) = acc_email r"
  shows "tables_ok (db\<lparr>db_accounts := map (\<lambda>r. if p r then f r else r) (db_accounts db)\<rparr>)"
proof -
  have k1: "map acc_id (map (\<lambda>r. if p r then f r else r) (db_accounts db)) = map acc_id (db_accounts db)"
    by (rule map_rewritten) (use assms(2,3) in simp)
  have k2: "map acc_email (map (\<lambda>r. if p r then f r else r) (db_accounts db)) = map acc_email (db_accounts db)"
    by (rule map_rewritten) (use assms(2,3) in simp)
  show ?thesis by (rule put_accounts [OF assms(1)]) (simp_all only: k1 k2 ok_unique [OF assms(1)] subset_refl)
qed

lemma rewrite_assignments:
  assumes "tables_ok db" "\<And>r. (ra_tenant (f r), ra_id (f r), ra_membership (f r), ra_role (f r), ra_period (f r)) =
    (ra_tenant r, ra_id r, ra_membership r, ra_role r, ra_period r)"
  shows "tables_ok (db\<lparr>db_assignments := map (\<lambda>r. if p r then f r else r) (db_assignments db)\<rparr>)"
proof -
  have k1: "map (\<lambda>r. (ra_tenant r, ra_id r)) (map (\<lambda>r. if p r then f r else r) (db_assignments db)) = map (\<lambda>r. (ra_tenant r, ra_id r)) (db_assignments db)"
    by (rule map_rewritten) (use assms(2) in simp)
  show ?thesis
  proof (rule put_assignments [OF assms(1)])
  fix r assume "r \<in> set (map (\<lambda>r. if p r then f r else r) (db_assignments db))"
  then show "period_ok (ra_period r) \<and> (ra_tenant r, ra_membership r) \<in> set (membership_keys db) \<and> (ra_tenant r, ra_role r) \<in> set (role_keys db)"
    by (rule set_rewritten) (use assms in simp_all)
qed (simp_all only: k1 ok_unique [OF assms(1)] subset_refl)
qed

lemma rewrite_grants:
  assumes "tables_ok db" "\<And>r. (hg_tenant (f r), hg_source (f r), hg_period (f r)) = (hg_tenant r, hg_source r, hg_period r)"
  shows "tables_ok (db\<lparr>db_grants := map (\<lambda>r. if p r then f r else r) (db_grants db)\<rparr>)"
proof -
  have k1: "map (\<lambda>g. (hg_tenant g, hg_source g)) (map (\<lambda>r. if p r then f r else r) (db_grants db)) = map (\<lambda>g. (hg_tenant g, hg_source g)) (db_grants db)"
    by (rule map_rewritten) (use assms(2) in simp)
  show ?thesis
  proof (rule put_grants [OF assms(1)])
  fix r assume "r \<in> set (map (\<lambda>r. if p r then f r else r) (db_grants db))"
  then show "period_ok (hg_period r) \<and> (hg_tenant r, hg_source r) \<in> set (assignment_keys db)"
    by (rule set_rewritten) (use assms in simp_all)
qed (simp_all only: k1 ok_unique [OF assms(1)] subset_refl)
qed

lemma rewrite_groups:
  assumes "tables_ok db" "\<And>r. (grp_tenant (f r), grp_id (f r), grp_unit (f r), grp_cohort (f r)) = (grp_tenant r, grp_id r, grp_unit r, grp_cohort r)"
    "\<And>r. r \<in> set (db_groups db) \<Longrightarrow> p r \<Longrightarrow> envelope_ok (grp_name (f r))"
  shows "tables_ok (db\<lparr>db_groups := map (\<lambda>r. if p r then f r else r) (db_groups db)\<rparr>)"
proof -
  have k1: "map (\<lambda>g. (grp_tenant g, grp_id g)) (map (\<lambda>r. if p r then f r else r) (db_groups db)) = map (\<lambda>g. (grp_tenant g, grp_id g)) (db_groups db)"
    by (rule map_rewritten) (use assms(2) in simp)
  show ?thesis
  proof (rule put_groups [OF assms(1)])
  fix r assume "r \<in> set (map (\<lambda>r. if p r then f r else r) (db_groups db))"
  then show "envelope_ok (grp_name r) \<and> (grp_unit r = None \<or> grp_cohort r = None)"
    by (rule set_rewritten) (use assms in simp_all)
qed (simp_all only: k1 ok_unique [OF assms(1)] subset_refl)
qed

lemma rewrite_group_members:
  assumes "tables_ok db" "\<And>r. (gm_tenant (f r), gm_id (f r), gm_membership (f r), gm_group (f r)) = (gm_tenant r, gm_id r, gm_membership r, gm_group r)"
    "\<And>r. gm_removed_at (f r) \<noteq> None"
  shows "tables_ok (db\<lparr>db_group_members := map (\<lambda>r. if p r then f r else r) (db_group_members db)\<rparr>)"
proof -
  have k1: "map (\<lambda>r. (gm_tenant r, gm_id r)) (map (\<lambda>r. if p r then f r else r) (db_group_members db)) = map (\<lambda>r. (gm_tenant r, gm_id r)) (db_group_members db)"
    by (rule map_rewritten) (use assms(2) in simp)
  show ?thesis
  proof (rule put_group_members [OF assms(1)])
  fix r assume "r \<in> set (map (\<lambda>r. if p r then f r else r) (db_group_members db))"
  then show "(gm_tenant r, gm_membership r) \<in> set (membership_keys db) \<and> (gm_tenant r, gm_group r) \<in> set (group_keys db)"
    by (rule set_rewritten) (use assms in simp_all)
next
  fix t g m
  have "length (filter (added_by_hand t g m) (map (\<lambda>r. if p r then f r else r) (db_group_members db)))
      \<le> length (filter (added_by_hand t g m) (db_group_members db))"
    by (rule length_filter_rewritten) (use assms(3) in \<open>simp add: added_by_hand_def\<close>)
  then show "length (filter (added_by_hand t g m) (map (\<lambda>r. if p r then f r else r) (db_group_members db))) \<le> 1"
    using ok_unique(15) [OF assms(1)] order_trans by blast
qed (simp_all only: k1 ok_unique [OF assms(1)] subset_refl)
qed

lemma rewrite_memberships:
  assumes "tables_ok db" "\<And>r. (mb_tenant (f r), mb_id (f r), mb_account (f r)) = (mb_tenant r, mb_id r, mb_account r)"
    "\<And>r. r \<in> set (db_memberships db) \<Longrightarrow> p r \<Longrightarrow> membership_row_ok (f r)"
  shows "tables_ok (db\<lparr>db_memberships := map (\<lambda>r. if p r then f r else r) (db_memberships db)\<rparr>)"
proof -
  have k1: "map (\<lambda>r. (mb_tenant r, mb_id r)) (map (\<lambda>r. if p r then f r else r) (db_memberships db)) = map (\<lambda>r. (mb_tenant r, mb_id r)) (db_memberships db)"
    by (rule map_rewritten) (use assms(2) in simp)
  have k2: "map (\<lambda>r. (mb_tenant r, mb_account r)) (map (\<lambda>r. if p r then f r else r) (db_memberships db)) = map (\<lambda>r. (mb_tenant r, mb_account r)) (db_memberships db)"
    by (rule map_rewritten) (use assms(2) in simp)
  show ?thesis
  proof (rule put_memberships [OF assms(1)])
  fix r assume "r \<in> set (map (\<lambda>r. if p r then f r else r) (db_memberships db))"
  then show "mb_account r \<in> acc_id ` set (db_accounts db) \<and> membership_row_ok r"
    by (rule set_rewritten) (use assms in simp_all)
qed (simp_all only: k1 k2 ok_unique [OF assms(1)] subset_refl)
qed

lemma rewrite_invitations:
  assumes "tables_ok db" "\<And>r. (iv_tenant (f r), iv_id (f r)) = (iv_tenant r, iv_id r)"
    "\<And>r. r \<in> set (db_invitations db) \<Longrightarrow> p r \<Longrightarrow> invitation_row_ok (f r)"
    "distinct (map iv_token_hash (map (\<lambda>r. if p r then f r else r) (db_invitations db)))"
  shows "tables_ok (db\<lparr>db_invitations := map (\<lambda>r. if p r then f r else r) (db_invitations db)\<rparr>)"
proof -
  have k1: "map (\<lambda>r. (iv_tenant r, iv_id r)) (map (\<lambda>r. if p r then f r else r) (db_invitations db)) = map (\<lambda>r. (iv_tenant r, iv_id r)) (db_invitations db)"
    by (rule map_rewritten) (use assms(2) in simp)
  show ?thesis
  proof (rule put_invitations [OF assms(1)])
  fix r assume "r \<in> set (map (\<lambda>r. if p r then f r else r) (db_invitations db))"
  then show "invitation_row_ok r" by (rule set_rewritten) (use assms in simp_all)
qed (simp_all only: k1 ok_unique [OF assms(1)] subset_refl assms(4))
qed

lemma rewrite_requests:
  assumes "tables_ok db" "\<And>r. (rq_tenant (f r), rq_id (f r)) = (rq_tenant r, rq_id r)"
    "\<And>r. r \<in> set (db_requests db) \<Longrightarrow> p r \<Longrightarrow> request_row_ok (f r)" "\<And>r. rq_status (f r) \<noteq> Request_Pending"
  shows "tables_ok (db\<lparr>db_requests := map (\<lambda>r. if p r then f r else r) (db_requests db)\<rparr>)"
proof -
  have k1: "map (\<lambda>r. (rq_tenant r, rq_id r)) (map (\<lambda>r. if p r then f r else r) (db_requests db)) = map (\<lambda>r. (rq_tenant r, rq_id r)) (db_requests db)"
    by (rule map_rewritten) (use assms(2) in simp)
  show ?thesis
  proof (rule put_requests [OF assms(1)])
  fix r assume "r \<in> set (map (\<lambda>r. if p r then f r else r) (db_requests db))"
  then show "request_row_ok r" by (rule set_rewritten) (use assms in simp_all)
next
  fix t e
  have "length (filter (open_from t e) (map (\<lambda>r. if p r then f r else r) (db_requests db)))
      \<le> length (filter (open_from t e) (db_requests db))"
    by (rule length_filter_rewritten) (use assms(4) in \<open>simp add: open_from_def\<close>)
  then show "length (filter (open_from t e) (map (\<lambda>r. if p r then f r else r) (db_requests db))) \<le> 1"
    using ok_unique(14) [OF assms(1)] order_trans by blast
qed (simp_all only: k1 ok_unique [OF assms(1)] subset_refl)
qed

lemma ok_draw: "tables_ok db \<Longrightarrow> db_drawn db \<le> n \<Longrightarrow> tables_ok (db\<lparr>db_drawn := n\<rparr>)"
  by simp

lemma ok_notice: "tables_ok db \<Longrightarrow> tables_ok (notify t c db)"
  by (simp add: notify_def)

lemma ok_audit: "tables_ok db \<Longrightarrow> on_ok tables_ok (write_audit E at e db)"
  by (rule on_ok_I) (auto simp: now_v7_def write_audit_def)

lemma ok_mail: "tables_ok db \<Longrightarrow> on_ok tables_ok (enqueue E at t template email params db)"
  by (rule on_ok_I) (auto simp: now_v7_def enqueue_def)

lemma ok_account:
  assumes "tables_ok db"
  shows "on_ok (\<lambda>(_, db'). tables_ok db') (upsert_verified_account E email at db)"
proof (cases "account_by_email email (db\<lparr>db_drawn := Suc (db_drawn db)\<rparr>)")
  case None
  then have "email \<notin> acc_email ` set (db_accounts db)"
    by (auto simp: account_by_email_def find_None_iff)
  then show ?thesis
    unfolding upsert_verified_account_def now_v7_def using None ok_unique(2,3) [OF assms] assms
    by (auto intro!: on_ok_I put_accounts)
next
  case (Some a)
  define f :: "'a account_row \<Rightarrow> 'a account_row" where
    "f r = r\<lparr>acc_verified_at := (case acc_verified_at r of Some v \<Rightarrow> Some v | None \<Rightarrow> Some (m_now at))\<rparr>" for r
  have "tables_ok (db\<lparr>db_drawn := Suc (db_drawn db), db_accounts := map (\<lambda>r. if acc_email r = email then f r else r) (db_accounts db)\<rparr>)"
    using rewrite_accounts [of "db\<lparr>db_drawn := Suc (db_drawn db)\<rparr>" f "\<lambda>r. acc_email r = email"] assms by (simp add: f_def)
  with Some show ?thesis unfolding f_def by (simp add: upsert_verified_account_def now_v7_def)
qed

lemma ok_assignment:
  assumes "tables_ok db"
  shows "on_ok (\<lambda>(_, db'). tables_ok db') (insert_assignment E t m role p by db)"
  unfolding insert_assignment_def now_v7_def using ok_unique [OF assms] assms
  by (auto intro!: on_ok_I put_assignments simp: find_keys simp del: not_None_eq)

lemma ok_revoked_assignments:
  "tables_ok db \<Longrightarrow> (\<And>r. q r \<Longrightarrow> ra_tenant r = t) \<Longrightarrow> 
     tables_ok (revoke_assignments q now db)"
  unfolding revoke_assignments_def by (rule rewrite_assignments) simp_all

lemma ok_grant:
  assumes "tables_ok db"
  shows "on_ok (\<lambda>(_, db'). tables_ok db') (insert_grant E t source p db)"
proof (cases "list_ex (\<lambda>g. hg_tenant g = t \<and> hg_source g = source) (db_grants db)")
  case False
  then have "(t, source) \<notin> (\<lambda>g. (hg_tenant g, hg_source g)) ` set (db_grants db)"
    by (auto simp: list_ex_iff)
  moreover have "(t, source) \<in> set (assignment_keys db)" if "find_assignment t source db \<noteq> None"
    using that by (simp only: find_assignment_key)
  ultimately show ?thesis
    unfolding insert_grant_def now_v7_def using False ok_unique(8) [OF assms] assms
    by (auto intro!: on_ok_I put_grants)
qed (use assms in \<open>simp add: insert_grant_def now_v7_def\<close>)

lemma ok_revoked_grants:
  "tables_ok db \<Longrightarrow> (\<And>g. q g \<Longrightarrow> hg_tenant g = t) \<Longrightarrow> 
     tables_ok (revoke_grants q now db)"
  unfolding revoke_grants_def by (rule rewrite_grants) simp_all

lemma ok_group:
  assumes "tables_ok db" "grp_tenant g = t"
  shows "on_ok tables_ok (insert_group g db)"
proof (rule on_ok_I)
  fix db' assume "insert_group g db = Inr db'"
  then have row: "envelope_ok (grp_name g) \<and> (grp_unit g = None \<or> grp_cohort g = None)"
      "(grp_tenant g, grp_id g) \<notin> (\<lambda>r. (grp_tenant r, grp_id r)) ` set (db_groups db)"
    and db': "db' = db\<lparr>db_groups := db_groups db @ [g]\<rparr>"
    by (auto simp: insert_group_def simp del: not_None_eq)
  show "tables_ok db'"
    unfolding db'
  proof (rule put_groups [OF assms(1)])
    fix r assume "r \<in> set (db_groups db @ [g])"
    then show "envelope_ok (grp_name r) \<and> (grp_unit r = None \<or> grp_cohort r = None)"
      using row(1) ok_rows(10,11) [OF assms(1), of r] by auto
  qed (use row(2) ok_unique(9) [OF assms(1)] in auto)
qed

lemma ok_group_name:
  "tables_ok db \<Longrightarrow> 
     on_ok tables_ok (update_group t i (\<lambda>g. g\<lparr>grp_name := name\<rparr>) db)"
  by (rule on_ok_I) (auto simp: update_group_def list_all_iff intro!: rewrite_groups)

lemma ok_group_visibility:
  "tables_ok db \<Longrightarrow> 
     on_ok tables_ok (update_group t i (\<lambda>g. g\<lparr>grp_visibility := v\<rparr>) db)"
  by (rule on_ok_I) (auto simp: update_group_def list_all_iff intro!: rewrite_groups)

lemma ok_group_archived:
  "tables_ok db \<Longrightarrow> 
     on_ok tables_ok (update_group t i (\<lambda>g. g\<lparr>grp_archived_at := Some now\<rparr>) db)"
  by (rule on_ok_I) (auto simp: update_group_def list_all_iff intro!: rewrite_groups)

lemma none_by_hand:
  "added_by_hand t g m gm \<Longrightarrow> \<not> list_ex (added_by_hand (gm_tenant gm) (gm_group gm) (gm_membership gm)) rows \<Longrightarrow>
     filter (added_by_hand t g m) rows = []"
  by (auto simp: added_by_hand_def list_ex_iff filter_empty_conv)

lemma ok_group_member:
  "tables_ok db \<Longrightarrow> gm_tenant gm = t \<Longrightarrow> 
     on_ok tables_ok (insert_group_member gm db)"
  by (rule on_ok_I) (insert ok_unique [of db], auto intro!: put_tables simp del: not_None_eq simp: find_keys none_by_hand insert_group_member_def)

lemma ok_group_members_ended:
  "tables_ok db \<Longrightarrow> (\<And>r. q r \<Longrightarrow> gm_tenant r = t) \<Longrightarrow> 
     on_ok tables_ok (end_group_members q now db)"
  by (rule on_ok_I) (auto simp: end_group_members_def intro!: rewrite_group_members)

lemma fresh_membership_ok:
  "membership_row_ok \<lparr>mb_tenant = t, mb_id = m, mb_account = a, mb_revoked_at = None, mb_display_name = None,
     mb_contact_email = None, mb_name_erased_at = None, mb_retained_until = None\<rparr>"
  by (simp add: membership_row_ok_def)

lemma ok_membership:
  assumes "tables_ok db"
  shows "on_ok tables_ok (insert_membership t m a db)"
proof (rule on_ok_I)
  fix db' assume "insert_membership t m a db = Inr db'"
  then have row: "find_account a db \<noteq> None" "(t, a) \<notin> (\<lambda>r. (mb_tenant r, mb_account r)) ` set (db_memberships db)"
      "(t, m) \<notin> (\<lambda>r. (mb_tenant r, mb_id r)) ` set (db_memberships db)"
    and db': "db' = db\<lparr>db_memberships := db_memberships db @ [\<lparr>mb_tenant = t, mb_id = m, mb_account = a, mb_revoked_at = None,
      mb_display_name = None, mb_contact_email = None, mb_name_erased_at = None, mb_retained_until = None\<rparr>]\<rparr>"
    by (auto simp: insert_membership_def list_ex_iff image_iff simp del: not_None_eq)
  show "tables_ok db'"
    unfolding db' using row ok_unique(4,5) [OF assms] assms
    by (intro put_memberships) (auto simp: find_keys fresh_membership_ok simp del: not_None_eq)
qed

lemma ok_membership_row:
  assumes "tables_ok db" "\<And>r. q r \<Longrightarrow> mb_tenant r = t"
    "\<And>r. mb_tenant (f r) = mb_tenant r \<and> mb_id (f r) = mb_id r \<and> mb_account (f r) = mb_account r"
  shows "on_ok tables_ok (update_memberships q f db)"
proof (rule on_ok_I)
  fix db' assume "update_memberships q f db = Inr db'"
  then have ok: "\<And>r. r \<in> set (db_memberships db) \<Longrightarrow> q r \<Longrightarrow> membership_row_ok (retention_follows_fields r (f r))"
    and db': "db' = db\<lparr>db_memberships := map (\<lambda>r. if q r then retention_follows_fields r (f r) else r) (db_memberships db)\<rparr>"
    by (auto simp: update_memberships_def list_all_iff)
  show "tables_ok db'"
    unfolding db' by (rule rewrite_memberships [OF assms(1)]) (simp_all add: assms(3) ok)
qed

lemma ok_role:
  assumes "tables_ok db" "ro_tenant r = t"
  shows "on_ok tables_ok (insert_role r db)"
proof (rule on_ok_I)
  fix db' assume "insert_role r db = Inr db'"
  then have row: "role_row_ok r" "\<And>g. ro_group r = Some g \<Longrightarrow> find_group (ro_tenant r) g db \<noteq> None"
      "(ro_tenant r, ro_id r) \<notin> (\<lambda>r. (ro_tenant r, ro_id r)) ` set (db_roles db)"
    and db': "db' = db\<lparr>db_roles := db_roles db @ [r]\<rparr>"
    by (auto simp: insert_role_def role_row_ok_def simp del: not_None_eq)
  show "tables_ok db'"
    unfolding db' using row ok_unique(6) [OF assms(1)] assms(1)
    by (intro put_roles) (auto simp: find_keys simp del: not_None_eq)
qed

lemma ok_invitation:
  assumes "tables_ok db" "iv_tenant r = t"
  shows "on_ok tables_ok (insert_invitation_row r db)"
proof (rule on_ok_I)
  fix db' assume "insert_invitation_row r db = Inr db'"
  then have row: "invitation_row_ok r" "iv_token_hash r \<notin> iv_token_hash ` set (db_invitations db)"
      "(iv_tenant r, iv_id r) \<notin> (\<lambda>r. (iv_tenant r, iv_id r)) ` set (db_invitations db)"
    and db': "db' = db\<lparr>db_invitations := db_invitations db @ [r]\<rparr>"
    by (auto simp: insert_invitation_row_def list_ex_iff image_iff simp del: not_None_eq)
  show "tables_ok db'"
    unfolding db' using row ok_unique(11,12) [OF assms(1)] assms(1) by (intro put_invitations) auto
qed

lemma ok_invitation_role:
  "tables_ok db \<Longrightarrow> 
     on_ok tables_ok (insert_invitation_role t i rp db)"
  by (rule on_ok_I) (auto simp: insert_invitation_role_def split: prod.splits)

lemma ok_invitation_token:
  "tables_ok db \<Longrightarrow> 
     on_ok tables_ok (update_invitation t i (\<lambda>q. q\<lparr>iv_token_hash := h, iv_expires_at := x\<rparr>) db)"
  by (rule on_ok_I) (auto simp: update_invitation_def list_all_iff intro!: rewrite_invitations)

lemma ok_invitation_revoked:
  "tables_ok db \<Longrightarrow> 
     on_ok tables_ok (update_invitation t i (\<lambda>q. q\<lparr>iv_revoked_at := Some now\<rparr>) db)"
  by (rule on_ok_I) (auto simp: update_invitation_def list_all_iff intro!: rewrite_invitations)

lemma ok_invitation_accepted:
  "tables_ok db \<Longrightarrow> 
     on_ok tables_ok (update_invitation t i (\<lambda>q. q\<lparr>iv_accepted_at := Some now, iv_accepted_membership := Some m\<rparr>) db)"
  by (rule on_ok_I) (auto simp: update_invitation_def list_all_iff intro!: rewrite_invitations)

lemma none_open:
  "open_from t e rq \<Longrightarrow> \<not> list_ex (open_from (rq_tenant rq) (rq_requester_email rq)) rows \<Longrightarrow> filter (open_from t e) rows = []"
  by (auto simp: open_from_def list_ex_iff filter_empty_conv)

lemma ok_request:
  "tables_ok db \<Longrightarrow> rq_tenant r = t \<Longrightarrow> 
     on_ok tables_ok (insert_request_row r db)"
  by (rule on_ok_I) (insert ok_unique [of db], auto intro!: put_tables simp del: not_None_eq simp: find_keys none_open insert_request_row_def)

lemma ok_requests_closed:
  "tables_ok db \<Longrightarrow> (\<And>r. q r \<Longrightarrow> rq_tenant r = t) \<Longrightarrow>
     (\<And>r. rq_tenant (f r) = rq_tenant r \<and> rq_id (f r) = rq_id r \<and> rq_requester_email (f r) = rq_requester_email r \<and> rq_requester (f r) = rq_requester r
          \<and> rq_replaced (f r) = rq_replaced r
        \<and> rq_status (f r) \<noteq> Request_Pending) \<Longrightarrow> 
     on_ok tables_ok (update_requests q f db)"
  by (rule on_ok_I) (auto simp: update_requests_def list_all_iff intro!: rewrite_requests)

text \<open>Activation checks the school of the tenant it activates; the others keep their rows.\<close>

lemma activated_live:
  assumes one: "length (filter (live_at_school s) rows) \<le> 1"
    and check: "\<And>r. \<lbrakk>r \<in> set rows'; tn_id r = t; tn_school r = Some s\<rbrakk> \<Longrightarrow> length (filter (live_at_school s) rows') \<le> 1"
    and rows': "rows' = map (\<lambda>r. if tn_id r = t then r\<lparr>tn_status := Tenant_Active\<rparr> else r) rows"
  shows "length (filter (live_at_school s) rows') \<le> 1"
proof (cases "\<exists>r\<in>set rows'. tn_id r = t \<and> tn_school r = Some s")
  case True
  then show ?thesis using check by blast
next
  case False
  then have other: "tn_school r \<noteq> Some s" if "r \<in> set rows" "tn_id r = t" for r
  proof -
    have "r\<lparr>tn_status := Tenant_Active\<rparr> \<in> set rows'" using that by (force simp: rows')
    with False that(2) show ?thesis by force
  qed
  have "length (filter (live_at_school s) rows') \<le> length (filter (live_at_school s) rows)"
    unfolding rows' by (rule length_filter_rewritten) (auto simp: live_at_school_def other)
  with one show ?thesis by linarith
qed

lemma ok_activated:
  assumes "tables_ok db"
  shows "on_ok tables_ok (activate_row t db)"
proof (rule on_ok_I)
  define rows where "rows = map (\<lambda>r. if tn_id r = t then r\<lparr>tn_status := Tenant_Active\<rparr> else r) (db_tenants db)"
  fix db' assume "activate_row t db = Inr db'"
  then have run: "(if list_all (\<lambda>r. tn_id r = t \<longrightarrow> (case tn_school r of None \<Rightarrow> True
      | Some s \<Rightarrow> length (filter (live_at_school s) rows) \<le> 1)) rows
    then Inr (db\<lparr>db_tenants := rows\<rparr>) else Inl E_Database) = Inr db'"
    unfolding activate_row_def Let_def rows_def .
  then have db': "db' = db\<lparr>db_tenants := rows\<rparr>" by (simp split: if_splits)
  from run have check: "length (filter (live_at_school s) rows) \<le> 1" if "r \<in> set rows" "tn_id r = t" "tn_school r = Some s" for r s
    using that by (force simp: list_all_iff split: if_splits)
  have "map tn_id rows = map tn_id (db_tenants db)" unfolding rows_def by (rule map_rewritten) simp
  then have ids: "distinct (map tn_id rows)" by (simp only: ok_unique(1) [OF assms])
  have "length (filter (live_at_school s) rows) \<le> 1" for s
    by (rule activated_live [OF _ check rows_def]) (use ok_unique(16) [OF assms] in simp)
  then show "tables_ok db'"
    unfolding db' using ids by (intro put_tenants [OF assms])
qed

lemma ok_signup_deleted:
  "tables_ok db \<Longrightarrow> 
     tables_ok (delete_signup t db)"
  by (simp add: delete_signup_def)

lemma ok_seat:
  "tables_ok db \<Longrightarrow> 
     on_ok tables_ok (insert_recovery_contact t db)"
  by (rule on_ok_I) (auto simp: insert_recovery_contact_def split: prod.splits)

interpretation integrity: statements E t tables_ok for E t
  by unfold_locales
    (fact ok_draw
      | fact ok_notice
      | (rule ok_audit, assumption)
      | fact ok_mail
      | fact ok_account
      | fact ok_assignment
      | fact ok_revoked_assignments
      | fact ok_grant
      | fact ok_revoked_grants
      | fact ok_group
      | fact ok_group_name
      | fact ok_group_visibility
      | fact ok_group_archived
      | fact ok_group_member
      | fact ok_group_members_ended
      | fact ok_membership
      | (rule ok_membership_row, assumption+)
      | fact ok_role
      | (rule ok_invitation, assumption+)
      | fact ok_invitation_role
      | (rule ok_invitation_token, assumption)
      | (rule ok_invitation_revoked, assumption)
      | (rule ok_invitation_accepted, assumption)
      | fact ok_request
      | fact ok_requests_closed
      | fact ok_activated
      | fact ok_signup_deleted
      | fact ok_seat)+

section \<open>Transactions of the whole store\<close>

lemma ok_placed:
  assumes "tables_ok db"
  shows "on_ok (\<lambda>(_, db'). tables_ok db') (try_insert_tenant t signup db)"
proof (cases "list_ex (live_at_school (ps_school signup)) (db_tenants db)")
  case False
  then have none: "filter (live_at_school (ps_school signup)) (db_tenants db) = []"
    by (simp add: list_ex_iff filter_empty_conv)
  have "length (filter (live_at_school s) (db_tenants db @ [\<lparr>tn_id = t, tn_name = n, tn_school = Some (ps_school signup),
      tn_status = Tenant_Pending, tn_frozen_at = None\<rparr>])) \<le> 1" for s n
    using ok_unique(16) [OF assms] none by (cases "s = ps_school signup") (simp_all add: live_at_school_def)
  with False show ?thesis
    unfolding try_insert_tenant_def using ok_unique(1) [OF assms] assms
    by (auto intro!: on_ok_I put_tenants simp del: filter_append)
qed (use assms in \<open>simp add: try_insert_tenant_def\<close>)

lemma ok_signup: "tables_ok db \<Longrightarrow> on_ok tables_ok (insert_signup s db)"
  by (rule on_ok_I) (auto simp: insert_signup_def)

lemma ok_signups_expired:
  assumes "tables_ok db"
  shows "tables_ok (db\<lparr>db_tenants := filter p (db_tenants db), db_signups := filter p' (db_signups db)\<rparr>)"
proof -
  have "length (filter (live_at_school s) (filter p (db_tenants db))) \<le> 1" for s
  proof -
    have "length (filter p (filter (live_at_school s) (db_tenants db))) \<le> length (filter (live_at_school s) (db_tenants db))"
      by (rule length_filter_le)
    moreover have "filter (live_at_school s) (filter p (db_tenants db)) = filter p (filter (live_at_school s) (db_tenants db))"
      by (simp add: conj_commute)
    ultimately show ?thesis using ok_unique(16) [OF assms] order_trans by metis
  qed
  then show ?thesis
    using ok_unique(1) [OF assms] assms by (simp add: put_tenants distinct_map_filter del: filter_filter)
qed

lemma ok_requests_lapsed:
  assumes "tables_ok db" "\<And>r. rq_tenant (f r) = rq_tenant r \<and> rq_id (f r) = rq_id r \<and> rq_requester_email (f r) = rq_requester_email r \<and> rq_requester (f r) = rq_requester r
          \<and> rq_replaced (f r) = rq_replaced r
     \<and> rq_status (f r) \<noteq> Request_Pending"
  shows "on_ok tables_ok (update_requests q f db)"
  by (rule on_ok_I) (use assms in \<open>auto simp: update_requests_def list_all_iff intro!: rewrite_requests\<close>)

lemma ok_retention_chosen:
  assumes "tables_ok db"
  shows "tables_ok (db\<lparr>db_accounts := map (\<lambda>a. if acc_id a = account then a\<lparr>acc_retention := months\<rparr> else a) (db_accounts db)\<rparr>)"
  by (rule rewrite_accounts [OF assms]) simp_all

interpretation whole_integrity: store_statements E tables_ok for E
  by unfold_locales
    (fact integrity.statements_axioms
      | (rule ok_audit, assumption) | (rule ok_mail, assumption) | fact ok_placed | fact ok_signup
      | (rule ok_signups_expired, assumption) | fact ok_requests_lapsed | fact ok_retention_chosen)+

end
