(* ===== verification/Store_References.thy ===== *)
theory Store_References
  imports Store_Invariant
begin

text \<open>
  The integrity of the store, second part: every foreign key among the columns of the modelled tables
  resolves (\<open>migrations/0002\<close>, \<open>0003\<close>, \<open>0006\<close> and \<open>0007\<close>), and the keys the first part leaves out are unique.
  \<open>links_ok\<close> interprets the contract of the whole store; a pending tenant is deleted only when no row
  refers to it, so the links to tenants survive the expiry of signups. Together the two parts are
  \<open>store_ok\<close>. The statements check their foreign keys as the database does.
\<close>

section \<open>Foreign keys\<close>

definition tenant_ids :: "('t, 'd) store \<Rightarrow> uuid set" where
  "tenant_ids db = tn_id ` set (db_tenants db)"

definition account_ids :: "('t, 'd) store \<Rightarrow> uuid set" where
  "account_ids db = acc_id ` set (db_accounts db)"

definition grant_keys :: "('t, 'd) store \<Rightarrow> (uuid \<times> uuid) list" where
  "grant_keys db = map (\<lambda>g. (hg_tenant g, hg_id g)) (db_grants db)"

text \<open>A nullable column of a row of tenant \<open>t\<close>: null, or a key of that tenant.\<close>

definition refers :: "(uuid \<times> uuid) list \<Rightarrow> uuid \<Rightarrow> uuid option \<Rightarrow> bool" where
  "refers keys t column \<longleftrightarrow> (case column of None \<Rightarrow> True | Some i \<Rightarrow> (t, i) \<in> set keys)"

text \<open>The foreign keys, table by table.\<close>

definition membership_links :: "('t, 'd) store \<Rightarrow> ('t, 'd) membership_row \<Rightarrow> bool" where
  "membership_links db r \<longleftrightarrow> mb_tenant r \<in> tenant_ids db \<and> mb_account r \<in> account_ids db"

definition role_links :: "('t, 'd) store \<Rightarrow> role_row \<Rightarrow> bool" where
  "role_links db r \<longleftrightarrow> ro_tenant r \<in> tenant_ids db \<and> refers (db_units db) (ro_tenant r) (ro_unit r)
     \<and> refers (db_cohorts db) (ro_tenant r) (ro_cohort r) \<and> refers (group_keys db) (ro_tenant r) (ro_group r)"

definition assignment_links :: "('t, 'd) store \<Rightarrow> ('t, 'd) assignment_row \<Rightarrow> bool" where
  "assignment_links db r \<longleftrightarrow> ra_tenant r \<in> tenant_ids db \<and> (ra_tenant r, ra_membership r) \<in> set (membership_keys db)
     \<and> (ra_tenant r, ra_role r) \<in> set (role_keys db) \<and> refers (membership_keys db) (ra_tenant r) (ra_granted_by r)"

definition grant_links :: "('t, 'd) store \<Rightarrow> ('t, 'd) handover_row \<Rightarrow> bool" where
  "grant_links db g \<longleftrightarrow> hg_tenant g \<in> tenant_ids db \<and> (hg_tenant g, hg_source g) \<in> set (assignment_keys db)"

definition request_links :: "('t, 'd) store \<Rightarrow> ('t, 'd) request_row \<Rightarrow> bool" where
  "request_links db r \<longleftrightarrow> rq_tenant r \<in> tenant_ids db \<and> refers (membership_keys db) (rq_tenant r) (rq_requester r)
     \<and> refers (assignment_keys db) (rq_tenant r) (rq_replaced r) \<and> refers (membership_keys db) (rq_tenant r) (rq_decided_by r)"

definition invitation_links :: "('t, 'd) store \<Rightarrow> 't invitation_row \<Rightarrow> bool" where
  "invitation_links db r \<longleftrightarrow> iv_tenant r \<in> tenant_ids db \<and> refers (membership_keys db) (iv_tenant r) (iv_issued_by r)
     \<and> refers (grant_keys db) (iv_tenant r) (iv_grant r) \<and> refers (request_keys db) (iv_tenant r) (iv_request r)
     \<and> refers (membership_keys db) (iv_tenant r) (iv_accepted_membership r)"

definition invitation_role_links :: "('t, 'd) store \<Rightarrow> 'd invitation_role_row \<Rightarrow> bool" where
  "invitation_role_links db r \<longleftrightarrow> ir_tenant r \<in> tenant_ids db \<and> (ir_tenant r, ir_invitation r) \<in> set (invitation_keys db)
     \<and> (ir_tenant r, ir_role r) \<in> set (role_keys db)"

definition group_links :: "('t, 'd) store \<Rightarrow> 't group_row \<Rightarrow> bool" where
  "group_links db g \<longleftrightarrow> grp_tenant g \<in> tenant_ids db \<and> (grp_tenant g, grp_created_by g) \<in> set (membership_keys db)
     \<and> refers (db_units db) (grp_tenant g) (grp_unit g) \<and> refers (db_cohorts db) (grp_tenant g) (grp_cohort g)"

definition group_member_links :: "('t, 'd) store \<Rightarrow> 't group_member_row \<Rightarrow> bool" where
  "group_member_links db r \<longleftrightarrow> gm_tenant r \<in> tenant_ids db \<and> (gm_tenant r, gm_group r) \<in> set (group_keys db)
     \<and> (gm_tenant r, gm_membership r) \<in> set (membership_keys db) \<and> (gm_tenant r, gm_added_by r) \<in> set (membership_keys db)"

lemmas link_defs = membership_links_def role_links_def assignment_links_def grant_links_def request_links_def
  invitation_links_def invitation_role_links_def group_links_def group_member_links_def

definition references :: "('t, 'd) store \<Rightarrow> bool" where
  "references db \<longleftrightarrow>
     (\<forall>r\<in>set (db_memberships db). membership_links db r) \<and> (\<forall>r\<in>set (db_roles db). role_links db r)
     \<and> (\<forall>r\<in>set (db_assignments db). assignment_links db r) \<and> (\<forall>g\<in>set (db_grants db). grant_links db g)
     \<and> (\<forall>r\<in>set (db_requests db). request_links db r) \<and> (\<forall>r\<in>set (db_invitations db). invitation_links db r)
     \<and> (\<forall>r\<in>set (db_invitation_roles db). invitation_role_links db r) \<and> (\<forall>g\<in>set (db_groups db). group_links db g)
     \<and> (\<forall>r\<in>set (db_group_members db). group_member_links db r)
     \<and> (\<forall>s\<in>set (db_signups db). sg_tenant s \<in> tenant_ids db) \<and> (\<forall>r\<in>set (db_recovery_contacts db). rc_tenant r \<in> tenant_ids db)
     \<and> (\<forall>p\<in>set (db_units db). fst p \<in> tenant_ids db) \<and> (\<forall>p\<in>set (db_cohorts db). fst p \<in> tenant_ids db)"

definition unique_keys :: "('t, 'd) store \<Rightarrow> bool" where
  "unique_keys db \<longleftrightarrow>
     core_keys db \<and> distinct (grant_keys db)
     \<and> distinct (map (\<lambda>r. (ir_tenant r, ir_invitation r, ir_role r)) (db_invitation_roles db))
     \<and> distinct (map sg_tenant (db_signups db)) \<and> distinct (map rc_tenant (db_recovery_contacts db))"

text \<open>The integrity of the store.\<close>

definition store_ok :: "('t::linorder, 'd::linorder) store \<Rightarrow> bool" where
  "store_ok db \<longleftrightarrow> unique_keys db \<and> references db \<and> row_checks db \<and> one_live_tenant db \<and> one_open_request db \<and> one_current_member db"

definition links_ok :: "('t, 'd) store \<Rightarrow> bool" where
  "links_ok db \<longleftrightarrow> references db \<and> distinct (grant_keys db)
     \<and> distinct (map (\<lambda>r. (ir_tenant r, ir_invitation r, ir_role r)) (db_invitation_roles db))
     \<and> distinct (map sg_tenant (db_signups db)) \<and> distinct (map rc_tenant (db_recovery_contacts db))"

lemma refers_simps [simp]: "refers keys t None" "refers keys t (Some i) \<longleftrightarrow> (t, i) \<in> set keys"
  by (simp_all add: refers_def)

lemma refers_set: "refers keys t x \<longleftrightarrow> (\<forall>i\<in>set_option x. (t, i) \<in> set keys)"
  by (cases x) simp_all

lemma references_core: "references db \<Longrightarrow> core_references db"
  unfolding references_def core_references_def
  by (elim conjE, intro conjI ballI)
    (auto simp: membership_links_def account_ids_def assignment_links_def grant_links_def source_keys_def
      group_member_links_def role_links_def)

lemma store_ok_parts: "store_ok db \<longleftrightarrow> tables_ok db \<and> links_ok db"
  unfolding store_ok_def tables_ok_def links_ok_def unique_keys_def using references_core by blast

section \<open>Links under growing keys\<close>

definition keys_within :: "('t, 'd) store \<Rightarrow> ('t, 'd) store \<Rightarrow> bool" where
  "keys_within db db' \<longleftrightarrow>
     tenant_ids db \<subseteq> tenant_ids db' \<and> account_ids db \<subseteq> account_ids db'
     \<and> set (membership_keys db) \<subseteq> set (membership_keys db') \<and> set (role_keys db) \<subseteq> set (role_keys db')
     \<and> set (assignment_keys db) \<subseteq> set (assignment_keys db') \<and> set (group_keys db) \<subseteq> set (group_keys db')
     \<and> set (grant_keys db) \<subseteq> set (grant_keys db') \<and> set (request_keys db) \<subseteq> set (request_keys db')
     \<and> set (invitation_keys db) \<subseteq> set (invitation_keys db') \<and> db_units db' = db_units db \<and> db_cohorts db' = db_cohorts db"

lemma refers_mono: "refers keys t x \<Longrightarrow> set keys \<subseteq> set keys' \<Longrightarrow> refers keys' t x"
  by (cases x) auto

lemma links_mono:
  assumes "keys_within db db'"
  shows "membership_links db m \<Longrightarrow> membership_links db' m" "role_links db r \<Longrightarrow> role_links db' r"
    "assignment_links db ra \<Longrightarrow> assignment_links db' ra" "grant_links db hg \<Longrightarrow> grant_links db' hg"
    "request_links db rq \<Longrightarrow> request_links db' rq" "invitation_links db iv \<Longrightarrow> invitation_links db' iv"
    "invitation_role_links db ir \<Longrightarrow> invitation_role_links db' ir" "group_links db g \<Longrightarrow> group_links db' g"
    "group_member_links db gm \<Longrightarrow> group_member_links db' gm" "t \<in> tenant_ids db \<Longrightarrow> t \<in> tenant_ids db'"
  using assms unfolding keys_within_def link_defs by (auto intro: refers_mono)

text \<open>A store whose rows are those of a linked store, or linked themselves.\<close>

lemma references_grow:
  assumes "references db" "keys_within db db'"
    and "\<And>r. r \<in> set (db_memberships db') \<Longrightarrow> r \<in> set (db_memberships db) \<or> membership_links db' r"
    and "\<And>r. r \<in> set (db_roles db') \<Longrightarrow> r \<in> set (db_roles db) \<or> role_links db' r"
    and "\<And>r. r \<in> set (db_assignments db') \<Longrightarrow> r \<in> set (db_assignments db) \<or> assignment_links db' r"
    and "\<And>r. r \<in> set (db_grants db') \<Longrightarrow> r \<in> set (db_grants db) \<or> grant_links db' r"
    and "\<And>r. r \<in> set (db_requests db') \<Longrightarrow> r \<in> set (db_requests db) \<or> request_links db' r"
    and "\<And>r. r \<in> set (db_invitations db') \<Longrightarrow> r \<in> set (db_invitations db) \<or> invitation_links db' r"
    and "\<And>r. r \<in> set (db_invitation_roles db') \<Longrightarrow> r \<in> set (db_invitation_roles db) \<or> invitation_role_links db' r"
    and "\<And>r. r \<in> set (db_groups db') \<Longrightarrow> r \<in> set (db_groups db) \<or> group_links db' r"
    and "\<And>r. r \<in> set (db_group_members db') \<Longrightarrow> r \<in> set (db_group_members db) \<or> group_member_links db' r"
    and "\<And>s. s \<in> set (db_signups db') \<Longrightarrow> s \<in> set (db_signups db) \<or> sg_tenant s \<in> tenant_ids db'"
    and "\<And>r. r \<in> set (db_recovery_contacts db') \<Longrightarrow> r \<in> set (db_recovery_contacts db) \<or> rc_tenant r \<in> tenant_ids db'"
  shows "references db'"
proof -
  have "db_units db' = db_units db" "db_cohorts db' = db_cohorts db" using assms(2) by (simp_all add: keys_within_def)
  with assms(1) show ?thesis
    unfolding references_def using links_mono [OF assms(2)] assms(3-) by (elim conjE) (intro conjI ballI; metis)
qed

text \<open>What the links say of one row.\<close>

lemma linked_rows:
  assumes "links_ok db"
  shows "m \<in> set (db_memberships db) \<Longrightarrow> membership_links db m" "r \<in> set (db_roles db) \<Longrightarrow> role_links db r"
    "ra \<in> set (db_assignments db) \<Longrightarrow> assignment_links db ra" "hg \<in> set (db_grants db) \<Longrightarrow> grant_links db hg"
    "rq \<in> set (db_requests db) \<Longrightarrow> request_links db rq" "iv \<in> set (db_invitations db) \<Longrightarrow> invitation_links db iv"
    "ir \<in> set (db_invitation_roles db) \<Longrightarrow> invitation_role_links db ir" "g \<in> set (db_groups db) \<Longrightarrow> group_links db g"
    "gm \<in> set (db_group_members db) \<Longrightarrow> group_member_links db gm" "s \<in> set (db_signups db) \<Longrightarrow> sg_tenant s \<in> tenant_ids db"
    "rc \<in> set (db_recovery_contacts db) \<Longrightarrow> rc_tenant rc \<in> tenant_ids db" "u \<in> set (db_units db) \<Longrightarrow> fst u \<in> tenant_ids db"
    "c \<in> set (db_cohorts db) \<Longrightarrow> fst c \<in> tenant_ids db"
  using assms unfolding links_ok_def references_def by blast+

lemma linked_unique:
  assumes "links_ok db"
  shows "distinct (map (\<lambda>g. (hg_tenant g, hg_id g)) (db_grants db))"
    "distinct (map (\<lambda>r. (ir_tenant r, ir_invitation r, ir_role r)) (db_invitation_roles db))"
    "distinct (map sg_tenant (db_signups db))" "distinct (map rc_tenant (db_recovery_contacts db))" "references db"
  using assms unfolding links_ok_def grant_keys_def by blast+

text \<open>A key found is the key of a row, and the row's tenant is there.\<close>

lemma found_tenant: "find_tenant t db \<noteq> None \<longleftrightarrow> t \<in> tenant_ids db"
  by (force simp: find_tenant_def tenant_ids_def find_None_iff)

lemma found_keys:
  "find_membership t m db \<noteq> None \<Longrightarrow> (t, m) \<in> set (membership_keys db)" "find_role t r db \<noteq> None \<Longrightarrow> (t, r) \<in> set (role_keys db)"
  "find_assignment t a db \<noteq> None \<Longrightarrow> (t, a) \<in> set (assignment_keys db)" "find_group t g db \<noteq> None \<Longrightarrow> (t, g) \<in> set (group_keys db)"
  by (simp_all only: find_keys simp_thms)

lemma found_grant: "find_grant t i db \<noteq> None \<longleftrightarrow> (t, i) \<in> set (grant_keys db)"
  by (force simp: find_grant_def grant_keys_def find_None_iff)

lemma found_invitation: "find_invitation t i db \<noteq> None \<longleftrightarrow> (t, i) \<in> set (invitation_keys db)"
  by (force simp: find_invitation_def invitation_keys_def find_None_iff)

lemma found_request: "list_ex (\<lambda>s. rq_tenant s = t \<and> rq_id s = i) (db_requests db) \<Longrightarrow> (t, i) \<in> set (request_keys db)"
  by (force simp: request_keys_def list_ex_iff)

lemma tenant_of_membership: "links_ok db \<Longrightarrow> (t, m) \<in> set (membership_keys db) \<Longrightarrow> t \<in> tenant_ids db"
  by (auto simp: membership_keys_def membership_links_def dest!: linked_rows(1))

lemma tenant_of_assignment: "links_ok db \<Longrightarrow> (t, a) \<in> set (assignment_keys db) \<Longrightarrow> t \<in> tenant_ids db"
  by (auto simp: assignment_keys_def assignment_links_def dest!: linked_rows(3))

lemma tenant_of_invitation: "links_ok db \<Longrightarrow> (t, i) \<in> set (invitation_keys db) \<Longrightarrow> t \<in> tenant_ids db"
  by (auto simp: invitation_keys_def invitation_links_def dest!: linked_rows(6))

section \<open>Rows of one table\<close>

text \<open>What the rows of a table must meet to replace it.\<close>

lemmas keep_keys = keys_within_def tenant_ids_def account_ids_def key_defs grant_keys_def

lemma linked_tenants:
  assumes "links_ok db" "set (map tn_id (db_tenants db)) \<subseteq> set (map tn_id rows)"
  shows "links_ok (db\<lparr>db_tenants := rows\<rparr>)"
proof -
  have "references (db\<lparr>db_tenants := rows\<rparr>)"
    by (rule references_grow [OF linked_unique(5) [OF assms(1)]]) (use assms(2) in \<open>simp_all add: keep_keys\<close>)
  then show ?thesis using assms(1) by (simp add: links_ok_def grant_keys_def)
qed

lemma linked_accounts:
  assumes "links_ok db" "set (map acc_id (db_accounts db)) \<subseteq> set (map acc_id rows)"
  shows "links_ok (db\<lparr>db_accounts := rows\<rparr>)"
proof -
  have "references (db\<lparr>db_accounts := rows\<rparr>)"
    by (rule references_grow [OF linked_unique(5) [OF assms(1)]]) (use assms(2) in \<open>simp_all add: keep_keys\<close>)
  then show ?thesis using assms(1) by (simp add: links_ok_def grant_keys_def)
qed

lemma linked_memberships:
  assumes "links_ok db" "set (map (\<lambda>r. (mb_tenant r, mb_id r)) (db_memberships db)) \<subseteq> set (map (\<lambda>r. (mb_tenant r, mb_id r)) rows)"
    "\<And>r. r \<in> set rows \<Longrightarrow> membership_links db r"
  shows "links_ok (db\<lparr>db_memberships := rows\<rparr>)"
proof -
  have "references (db\<lparr>db_memberships := rows\<rparr>)"
    by (rule references_grow [OF linked_unique(5) [OF assms(1)]])
      (use assms(2,3) in \<open>simp_all add: keep_keys membership_links_def\<close>)
  then show ?thesis using assms(1) by (simp add: links_ok_def grant_keys_def)
qed

lemma linked_roles:
  assumes "links_ok db" "set (map (\<lambda>r. (ro_tenant r, ro_id r)) (db_roles db)) \<subseteq> set (map (\<lambda>r. (ro_tenant r, ro_id r)) rows)"
    "\<And>r. r \<in> set rows \<Longrightarrow> role_links db r"
  shows "links_ok (db\<lparr>db_roles := rows\<rparr>)"
proof -
  have "references (db\<lparr>db_roles := rows\<rparr>)"
    by (rule references_grow [OF linked_unique(5) [OF assms(1)]])
      (use assms(2,3) in \<open>simp_all add: keep_keys role_links_def\<close>)
  then show ?thesis using assms(1) by (simp add: links_ok_def grant_keys_def)
qed

lemma linked_assignments:
  assumes "links_ok db" "set (map (\<lambda>r. (ra_tenant r, ra_id r)) (db_assignments db)) \<subseteq> set (map (\<lambda>r. (ra_tenant r, ra_id r)) rows)"
    "\<And>r. r \<in> set rows \<Longrightarrow> assignment_links db r"
  shows "links_ok (db\<lparr>db_assignments := rows\<rparr>)"
proof -
  have "references (db\<lparr>db_assignments := rows\<rparr>)"
    by (rule references_grow [OF linked_unique(5) [OF assms(1)]])
      (use assms(2,3) in \<open>simp_all add: keep_keys assignment_links_def\<close>)
  then show ?thesis using assms(1) by (simp add: links_ok_def grant_keys_def)
qed

lemma linked_grants:
  assumes "links_ok db" "set (map (\<lambda>g. (hg_tenant g, hg_id g)) (db_grants db)) \<subseteq> set (map (\<lambda>g. (hg_tenant g, hg_id g)) rows)"
    "\<And>g. g \<in> set rows \<Longrightarrow> grant_links db g" "distinct (map (\<lambda>g. (hg_tenant g, hg_id g)) rows)"
  shows "links_ok (db\<lparr>db_grants := rows\<rparr>)"
proof -
  have "references (db\<lparr>db_grants := rows\<rparr>)"
    by (rule references_grow [OF linked_unique(5) [OF assms(1)]])
      (use assms(2,3) in \<open>simp_all add: keep_keys grant_links_def\<close>)
  then show ?thesis using assms(1,4) by (simp add: links_ok_def grant_keys_def)
qed

lemma linked_groups:
  assumes "links_ok db" "set (map (\<lambda>g. (grp_tenant g, grp_id g)) (db_groups db)) \<subseteq> set (map (\<lambda>g. (grp_tenant g, grp_id g)) rows)"
    "\<And>g. g \<in> set rows \<Longrightarrow> group_links db g"
  shows "links_ok (db\<lparr>db_groups := rows\<rparr>)"
proof -
  have "references (db\<lparr>db_groups := rows\<rparr>)"
    by (rule references_grow [OF linked_unique(5) [OF assms(1)]])
      (use assms(2,3) in \<open>simp_all add: keep_keys group_links_def\<close>)
  then show ?thesis using assms(1) by (simp add: links_ok_def grant_keys_def)
qed

lemma linked_group_members:
  assumes "links_ok db" "\<And>r. r \<in> set rows \<Longrightarrow> group_member_links db r"
  shows "links_ok (db\<lparr>db_group_members := rows\<rparr>)"
proof -
  have "references (db\<lparr>db_group_members := rows\<rparr>)"
    by (rule references_grow [OF linked_unique(5) [OF assms(1)]])
      (use assms(2) in \<open>simp_all add: keep_keys group_member_links_def\<close>)
  then show ?thesis using assms(1) by (simp add: links_ok_def grant_keys_def)
qed

lemma linked_requests:
  assumes "links_ok db" "set (map (\<lambda>r. (rq_tenant r, rq_id r)) (db_requests db)) \<subseteq> set (map (\<lambda>r. (rq_tenant r, rq_id r)) rows)"
    "\<And>r. r \<in> set rows \<Longrightarrow> request_links db r"
  shows "links_ok (db\<lparr>db_requests := rows\<rparr>)"
proof -
  have "references (db\<lparr>db_requests := rows\<rparr>)"
    by (rule references_grow [OF linked_unique(5) [OF assms(1)]])
      (use assms(2,3) in \<open>simp_all add: keep_keys request_links_def\<close>)
  then show ?thesis using assms(1) by (simp add: links_ok_def grant_keys_def)
qed

lemma linked_invitations:
  assumes "links_ok db" "set (map (\<lambda>r. (iv_tenant r, iv_id r)) (db_invitations db)) \<subseteq> set (map (\<lambda>r. (iv_tenant r, iv_id r)) rows)"
    "\<And>r. r \<in> set rows \<Longrightarrow> invitation_links db r"
  shows "links_ok (db\<lparr>db_invitations := rows\<rparr>)"
proof -
  have "references (db\<lparr>db_invitations := rows\<rparr>)"
    by (rule references_grow [OF linked_unique(5) [OF assms(1)]])
      (use assms(2,3) in \<open>simp_all add: keep_keys invitation_links_def\<close>)
  then show ?thesis using assms(1) by (simp add: links_ok_def grant_keys_def)
qed

lemma linked_invitation_roles:
  assumes "links_ok db" "\<And>r. r \<in> set rows \<Longrightarrow> invitation_role_links db r"
    "distinct (map (\<lambda>r. (ir_tenant r, ir_invitation r, ir_role r)) rows)"
  shows "links_ok (db\<lparr>db_invitation_roles := rows\<rparr>)"
proof -
  have "references (db\<lparr>db_invitation_roles := rows\<rparr>)"
    by (rule references_grow [OF linked_unique(5) [OF assms(1)]])
      (use assms(2) in \<open>simp_all add: keep_keys invitation_role_links_def\<close>)
  then show ?thesis using assms(1,3) by (simp add: links_ok_def grant_keys_def)
qed

lemma linked_signups:
  assumes "links_ok db" "\<And>s. s \<in> set rows \<Longrightarrow> sg_tenant s \<in> tenant_ids db" "distinct (map sg_tenant rows)"
  shows "links_ok (db\<lparr>db_signups := rows\<rparr>)"
proof -
  have "references (db\<lparr>db_signups := rows\<rparr>)"
    by (rule references_grow [OF linked_unique(5) [OF assms(1)]]) (use assms(2) in \<open>simp_all add: keep_keys\<close>)
  then show ?thesis using assms(1,3) by (simp add: links_ok_def grant_keys_def)
qed

lemma linked_recovery_contacts:
  assumes "links_ok db" "\<And>r. r \<in> set rows \<Longrightarrow> rc_tenant r \<in> tenant_ids db" "distinct (map rc_tenant rows)"
  shows "links_ok (db\<lparr>db_recovery_contacts := rows\<rparr>)"
proof -
  have "references (db\<lparr>db_recovery_contacts := rows\<rparr>)"
    by (rule references_grow [OF linked_unique(5) [OF assms(1)]]) (use assms(2) in \<open>simp_all add: keep_keys\<close>)
  then show ?thesis using assms(1,3) by (simp add: links_ok_def grant_keys_def)
qed

lemma linked_other [simp]:
  "links_ok (db\<lparr>db_drawn := n\<rparr>) \<longleftrightarrow> links_ok db" "links_ok (db\<lparr>db_audit := rows1\<rparr>) \<longleftrightarrow> links_ok db"
  "links_ok (db\<lparr>db_outbox := rows2\<rparr>) \<longleftrightarrow> links_ok db" "links_ok (db\<lparr>db_notices := rows3\<rparr>) \<longleftrightarrow> links_ok db"
  by (simp_all add: links_ok_def references_def link_defs key_defs grant_keys_def tenant_ids_def account_ids_def)

lemma links_drawn [simp]:
  "assignment_links (db\<lparr>db_drawn := n\<rparr>) ra = assignment_links db ra" "grant_links (db\<lparr>db_drawn := n\<rparr>) g = grant_links db g"
  by (simp_all add: link_defs tenant_ids_def key_defs)

section \<open>Every statement keeps the links\<close>

text \<open>Rows rewritten in place, their keys and references kept.\<close>

lemma rewritten_linked:
  "\<lbrakk>x \<in> set (map (\<lambda>r. if p r then f r else r) rows); \<And>r. r \<in> set rows \<Longrightarrow> Q r; \<And>r. r \<in> set rows \<Longrightarrow> Q r \<Longrightarrow> p r \<Longrightarrow> Q (f r)\<rbrakk> \<Longrightarrow> Q x"
  by auto

lemma linked_draw: "links_ok db \<Longrightarrow> db_drawn db \<le> n \<Longrightarrow> links_ok (db\<lparr>db_drawn := n\<rparr>)"
  by simp

lemma linked_notice: "links_ok db \<Longrightarrow> links_ok (notify t c db)"
  by (simp add: notify_def)

lemma linked_audit: "links_ok db \<Longrightarrow> on_ok links_ok (write_audit E at e db)"
  by (rule on_ok_I) (auto simp: write_audit_def now_v7_def)

lemma linked_mail: "links_ok db \<Longrightarrow> on_ok links_ok (enqueue E at t template email params db)"
  by (rule on_ok_I) (auto simp: enqueue_def now_v7_def)

lemma rewritten_accounts:
  assumes "links_ok db" "\<And>r. acc_id (f r) = acc_id r"
  shows "links_ok (db\<lparr>db_accounts := map (\<lambda>r. if p r then f r else r) (db_accounts db)\<rparr>)"
  by (rule linked_accounts [OF assms(1)], subst map_rewritten [where key = acc_id, OF assms(2)], rule subset_refl)

lemma linked_account:
  assumes "links_ok db"
  shows "on_ok (\<lambda>(_, db'). links_ok db') (upsert_verified_account E email at db)"
proof -
  let ?db = "db\<lparr>db_drawn := Suc (db_drawn db)\<rparr>"
  have drawn: "links_ok ?db" using assms by simp
  have "links_ok (?db\<lparr>db_accounts := db_accounts db @ [r]\<rparr>)" for r
    by (rule linked_accounts [OF drawn]) auto
  moreover have "links_ok (?db\<lparr>db_accounts := map (\<lambda>r. if p r then f r else r) (db_accounts db)\<rparr>)"
    if "\<And>r. acc_id (f r) = acc_id r" for p f
    using rewritten_accounts [OF drawn, of f p] that by simp
  ultimately show ?thesis
    unfolding upsert_verified_account_def by (intro on_ok_I) (auto simp: now_v7_def split: option.splits)
qed

lemma linked_assignment:
  assumes "links_ok db"
  shows "on_ok (\<lambda>(_, db'). links_ok db') (insert_assignment E t m role p by db)"
proof (rule on_ok_I)
  fix a :: "uuid \<times> ('a, 'b) store" assume run: "insert_assignment E t m role p by db = Inr a"
  let ?r = "\<lparr>ra_tenant = t, ra_id = env_uuid E (db_drawn db), ra_membership = m, ra_role = role, ra_period = p,
    ra_revoked_at = None, ra_granted_by = by\<rparr>"
  let ?db = "db\<lparr>db_drawn := Suc (db_drawn db)\<rparr>"
  have found: "find_membership t m db \<noteq> None" "find_role t role db \<noteq> None" "\<And>g. by = Some g \<Longrightarrow> find_membership t g db \<noteq> None"
    and a: "snd a = ?db\<lparr>db_assignments := db_assignments db @ [?r]\<rparr>"
    using run by (auto simp: insert_assignment_def now_v7_def simp del: not_None_eq split: option.splits)
  have "assignment_links db ?r"
    using tenant_of_membership [OF assms found_keys(1) [OF found(1)]] found_keys(1) [OF found(1)] found_keys(2) [OF found(2)]
      found_keys(1) [OF found(3)] by (simp add: assignment_links_def refers_set)
  then have "assignment_links ?db r" if "r \<in> set (db_assignments db @ [?r])" for r
    using that linked_rows(3) [OF assms] by auto
  then have "links_ok (?db\<lparr>db_assignments := db_assignments db @ [?r]\<rparr>)"
    by (intro linked_assignments) (use assms in auto)
  then show "case a of (_, db') \<Rightarrow> links_ok db'" using a by (simp add: split_beta)
qed

lemma linked_revoked_assignments:
  assumes "links_ok db"
  shows "links_ok (revoke_assignments q now db)"
  unfolding revoke_assignments_def
proof (rule linked_assignments [OF assms])
  fix r assume "r \<in> set (map (\<lambda>r. if q r then r\<lparr>ra_revoked_at := Some now\<rparr> else r) (db_assignments db))"
  then show "assignment_links db r"
    by (rule rewritten_linked) (use linked_rows(3) [OF assms] in \<open>simp_all add: assignment_links_def\<close>)
qed (force)

lemma linked_grant:
  assumes "links_ok db"
  shows "on_ok (\<lambda>(_, db'). links_ok db') (insert_grant E t source p db)"
proof (cases "list_ex (\<lambda>g. hg_tenant g = t \<and> hg_source g = source) (db_grants db)")
  case False
  let ?g = "\<lparr>hg_tenant = t, hg_id = env_uuid E (db_drawn db), hg_source = source, hg_period = p, hg_revoked_at = None\<rparr>"
  let ?db = "db\<lparr>db_drawn := Suc (db_drawn db)\<rparr>"
  show ?thesis
  proof (rule on_ok_I)
    fix a assume "insert_grant E t source p db = Inr a"
    then have found: "find_assignment t source db \<noteq> None" "(t, env_uuid E (db_drawn db)) \<notin> (\<lambda>g. (hg_tenant g, hg_id g)) ` set (db_grants db)"
      and a: "snd a = ?db\<lparr>db_grants := db_grants db @ [?g]\<rparr>"
      using False by (auto simp: insert_grant_def now_v7_def simp del: not_None_eq)
    have "grant_links db ?g"
      using tenant_of_assignment [OF assms found_keys(3) [OF found(1)]] found_keys(3) [OF found(1)] by (simp add: grant_links_def)
    then have "grant_links ?db g" if "g \<in> set (db_grants db @ [?g])" for g
      using that linked_rows(4) [OF assms] by auto
    then have "links_ok (?db\<lparr>db_grants := db_grants db @ [?g]\<rparr>)"
      using found(2) linked_unique(1) [OF assms] assms by (intro linked_grants) auto
    then show "case a of (_, db') \<Rightarrow> links_ok db'" using a by (simp add: split_beta)
  qed
qed (use assms in \<open>simp add: insert_grant_def now_v7_def\<close>)

lemma linked_revoked_grants:
  assumes "links_ok db"
  shows "links_ok (revoke_grants q now db)"
proof -
  have keys: "map (\<lambda>g. (hg_tenant g, hg_id g)) (map (\<lambda>g. if q g \<and> hg_revoked_at g = None then g\<lparr>hg_revoked_at := Some now\<rparr> else g) (db_grants db))
      = map (\<lambda>g. (hg_tenant g, hg_id g)) (db_grants db)"
    by (rule map_rewritten) simp
  show ?thesis
    unfolding revoke_grants_def
  proof (rule linked_grants [OF assms])
    fix g assume "g \<in> set (map (\<lambda>g. if q g \<and> hg_revoked_at g = None then g\<lparr>hg_revoked_at := Some now\<rparr> else g) (db_grants db))"
    then show "grant_links db g"
      by (rule rewritten_linked) (use linked_rows(4) [OF assms] in \<open>simp_all add: grant_links_def\<close>)
  qed (simp_all only: keys linked_unique [OF assms] subset_refl)
qed

lemma linked_group:
  assumes "links_ok db"
  shows "on_ok links_ok (insert_group g db)"
proof (rule on_ok_I)
  fix db' assume "insert_group g db = Inr db'"
  then have row: "find_membership (grp_tenant g) (grp_created_by g) db \<noteq> None"
      "\<And>u. grp_unit g = Some u \<Longrightarrow> (grp_tenant g, u) \<in> set (db_units db)"
      "\<And>c. grp_cohort g = Some c \<Longrightarrow> (grp_tenant g, c) \<in> set (db_cohorts db)"
    and db': "db' = db\<lparr>db_groups := db_groups db @ [g]\<rparr>"
    by (auto simp: insert_group_def simp del: not_None_eq)
  have "group_links db g"
    using tenant_of_membership [OF assms found_keys(1) [OF row(1)]] found_keys(1) [OF row(1)] row(2,3)
    by (simp add: group_links_def refers_set)
  then show "links_ok db'"
    unfolding db' using linked_rows(8) [OF assms] by (intro linked_groups [OF assms]) auto
qed

lemma linked_group_row:
  assumes "links_ok db" "\<And>g. grp_tenant (f g) = grp_tenant g \<and> grp_id (f g) = grp_id g \<and> grp_unit (f g) = grp_unit g
    \<and> grp_cohort (f g) = grp_cohort g \<and> grp_created_by (f g) = grp_created_by g"
  shows "on_ok links_ok (update_group t i f db)"
proof (rule on_ok_I)
  fix db' assume "update_group t i f db = Inr db'"
  then have db': "db' = db\<lparr>db_groups := map (\<lambda>r. if grp_tenant r = t \<and> grp_id r = i then f r else r) (db_groups db)\<rparr>"
    by (simp add: update_group_def)
  show "links_ok db'"
    unfolding db'
  proof (rule linked_groups [OF assms(1)])
    fix g assume "g \<in> set (map (\<lambda>r. if grp_tenant r = t \<and> grp_id r = i then f r else r) (db_groups db))"
    then show "group_links db g"
      by (rule rewritten_linked) (use linked_rows(8) [OF assms(1)] assms(2) in \<open>simp_all add: group_links_def\<close>)
  qed (use assms(2) in force)
qed

lemma linked_group_member:
  assumes "links_ok db"
  shows "on_ok links_ok (insert_group_member gm db)"
proof (rule on_ok_I)
  fix db' assume "insert_group_member gm db = Inr db'"
  then have row: "find_group (gm_tenant gm) (gm_group gm) db \<noteq> None" "find_membership (gm_tenant gm) (gm_membership gm) db \<noteq> None"
      "find_membership (gm_tenant gm) (gm_added_by gm) db \<noteq> None"
    and db': "db' = db\<lparr>db_group_members := db_group_members db @ [gm]\<rparr>"
    by (auto simp: insert_group_member_def simp del: not_None_eq)
  have "group_member_links db gm"
    using tenant_of_membership [OF assms found_keys(1) [OF row(2)]] found_keys(4) [OF row(1)] found_keys(1) [OF row(2)]
      found_keys(1) [OF row(3)] by (simp add: group_member_links_def)
  then show "links_ok db'"
    unfolding db' using linked_rows(9) [OF assms] by (intro linked_group_members [OF assms]) auto
qed

lemma linked_group_members_ended:
  assumes "links_ok db"
  shows "on_ok links_ok (end_group_members q now db)"
proof (rule on_ok_I)
  fix db' assume "end_group_members q now db = Inr db'"
  then have db': "db' = db\<lparr>db_group_members := map (\<lambda>r. if q r then r\<lparr>gm_removed_at := Some now\<rparr> else r) (db_group_members db)\<rparr>"
    by (simp add: end_group_members_def)
  show "links_ok db'"
    unfolding db'
  proof (rule linked_group_members [OF assms])
    fix r assume "r \<in> set (map (\<lambda>r. if q r then r\<lparr>gm_removed_at := Some now\<rparr> else r) (db_group_members db))"
    then show "group_member_links db r"
      by (rule rewritten_linked) (use linked_rows(9) [OF assms] in \<open>simp_all add: group_member_links_def\<close>)
  qed
qed

lemma linked_membership:
  assumes "links_ok db"
  shows "on_ok links_ok (insert_membership t m a db)"
proof (rule on_ok_I)
  fix db' assume run: "insert_membership t m a db = Inr db'"
  let ?r = "\<lparr>mb_tenant = t, mb_id = m, mb_account = a, mb_revoked_at = None, mb_display_name = None,
    mb_contact_email = None, mb_name_erased_at = None, mb_retained_until = None\<rparr>"
  from run have row: "find_account a db \<noteq> None" "find_tenant t db \<noteq> None"
    and db': "db' = db\<lparr>db_memberships := db_memberships db @ [?r]\<rparr>"
    by (auto simp: insert_membership_def simp del: not_None_eq)
  have "membership_links db ?r"
    using row by (simp add: membership_links_def account_ids_def found_tenant find_account_key del: not_None_eq)
  then show "links_ok db'"
    unfolding db' using linked_rows(1) [OF assms] by (intro linked_memberships [OF assms]) auto
qed

lemma linked_membership_row:
  assumes "links_ok db" "\<And>r. mb_tenant (f r) = mb_tenant r \<and> mb_id (f r) = mb_id r \<and> mb_account (f r) = mb_account r"
  shows "on_ok links_ok (update_memberships q f db)"
proof (rule on_ok_I)
  let ?f = "\<lambda>r. retention_follows_fields r (f r)"
  have same: "mb_tenant (?f r) = mb_tenant r \<and> mb_id (?f r) = mb_id r \<and> mb_account (?f r) = mb_account r" for r
    using assms(2) [of r] by (simp add: retention_follows_fields_def)
  fix db' assume "update_memberships q f db = Inr db'"
  then have db': "db' = db\<lparr>db_memberships := map (\<lambda>r. if q r then ?f r else r) (db_memberships db)\<rparr>"
    by (simp add: update_memberships_def)
  show "links_ok db'"
    unfolding db'
  proof (rule linked_memberships [OF assms(1)])
    fix r assume "r \<in> set (map (\<lambda>r. if q r then ?f r else r) (db_memberships db))"
    then show "membership_links db r"
      by (rule rewritten_linked) (use linked_rows(1) [OF assms(1)] same in \<open>simp_all add: membership_links_def\<close>)
  qed (use same in force)
qed

lemma linked_role:
  assumes "links_ok db"
  shows "on_ok links_ok (insert_role r db)"
proof (rule on_ok_I)
  fix db' assume "insert_role r db = Inr db'"
  then have row: "find_tenant (ro_tenant r) db \<noteq> None" "\<And>g. ro_group r = Some g \<Longrightarrow> find_group (ro_tenant r) g db \<noteq> None"
      "\<And>u. ro_unit r = Some u \<Longrightarrow> (ro_tenant r, u) \<in> set (db_units db)"
      "\<And>c. ro_cohort r = Some c \<Longrightarrow> (ro_tenant r, c) \<in> set (db_cohorts db)"
    and db': "db' = db\<lparr>db_roles := db_roles db @ [r]\<rparr>"
    by (auto simp: insert_role_def simp del: not_None_eq)
  have "role_links db r"
    using row(1,3,4) found_keys(4) [OF row(2)] by (simp add: role_links_def refers_set found_tenant del: not_None_eq)
  then show "links_ok db'"
    unfolding db' using linked_rows(2) [OF assms] by (intro linked_roles [OF assms]) auto
qed

lemma linked_invitation:
  assumes "links_ok db"
  shows "on_ok links_ok (insert_invitation_row r db)"
proof (rule on_ok_I)
  fix db' assume "insert_invitation_row r db = Inr db'"
  then have row: "find_tenant (iv_tenant r) db \<noteq> None" "\<And>m. iv_issued_by r = Some m \<Longrightarrow> find_membership (iv_tenant r) m db \<noteq> None"
      "\<And>g. iv_grant r = Some g \<Longrightarrow> find_grant (iv_tenant r) g db \<noteq> None"
      "\<And>m. iv_accepted_membership r = Some m \<Longrightarrow> find_membership (iv_tenant r) m db \<noteq> None"
      "\<And>q. iv_request r = Some q \<Longrightarrow> list_ex (\<lambda>s. rq_tenant s = iv_tenant r \<and> rq_id s = q) (db_requests db)"
    and db': "db' = db\<lparr>db_invitations := db_invitations db @ [r]\<rparr>"
    by (auto simp: insert_invitation_row_def simp del: not_None_eq)
  have "invitation_links db r"
    using row(1,3) found_keys(1) [OF row(2)] found_keys(1) [OF row(4)] found_request [OF row(5)]
    by (simp add: invitation_links_def refers_set found_tenant found_grant del: not_None_eq)
  then show "links_ok db'"
    unfolding db' using linked_rows(6) [OF assms] by (intro linked_invitations [OF assms]) auto
qed

lemma linked_invitation_role:
  assumes "links_ok db"
  shows "on_ok links_ok (insert_invitation_role t i rp db)"
proof (rule on_ok_I)
  obtain role p where rp: "rp = (role, p)" by (cases rp)
  let ?r = "\<lparr>ir_tenant = t, ir_invitation = i, ir_role = role, ir_period = p\<rparr>"
  fix db' assume "insert_invitation_role t i rp db = Inr db'"
  then have row: "find_invitation t i db \<noteq> None" "find_role t role db \<noteq> None"
      "(t, i, role) \<notin> (\<lambda>r. (ir_tenant r, ir_invitation r, ir_role r)) ` set (db_invitation_roles db)"
    and db': "db' = db\<lparr>db_invitation_roles := db_invitation_roles db @ [?r]\<rparr>"
    by (auto simp: insert_invitation_role_def rp simp del: not_None_eq)
  have key: "(t, i) \<in> set (invitation_keys db)" using row(1) by (simp only: found_invitation)
  then have "invitation_role_links db ?r"
    using tenant_of_invitation [OF assms key] found_keys(2) [OF row(2)] by (simp add: invitation_role_links_def)
  then show "links_ok db'"
    unfolding db' using linked_rows(7) [OF assms] row(3) linked_unique(2) [OF assms]
    by (intro linked_invitation_roles [OF assms]) auto
qed

lemma linked_invitation_row:
  assumes "links_ok db" "\<And>r. iv_tenant (f r) = iv_tenant r \<and> iv_id (f r) = iv_id r \<and> iv_issued_by (f r) = iv_issued_by r
    \<and> iv_grant (f r) = iv_grant r \<and> iv_request (f r) = iv_request r"
  shows "on_ok links_ok (update_invitation t i f db)"
proof (rule on_ok_I)
  fix db' assume "update_invitation t i f db = Inr db'"
  then have found: "\<And>r m. r \<in> set (db_invitations db) \<Longrightarrow> is_invitation_row t i r \<Longrightarrow> iv_accepted_membership (f r) = Some m
      \<Longrightarrow> find_membership (iv_tenant (f r)) m db \<noteq> None"
    and db': "db' = db\<lparr>db_invitations := map (\<lambda>r. if is_invitation_row t i r then f r else r) (db_invitations db)\<rparr>"
    by (auto simp: update_invitation_def list_all_iff simp del: not_None_eq)
  have linked: "invitation_links db (f r)" if "r \<in> set (db_invitations db)" "is_invitation_row t i r" for r
    using linked_rows(6) [OF assms(1) that(1)] assms(2) [of r] found_keys(1) [OF found [OF that]]
    by (simp add: invitation_links_def refers_set)
  show "links_ok db'"
    unfolding db' using assms(2) linked linked_rows(6) [OF assms(1)] by (intro linked_invitations [OF assms(1)]) force+
qed

lemma linked_request:
  assumes "links_ok db"
  shows "on_ok links_ok (insert_request_row r db)"
proof (rule on_ok_I)
  fix db' assume "insert_request_row r db = Inr db'"
  then have row: "find_tenant (rq_tenant r) db \<noteq> None" "\<And>m. rq_requester r = Some m \<Longrightarrow> find_membership (rq_tenant r) m db \<noteq> None"
      "\<And>a. rq_replaced r = Some a \<Longrightarrow> find_assignment (rq_tenant r) a db \<noteq> None"
      "\<And>m. rq_decided_by r = Some m \<Longrightarrow> find_membership (rq_tenant r) m db \<noteq> None"
    and db': "db' = db\<lparr>db_requests := db_requests db @ [r]\<rparr>"
    by (auto simp: insert_request_row_def simp del: not_None_eq)
  have "request_links db r"
    using row(1) found_keys(1) [OF row(2)] found_keys(3) [OF row(3)] found_keys(1) [OF row(4)]
    by (simp add: request_links_def refers_set found_tenant del: not_None_eq)
  then show "links_ok db'"
    unfolding db' using linked_rows(5) [OF assms] by (intro linked_requests [OF assms]) auto
qed

lemma linked_requests_closed:
  assumes "links_ok db"
    "\<And>r. rq_tenant (f r) = rq_tenant r \<and> rq_id (f r) = rq_id r \<and> rq_requester_email (f r) = rq_requester_email r
       \<and> rq_requester (f r) = rq_requester r \<and> rq_replaced (f r) = rq_replaced r \<and> rq_status (f r) \<noteq> Request_Pending"
  shows "on_ok links_ok (update_requests q f db)"
proof (rule on_ok_I)
  fix db' assume "update_requests q f db = Inr db'"
  then have found: "\<And>r m. r \<in> set (db_requests db) \<Longrightarrow> q r \<Longrightarrow> rq_decided_by (f r) = Some m
      \<Longrightarrow> find_membership (rq_tenant (f r)) m db \<noteq> None"
    and db': "db' = db\<lparr>db_requests := map (\<lambda>r. if q r then f r else r) (db_requests db)\<rparr>"
    by (auto simp: update_requests_def list_all_iff simp del: not_None_eq)
  have linked: "request_links db (f r)" if "r \<in> set (db_requests db)" "q r" for r
    using linked_rows(5) [OF assms(1) that(1)] assms(2) [of r] found_keys(1) [OF found [OF that]]
    by (simp add: request_links_def refers_set)
  show "links_ok db'"
    unfolding db' using assms(2) linked linked_rows(5) [OF assms(1)] by (intro linked_requests [OF assms(1)]) force+
qed

lemma linked_activated:
  assumes "links_ok db"
  shows "on_ok links_ok (activate_row t db)"
proof (rule on_ok_I)
  fix db' assume "activate_row t db = Inr db'"
  then have db': "db' = db\<lparr>db_tenants := map (\<lambda>r. if tn_id r = t then r\<lparr>tn_status := Tenant_Active\<rparr> else r) (db_tenants db)\<rparr>"
    by (simp add: activate_row_def Let_def split: if_splits)
  show "links_ok db'"
    unfolding db' by (rule linked_tenants [OF assms]) force
qed

lemma linked_signup_deleted: "links_ok db \<Longrightarrow> links_ok (delete_signup t db)"
  unfolding delete_signup_def using linked_unique(3) [of db] linked_rows(10) [of db]
  by (auto intro!: linked_signups simp: distinct_map_filter)

lemma linked_seat:
  assumes "links_ok db"
  shows "on_ok links_ok (insert_recovery_contact t db)"
proof (rule on_ok_I)
  let ?r = "\<lparr>rc_tenant = t, rc_holder = Ewb, rc_nominee = None\<rparr>"
  fix db' assume "insert_recovery_contact t db = Inr db'"
  then have row: "find_tenant t db \<noteq> None" "t \<notin> rc_tenant ` set (db_recovery_contacts db)"
    and db': "db' = db\<lparr>db_recovery_contacts := db_recovery_contacts db @ [?r]\<rparr>"
    by (auto simp: insert_recovery_contact_def simp del: not_None_eq)
  have "t \<in> tenant_ids db" using row(1) by (simp only: found_tenant)
  then show "links_ok db'"
    unfolding db' using linked_rows(11) [OF assms] row(2) linked_unique(4) [OF assms]
    by (intro linked_recovery_contacts [OF assms]) auto
qed

text \<open>The statements of the whole store.\<close>

lemma linked_placed: "links_ok db \<Longrightarrow> on_ok (\<lambda>(_, db'). links_ok db') (try_insert_tenant t signup db)"
  by (rule on_ok_I) (auto simp: try_insert_tenant_def intro!: linked_tenants split: if_splits)

lemma linked_signup:
  assumes "links_ok db"
  shows "on_ok links_ok (insert_signup s db)"
proof (rule on_ok_I)
  fix db' assume "insert_signup s db = Inr db'"
  then have row: "find_tenant (sg_tenant s) db \<noteq> None" "sg_tenant s \<notin> sg_tenant ` set (db_signups db)"
    and db': "db' = db\<lparr>db_signups := db_signups db @ [s]\<rparr>"
    by (auto simp: insert_signup_def simp del: not_None_eq)
  have "sg_tenant s \<in> tenant_ids db" using row(1) by (simp only: found_tenant)
  then show "links_ok db'"
    unfolding db' using linked_rows(10) [OF assms] row(2) linked_unique(3) [OF assms]
    by (intro linked_signups [OF assms]) auto
qed

lemma linked_retention_chosen:
  "links_ok db \<Longrightarrow>
     links_ok (db\<lparr>db_accounts := map (\<lambda>a. if acc_id a = account then a\<lparr>acc_retention := months\<rparr> else a) (db_accounts db)\<rparr>)"
  by (rule rewritten_accounts) simp_all

text \<open>A tenant is deleted only when nothing refers to it.\<close>

lemma used_tenants:
  "m \<in> set (db_memberships db) \<Longrightarrow> tenant_in_use db (mb_tenant m)" "r \<in> set (db_roles db) \<Longrightarrow> tenant_in_use db (ro_tenant r)"
  "rq \<in> set (db_requests db) \<Longrightarrow> tenant_in_use db (rq_tenant rq)" "iv \<in> set (db_invitations db) \<Longrightarrow> tenant_in_use db (iv_tenant iv)"
  "g \<in> set (db_groups db) \<Longrightarrow> tenant_in_use db (grp_tenant g)" "rc \<in> set (db_recovery_contacts db) \<Longrightarrow> tenant_in_use db (rc_tenant rc)"
  "u \<in> set (db_units db) \<Longrightarrow> tenant_in_use db (fst u)" "c \<in> set (db_cohorts db) \<Longrightarrow> tenant_in_use db (fst c)"
  by (auto simp: tenant_in_use_def list_ex_iff)

lemma used_keys:
  "(t, m) \<in> set (membership_keys db) \<Longrightarrow> tenant_in_use db t" "(t, g) \<in> set (group_keys db) \<Longrightarrow> tenant_in_use db t"
  "(t, i) \<in> set (invitation_keys db) \<Longrightarrow> tenant_in_use db t"
  by (auto simp: key_defs used_tenants)

lemma used_assignment: "links_ok db \<Longrightarrow> (t, a) \<in> set (assignment_keys db) \<Longrightarrow> tenant_in_use db t"
  by (auto simp: assignment_keys_def assignment_links_def dest!: linked_rows(3) dest: used_keys)

lemma links_fewer_tenants:
  fixes db :: "('t, 'd) store" and signups :: "('t, 'd) signup_row list"
  assumes "\<And>t. tenant_in_use db t \<Longrightarrow> t \<in> tenant_ids db \<Longrightarrow> t \<in> tn_id ` set rows" "links_ok db"
  defines "db' \<equiv> db\<lparr>db_tenants := rows, db_signups := signups\<rparr>"
  shows "m \<in> set (db_memberships db) \<Longrightarrow> membership_links db' m" "r \<in> set (db_roles db) \<Longrightarrow> role_links db' r"
    "ra \<in> set (db_assignments db) \<Longrightarrow> assignment_links db' ra" "hg \<in> set (db_grants db) \<Longrightarrow> grant_links db' hg"
    "rq \<in> set (db_requests db) \<Longrightarrow> request_links db' rq" "iv \<in> set (db_invitations db) \<Longrightarrow> invitation_links db' iv"
    "ir \<in> set (db_invitation_roles db) \<Longrightarrow> invitation_role_links db' ir" "g \<in> set (db_groups db) \<Longrightarrow> group_links db' g"
    "gm \<in> set (db_group_members db) \<Longrightarrow> group_member_links db' gm" "rc \<in> set (db_recovery_contacts db) \<Longrightarrow> rc_tenant rc \<in> tenant_ids db'"
    "u \<in> set (db_units db) \<Longrightarrow> fst u \<in> tenant_ids db'" "c \<in> set (db_cohorts db) \<Longrightarrow> fst c \<in> tenant_ids db'"
proof -
  have kept: "tenant_in_use db t \<Longrightarrow> t \<in> tenant_ids db \<Longrightarrow> t \<in> tenant_ids db'" for t
    using assms(1) [of t] by (simp add: db'_def tenant_ids_def)
  have same: "account_ids db' = account_ids db" "membership_keys db' = membership_keys db" "role_keys db' = role_keys db"
    "assignment_keys db' = assignment_keys db" "group_keys db' = group_keys db" "grant_keys db' = grant_keys db"
    "request_keys db' = request_keys db" "invitation_keys db' = invitation_keys db" "db_units db' = db_units db"
    "db_cohorts db' = db_cohorts db"
    by (simp_all add: db'_def account_ids_def key_defs grant_keys_def)
  note rows = linked_rows [OF assms(2), unfolded link_defs]
  show "m \<in> set (db_memberships db) \<Longrightarrow> membership_links db' m"
    using rows(1) by (simp add: membership_links_def same kept used_tenants)
  show "r \<in> set (db_roles db) \<Longrightarrow> role_links db' r"
    using rows(2) by (simp add: role_links_def same kept used_tenants)
  show "ra \<in> set (db_assignments db) \<Longrightarrow> assignment_links db' ra"
    using rows(3) used_keys(1) [of "ra_tenant ra" "ra_membership ra" db] by (simp add: assignment_links_def same kept used_tenants)
  show "hg \<in> set (db_grants db) \<Longrightarrow> grant_links db' hg"
    using rows(4) used_assignment [OF assms(2), of "hg_tenant hg" "hg_source hg"] by (simp add: grant_links_def same kept used_tenants)
  show "rq \<in> set (db_requests db) \<Longrightarrow> request_links db' rq"
    using rows(5) by (simp add: request_links_def same kept used_tenants)
  show "iv \<in> set (db_invitations db) \<Longrightarrow> invitation_links db' iv"
    using rows(6) by (simp add: invitation_links_def same kept used_tenants)
  show "ir \<in> set (db_invitation_roles db) \<Longrightarrow> invitation_role_links db' ir"
    using rows(7) used_keys(3) [of "ir_tenant ir" "ir_invitation ir" db] by (simp add: invitation_role_links_def same kept used_tenants)
  show "g \<in> set (db_groups db) \<Longrightarrow> group_links db' g"
    using rows(8) by (simp add: group_links_def same kept used_tenants)
  show "gm \<in> set (db_group_members db) \<Longrightarrow> group_member_links db' gm"
    using rows(9) used_keys(2) [of "gm_tenant gm" "gm_group gm" db] by (simp add: group_member_links_def same kept used_tenants)
  show "rc \<in> set (db_recovery_contacts db) \<Longrightarrow> rc_tenant rc \<in> tenant_ids db'"
    using rows(11) by (simp add: same kept used_tenants)
  show "u \<in> set (db_units db) \<Longrightarrow> fst u \<in> tenant_ids db'" "c \<in> set (db_cohorts db) \<Longrightarrow> fst c \<in> tenant_ids db'"
    using rows(12,13) by (simp_all add: kept used_tenants)
qed

lemma linked_signups_expired:
  assumes "links_ok db" "gone = map tn_id (filter due (db_tenants db))" "\<not> list_ex (tenant_in_use db) gone"
  shows "links_ok (db\<lparr>db_tenants := filter (\<lambda>r. \<not> due r) (db_tenants db),
    db_signups := filter (\<lambda>s. sg_tenant s \<notin> set gone) (db_signups db)\<rparr>)"
proof -
  let ?rows = "filter (\<lambda>r. \<not> due r) (db_tenants db)"
  let ?signups = "filter (\<lambda>s. sg_tenant s \<notin> set gone) (db_signups db)"
  have stay: "t \<in> tn_id ` set ?rows" if "t \<in> tenant_ids db" "t \<notin> set gone" for t
    using that assms(2) by (auto simp: tenant_ids_def)
  have used: "t \<in> tn_id ` set ?rows" if "tenant_in_use db t" "t \<in> tenant_ids db" for t
    by (rule stay) (use that assms(3) in \<open>auto simp: list_ex_iff\<close>)
  have signups: "sg_tenant s \<in> tenant_ids (db\<lparr>db_tenants := ?rows, db_signups := ?signups\<rparr>)" if "s \<in> set ?signups" for s
    using that stay linked_rows(10) [OF assms(1), of s] by (simp add: tenant_ids_def)
  have "references (db\<lparr>db_tenants := ?rows, db_signups := ?signups\<rparr>)"
    using links_fewer_tenants [OF used assms(1)] signups unfolding references_def by simp
  then show ?thesis
    using linked_unique [OF assms(1)] by (simp add: links_ok_def grant_keys_def distinct_map_filter)
qed

section \<open>The integrity of the store, interpreted\<close>

lemma store_ok_tables: "store_ok db \<Longrightarrow> tables_ok db" and store_ok_links: "store_ok db \<Longrightarrow> links_ok db"
  by (simp_all add: store_ok_parts)

text \<open>The laws of the first part, for \<open>Store_History\<close>.\<close>

lemmas ok_laws = ok_draw ok_notice ok_audit ok_mail ok_account ok_assignment ok_revoked_assignments ok_grant
  ok_revoked_grants ok_group ok_group_name ok_group_visibility ok_group_archived ok_group_member ok_group_members_ended
  ok_membership ok_membership_row ok_role ok_invitation ok_invitation_role ok_invitation_token ok_invitation_revoked
  ok_invitation_accepted ok_request ok_requests_closed ok_activated ok_signup_deleted ok_seat ok_placed ok_signup
  ok_signups_expired ok_requests_lapsed ok_retention_chosen

lemmas linked_laws = linked_draw linked_notice linked_audit linked_mail linked_account linked_assignment
  linked_revoked_assignments linked_grant linked_revoked_grants linked_group linked_group_row linked_group_member
  linked_group_members_ended linked_membership linked_membership_row linked_role linked_invitation linked_invitation_role
  linked_invitation_row linked_request linked_requests_closed linked_activated linked_signup_deleted linked_seat
  linked_placed linked_signup linked_signups_expired linked_retention_chosen

interpretation links: statements E t links_ok for E t
  by unfold_locales (rule linked_laws; (assumption | simp)?; fail)+

interpretation whole_links: store_statements E links_ok for E
  by unfold_locales (fact links.statements_axioms | (rule linked_laws; (assumption | simp)?; fail))+

end
