(* ===== verification/Store_History.thy ===== *)
theory Store_History
  imports Store_References
begin

text \<open>
  What no transaction undoes. \<open>history_kept db0 db\<close> says that every row of \<open>db0\<close> is still in \<open>db\<close>, under its
  key and with its fixed fields, and that what was final in it is final still: an archived group, a
  revoked role or grant, a removed group member, an erased name, an invitation accepted or withdrawn,
  a log entry. It interprets the contract of the whole store, so it holds along every run.
\<close>

section \<open>Rows that persist\<close>

definition persists :: "('a \<Rightarrow> 'a \<Rightarrow> bool) \<Rightarrow> 'a list \<Rightarrow> 'a list \<Rightarrow> bool" where
  "persists R rows0 rows \<longleftrightarrow> (\<forall>r\<in>set rows0. \<exists>r'\<in>set rows. R r r')"

lemma persists_refl: "(\<And>r. R r r) \<Longrightarrow> persists R rows rows"
  by (auto simp: persists_def)

lemma persists_trans: "persists R a b \<Longrightarrow> persists R b c \<Longrightarrow> transp R \<Longrightarrow> persists R a c"
  unfolding persists_def transp_def by meson

lemma persists_snoc: "persists R rows0 rows \<Longrightarrow> persists R rows0 (rows @ [r])"
  by (auto simp: persists_def)

lemma persists_rewritten:
  assumes "persists R rows0 rows" "transp R" "\<And>r. r \<in> set rows \<Longrightarrow> p r \<Longrightarrow> R r (f r)"
  shows "persists R rows0 (map (\<lambda>r. if p r then f r else r) rows)"
  unfolding persists_def
proof
  fix r assume "r \<in> set rows0"
  with assms(1) obtain r' where r': "r' \<in> set rows" "R r r'" by (auto simp: persists_def)
  show "\<exists>x\<in>set (map (\<lambda>r. if p r then f r else r) rows). R r x"
    using r' transpD [OF assms(2) r'(2) assms(3) [OF r'(1)]] by (cases "p r'") force+
qed

definition still :: "'a option \<Rightarrow> 'b option \<Rightarrow> bool" where
  "still a b \<longleftrightarrow> (a \<noteq> None \<longrightarrow> b \<noteq> None)"

lemma still_simps [simp]: "still a a" "still None b" "still a (Some x)"
  by (simp_all add: still_def)

lemma still_trans: "still a b \<Longrightarrow> still b c \<Longrightarrow> still a c"
  by (simp add: still_def)

definition account_kept :: "'t account_row \<Rightarrow> 't account_row \<Rightarrow> bool" where
  "account_kept a b \<longleftrightarrow> acc_id b = acc_id a \<and> acc_email b = acc_email a
     \<and> still (acc_verified_at a) (acc_verified_at b) \<and> acc_disabled_at b = acc_disabled_at a"

definition membership_kept :: "('t, 'd) membership_row \<Rightarrow> ('t, 'd) membership_row \<Rightarrow> bool" where
  "membership_kept a b \<longleftrightarrow> mb_tenant b = mb_tenant a \<and> mb_id b = mb_id a \<and> mb_account b = mb_account a
     \<and> still (mb_name_erased_at a) (mb_name_erased_at b)"

definition assignment_kept :: "('t, 'd) assignment_row \<Rightarrow> ('t, 'd) assignment_row \<Rightarrow> bool" where
  "assignment_kept a b \<longleftrightarrow> b\<lparr>ra_revoked_at := None\<rparr> = a\<lparr>ra_revoked_at := None\<rparr> \<and> still (ra_revoked_at a) (ra_revoked_at b)"

definition grant_kept :: "('t, 'd) handover_row \<Rightarrow> ('t, 'd) handover_row \<Rightarrow> bool" where
  "grant_kept a b \<longleftrightarrow> b\<lparr>hg_revoked_at := None\<rparr> = a\<lparr>hg_revoked_at := None\<rparr> \<and> still (hg_revoked_at a) (hg_revoked_at b)"

definition group_kept :: "'t group_row \<Rightarrow> 't group_row \<Rightarrow> bool" where
  "group_kept a b \<longleftrightarrow> grp_tenant b = grp_tenant a \<and> grp_id b = grp_id a \<and> grp_unit b = grp_unit a \<and> grp_cohort b = grp_cohort a
     \<and> grp_created_by b = grp_created_by a \<and> still (grp_archived_at a) (grp_archived_at b)"

definition group_member_kept :: "'t group_member_row \<Rightarrow> 't group_member_row \<Rightarrow> bool" where
  "group_member_kept a b \<longleftrightarrow> b\<lparr>gm_removed_at := None\<rparr> = a\<lparr>gm_removed_at := None\<rparr> \<and> still (gm_removed_at a) (gm_removed_at b)"

definition invitation_kept :: "'t invitation_row \<Rightarrow> 't invitation_row \<Rightarrow> bool" where
  "invitation_kept a b \<longleftrightarrow> iv_tenant b = iv_tenant a \<and> iv_id b = iv_id a \<and> iv_recipient b = iv_recipient a
     \<and> (\<not> invitation_pending a \<longrightarrow> b = a)"

definition request_kept :: "('t, 'd) request_row \<Rightarrow> ('t, 'd) request_row \<Rightarrow> bool" where
  "request_kept a b \<longleftrightarrow> rq_tenant b = rq_tenant a \<and> rq_id b = rq_id a \<and> rq_requester_email b = rq_requester_email a
     \<and> (rq_status a \<noteq> Request_Pending \<longrightarrow> rq_status b \<noteq> Request_Pending)"

lemmas kept_defs = account_kept_def membership_kept_def assignment_kept_def grant_kept_def group_kept_def
  group_member_kept_def invitation_kept_def request_kept_def

lemma kept_refl [simp]:
  "account_kept a a" "membership_kept m m" "assignment_kept ra ra" "grant_kept g g" "group_kept grp grp"
  "group_member_kept gm gm" "invitation_kept iv iv" "request_kept rq rq"
  by (simp_all add: kept_defs)

lemma kept_trans:
  "transp account_kept" "transp membership_kept" "transp assignment_kept" "transp grant_kept" "transp group_kept"
  "transp group_member_kept" "transp invitation_kept" "transp request_kept"
  by (auto simp: transp_def kept_defs still_def)

definition history_kept :: "('t, 'd) store \<Rightarrow> ('t, 'd) store \<Rightarrow> bool" where
  "history_kept db0 db \<longleftrightarrow>
     persists account_kept (db_accounts db0) (db_accounts db) \<and> persists membership_kept (db_memberships db0) (db_memberships db)
     \<and> persists (=) (db_roles db0) (db_roles db) \<and> persists assignment_kept (db_assignments db0) (db_assignments db)
     \<and> persists grant_kept (db_grants db0) (db_grants db) \<and> persists group_kept (db_groups db0) (db_groups db)
     \<and> persists group_member_kept (db_group_members db0) (db_group_members db)
     \<and> persists invitation_kept (db_invitations db0) (db_invitations db)
     \<and> persists (=) (db_invitation_roles db0) (db_invitation_roles db)
     \<and> persists request_kept (db_requests db0) (db_requests db) \<and> logs_grow db0 db"

lemma history_refl [simp]: "history_kept db db"
  by (auto simp: history_kept_def logs_grow_def intro: persists_refl)

section \<open>Every statement keeps history\<close>

lemmas rewritten = persists_rewritten [OF _ kept_trans(1)] persists_rewritten [OF _ kept_trans(2)]
  persists_rewritten [OF _ kept_trans(3)] persists_rewritten [OF _ kept_trans(4)] persists_rewritten [OF _ kept_trans(5)]
  persists_rewritten [OF _ kept_trans(6)] persists_rewritten [OF _ kept_trans(7)] persists_rewritten [OF _ kept_trans(8)]
lemmas history = history_kept_def logs_grow_def now_v7_def

lemma kept_draw: "history_kept db0 db \<Longrightarrow> db_drawn db \<le> n \<Longrightarrow> history_kept db0 (db\<lparr>db_drawn := n\<rparr>)"
  by (simp add: history)

lemma kept_notice: "history_kept db0 db \<Longrightarrow> history_kept db0 (notify t c db)"
  by (simp add: history notify_def)

lemma kept_audit: "history_kept db0 db \<Longrightarrow> on_ok (history_kept db0) (write_audit E at e db)"
  by (rule on_ok_I) (auto simp: history write_audit_def)

lemma kept_mail: "history_kept db0 db \<Longrightarrow> on_ok (history_kept db0) (enqueue E at t template email params db)"
  by (rule on_ok_I) (auto simp: history enqueue_def)

lemma kept_account:
  "history_kept db0 db \<Longrightarrow> on_ok (\<lambda>(_, db'). history_kept db0 db') (upsert_verified_account E email at db)"
  by (rule on_ok_I)
    (auto simp: history upsert_verified_account_def account_kept_def intro!: persists_snoc rewritten split: option.splits)

lemma kept_assignment:
  "history_kept db0 db \<Longrightarrow> on_ok (\<lambda>(_, db'). history_kept db0 db') (insert_assignment E t m role p by db)"
  by (rule on_ok_I) (auto simp: history insert_assignment_def intro!: persists_snoc)

lemma kept_revoked_assignments: "history_kept db0 db \<Longrightarrow> history_kept db0 (revoke_assignments q now db)"
  by (auto simp: history revoke_assignments_def assignment_kept_def intro!: rewritten)

lemma kept_grant: "history_kept db0 db \<Longrightarrow> on_ok (\<lambda>(_, db'). history_kept db0 db') (insert_grant E t source p db)"
  by (rule on_ok_I) (auto simp: history insert_grant_def intro!: persists_snoc split: if_splits)

lemma kept_revoked_grants: "history_kept db0 db \<Longrightarrow> history_kept db0 (revoke_grants q now db)"
  by (auto simp: history revoke_grants_def grant_kept_def intro!: rewritten)

lemma kept_group: "history_kept db0 db \<Longrightarrow> on_ok (history_kept db0) (insert_group g db)"
  by (rule on_ok_I) (auto simp: history insert_group_def intro!: persists_snoc)

lemma kept_group_row:
  "history_kept db0 db \<Longrightarrow> (\<And>g. group_kept g (f g)) \<Longrightarrow> on_ok (history_kept db0) (update_group t i f db)"
  by (rule on_ok_I) (auto simp: history update_group_def intro!: rewritten)

lemma kept_group_member: "history_kept db0 db \<Longrightarrow> on_ok (history_kept db0) (insert_group_member gm db)"
  by (rule on_ok_I) (auto simp: history insert_group_member_def intro!: persists_snoc)

lemma kept_group_members_ended: "history_kept db0 db \<Longrightarrow> on_ok (history_kept db0) (end_group_members q now db)"
  by (rule on_ok_I) (auto simp: history end_group_members_def group_member_kept_def intro!: rewritten)

lemma kept_membership: "history_kept db0 db \<Longrightarrow> on_ok (history_kept db0) (insert_membership t m a db)"
  by (rule on_ok_I) (auto simp: history insert_membership_def intro!: persists_snoc)

lemma kept_membership_row:
  assumes "history_kept db0 db" "\<And>r. mb_tenant (f r) = mb_tenant r \<and> mb_id (f r) = mb_id r \<and> mb_account (f r) = mb_account r"
    "\<And>r. mb_name_erased_at r \<noteq> None \<Longrightarrow> mb_name_erased_at (f r) \<noteq> None"
  shows "on_ok (history_kept db0) (update_memberships q f db)"
proof -
  have "membership_kept r (retention_follows_fields r (f r))" for r
    using assms(2,3) [of r] by (simp add: membership_kept_def still_def retention_follows_fields_def)
  then show ?thesis
    using assms(1) by (auto simp: history update_memberships_def intro!: on_ok_I rewritten)
qed

lemma kept_role: "history_kept db0 db \<Longrightarrow> on_ok (history_kept db0) (insert_role r db)"
  by (rule on_ok_I) (auto simp: history insert_role_def intro!: persists_snoc)

lemma kept_invitation: "history_kept db0 db \<Longrightarrow> on_ok (history_kept db0) (insert_invitation_row r db)"
  by (rule on_ok_I) (auto simp: history insert_invitation_row_def intro!: persists_snoc)

lemma kept_invitation_role: "history_kept db0 db \<Longrightarrow> on_ok (history_kept db0) (insert_invitation_role t i rp db)"
  by (rule on_ok_I) (auto simp: history insert_invitation_role_def intro!: persists_snoc split: prod.splits)

text \<open>An invitation is only rewritten while it is pending.\<close>

lemma kept_invitation_row:
  assumes "tables_ok db" "history_kept db0 db" "\<And>r. find_invitation t i db = Some r \<Longrightarrow> invitation_pending r"
    "\<And>r. iv_tenant (f r) = iv_tenant r \<and> iv_id (f r) = iv_id r \<and> iv_recipient (f r) = iv_recipient r"
  shows "on_ok (history_kept db0) (update_invitation t i f db)"
proof -
  have "invitation_kept r (f r)" if "r \<in> set (db_invitations db)" "is_invitation_row t i r" for r
    using find_invitation_row [OF assms(1) that(1)] that(2) assms(3,4) [of r]
    by (simp add: invitation_kept_def is_invitation_row_def)
  then show ?thesis
    using assms(2) by (auto simp: history update_invitation_def intro!: on_ok_I rewritten)
qed

lemma kept_request: "history_kept db0 db \<Longrightarrow> on_ok (history_kept db0) (insert_request_row r db)"
  by (rule on_ok_I) (auto simp: history insert_request_row_def intro!: persists_snoc)

lemma kept_requests_closed:
  assumes "history_kept db0 db" "\<And>r. rq_tenant (f r) = rq_tenant r \<and> rq_id (f r) = rq_id r \<and> rq_requester_email (f r) = rq_requester_email r \<and> rq_requester (f r) = rq_requester r
          \<and> rq_replaced (f r) = rq_replaced r
    \<and> rq_status (f r) \<noteq> Request_Pending"
  shows "on_ok (history_kept db0) (update_requests q f db)"
  using assms by (auto simp: history update_requests_def request_kept_def intro!: on_ok_I rewritten)

lemma kept_activated: "history_kept db0 db \<Longrightarrow> on_ok (history_kept db0) (activate_row t db)"
  by (rule on_ok_I) (auto simp: history activate_row_def Let_def split: if_splits)

lemma kept_signup_deleted: "history_kept db0 db \<Longrightarrow> history_kept db0 (delete_signup t db)"
  by (simp add: history delete_signup_def)

lemma kept_seat: "history_kept db0 db \<Longrightarrow> on_ok (history_kept db0) (insert_recovery_contact t db)"
  by (rule on_ok_I) (auto simp: history insert_recovery_contact_def)

lemma kept_placed: "history_kept db0 db \<Longrightarrow> on_ok (\<lambda>(_, db'). history_kept db0 db') (try_insert_tenant t signup db)"
  by (rule on_ok_I) (auto simp: history try_insert_tenant_def split: if_splits)

lemma kept_signup: "history_kept db0 db \<Longrightarrow> on_ok (history_kept db0) (insert_signup s db)"
  by (rule on_ok_I) (auto simp: history insert_signup_def)

lemma kept_signups_expired:
  "history_kept db0 db \<Longrightarrow> history_kept db0 (db\<lparr>db_tenants := tenants, db_signups := signups\<rparr>)"
  by (simp add: history)

lemma kept_retention_chosen:
  "history_kept db0 db \<Longrightarrow> history_kept db0 (db\<lparr>db_accounts :=
     map (\<lambda>a. if acc_id a = account then a\<lparr>acc_retention := months\<rparr> else a) (db_accounts db)\<rparr>)"
  by (auto simp: history account_kept_def intro!: rewritten)

lemmas kept_laws = kept_draw kept_notice kept_audit kept_mail kept_account kept_assignment kept_revoked_assignments kept_grant
  kept_revoked_grants kept_group kept_group_row kept_group_member kept_group_members_ended kept_membership
  kept_membership_row kept_role kept_invitation kept_invitation_role kept_invitation_row kept_request kept_requests_closed
  kept_activated kept_signup_deleted kept_seat kept_placed kept_signup kept_signups_expired kept_retention_chosen

lemma group_rows_kept:
  "group_kept g (g\<lparr>grp_name := n\<rparr>)" "group_kept g (g\<lparr>grp_visibility := v\<rparr>)" "group_kept g (g\<lparr>grp_archived_at := Some now\<rparr>)"
  by (simp_all add: group_kept_def)

interpretation lasting: statements E t "\<lambda>db. tables_ok db \<and> history_kept db0 db" for E t db0
  by unfold_locales
    (elim conjE, (rule conjI on_ok_both on_ok_both_pair),
     (rule ok_laws; (assumption | simp)?; fail), (rule kept_laws; (assumption | rule group_rows_kept | simp)?; fail))+

interpretation whole_history: store_statements E "\<lambda>db. tables_ok db \<and> history_kept db0 db" for E db0
  by unfold_locales
    (fact lasting.statements_axioms
     | (elim conjE, (rule conjI on_ok_both on_ok_both_pair),
        (rule ok_laws; (assumption | simp)?; fail), (rule kept_laws; (assumption | simp)?; fail)))+

end
