(* ===== verification/Store_Samples.thy ===== *)
theory Store_Samples
  imports Store_History Samples
begin

text \<open>
  A concrete environment and a small store for evaluating the transactions: tenant 1 is active, with an
  admin (membership 11, role 21) and a member (membership 12, role 22) in one closed group (31); tenant 2
  has a member of its own with the same account as the admin. Invitation 71 was accepted by the member, 72 is
  pending; its token is 64 times the letter b. Days are counted from 0, twelve months
  are 360 days, and a moment is its day.
\<close>

definition sample_calendar :: "(nat, nat) calendar" where
  "sample_calendar =
     \<lparr>add_months_checked = (\<lambda>d n. Some (d + 30 * nat n)), sub_months_checked = (\<lambda>d n. Some (d - 30 * nat n)),
      sub_days_checked = (\<lambda>d n. Some (d - nat n)), make_date = (\<lambda>y m d. Some (nat (360 * y + 30 * (m - 1) + d))),
      date_year = (\<lambda>d. int (d div 360)), date_min = 0, date_max = 100000,
      add_hours_checked = (\<lambda>t n. Some (t + nat n div 24)), timestamp_max = 100000\<rparr>"

definition sample_env :: "(nat, nat) env" where
  "sample_env =
     \<lparr>env_calendar = sample_calendar, env_oslo = (\<lambda>t. t), env_uuid = (\<lambda>n. 1000 + n),
      env_random = (\<lambda>n. Some (n # replicate 31 0)), env_sha256 = (\<lambda>bs. take 32 (bs @ replicate 32 0)),
      env_ucd = sample_ucd\<rparr>"

definition sample_name :: bytes where
  "sample_name = 1 # replicate 41 7"

definition sample_membership :: "nat \<Rightarrow> nat \<Rightarrow> nat \<Rightarrow> (nat, nat) membership_row" where
  "sample_membership t m a =
     \<lparr>mb_tenant = t, mb_id = m, mb_account = a, mb_revoked_at = None, mb_display_name = Some sample_name,
      mb_contact_email = None, mb_name_erased_at = None, mb_retained_until = None\<rparr>"

definition sample_assignment :: "nat \<Rightarrow> nat \<Rightarrow> nat \<Rightarrow> nat \<Rightarrow> (nat, nat) assignment_row" where
  "sample_assignment t i m role =
     \<lparr>ra_tenant = t, ra_id = i, ra_membership = m, ra_role = role, ra_period = \<lparr>starts_on = 10, ends_on_exclusive = 400\<rparr>,
      ra_revoked_at = None, ra_granted_by = None\<rparr>"

definition sample_role :: "nat \<Rightarrow> nat \<Rightarrow> capability_class \<Rightarrow> role_row" where
  "sample_role t i c =
     \<lparr>ro_tenant = t, ro_id = i, ro_name = [65], ro_class = c, ro_unit = None, ro_cohort = None, ro_group = None\<rparr>"

definition sample_account :: "nat \<Rightarrow> string \<Rightarrow> nat account_row" where
  "sample_account a e =
     \<lparr>acc_id = a, acc_email = lit e, acc_verified_at = Some 5, acc_disabled_at = None, acc_retention = Three\<rparr>"

definition sample_invitation :: "nat \<Rightarrow> nat \<Rightarrow> string \<Rightarrow> nat option \<Rightarrow> nat option \<Rightarrow> nat invitation_row" where
  "sample_invitation i letter e done_at m =
     \<lparr>iv_tenant = 1, iv_id = i, iv_token_hash = replicate 32 letter, iv_mode = Normal, iv_recipient = lit e,
      iv_issued_by = Some 11, iv_grant = None, iv_request = None, iv_holder = None, iv_expires_at = 200,
      iv_accepted_at = done_at, iv_accepted_membership = m, iv_revoked_at = None, iv_created_at = 20, iv_message = None\<rparr>"

definition sample_store :: "(nat, nat) store" where
  "sample_store =
     \<lparr>db_tenants =
        [\<lparr>tn_id = 1, tn_name = [65], tn_school = Some 50, tn_status = Tenant_Active, tn_frozen_at = None\<rparr>,
         \<lparr>tn_id = 2, tn_name = [66], tn_school = Some 51, tn_status = Tenant_Active, tn_frozen_at = None\<rparr>],
      db_signups = [],
      db_accounts = [sample_account 101 ''a@b.no'', sample_account 102 ''c@b.no''],
      db_memberships = [sample_membership 1 11 101, sample_membership 1 12 102, sample_membership 2 13 101],
      db_roles = [sample_role 1 21 Admin_Class, sample_role 1 22 Member_Class, sample_role 2 23 Member_Class],
      db_assignments = [sample_assignment 1 41 11 21, sample_assignment 1 42 12 22, sample_assignment 2 43 13 23],
      db_grants = [],
      db_invitations = [sample_invitation 71 97 ''c@b.no'' (Some 50) (Some 12), sample_invitation 72 98 ''d@b.no'' None None],
      db_invitation_roles = [\<lparr>ir_tenant = 1, ir_invitation = 72, ir_role = 22, ir_period = \<lparr>starts_on = 90, ends_on_exclusive = 400\<rparr>\<rparr>],
      db_groups = [\<lparr>grp_tenant = 1, grp_id = 31, grp_name = sample_name, grp_visibility = Visible_Closed, grp_unit = None,
        grp_cohort = None, grp_created_by = 11, grp_created_at = 20, grp_archived_at = None\<rparr>],
      db_group_members = [\<lparr>gm_tenant = 1, gm_id = 61, gm_group = 31, gm_membership = 12, gm_added_by = 11, gm_added_at = 30,
        gm_removed_at = None\<rparr>],
      db_recovery_contacts = [], db_requests = [], db_units = [], db_cohorts = [],
      db_audit = [], db_outbox = [], db_notices = [], db_drawn = 0\<rparr>"

definition sample_moment :: "(nat, nat) moment" where
  "sample_moment = \<lparr>m_now = 100, m_today = 100\<rparr>"

lemmas sample_defs = sample_store_def sample_env_def sample_calendar_def sample_moment_def sample_name_def
  sample_membership_def sample_assignment_def sample_role_def sample_invitation_def sample_account_def

definition is_committed :: "'a outcome \<Rightarrow> bool" where
  "is_committed r = (case r of Inr _ \<Rightarrow> True | Inl _ \<Rightarrow> False)"

lemma is_committed_Inr: "is_committed r \<Longrightarrow> \<exists>a. r = Inr a"
  by (cases r) (simp_all add: is_committed_def)

text \<open>The sample keeps the integrity rules.\<close>

lemma sample_unique: "core_keys sample_store"
  by code_simp

lemma sample_links: "links_ok sample_store"
  by (simp add: links_ok_def references_def link_defs keep_keys refers_def sample_defs)

lemma sample_checks: "row_checks sample_store"
  by code_simp

lemma sample_one_live: "one_live_tenant sample_store"
  by (simp add: one_live_tenant_def live_at_school_def sample_defs)

lemma sample_one_member: "one_current_member sample_store"
  by (simp add: one_current_member_def added_by_hand_def sample_defs)

lemma sample_tables: "tables_ok sample_store"
  unfolding tables_ok_def using sample_unique references_core [OF linked_unique(5) [OF sample_links]] sample_checks sample_one_live
    sample_one_member
  by (simp add: one_open_request_def sample_store_def)

lemma sample_ok: "store_ok sample_store"
  using sample_tables sample_links by (simp add: store_ok_parts)

end
