(* ===== verification/Store_Revocation.thy ===== *)
theory Store_Revocation
  imports Store_Samples
begin

text \<open>
  What revoking a role or a membership does to the tables: nothing is left of the access, and the
  last-admin safeguard, judged on the loaded admin state, speaks for the tenant after the commit.
\<close>

section \<open>Transactions up to their logs\<close>

text \<open>The tables without the logs, the queued messages and the counter of drawn ids.\<close>

definition tables :: "('t, 'd) store \<Rightarrow> ('t, 'd) store" where
  "tables db = db\<lparr>db_audit := [], db_outbox := [], db_notices := [], db_drawn := 0\<rparr>"

lemma tables_eq:
  "tables db' = tables db \<longleftrightarrow>
     db_tenants db' = db_tenants db \<and> db_signups db' = db_signups db \<and> db_accounts db' = db_accounts db
     \<and> db_memberships db' = db_memberships db \<and> db_roles db' = db_roles db \<and> db_assignments db' = db_assignments db
     \<and> db_grants db' = db_grants db \<and> db_invitations db' = db_invitations db \<and> db_invitation_roles db' = db_invitation_roles db
     \<and> db_groups db' = db_groups db \<and> db_group_members db' = db_group_members db
     \<and> db_recovery_contacts db' = db_recovery_contacts db \<and> db_requests db' = db_requests db
     \<and> db_units db' = db_units db \<and> db_cohorts db' = db_cohorts db"
  unfolding tables_def by (cases db; cases db') auto

lemma tables_audit: "write_audit E at e db = Inr db' \<Longrightarrow> tables db' = tables db"
  by (auto simp: write_audit_def now_v7_def tables_eq)

lemma tables_mail: "enqueue E at t template email params db = Inr db' \<Longrightarrow> tables db' = tables db"
  by (auto simp: enqueue_def now_v7_def tables_eq)

lemma tables_notify [simp]: "tables (notify t c db) = tables db"
  by (simp add: notify_def tables_def)

lemma tables_each:
  assumes "for_each f xs db = Inr db'" "\<And>x db db'. f x db = Inr db' \<Longrightarrow> tables db' = tables db"
  shows "tables db' = tables db"
  using for_each_rel [OF assms(1), of "\<lambda>a b. tables b = tables a"] assms(2) by auto

lemma tables_fate: "audit_profile_fate E t m at filled stamped keep db = Inr db' \<Longrightarrow> tables db' = tables db"
  by (auto simp: audit_profile_fate_def audit_profile_retained_def audit_profile_cleared_def dest: tables_audit
      split: option.splits if_splits)

text \<open>A row that a rewrite of the table leaves, or the row it becomes.\<close>

definition still_in_group :: "uuid \<Rightarrow> uuid \<Rightarrow> 't group_member_row \<Rightarrow> bool" where
  "still_in_group t m r \<longleftrightarrow> gm_tenant r = t \<and> gm_membership r = m \<and> gm_removed_at r = None"

lemma tables_left_groups:
  assumes "remove_from_all_groups E t actor m cause at db = Inr db'"
  shows "tables db' = tables (db\<lparr>db_group_members :=
    map (\<lambda>r. if still_in_group t m r then r\<lparr>gm_removed_at := Some (m_now at)\<rparr> else r) (db_group_members db)\<rparr>)"
proof -
  have step: "tables b = tables a"
    if "and_then (write_audit E at e a) (\<lambda>db. Inr (notify t c db)) = Inr b" for e c a b
    using that by (auto dest: tables_audit)
  show ?thesis
    using assms unfolding remove_from_all_groups_def Let_def end_group_members_def still_in_group_def
    by (auto dest!: tables_each [OF _ step])
qed

lemma tables_withdrawn:
  assumes "withdraw_pending_requests E t actor m at db = Inr db'"
  shows "tables db' = tables (db\<lparr>db_requests := map (\<lambda>rq. if pending_request_of t m db rq
    then rq\<lparr>rq_status := Withdrawn, rq_closed_at := Some (m_now at)\<rparr> else rq) (db_requests db)\<rparr>)"
  using assms unfolding withdraw_pending_requests_def Let_def update_requests_def
  by (auto dest!: tables_each [OF _ tables_audit])

section \<open>The tables after a revocation\<close>

definition revoke_runs_on :: "uuid \<Rightarrow> uuid \<Rightarrow> 'd::linorder \<Rightarrow> ('t, 'd) assignment_row \<Rightarrow> bool" where
  "revoke_runs_on t m today r \<longleftrightarrow> held_by t m r \<and> ra_revoked_at r = None \<and> today < ends_on_exclusive (ra_period r)"

lemma revoke_membership_steps:
  assumes "revoke_membership E req at db = Inr db'"
  obtains mb leaves keep db1 db2 db3 db4 db5 db6 where
    "find_membership (rm_tenant req) (rm_membership req) db = Some mb" "mb_revoked_at mb = None"
    "check_last_admin (admin_state_load (rm_tenant req) db) (m_today at) (rm_confirm req) (\<lambda>_ h. h = rm_membership req) = Inr leaves"
    "db1 = revoke_assignments (revoke_runs_on (rm_tenant req) (rm_membership req) (m_today at)) (m_now at) db"
    "db2 = revoke_ended_admin_roles_with_open_window E (rm_tenant req) (rm_membership req) at db1"
    "end_membership (rm_tenant req) (rm_membership req) (m_now at) keep db2 = Inr db3"
    "tables db4 = tables db3"
    "withdraw_pending_requests E (rm_tenant req) (rm_actor req) (rm_membership req) at
       (revoke_grants (grant_held_by (rm_tenant req) (rm_membership req) db4) (m_now at) db4) = Inr db5"
    "remove_from_all_groups E (rm_tenant req) (Some (rm_actor req)) (rm_membership req) ''membership_revoked'' at db5 = Inr db6"
    "tables db' = tables db6" "(rm_tenant req, Access_Revoked (rm_membership req)) \<in> set (db_notices db')"
proof -
  have noticed: "(t, c) \<in> set (db_notices d')" if "write_audit E at e (notify t c d) = Inr d'" for t c e d d'
    using that by (auto simp: write_audit_def now_v7_def notify_def)
  show thesis
    using assms unfolding revoke_membership_def Let_def
    by (simp, elim exE conjE)
      (rule that, assumption, assumption, assumption, (unfold revoke_runs_on_def [abs_def], rule refl), rule refl, assumption,
        rule tables_fate, assumption, assumption, assumption, drule tables_audit, simp, drule noticed, assumption)
qed

definition revoked_now :: "'t \<Rightarrow> (('t, 'd) assignment_row \<Rightarrow> bool) \<Rightarrow> ('t, 'd) assignment_row \<Rightarrow> ('t, 'd) assignment_row" where
  "revoked_now now p r = (if p r then r\<lparr>ra_revoked_at := Some now\<rparr> else r)"

lemma revoked_now_simps [simp]:
  "ra_tenant (revoked_now now p r) = ra_tenant r" "ra_id (revoked_now now p r) = ra_id r"
  "ra_membership (revoked_now now p r) = ra_membership r" "ra_role (revoked_now now p r) = ra_role r"
  "ra_period (revoked_now now p r) = ra_period r" "\<not> p r \<Longrightarrow> revoked_now now p r = r"
  "p r \<Longrightarrow> ra_revoked_at (revoked_now now p r) = Some now"
  by (simp_all add: revoked_now_def)

definition ended_row :: "'t \<Rightarrow> 'd option \<Rightarrow> ('t, 'd) membership_row \<Rightarrow> ('t, 'd) membership_row" where
  "ended_row now keep r = retention_follows_fields r (r\<lparr>mb_revoked_at := Some now, mb_retained_until := keep,
     mb_display_name := (if keep = None then None else mb_display_name r),
     mb_contact_email := (if keep = None then None else mb_contact_email r)\<rparr>)"

lemma ended_row_simps [simp]:
  "mb_tenant (ended_row now keep r) = mb_tenant r" "mb_id (ended_row now keep r) = mb_id r"
  "mb_account (ended_row now keep r) = mb_account r" "mb_revoked_at (ended_row now keep r) = Some now"
  by (simp_all add: ended_row_def retention_follows_fields_def)

lemma revoke_membership_tables:
  assumes "revoke_membership E req at db = Inr db'"
  obtains mb leaves keep ids where
    "find_membership (rm_tenant req) (rm_membership req) db = Some mb"
    "check_last_admin (admin_state_load (rm_tenant req) db) (m_today at) (rm_confirm req) (\<lambda>_ h. h = rm_membership req) = Inr leaves"
    "db_assignments db' = map (revoked_now (m_now at) (\<lambda>r. ra_tenant r = rm_tenant req \<and> ra_id r \<in> set ids)
       \<circ> revoked_now (m_now at) (revoke_runs_on (rm_tenant req) (rm_membership req) (m_today at))) (db_assignments db)"
    "\<forall>i\<in>set ids. \<exists>ra\<in>set (db_assignments db). held_by (rm_tenant req) (rm_membership req) ra \<and> ra_id ra = i"
    "db_memberships db' = map (\<lambda>r. if is_membership (rm_tenant req) (rm_membership req) r then ended_row (m_now at) keep r else r) (db_memberships db)"
    "db_grants db' = map (\<lambda>g. if grant_held_by (rm_tenant req) (rm_membership req) db' g \<and> hg_revoked_at g = None
       then g\<lparr>hg_revoked_at := Some (m_now at)\<rparr> else g) (db_grants db)"
    "db_requests db' = map (\<lambda>rq. if pending_request_of (rm_tenant req) (rm_membership req) db' rq
       then rq\<lparr>rq_status := Withdrawn, rq_closed_at := Some (m_now at)\<rparr> else rq) (db_requests db)"
    "db_group_members db' = map (\<lambda>r. if still_in_group (rm_tenant req) (rm_membership req) r
       then r\<lparr>gm_removed_at := Some (m_now at)\<rparr> else r) (db_group_members db)"
    "db_accounts db' = db_accounts db" "db_roles db' = db_roles db" "db_tenants db' = db_tenants db"
    "(rm_tenant req, Access_Revoked (rm_membership req)) \<in> set (db_notices db')"
proof -
  let ?t = "rm_tenant req" and ?m = "rm_membership req"
  obtain mb leaves keep db1 db2 db3 db4 db5 db6 where s:
    "find_membership ?t ?m db = Some mb"
    "check_last_admin (admin_state_load ?t db) (m_today at) (rm_confirm req) (\<lambda>_ h. h = ?m) = Inr leaves"
    "db1 = revoke_assignments (revoke_runs_on ?t ?m (m_today at)) (m_now at) db"
    "db2 = revoke_ended_admin_roles_with_open_window E ?t ?m at db1"
    "end_membership ?t ?m (m_now at) keep db2 = Inr db3" "tables db4 = tables db3"
    "withdraw_pending_requests E ?t (rm_actor req) ?m at (revoke_grants (grant_held_by ?t ?m db4) (m_now at) db4) = Inr db5"
    "remove_from_all_groups E ?t (Some (rm_actor req)) ?m ''membership_revoked'' at db5 = Inr db6"
    "tables db' = tables db6" "(?t, Access_Revoked ?m) \<in> set (db_notices db')"
    by (rule revoke_membership_steps [OF assms])
  define ids where "ids = map ra_id (filter (window_open E (m_today at))
    (filter (ended_admin_role ?t ?m (m_today at) db1) (db_assignments db1)))"
  have db1: "db1 = db\<lparr>db_assignments := map (revoked_now (m_now at) (revoke_runs_on ?t ?m (m_today at))) (db_assignments db)\<rparr>"
    using s(3) by (simp add: revoke_assignments_def revoked_now_def [abs_def])
  have db2: "db2 = db1\<lparr>db_assignments := map (revoked_now (m_now at) (\<lambda>r. ra_tenant r = ?t \<and> ra_id r \<in> set ids)) (db_assignments db1)\<rparr>"
    using s(4) by (simp add: revoke_ended_admin_roles_with_open_window_def Let_def revoke_assignments_def ids_def revoked_now_def [abs_def])
  have db3: "db3 = db2\<lparr>db_memberships := map (\<lambda>r. if is_membership ?t ?m r then ended_row (m_now at) keep r else r) (db_memberships db2)\<rparr>"
    using s(5) unfolding end_membership_def update_memberships_def ended_row_def by (auto split: option.splits if_splits)
  note rest = s(6) tables_withdrawn [OF s(7)] tables_left_groups [OF s(8)] s(9)
  have ids: "\<forall>i\<in>set ids. \<exists>ra\<in>set (db_assignments db). held_by ?t ?m ra \<and> ra_id ra = i"
    by (auto simp: ids_def db1 ended_admin_role_def held_by_def)
  have same: "db_assignments db' = db_assignments db4" "db_memberships db' = db_memberships db4" "db_accounts db' = db_accounts db4"
    using rest by (simp_all add: tables_eq revoke_grants_def)
  have grants: "grant_held_by ?t ?m db4 = grant_held_by ?t ?m db'"
    using same by (simp add: grant_held_by_def [abs_def] assignment_of_grant_def find_assignment_def)
  have requests: "pending_request_of ?t ?m (db4\<lparr>db_grants := g\<rparr>) = pending_request_of ?t ?m db'" for g
    using same by (simp add: pending_request_of_def [abs_def] member_account_def find_membership_def find_account_def)
  show thesis
    by (rule that [where keep = keep and ids = ids, OF s(1,2) _ ids _ _ _ _ _ _ _ s(10)])
      (use rest in \<open>simp_all add: tables_eq db1 db2 db3 grants requests revoke_grants_def\<close>)
qed

section \<open>What a revoked member has left\<close>

lemma find_mapped: "(\<And>x. p (f x) = p x) \<Longrightarrow> List.find p (map f xs) = map_option f (List.find p xs)"
  by (induction xs) auto

definition has_no_access :: "uuid \<Rightarrow> uuid \<Rightarrow> 'd::linorder \<Rightarrow> ('t, 'd) store \<Rightarrow> bool" where
  "has_no_access t m today db \<longleftrightarrow>
     (\<forall>d. membership_access t m d db = access_none)
     \<and> (\<forall>ra\<in>set (db_assignments db). held_by t m ra \<and> ra_revoked_at ra = None \<longrightarrow> ends_on_exclusive (ra_period ra) \<le> today)
     \<and> (\<forall>g\<in>set (db_grants db). grant_held_by t m db g \<longrightarrow> hg_revoked_at g \<noteq> None)
     \<and> (\<forall>r\<in>set (db_group_members db). \<not> still_in_group t m r)
     \<and> (\<forall>rq\<in>set (db_requests db). \<not> pending_request_of t m db rq)"

lemma revoked_membership_row:
  assumes "revoke_membership E req at db = Inr db'"
  shows "\<exists>mb. find_membership (rm_tenant req) (rm_membership req) db' = Some mb \<and> mb_revoked_at mb \<noteq> None"
proof -
  let ?t = "rm_tenant req" and ?m = "rm_membership req"
  obtain mb leaves keep ids where found: "find_membership ?t ?m db = Some mb"
    and rows: "db_memberships db' = map (\<lambda>r. if is_membership ?t ?m r then ended_row (m_now at) keep r else r) (db_memberships db)"
    by (rule revoke_membership_tables [OF assms])
  have "find_membership ?t ?m db' = map_option (\<lambda>r. if is_membership ?t ?m r then ended_row (m_now at) keep r else r) (find_membership ?t ?m db)"
    unfolding find_membership_def rows by (rule find_mapped) simp
  with found find_membership_Some [OF found] show ?thesis by (simp add: is_membership_def)
qed

lemma revoke_membership_leaves_nothing:
  assumes "revoke_membership E req at db = Inr db'"
  shows "has_no_access (rm_tenant req) (rm_membership req) (m_today at) db'"
proof -
  let ?t = "rm_tenant req" and ?m = "rm_membership req" and ?now = "Some (m_now at)"
  obtain mb leaves keep ids where
    rows: "db_assignments db' = map (revoked_now (m_now at) (\<lambda>r. ra_tenant r = ?t \<and> ra_id r \<in> set ids)
       \<circ> revoked_now (m_now at) (revoke_runs_on ?t ?m (m_today at))) (db_assignments db)"
    and grants: "db_grants db' = map (\<lambda>g. if grant_held_by ?t ?m db' g \<and> hg_revoked_at g = None
       then g\<lparr>hg_revoked_at := ?now\<rparr> else g) (db_grants db)"
    and requests: "db_requests db' = map (\<lambda>rq. if pending_request_of ?t ?m db' rq
       then rq\<lparr>rq_status := Withdrawn, rq_closed_at := ?now\<rparr> else rq) (db_requests db)"
    and groups: "db_group_members db' = map (\<lambda>r. if still_in_group ?t ?m r then r\<lparr>gm_removed_at := ?now\<rparr> else r) (db_group_members db)"
    by (rule revoke_membership_tables [OF assms])
  have "membership_access ?t ?m d db' = access_none" for d
    using revoked_membership_row [OF assms]
    by (auto simp: membership_access_def member_account_def evaluate_access_def membership_not_revoked_def split: option.splits)
  moreover have "ends_on_exclusive (ra_period ra) \<le> m_today at"
    if "ra \<in> set (db_assignments db')" "held_by ?t ?m ra" "ra_revoked_at ra = None" for ra
    using that unfolding rows by (auto simp: revoked_now_def revoke_runs_on_def held_by_def not_less split: if_splits)
  moreover have "hg_revoked_at g \<noteq> None" if "g \<in> set (db_grants db')" "grant_held_by ?t ?m db' g" for g
    using that by (subst (asm) (1) grants) (auto split: if_splits)
  moreover have "\<not> still_in_group ?t ?m r" if "r \<in> set (db_group_members db')" for r
    using that unfolding groups by (auto simp: still_in_group_def)
  moreover have "\<not> pending_request_of ?t ?m db' rq" if "rq \<in> set (db_requests db')" for rq
    using that by (subst (asm) (1) requests) (auto simp: pending_request_of_def)
  ultimately show ?thesis by (auto simp: has_no_access_def)
qed

section \<open>The last admin\<close>

text \<open>What the safeguard promises when it lets a removal through without the confirmation: the rights
  it counted as kept cover every day, from today on, that had an admin.\<close>

lemma load_periods_ok:
  assumes "tables_ok db"
  shows "\<forall>a\<in>set (ad_assignments (admin_state_load t db)). period_ok (as_period (aa_view a))"
    "\<forall>g\<in>set (ad_grants (admin_state_load t db)). period_ok (gr_period (ag_view g))"
  using assms unfolding tables_ok_def row_checks_def
  by (auto simp: admin_state_load_def load_assignments_def load_grant_def list_all_iff List.map_filter_def
      split: option.splits if_splits)

lemma safeguard_keeps_admins:
  assumes "tables_ok db" "check_last_admin (admin_state_load t db) today False removed = Inr leaves"
    and "today \<le> d" "has_admin (admin_state_load t db) d"
    and assignments: "\<And>a. a \<in> set (ad_assignments (admin_state_load t db)) \<Longrightarrow> \<not> removed (aa_id a) (aa_membership a) \<Longrightarrow>
      a \<in> set (ad_assignments (admin_state_load t db'))"
    and grants: "\<And>g. g \<in> set (ad_grants (admin_state_load t db)) \<Longrightarrow> \<not> removed (ag_source g) (ag_membership g) \<Longrightarrow>
      g \<in> set (ad_grants (admin_state_load t db'))"
  shows "has_admin (admin_state_load t db') d"
proof -
  let ?st = "admin_state_load t db"
  define gone_a kept_a gone_g kept_g where
    "gone_a = map aa_view (filter (\<lambda>r. removed (aa_id r) (aa_membership r)) (ad_assignments ?st))"
    and "kept_a = map aa_view (filter (\<lambda>r. \<not> removed (aa_id r) (aa_membership r)) (ad_assignments ?st))"
    and "gone_g = map ag_view (filter (\<lambda>r. removed (ag_source r) (ag_membership r)) (ad_grants ?st))"
    and "kept_g = map ag_view (filter (\<lambda>r. \<not> removed (ag_source r) (ag_membership r)) (ad_grants ?st))"
  note parts = gone_a_def kept_a_def gone_g_def kept_g_def
  have "\<not> removal_leaves_no_admin kept_a kept_g gone_a gone_g today"
    using assms(2) by (auto simp: check_last_admin_def Let_def parts split: if_splits)
  moreover have "\<forall>p\<in>set (admin_periods gone_a gone_g). period_ok p"
    using load_periods_ok [OF assms(1), of t] by (auto simp: admin_periods_def parts)
  ultimately have covered: "tenant_has_admin kept_a kept_g d" if "\<exists>p\<in>set (admin_periods gone_a gone_g). period_contains p d"
    using removal_leaves_gap assms(3) that by blast
  have "tenant_has_admin kept_a kept_g d \<or> tenant_has_admin gone_a gone_g d"
    using assms(4) by (auto simp: has_admin_def tenant_has_admin_def list_ex_iff parts)
  then have "tenant_has_admin kept_a kept_g d"
    using covered by (auto simp: tenant_has_admin_periods)
  then show ?thesis
    using assignments grants by (auto simp: has_admin_def tenant_has_admin_def list_ex_iff parts)
qed

text \<open>A right the safeguard counted as kept is still there when its rows, its role and its holder are.\<close>

lemma kept_assignment_loads:
  assumes "a \<in> set (ad_assignments (admin_state_load t db))" "db_roles db' = db_roles db"
    and "\<And>ra. ra \<in> set (db_assignments db) \<Longrightarrow> ra_tenant ra = t \<Longrightarrow> ra_id ra = aa_id a \<Longrightarrow> ra_membership ra = aa_membership a \<Longrightarrow>
      ra \<in> set (db_assignments db')"
    and "membership_usable t (aa_membership a) db' = membership_usable t (aa_membership a) db"
  shows "a \<in> set (ad_assignments (admin_state_load t db'))"
  using assms by (fastforce simp: admin_state_load_def load_assignments_def has_class_def role_of_def find_role_def)

lemma kept_grant_loads:
  assumes "g \<in> set (ad_grants (admin_state_load t db))"
    and "\<And>h. h \<in> set (db_grants db) \<Longrightarrow> hg_tenant h = t \<Longrightarrow> hg_source h = ag_source g \<Longrightarrow>
      (\<exists>ra. assignment_of_grant db h = Some ra \<and> ra_membership ra = ag_membership g) \<Longrightarrow>
      h \<in> set (db_grants db') \<and> assignment_of_grant db' h = assignment_of_grant db h"
    and "membership_usable t (ag_membership g) db' = membership_usable t (ag_membership g) db"
  shows "g \<in> set (ad_grants (admin_state_load t db'))"
proof -
  obtain h where h: "h \<in> set (db_grants db)" "load_grant t db h = Some g"
    using assms(1) by (auto simp: admin_state_load_def List.map_filter_def)
  then obtain ra where ra: "hg_tenant h = t" "assignment_of_grant db h = Some ra" "ra_revoked_at ra = None"
      "membership_usable t (ra_membership ra) db" "g = \<lparr>ag_source = hg_source h, ag_membership = ra_membership ra,
         ag_view = \<lparr>gr_period = hg_period h, gr_revoked = (hg_revoked_at h \<noteq> None)\<rparr>\<rparr>"
    by (auto simp: load_grant_def split: option.splits if_splits)
  then have "h \<in> set (db_grants db')" "load_grant t db' h = Some g"
    using assms(2) [OF h(1)] assms(3) by (simp_all add: load_grant_def)
  then show ?thesis by (force simp: admin_state_load_def List.map_filter_def)
qed

lemma revoke_role_assignment_tables:
  assumes "revoke_role_assignment E req at db = Inr db'"
  obtains leaves where
    "check_last_admin (admin_state_load (rv_tenant req) db) (m_today at) (rv_confirm req) (\<lambda>i _. i = rv_assignment req) = Inr leaves"
    "db_assignments db' = map (revoked_now (m_now at) (\<lambda>r. ra_tenant r = rv_tenant req \<and> ra_id r = rv_assignment req)) (db_assignments db)"
    "db_grants db' = map (\<lambda>g. if (hg_tenant g = rv_tenant req \<and> hg_source g = rv_assignment req) \<and> hg_revoked_at g = None
       then g\<lparr>hg_revoked_at := Some (m_now at)\<rparr> else g) (db_grants db)"
    "db_memberships db' = db_memberships db" "db_accounts db' = db_accounts db" "db_roles db' = db_roles db"
proof -
  obtain leaves db1 where *: "check_last_admin (admin_state_load (rv_tenant req) db) (m_today at) (rv_confirm req)
      (\<lambda>i _. i = rv_assignment req) = Inr leaves"
    "tables db' = tables db1"
    "tables db1 = tables (revoke_grants (\<lambda>g. hg_tenant g = rv_tenant req \<and> hg_source g = rv_assignment req) (m_now at)
       (revoke_assignments (\<lambda>r. ra_tenant r = rv_tenant req \<and> ra_id r = rv_assignment req) (m_now at) db))"
    using assms unfolding revoke_role_assignment_def Let_def by (auto dest!: tables_audit)
  show thesis
    by (rule that [OF *(1)])
      (use *(2,3) in \<open>simp_all add: tables_eq revoke_grants_def revoke_assignments_def revoked_now_def [abs_def]\<close>)
qed

lemma same_key_same_row:
  "tables_ok db \<Longrightarrow> r \<in> set (db_assignments db) \<Longrightarrow> q \<in> set (db_assignments db) \<Longrightarrow>
     ra_tenant r = ra_tenant q \<Longrightarrow> ra_id r = ra_id q \<Longrightarrow> r = q"
  by (metis find_assignment_row option.inject)

lemma find_assignment_revoked:
  fixes db db' :: "('t, 'd) store"
  assumes "db_assignments db' = map f (db_assignments db)" "\<And>r. ra_tenant (f r) = ra_tenant r \<and> ra_id (f r) = ra_id r"
  shows "find_assignment t i db' = map_option f (find_assignment t i db)"
  unfolding find_assignment_def assms(1) by (rule find_mapped) (simp add: assms(2))

lemma role_revocation_keeps_admins:
  assumes ok: "tables_ok db" and commits: "revoke_role_assignment E req at db = Inr db'" "\<not> rv_confirm req"
    and day: "m_today at \<le> d" "has_admin (admin_state_load (rv_tenant req) db) d"
  shows "has_admin (admin_state_load (rv_tenant req) db') d"
proof -
  let ?t = "rv_tenant req" and ?f = "revoked_now (m_now at) (\<lambda>r. ra_tenant r = rv_tenant req \<and> ra_id r = rv_assignment req)"
  obtain leaves where s: "check_last_admin (admin_state_load ?t db) (m_today at) (rv_confirm req) (\<lambda>i _. i = rv_assignment req) = Inr leaves"
    and rows: "db_assignments db' = map ?f (db_assignments db)"
    and grants: "db_grants db' = map (\<lambda>g. if (hg_tenant g = ?t \<and> hg_source g = rv_assignment req) \<and> hg_revoked_at g = None
       then g\<lparr>hg_revoked_at := Some (m_now at)\<rparr> else g) (db_grants db)"
    and same: "db_memberships db' = db_memberships db" "db_accounts db' = db_accounts db" "db_roles db' = db_roles db"
    by (rule revoke_role_assignment_tables [OF commits(1)])
  have usable: "membership_usable ?t m db' = membership_usable ?t m db" for m
    using same by (simp add: membership_usable_def member_account_def find_membership_def find_account_def)
  have found: "find_assignment ?t i db' = map_option ?f (find_assignment ?t i db)" for i
    by (rule find_assignment_revoked [OF rows]) simp
  show ?thesis
  proof (rule safeguard_keeps_admins [OF ok _ day])
    show "check_last_admin (admin_state_load ?t db) (m_today at) False (\<lambda>i _. i = rv_assignment req) = Inr leaves"
      using s commits(2) by simp
    show "a \<in> set (ad_assignments (admin_state_load ?t db'))"
      if "a \<in> set (ad_assignments (admin_state_load ?t db))" "aa_id a \<noteq> rv_assignment req" for a
      by (rule kept_assignment_loads [OF that(1) same(3) _ usable])
        (use that(2) in \<open>auto simp: rows image_iff revoked_now_def\<close>)
    show "g \<in> set (ad_grants (admin_state_load ?t db'))"
      if "g \<in> set (ad_grants (admin_state_load ?t db))" "ag_source g \<noteq> rv_assignment req" for g
    proof (rule kept_grant_loads [OF that(1) _ usable])
      fix h assume h: "h \<in> set (db_grants db)" "hg_tenant h = ?t" "hg_source h = ag_source g"
        "\<exists>ra. assignment_of_grant db h = Some ra \<and> ra_membership ra = ag_membership g"
      then have "assignment_of_grant db' h = map_option ?f (assignment_of_grant db h)"
        by (simp add: assignment_of_grant_def found)
      moreover obtain ra where ra: "assignment_of_grant db h = Some ra" using h(4) by blast
      moreover have "ra_id ra = hg_source h"
        using ra by (simp add: assignment_of_grant_def find_assignment_Some)
      ultimately have "assignment_of_grant db' h = assignment_of_grant db h"
        using h(3) that(2) by simp
      with h that(2) show "h \<in> set (db_grants db') \<and> assignment_of_grant db' h = assignment_of_grant db h"
        by (auto simp: grants image_iff)
    qed
  qed
qed

lemma membership_revocation_keeps_admins:
  assumes ok: "tables_ok db" and commits: "revoke_membership E req at db = Inr db'" "\<not> rm_confirm req"
    and day: "m_today at \<le> d" "has_admin (admin_state_load (rm_tenant req) db) d"
  shows "has_admin (admin_state_load (rm_tenant req) db') d"
proof -
  let ?t = "rm_tenant req" and ?m = "rm_membership req"
  obtain mb leaves keep ids where s: "check_last_admin (admin_state_load ?t db) (m_today at) (rm_confirm req) (\<lambda>_ h. h = ?m) = Inr leaves"
    and rows: "db_assignments db' = map (revoked_now (m_now at) (\<lambda>r. ra_tenant r = ?t \<and> ra_id r \<in> set ids)
       \<circ> revoked_now (m_now at) (revoke_runs_on ?t ?m (m_today at))) (db_assignments db)" (is "_ = map ?f _")
    and ids: "\<forall>i\<in>set ids. \<exists>ra\<in>set (db_assignments db). held_by ?t ?m ra \<and> ra_id ra = i"
    and members: "db_memberships db' = map (\<lambda>r. if is_membership ?t ?m r then ended_row (m_now at) keep r else r) (db_memberships db)"
    and grants: "db_grants db' = map (\<lambda>g. if grant_held_by ?t ?m db' g \<and> hg_revoked_at g = None
       then g\<lparr>hg_revoked_at := Some (m_now at)\<rparr> else g) (db_grants db)"
    and same: "db_accounts db' = db_accounts db" "db_roles db' = db_roles db"
    by (rule revoke_membership_tables [OF commits(1)])
  have usable: "membership_usable ?t m db' = membership_usable ?t m db" if "m \<noteq> ?m" for m
  proof -
    have "find_membership ?t m db' = map_option (\<lambda>r. if is_membership ?t ?m r then ended_row (m_now at) keep r else r) (find_membership ?t m db)"
      unfolding find_membership_def members by (rule find_mapped) simp
    then have "find_membership ?t m db' = find_membership ?t m db"
      using that by (cases "find_membership ?t m db") (auto simp: is_membership_def dest: find_membership_Some)
    then show ?thesis using same by (simp add: membership_usable_def member_account_def find_account_def)
  qed
  have untouched: "?f ra = ra" if "ra \<in> set (db_assignments db)" "ra_tenant ra = ?t" "ra_membership ra \<noteq> ?m" for ra
  proof -
    have "ra_id ra \<notin> set ids"
      using ids same_key_same_row [OF ok that(1)] that(2,3) unfolding held_by_def by metis
    with that show ?thesis by (simp add: revoke_runs_on_def held_by_def)
  qed
  have found: "find_assignment ?t i db' = map_option ?f (find_assignment ?t i db)" for i
    by (rule find_assignment_revoked [OF rows]) simp
  show ?thesis
  proof (rule safeguard_keeps_admins [OF ok _ day])
    show "check_last_admin (admin_state_load ?t db) (m_today at) False (\<lambda>_ h. h = ?m) = Inr leaves"
      using s commits(2) by simp
    show "a \<in> set (ad_assignments (admin_state_load ?t db'))"
      if "a \<in> set (ad_assignments (admin_state_load ?t db))" "aa_membership a \<noteq> ?m" for a
    proof (rule kept_assignment_loads [OF that(1) same(2) _ usable [OF that(2)]])
      fix ra assume ra: "ra \<in> set (db_assignments db)" "ra_tenant ra = ?t" "ra_membership ra = aa_membership a"
      then have "?f ra = ra" using untouched that(2) by simp
      then show "ra \<in> set (db_assignments db')"
        using imageI [OF ra(1), of ?f] unfolding rows set_map by (simp only:)
    qed
    show "g \<in> set (ad_grants (admin_state_load ?t db'))"
      if "g \<in> set (ad_grants (admin_state_load ?t db))" "ag_membership g \<noteq> ?m" for g
    proof (rule kept_grant_loads [OF that(1) _ usable [OF that(2)]])
      fix h assume h: "h \<in> set (db_grants db)" "hg_tenant h = ?t" "hg_source h = ag_source g"
        "\<exists>ra. assignment_of_grant db h = Some ra \<and> ra_membership ra = ag_membership g"
      then obtain ra where ra: "assignment_of_grant db h = Some ra" "ra_membership ra = ag_membership g" by blast
      then have "ra \<in> set (db_assignments db)" "ra_tenant ra = ?t"
        using h(2) by (auto simp: assignment_of_grant_def dest: find_assignment_Some)
      then have now: "assignment_of_grant db' h = Some ra"
        using untouched [of ra] ra that(2) h(2) found by (simp add: assignment_of_grant_def)
      then have "\<not> grant_held_by ?t ?m db' h"
        using ra(2) that(2) by (simp add: grant_held_by_def)
      with now ra(1) h(1) show "h \<in> set (db_grants db') \<and> assignment_of_grant db' h = assignment_of_grant db h"
        unfolding grants by (auto simp: image_iff)
    qed
  qed
qed

end
