(* ===== verification/Store_Admission.thy ===== *)
theory Store_Admission
  imports Store_Revocation
begin

text \<open>
  What an acceptance rests on and what it writes: the authority it was checked against, the roles it
  grants and the invitation it closes.
\<close>

section \<open>What an acceptance rests on\<close>

lemma accept_invitation_Inr:
  assumes "accept_invitation E req at db = Inr a"
  obtains hit row st s offered roles where
    "invitation_by_hash (hash_token E (ai_token req)) db = Some hit"
    "lock_tenant (iv_tenant hit) db = Inr st"
    "find_invitation (iv_tenant hit) (iv_id hit) db = Some row" "iv_token_hash row = hash_token E (ai_token req)"
    "acceptance_snapshot_of E (iv_tenant hit) st row (ai_acceptor req) at db = Inr s"
    "check_acceptance s (m_now at) = Inr ()"
    "invitation_offer (iv_tenant hit) (iv_id hit) db = Inr offered"
    "apply_override E (iv_mode row) (ai_admin_end req) (m_today at) offered = Inr roles"
    "seat_acceptor E req at row roles
       (if iv_mode row = Recovery then recovery_notice_recipients E (iv_tenant hit) (m_today at) db else []) db = Inr a"
  using assms by (auto simp: accept_invitation_def Let_def lock_invitation_def)

lemma accepted_row:
  assumes "accept_invitation E req at db = Inr (out, db')"
  shows "\<exists>row. invitation_by_hash (hash_token E (ai_token req)) db = Some row
     \<and> (\<exists>row'. find_invitation (iv_tenant row) (iv_id row) db = Some row' \<and> invitation_pending row')"
  by (rule accept_invitation_Inr [OF assms]) (auto dest: accepted_pending)

lemma dead_token:
  assumes "tables_ok db" "r \<in> set (db_invitations db)" "\<not> invitation_pending r" "hash_token E (ai_token req) = iv_token_hash r"
  shows "\<exists>e. accept_invitation E req at db = Inl e"
proof (cases "accept_invitation E req at db")
  case (Inr a)
  obtain out db' where "a = (out, db')" by (cases a)
  with accepted_row Inr assms invitation_by_hash_row [OF assms(1,2)] find_invitation_row [OF assms(1,2)]
  have False by fastforce
  then show ?thesis ..
qed simp

text \<open>The authority behind an invitation, read from the store on the day it is accepted.\<close>

definition authority_holds :: "uuid \<Rightarrow> 't invitation_row \<Rightarrow> 'd::linorder \<Rightarrow> ('t, 'd) store \<Rightarrow> bool" where
  "authority_holds t r today db =
     (case iv_mode r of
        Normal \<Rightarrow> (\<exists>i. iv_issued_by r = Some i \<and> is_admin_today t i today db)
      | Handover \<Rightarrow> (\<exists>g i. iv_grant r = Some g \<and> iv_issued_by r = Some i \<and> handover_grant_valid t g i today db)
      | Recovery \<Rightarrow> \<not> has_admin (admin_state_load t db) today
          \<and> (case iv_holder r of Some h \<Rightarrow> recovery_seat_matches t h db | None \<Rightarrow> True)
      | Activation \<Rightarrow> True)"

lemma snapshot_authority:
  assumes "acceptance_snapshot_of E t st r who at db = Inr s" "check_acceptance s now = Inr ()"
  shows "invitation_pending r \<and> now < iv_expires_at r \<and> email_parse (env_ucd E) (iv_recipient r) = Inr (verified_email who)
     \<and> ts_status st = Tenant_Active \<and> \<not> ts_frozen st \<and> authority_holds t r (m_today at) db"
proof -
  have "\<not> refusal_applies s now x" for x
    using assms(2) by (simp add: check_acceptance_Inr)
  from this [of Expired] this [of Email_Mismatch] this [of Tenant_Not_Active] this [of Tenant_Frozen]
    this [of Issuer_Lacks_Authority] this [of Revoked] this [of Already_Accepted]
  show ?thesis
    using assms(1) unfolding acceptance_snapshot_of_def Let_def authority_holds_def invitation_pending_def
    by (cases "iv_mode r"; auto simp: issuer_authorised_def split: sum.splits option.splits)
qed

lemma locked_state: "lock_tenant t db = Inr st \<Longrightarrow>
    \<exists>tn. find_tenant t db = Some tn \<and> ts_status st = tn_status tn \<and> (ts_frozen st \<longleftrightarrow> tn_frozen_at tn \<noteq> None)"
  by (auto simp: lock_tenant_def ok_or_def split: option.splits)

section \<open>What an acceptance writes\<close>

definition granted :: "uuid \<Rightarrow> uuid \<Rightarrow> uuid option \<Rightarrow> uuid \<Rightarrow> uuid \<times> capability_class \<times> 'd period \<Rightarrow> ('t, 'd) assignment_row" where
  "granted t m by i = (\<lambda>(role, _, p). \<lparr>ra_tenant = t, ra_id = i, ra_membership = m, ra_role = role, ra_period = p,
     ra_revoked_at = None, ra_granted_by = by\<rparr>)"

lemma insert_assignment_adds:
  "insert_assignment E t m role p g db = Inr (i, db') \<Longrightarrow>
     db_assignments db' = db_assignments db @ [granted t m g i (role, c, p)] \<and> db_invitations db' = db_invitations db
     \<and> db_roles db' = db_roles db"
  by (auto simp: insert_assignment_def now_v7_def granted_def)

lemma insert_assignments_adds:
  "insert_assignments E t m g roles db = Inr (ids, db') \<Longrightarrow>
     length ids = length roles \<and> db_assignments db' = db_assignments db @ map2 (granted t m g) ids roles
     \<and> db_invitations db' = db_invitations db \<and> db_roles db' = db_roles db"
proof (induction roles arbitrary: db ids)
  case (Cons x roles)
  obtain role c p where x: "x = (role, c, p)" by (cases x)
  obtain i db1 is' where i: "insert_assignment E t m role p g db = Inr (i, db1)"
    and rest: "insert_assignments E t m g roles db1 = Inr (is', db')" and ids: "ids = i # is'"
    using Cons.prems by (auto simp: x)
  from insert_assignment_adds [OF i, of c] Cons.IH [OF rest] show ?case by (simp add: x ids)
qed simp

lemma enqueued_rows:
  assumes "for_each (\<lambda>e. enqueue E at t template e params) es db = Inr db'"
  shows "db_assignments db' = db_assignments db \<and> db_roles db' = db_roles db \<and> db_invitations db' = db_invitations db"
  using for_each_rel [OF assms, of "\<lambda>a b. db_assignments b = db_assignments a \<and> db_roles b = db_roles a \<and> db_invitations b = db_invitations a"]
  by (auto simp: enqueue_def now_v7_def)

lemma seat_acceptor_writes:
  assumes "seat_acceptor E req at r roles es db = Inr (out, db')"
  shows "length (av_assignments out) = length roles \<and> av_tenant out = iv_tenant r
     \<and> db_assignments db' = db_assignments db @ map2 (granted (iv_tenant r) (av_membership out) (iv_issued_by r)) (av_assignments out) roles
     \<and> db_roles db' = db_roles db
     \<and> (\<forall>q\<in>set (db_invitations db'). is_invitation_row (iv_tenant r) (iv_id r) q \<longrightarrow>
          iv_accepted_at q = Some (m_now at) \<and> iv_accepted_membership q = Some (av_membership out))"
proof -
  let ?t = "iv_tenant r" and ?p = "ai_profile req" and ?e = "email_str (verified_email (ai_acceptor req))"
  obtain account new db1 m reused current db2 db3 ids db4 db5 a db6 where s:
    "upsert_verified_account E ?e at db = Inr ((account, new), db1)"
    "ensure_membership E ?t account (mp_membership ?p) at db1 = Inr ((m, reused, current), db2)"
    "write_profile ?t ?p current db2 = Inr db3" "insert_assignments E ?t m (iv_issued_by r) roles db3 = Inr (ids, db4)"
    "update_invitation ?t (iv_id r) (\<lambda>q. q\<lparr>iv_accepted_at := Some (m_now at), iv_accepted_membership := Some m\<rparr>) db4 = Inr db5"
    "write_audit E at a db5 = Inr db6"
    "for_each (\<lambda>e. enqueue E at (Some ?t) ''recovery.invitation_accepted'' e
       [(lit ''tenant_id'', P_Id ?t), (lit ''invitation_id'', P_Id (iv_id r))]) es db6 = Inr db'"
    "out = \<lparr>av_tenant = ?t, av_account = account, av_membership = m, av_assignments = ids\<rparr>"
    using assms unfolding seat_acceptor_def Let_def by auto
  let ?same = "\<lambda>db'. db_assignments db' = db_assignments db \<and> db_roles db' = db_roles db"
  have "?same db1" using role_rows.account [of db "db_assignments db" "db_roles db" E ?e at] s(1) by simp
  then have "?same db2" using role_rows.ensure_membership [of db1 "db_assignments db" "db_roles db" E ?t account "mp_membership ?p" at] s(2) by simp
  then have "?same db3" using role_rows.write_profile [of db2 "db_assignments db" "db_roles db" ?t ?p current] s(3) by simp
  moreover have "db_assignments db5 = db_assignments db4 \<and> db_roles db5 = db_roles db4"
    "\<forall>q\<in>set (db_invitations db5). is_invitation_row ?t (iv_id r) q \<longrightarrow> iv_accepted_at q = Some (m_now at) \<and> iv_accepted_membership q = Some m"
    using s(5) by (auto simp: update_invitation_def is_invitation_row_def)
  moreover have "db_assignments db6 = db_assignments db5 \<and> db_roles db6 = db_roles db5 \<and> db_invitations db6 = db_invitations db5"
    using s(6) by (auto simp: write_audit_def now_v7_def)
  ultimately show ?thesis
    using insert_assignments_adds [OF s(4)] enqueued_rows [OF s(7)] s(8) by simp
qed

section \<open>A re-sent invitation\<close>

lemma resend_replaces_token:
  assumes "resend_invitation E ch at db = Inr (out, db')"
  shows "db_invitations db' = map (\<lambda>q. if is_invitation_row (ic_tenant ch) (ic_invitation ch) q
    then q\<lparr>iv_token_hash := hash_token E (is_token out), iv_expires_at := is_expires_at out\<rparr> else q) (db_invitations db)"
proof -
  let ?x = "invitation_expiry (env_calendar E) (m_now at)"
  obtain tok db1 db2 a db3 k template e params where s: "generate_token E db = Inr (tok, db1)"
    "update_invitation (ic_tenant ch) (ic_invitation ch) (\<lambda>q. q\<lparr>iv_token_hash := hash_token E tok, iv_expires_at := ?x\<rparr>) db1 = Inr db2"
    "write_audit E at a db2 = Inr db3" "enqueue E at k template e params db3 = Inr db'"
    "\<lparr>is_invitation = ic_invitation ch, is_token = tok, is_expires_at = ?x\<rparr> = out"
    using assms unfolding resend_invitation_def Let_def by auto
  have "tables db' = tables db2"
    using tables_audit [OF s(3)] tables_mail [OF s(4)] by simp
  moreover have "db_invitations db1 = db_invitations db"
    using s(1) by (auto simp: generate_token_def split: option.splits)
  ultimately show ?thesis
    using s(2,5) by (auto simp: tables_eq update_invitation_def)
qed

lemma resend_draws:
  assumes "resend_invitation E ch at db = Inr (out, db')"
  shows "db_drawn db \<le> db_drawn db' \<and> (\<exists>bs. env_random E (db_drawn db) = Some bs \<and> is_token out = token_text bs)"
  using assms unfolding resend_invitation_def Let_def
  by (auto simp: generate_token_def update_invitation_def write_audit_def enqueue_def now_v7_def split: option.splits)

text \<open>A hash that no invitation has and no token drawn from now on will have.\<close>

definition spent :: "('t, 'd) env \<Rightarrow> bytes \<Rightarrow> ('t, 'd) store \<Rightarrow> bool" where
  "spent E h db \<longleftrightarrow> h \<notin> iv_token_hash ` set (db_invitations db)
     \<and> (\<forall>n\<ge>db_drawn db. \<forall>bs. env_random E n = Some bs \<longrightarrow> hash_token E (token_text bs) \<noteq> h)"

lemma spent_on:
  "spent E h db \<Longrightarrow> iv_token_hash ` set (db_invitations db') \<subseteq> iv_token_hash ` set (db_invitations db) \<Longrightarrow> db_drawn db \<le> db_drawn db'
     \<Longrightarrow> spent E h db'"
  unfolding spent_def using order_trans by blast

lemma spent_ok:
  "spent E h db \<Longrightarrow> (\<And>db'. r = Inr db' \<Longrightarrow> db_invitations db' = db_invitations db \<and> db_drawn db \<le> db_drawn db') \<Longrightarrow> on_ok (spent E h) r"
  "spent E h db \<Longrightarrow> (\<And>a db'. r' = Inr (a, db') \<Longrightarrow> db_invitations db' = db_invitations db \<and> db_drawn db \<le> db_drawn db')
     \<Longrightarrow> on_ok (\<lambda>(_, db'). spent E h db') r'"
  by (auto intro!: on_ok_I intro: spent_on)

lemma spent_drawn: "drawn_while (spent E h) E token \<Longrightarrow> hash_token E token \<noteq> h"
  by (auto simp: drawn_while_def generate_token_def spent_def split: option.splits)

lemma spent_invitation:
  "spent E h db \<Longrightarrow> drawn_while (spent E h) E token \<Longrightarrow> iv_token_hash r = hash_token E token \<Longrightarrow> on_ok (spent E h) (insert_invitation_row r db)"
  using spent_drawn [of E h token] by (intro on_ok_I) (auto simp: insert_invitation_row_def spent_def)

lemma spent_invitation_row:
  assumes "spent E h db" "\<And>r. iv_token_hash (f r) = iv_token_hash r \<or> iv_token_hash (f r) \<noteq> h"
  shows "on_ok (spent E h) (update_invitation t i f db)"
proof (rule on_ok_I)
  fix db' assume "update_invitation t i f db = Inr db'"
  then have "db' = db\<lparr>db_invitations := map (\<lambda>r. if is_invitation_row t i r then f r else r) (db_invitations db)\<rparr>"
    by (simp add: update_invitation_def)
  then show "spent E h db'"
    using assms by (fastforce simp: spent_def split: if_splits)
qed

lemmas statement_defs = now_v7_def notify_def write_audit_def enqueue_def upsert_verified_account_def end_group_members_def
  insert_membership_def update_memberships_def insert_assignment_def revoke_assignments_def insert_grant_def revoke_grants_def
  insert_group_def update_group_def insert_group_member_def insert_role_def insert_invitation_role_def insert_request_row_def
  update_requests_def activate_row_def delete_signup_def insert_recovery_contact_def try_insert_tenant_def insert_signup_def

interpretation spent_tokens: statements E t "spent E h" for E t h
  by unfold_locales
    ((rule spent_invitation spent_invitation_row; (assumption | simp add: spent_drawn)?; fail)
     | (erule spent_ok; auto simp: statement_defs Let_def split: option.splits if_splits prod.splits; fail)
     | (erule spent_on; simp add: statement_defs; fail))+

interpretation whole_spent: store_statements E "spent E h" for E h
  by unfold_locales
    (fact spent_tokens.statements_axioms
     | (erule spent_ok; auto simp: statement_defs Let_def split: option.splits if_splits prod.splits; fail)
     | (erule spent_on; simp add: statement_defs; fail))+

lemma spent_opens_nothing:
  assumes "spent E (hash_token E token) db"
  shows "ai_token req = token \<Longrightarrow> \<exists>e. accept_invitation E req at db = Inl e" "\<exists>e. prepare_acceptance E token who at db = Inl e"
proof -
  have "invitation_by_hash (hash_token E token) db = None"
    using assms by (force simp: spent_def invitation_by_hash_def find_None_iff)
  then show "ai_token req = token \<Longrightarrow> \<exists>e. accept_invitation E req at db = Inl e" "\<exists>e. prepare_acceptance E token who at db = Inl e"
    by (auto simp: accept_invitation_def prepare_acceptance_def ok_or_def require_def and_then_def split: sum.splits)
qed

lemma resent_token_is_spent:
  assumes "tables_ok db" "resend_invitation E ch at db = Inr (out, db')"
    and "r \<in> set (db_invitations db)" "is_invitation_row (ic_tenant ch) (ic_invitation ch) r"
    and "\<And>n bs. db_drawn db \<le> n \<Longrightarrow> env_random E n = Some bs \<Longrightarrow> hash_token E (token_text bs) \<noteq> iv_token_hash r"
  shows "spent E (iv_token_hash r) db'"
proof -
  from resend_draws [OF assms(2)] obtain bs where drawn: "db_drawn db \<le> db_drawn db'"
    "env_random E (db_drawn db) = Some bs" "is_token out = token_text bs" by blast
  then have new: "hash_token E (is_token out) \<noteq> iv_token_hash r" using assms(5) [of "db_drawn db" bs] by simp
  have "iv_token_hash q \<noteq> iv_token_hash r" if "q \<in> set (db_invitations db)" "\<not> is_invitation_row (ic_tenant ch) (ic_invitation ch) q" for q
    using invitation_by_hash_row [OF assms(1,3)] invitation_by_hash_row [OF assms(1) that(1)] that(2) assms(4) by auto
  then have "iv_token_hash r \<notin> iv_token_hash ` set (db_invitations db')"
    using new unfolding resend_replaces_token [OF assms(2)] by (fastforce split: if_splits)
  then show ?thesis using assms(5) drawn(1) by (auto simp: spent_def dest: order_trans)
qed

end
