(* ===== verification/Store_Authority.thy ===== *)
theory Store_Authority
  imports Store_Samples
begin

text \<open>
  Who may do what, over the store: the two places that decide who is an administrator agree, the
  operations on groups, roles and requests are an administrator's, and the list of groups shows
  exactly the groups that can be opened.
\<close>

section \<open>The capability of a member\<close>

lemma assignment_view_valid:
  "a \<in> set (assignment_views t m db) \<and> assignment_valid_on a today \<and> c \<le> class_capability (as_capability a)
     \<Longrightarrow> \<exists>ra\<in>set (db_assignments db). held_by t m ra \<and> row_valid_on today ra
        \<and> (\<exists>r. role_of db ra = Some r \<and> c \<le> class_capability (ro_class r))"
  by (auto simp: assignment_views_def List.map_filter_def assignment_valid_on_def row_valid_on_def split: if_splits)

lemma valid_assignment_view:
  assumes "ra \<in> set (db_assignments db)" "held_by t m ra" "row_valid_on today ra" "role_of db ra = Some r"
  shows "\<exists>a\<in>set (assignment_views t m db). assignment_valid_on a today \<and> as_capability a = ro_class r"
  using assms
  by (intro bexI [of _ "\<lparr>as_capability = ro_class r, as_period = ra_period ra, as_revoked = False\<rparr>"])
    (auto simp: assignment_views_def List.map_filter_def assignment_valid_on_def row_valid_on_def image_iff intro!: bexI [of _ ra])

lemma membership_capability:
  assumes "c \<noteq> No_Capability"
  shows "c \<le> ac_capability (membership_access t m today db) \<longleftrightarrow>
     (\<exists>tn. find_tenant t db = Some tn \<and> tn_status tn = Tenant_Active) \<and> membership_usable t m db
     \<and> (\<exists>ra\<in>set (db_assignments db). held_by t m ra \<and> row_valid_on today ra
          \<and> (\<exists>r. role_of db ra = Some r \<and> c \<le> class_capability (ro_class r)))"
proof -
  have views: "(\<exists>a\<in>set (assignment_views t m db). assignment_valid_on a today \<and> c \<le> class_capability (as_capability a)) \<longleftrightarrow>
    (\<exists>ra\<in>set (db_assignments db). held_by t m ra \<and> row_valid_on today ra
       \<and> (\<exists>r. role_of db ra = Some r \<and> c \<le> class_capability (ro_class r)))"
    using assignment_view_valid [of _ t m db today c] valid_assignment_view by metis
  show ?thesis
    using assms unfolding membership_access_def membership_usable_def usable_account_def views [symmetric]
    by (auto simp: capability_reached access_none_def split: option.splits)
qed

lemma class_capability_Admin [simp]: "class_capability k = Admin \<longleftrightarrow> k = Admin_Class"
  by (cases k) simp_all

lemma is_admin_today_capability:
  "ac_capability (membership_access t m today db) = Admin \<longleftrightarrow>
     is_admin_today t m today db \<and> (\<exists>tn. find_tenant t db = Some tn \<and> tn_status tn = Tenant_Active)"
proof -
  have "has_class db Admin_Class ra \<longleftrightarrow> (\<exists>r. role_of db ra = Some r \<and> ro_class r = Admin_Class)" for ra
    by (auto simp: has_class_def split: option.splits)
  then show ?thesis
    using membership_capability [of Admin t m today db] by (auto simp: is_admin_today_def list_ex_iff)
qed

section \<open>Operations of an administrator\<close>

inductive admin_step ::
  "('t::linorder, 'd::linorder) env \<Rightarrow> uuid \<Rightarrow> uuid \<Rightarrow> ('t, 'd) moment \<Rightarrow> ('t, 'd) store \<Rightarrow> bool"
  for E t actor at db where
  "cg_tenant req = t \<Longrightarrow> cg_actor req = actor \<Longrightarrow> create_group E req at db = Inr out \<Longrightarrow> admin_step E t actor at db"
| "rg_tenant req = t \<Longrightarrow> rg_actor req = actor \<Longrightarrow> rename_group E req at db = Inr db' \<Longrightarrow> admin_step E t actor at db"
| "gv_tenant req = t \<Longrightarrow> gv_actor req = actor \<Longrightarrow> set_group_visibility E req at db = Inr db' \<Longrightarrow> admin_step E t actor at db"
| "ag_tenant req = t \<Longrightarrow> ag_actor req = actor \<Longrightarrow> archive_group E req at db = Inr db' \<Longrightarrow> admin_step E t actor at db"
| "gc_tenant req = t \<Longrightarrow> gc_actor req = actor \<Longrightarrow> add_group_member E req at db = Inr db' \<Longrightarrow> admin_step E t actor at db"
| "gc_tenant req = t \<Longrightarrow> gc_actor req = actor \<Longrightarrow> remove_group_member E req at db = Inr db' \<Longrightarrow> admin_step E t actor at db"
| "gr_tenant req = t \<Longrightarrow> gr_actor req = actor \<Longrightarrow> grant_role E req at db = Inr out \<Longrightarrow> admin_step E t actor at db"
| "rd_tenant req = t \<Longrightarrow> rd_actor req = actor \<Longrightarrow> approve_request E req offered at db = Inr out \<Longrightarrow> admin_step E t actor at db"
| "rd_tenant req = t \<Longrightarrow> rd_actor req = actor \<Longrightarrow> decline_request E req at db = Inr db' \<Longrightarrow> admin_step E t actor at db"
| "ii_tenant req = t \<Longrightarrow> ii_actor req = actor \<Longrightarrow> ii_grant req = None \<Longrightarrow> issue_invitation E req at db = Inr out \<Longrightarrow> admin_step E t actor at db"
| "rm_tenant req = t \<Longrightarrow> rm_actor req = actor \<Longrightarrow> rm_membership req \<noteq> actor \<Longrightarrow> revoke_membership E req at db = Inr db' \<Longrightarrow> admin_step E t actor at db"

lemma manager_is_admin:
  assumes "authorize \<lparr>vw_tenant = t, vw_membership = actor\<rparr> res Manage at db = Inr ()"
  shows "is_admin_today t actor (m_today at) db"
proof -
  have "ac_capability (membership_access t actor (m_today at) db) = Admin"
    using assms by (auto simp: authorize_def Let_def decide_ok allowed_def split: if_splits resource.splits option.splits)
  then show ?thesis by (simp add: is_admin_today_capability)
qed

lemma admin_step_needs_admin:
  assumes "admin_step E t actor at db"
  shows "is_admin_today t actor (m_today at) db"
  using assms
proof cases
  case (1 req out)
  then show ?thesis by (auto simp: create_group_def dest: manager_is_admin)
qed (auto simp: rename_group_def set_group_visibility_def archive_group_def add_group_member_def remove_group_member_def
    manage_def grant_role_def approve_request_def decline_request_def issue_invitation_def issuing_mode_def
    revoke_membership_def require_admin_def Let_def dest: manager_is_admin split: if_splits option.splits)

section \<open>The list of groups and opening a group\<close>

lemma map_rows_all2: "map_rows f xs = Inr ys \<Longrightarrow> list_all2 (\<lambda>x y. f x = Inr y) xs ys"
  by (induction xs arbitrary: ys) auto

lemma map_rows_mem: "map_rows f xs = Inr ys \<Longrightarrow> y \<in> set ys \<longleftrightarrow> (\<exists>x\<in>set xs. f x = Inr y)"
  by (drule map_rows_all2) (force simp: list_all2_conv_all_nth in_set_conv_nth)

lemma view_group_fields:
  "view_group m today db r = Inr v \<Longrightarrow> gw_id v = grp_id r \<and>
     \<lparr>gf_visibility = gw_visibility v, gf_archived = gw_archived v, gf_viewer_in_group = gw_viewer_in_group v\<rparr> = facts_of_group m today db r"
  by (auto simp: view_group_def facts_of_group_def)

lemma listed_iff_opened:
  assumes "tables_ok db" "list_groups vw at db = Inr views"
  shows "v \<in> set views \<and> gw_id v = g \<longleftrightarrow> get_group vw g at db = Inr v"
proof -
  let ?t = "vw_tenant vw" and ?m = "vw_membership vw" and ?today = "m_today at"
  define cap where "cap = ac_capability (membership_access ?t ?m ?today db)"
  let ?rows = "sort_key grp_id (filter (\<lambda>r. grp_tenant r = ?t) (db_groups db))"
  have cap: "cap \<noteq> No_Capability"
    using assms(2) by (auto simp: list_groups_def Let_def cap_def split: if_splits)
  then obtain all where all: "map_rows (view_group ?m ?today db) ?rows = Inr all"
    and views: "views = filter (\<lambda>v. decide cap (Group \<lparr>gf_visibility = gw_visibility v, gf_archived = gw_archived v,
      gf_viewer_in_group = gw_viewer_in_group v\<rparr>) Read = Inr ()) all"
    using assms(2) unfolding list_groups_def readable_groups_def cap_def by auto
  have found: "r \<in> set ?rows \<and> grp_id r = g \<longleftrightarrow> find_group ?t g db = Some r" for r
    using find_group_row [OF assms(1), of r] by (auto dest: find_group_Some)
  have "v \<in> set views \<and> gw_id v = g \<longleftrightarrow> (\<exists>r\<in>set ?rows. view_group ?m ?today db r = Inr v \<and> grp_id r = g
      \<and> decide cap (Group (facts_of_group ?m ?today db r)) Read = Inr ())"
    using view_group_fields [of ?m ?today db _ v] unfolding views by (auto simp: map_rows_mem [OF all])
  also have "\<dots> \<longleftrightarrow> (\<exists>r. find_group ?t g db = Some r \<and> view_group ?m ?today db r = Inr v
      \<and> decide cap (Group (facts_of_group ?m ?today db r)) Read = Inr ())"
    using found by blast
  also have "\<dots> \<longleftrightarrow> get_group vw g at db = Inr v"
    using cap unfolding cap_def get_group_def authorize_def read_group_facts_def ok_or_def
    by (cases "find_group ?t g db") auto
  finally show ?thesis .
qed

end
