(* ===== verification/Store_Properties.thy ===== *)
theory Store_Properties
  imports Store_Revocation Store_Admission Store_Authority
begin

text \<open>
  The properties of the membership store, each with a witness on the sample store.
\<close>

section \<open>One tenant's transactions\<close>

text \<open>C18 tenant_steps_stay_in_tenant: a committed transaction of one tenant leaves every row, log entry,
  queued message and notice of every other tenant as it was, and no log entry is ever changed or removed.\<close>

theorem tenant_steps_stay_in_tenant:
  assumes "tenant_step E t at db db'"
  shows "(\<forall>s. s \<noteq> t \<longrightarrow> tenant_slice s db' = tenant_slice s db) \<and> logs_grow db db'"
  using tenant_frame.step_keeps [OF assms, of db] by (simp add: within_def)

definition sample_archive :: archive_group_req where
  "sample_archive = \<lparr>ag_tenant = 1, ag_actor = 11, ag_group = 31\<rparr>"

lemma sample_archives: "is_committed (archive_group sample_env sample_archive sample_moment sample_store)"
  by code_simp

theorem tenant_steps_stay_in_tenant_witness:
  "\<exists>db'. archive_group sample_env sample_archive sample_moment sample_store = Inr db'
     \<and> tenant_slice 2 db' = tenant_slice 2 sample_store \<and> logs_grow sample_store db'"
proof -
  obtain db' where ok: "archive_group sample_env sample_archive sample_moment sample_store = Inr db'"
    using is_committed_Inr [OF sample_archives] by blast
  have "tenant_step sample_env 1 sample_moment sample_store db'"
    by (rule archived_group [OF _ ok]) (simp add: sample_archive_def)
  from tenant_steps_stay_in_tenant [OF this] ok show ?thesis by simp
qed

section \<open>Along every run\<close>


definition sample_resend :: invitation_change where
  "sample_resend = \<lparr>ic_tenant = 1, ic_actor = 11, ic_invitation = 72\<rparr>"

lemma sample_resends: "is_committed (resend_invitation sample_env sample_resend sample_moment sample_store)"
  by code_simp

lemma run_of_step: "tenant_step E t at db db' \<Longrightarrow> store_run E db db'"
  unfolding store_run_def by (blast intro: of_tenant)


text \<open>C13 history_is_never_undone: no transaction of any run removes a row it should keep or takes back
  what is final: an archived group stays archived, a revoked role or grant revoked, a group member
  who was removed removed, an erased name erased, an accepted or withdrawn invitation as it was, a
  closed request closed, and the logs only grow.\<close>

theorem history_is_never_undone:
  assumes "store_run E db db'" "tables_ok db"
  shows "history_kept db db'"
  using whole_history.run_keeps [OF assms(1), of db] assms(2) by simp

theorem history_is_never_undone_witness:
  "\<exists>db'. archive_group sample_env sample_archive sample_moment sample_store = Inr db' \<and> history_kept sample_store db'"
proof -
  obtain db' where ok: "archive_group sample_env sample_archive sample_moment sample_store = Inr db'"
    using is_committed_Inr [OF sample_archives] by blast
  have "tenant_step sample_env 1 sample_moment sample_store db'"
    by (rule archived_group [OF _ ok]) (simp add: sample_archive_def)
  from history_is_never_undone [OF run_of_step [OF this] sample_tables] ok show ?thesis by blast
qed

section \<open>Invitations\<close>

text \<open>C14 closed_invitations_stay_closed: an invitation that was accepted or withdrawn is never accepted again: in
  no later store of any run does its token open anything.\<close>

theorem closed_invitations_stay_closed:
  assumes "tables_ok db" "store_run E db db'" "r \<in> set (db_invitations db)" "\<not> invitation_pending r"
    and "hash_token E (ai_token req) = iv_token_hash r"
  shows "\<exists>e. accept_invitation E req at db' = Inl e"
proof -
  have "persists invitation_kept (db_invitations db) (db_invitations db')"
    using whole_history.run_keeps [OF assms(2), of db] assms(1) by (simp add: history_kept_def)
  then obtain r' where "r' \<in> set (db_invitations db')" "invitation_kept r r'"
    using assms(3) by (auto simp: persists_def)
  moreover have "tables_ok db'" by (rule whole_integrity.run_keeps [OF assms(2,1)])
  ultimately show ?thesis
    using dead_token assms(4,5) by (simp add: invitation_kept_def)
qed

definition sample_accept :: "string \<Rightarrow> nat \<Rightarrow> nat accept_invitation_req" where
  "sample_accept who letter =
     \<lparr>ai_token = replicate 64 letter, ai_acceptor = Verified_Email (Email (lit who)), ai_admin_end = None,
      ai_profile = \<lparr>mp_membership = 7 * 2 ^ 76 + 2 ^ 63, mp_name = sample_name, mp_contact = None\<rparr>\<rparr>"

theorem closed_invitations_stay_closed_witness:
  "\<exists>e. accept_invitation sample_env (sample_accept ''c@b.no'' 97) sample_moment sample_store = Inl e"
proof -
  let ?r = "sample_invitation 71 97 ''c@b.no'' (Some 50) (Some 12)"
  have "store_run sample_env sample_store sample_store" by (simp add: store_run_def)
  moreover have "?r \<in> set (db_invitations sample_store)" by (simp add: sample_store_def)
  moreover have "\<not> invitation_pending ?r" by (simp add: invitation_pending_def sample_invitation_def)
  moreover have "hash_token sample_env (ai_token (sample_accept ''c@b.no'' 97)) = iv_token_hash ?r" by code_simp
  ultimately show ?thesis by (rule closed_invitations_stay_closed [OF sample_tables])
qed

text \<open>C11 acceptance_needs_authority: an invitation is accepted only while it is pending and not expired, by
  the verified owner of the address it was sent to, in an active FAU that is not frozen, and only if
  the authority behind it holds that day: the issuer is still an admin, the handover window is still
  open and the issuer's, or the FAU still has no admin and the recovery contact still sits.\<close>

theorem acceptance_needs_authority:
  assumes "accept_invitation E req at db = Inr (out, db')"
  shows "\<exists>r\<in>set (db_invitations db). iv_token_hash r = hash_token E (ai_token req) \<and> iv_tenant r = av_tenant out
     \<and> invitation_pending r \<and> m_now at < iv_expires_at r
     \<and> email_parse (env_ucd E) (iv_recipient r) = Inr (verified_email (ai_acceptor req))
     \<and> (\<exists>tn. find_tenant (iv_tenant r) db = Some tn \<and> tn_status tn = Tenant_Active \<and> tn_frozen_at tn = None)
     \<and> authority_holds (iv_tenant r) r (m_today at) db"
proof (rule accept_invitation_Inr [OF assms])
  fix hit r st s offered roles
  assume "find_invitation (iv_tenant hit) (iv_id hit) db = Some r" "iv_token_hash r = hash_token E (ai_token req)"
    "lock_tenant (iv_tenant hit) db = Inr st" "acceptance_snapshot_of E (iv_tenant hit) st r (ai_acceptor req) at db = Inr s"
    "check_acceptance s (m_now at) = Inr ()"
    "seat_acceptor E req at r roles
       (if iv_mode r = Recovery then recovery_notice_recipients E (iv_tenant hit) (m_today at) db else []) db = Inr (out, db')"
  then show ?thesis
    using snapshot_authority locked_state seat_acceptor_writes
    by (intro bexI [of _ r]) (fastforce dest: find_invitation_Some)+
qed

lemma sample_accepts: "is_committed (accept_invitation sample_env (sample_accept ''d@b.no'' 98) sample_moment sample_store)"
  by code_simp

theorem acceptance_needs_authority_witness:
  "\<exists>r\<in>set (db_invitations sample_store). iv_token_hash r = replicate 32 98 \<and> authority_holds (iv_tenant r) r 100 sample_store"
proof -
  obtain out db' where ok: "accept_invitation sample_env (sample_accept ''d@b.no'' 98) sample_moment sample_store = Inr (out, db')"
    using is_committed_Inr [OF sample_accepts] by auto
  have "hash_token sample_env (ai_token (sample_accept ''d@b.no'' 98)) = replicate 32 98" by code_simp
  with acceptance_needs_authority [OF ok] show ?thesis by (auto simp: sample_moment_def)
qed

text \<open>C15 acceptance_grants_the_offer: an acceptance adds exactly the roles the invitation offers (for an
  activation with the leader's end date on the admin roles), as running assignments of the accepting
  membership, changes no other assignment and no role, and closes the invitation for that membership.\<close>

theorem acceptance_grants_the_offer:
  assumes "accept_invitation E req at db = Inr (out, db')"
  shows "\<exists>r offered roles. r \<in> set (db_invitations db) \<and> iv_token_hash r = hash_token E (ai_token req)
     \<and> invitation_offer (iv_tenant r) (iv_id r) db = Inr offered
     \<and> apply_override E (iv_mode r) (ai_admin_end req) (m_today at) offered = Inr roles
     \<and> length (av_assignments out) = length roles
     \<and> db_assignments db' = db_assignments db
          @ map2 (granted (iv_tenant r) (av_membership out) (iv_issued_by r)) (av_assignments out) roles
     \<and> db_roles db' = db_roles db
     \<and> (\<forall>q\<in>set (db_invitations db'). is_invitation_row (iv_tenant r) (iv_id r) q \<longrightarrow>
          iv_accepted_membership q = Some (av_membership out))"
proof (rule accept_invitation_Inr [OF assms])
  fix hit r st s offered roles
  assume "find_invitation (iv_tenant hit) (iv_id hit) db = Some r" and r: "iv_token_hash r = hash_token E (ai_token req)"
    and offer: "invitation_offer (iv_tenant hit) (iv_id hit) db = Inr offered"
      "apply_override E (iv_mode r) (ai_admin_end req) (m_today at) offered = Inr roles"
    and seated: "seat_acceptor E req at r roles
       (if iv_mode r = Recovery then recovery_notice_recipients E (iv_tenant hit) (m_today at) db else []) db = Inr (out, db')"
  then have row: "r \<in> set (db_invitations db)" "iv_tenant hit = iv_tenant r" "iv_id hit = iv_id r"
    by (simp_all add: find_invitation_Some)
  show ?thesis
    by (rule exI [of _ r], rule exI [of _ offered], rule exI [of _ roles])
      (use row r offer seat_acceptor_writes [OF seated] in simp)
qed

theorem acceptance_grants_the_offer_witness:
  "\<exists>out db' i. accept_invitation sample_env (sample_accept ''d@b.no'' 98) sample_moment sample_store = Inr (out, db')
     \<and> db_assignments db' = db_assignments sample_store
       @ [granted 1 (av_membership out) (Some 11) i (22, Member_Class, \<lparr>starts_on = 90, ends_on_exclusive = 400\<rparr>)]"
proof -
  let ?req = "sample_accept ''d@b.no'' 98" and ?r = "sample_invitation 72 98 ''d@b.no'' None None"
  obtain out db' where ok: "accept_invitation sample_env ?req sample_moment sample_store = Inr (out, db')"
    using is_committed_Inr [OF sample_accepts] by auto
  have hash: "hash_token sample_env (ai_token ?req) = replicate 32 98" by code_simp
  have "invitation_offer 1 72 sample_store = Inr [(22, Member_Class, \<lparr>starts_on = 90, ends_on_exclusive = 400\<rparr>)]"
    by code_simp
  moreover have "ai_admin_end ?req = None" by (simp add: sample_accept_def)
  moreover have row: "r = ?r" if "r \<in> set (db_invitations sample_store)" "iv_token_hash r = replicate 32 98" for r
    using that by (auto simp: sample_store_def sample_invitation_def)
  ultimately show ?thesis
    using acceptance_grants_the_offer [OF ok] ok hash row
    by (fastforce simp: sample_invitation_def apply_override_def length_Suc_conv)
qed

text \<open>C34 resent_invitations_change_token: once an invitation has been sent again, the link sent before it opens
  nothing in any later store of any run: accepting with it fails, and so does preparing to accept, whoever
  follows it and whenever. The tokens drawn from the re-sending on are assumed not to hash to the old token's
  hash, as 32 random bytes under SHA-256 do not.\<close>

theorem resent_invitations_change_token:
  assumes "tables_ok db" "resend_invitation E ch at db = Inr (out, db')"
    and "r \<in> set (db_invitations db)" "is_invitation_row (ic_tenant ch) (ic_invitation ch) r"
    and "\<And>n bs. db_drawn db \<le> n \<Longrightarrow> env_random E n = Some bs \<Longrightarrow> hash_token E (token_text bs) \<noteq> iv_token_hash r"
    and "store_run E db' db''" "hash_token E (ai_token req) = iv_token_hash r"
  shows "(\<exists>e. accept_invitation E req at' db'' = Inl e) \<and> (\<exists>e. prepare_acceptance E (ai_token req) who at' db'' = Inl e)"
proof -
  have "spent E (iv_token_hash r) db'" by (rule resent_token_is_spent [OF assms(1-5)])
  then have "spent E (hash_token E (ai_token req)) db''" using whole_spent.run_keeps [OF assms(6)] assms(7) by simp
  from spent_opens_nothing [OF this] show ?thesis by blast
qed

lemma sample_new_tokens:
  assumes "env_random sample_env n = Some bs"
  shows "hash_token sample_env (token_text bs) \<noteq> replicate 32 98"
proof -
  have "bs = n # 0 # replicate 30 0" using assms by (simp add: sample_env_def numeral_eq_Suc)
  then have "hash_token sample_env (token_text bs) ! 2 = 48"
    by (simp add: hash_token_def sample_env_def token_text_def hex_digit_def)
  then show ?thesis by auto
qed

theorem resent_invitations_change_token_witness:
  "\<exists>out db'. resend_invitation sample_env sample_resend sample_moment sample_store = Inr (out, db')
     \<and> (\<exists>db''. store_run sample_env db' db'' \<and> (\<exists>e. accept_invitation sample_env (sample_accept ''d@b.no'' 98) sample_moment db'' = Inl e))"
proof -
  let ?r = "sample_invitation 72 98 ''d@b.no'' None None" and ?req = "sample_accept ''d@b.no'' 98"
  obtain out db' where ok: "resend_invitation sample_env sample_resend sample_moment sample_store = Inr (out, db')"
    using is_committed_Inr [OF sample_resends] by auto
  have row: "?r \<in> set (db_invitations sample_store)" by (simp add: sample_store_def)
  have which: "is_invitation_row (ic_tenant sample_resend) (ic_invitation sample_resend) ?r" by code_simp
  have old: "hash_token sample_env (ai_token ?req) = iv_token_hash ?r" by code_simp
  have run: "store_run sample_env db' db'" by (simp add: store_run_def)
  have new: "env_random sample_env n = Some bs \<Longrightarrow> hash_token sample_env (token_text bs) \<noteq> iv_token_hash ?r" for n bs
    using sample_new_tokens by (simp add: sample_invitation_def)
  have "(\<exists>e. accept_invitation sample_env ?req sample_moment db' = Inl e)
      \<and> (\<exists>e. prepare_acceptance sample_env (ai_token ?req) (ai_acceptor ?req) sample_moment db' = Inl e)"
    by (rule resent_invitations_change_token [OF sample_tables ok row which _ run old]) (rule new)
  with ok run show ?thesis by blast
qed

section \<open>Revocation\<close>

text \<open>C16 revoked_member_is_out: when a membership has been revoked, nothing of its access is left: on no day has it
  any capability, no role of it still runs, no handover grant and no group row of it is open, none of its
  requests is pending, and the notice that ends its sessions is out.\<close>

theorem revoked_member_is_out:
  assumes "revoke_membership E req at db = Inr db'"
  shows "has_no_access (rm_tenant req) (rm_membership req) (m_today at) db'
     \<and> (rm_tenant req, Access_Revoked (rm_membership req)) \<in> set (db_notices db')"
proof -
  have "(rm_tenant req, Access_Revoked (rm_membership req)) \<in> set (db_notices db')"
    by (rule revoke_membership_tables [OF assms])
  with revoke_membership_leaves_nothing [OF assms] show ?thesis by simp
qed

definition sample_revocation :: revoke_membership_req where
  "sample_revocation = \<lparr>rm_tenant = 1, rm_actor = 11, rm_membership = 12, rm_confirm = False\<rparr>"

lemma sample_revokes: "is_committed (revoke_membership sample_env sample_revocation sample_moment sample_store)"
  by code_simp

theorem revoked_member_is_out_witness:
  "\<exists>db'. revoke_membership sample_env sample_revocation sample_moment sample_store = Inr db' \<and> has_no_access 1 12 100 db'"
proof -
  obtain db' where ok: "revoke_membership sample_env sample_revocation sample_moment sample_store = Inr db'"
    using is_committed_Inr [OF sample_revokes] by blast
  with revoked_member_is_out [OF ok] show ?thesis by (simp add: sample_revocation_def sample_moment_def)
qed

text \<open>C10 revocation_keeps_an_admin: revoking a membership or a role without the confirmation leaves the FAU an
  administrator on every day, from today on, on which it had one.\<close>

theorem revocation_keeps_an_admin:
  assumes "tables_ok db" "m_today at \<le> d" "has_admin (admin_state_load t db) d"
    and "(\<exists>req. rm_tenant req = t \<and> \<not> rm_confirm req \<and> revoke_membership E req at db = Inr db')
       \<or> (\<exists>req. rv_tenant req = t \<and> \<not> rv_confirm req \<and> revoke_role_assignment E req at db = Inr db')"
  shows "has_admin (admin_state_load t db') d"
  using assms membership_revocation_keeps_admins role_revocation_keeps_admins by blast

theorem revocation_keeps_an_admin_witness:
  "\<exists>db'. revoke_membership sample_env sample_revocation sample_moment sample_store = Inr db'
     \<and> has_admin (admin_state_load 1 db') 300"
proof -
  obtain db' where ok: "revoke_membership sample_env sample_revocation sample_moment sample_store = Inr db'"
    using is_committed_Inr [OF sample_revokes] by blast
  then have "\<exists>req. rm_tenant req = 1 \<and> \<not> rm_confirm req \<and> revoke_membership sample_env req sample_moment sample_store = Inr db'"
    by (intro exI [of _ sample_revocation]) (simp add: sample_revocation_def)
  moreover have "has_admin (admin_state_load 1 sample_store) 300" by code_simp
  moreover have "m_today sample_moment \<le> 300" by (simp add: sample_moment_def)
  ultimately show ?thesis
    using revocation_keeps_an_admin [OF sample_tables] ok by blast
qed

section \<open>Authority\<close>

text \<open>C32 admin_paths_agree: the two ways the code decides who is an administrator, the query of the
  transactions and the effective access that authorisation and the pages use, agree for every
  membership of an active FAU on every day.\<close>

theorem admin_paths_agree:
  "ac_capability (membership_access t m today db) = Admin \<longleftrightarrow>
     is_admin_today t m today db \<and> (\<exists>tn. find_tenant t db = Some tn \<and> tn_status tn = Tenant_Active)"
  by (rule is_admin_today_capability)

text \<open>C17 admin_operations_need_an_admin: creating, renaming, opening, closing, archiving and staffing a group,
  granting a role, deciding a request, inviting without a handover grant and revoking another's
  membership commit only for a member who is an administrator that day.\<close>

theorem admin_operations_need_an_admin:
  assumes "admin_step E t actor at db"
  shows "is_admin_today t actor (m_today at) db"
  by (rule admin_step_needs_admin [OF assms])

theorem admin_operations_need_an_admin_witness: "is_admin_today 1 11 100 sample_store"
proof -
  obtain db' where "archive_group sample_env sample_archive sample_moment sample_store = Inr db'"
    using is_committed_Inr [OF sample_archives] by blast
  then have "admin_step sample_env 1 11 sample_moment sample_store"
    by (rule admin_step.intros(4) [rotated 2]) (simp_all add: sample_archive_def)
  from admin_operations_need_an_admin [OF this] show ?thesis by (simp add: sample_moment_def)
qed

text \<open>C33 groups_listed_are_groups_opened: the list of groups a member is shown holds a group exactly when the
  member may open it, and shows the same.\<close>

theorem groups_listed_are_groups_opened:
  assumes "tables_ok db" "list_groups vw at db = Inr views"
  shows "v \<in> set views \<and> gw_id v = g \<longleftrightarrow> get_group vw g at db = Inr v"
  by (rule listed_iff_opened [OF assms])

theorem groups_listed_are_groups_opened_witness:
  "\<exists>v. list_groups \<lparr>vw_tenant = 1, vw_membership = 12\<rparr> sample_moment sample_store = Inr [v]
     \<and> get_group \<lparr>vw_tenant = 1, vw_membership = 12\<rparr> 31 sample_moment sample_store = Inr v"
proof -
  let ?vw = "\<lparr>vw_tenant = 1, vw_membership = 12\<rparr>"
  let ?v = "\<lparr>gw_id = 31, gw_name = sample_name, gw_visibility = Visible_Closed, gw_archived = False, gw_binding = None,
    gw_viewer_in_group = True\<rparr>"
  have "list_groups ?vw sample_moment sample_store = Inr [?v]" by code_simp
  with groups_listed_are_groups_opened [OF sample_tables this, of ?v 31] show ?thesis by simp
qed

end
