(* ===== verification/Register_Db.thy ===== *)
theory Register_Db
  imports Store_Types Search
begin

text \<open>
  The register's database: the tables of migration \<open>0004_school_register.sql\<close> that
  \<open>persistence/src/register\<close> reads and writes, with the constraints every statement is checked against,
  and the code columns of \<open>register/sql.rs\<close>. A run holds the advisory lock on one connection, so its
  statements are serial: each maps the database to a refusal or to the database after it.
\<close>

section \<open>Rows\<close>

text \<open>\<open>Database\<close> carries the fixed description of \<open>pool::safe_error_kind\<close>. A refused constraint is class
  23, whichever it is; the timeouts 55P03 and 57014 come from outside the model.\<close>

datatype register_error = R_Database str | R_Decode | R_Unknown_Row | R_Payload_Not_Utf8

definition refused :: register_error where
  "refused = R_Database (lit ''sqlstate 23000'')"

definition no_row :: register_error where
  "no_row = R_Database (lit ''query failed'')"

fun is_timeout :: "register_error \<Rightarrow> bool" where
  "is_timeout (R_Database kind) \<longleftrightarrow> kind = lit ''sqlstate 55P03'' \<or> kind = lit ''sqlstate 57014''"
| "is_timeout _ \<longleftrightarrow> False"

record ('t, 'd) municipality_row =
  mun_id :: uuid
  mun_name :: str
  mun_official_name :: "str option"
  mun_county_number :: str
  mun_county_name :: str
  mun_slug :: str
  mun_status :: municipality_status
  mun_dissolved_on :: "'d option"
  mun_source :: municipality_source
  mun_search_text :: str
  mun_created_at :: 't
  mun_updated_at :: 't

record municipality_name_row =
  mna_municipality :: uuid
  mna_name :: str
  mna_language :: str
  mna_priority :: int

record 'd number_row =
  num_municipality :: uuid
  num_number :: str
  num_valid_from :: 'd
  num_valid_until :: "'d option"

record 't municipality_slug_row =
  msl_slug :: str
  msl_municipality :: uuid
  msl_valid_from :: 't
  msl_valid_until :: 't

text \<open>\<open>closure_reason\<close> also knows the reason \<open>rejected\<close>, which no run writes: a column value is the
  stored code.\<close>

record ('t, 'd) school_row =
  sch_id :: uuid
  sch_municipality :: uuid
  sch_origin :: origin
  sch_display_name :: str
  sch_register_name :: "str option"
  sch_display_name_curated :: bool
  sch_slug :: "str option"
  sch_verification :: verification
  sch_verified_at :: "'t option"
  sch_orgnr :: "str option"
  sch_attributes :: school_attributes
  sch_in_scope :: bool
  sch_scope_override :: "bool option"
  sch_status :: school_status
  sch_closed_on :: "'d option"
  sch_closure_reason :: "str option"
  sch_successor :: "uuid option"
  sch_source_changed_at :: "'t option"
  sch_last_seen_at :: "'t option"
  sch_search_text :: str
  sch_created_at :: 't
  sch_updated_at :: 't

record 't school_slug_row =
  ssl_municipality :: uuid
  ssl_slug :: str
  ssl_school :: uuid
  ssl_valid_from :: 't
  ssl_valid_until :: 't

record orgnr_row =
  org_orgnr :: str
  org_school :: uuid

record 't review_row =
  rvw_id :: uuid
  rvw_kind :: review_kind
  rvw_school :: "uuid option"
  rvw_other_school :: "uuid option"
  rvw_municipality :: "uuid option"
  rvw_details :: "(str \<times> str) list"
  rvw_created_at :: 't
  rvw_resolved_at :: "'t option"

text \<open>\<open>serde_json::Value\<close>; an object lists its members in the order they were set.\<close>

datatype json = J_Null | J_Flag bool | J_Count nat | J_Text str | J_Array "json list" | J_Object "(str \<times> json) list"

datatype run_code = Run_Seed | Run_Sync | Run_Dry

datatype run_outcome = Run_Applied | Run_No_Change | Run_Aborted | Run_Failed

record 't run_row =
  run_id :: uuid
  run_kind :: run_code
  run_started_at :: 't
  run_finished_at :: "'t option"
  run_outcome :: "run_outcome option"
  run_tally :: json
  run_abort_reason :: "str option"

record 't source_record_row =
  src_external_id :: str
  src_payload :: str
  src_sha256 :: str
  src_changed_at :: "'t option"
  src_fetched_at :: 't
  src_scope :: scope_decision

text \<open>Audit entries and mail of the register have no tenant; every entry's actor is \<open>system\<close> and its
  subject a \<open>register_sync_run\<close>.\<close>

record 't register_audit_row =
  rau_id :: uuid
  rau_action :: str
  rau_subject :: uuid
  rau_occurred_at :: 't
  rau_params :: json

record 't register_mail_row =
  rml_id :: uuid
  rml_template :: str
  rml_recipient :: str
  rml_params :: json
  rml_created_at :: 't

text \<open>The rows of \<open>school_fau_links\<close> in state \<open>linked\<close>: the school and the FAU's number.\<close>

record ('t, 'd) register_db =
  rg_municipalities :: "('t, 'd) municipality_row list"
  rg_names :: "municipality_name_row list"
  rg_numbers :: "'d number_row list"
  rg_municipality_slugs :: "'t municipality_slug_row list"
  rg_schools :: "('t, 'd) school_row list"
  rg_orgnrs :: "orgnr_row list"
  rg_school_slugs :: "'t school_slug_row list"
  rg_tenants :: "'t tenant_row list"
  rg_links :: "(uuid \<times> str) list"
  rg_reviews :: "'t review_row list"
  rg_runs :: "'t run_row list"
  rg_records :: "'t source_record_row list"
  rg_audit :: "'t register_audit_row list"
  rg_outbox :: "'t register_mail_row list"
  rg_drawn :: nat

text \<open>What the code uses of others: \<open>Uuid::now_v7\<close>, Postgres' \<open>date + 1\<close>, Oslo's date, SHA-256, the
  Unicode tables, and whether a JSON object's text keeps the bound on \<open>details\<close> or parses as \<open>jsonb\<close>.\<close>

record ('t, 'd) register_env =
  re_uuid :: "nat \<Rightarrow> uuid"
  re_next_day :: "'d \<Rightarrow> 'd"
  re_oslo :: "'t \<Rightarrow> 'd"
  re_sha256 :: "bytes \<Rightarrow> bytes"
  re_ucd :: ucd
  re_details_fit :: "(str \<times> str) list \<Rightarrow> bool"
  re_is_json :: "str \<Rightarrow> bool"

type_synonym 'a register_result = "(register_error, 'a) result"

definition fresh_id :: "('t, 'd) register_env \<Rightarrow> ('t, 'd) register_db \<Rightarrow> uuid \<times> ('t, 'd) register_db" where
  "fresh_id E db = (re_uuid E (rg_drawn db), db\<lparr>rg_drawn := Suc (rg_drawn db)\<rparr>)"

section \<open>Code columns\<close>

text \<open>\<open>register/sql.rs\<close>: a code that names no variant does not decode.\<close>

definition decode :: "('a \<Rightarrow> str) \<Rightarrow> 'a list \<Rightarrow> str \<Rightarrow> 'a register_result" where
  "decode code variants s = (case List.find (\<lambda>v. code v = s) variants of Some v \<Rightarrow> Inr v | None \<Rightarrow> Inl R_Decode)"

fun municipality_status_code :: "municipality_status \<Rightarrow> str" where
  "municipality_status_code Municipality_Active = lit ''active''"
| "municipality_status_code Dissolved = lit ''dissolved''"

fun origin_code :: "origin \<Rightarrow> str" where
  "origin_code Register = lit ''register''"
| "origin_code Submitted = lit ''submitted''"

fun verification_code :: "verification \<Rightarrow> str" where
  "verification_code Listed = lit ''listed''"
| "verification_code Pending = lit ''pending''"
| "verification_code Verified = lit ''verified''"
| "verification_code Rejected = lit ''rejected''"
| "verification_code Held = lit ''held''"

fun school_status_code :: "school_status \<Rightarrow> str" where
  "school_status_code School_Active = lit ''active''"
| "school_status_code School_Closed = lit ''closed''"

definition municipality_status :: "str \<Rightarrow> municipality_status register_result" where
  "municipality_status = decode municipality_status_code [Municipality_Active, Dissolved]"

definition municipality_source_of :: "str \<Rightarrow> municipality_source register_result" where
  "municipality_source_of = decode municipality_source_code [Kartverket, Manual]"

definition origin_of :: "str \<Rightarrow> origin register_result" where
  "origin_of = decode origin_code [Register, Submitted]"

definition verification_of :: "str \<Rightarrow> verification register_result" where
  "verification_of = decode verification_code [Listed, Pending, Verified, Rejected, Held]"

definition school_status_of :: "str \<Rightarrow> school_status register_result" where
  "school_status_of = decode school_status_code [School_Active, School_Closed]"

definition ownership_of :: "str option \<Rightarrow> ownership option register_result" where
  "ownership_of s =
     (case s of None \<Rightarrow> Inr None | Some c \<Rightarrow> and_then (decode ownership_code [Public, Private] c) (\<lambda>v. Inr (Some v)))"

text \<open>What is stored is what is read: the tables keep the variants themselves.\<close>

lemma codes_decode:
  "municipality_status (municipality_status_code a) = Inr a" "municipality_source_of (municipality_source_code b) = Inr b"
  "origin_of (origin_code c) = Inr c" "verification_of (verification_code v) = Inr v"
  "school_status_of (school_status_code e) = Inr e" "ownership_of (map_option ownership_code f) = Inr f"
proof -
  show "municipality_status (municipality_status_code a) = Inr a"
    by (cases a) (simp_all add: municipality_status_def decode_def lit_def)
  show "municipality_source_of (municipality_source_code b) = Inr b"
    by (cases b) (simp_all add: municipality_source_of_def decode_def lit_def)
  show "origin_of (origin_code c) = Inr c" by (cases c) (simp_all add: origin_of_def decode_def lit_def)
  show "verification_of (verification_code v) = Inr v"
    by (cases v) (simp_all add: verification_of_def decode_def lit_def)
  show "school_status_of (school_status_code e) = Inr e"
    by (cases e) (simp_all add: school_status_of_def decode_def lit_def)
  have "ownership_of (Some (ownership_code o')) = Inr (Some o')" for o'
    by (cases o') (simp_all add: ownership_of_def decode_def lit_def)
  then show "ownership_of (map_option ownership_code f) = Inr f" by (cases f) (simp_all add: ownership_of_def)
qed

section \<open>Constraints\<close>

text \<open>The regular expressions of the checks.\<close>

definition slug_words :: "str \<Rightarrow> bool" where
  "slug_words s \<longleftrightarrow> list_all (\<lambda>w. w \<noteq> [] \<and> list_all (\<lambda>c. is_ascii_lower c \<or> is_ascii_digit c) w) (split_by (\<lambda>c. c = 45) s)"

definition digits :: "nat \<Rightarrow> str \<Rightarrow> bool" where
  "digits n s \<longleftrightarrow> length s = n \<and> list_all is_ascii_digit s"

definition municipality_slug_ok :: "str \<Rightarrow> bool" where
  "municipality_slug_ok s \<longleftrightarrow>
     digits 4 (take 4 s) \<and> take 1 (drop 4 s) = [45] \<and> slug_words (drop 5 s) \<and> length s \<le> 85"

definition school_slug_ok :: "str \<Rightarrow> bool" where
  "school_slug_ok s \<longleftrightarrow> slug_words s \<and> length s \<le> 80"

definition orgnr_ok :: "str \<Rightarrow> bool" where
  "orgnr_ok s \<longleftrightarrow> length s = 9 \<and> list_all (\<lambda>c. is_ascii_digit c \<or> is_ascii_upper c) s"

definition municipality_row_ok :: "('t, 'd) municipality_row \<Rightarrow> bool" where
  "municipality_row_ok r \<longleftrightarrow>
     digits 2 (mun_county_number r) \<and> (mun_status r = Dissolved \<longleftrightarrow> mun_dissolved_on r \<noteq> None)
     \<and> municipality_slug_ok (mun_slug r)"

definition grades_ok :: "int option \<Rightarrow> int option \<Rightarrow> bool" where
  "grades_ok a b \<longleftrightarrow>
     (case a of Some f \<Rightarrow> 1 \<le> f \<and> f \<le> 13 | None \<Rightarrow> True) \<and> (case b of Some u \<Rightarrow> 1 \<le> u \<and> u \<le> 13 | None \<Rightarrow> True)
     \<and> (case (a, b) of (Some f, Some u) \<Rightarrow> f \<le> u | _ \<Rightarrow> True)"

definition school_row_ok :: "('t, 'd) school_row \<Rightarrow> bool" where
  "school_row_ok r \<longleftrightarrow>
     (case sch_orgnr r of Some n \<Rightarrow> orgnr_ok n | None \<Rightarrow> sch_origin r = Submitted)
     \<and> grades_ok (a_grade_from (sch_attributes r)) (a_grade_to (sch_attributes r))
     \<and> (sch_status r = School_Closed \<longleftrightarrow> sch_closed_on r \<noteq> None)
     \<and> (sch_status r = School_Closed \<or> sch_closure_reason r = None)
     \<and> (case sch_slug r of Some s \<Rightarrow> school_slug_ok s \<and> sch_verification r \<in> {Listed, Verified} | None \<Rightarrow> True)
     \<and> sch_successor r \<noteq> Some (sch_id r)"

definition present :: "'a option list \<Rightarrow> 'a list" where
  "present xs = List.map_filter (\<lambda>x. x) xs"

definition municipalities_ok :: "('t, 'd) municipality_row list \<Rightarrow> bool" where
  "municipalities_ok rows \<longleftrightarrow>
     distinct (map mun_id rows) \<and> distinct (map mun_slug rows) \<and> list_all municipality_row_ok rows"

definition schools_ok :: "('t, 'd) register_db \<Rightarrow> ('t, 'd) school_row list \<Rightarrow> bool" where
  "schools_ok db rows \<longleftrightarrow>
     distinct (map sch_id rows) \<and> distinct (present (map sch_orgnr rows))
     \<and> distinct (present (map (\<lambda>r. map_option (Pair (sch_municipality r)) (sch_slug r)) rows))
     \<and> list_all (\<lambda>r. school_row_ok r \<and> sch_municipality r \<in> mun_id ` set (rg_municipalities db)
          \<and> (case sch_successor r of Some s \<Rightarrow> s \<in> sch_id ` set rows | None \<Rightarrow> True)) rows"

definition numbers_ok :: "('t, 'd::linorder) register_db \<Rightarrow> 'd number_row list \<Rightarrow> bool" where
  "numbers_ok db rows \<longleftrightarrow>
     distinct (map (\<lambda>n. (num_number n, num_valid_from n)) rows)
     \<and> distinct (map num_number (filter (\<lambda>n. num_valid_until n = None) rows))
     \<and> list_all (\<lambda>n. digits 4 (num_number n) \<and> num_municipality n \<in> mun_id ` set (rg_municipalities db)
          \<and> (case num_valid_until n of Some u \<Rightarrow> num_valid_from n < u | None \<Rightarrow> True)) rows"

definition names_ok :: "('t, 'd) register_db \<Rightarrow> municipality_name_row list \<Rightarrow> bool" where
  "names_ok db rows \<longleftrightarrow>
     distinct (map (\<lambda>n. (mna_municipality n, mna_name n)) rows)
     \<and> list_all (\<lambda>n. mna_municipality n \<in> mun_id ` set (rg_municipalities db)) rows"

definition municipality_slugs_ok :: "('t::linorder, 'd) register_db \<Rightarrow> 't municipality_slug_row list \<Rightarrow> bool" where
  "municipality_slugs_ok db rows \<longleftrightarrow>
     distinct (map (\<lambda>h. (msl_slug h, msl_valid_from h)) rows)
     \<and> list_all (\<lambda>h. msl_valid_from h < msl_valid_until h \<and> municipality_slug_ok (msl_slug h)
          \<and> msl_municipality h \<in> mun_id ` set (rg_municipalities db)) rows"

definition school_slugs_ok :: "('t::linorder, 'd) register_db \<Rightarrow> 't school_slug_row list \<Rightarrow> bool" where
  "school_slugs_ok db rows \<longleftrightarrow>
     distinct (map (\<lambda>h. (ssl_municipality h, ssl_slug h, ssl_valid_from h)) rows)
     \<and> list_all (\<lambda>h. ssl_valid_from h < ssl_valid_until h \<and> school_slug_ok (ssl_slug h)
          \<and> ssl_municipality h \<in> mun_id ` set (rg_municipalities db)
          \<and> ssl_school h \<in> sch_id ` set (rg_schools db)) rows"

section \<open>Statements\<close>

text \<open>A statement that would leave a row a constraint refuses fails.\<close>

definition held_to :: "bool \<Rightarrow> 'a \<Rightarrow> 'a register_result" where
  "held_to ok db = (if ok then Inr db else Inl refused)"

lemma held_to_Inr [simp]: "held_to ok db = Inr db' \<longleftrightarrow> ok \<and> db' = db"
  by (auto simp: held_to_def)

definition put_municipalities where
  "put_municipalities rows db = held_to (municipalities_ok rows) (db\<lparr>rg_municipalities := rows\<rparr>)"

definition put_numbers where
  "put_numbers rows db = held_to (numbers_ok db rows) (db\<lparr>rg_numbers := rows\<rparr>)"

definition put_names where
  "put_names rows db = held_to (names_ok db rows) (db\<lparr>rg_names := rows\<rparr>)"

definition put_municipality_slugs where
  "put_municipality_slugs rows db = held_to (municipality_slugs_ok db rows) (db\<lparr>rg_municipality_slugs := rows\<rparr>)"

definition put_schools where
  "put_schools rows db = held_to (schools_ok db rows) (db\<lparr>rg_schools := rows\<rparr>)"

definition put_school_slugs where
  "put_school_slugs rows db = held_to (school_slugs_ok db rows) (db\<lparr>rg_school_slugs := rows\<rparr>)"

lemmas put_defs = put_municipalities_def put_numbers_def put_names_def put_municipality_slugs_def put_schools_def
  put_school_slugs_def

text \<open>\<open>expect_one\<close>: an operation names exactly one row.\<close>

definition expect_one :: "nat \<Rightarrow> unit register_result" where
  "expect_one rows = (if rows = 1 then Inr () else Inl R_Unknown_Row)"

lemma expect_one_Inr [simp]: "expect_one n = Inr u \<longleftrightarrow> n = 1"
  by (simp add: expect_one_def)

text \<open>\<open>for \<dots> { \<dots>?; }\<close> over the database, whatever the error.\<close>

fun run_each :: "('a \<Rightarrow> 's \<Rightarrow> ('e, 's) result) \<Rightarrow> 'a list \<Rightarrow> 's \<Rightarrow> ('e, 's) result" where
  "run_each f [] s = Inr s"
| "run_each f (x # xs) s = and_then (f x s) (run_each f xs)"

end
