(* ===== verification/Register_Load.thy ===== *)
theory Register_Load
  imports Register_Db
begin

text \<open>
  \<open>register/snapshot.rs\<close> and \<open>register/export.rs\<close>: the register as the planner sees it, and the schools
  the prospect register is keyed on. Uuids order as their numbers, texts by code point.
\<close>

section \<open>The snapshot\<close>

text \<open>\<open>order by n.valid_until is null desc, n.valid_from desc limit 1\<close>.\<close>

definition number_before :: "'d::linorder number_row \<Rightarrow> 'd number_row \<Rightarrow> bool" where
  "number_before a b \<longleftrightarrow>
     (if (num_valid_until a = None) = (num_valid_until b = None) then num_valid_from b \<le> num_valid_from a
      else num_valid_until a = None)"

definition current_number :: "uuid \<Rightarrow> ('t, 'd::linorder) register_db \<Rightarrow> str option" where
  "current_number i db =
     (case sort_by number_before (filter (\<lambda>n. num_municipality n = i) (rg_numbers db)) of
        [] \<Rightarrow> None
      | n # _ \<Rightarrow> Some (num_number n))"

definition name_le :: "municipality_name_row \<Rightarrow> municipality_name_row \<Rightarrow> bool" where
  "name_le a b \<longleftrightarrow>
     mna_priority a < mna_priority b \<or> mna_priority a = mna_priority b \<and>
       (mna_language a < mna_language b \<or> mna_language a = mna_language b \<and> mna_name a \<le> mna_name b)"

definition names_of :: "uuid \<Rightarrow> ('t, 'd) register_db \<Rightarrow> municipality_name_row list" where
  "names_of i db = sort_by name_le (filter (\<lambda>n. mna_municipality n = i) (rg_names db))"

text \<open>\<open>u8::try_from(priority)\<close>.\<close>

definition official_name_of :: "municipality_name_row \<Rightarrow> official_name register_result" where
  "official_name_of n =
     (if 0 \<le> mna_priority n \<and> mna_priority n < 256
      then Inr \<lparr>on_name = mna_name n, on_language = mna_language n, on_priority = nat (mna_priority n)\<rparr>
      else Inl R_Decode)"

definition load_municipality ::
  "('t, 'd::linorder) register_db \<Rightarrow> ('t, 'd) municipality_row \<Rightarrow> uuid municipality_snapshot register_result" where
  "load_municipality db r =
     and_then (ok_or R_Decode (current_number (mun_id r) db)) (\<lambda>number.
     and_then (collect_results official_name_of (names_of (mun_id r) db)) (\<lambda>names.
       Inr \<lparr>ms_id = mun_id r, ms_number = number, ms_name = mun_name r, ms_official_name = mun_official_name r,
            ms_county_number = mun_county_number r, ms_county_name = mun_county_name r, ms_slug = mun_slug r,
            ms_status = mun_status r, ms_source = mun_source r, ms_names = names\<rparr>))"

definition has_live_fau :: "uuid \<Rightarrow> ('t, 'd) register_db \<Rightarrow> bool" where
  "has_live_fau i db =
     list_ex (\<lambda>t. tn_school t = Some i \<and> tn_status t \<in> {Tenant_Pending, Tenant_Active}) (rg_tenants db)"

definition load_school :: "('t, 'd) register_db \<Rightarrow> ('t, 'd) school_row \<Rightarrow> uuid school_snapshot" where
  "load_school db r =
     \<lparr>s_id = sch_id r, s_municipality_id = sch_municipality r, s_origin = sch_origin r, s_orgnr = sch_orgnr r,
      s_register_name = sch_register_name r, s_display_name = sch_display_name r,
      s_display_name_curated = sch_display_name_curated r, s_slug = sch_slug r, s_verification = sch_verification r,
      s_status = sch_status r, s_in_scope = sch_in_scope r, s_scope_override = sch_scope_override r,
      s_has_live_fau = has_live_fau (sch_id r) db, s_attributes = sch_attributes r\<rparr>"

definition load_snapshot :: "('t::linorder, 'd::linorder) register_db \<Rightarrow> uuid register_snapshot register_result" where
  "load_snapshot db =
     and_then (collect_results (load_municipality db) (sort_key mun_id (rg_municipalities db))) (\<lambda>ms.
       Inr \<lparr>municipalities = ms,
            schools = map (load_school db) (sort_key sch_id (rg_schools db)),
            school_orgnr_history = map (\<lambda>h. (org_orgnr h, org_school h))
              (sort_key org_school (sort_key org_orgnr (rg_orgnrs db))),
            school_slug_history = map (\<lambda>h. (ssl_municipality h, ssl_slug h, ssl_school h))
              (sort_key ssl_school (sort_key ssl_valid_from (sort_key ssl_municipality (sort_key ssl_slug (rg_school_slugs db))))),
            municipality_slug_history = map (\<lambda>h. (msl_slug h, msl_municipality h))
              (sort_key msl_municipality (sort_key msl_valid_from (sort_key msl_slug (rg_municipality_slugs db))))\<rparr>)"

definition register_is_empty :: "('t, 'd) register_db \<Rightarrow> bool" where
  "register_is_empty db \<longleftrightarrow> rg_municipalities db = [] \<and> rg_schools db = []"

section \<open>The export\<close>

record export_row =
  ex_school :: uuid
  ex_orgnr :: "str option"
  ex_number :: str
  ex_display_name :: str
  ex_path :: str
  ex_fau :: "str option"

text \<open>Postgres' text form of a uuid: 32 hexadecimal digits in groups of 8, 4, 4, 4 and 12.\<close>

definition hex_digit :: "nat \<Rightarrow> nat" where
  "hex_digit n = (if n < 10 then 48 + n else 87 + n)"

fun hex_digits :: "nat \<Rightarrow> nat \<Rightarrow> str" where
  "hex_digits 0 n = []"
| "hex_digits (Suc k) n = hex_digits k (n div 16) @ [hex_digit (n mod 16)]"

definition uuid_text :: "uuid \<Rightarrow> str" where
  "uuid_text u =
     (let h = hex_digits 32 u
      in take 8 h @ [45] @ take 4 (drop 8 h) @ [45] @ take 4 (drop 12 h) @ [45] @ take 4 (drop 16 h) @ [45] @ drop 20 h)"

definition export_path :: "('t, 'd) municipality_row \<Rightarrow> ('t, 'd) school_row \<Rightarrow> str" where
  "export_path m s =
     (case sch_slug s of
        None \<Rightarrow> lit ''/s/'' @ uuid_text (sch_id s)
      | Some slug \<Rightarrow> lit ''/fau/'' @ mun_slug m @ lit ''/'' @ slug)"

definition pickable :: "('t, 'd) school_row \<Rightarrow> bool" where
  "pickable s \<longleftrightarrow> sch_status s = School_Active \<and> sch_verification s \<in> {Listed, Verified}
     \<and> unwrap_or (sch_scope_override s) (sch_in_scope s)"

text \<open>The joins: a school with its municipality and each open number of it.\<close>

definition export_rows :: "('t, 'd) register_db \<Rightarrow> export_row list" where
  "export_rows db =
     sort_key ex_number (sort_key ex_school
       (concat (map (\<lambda>s. concat (map (\<lambda>m. map (\<lambda>n.
           \<lparr>ex_school = sch_id s, ex_orgnr = sch_orgnr s, ex_number = num_number n, ex_display_name = sch_display_name s,
            ex_path = export_path m s,
            ex_fau = map_option snd (List.find (\<lambda>l. fst l = sch_id s) (rg_links db))\<rparr>)
         (filter (\<lambda>n. num_municipality n = mun_id m \<and> num_valid_until n = None) (rg_numbers db)))
         (filter (\<lambda>m. mun_id m = sch_municipality s) (rg_municipalities db))))
         (filter pickable (rg_schools db)))))"

end
