(* ===== verification/Register_Applier.thy ===== *)
theory Register_Applier
  imports Register_Load Sync_Apply
begin

text \<open>
  \<open>register/apply.rs\<close>, \<open>school_ops.rs\<close> and \<open>reviews.rs\<close>: a plan applied to the database, one statement at
  a time, inside the caller's transaction.
\<close>

section \<open>The ids of new rows\<close>

record new_ids =
  ni_municipalities :: "nat \<rightharpoonup> uuid"
  ni_schools :: "nat \<rightharpoonup> uuid"

definition drawn_ids :: "('t, 'd) register_env \<Rightarrow> nat \<Rightarrow> nat list \<Rightarrow> (nat \<times> uuid) list" where
  "drawn_ids E from ns = zip ns (map (re_uuid E) [from..<from + length ns])"

definition allocate ::
  "('t, 'd) register_env \<Rightarrow> (uuid, 't, 'd) sync_plan \<Rightarrow> ('t, 'd) register_db \<Rightarrow> new_ids \<times> ('t, 'd) register_db" where
  "allocate E pln db =
     (let ms = municipality_creates (p_municipality_ops pln); ss = school_creates (p_school_ops pln);
          k = rg_drawn db
      in (\<lparr>ni_municipalities = hm_collect (drawn_ids E k ms), ni_schools = hm_collect (drawn_ids E (k + length ms) ss)\<rparr>,
          db\<lparr>rg_drawn := k + length ms + length ss\<rparr>))"

definition resolve_ref :: "(nat \<rightharpoonup> uuid) \<Rightarrow> uuid ref \<Rightarrow> uuid register_result" where
  "resolve_ref news r = (case r of Existing i \<Rightarrow> Inr i | New n \<Rightarrow> ok_or R_Unknown_Row (news n))"

section \<open>Municipality operations\<close>

text \<open>\<open>coalesce((select max(valid_until) \<dots>), created_at)\<close>: from when the slug that ends was current.\<close>

definition municipality_slug_start :: "uuid \<Rightarrow> ('t::linorder, 'd) register_db \<Rightarrow> 't \<Rightarrow> 't" where
  "municipality_slug_start i db created =
     unwrap_or (max_opt (map msl_valid_until (filter (\<lambda>h. msl_municipality h = i) (rg_municipality_slugs db)))) created"

definition move_municipality_slug ::
  "uuid \<Rightarrow> str \<Rightarrow> ('t, 'd) moment \<Rightarrow> ('t::linorder, 'd) register_db \<Rightarrow> ('t, 'd) register_db register_result" where
  "move_municipality_slug i old_slug mt db =
     put_municipality_slugs (rg_municipality_slugs db @
       List.map_filter (\<lambda>m.
         let start = municipality_slug_start i db (mun_created_at m)
         in if mun_id m = i \<and> start < m_now mt
            then Some \<lparr>msl_slug = old_slug, msl_municipality = i, msl_valid_from = start, msl_valid_until = m_now mt\<rparr>
            else None) (rg_municipalities db)) db"

text \<open>\<open>update municipalities set \<dots> where id = $1\<close> and the count of its rows.\<close>

definition update_municipality ::
  "uuid \<Rightarrow> (('t, 'd) municipality_row \<Rightarrow> ('t, 'd) municipality_row) \<Rightarrow> ('t, 'd) register_db
     \<Rightarrow> ('t, 'd) register_db register_result" where
  "update_municipality i f db =
     and_then (put_municipalities (map (\<lambda>r. if mun_id r = i then f r else r) (rg_municipalities db)) db) (\<lambda>db'.
     and_then (expect_one (length (filter (\<lambda>r. mun_id r = i) (rg_municipalities db)))) (\<lambda>_. Inr db'))"

definition insert_names :: "uuid \<Rightarrow> official_name list \<Rightarrow> ('t, 'd) register_db \<Rightarrow> ('t, 'd) register_db register_result" where
  "insert_names i =
     run_each (\<lambda>n db. put_names (rg_names db @
       [\<lparr>mna_municipality = i, mna_name = on_name n, mna_language = on_language n, mna_priority = int (on_priority n)\<rparr>]) db)"

text \<open>Closing the open number and opening the next one are one statement.\<close>

definition open_number :: "uuid \<Rightarrow> str \<Rightarrow> 'd number_row \<Rightarrow> bool" where
  "open_number i number n \<longleftrightarrow> num_municipality n = i \<and> num_number n = number \<and> num_valid_until n = None"

definition renumber ::
  "('t, 'd) register_env \<Rightarrow> uuid \<Rightarrow> str \<Rightarrow> str \<Rightarrow> 'd \<Rightarrow> ('t, 'd::linorder) register_db \<Rightarrow> ('t, 'd) register_db register_result" where
  "renumber E i from to valid_from db =
     (let until = (\<lambda>n. max valid_from (re_next_day E (num_valid_from n)));
          closing = filter (open_number i from) (rg_numbers db)
      in and_then (put_numbers
           (map (\<lambda>n. if open_number i from n then n\<lparr>num_valid_until := Some (until n)\<rparr> else n) (rg_numbers db)
            @ map (\<lambda>n. \<lparr>num_municipality = i, num_number = to, num_valid_from = until n, num_valid_until = None\<rparr>) closing) db) (\<lambda>db.
         and_then (expect_one (length closing)) (\<lambda>_. Inr db)))"

fun apply_municipality_op ::
  "('t::linorder, 'd::linorder) register_env \<Rightarrow> new_ids \<Rightarrow> ('t, 'd) moment \<Rightarrow> (uuid, 'd) municipality_op
     \<Rightarrow> ('t, 'd) register_db \<Rightarrow> (uuid \<times> ('t, 'd) register_db) register_result" where
  "apply_municipality_op E ids mt
     (Municipality_Create n number name official_name county_number county_name slug names source) db =
     and_then (resolve_ref (ni_municipalities ids) (New n)) (\<lambda>i.
     and_then (put_municipalities (rg_municipalities db @
         [\<lparr>mun_id = i, mun_name = name, mun_official_name = official_name, mun_county_number = county_number,
           mun_county_name = county_name, mun_slug = slug, mun_status = Municipality_Active, mun_dissolved_on = None,
           mun_source = source, mun_search_text = [], mun_created_at = m_now mt, mun_updated_at = m_now mt\<rparr>]) db) (\<lambda>db.
     and_then (put_numbers (rg_numbers db @
         [\<lparr>num_municipality = i, num_number = number, num_valid_from = m_today mt, num_valid_until = None\<rparr>]) db) (\<lambda>db.
     and_then (insert_names i names db) (\<lambda>db.
       Inr (i, db)))))"
| "apply_municipality_op E ids mt (Renumber i from to valid_from name old_slug new_slug) db =
     and_then (move_municipality_slug i old_slug mt db) (\<lambda>db.
     and_then (update_municipality i (\<lambda>r. r\<lparr>mun_slug := new_slug, mun_name := unwrap_or name (mun_name r),
         mun_updated_at := m_now mt\<rparr>) db) (\<lambda>db.
     and_then (renumber E i from to valid_from db) (\<lambda>db.
       Inr (i, db))))"
| "apply_municipality_op E ids mt (Municipality_Rename i name old_slug new_slug) db =
     and_then (if old_slug \<noteq> new_slug then move_municipality_slug i old_slug mt db else Inr db) (\<lambda>db.
     and_then (update_municipality i (\<lambda>r. r\<lparr>mun_name := name, mun_slug := new_slug, mun_updated_at := m_now mt\<rparr>) db) (\<lambda>db.
       Inr (i, db)))"
| "apply_municipality_op E ids mt (Update_Details i official_name county_number county_name names) db =
     and_then (update_municipality i (\<lambda>r. r\<lparr>mun_official_name := official_name, mun_county_number := county_number,
         mun_county_name := county_name, mun_updated_at := m_now mt\<rparr>) db) (\<lambda>db.
     and_then (put_names (filter (\<lambda>n. mna_municipality n \<noteq> i) (rg_names db)) db) (\<lambda>db.
     and_then (insert_names i names db) (\<lambda>db.
       Inr (i, db))))"

definition refresh_municipality_search_text ::
  "('t, 'd) register_env \<Rightarrow> uuid \<Rightarrow> ('t, 'd) register_db \<Rightarrow> ('t, 'd) register_db register_result" where
  "refresh_municipality_search_text E i db =
     and_then (ok_or no_row (List.find (\<lambda>r. mun_id r = i) (rg_municipalities db))) (\<lambda>m.
     let words = search_text (re_ucd E) (mun_name m # map mna_name (names_of i db))
     in put_municipalities (map (\<lambda>r. if mun_id r = i then r\<lparr>mun_search_text := words\<rparr> else r) (rg_municipalities db)) db)"

section \<open>School operations\<close>

text \<open>From when the slug that ends was current: the end of the last one, or else the verification, or
  else the creation of the row.\<close>

definition school_slug_start :: "('t::linorder, 'd) register_db \<Rightarrow> ('t, 'd) school_row \<Rightarrow> 't" where
  "school_slug_start db s =
     (case max_opt (map ssl_valid_until (filter (\<lambda>h. ssl_school h = sch_id s) (rg_school_slugs db))) of
        Some u \<Rightarrow> u
      | None \<Rightarrow> unwrap_or (sch_verified_at s) (sch_created_at s))"

definition move_school_slug ::
  "uuid \<Rightarrow> uuid option \<Rightarrow> str \<Rightarrow> ('t, 'd) moment \<Rightarrow> ('t::linorder, 'd) register_db \<Rightarrow> ('t, 'd) register_db register_result" where
  "move_school_slug i municipality slug mt db =
     put_school_slugs (rg_school_slugs db @
       List.map_filter (\<lambda>s.
         if sch_id s = i \<and> school_slug_start db s < m_now mt
         then Some \<lparr>ssl_municipality = unwrap_or municipality (sch_municipality s), ssl_slug = slug, ssl_school = i,
                    ssl_valid_from = school_slug_start db s, ssl_valid_until = m_now mt\<rparr>
         else None) (rg_schools db)) db"

definition update_school ::
  "uuid \<Rightarrow> (('t, 'd) school_row \<Rightarrow> ('t, 'd) school_row) \<Rightarrow> ('t, 'd) register_db \<Rightarrow> ('t, 'd) register_db register_result" where
  "update_school i f db =
     and_then (put_schools (map (\<lambda>r. if sch_id r = i then f r else r) (rg_schools db)) db) (\<lambda>db'.
     and_then (expect_one (length (filter (\<lambda>r. sch_id r = i) (rg_schools db)))) (\<lambda>_. Inr db'))"

text \<open>\<open>if let Some(SlugChange { old: Some(old), .. }) = slug\<close>.\<close>

definition keep_old_slug ::
  "uuid \<Rightarrow> uuid option \<Rightarrow> slug_change option \<Rightarrow> ('t, 'd) moment \<Rightarrow> ('t::linorder, 'd) register_db
     \<Rightarrow> ('t, 'd) register_db register_result" where
  "keep_old_slug i municipality change mt db =
     (case Option.bind change sc_old of
        Some old \<Rightarrow> move_school_slug i municipality old mt db
      | None \<Rightarrow> Inr db)"

definition coalesce_slug :: "slug_change option \<Rightarrow> str option \<Rightarrow> str option" where
  "coalesce_slug change current = (case change of Some c \<Rightarrow> Some (sc_new c) | None \<Rightarrow> current)"

fun apply_school_op ::
  "('t::linorder, 'd) register_env \<Rightarrow> new_ids \<Rightarrow> ('t, 'd) moment \<Rightarrow> (uuid, 't, 'd) school_op
     \<Rightarrow> ('t, 'd) register_db \<Rightarrow> ('t, 'd) register_db register_result" where
  "apply_school_op E ids mt
     (School_Create n municipality orgnr register_name display_name slug v in_scope attributes changed_at) db =
     and_then (resolve_ref (ni_schools ids) (New n)) (\<lambda>i.
     and_then (resolve_ref (ni_municipalities ids) municipality) (\<lambda>m.
       put_schools (rg_schools db @
         [\<lparr>sch_id = i, sch_municipality = m, sch_origin = Register, sch_display_name = display_name,
           sch_register_name = Some register_name, sch_display_name_curated = False, sch_slug = slug,
           sch_verification = (case v of Create_Listed \<Rightarrow> Listed | Create_Held \<Rightarrow> Held), sch_verified_at = None,
           sch_orgnr = Some orgnr, sch_attributes = attributes, sch_in_scope = in_scope, sch_scope_override = None,
           sch_status = School_Active, sch_closed_on = None, sch_closure_reason = None, sch_successor = None,
           sch_source_changed_at = changed_at, sch_last_seen_at = Some (m_now mt),
           sch_search_text = search_text (re_ucd E) [display_name, register_name],
           sch_created_at = m_now mt, sch_updated_at = m_now mt\<rparr>]) db))"
| "apply_school_op E ids mt (School_Rename i register_name display_name slug) db =
     and_then (keep_old_slug i None slug mt db)
       (update_school i (\<lambda>r. r\<lparr>sch_register_name := Some register_name,
          sch_display_name := unwrap_or display_name (sch_display_name r),
          sch_slug := coalesce_slug slug (sch_slug r), sch_updated_at := m_now mt\<rparr>))"
| "apply_school_op E ids mt (Update_Attributes i attributes) db =
     update_school i (\<lambda>r. r\<lparr>sch_attributes := attributes, sch_updated_at := m_now mt\<rparr>) db"
| "apply_school_op E ids mt (Move i from to slug) db =
     and_then (keep_old_slug i (Some from) slug mt db) (\<lambda>db.
     and_then (resolve_ref (ni_municipalities ids) to) (\<lambda>m.
       update_school i (\<lambda>r. r\<lparr>sch_municipality := m, sch_slug := coalesce_slug slug (sch_slug r),
          sch_updated_at := m_now mt\<rparr>) db))"
| "apply_school_op E ids mt (Close i reason closed_on successor) db =
     and_then (ok_or R_Unknown_Row (List.find (\<lambda>r. sch_id r = i) (rg_schools db))) (\<lambda>s.
     and_then (case sch_slug s of Some slug \<Rightarrow> move_school_slug i None slug mt db | None \<Rightarrow> Inr db)
       (update_school i (\<lambda>r. r\<lparr>sch_status := School_Closed, sch_closed_on := Some closed_on,
          sch_closure_reason := Some (closure_reason_code reason), sch_slug := None,
          sch_in_scope := (sch_in_scope r \<and> reason \<noteq> Out_Of_Scope_Closure), sch_updated_at := m_now mt\<rparr>)))"

definition link_successor ::
  "uuid \<times> uuid \<Rightarrow> ('t, 'd) register_db \<Rightarrow> ('t, 'd) register_db register_result" where
  "link_successor p db = (case p of (i, successor) \<Rightarrow> update_school i (\<lambda>r. r\<lparr>sch_successor := Some successor\<rparr>) db)"

definition refresh_school_search_text ::
  "('t, 'd) register_env \<Rightarrow> uuid \<Rightarrow> ('t, 'd) register_db \<Rightarrow> ('t, 'd) register_db register_result" where
  "refresh_school_search_text E i db =
     and_then (ok_or no_row (List.find (\<lambda>r. sch_id r = i) (rg_schools db))) (\<lambda>s.
     let words = search_text (re_ucd E) (sch_display_name s # (case sch_register_name s of Some n \<Rightarrow> [n] | None \<Rightarrow> []))
     in put_schools (map (\<lambda>r. if sch_id r = i then r\<lparr>sch_search_text := words\<rparr> else r) (rg_schools db)) db)"

section \<open>Reviews\<close>

datatype discriminator = No_Discriminator | By_Number "str option" | By_Reason "str option" "str option"

definition detail :: "(str \<times> str) list \<Rightarrow> string \<Rightarrow> str option" where
  "detail details key = map_of details (lit key)"

definition or_else :: "'a option \<Rightarrow> 'a option \<Rightarrow> 'a option" where
  "or_else a b = (case a of Some x \<Rightarrow> Some x | None \<Rightarrow> b)"

definition discriminator :: "review_kind \<Rightarrow> (str \<times> str) list \<Rightarrow> discriminator" where
  "discriminator k details =
     (case k of
        Unknown_Municipality_Number \<Rightarrow> By_Number (detail details ''municipality_number'')
      | Municipality_Split_Or_Merge \<Rightarrow>
          By_Reason (detail details ''reason'') (or_else (detail details ''number'') (detail details ''old_code''))
      | _ \<Rightarrow> No_Discriminator)"

text \<open>A stored JSON object keeps the last value of a key.\<close>

definition stored_detail :: "'t review_row \<Rightarrow> string \<Rightarrow> str option" where
  "stored_detail r key = map_of (rev (rvw_details r)) (lit key)"

definition covers ::
  "review_kind \<Rightarrow> uuid option \<Rightarrow> uuid option \<Rightarrow> uuid option \<Rightarrow> discriminator \<Rightarrow> 't review_row \<Rightarrow> bool" where
  "covers k school other municipality d r \<longleftrightarrow>
     rvw_resolved_at r = None \<and> rvw_kind r = k \<and> rvw_school r = school \<and> rvw_other_school r = other
     \<and> rvw_municipality r = municipality
     \<and> (case d of
          No_Discriminator \<Rightarrow> True
        | By_Number number \<Rightarrow> stored_detail r ''municipality_number'' = number
        | By_Reason reason code \<Rightarrow> stored_detail r ''reason'' = reason
            \<and> or_else (stored_detail r ''number'') (stored_detail r ''old_code'') = code)"

definition resolve_opt :: "(nat \<rightharpoonup> uuid) \<Rightarrow> uuid ref option \<Rightarrow> uuid option register_result" where
  "resolve_opt news r = (case r of None \<Rightarrow> Inr None | Some r \<Rightarrow> and_then (resolve_ref news r) (\<lambda>i. Inr (Some i)))"

definition references_ok :: "uuid option \<Rightarrow> uuid list \<Rightarrow> bool" where
  "references_ok i ids \<longleftrightarrow> (case i of Some u \<Rightarrow> u \<in> set ids | None \<Rightarrow> True)"

text \<open>One item: written, with its id and kind, or skipped.\<close>

definition write_review ::
  "('t, 'd) register_env \<Rightarrow> new_ids \<Rightarrow> ('t, 'd) moment \<Rightarrow> uuid review_item \<Rightarrow> ('t, 'd) register_db
     \<Rightarrow> ((uuid \<times> review_kind) option \<times> ('t, 'd) register_db) register_result" where
  "write_review E ids mt item db =
     and_then (resolve_opt (ni_schools ids) (ri_school item)) (\<lambda>school.
     and_then (resolve_opt (ni_schools ids) (ri_other_school item)) (\<lambda>other.
     and_then (resolve_opt (ni_municipalities ids) (ri_municipality item)) (\<lambda>municipality.
     if list_ex (covers (ri_kind item) school other municipality (discriminator (ri_kind item) (ri_details item))) (rg_reviews db)
     then Inr (None, db)
     else
       let (i, db) = fresh_id E db
       in and_then (held_to (i \<notin> rvw_id ` set (rg_reviews db) \<and> references_ok school (map sch_id (rg_schools db))
              \<and> references_ok other (map sch_id (rg_schools db))
              \<and> references_ok municipality (map mun_id (rg_municipalities db)) \<and> re_details_fit E (ri_details item))
            (db\<lparr>rg_reviews := rg_reviews db @
               [\<lparr>rvw_id = i, rvw_kind = ri_kind item, rvw_school = school, rvw_other_school = other,
                 rvw_municipality = municipality, rvw_details = ri_details item, rvw_created_at = m_now mt,
                 rvw_resolved_at = None\<rparr>]\<rparr>))
          (\<lambda>db. Inr (Some (i, ri_kind item), db)))))"

fun write_reviews ::
  "('t, 'd) register_env \<Rightarrow> new_ids \<Rightarrow> ('t, 'd) moment \<Rightarrow> uuid review_item list \<Rightarrow> (uuid \<times> review_kind) list \<Rightarrow> nat
     \<Rightarrow> ('t, 'd) register_db \<Rightarrow> ((uuid \<times> review_kind) list \<times> nat \<times> ('t, 'd) register_db) register_result" where
  "write_reviews E ids mt [] written skipped db = Inr (written, skipped, db)"
| "write_reviews E ids mt (item # items) written skipped db =
     and_then (write_review E ids mt item db) (\<lambda>(new, db).
       case new of
         None \<Rightarrow> write_reviews E ids mt items written (skipped + 1) db
       | Some r \<Rightarrow> write_reviews E ids mt items (written @ [r]) skipped db)"

section \<open>Applying a plan\<close>

record applied_counts =
  ac_counts :: counts
  ac_ops :: nat
  ac_new_reviews :: "(uuid \<times> review_kind) list"
  ac_deduplicated :: nat

definition wrote_nothing :: "applied_counts \<Rightarrow> bool" where
  "wrote_nothing a \<longleftrightarrow> ac_ops a = 0 \<and> ac_new_reviews a = []"

text \<open>The first loop and the ids it touched, a \<open>BTreeSet\<close>.\<close>

fun municipality_ops ::
  "('t::linorder, 'd::linorder) register_env \<Rightarrow> new_ids \<Rightarrow> ('t, 'd) moment \<Rightarrow> (uuid, 'd) municipality_op list
     \<Rightarrow> ('t, 'd) register_db \<Rightarrow> (uuid list \<times> ('t, 'd) register_db) register_result" where
  "municipality_ops E ids mt [] db = Inr ([], db)"
| "municipality_ops E ids mt (op # ops) db =
     and_then (apply_municipality_op E ids mt op db) (\<lambda>(i, db).
     and_then (municipality_ops E ids mt ops db) (\<lambda>(touched, db). Inr (i # touched, db)))"

definition ordered_set :: "'a::linorder list \<Rightarrow> 'a list" where
  "ordered_set xs = sort (remdups xs)"

text \<open>The second loop: the successor to link, resolved before the operation runs.\<close>

definition successor_link :: "new_ids \<Rightarrow> (uuid, 't, 'd) school_op \<Rightarrow> (uuid \<times> uuid) list register_result" where
  "successor_link ids op =
     (case op of
        Close i _ _ (Some h) \<Rightarrow> and_then (resolve_ref (ni_schools ids) h) (\<lambda>s. Inr [(i, s)])
      | _ \<Rightarrow> Inr [])"

definition renamed_school :: "(uuid, 't, 'd) school_op \<Rightarrow> uuid list" where
  "renamed_school op = (case op of School_Rename i _ _ _ \<Rightarrow> [i] | _ \<Rightarrow> [])"

fun school_ops ::
  "('t::linorder, 'd) register_env \<Rightarrow> new_ids \<Rightarrow> ('t, 'd) moment \<Rightarrow> (uuid, 't, 'd) school_op list
     \<Rightarrow> ('t, 'd) register_db \<Rightarrow> ((uuid \<times> uuid) list \<times> ('t, 'd) register_db) register_result" where
  "school_ops E ids mt [] db = Inr ([], db)"
| "school_ops E ids mt (op # ops) db =
     and_then (successor_link ids op) (\<lambda>link.
     and_then (apply_school_op E ids mt op db) (\<lambda>db.
     and_then (school_ops E ids mt ops db) (\<lambda>(links, db). Inr (link @ links, db))))"

definition apply_register_plan ::
  "('t::linorder, 'd::linorder) register_env \<Rightarrow> (uuid, 't, 'd) sync_plan \<Rightarrow> ('t, 'd) moment \<Rightarrow> ('t, 'd) register_db
     \<Rightarrow> (applied_counts \<times> ('t, 'd) register_db) register_result" where
  "apply_register_plan E pln mt db =
     (let (ids, db) = allocate E pln db
      in and_then (municipality_ops E ids mt (p_municipality_ops pln) db) (\<lambda>(touched, db).
         and_then (run_each (refresh_municipality_search_text E) (ordered_set touched) db) (\<lambda>db.
         and_then (school_ops E ids mt (p_school_ops pln) db) (\<lambda>(links, db).
         and_then (run_each link_successor links db) (\<lambda>db.
         and_then (run_each (refresh_school_search_text E) (ordered_set (concat (map renamed_school (p_school_ops pln)))) db) (\<lambda>db.
         and_then (write_reviews E ids mt (p_reviews pln) [] 0 db) (\<lambda>(written, skipped, db).
           Inr (\<lparr>ac_counts = p_counts pln, ac_ops = length (p_municipality_ops pln) + length (p_school_ops pln),
                 ac_new_reviews = written, ac_deduplicated = skipped\<rparr>, db))))))))"

end
