(* ===== verification/Refinement_Rows.thy ===== *)
theory Refinement_Rows
  imports Register_Applier "HOL-Library.Multiset"
begin

text \<open>
  Towards the refinement of \<open>Sync_Apply\<close> by \<open>Register_Applier\<close>: rows found by their id, in tables whose
  order does not matter, and what one municipality's row, number and names say of it.
\<close>

section \<open>Rows by id\<close>

definition lookup :: "('a \<Rightarrow> 'k) \<Rightarrow> 'a list \<Rightarrow> 'k \<Rightarrow> 'a option" where
  "lookup f xs k = List.find (\<lambda>x. f x = k) xs"

lemma lookup_simps [simp]:
  "lookup f [] k = None" "lookup f (x # xs) k = (if f x = k then Some x else lookup f xs k)"
  "lookup f (xs @ ys) k = (case lookup f xs k of Some x \<Rightarrow> Some x | None \<Rightarrow> lookup f ys k)"
proof -
  show "lookup f (xs @ ys) k = (case lookup f xs k of Some x \<Rightarrow> Some x | None \<Rightarrow> lookup f ys k)"
    unfolding lookup_def by (induction xs) simp_all
qed (simp_all add: lookup_def)

lemma lookup_None: "lookup f xs k = None \<longleftrightarrow> k \<notin> f ` set xs"
  by (induction xs) auto

lemma lookup_SomeD: "lookup f xs k = Some x \<Longrightarrow> x \<in> set xs \<and> f x = k"
  by (induction xs) (auto split: if_splits)

lemma lookup_Some: "distinct (map f xs) \<Longrightarrow> lookup f xs k = Some x \<longleftrightarrow> x \<in> set xs \<and> f x = k"
  by (induction xs) (auto simp: image_iff)

lemma lookup_update:
  assumes "\<And>x. f (g x) = f x"
  shows "lookup f (map (\<lambda>x. if f x = k then g x else x) xs) = (lookup f xs)(k := map_option g (lookup f xs k))"
proof
  fix i
  show "lookup f (map (\<lambda>x. if f x = k then g x else x) xs) i = ((lookup f xs)(k := map_option g (lookup f xs k))) i"
    by (induction xs) (auto simp: assms)
qed

lemma map_update_id:
  assumes "\<And>x. f (g x) = f x" shows "map f (map (\<lambda>x. if f x = k then g x else x) xs) = map f xs"
  using assms by auto

lemma set_update_id:
  assumes "\<And>x. f (g x) = f x" shows "f ` set (map (\<lambda>x. if f x = k then g x else x) xs) = f ` set xs"
  unfolding list.set_map [symmetric, of f] map_update_id [of f g, OF assms] ..

text \<open>\<open>find_mut\<close> of the specification updates the same row.\<close>

lemma update_first_lookup:
  assumes "\<And>x. f (g x) = f x" "lookup f xs k \<noteq> None"
  obtains ys where "update_first (\<lambda>x. f x = k) g xs = Some ys" "map f ys = map f xs"
    "lookup f ys = (lookup f xs)(k := map_option g (lookup f xs k))"
proof -
  have "\<exists>ys. update_first (\<lambda>x. f x = k) g xs = Some ys \<and> map f ys = map f xs
    \<and> lookup f ys = (lookup f xs)(k := map_option g (lookup f xs k))"
    using assms(2)
  proof (induction xs)
    case (Cons x xs)
    show ?case
    proof (cases "f x = k")
      case True
      then show ?thesis by (auto simp: assms(1) fun_eq_iff)
    next
      case False
      with Cons.prems have "lookup f xs k \<noteq> None" by simp
      from Cons.IH [OF this] obtain ys where ys: "update_first (\<lambda>x. f x = k) g xs = Some ys" "map f ys = map f xs"
        "lookup f ys = (lookup f xs)(k := map_option g (lookup f xs k))" by blast
      with False show ?thesis by (intro exI [of _ "x # ys"]) (auto simp: fun_eq_iff)
    qed
  qed simp
  with that show thesis by blast
qed

text \<open>Distinct keys, said of rows found by id.\<close>

lemma set_map_filter: "v \<in> set (List.map_filter key xs) \<longleftrightarrow> (\<exists>y\<in>set xs. key y = Some v)"
  by (induction xs) (auto simp: List.map_filter_simps split: option.splits)

lemma distinct_map_filter:
  "distinct xs \<Longrightarrow> distinct (List.map_filter key xs) \<longleftrightarrow>
    (\<forall>x\<in>set xs. \<forall>y\<in>set xs. x \<noteq> y \<longrightarrow> key x \<noteq> None \<longrightarrow> key x \<noteq> key y)"
proof (induction xs)
  case (Cons x xs)
  then have IH: "distinct (List.map_filter key xs) \<longleftrightarrow>
    (\<forall>x\<in>set xs. \<forall>y\<in>set xs. x \<noteq> y \<longrightarrow> key x \<noteq> None \<longrightarrow> key x \<noteq> key y)" by simp
  show ?case
  proof (cases "key x")
    case None
    with IH show ?thesis by (auto simp: List.map_filter_simps)
  next
    case (Some v)
    with IH Cons.prems show ?thesis by (auto simp: List.map_filter_simps set_map_filter)
  qed
qed (simp add: List.map_filter_simps)

lemma distinct_by_lookup:
  assumes "distinct (map f xs)"
  shows "distinct (List.map_filter key xs) \<longleftrightarrow>
    (\<forall>i j x y. i \<noteq> j \<longrightarrow> lookup f xs i = Some x \<longrightarrow> lookup f xs j = Some y \<longrightarrow> key x \<noteq> None \<longrightarrow> key x \<noteq> key y)"
proof -
  from assms have "x = y \<longleftrightarrow> f x = f y" if "x \<in> set xs" "y \<in> set xs" for x y
    using that by (auto simp: distinct_map inj_on_def)
  moreover from assms have "distinct xs" by (simp add: distinct_map)
  ultimately show ?thesis
    unfolding distinct_map_filter [OF \<open>distinct xs\<close>] lookup_Some [OF assms] by metis
qed

lemma same_rows:
  assumes "distinct (map f xs)" "distinct (map f ys)" "lookup f xs = lookup f ys"
  shows "mset xs = mset ys"
proof (rule set_eq_iff_mset_eq_distinct [THEN iffD1])
  show "distinct xs" "distinct ys" using assms(1,2) by (simp_all add: distinct_map)
  have "x \<in> set xs \<longleftrightarrow> x \<in> set ys" for x
    using lookup_Some [OF assms(1), of "f x" x] lookup_Some [OF assms(2), of "f x" x] assms(3) by simp
  then show "set xs = set ys" by blast
qed

lemma same_rows_sorted:
  assumes "distinct (map f xs)" "distinct (map f ys)" "lookup f xs = lookup f ys"
  shows "sort_key f xs = sort_key f ys"
proof (rule sort_key_inj_key_eq)
  show "mset xs = mset (sort_key f ys)" using same_rows [OF assms] by simp
  show "inj_on f (set xs)" using assms(1) by (simp add: distinct_map)
qed simp

lemma lookup_map_id:
  assumes "\<And>x. g (h x) = f x" shows "lookup g (map h xs) = (\<lambda>k. map_option h (lookup f xs k))"
proof
  show "lookup g (map h xs) k = map_option h (lookup f xs k)" for k by (induction xs) (auto simp: assms)
qed

section \<open>A municipality's number\<close>

definition is_open :: "'d number_row \<Rightarrow> bool" where
  "is_open n \<longleftrightarrow> num_valid_until n = None"

definition numbers_of :: "uuid \<Rightarrow> 'd number_row list \<Rightarrow> 'd number_row list" where
  "numbers_of i rows = filter (\<lambda>n. num_municipality n = i) rows"

lemma current_number_rows:
  "numbers_of i (rg_numbers db') = numbers_of i (rg_numbers db) \<Longrightarrow> current_number i db' = current_number i db"
  by (simp add: current_number_def numbers_of_def)

lemma number_before_total: "number_before a b \<or> number_before b a"
  by (auto simp: number_before_def)

lemma number_before_trans: "number_before a b \<Longrightarrow> number_before b c \<Longrightarrow> number_before a c"
  by (auto simp: number_before_def split: if_splits)

lemma current_number_open:
  assumes "filter is_open (numbers_of i (rg_numbers db)) = [n]"
  shows "current_number i db = Some (num_number n)"
proof -
  let ?s = "sort_by number_before (numbers_of i (rg_numbers db))"
  have opened: "{m \<in> set ?s. is_open m} = {n}" using arg_cong [OF assms, of set] by simp
  then have n: "n \<in> set ?s" "is_open n" and only: "\<And>m. m \<in> set ?s \<Longrightarrow> is_open m \<Longrightarrow> m = n" by blast+
  have sorted: "sorted_wrt number_before ?s" using number_before_total number_before_trans by (rule sorted_wrt_sort_by)
  obtain h t where s: "?s = h # t" using n(1) by (cases ?s) auto
  have "h = n"
  proof (rule ccontr)
    assume "h \<noteq> n"
    with n(1) s sorted have "number_before h n" by auto
    with n(2) have "is_open h" by (auto simp: number_before_def is_open_def split: if_splits)
    with only [of h] s \<open>h \<noteq> n\<close> show False by simp
  qed
  with s show ?thesis by (simp add: current_number_def numbers_of_def)
qed

section \<open>A municipality's names\<close>

definition name_row :: "uuid \<Rightarrow> official_name \<Rightarrow> municipality_name_row" where
  "name_row i n = \<lparr>mna_municipality = i, mna_name = on_name n, mna_language = on_language n, mna_priority = int (on_priority n)\<rparr>"

text \<open>The order the names are read in.\<close>

definition official_le :: "official_name \<Rightarrow> official_name \<Rightarrow> bool" where
  "official_le a b \<longleftrightarrow> name_le (name_row 0 a) (name_row 0 b)"

definition by_priority :: "official_name list \<Rightarrow> official_name list" where
  "by_priority = sort_by official_le"

lemma insert_by_map: "insert_by le (f x) (map f xs) = map f (insert_by (\<lambda>a b. le (f a) (f b)) x xs)"
  by (induction xs) simp_all

lemma sort_by_map: "sort_by le (map f xs) = map f (sort_by (\<lambda>a b. le (f a) (f b)) xs)"
  by (induction xs) (simp_all add: insert_by_map)

lemma insert_names_rows:
  assumes "insert_names i names db = Inr db'"
  shows "db' = db\<lparr>rg_names := rg_names db @ map (name_row i) names\<rparr> \<and> (names_ok db (rg_names db) \<longrightarrow> names_ok db (rg_names db'))"
  using assms
proof (induction names arbitrary: db)
  case (Cons n names)
  then obtain d where d: "d = db\<lparr>rg_names := rg_names db @ [name_row i n]\<rparr>" "names_ok db (rg_names d)" "insert_names i names d = Inr db'"
    by (auto simp: insert_names_def put_names_def name_row_def)
  have same: "names_ok d rows = names_ok db rows" for rows unfolding d(1) by (simp add: names_ok_def)
  from conjunct1 [OF Cons.IH [OF d(3)]] have "db' = d\<lparr>rg_names := rg_names d @ map (name_row i) names\<rparr>" .
  moreover from conjunct2 [OF Cons.IH [OF d(3)]] d(2) have ok: "names_ok db (rg_names db')" by (simp only: same simp_thms)
  ultimately have "db' = db\<lparr>rg_names := rg_names db @ map (name_row i) (n # names)\<rparr>" by (simp add: d(1))
  with ok show ?case by blast
qed (simp add: insert_names_def)

definition loaded_names :: "uuid \<Rightarrow> ('t, 'd) register_db \<Rightarrow> official_name list register_result" where
  "loaded_names i db = collect_results official_name_of (names_of i db)"

lemma loaded_names_rows:
  "filter (\<lambda>n. mna_municipality n = i) (rg_names db') = filter (\<lambda>n. mna_municipality n = i) (rg_names db)
     \<Longrightarrow> loaded_names i db' = loaded_names i db"
  by (simp add: loaded_names_def names_of_def)

lemma official_name_row: "on_priority n < 256 \<Longrightarrow> official_name_of (name_row i n) = Inr n"
  by (simp add: official_name_of_def name_row_def)

lemma collect_names: "list_all (\<lambda>n. on_priority n < 256) ns \<Longrightarrow> collect_results official_name_of (map (name_row i) ns) = Inr ns"
  by (induction ns) (simp_all add: official_name_row)

lemma loaded_names_written:
  assumes "filter (\<lambda>n. mna_municipality n = i) (rg_names db) = map (name_row i) ns" "list_all (\<lambda>n. on_priority n < 256) ns"
  shows "loaded_names i db = Inr (by_priority ns)"
proof -
  have "(\<lambda>a b. name_le (name_row i a) (name_row i b)) = official_le"
    by (simp add: fun_eq_iff official_le_def name_le_def name_row_def)
  then have "names_of i db = map (name_row i) (by_priority ns)"
    by (simp add: names_of_def assms(1) sort_by_map by_priority_def)
  moreover have "list_all (\<lambda>n. on_priority n < 256) (by_priority ns)"
    using assms(2) by (simp add: by_priority_def list_all_iff)
  ultimately show ?thesis by (simp add: loaded_names_def collect_names)
qed

end
