(* ===== verification/Register_Refinement.thy ===== *)
theory Register_Refinement
  imports Refinement_Rows
begin

text \<open>
  \<open>apply.rs\<close> refines \<open>testkit.rs\<close>: a plan the database takes leaves the register the executable
  specification computes with the ids the run drew. The two keep their histories differently (the database
  skips empty intervals), so the municipalities and the schools are compared.
\<close>

section \<open>The abstraction\<close>

definition municipality_of :: "('t, 'd) municipality_row \<Rightarrow> str \<Rightarrow> official_name list \<Rightarrow> uuid municipality_snapshot" where
  "municipality_of r number names =
     \<lparr>ms_id = mun_id r, ms_number = number, ms_name = mun_name r, ms_official_name = mun_official_name r,
      ms_county_number = mun_county_number r, ms_county_name = mun_county_name r, ms_slug = mun_slug r,
      ms_status = mun_status r, ms_source = mun_source r, ms_names = names\<rparr>"

definition municipality_at :: "('t, 'd::linorder) register_db \<Rightarrow> uuid \<Rightarrow> uuid municipality_snapshot option" where
  "municipality_at db i =
     (case (lookup mun_id (rg_municipalities db) i, current_number i db, loaded_names i db) of
        (Some r, Some n, Inr ns) \<Rightarrow> Some (municipality_of r n ns)
      | _ \<Rightarrow> None)"

definition school_at :: "('t, 'd) register_db \<Rightarrow> uuid \<Rightarrow> uuid school_snapshot option" where
  "school_at db i = map_option (load_school db) (lookup sch_id (rg_schools db) i)"

text \<open>The specification keeps a municipality's names as the plan has them, the database in their order.\<close>

definition names_in_order :: "uuid municipality_snapshot \<Rightarrow> uuid municipality_snapshot" where
  "names_in_order m = m\<lparr>ms_names := by_priority (ms_names m)\<rparr>"

definition related :: "('t, 'd::linorder) register_db \<Rightarrow> register \<Rightarrow> bool" where
  "related db out \<longleftrightarrow>
     distinct (map ms_id (municipalities out)) \<and> distinct (map s_id (schools out))
     \<and> municipality_at db = (\<lambda>i. map_option names_in_order (lookup ms_id (municipalities out) i))
     \<and> school_at db = lookup s_id (schools out)"

definition all_load :: "('t, 'd::linorder) register_db \<Rightarrow> bool" where
  "all_load db \<longleftrightarrow> list_all (\<lambda>r. municipality_at db (mun_id r) \<noteq> None) (rg_municipalities db)"

section \<open>The database's own invariant\<close>

definition open_numbers :: "uuid \<Rightarrow> ('t, 'd) register_db \<Rightarrow> 'd number_row list" where
  "open_numbers i db = filter is_open (numbers_of i (rg_numbers db))"

text \<open>The constraints, the foreign key of the tenants, and one open number to an active municipality.\<close>

definition sql_ok :: "('t::linorder, 'd::linorder) register_db \<Rightarrow> bool" where
  "sql_ok db \<longleftrightarrow>
     municipalities_ok (rg_municipalities db) \<and> numbers_ok db (rg_numbers db) \<and> names_ok db (rg_names db)
     \<and> schools_ok db (rg_schools db)
     \<and> list_all (\<lambda>t. case tn_school t of Some i \<Rightarrow> i \<in> sch_id ` set (rg_schools db) | None \<Rightarrow> True) (rg_tenants db)
     \<and> list_all (\<lambda>r. length (open_numbers (mun_id r) db) \<le> 1
          \<and> (mun_status r = Municipality_Active \<longrightarrow> open_numbers (mun_id r) db \<noteq> [])) (rg_municipalities db)"

lemma map_filter_simps_fun:
  "List.map_filter (\<lambda>x. Some (g x)) xs = map g xs"
  "List.map_filter (\<lambda>x. if p x then Some (g x) else None) xs = map g (filter p xs)"
  "present (map k xs) = List.map_filter k xs"
proof -
  show "List.map_filter (\<lambda>x. Some (g x)) xs = map g xs"
    "List.map_filter (\<lambda>x. if p x then Some (g x) else None) xs = map g (filter p xs)"
    by (induction xs) (simp_all add: List.map_filter_simps)
  show "present (map k xs) = List.map_filter k xs"
    by (induction xs) (simp_all add: present_def List.map_filter_simps split: option.splits)
qed

text \<open>What the specification checks after each operation follows from the constraints.\<close>

lemma related_school:
  assumes "related db out" "s \<in> set (schools out)"
  obtains r where "r \<in> set (rg_schools db)" "s = load_school db r" "sch_id r = s_id s"
proof -
  from assms have "school_at db (s_id s) = Some s" by (simp add: related_def lookup_Some)
  then obtain r where "lookup sch_id (rg_schools db) (s_id s) = Some r" "s = load_school db r"
    by (auto simp: school_at_def)
  with that show thesis by (auto dest: lookup_SomeD)
qed

lemma related_municipality:
  assumes "related db out" "m \<in> set (municipalities out)"
  obtains r n ns where "lookup mun_id (rg_municipalities db) (ms_id m) = Some r" "current_number (ms_id m) db = Some n"
    "names_in_order m = municipality_of r n ns"
proof -
  from assms have "lookup ms_id (municipalities out) (ms_id m) = Some m" by (simp add: related_def lookup_Some)
  with assms(1) have "municipality_at db (ms_id m) = Some (names_in_order m)" by (simp add: related_def)
  then show thesis by (auto simp: municipality_at_def split: option.splits sum.splits intro: that [OF _ _ sym])
qed

lemma names_in_order_fields [simp]:
  "ms_id (names_in_order m) = ms_id m" "ms_slug (names_in_order m) = ms_slug m" "ms_number (names_in_order m) = ms_number m"
  "ms_status (names_in_order m) = ms_status m"
  by (simp_all add: names_in_order_def)

lemma municipality_fields:
  assumes "related db out" "m \<in> set (municipalities out)"
  obtains r where "r \<in> set (rg_municipalities db)" "mun_id r = ms_id m" "mun_slug r = ms_slug m" "mun_status r = ms_status m"
    "current_number (ms_id m) db = Some (ms_number m)"
proof -
  from assms obtain r n ns where "lookup mun_id (rg_municipalities db) (ms_id m) = Some r" "current_number (ms_id m) db = Some n"
    "names_in_order m = municipality_of r n ns" by (rule related_municipality)
  moreover from this(3) have "ms_slug m = mun_slug r" "ms_status m = mun_status r" "ms_number m = n"
    by (metis names_in_order_fields(2) municipality_of_def municipality_snapshot.select_convs(7),
        metis names_in_order_fields(4) municipality_of_def municipality_snapshot.select_convs(8),
        metis names_in_order_fields(3) municipality_of_def municipality_snapshot.select_convs(2))
  ultimately show thesis using that by (auto dest: lookup_SomeD)
qed

lemma active_number:
  assumes "sql_ok db" "r \<in> set (rg_municipalities db)" "mun_status r = Municipality_Active"
  obtains n where "n \<in> set (rg_numbers db)" "num_municipality n = mun_id r" "num_valid_until n = None"
    "current_number (mun_id r) db = Some (num_number n)"
proof -
  from assms have "length (open_numbers (mun_id r) db) \<le> 1" "open_numbers (mun_id r) db \<noteq> []"
    by (auto simp: sql_ok_def list_all_iff)
  then obtain n where n: "open_numbers (mun_id r) db = [n]"
    by (cases "open_numbers (mun_id r) db") auto
  then have "n \<in> set (open_numbers (mun_id r) db)" by simp
  with that [OF _ _ _ current_number_open [OF n [unfolded open_numbers_def]]] show thesis
    by (auto simp: open_numbers_def numbers_of_def is_open_def)
qed

lemma related_checked:
  assumes ok: "sql_ok db" and rel: "related db out"
  shows "check_invariants out"
proof -
  have held: "s_slug s \<noteq> None \<longrightarrow> s_verification s \<noteq> Held" if s: "s \<in> set (schools out)" for s
  proof -
    obtain r where r: "r \<in> set (rg_schools db)" "s = load_school db r" by (rule related_school [OF rel s])
    with ok have "school_row_ok r" by (auto simp: sql_ok_def schools_ok_def list_all_iff)
    with r(2) show ?thesis by (auto simp: school_row_ok_def load_school_def split: option.splits)
  qed
  have ids: "distinct (map ms_id (municipalities out))" "distinct (map s_id (schools out))"
    "distinct (map sch_id (rg_schools db))" "distinct (map mun_id (rg_municipalities db))"
    using ok rel by (auto simp: related_def sql_ok_def schools_ok_def municipalities_ok_def)
  have "distinct (slug_keys (schools out))"
    unfolding slug_keys_def distinct_by_lookup [OF ids(2)]
  proof (intro allI impI)
    fix i j x y
    assume a: "i \<noteq> j" "lookup s_id (schools out) i = Some x" "lookup s_id (schools out) j = Some y"
      "map_option (\<lambda>slug. (s_municipality_id x, slug)) (s_slug x) \<noteq> None"
    from rel a(2,3) have "school_at db i = Some x" "school_at db j = Some y" by (simp_all add: related_def)
    then obtain r q where r: "lookup sch_id (rg_schools db) i = Some r" "x = load_school db r"
      "lookup sch_id (rg_schools db) j = Some q" "y = load_school db q" by (auto simp: school_at_def)
    from ok have "distinct (List.map_filter (\<lambda>r. map_option (Pair (sch_municipality r)) (sch_slug r)) (rg_schools db))"
      by (simp add: sql_ok_def schools_ok_def map_filter_simps_fun)
    with a(1,4) r show "map_option (\<lambda>slug. (s_municipality_id x, slug)) (s_slug x) \<noteq> map_option (\<lambda>slug. (s_municipality_id y, slug)) (s_slug y)"
      unfolding distinct_by_lookup [OF ids(3)] by (fastforce simp: load_school_def)
  qed
  moreover have "distinct (map ms_slug (municipalities out))"
    unfolding map_filter_simps_fun(1) [symmetric] distinct_by_lookup [OF ids(1)]
  proof (intro allI impI)
    fix i j x y
    assume a: "i \<noteq> j" "lookup ms_id (municipalities out) i = Some x" "lookup ms_id (municipalities out) j = Some y"
    from a have mem: "x \<in> set (municipalities out)" "y \<in> set (municipalities out)" "ms_id x = i" "ms_id y = j"
      by (auto dest: lookup_SomeD)
    obtain r where "r \<in> set (rg_municipalities db)" "mun_id r = ms_id x" "mun_slug r = ms_slug x"
      by (rule municipality_fields [OF rel mem(1)])
    moreover obtain q where "q \<in> set (rg_municipalities db)" "mun_id q = ms_id y" "mun_slug q = ms_slug y"
      by (rule municipality_fields [OF rel mem(2)])
    moreover from ok have "inj_on mun_slug (set (rg_municipalities db))" by (simp add: sql_ok_def municipalities_ok_def distinct_map)
    ultimately show "Some (ms_slug x) \<noteq> Some (ms_slug y)" using a(1) mem(3,4) by (metis inj_on_eq_iff option.inject)
  qed
  moreover have "distinct (map ms_number (filter (\<lambda>m. ms_status m = Municipality_Active) (municipalities out)))"
    unfolding map_filter_simps_fun(2) [symmetric] distinct_by_lookup [OF ids(1)]
  proof (intro allI impI)
    fix i j x y
    assume a: "i \<noteq> j" "lookup ms_id (municipalities out) i = Some x" "lookup ms_id (municipalities out) j = Some y"
      "(if ms_status x = Municipality_Active then Some (ms_number x) else None) \<noteq> None"
    have number: "\<exists>n. n \<in> set (rg_numbers db) \<and> num_municipality n = k \<and> num_valid_until n = None \<and> num_number n = ms_number z"
      if k: "lookup ms_id (municipalities out) k = Some z" and active: "ms_status z = Municipality_Active" for k z
    proof -
      from lookup_SomeD [OF k] have z: "z \<in> set (municipalities out)" "ms_id z = k" by simp_all
      obtain r where r: "r \<in> set (rg_municipalities db)" "mun_id r = ms_id z" "mun_status r = ms_status z"
        "current_number (ms_id z) db = Some (ms_number z)" by (rule municipality_fields [OF rel z(1)])
      from r(3) active have "mun_status r = Municipality_Active" by simp
      then obtain n where n: "n \<in> set (rg_numbers db)" "num_municipality n = mun_id r" "num_valid_until n = None"
        "current_number (mun_id r) db = Some (num_number n)" by (rule active_number [OF ok r(1)])
      from n(4) r(4) have "num_number n = ms_number z" unfolding r(2) by simp
      with n(1-3) show ?thesis unfolding r(2) z(2) by blast
    qed
    have inj: "inj_on num_number (set (filter (\<lambda>n. num_valid_until n = None) (rg_numbers db)))"
      using ok by (simp add: sql_ok_def numbers_ok_def distinct_map)
    have "ms_number x \<noteq> ms_number y" if y: "ms_status y = Municipality_Active"
    proof -
      from a(4) have "ms_status x = Municipality_Active" by (simp split: if_splits)
      from number [OF a(2) this] obtain n where n: "n \<in> set (rg_numbers db)" "num_municipality n = i" "num_valid_until n = None"
        "num_number n = ms_number x" by blast
      from number [OF a(3) y] obtain n' where n': "n' \<in> set (rg_numbers db)" "num_municipality n' = j" "num_valid_until n' = None"
        "num_number n' = ms_number y" by blast
      from n(2) n'(2) a(1) have "n \<noteq> n'" by auto
      with inj n(1,3) n'(1,3) have "num_number n \<noteq> num_number n'" by (auto dest: inj_onD)
      with n(4) n'(4) show ?thesis by simp
    qed
    with a(4) show "(if ms_status x = Municipality_Active then Some (ms_number x) else None)
      \<noteq> (if ms_status y = Municipality_Active then Some (ms_number y) else None)" by (auto split: if_splits)
  qed
  ultimately show ?thesis using held by (auto simp: check_invariants_def list_all_iff)
qed

section \<open>Municipality operations\<close>

lemma municipality_at_other:
  assumes "lookup mun_id (rg_municipalities db') j = lookup mun_id (rg_municipalities db) j"
    "numbers_of j (rg_numbers db') = numbers_of j (rg_numbers db)"
    "filter (\<lambda>n. mna_municipality n = j) (rg_names db') = filter (\<lambda>n. mna_municipality n = j) (rg_names db)"
  shows "municipality_at db' j = municipality_at db j"
  by (simp add: municipality_at_def assms(1) current_number_rows [OF assms(2)] loaded_names_rows [OF assms(3)])

lemma school_at_tables:
  "rg_schools db' = rg_schools db \<Longrightarrow> rg_tenants db' = rg_tenants db \<Longrightarrow> school_at db' = school_at db"
proof -
  assume "rg_schools db' = rg_schools db" "rg_tenants db' = rg_tenants db"
  moreover then have "load_school db' = load_school db" by (simp add: fun_eq_iff load_school_def has_live_fau_def)
  ultimately show "school_at db' = school_at db" unfolding school_at_def by (simp only:)
qed

text \<open>The constraints look at the municipalities' ids only.\<close>

lemma constraints_ids:
  assumes "mun_id ` set (rg_municipalities db) \<subseteq> mun_id ` set (rg_municipalities db')"
  shows "numbers_ok db rows \<Longrightarrow> numbers_ok db' rows" "names_ok db names \<Longrightarrow> names_ok db' names"
    "schools_ok db ss \<Longrightarrow> schools_ok db' ss"
  using assms by (auto simp: numbers_ok_def names_ok_def schools_ok_def list_all_iff)

lemma sql_ok_municipalities:
  assumes "sql_ok db" "mun_id ` set (rg_municipalities db) \<subseteq> mun_id ` set (rg_municipalities db')"
    "municipalities_ok (rg_municipalities db')" "numbers_ok db' (rg_numbers db')" "names_ok db' (rg_names db')"
    "rg_schools db' = rg_schools db" "rg_tenants db' = rg_tenants db"
    "\<And>r. r \<in> set (rg_municipalities db') \<Longrightarrow>
       length (open_numbers (mun_id r) db') \<le> 1 \<and> (mun_status r = Municipality_Active \<longrightarrow> open_numbers (mun_id r) db' \<noteq> [])"
  shows "sql_ok db'"
  unfolding sql_ok_def assms(6,7) using assms(1,3-5,8) constraints_ids(3) [OF assms(2)]
  by (simp add: sql_ok_def list_all_iff)

text \<open>One operation of the specification, found from the database's.\<close>

lemma municipality_step_related:
  assumes "sql_ok db'" "related db out" "municipality_effect news out op = Some out'"
    "schools out' = schools out" "rg_schools db' = rg_schools db" "rg_tenants db' = rg_tenants db"
    "distinct (map ms_id (municipalities out'))"
    "municipality_at db' = (\<lambda>i. map_option names_in_order (lookup ms_id (municipalities out') i))"
  shows "municipality_step news out op = Some out' \<and> related db' out'"
proof -
  have rel: "related db' out'"
    unfolding related_def assms(4) school_at_tables [OF assms(5,6)] using assms(2,7,8) by (simp add: related_def)
  with related_checked [OF assms(1) this] show ?thesis by (simp add: municipality_step_def checked_def assms(3))
qed

text \<open>A row of the specification changed as the row of the database was.\<close>

lemma related_found:
  assumes "related db out" "all_load db" "r \<in> set (rg_municipalities db)" "mun_id r = i" "sql_ok db"
  obtains m n ns where "lookup ms_id (municipalities out) i = Some m" "lookup mun_id (rg_municipalities db) i = Some r"
    "current_number i db = Some n" "loaded_names i db = Inr ns" "names_in_order m = municipality_of r n ns"
proof -
  from assms(3-5) have r: "lookup mun_id (rg_municipalities db) i = Some r"
    by (simp add: sql_ok_def municipalities_ok_def lookup_Some)
  from assms(2-4) have "municipality_at db i \<noteq> None" by (auto simp: all_load_def list_all_iff)
  with r obtain n ns where n: "current_number i db = Some n" "loaded_names i db = Inr ns"
    by (auto simp: municipality_at_def split: option.splits sum.splits)
  with r have at: "municipality_at db i = Some (municipality_of r n ns)" by (simp add: municipality_at_def)
  with assms(1) have "map_option names_in_order (lookup ms_id (municipalities out) i) = Some (municipality_of r n ns)"
    by (simp add: related_def)
  then obtain m where "lookup ms_id (municipalities out) i = Some m" "names_in_order m = municipality_of r n ns" by auto
  with that r n show thesis by blast
qed

lemma municipality_update_related:
  assumes rel: "related db out" and load: "all_load db" and ok: "sql_ok db" and ok': "sql_ok db'"
    and row: "r \<in> set (rg_municipalities db)" "mun_id r = i"
    and rows: "rg_municipalities db' = map (\<lambda>r. if mun_id r = i then f r else r) (rg_municipalities db)" "\<And>r. mun_id (f r) = mun_id r"
    and frame: "rg_schools db' = rg_schools db" "rg_tenants db' = rg_tenants db"
      "\<forall>j. j \<noteq> i \<longrightarrow> numbers_of j (rg_numbers db') = numbers_of j (rg_numbers db)"
      "\<forall>j. j \<noteq> i \<longrightarrow> filter (\<lambda>n. mna_municipality n = j) (rg_names db') = filter (\<lambda>n. mna_municipality n = j) (rg_names db)"
    and g: "\<And>m. ms_id (g m) = ms_id m"
    and same: "\<And>m n ns. lookup ms_id (municipalities out) i = Some m \<Longrightarrow> names_in_order m = municipality_of r n ns \<Longrightarrow> current_number i db = Some n \<Longrightarrow> loaded_names i db = Inr ns
       \<Longrightarrow> \<exists>n' ns'. current_number i db' = Some n' \<and> loaded_names i db' = Inr ns' \<and> names_in_order (g m) = municipality_of (f r) n' ns'"
    and effect: "\<And>ms. update_first (\<lambda>m. ms_id m = i) g (municipalities out) = Some ms \<Longrightarrow>
       municipality_effect news out op = Some (h (out\<lparr>municipalities := ms\<rparr>))"
      "\<And>out. municipalities (h out) = municipalities out" "\<And>out. schools (h out) = schools out"
  shows "\<exists>out'. municipality_step news out op = Some out' \<and> related db' out' \<and> all_load db'"
proof -
  from row obtain m n ns where m: "lookup ms_id (municipalities out) i = Some m" "lookup mun_id (rg_municipalities db) i = Some r"
    "current_number i db = Some n" "loaded_names i db = Inr ns" "names_in_order m = municipality_of r n ns"
    by (rule related_found [OF rel load _ _ ok])
  then have "lookup ms_id (municipalities out) i \<noteq> None" by simp
  from update_first_lookup [OF g this] obtain ms where ms: "update_first (\<lambda>m. ms_id m = i) g (municipalities out) = Some ms"
    "map ms_id ms = map ms_id (municipalities out)" "lookup ms_id ms = (lookup ms_id (municipalities out))(i \<mapsto> g m)"
    using m(1) by auto
  have rows': "lookup mun_id (rg_municipalities db') = (lookup mun_id (rg_municipalities db))(i \<mapsto> f r)"
    using lookup_update [of mun_id f i "rg_municipalities db"] rows m(2) by simp
  from same [OF m(1,5,3,4)] obtain n' ns' where n': "current_number i db' = Some n'" "loaded_names i db' = Inr ns'"
    "names_in_order (g m) = municipality_of (f r) n' ns'" by blast
  then have at_i: "municipality_at db' i = Some (names_in_order (g m))" by (simp add: municipality_at_def rows')
  have at_j: "municipality_at db' j = municipality_at db j" if "j \<noteq> i" for j
    using municipality_at_other [of db' j db] that rows' frame(3,4) by simp
  have at: "municipality_at db' = (\<lambda>j. map_option names_in_order (lookup ms_id ms j))"
    using at_i at_j rel by (auto simp: fun_eq_iff ms(3) related_def)
  have "municipality_step news out op = Some (h (out\<lparr>municipalities := ms\<rparr>)) \<and> related db' (h (out\<lparr>municipalities := ms\<rparr>))"
    by (rule municipality_step_related [OF ok' rel effect(1) [OF ms(1)]])
      (use rel in \<open>simp_all add: effect(2,3) frame(1,2) ms(2) at related_def\<close>)
  moreover have "all_load db'"
    using load at_i at_j unfolding all_load_def list_all_iff rows(1)
    by (auto simp: rows(2))
  ultimately show ?thesis by blast
qed

definition tables_kept :: "('t, 'd) register_db \<Rightarrow> ('t, 'd) register_db \<Rightarrow> bool" where
  "tables_kept d db \<longleftrightarrow> rg_municipalities d = rg_municipalities db \<and> rg_numbers d = rg_numbers db \<and> rg_names d = rg_names db
     \<and> rg_schools d = rg_schools db \<and> rg_tenants d = rg_tenants db"

lemma slug_history_frame:
  assumes "(if c then move_municipality_slug i slug mt db else Inr db) = Inr d" shows "tables_kept d db"
proof (cases c)
  case True
  with assms obtain hs where "d = db\<lparr>rg_municipality_slugs := hs\<rparr>" by (auto simp: move_municipality_slug_def put_municipality_slugs_def)
  then show ?thesis by (simp add: tables_kept_def)
qed (use assms in \<open>simp add: tables_kept_def\<close>)

lemma update_municipalityE:
  assumes "update_municipality i f db = Inr db'"
  obtains r where "r \<in> set (rg_municipalities db)" "mun_id r = i"
    "db' = db\<lparr>rg_municipalities := map (\<lambda>r. if mun_id r = i then f r else r) (rg_municipalities db)\<rparr>"
    "municipalities_ok (rg_municipalities db')"
proof -
  from assms have *: "length (filter (\<lambda>r. mun_id r = i) (rg_municipalities db)) = 1"
    "db' = db\<lparr>rg_municipalities := map (\<lambda>r. if mun_id r = i then f r else r) (rg_municipalities db)\<rparr>"
    "municipalities_ok (rg_municipalities db')"
    by (auto simp: update_municipality_def put_municipalities_def)
  from *(1) obtain r where r: "filter (\<lambda>r. mun_id r = i) (rg_municipalities db) = [r]"
    by (metis One_nat_def length_0_conv length_Suc_conv)
  have "r \<in> set (filter (\<lambda>r. mun_id r = i) (rg_municipalities db))" unfolding r by simp
  then have "r \<in> set (rg_municipalities db)" "mun_id r = i" by simp_all
  then show thesis using *(2,3) by (rule that)
qed

text \<open>The parts of the invariant an update of one row keeps.\<close>

lemma open_numbers_tables: "rg_numbers db' = rg_numbers db \<Longrightarrow> open_numbers i db' = open_numbers i db"
  by (simp add: open_numbers_def)

lemma sql_ok_update:
  assumes "sql_ok db" "rg_municipalities db' = map (\<lambda>r. if mun_id r = i then f r else r) (rg_municipalities db)"
    "\<And>r. mun_id (f r) = mun_id r \<and> mun_status (f r) = mun_status r" "municipalities_ok (rg_municipalities db')"
    "rg_schools db' = rg_schools db" "rg_tenants db' = rg_tenants db"
    "numbers_ok db' (rg_numbers db')" "names_ok db' (rg_names db')"
    "\<And>r. r \<in> set (rg_municipalities db) \<Longrightarrow>
       length (open_numbers (mun_id r) db') \<le> 1 \<and> (mun_status r = Municipality_Active \<longrightarrow> open_numbers (mun_id r) db' \<noteq> [])"
  shows "sql_ok db'"
proof (rule sql_ok_municipalities [OF assms(1) _ assms(4,7,8,5,6)])
  have "mun_id ` set (rg_municipalities db') = mun_id ` set (rg_municipalities db)"
    unfolding assms(2) by (rule set_update_id) (simp add: assms(3))
  then show "mun_id ` set (rg_municipalities db) \<subseteq> mun_id ` set (rg_municipalities db')" by simp
  show "length (open_numbers (mun_id r) db') \<le> 1 \<and> (mun_status r = Municipality_Active \<longrightarrow> open_numbers (mun_id r) db' \<noteq> [])"
    if "r \<in> set (rg_municipalities db')" for r
    using that assms(3,9) by (auto simp: assms(2))
qed

text \<open>Renaming, where the specification's slug is the plan's.\<close>

definition rename_fits :: "register \<Rightarrow> (uuid, 'd) municipality_op \<Rightarrow> bool" where
  "rename_fits out op \<longleftrightarrow>
     (case op of
        Municipality_Rename i name old_slug new_slug \<Rightarrow>
          old_slug = new_slug \<longrightarrow> (\<forall>m\<in>set (municipalities out). ms_id m = i \<longrightarrow> ms_slug m = new_slug)
      | _ \<Rightarrow> True)"

lemma rename_related:
  assumes rel: "related db out" and load: "all_load db" and ok: "sql_ok db" and fits: "rename_fits out (Municipality_Rename i name old_slug new_slug)"
    and step: "apply_municipality_op E ids mt (Municipality_Rename i name old_slug new_slug) db = Inr (j, db')"
  shows "\<exists>out'. municipality_step news out (Municipality_Rename i name old_slug new_slug) = Some out' \<and> related db' out'
    \<and> all_load db' \<and> sql_ok db'"
proof -
  let ?f = "\<lambda>r. r\<lparr>mun_name := name, mun_slug := new_slug, mun_updated_at := m_now mt\<rparr>"
  from step obtain d where d: "update_municipality i ?f d = Inr db'"
    "(if old_slug \<noteq> new_slug then move_municipality_slug i old_slug mt db else Inr db) = Inr d"
    unfolding apply_municipality_op.simps by (elim and_then_InrE) simp
  from d(1) obtain r where r: "r \<in> set (rg_municipalities d)" "mun_id r = i"
    "db' = d\<lparr>rg_municipalities := map (\<lambda>r. if mun_id r = i then ?f r else r) (rg_municipalities d)\<rparr>"
    "municipalities_ok (rg_municipalities db')" by (rule update_municipalityE)
  note tables = slug_history_frame [OF d(2), unfolded tables_kept_def]
  have db': "rg_municipalities db' = map (\<lambda>r. if mun_id r = i then ?f r else r) (rg_municipalities db)"
    "rg_schools db' = rg_schools db" "rg_tenants db' = rg_tenants db" "rg_numbers db' = rg_numbers db" "rg_names db' = rg_names db"
    by (simp_all add: r(3) tables)
  have row: "r \<in> set (rg_municipalities db)" using r(1) tables by simp
  have ids: "mun_id ` set (rg_municipalities db) \<subseteq> mun_id ` set (rg_municipalities db')"
    unfolding db'(1) by (subst set_update_id) simp_all
  have nums: "numbers_ok db' (rg_numbers db')" "names_ok db' (rg_names db')"
    using ok constraints_ids(1,2) [OF ids] by (simp_all add: sql_ok_def db'(4,5))
  have ok': "sql_ok db'"
    by (rule sql_ok_update [OF ok db'(1) _ r(4) db'(2,3) nums])
      (use ok in \<open>simp_all add: sql_ok_def open_numbers_tables [OF db'(4)] list_all_iff\<close>)
  have other: "current_number i db' = current_number i db" "loaded_names i db' = loaded_names i db"
    using current_number_rows [of i db' db] loaded_names_rows [of i db' db] by (simp_all add: db'(4,5))
  let ?op = "Municipality_Rename i name old_slug new_slug"
  have "\<exists>out'. municipality_step news out ?op = Some out' \<and> related db' out' \<and> all_load db'"
  proof (cases "old_slug = new_slug")
    case True
    have slug: "ms_slug m = new_slug" if "lookup ms_id (municipalities out) i = Some m" for m
      using fits True lookup_SomeD [OF that] by (simp add: rename_fits_def)
    show ?thesis
    proof (rule municipality_update_related [OF rel load ok ok' row r(2) db'(1) _ db'(2,3), where h = "\<lambda>out. out"
          and g = "\<lambda>m. m\<lparr>ms_name := name\<rparr>"])
      fix ms
      assume "update_first (\<lambda>m. ms_id m = i) (\<lambda>m. m\<lparr>ms_name := name\<rparr>) (municipalities out) = Some ms"
      with True show "municipality_effect news out ?op = Some (out\<lparr>municipalities := ms\<rparr>)"
        by (simp add: municipality_mut_def)
    next
      fix m n ns
      assume "lookup ms_id (municipalities out) i = Some m" "names_in_order m = municipality_of r n ns"
        "current_number i db = Some n" "loaded_names i db = Inr ns"
      then show "\<exists>n' ns'. current_number i db' = Some n' \<and> loaded_names i db' = Inr ns'
        \<and> names_in_order (m\<lparr>ms_name := name\<rparr>) = municipality_of (?f r) n' ns'"
        using slug [of m] by (cases m) (auto simp: other names_in_order_def municipality_of_def)
    qed (simp_all add: db'(4,5))
  next
    case False
    show ?thesis
    proof (rule municipality_update_related [OF rel load ok ok' row r(2) db'(1) _ db'(2,3), where h = "push_municipality_slug old_slug i"
          and g = "\<lambda>m. m\<lparr>ms_name := name, ms_slug := new_slug\<rparr>"])
      fix ms
      assume "update_first (\<lambda>m. ms_id m = i) (\<lambda>m. m\<lparr>ms_name := name, ms_slug := new_slug\<rparr>) (municipalities out) = Some ms"
      with False show "municipality_effect news out ?op = Some (push_municipality_slug old_slug i (out\<lparr>municipalities := ms\<rparr>))"
        by (simp add: municipality_mut_def)
    next
      fix m n ns
      assume "lookup ms_id (municipalities out) i = Some m" "names_in_order m = municipality_of r n ns"
        "current_number i db = Some n" "loaded_names i db = Inr ns"
      then show "\<exists>n' ns'. current_number i db' = Some n' \<and> loaded_names i db' = Inr ns'
        \<and> names_in_order (m\<lparr>ms_name := name, ms_slug := new_slug\<rparr>) = municipality_of (?f r) n' ns'"
        by (cases m) (auto simp: other names_in_order_def municipality_of_def)
    qed (simp_all add: db'(4,5) push_municipality_slug_def)
  qed
  with ok' show ?thesis by blast
qed

lemma renumberE:
  assumes "renumber E i from to valid_from d = Inr db'" "length (open_numbers i d) \<le> 1"
  obtains n where "open_numbers i d = [n]" "open_numbers i db' = [n\<lparr>num_number := to, num_valid_from := max valid_from (re_next_day E (num_valid_from n))\<rparr>]"
    "\<forall>j. j \<noteq> i \<longrightarrow> numbers_of j (rg_numbers db') = numbers_of j (rg_numbers d)" "numbers_ok d (rg_numbers db')"
    "db' = d\<lparr>rg_numbers := rg_numbers db'\<rparr>"
proof -
  let ?until = "\<lambda>n. max valid_from (re_next_day E (num_valid_from n))"
  let ?closing = "filter (open_number i from) (rg_numbers d)"
  let ?close = "\<lambda>n. if open_number i from n then n\<lparr>num_valid_until := Some (?until n)\<rparr> else n"
  let ?new = "\<lambda>n. \<lparr>num_municipality = i, num_number = to, num_valid_from = ?until n, num_valid_until = None\<rparr>"
  from assms(1) have r: "length ?closing = 1" "db' = d\<lparr>rg_numbers := map ?close (rg_numbers d) @ map ?new ?closing\<rparr>"
    "numbers_ok d (map ?close (rg_numbers d) @ map ?new ?closing)"
    by (auto simp: renumber_def Let_def put_numbers_def)
  from r(1) obtain n where n: "?closing = [n]" by (metis One_nat_def length_0_conv length_Suc_conv)
  have "?closing = filter (\<lambda>n. num_number n = from) (open_numbers i d)"
    by (simp add: open_numbers_def numbers_of_def is_open_def open_number_def conj_commute conj_left_commute cong: filter_cong)
  with n assms(2) have opened: "open_numbers i d = [n]" "num_number n = from"
    by (auto simp: le_Suc_eq length_Suc_conv split: if_splits)
  then have "n \<in> set (open_numbers i d)" by simp
  then have fields: "num_municipality n = i" "num_valid_until n = None" by (auto simp: open_numbers_def numbers_of_def is_open_def)
  have gone: "filter is_open (numbers_of i (map ?close rows)) = []"
    if "\<forall>m\<in>set rows. num_municipality m = i \<and> num_valid_until m = None \<longrightarrow> num_number m = from" for rows
    using that by (induction rows) (auto simp: numbers_of_def is_open_def open_number_def)
  have "\<forall>m\<in>set (rg_numbers d). num_municipality m = i \<and> num_valid_until m = None \<longrightarrow> num_number m = from"
  proof (intro ballI impI)
    fix m
    assume "m \<in> set (rg_numbers d)" "num_municipality m = i \<and> num_valid_until m = None"
    then have "m \<in> set (open_numbers i d)" by (simp add: open_numbers_def numbers_of_def is_open_def)
    with opened show "num_number m = from" by simp
  qed
  from gone [OF this] have new: "open_numbers i db' = [?new n]"
    by (simp add: open_numbers_def numbers_of_def r(2) n is_open_def del: filter_map)
  have others: "numbers_of j (map ?close rows) = numbers_of j rows" if "j \<noteq> i" for j rows
    using that by (induction rows) (auto simp: numbers_of_def open_number_def)
  have "numbers_of j (rg_numbers db') = numbers_of j (rg_numbers d)" if "j \<noteq> i" for j
    using others [OF that] that by (simp add: r(2) n numbers_of_def del: filter_map)
  moreover have "?new n = n\<lparr>num_number := to, num_valid_from := ?until n\<rparr>" using fields by simp
  moreover have "db' = d\<lparr>rg_numbers := rg_numbers db'\<rparr>" "numbers_ok d (rg_numbers db')" using r(2,3) by simp_all
  ultimately show thesis using that opened(1) new by simp
qed

lemma sql_ok_open: "sql_ok db \<Longrightarrow> r \<in> set (rg_municipalities db) \<Longrightarrow> length (open_numbers (mun_id r) db) \<le> 1
    \<and> (mun_status r = Municipality_Active \<longrightarrow> open_numbers (mun_id r) db \<noteq> [])"
  by (simp add: sql_ok_def list_all_iff)

lemma renumber_related:
  assumes rel: "related db out" and load: "all_load db" and ok: "sql_ok db"
    and step: "apply_municipality_op E ids mt (Renumber i from to valid_from name old_slug new_slug) db = Inr (j, db')"
  shows "\<exists>out'. municipality_step news out (Renumber i from to valid_from name old_slug new_slug) = Some out' \<and> related db' out'
    \<and> all_load db' \<and> sql_ok db'"
proof -
  let ?f = "\<lambda>r. r\<lparr>mun_slug := new_slug, mun_name := unwrap_or name (mun_name r), mun_updated_at := m_now mt\<rparr>"
  let ?op = "Renumber i from to valid_from name old_slug new_slug"
  let ?g = "\<lambda>m. m\<lparr>ms_number := to, ms_name := unwrap_or name (ms_name m), ms_slug := new_slug\<rparr>"
  from step obtain d0 d where d: "move_municipality_slug i old_slug mt db = Inr d0" "update_municipality i ?f d0 = Inr d"
    "renumber E i from to valid_from d = Inr db'"
    unfolding apply_municipality_op.simps by (elim and_then_InrE) simp
  from d(1) have "(if True then move_municipality_slug i old_slug mt db else Inr db) = Inr d0" by simp
  note tables = slug_history_frame [OF this, unfolded tables_kept_def]
  from d(2) obtain r where r: "r \<in> set (rg_municipalities d0)" "mun_id r = i"
    "d = d0\<lparr>rg_municipalities := map (\<lambda>r. if mun_id r = i then ?f r else r) (rg_municipalities d0)\<rparr>"
    "municipalities_ok (rg_municipalities d)" by (rule update_municipalityE)
  have row: "r \<in> set (rg_municipalities db)" using r(1) tables by simp
  have opens: "open_numbers k d = open_numbers k db" for k by (simp add: open_numbers_def r(3) tables)
  from sql_ok_open [OF ok row] r(2) opens have "length (open_numbers i d) \<le> 1" by simp
  from renumberE [OF d(3) this] obtain n where n: "open_numbers i d = [n]"
    "open_numbers i db' = [n\<lparr>num_number := to, num_valid_from := max valid_from (re_next_day E (num_valid_from n))\<rparr>]"
    "\<forall>j. j \<noteq> i \<longrightarrow> numbers_of j (rg_numbers db') = numbers_of j (rg_numbers d)" "numbers_ok d (rg_numbers db')"
    "db' = d\<lparr>rg_numbers := rg_numbers db'\<rparr>" by blast
  have fields: "rg_municipalities db' = rg_municipalities d" "rg_schools db' = rg_schools d" "rg_tenants db' = rg_tenants d"
    "rg_names db' = rg_names d" by (subst n(5), simp)+
  have db': "rg_municipalities db' = map (\<lambda>r. if mun_id r = i then ?f r else r) (rg_municipalities db)"
    "rg_schools db' = rg_schools db" "rg_tenants db' = rg_tenants db" "rg_names db' = rg_names db"
    by (simp_all add: fields r(3) tables)
  have numbers: "numbers_of j (rg_numbers db') = numbers_of j (rg_numbers db)" if "j \<noteq> i" for j
    using n(3) that by (simp add: r(3) tables)
  have new: "current_number i db' = Some to" using current_number_open [OF n(2) [unfolded open_numbers_def]] by simp
  have names: "loaded_names i db' = loaded_names i db" using loaded_names_rows [of i db' db] by (simp add: db'(4))
  have mids: "mun_id ` set (rg_municipalities db) \<subseteq> mun_id ` set (rg_municipalities db')"
    "mun_id ` set (rg_municipalities d) \<subseteq> mun_id ` set (rg_municipalities db')"
    unfolding db'(1) by (subst set_update_id; simp) (simp add: fields flip: db'(1))
  have nums: "numbers_ok db' (rg_numbers db')" "names_ok db' (rg_names db')"
    using ok n(4) constraints_ids(1) [OF mids(2)] constraints_ids(2) [OF mids(1)] by (simp_all add: sql_ok_def db'(4))
  have ok': "sql_ok db'"
  proof (rule sql_ok_update [OF ok db'(1) _ _ db'(2,3) nums])
    show "municipalities_ok (rg_municipalities db')" using r(4) by (simp add: fields)
    fix q assume q: "q \<in> set (rg_municipalities db)"
    show "length (open_numbers (mun_id q) db') \<le> 1 \<and> (mun_status q = Municipality_Active \<longrightarrow> open_numbers (mun_id q) db' \<noteq> [])"
    proof (cases "mun_id q = i")
      case True
      with n(2) show ?thesis by simp
    next
      case False
      with numbers sql_ok_open [OF ok q] show ?thesis by (simp add: open_numbers_def)
    qed
  qed simp
  have "\<exists>out'. municipality_step news out ?op = Some out' \<and> related db' out' \<and> all_load db'"
  proof (rule municipality_update_related [OF rel load ok ok' row r(2) db'(1) _ db'(2,3), where h = "push_municipality_slug old_slug i" and g = ?g])
    fix ms
    assume "update_first (\<lambda>m. ms_id m = i) ?g (municipalities out) = Some ms"
    then show "municipality_effect news out ?op = Some (push_municipality_slug old_slug i (out\<lparr>municipalities := ms\<rparr>))"
      by (simp add: municipality_mut_def)
  next
    fix m n ns
    assume "names_in_order m = municipality_of r n ns" "loaded_names i db = Inr ns"
    then show "\<exists>n' ns'. current_number i db' = Some n' \<and> loaded_names i db' = Inr ns'
      \<and> names_in_order (?g m) = municipality_of (?f r) n' ns'"
      by (cases m) (auto simp: new names names_in_order_def municipality_of_def)
  qed (simp_all add: db'(4) numbers push_municipality_slug_def)
  with ok' show ?thesis by blast
qed

definition names_fit :: "(uuid, 'd) municipality_op \<Rightarrow> bool" where
  "names_fit op \<longleftrightarrow> list_all (\<lambda>n. on_priority n < 256)
     (case op of Municipality_Create _ _ _ _ _ _ _ names _ \<Rightarrow> names | Update_Details _ _ _ _ names \<Rightarrow> names | _ \<Rightarrow> [])"

lemma details_related:
  assumes rel: "related db out" and load: "all_load db" and ok: "sql_ok db"
    and fits: "names_fit (Update_Details i official_name county_number county_name names)"
    and step: "apply_municipality_op E ids mt (Update_Details i official_name county_number county_name names) db = Inr (j, db')"
  shows "\<exists>out'. municipality_step news out (Update_Details i official_name county_number county_name names) = Some out' \<and> related db' out'
    \<and> all_load db' \<and> sql_ok db'"
proof -
  let ?f = "\<lambda>r. r\<lparr>mun_official_name := official_name, mun_county_number := county_number, mun_county_name := county_name,
    mun_updated_at := m_now mt\<rparr>"
  let ?op = "Update_Details i official_name county_number county_name names"
  let ?g = "\<lambda>m. m\<lparr>ms_official_name := official_name, ms_county_number := county_number, ms_county_name := county_name, ms_names := names\<rparr>"
  from step obtain d where d: "update_municipality i ?f db = Inr d"
    "and_then (put_names (filter (\<lambda>n. mna_municipality n \<noteq> i) (rg_names d)) d) (insert_names i names) = Inr db'"
    unfolding apply_municipality_op.simps by (elim and_then_InrE) simp
  from d(1) obtain r where r: "r \<in> set (rg_municipalities db)" "mun_id r = i"
    "d = db\<lparr>rg_municipalities := map (\<lambda>r. if mun_id r = i then ?f r else r) (rg_municipalities db)\<rparr>"
    "municipalities_ok (rg_municipalities d)" by (rule update_municipalityE)
  let ?d = "d\<lparr>rg_names := filter (\<lambda>n. mna_municipality n \<noteq> i) (rg_names d)\<rparr>"
  from d(2) have d': "insert_names i names ?d = Inr db'" "names_ok d (rg_names ?d)" by (auto simp: put_names_def)
  from insert_names_rows [OF d'(1)] have e: "db' = ?d\<lparr>rg_names := rg_names ?d @ map (name_row i) names\<rparr>"
    and nok: "names_ok ?d (rg_names ?d) \<longrightarrow> names_ok ?d (rg_names db')" by blast+
  have nok': "names_ok d (rg_names db')" using nok d'(2) by (simp add: names_ok_def)
  have db': "rg_municipalities db' = map (\<lambda>r. if mun_id r = i then ?f r else r) (rg_municipalities db)"
    "rg_schools db' = rg_schools db" "rg_tenants db' = rg_tenants db" "rg_numbers db' = rg_numbers db"
    "rg_names db' = filter (\<lambda>n. mna_municipality n \<noteq> i) (rg_names db) @ map (name_row i) names"
    "rg_municipalities db' = rg_municipalities d"
    by (simp_all add: e r(3))
  have others: "filter (\<lambda>n. mna_municipality n = k) (rg_names db') = filter (\<lambda>n. mna_municipality n = k) (rg_names db)" if "k \<noteq> i" for k
    using that by (auto simp: db'(5) name_row_def intro!: filter_cong)
  have "filter (\<lambda>n. mna_municipality n = i) (rg_names db') = map (name_row i) names"
    by (auto simp: db'(5) name_row_def filter_empty_conv filter_id_conv)
  from loaded_names_written [OF this] fits have new: "loaded_names i db' = Inr (by_priority names)" by (simp add: names_fit_def)
  have number: "current_number i db' = current_number i db" using current_number_rows [of i db' db] by (simp add: db'(4))
  have mids: "mun_id ` set (rg_municipalities db) \<subseteq> mun_id ` set (rg_municipalities db')"
    unfolding db'(1) by (subst set_update_id) simp_all
  have nums: "numbers_ok db' (rg_numbers db')" "names_ok db' (rg_names db')"
    using ok constraints_ids(1) [OF mids] nok' by (simp_all add: sql_ok_def db'(4,6) names_ok_def)
  have ok': "sql_ok db'"
    by (rule sql_ok_update [OF ok db'(1) _ _ db'(2,3) nums])
      (use r(4) ok in \<open>simp_all add: db'(6) sql_ok_def open_numbers_tables [OF db'(4)] list_all_iff\<close>)
  have "\<exists>out'. municipality_step news out ?op = Some out' \<and> related db' out' \<and> all_load db'"
  proof (rule municipality_update_related [OF rel load ok ok' r(1,2) db'(1) _ db'(2,3), where h = "\<lambda>out. out" and g = ?g])
    fix ms
    assume "update_first (\<lambda>m. ms_id m = i) ?g (municipalities out) = Some ms"
    then show "municipality_effect news out ?op = Some (out\<lparr>municipalities := ms\<rparr>)" by (simp add: municipality_mut_def)
  next
    fix m n ns
    assume "names_in_order m = municipality_of r n ns" "current_number i db = Some n"
    then show "\<exists>n' ns'. current_number i db' = Some n' \<and> loaded_names i db' = Inr ns'
      \<and> names_in_order (?g m) = municipality_of (?f r) n' ns'"
      by (cases m) (auto simp: new number names_in_order_def municipality_of_def)
  qed (simp_all add: db'(4) others)
  with ok' show ?thesis by blast
qed

lemma create_related:
  fixes db db' :: "('t::linorder, 'd::linorder) register_db"
  assumes rel: "related db out" and load: "all_load db" and ok: "sql_ok db"
    and fits: "names_fit (Municipality_Create k number name official_name county_number county_name slug names source)"
    and step: "apply_municipality_op E ids mt (Municipality_Create k number name official_name county_number county_name slug names source) db = Inr (j, db')"
  shows "\<exists>out'. municipality_step (ni_municipalities ids) out
      (Municipality_Create k number name official_name county_number county_name slug names source) = Some out'
    \<and> related db' out' \<and> all_load db' \<and> sql_ok db'"
proof -
  let ?op = "Municipality_Create k number name official_name county_number county_name slug names source"
  let ?row = "\<lambda>i. \<lparr>mun_id = i, mun_name = name, mun_official_name = official_name, mun_county_number = county_number,
           mun_county_name = county_name, mun_slug = slug, mun_status = Municipality_Active, mun_dissolved_on = (None :: 'd option),
           mun_source = source, mun_search_text = [], mun_created_at = m_now mt, mun_updated_at = m_now mt\<rparr>"
  let ?num = "\<lambda>i. \<lparr>num_municipality = i, num_number = number, num_valid_from = m_today mt, num_valid_until = None\<rparr>"
  from step obtain i where i: "ni_municipalities ids k = Some i"
    "municipalities_ok (rg_municipalities db @ [?row i])"
    "numbers_ok (db\<lparr>rg_municipalities := rg_municipalities db @ [?row i]\<rparr>) (rg_numbers db @ [?num i])"
    "insert_names i names (db\<lparr>rg_municipalities := rg_municipalities db @ [?row i], rg_numbers := rg_numbers db @ [?num i]\<rparr>) = Inr db'"
    by (auto simp: resolve_ref_def put_municipalities_def put_numbers_def)
  let ?d = "db\<lparr>rg_municipalities := rg_municipalities db @ [?row i], rg_numbers := rg_numbers db @ [?num i]\<rparr>"
  from insert_names_rows [OF i(4)] have e: "db' = ?d\<lparr>rg_names := rg_names ?d @ map (name_row i) names\<rparr>"
    and nok: "names_ok ?d (rg_names ?d) \<longrightarrow> names_ok ?d (rg_names db')" by blast+
  have db': "rg_municipalities db' = rg_municipalities db @ [?row i]" "rg_numbers db' = rg_numbers db @ [?num i]"
    "rg_names db' = rg_names db @ map (name_row i) names" "rg_schools db' = rg_schools db" "rg_tenants db' = rg_tenants db"
    by (simp_all add: e)
  have fresh: "i \<notin> mun_id ` set (rg_municipalities db)" using i(2) by (auto simp: municipalities_ok_def)
  with ok have none: "numbers_of i (rg_numbers db) = []" "filter (\<lambda>n. mna_municipality n = i) (rg_names db) = []"
    by (auto simp: sql_ok_def numbers_ok_def names_ok_def numbers_of_def list_all_iff filter_empty_conv)
  have opens: "open_numbers i db' = [?num i]" using none(1) by (simp add: open_numbers_def numbers_of_def db'(2) is_open_def)
  have number: "current_number i db' = Some number" using current_number_open [OF opens [unfolded open_numbers_def]] by simp
  have "filter (\<lambda>n. mna_municipality n = i) (rg_names db') = map (name_row i) names"
    using none(2) by (auto simp: db'(3) name_row_def filter_id_conv)
  from loaded_names_written [OF this] fits have names: "loaded_names i db' = Inr (by_priority names)" by (simp add: names_fit_def)
  have other_numbers: "numbers_of j (rg_numbers db') = numbers_of j (rg_numbers db)" if "j \<noteq> i" for j
    using that by (simp add: numbers_of_def db'(2))
  have at_j: "municipality_at db' j = municipality_at db j" if "j \<noteq> i" for j
  proof (rule municipality_at_other)
    show "lookup mun_id (rg_municipalities db') j = lookup mun_id (rg_municipalities db) j"
      using that by (simp add: db'(1) split: option.splits)
    show "filter (\<lambda>n. mna_municipality n = j) (rg_names db') = filter (\<lambda>n. mna_municipality n = j) (rg_names db)"
      using that by (auto simp: db'(3) name_row_def filter_empty_conv)
  qed (use other_numbers that in simp)
  have "lookup mun_id (rg_municipalities db) i = None" using fresh by (simp add: lookup_None)
  then have at_i: "municipality_at db' i = Some (municipality_of (?row i) number (by_priority names))"
    by (simp add: municipality_at_def number names db'(1))
  have mids: "mun_id ` set (rg_municipalities db) \<subseteq> mun_id ` set (rg_municipalities db')" by (auto simp: db'(1))
  have nums: "numbers_ok db' (rg_numbers db')" "names_ok db' (rg_names db')"
  proof -
    show "numbers_ok db' (rg_numbers db')" using i(3) by (simp add: numbers_ok_def db'(1,2))
    have "names_ok ?d (rg_names ?d)" using ok by (auto simp: sql_ok_def names_ok_def list_all_iff)
    with nok show "names_ok db' (rg_names db')" by (simp add: names_ok_def db'(1))
  qed
  have ok': "sql_ok db'"
  proof (rule sql_ok_municipalities [OF ok mids _ nums db'(4,5)])
    show "municipalities_ok (rg_municipalities db')" using i(2) by (simp add: db'(1))
    fix q assume q: "q \<in> set (rg_municipalities db')"
    show "length (open_numbers (mun_id q) db') \<le> 1 \<and> (mun_status q = Municipality_Active \<longrightarrow> open_numbers (mun_id q) db' \<noteq> [])"
    proof (cases "mun_id q = i")
      case True
      with opens show ?thesis by simp
    next
      case False
      with q have "q \<in> set (rg_municipalities db)" by (auto simp: db'(1))
      with sql_ok_open [OF ok this] other_numbers False show ?thesis by (simp add: open_numbers_def)
    qed
  qed
  let ?m = "\<lparr>ms_id = i, ms_number = number, ms_name = name, ms_official_name = official_name,
           ms_county_number = county_number, ms_county_name = county_name, ms_slug = slug,
           ms_status = Municipality_Active, ms_source = source, ms_names = names\<rparr>"
  let ?out = "out\<lparr>municipalities := municipalities out @ [?m]\<rparr>"
  have absent: "lookup ms_id (municipalities out) i = None"
  proof -
    have "municipality_at db i = None" using fresh by (auto simp: municipality_at_def lookup_None [symmetric])
    with rel show ?thesis by (simp add: related_def)
  qed
  have "municipality_step (ni_municipalities ids) out ?op = Some ?out \<and> related db' ?out"
  proof (rule municipality_step_related [OF ok' rel _ _ db'(4,5)])
    show "distinct (map ms_id (municipalities ?out))" using rel absent by (auto simp: related_def lookup_None)
    show "municipality_at db' = (\<lambda>j. map_option names_in_order (lookup ms_id (municipalities ?out) j))"
    proof
      fix j
      show "municipality_at db' j = map_option names_in_order (lookup ms_id (municipalities ?out) j)"
      proof (cases "j = i")
        case True
        with absent at_i show ?thesis by (simp add: names_in_order_def municipality_of_def)
      next
        case False
        with at_j rel show ?thesis by (simp add: related_def split: option.splits)
      qed
    qed
  qed (simp_all add: i(1))
  moreover have "all_load db'"
    using load at_i at_j fresh by (auto simp: all_load_def list_all_iff db'(1)) (metis image_eqI option.distinct(1))
  ultimately show ?thesis using ok' by blast
qed

section \<open>The municipality operations of a plan\<close>

text \<open>Every rename that keeps its slug names the slug the municipality has by then.\<close>

fun renames_fit :: "(nat \<rightharpoonup> nat) \<Rightarrow> register \<Rightarrow> (uuid, 'd) municipality_op list \<Rightarrow> bool" where
  "renames_fit news out [] \<longleftrightarrow> True"
| "renames_fit news out (op # ops) \<longleftrightarrow> rename_fits out op
     \<and> (case municipality_step news out op of Some out' \<Rightarrow> renames_fit news out' ops | None \<Rightarrow> True)"

lemma municipality_op_related:
  assumes "related db out" "all_load db" "sql_ok db" "rename_fits out op" "names_fit op"
    "apply_municipality_op E ids mt op db = Inr (i, db')"
  shows "\<exists>out'. municipality_step (ni_municipalities ids) out op = Some out' \<and> related db' out' \<and> all_load db' \<and> sql_ok db'"
  using assms create_related renumber_related rename_related details_related by (cases op) fast+

lemma municipality_ops_related:
  assumes "related db out" "all_load db" "sql_ok db" "renames_fit (ni_municipalities ids) out ops" "list_all names_fit ops"
    "municipality_ops E ids mt ops db = Inr (touched, db')"
  shows "\<exists>out'. foldM (municipality_step (ni_municipalities ids)) out ops = Some out' \<and> related db' out' \<and> all_load db' \<and> sql_ok db'"
  using assms
proof (induction ops arbitrary: db out touched)
  case (Cons op ops)
  from Cons.prems(6) obtain i d t where d: "apply_municipality_op E ids mt op db = Inr (i, d)"
    "municipality_ops E ids mt ops d = Inr (t, db')" by auto
  from municipality_op_related [OF Cons.prems(1-3) _ _ d(1)] Cons.prems(4,5) obtain out' where
    out': "municipality_step (ni_municipalities ids) out op = Some out'" "related d out'" "all_load d" "sql_ok d" by auto
  with Cons.prems(4,5) Cons.IH [OF out'(2-4) _ _ d(2)] show ?case by simp
qed simp

end
