(* ===== verification/School_Refinement.thy ===== *)
theory School_Refinement
  imports Register_Refinement
begin

text \<open>
  The refinement of the schools' operations, of the statements that change nothing the planner reads, and of
  a whole plan.
\<close>

section \<open>School operations\<close>

definition municipalities_kept :: "('t, 'd) register_db \<Rightarrow> ('t, 'd) register_db \<Rightarrow> bool" where
  "municipalities_kept d db \<longleftrightarrow> rg_municipalities d = rg_municipalities db \<and> rg_numbers d = rg_numbers db \<and> rg_names d = rg_names db
     \<and> rg_tenants d = rg_tenants db"

lemma municipality_at_tables:
  assumes "municipalities_kept db' db" shows "municipality_at db' = municipality_at db"
proof
  fix j
  show "municipality_at db' j = municipality_at db j"
    by (rule municipality_at_other) (use assms in \<open>simp_all add: municipalities_kept_def\<close>)
qed

lemma all_load_tables:
  assumes "municipalities_kept db' db" "all_load db" shows "all_load db'"
  using assms(2) unfolding all_load_def municipality_at_tables [OF assms(1)] using assms(1) by (simp add: municipalities_kept_def)

lemma sql_ok_schools:
  assumes "sql_ok db" "municipalities_kept db' db" "schools_ok db (rg_schools db')"
    "sch_id ` set (rg_schools db) \<subseteq> sch_id ` set (rg_schools db')"
  shows "sql_ok db'"
proof -
  from assms(2) have k: "rg_municipalities db' = rg_municipalities db" "rg_numbers db' = rg_numbers db"
    "rg_names db' = rg_names db" "rg_tenants db' = rg_tenants db" by (simp_all add: municipalities_kept_def)
  have "numbers_ok db' = numbers_ok db" "names_ok db' = names_ok db" "schools_ok db' = schools_ok db"
    by (simp_all add: fun_eq_iff numbers_ok_def names_ok_def schools_ok_def k)
  with assms show ?thesis
    unfolding sql_ok_def k open_numbers_tables [OF k(2)] by (auto simp: list_all_iff split: option.splits)
qed

lemma update_schoolE:
  assumes "update_school i f db = Inr db'"
  obtains r where "r \<in> set (rg_schools db)" "sch_id r = i"
    "db' = db\<lparr>rg_schools := map (\<lambda>r. if sch_id r = i then f r else r) (rg_schools db)\<rparr>" "schools_ok db (rg_schools db')"
proof -
  from assms have *: "length (filter (\<lambda>r. sch_id r = i) (rg_schools db)) = 1"
    "db' = db\<lparr>rg_schools := map (\<lambda>r. if sch_id r = i then f r else r) (rg_schools db)\<rparr>" "schools_ok db (rg_schools db')"
    by (auto simp: update_school_def put_schools_def)
  from *(1) obtain r where r: "filter (\<lambda>r. sch_id r = i) (rg_schools db) = [r]"
    by (metis One_nat_def length_0_conv length_Suc_conv)
  have "r \<in> set (filter (\<lambda>r. sch_id r = i) (rg_schools db))" unfolding r by simp
  then have "r \<in> set (rg_schools db)" "sch_id r = i" by simp_all
  then show thesis using *(2,3) by (rule that)
qed

lemma has_live_fau_tenants: "rg_tenants db' = rg_tenants db \<Longrightarrow> load_school db' = load_school db"
  by (simp add: fun_eq_iff load_school_def has_live_fau_def)

text \<open>The tables after a school operation, and the same operation of the specification.\<close>

lemma school_related:
  assumes "related db out" "all_load db" "sql_ok db'" "municipalities_kept db' db"
    "municipalities out' = municipalities out" "distinct (map s_id (schools out'))" "school_at db' = lookup s_id (schools out')"
  shows "related db' out' \<and> all_load db' \<and> check_invariants out'"
proof -
  have rel: "related db' out'"
    unfolding related_def municipality_at_tables [OF assms(4)] assms(5) using assms(1,6,7) by (simp add: related_def)
  with related_checked [OF assms(3) this] all_load_tables [OF assms(4,2)] show ?thesis by simp
qed

lemma school_update_related:
  assumes rel: "related db out" and load: "all_load db" and ok: "sql_ok db"
    and d: "update_school i f d = Inr db'" "municipalities_kept d db" "rg_schools d = rg_schools db"
    and f: "\<And>r. sch_id (f r) = sch_id r" "\<And>r. load_school db (f r) = g (load_school db r)" "\<And>s. s_id (g s) = s_id s"
    and effect: "\<And>ss. update_first (\<lambda>s. s_id s = i) g (schools out) = Some ss \<Longrightarrow> school_ref out i \<noteq> None
       \<Longrightarrow> school_effect ms ns out op = Some (h (out\<lparr>schools := ss\<rparr>))"
      "\<And>out. municipalities (h out) = municipalities out" "\<And>out. schools (h out) = schools out"
  shows "\<exists>out'. school_effect ms ns out op = Some out' \<and> check_invariants out' \<and> related db' out' \<and> all_load db' \<and> sql_ok db'"
proof -
  from d(1) obtain r where r: "r \<in> set (rg_schools d)" "sch_id r = i"
    "db' = d\<lparr>rg_schools := map (\<lambda>r. if sch_id r = i then f r else r) (rg_schools d)\<rparr>" "schools_ok d (rg_schools db')"
    by (rule update_schoolE)
  have kept: "municipalities_kept db' db" using d(2) by (simp add: r(3) municipalities_kept_def)
  have rows: "rg_schools db' = map (\<lambda>r. if sch_id r = i then f r else r) (rg_schools db)" by (simp add: r(3) d(3))
  have ids: "sch_id ` set (rg_schools db') = sch_id ` set (rg_schools db)" unfolding rows by (rule set_update_id) (rule f)
  have ok': "sql_ok db'"
  proof (rule sql_ok_schools [OF ok kept])
    show "schools_ok db (rg_schools db')" using r(4) d(2) by (simp add: schools_ok_def municipalities_kept_def)
  qed (simp add: ids)
  have at: "school_at db' = (school_at db)(i := map_option g (school_at db i))"
    unfolding school_at_def rows lookup_update [of sch_id f, OF f(1)]
      has_live_fau_tenants [OF conjunct2 [OF conjunct2 [OF conjunct2 [OF kept [unfolded municipalities_kept_def]]]]]
    by (auto simp: fun_eq_iff f(2) option.map_comp comp_def)
  from rel have view: "school_at db = lookup s_id (schools out)" by (simp add: related_def)
  have "lookup sch_id (rg_schools db) i \<noteq> None" using r(1,2) d(3) by (auto simp: lookup_None)
  then have found: "lookup s_id (schools out) i \<noteq> None" by (simp add: view [symmetric] school_at_def)
  from update_first_lookup [of s_id g, OF f(3) this] obtain ss where ss: "update_first (\<lambda>s. s_id s = i) g (schools out) = Some ss"
    "map s_id ss = map s_id (schools out)" "lookup s_id ss = (lookup s_id (schools out))(i := map_option g (lookup s_id (schools out) i))" .
  have "related db' (h (out\<lparr>schools := ss\<rparr>)) \<and> all_load db' \<and> check_invariants (h (out\<lparr>schools := ss\<rparr>))"
    by (rule school_related [OF rel load ok' kept]) (use rel in \<open>simp_all add: effect(2,3) ss(2,3) at view related_def\<close>)
  moreover have "school_effect ms ns out op = Some (h (out\<lparr>schools := ss\<rparr>))"
    by (rule effect(1) [OF ss(1)]) (use found in \<open>simp add: school_ref_def lookup_def\<close>)
  ultimately show ?thesis using ok' by blast
qed

lemma move_school_slug_frame:
  "move_school_slug i m slug mt db = Inr d \<Longrightarrow> municipalities_kept d db \<and> rg_schools d = rg_schools db"
  by (auto simp: move_school_slug_def put_school_slugs_def municipalities_kept_def)

lemma same_tables [simp]: "municipalities_kept db db"
  by (simp add: municipalities_kept_def)

lemma keep_old_slug_frame: "keep_old_slug i m change mt db = Inr d \<Longrightarrow> municipalities_kept d db \<and> rg_schools d = rg_schools db"
  by (auto simp: keep_old_slug_def dest!: move_school_slug_frame split: option.splits)

lemma push_school_slug_simps [simp]:
  "municipalities (push_school_slug m s i out) = municipalities out" "schools (push_school_slug m s i out) = schools out"
  by (simp_all add: push_school_slug_def)

lemma school_mut_first:
  "update_first (\<lambda>s. s_id s = i) g (schools out) = Some ss \<Longrightarrow> school_mut out i g = Some (out\<lparr>schools := ss\<rparr>)"
  by (simp add: school_mut_def)

lemma rename_school_related:
  assumes "related db out" "all_load db" "sql_ok db" "apply_school_op E ids mt (School_Rename i rn dn change) db = Inr db'"
  shows "\<exists>out'. school_effect ms ns out (School_Rename i rn dn change) = Some out' \<and> check_invariants out' \<and> related db' out'
    \<and> all_load db' \<and> sql_ok db'"
proof -
  let ?f = "\<lambda>r. r\<lparr>sch_register_name := Some rn, sch_display_name := unwrap_or dn (sch_display_name r),
          sch_slug := coalesce_slug change (sch_slug r), sch_updated_at := m_now mt\<rparr>"
  let ?g = "\<lambda>s. set_slug change (s\<lparr>s_register_name := Some rn, s_display_name := unwrap_or dn (s_display_name s)\<rparr>)"
  from assms(4) obtain d where d: "keep_old_slug i None change mt db = Inr d" "update_school i ?f d = Inr db'" by auto
  let ?h = "case school_ref out i of Some s \<Rightarrow> push_school_slug (s_municipality_id s) (Option.bind change sc_old) i | None \<Rightarrow> (\<lambda>out. out)"
  show ?thesis
  proof (rule school_update_related [OF assms(1-3) d(2), where g = ?g and h = ?h])
    show "load_school db (?f r) = ?g (load_school db r)" for r
      by (cases change) (simp_all add: load_school_def set_slug_def coalesce_slug_def)
    show "s_id (?g s) = s_id s" for s by (simp add: set_slug_def split: option.splits)
    show "school_effect ms ns out (School_Rename i rn dn change) = Some (?h (out\<lparr>schools := ss\<rparr>))"
      if "update_first (\<lambda>s. s_id s = i) ?g (schools out) = Some ss" "school_ref out i \<noteq> None" for ss
      using that by (auto simp: school_mut_first [OF that(1)])
  qed (use keep_old_slug_frame [OF d(1)] in \<open>simp_all split: option.splits\<close>)
qed

lemma attributes_related:
  assumes "related db out" "all_load db" "sql_ok db" "apply_school_op E ids mt (Update_Attributes i attributes) db = Inr db'"
  shows "\<exists>out'. school_effect ms ns out (Update_Attributes i attributes) = Some out' \<and> check_invariants out' \<and> related db' out'
    \<and> all_load db' \<and> sql_ok db'"
proof (rule school_update_related [OF assms(1-3) _, where g = "\<lambda>s. s\<lparr>s_attributes := attributes\<rparr>" and h = "\<lambda>out. out"
      and d = db and f = "\<lambda>r. r\<lparr>sch_attributes := attributes, sch_updated_at := m_now mt\<rparr>"])
  show "update_school i (\<lambda>r. r\<lparr>sch_attributes := attributes, sch_updated_at := m_now mt\<rparr>) db = Inr db'" using assms(4) by simp
qed (simp_all add: load_school_def school_mut_first)

lemma move_related:
  assumes "related db out" "all_load db" "sql_ok db" "apply_school_op E ids mt (Move i from to change) db = Inr db'"
  shows "\<exists>out'. school_effect (ni_municipalities ids) ns out (Move i from to change) = Some out' \<and> check_invariants out' \<and> related db' out'
    \<and> all_load db' \<and> sql_ok db'"
proof -
  from assms(4) obtain d m where d: "keep_old_slug i (Some from) change mt db = Inr d" "resolve_ref (ni_municipalities ids) to = Inr m"
    "update_school i (\<lambda>r. r\<lparr>sch_municipality := m, sch_slug := coalesce_slug change (sch_slug r), sch_updated_at := m_now mt\<rparr>) d = Inr db'"
    by auto
  from d(2) have m: "municipality_id (ni_municipalities ids) to = Some m"
    by (auto simp: resolve_ref_def municipality_id_def split: ref.splits)
  let ?g = "\<lambda>s. set_slug change (s\<lparr>s_municipality_id := m\<rparr>)"
  show ?thesis
  proof (rule school_update_related [OF assms(1-3) d(3), where g = ?g and h = "push_school_slug from (Option.bind change sc_old) i"])
    show "load_school db (r\<lparr>sch_municipality := m, sch_slug := coalesce_slug change (sch_slug r), sch_updated_at := m_now mt\<rparr>)
      = ?g (load_school db r)" for r
      by (cases change) (simp_all add: load_school_def set_slug_def coalesce_slug_def)
    show "s_id (?g s) = s_id s" for s by (simp add: set_slug_def split: option.splits)
    show "school_effect (ni_municipalities ids) ns out (Move i from to change) = Some (push_school_slug from (Option.bind change sc_old) i (out\<lparr>schools := ss\<rparr>))"
      if "update_first (\<lambda>s. s_id s = i) ?g (schools out) = Some ss" for ss
      by (simp add: m school_mut_first [OF that])
  qed (use keep_old_slug_frame [OF d(1)] in simp_all)
qed

lemma close_related:
  assumes "related db out" "all_load db" "sql_ok db" "apply_school_op E ids mt (Close i reason closed_on successor) db = Inr db'"
  shows "\<exists>out'. school_effect ms ns out (Close i reason closed_on successor) = Some out' \<and> check_invariants out' \<and> related db' out'
    \<and> all_load db' \<and> sql_ok db'"
proof -
  let ?f = "\<lambda>r. r\<lparr>sch_status := School_Closed, sch_closed_on := Some closed_on,
          sch_closure_reason := Some (closure_reason_code reason), sch_slug := None,
          sch_in_scope := (sch_in_scope r \<and> reason \<noteq> Out_Of_Scope_Closure), sch_updated_at := m_now mt\<rparr>"
  let ?g = "\<lambda>s. s\<lparr>s_status := School_Closed, s_in_scope := (if reason = Out_Of_Scope_Closure then False else s_in_scope s), s_slug := None\<rparr>"
  have kept: "municipalities_kept d db \<and> rg_schools d = rg_schools db"
    if "(case slug of Some slug \<Rightarrow> move_school_slug i None slug mt db | None \<Rightarrow> Inr db) = Inr d" for slug d
    using that by (auto dest!: move_school_slug_frame split: option.splits)
  from assms(4) have "\<exists>d. update_school i ?f d = Inr db' \<and> municipalities_kept d db \<and> rg_schools d = rg_schools db"
    unfolding apply_school_op.simps by (elim and_then_InrE) (blast dest: kept)
  then obtain d where u: "update_school i ?f d = Inr db'" and d: "municipalities_kept d db" "rg_schools d = rg_schools db" by blast
  let ?h = "case school_ref out i of Some s \<Rightarrow> push_school_slug (s_municipality_id s) (s_slug s) i | None \<Rightarrow> (\<lambda>out. out)"
  show ?thesis
  proof (rule school_update_related [OF assms(1-3) u d, where g = ?g and h = ?h])
    show "load_school db (?f r) = ?g (load_school db r)" for r by (simp add: load_school_def)
    show "school_effect ms ns out (Close i reason closed_on successor) = Some (?h (out\<lparr>schools := ss\<rparr>))"
      if "update_first (\<lambda>s. s_id s = i) ?g (schools out) = Some ss" "school_ref out i \<noteq> None" for ss
      using that by (auto simp: close_effect_def school_mut_first [OF that(1)])
  qed (simp_all split: option.splits)
qed

lemma create_school_related:
  fixes db db' :: "('t::linorder, 'd::linorder) register_db"
  assumes rel: "related db out" and load: "all_load db" and ok: "sql_ok db"
    and step: "apply_school_op E ids mt (School_Create k municipality orgnr rn dn slug v in_scope attributes changed_at) db = Inr db'"
  shows "\<exists>out'. school_effect (ni_municipalities ids) (ni_schools ids) out
      (School_Create k municipality orgnr rn dn slug v in_scope attributes changed_at) = Some out'
    \<and> check_invariants out' \<and> related db' out' \<and> all_load db' \<and> sql_ok db'"
proof -
  let ?r = "\<lambda>i m. \<lparr>sch_id = i, sch_municipality = m, sch_origin = Register, sch_display_name = dn,
           sch_register_name = Some rn, sch_display_name_curated = False, sch_slug = slug,
           sch_verification = (case v of Create_Listed \<Rightarrow> Listed | Create_Held \<Rightarrow> Held), sch_verified_at = None,
           sch_orgnr = Some orgnr, sch_attributes = attributes, sch_in_scope = in_scope, sch_scope_override = None,
           sch_status = School_Active, sch_closed_on = (None :: 'd option), sch_closure_reason = None, sch_successor = None,
           sch_source_changed_at = changed_at, sch_last_seen_at = Some (m_now mt),
           sch_search_text = search_text (re_ucd E) [dn, rn], sch_created_at = m_now mt, sch_updated_at = m_now mt\<rparr>"
  from step obtain i m where c: "ni_schools ids k = Some i" "resolve_ref (ni_municipalities ids) municipality = Inr m"
    "put_schools (rg_schools db @ [?r i m]) db = Inr db'"
    unfolding apply_school_op.simps by (elim and_then_InrE) (simp add: resolve_ref_def)
  then have i: "ni_schools ids k = Some i" "resolve_ref (ni_municipalities ids) municipality = Inr m"
    "db' = db\<lparr>rg_schools := rg_schools db @ [?r i m]\<rparr>" "schools_ok db (rg_schools db @ [?r i m])" "sch_id (?r i m) = i"
    by (simp_all add: put_schools_def)
  have i6: "load_school db (?r i m) = (created_school i m orgnr rn dn slug v in_scope attributes)\<lparr>s_has_live_fau := has_live_fau i db\<rparr>"
    by (cases v) (simp_all add: load_school_def created_school_def)
  from i(2) have m: "municipality_id (ni_municipalities ids) municipality = Some m"
    by (auto simp: resolve_ref_def municipality_id_def split: ref.splits)
  let ?s = "created_school i m orgnr rn dn slug v in_scope attributes"
  let ?out = "out\<lparr>schools := schools out @ [?s]\<rparr>"
  have fresh: "i \<notin> sch_id ` set (rg_schools db)" using i(4,5) by (auto simp: schools_ok_def)
  then have "\<not> has_live_fau i db"
    using ok by (auto simp: sql_ok_def has_live_fau_def list_all_iff list_ex_iff split: option.splits)
  then have row: "load_school db (?r i m) = ?s" using i6 by (simp add: created_school_def)
  have kept: "municipalities_kept db' db" by (simp add: i(3) municipalities_kept_def)
  have ok': "sql_ok db'" by (rule sql_ok_schools [OF ok kept]) (use i(4) in \<open>auto simp: i(3)\<close>)
  have live: "load_school db' = load_school db" by (rule has_live_fau_tenants) (simp add: i(3))
  have rows: "rg_schools db' = rg_schools db @ [?r i m]" by (simp add: i(3))
  have absent: "lookup sch_id (rg_schools db) i = None" "lookup s_id (schools out) i = None"
  proof -
    show "lookup sch_id (rg_schools db) i = None" using fresh by (simp add: lookup_None)
    then have "school_at db i = None" by (simp add: school_at_def)
    with rel show "lookup s_id (schools out) i = None" by (simp add: related_def)
  qed
  have at: "school_at db' j = lookup s_id (schools ?out) j" for j
  proof (cases "j = i")
    case True
    then show ?thesis unfolding school_at_def live rows using absent row by (simp add: created_school_def)
  next
    case False
    then have "school_at db' j = school_at db j" unfolding school_at_def live rows by (simp split: option.splits)
    with False rel show ?thesis by (simp add: related_def created_school_def split: option.splits)
  qed
  have "related db' ?out \<and> all_load db' \<and> check_invariants ?out"
    by (rule school_related [OF rel load ok' kept])
      (use rel absent(2) at in \<open>auto simp: related_def fun_eq_iff lookup_None created_school_def\<close>)
  with ok' show ?thesis by (simp add: i(1) m)
qed

lemma school_op_related:
  assumes "related db out" "all_load db" "sql_ok db" "apply_school_op E ids mt op db = Inr db'"
  shows "\<exists>out'. school_effect (ni_municipalities ids) (ni_schools ids) out op = Some out' \<and> check_invariants out' \<and> related db' out'
    \<and> all_load db' \<and> sql_ok db'"
  using assms create_school_related rename_school_related attributes_related move_related close_related
  by (cases op) fast+

lemma school_ops_related:
  assumes "related db (ap_out ap)" "all_load db" "sql_ok db" "school_ops E ids mt ops db = Inr (links, db')"
  shows "\<exists>ap'. foldM (school_step (ni_municipalities ids) (ni_schools ids)) ap ops = Some ap' \<and> related db' (ap_out ap')
    \<and> all_load db' \<and> sql_ok db'"
  using assms
proof (induction ops arbitrary: db ap links)
  case (Cons op ops)
  from Cons.prems(4) obtain d l where d: "apply_school_op E ids mt op db = Inr d" "school_ops E ids mt ops d = Inr (l, db')" by auto
  from school_op_related [OF Cons.prems(1-3) d(1)] obtain out' where
    out': "school_effect (ni_municipalities ids) (ni_schools ids) (ap_out ap) op = Some out'" "check_invariants out'"
      "related d out'" "all_load d" "sql_ok d" by blast
  let ?ap = "\<lparr>ap_out = out', ap_pending = ap_pending ap @ pending_of op\<rparr>"
  have "school_step (ni_municipalities ids) (ni_schools ids) ap op = Some ?ap"
    using out'(1,2) by (simp add: school_step_def checked_def)
  with Cons.IH [of d ?ap l] out'(3-5) d(2) show ?case by simp
qed simp

section \<open>Statements the planner does not see\<close>

lemma related_kept:
  assumes "related db out" "all_load db" "sql_ok db" "municipalities_kept db' db" "rg_schools db' = rg_schools db"
  shows "related db' out \<and> all_load db' \<and> sql_ok db'"
proof -
  from assms(4) have "rg_tenants db' = rg_tenants db" by (simp add: municipalities_kept_def)
  with assms(1,5) have "related db' out"
    unfolding related_def municipality_at_tables [OF assms(4)] by (simp add: school_at_tables [of db' db])
  moreover have "sql_ok db'"
    by (rule sql_ok_schools [OF assms(3,4)]) (use assms(3,5) in \<open>simp_all add: sql_ok_def\<close>)
  ultimately show ?thesis using all_load_tables [OF assms(4,2)] by simp
qed

lemma run_each_related:
  assumes "run_each f xs db = Inr db'" "related db out" "all_load db" "sql_ok db"
    "\<And>x a b. f x a = Inr b \<Longrightarrow> related a out \<Longrightarrow> all_load a \<Longrightarrow> sql_ok a \<Longrightarrow> related b out \<and> all_load b \<and> sql_ok b"
  shows "related db' out \<and> all_load db' \<and> sql_ok db'"
  using assms(1-4)
proof (induction xs arbitrary: db)
  case (Cons x xs)
  from Cons.prems(1) obtain d where d: "f x db = Inr d" "run_each f xs d = Inr db'" by auto
  from assms(5) [OF d(1) Cons.prems(2-4)] Cons.IH [OF d(2)] show ?case by blast
qed simp

text \<open>An update of school rows in columns the snapshot does not have.\<close>

lemma schools_put_related:
  fixes db db' :: "('t::linorder, 'd::linorder) register_db"
  assumes "related db out" "all_load db" "sql_ok db"
    and put: "db' = db\<lparr>rg_schools := map (\<lambda>r. if sch_id r = i then f r else r) (rg_schools db)\<rparr>" "schools_ok db (rg_schools db')"
    and f: "\<And>r. sch_id (f r) = sch_id r" "\<And>r. load_school db (f r) = load_school db r"
  shows "related db' out \<and> all_load db' \<and> sql_ok db'"
proof -
  have rows: "rg_schools db' = map (\<lambda>r. if sch_id r = i then f r else r) (rg_schools db)" by (simp add: put(1))
  have kept: "municipalities_kept db' db" by (simp add: put(1) municipalities_kept_def)
  have live: "load_school db' = load_school db" by (rule has_live_fau_tenants) (simp add: put(1))
  have at: "school_at db' = school_at db"
    unfolding school_at_def rows live lookup_update [of sch_id f, OF f(1)]
    by (auto simp: fun_eq_iff f(2) option.map_comp comp_def)
  have ok': "sql_ok db'"
  proof (rule sql_ok_schools [OF assms(3) kept put(2)])
    show "sch_id ` set (rg_schools db) \<subseteq> sch_id ` set (rg_schools db')" unfolding rows by (subst set_update_id) (simp_all add: f(1))
  qed
  with school_related [OF assms(1,2) ok' kept refl] assms(1) at show ?thesis by (simp add: related_def)
qed

lemma link_successor_related:
  fixes a b :: "('t::linorder, 'd::linorder) register_db"
  assumes "link_successor p a = Inr b" "related a out" "all_load a" "sql_ok a"
  shows "related b out \<and> all_load b \<and> sql_ok b"
proof -
  obtain i s where p: "p = (i, s)" by (cases p)
  from assms(1) have "update_school i (\<lambda>r. r\<lparr>sch_successor := Some s\<rparr>) a = Inr b" by (simp add: link_successor_def p)
  then show ?thesis
    by (rule update_schoolE) (rule schools_put_related [OF assms(2-4)], assumption, assumption, simp_all add: load_school_def)
qed

lemma refresh_school_related:
  fixes a b :: "('t::linorder, 'd::linorder) register_db"
  assumes "refresh_school_search_text E i a = Inr b" "related a out" "all_load a" "sql_ok a"
  shows "related b out \<and> all_load b \<and> sql_ok b"
proof -
  from assms(1) obtain words where w: "b = a\<lparr>rg_schools := map (\<lambda>r. if sch_id r = i then r\<lparr>sch_search_text := words\<rparr> else r) (rg_schools a)\<rparr>"
    "schools_ok a (rg_schools b)" by (auto simp: refresh_school_search_text_def put_schools_def Let_def)
  show ?thesis by (rule schools_put_related [OF assms(2-4) w]) (simp_all add: load_school_def)
qed

lemma refresh_municipality_related:
  fixes a b :: "('t::linorder, 'd::linorder) register_db"
  assumes "refresh_municipality_search_text E i a = Inr b" "related a out" "all_load a" "sql_ok a"
  shows "related b out \<and> all_load b \<and> sql_ok b"
proof -
  from assms(1) obtain words where w: "b = a\<lparr>rg_municipalities := map (\<lambda>r. if mun_id r = i then r\<lparr>mun_search_text := words\<rparr> else r) (rg_municipalities a)\<rparr>"
    "municipalities_ok (rg_municipalities b)" by (auto simp: refresh_municipality_search_text_def put_municipalities_def Let_def)
  let ?f = "\<lambda>r. r\<lparr>mun_search_text := words\<rparr>"
  have rows: "rg_municipalities b = map (\<lambda>r. if mun_id r = i then ?f r else r) (rg_municipalities a)"
    and rest: "rg_numbers b = rg_numbers a" "rg_names b = rg_names a" "rg_schools b = rg_schools a" "rg_tenants b = rg_tenants a"
    by (simp_all add: w(1))
  have same: "municipality_of (?f r) = municipality_of r" for r :: "('t, 'd) municipality_row"
    by (simp add: fun_eq_iff municipality_of_def)
  have cur: "current_number j b = current_number j a" "loaded_names j b = loaded_names j a" for j
    using current_number_rows [of j b a] loaded_names_rows [of j b a] by (simp_all add: rest)
  have at: "municipality_at b = municipality_at a"
  proof
    fix j
    have "lookup mun_id (rg_municipalities b) = (lookup mun_id (rg_municipalities a))(i := map_option ?f (lookup mun_id (rg_municipalities a) i))"
      unfolding rows by (rule lookup_update) simp
    then show "municipality_at b j = municipality_at a j"
      by (cases "lookup mun_id (rg_municipalities a) i") (auto simp: municipality_at_def cur same split: option.splits sum.splits)
  qed
  have mids: "mun_id ` set (rg_municipalities a) \<subseteq> mun_id ` set (rg_municipalities b)" unfolding rows by (subst set_update_id) simp_all
  have "sql_ok b"
    by (rule sql_ok_update [OF assms(4) rows _ w(2) rest(3,4)])
      (use assms(4) constraints_ids(1,2) [OF mids] in \<open>simp_all add: sql_ok_def rest open_numbers_tables [OF rest(1)] list_all_iff\<close>)
  moreover have "all_load b" using assms(3) unfolding all_load_def at rows by (auto simp: list_all_iff)
  moreover have "related b out" using assms(2) unfolding related_def at school_at_tables [OF rest(3,4)] .
  ultimately show ?thesis by simp
qed

lemma write_reviews_related:
  assumes "write_reviews E ids mt items w k db = Inr (w', k', db')" "related db out" "all_load db" "sql_ok db"
  shows "related db' out \<and> all_load db' \<and> sql_ok db'"
  using assms
proof (induction items arbitrary: w k db)
  case (Cons item items)
  from Cons.prems(1) obtain new d where d1: "write_review E ids mt item db = Inr (new, d)"
    "(case new of None \<Rightarrow> write_reviews E ids mt items w (k + 1) d
      | Some r \<Rightarrow> write_reviews E ids mt items (w @ [r]) k d) = Inr (w', k', db')" by auto
  then have d: "write_review E ids mt item db = Inr (new, d)" "\<exists>w k. write_reviews E ids mt items w k d = Inr (w', k', db')"
    by (auto split: option.splits)
  from d(1) have "municipalities_kept d db \<and> rg_schools d = rg_schools db"
    by (auto simp: write_review_def fresh_id_def Let_def municipalities_kept_def split: if_splits)
  then have "related d out \<and> all_load d \<and> sql_ok d" using related_kept [OF Cons.prems(2-4)] by blast
  with d(2) Cons.IH show ?case by blast
qed simp

section \<open>The snapshot\<close>

lemma sort_by_sorted: "sorted_wrt le xs \<Longrightarrow> sort_by le xs = xs"
proof (induction xs)
  case (Cons x xs)
  then show ?case by (cases xs) simp_all
qed simp

lemma collect_results_Inr: "collect_results f xs = Inr ys \<longleftrightarrow> list_all2 (\<lambda>x y. f x = Inr y) xs ys"
  by (induction xs arbitrary: ys) (auto simp: list_all2_Cons1)

lemma name_le_total: "name_le a b \<or> name_le b a"
  by (auto simp: name_le_def)

lemma name_le_trans: "name_le a b \<Longrightarrow> name_le b c \<Longrightarrow> name_le a c"
  by (auto simp: name_le_def)

lemma sorted_wrt_related:
  assumes "list_all2 P xs ys" "sorted_wrt le xs" "\<And>a b m n. P a m \<Longrightarrow> P b n \<Longrightarrow> le a b \<Longrightarrow> le' m n"
  shows "sorted_wrt le' ys"
  using assms(1,2)
proof (induction rule: list_all2_induct)
  case (Cons x xs y ys)
  have "\<exists>b\<in>set xs. P b m" if "m \<in> set ys" for m
    using Cons.hyps(2) that by (induction rule: list_all2_induct) auto
  with Cons assms(3) show ?case by (metis sorted_wrt.simps(2))
qed simp

lemma loaded_names_in_order:
  assumes "loaded_names i db = Inr ns" shows "by_priority ns = ns"
  unfolding by_priority_def
proof (rule sort_by_sorted, rule sorted_wrt_related)
  show "list_all2 (\<lambda>r n. official_name_of r = Inr n) (names_of i db) ns"
    using assms by (simp add: loaded_names_def collect_results_Inr)
  show "sorted_wrt name_le (names_of i db)"
    unfolding names_of_def using name_le_total name_le_trans by (rule sorted_wrt_sort_by)
  show "official_name_of a = Inr m \<Longrightarrow> official_name_of b = Inr n \<Longrightarrow> name_le a b \<Longrightarrow> official_le m n" for a b m n
    by (auto simp: official_name_of_def official_le_def name_le_def name_row_def split: if_splits)
qed

lemma municipality_at_id: "municipality_at db i = Some m \<Longrightarrow> ms_id m = i"
  by (auto simp: municipality_at_def municipality_of_def split: option.splits sum.splits dest: lookup_SomeD)

lemma load_municipality_at:
  assumes "distinct (map mun_id (rg_municipalities db))" "r \<in> set (rg_municipalities db)"
  shows "load_municipality db r = Inr m \<longleftrightarrow> municipality_at db (mun_id r) = Some m"
proof -
  from assms have "lookup mun_id (rg_municipalities db) (mun_id r) = Some r" by (simp add: lookup_Some)
  then show ?thesis
    by (auto simp: load_municipality_def municipality_at_def municipality_of_def loaded_names_def split: option.splits sum.splits)
qed

lemma insort_key_map: "map g (insort_key (\<lambda>x. f (g x)) x xs) = insort_key f (g x) (map g xs)"
  by (induction xs) simp_all

lemma sort_key_map: "map g (sort_key (\<lambda>x. f (g x)) xs) = sort_key f (map g xs)"
  by (induction xs) (simp_all add: insort_key_map)

lemma distinct_map_sort: "distinct (map f (sort_key g xs)) = distinct (map f xs)"
  by (metis mset_map mset_sort mset_eq_imp_distinct_iff)

lemma lookup_sort_key:
  assumes "distinct (map f xs)" shows "lookup f (sort_key f xs) = lookup f xs"
proof
  fix k
  have d: "distinct (map f (sort_key f xs))" using assms by (simp add: distinct_map)
  show "lookup f (sort_key f xs) k = lookup f xs k"
    using lookup_Some [OF assms, of k] lookup_Some [OF d, of k] by (metis lookup_None option.exhaust set_sort)
qed

lemma list_all2_Some: "list_all2 (\<lambda>x y. g x = Some y) xs ys \<longleftrightarrow> (\<forall>x\<in>set xs. g x \<noteq> None) \<and> ys = map (\<lambda>x. the (g x)) xs"
  by (induction xs arbitrary: ys) (auto simp: list_all2_Cons1)

text \<open>What a database that loads says.\<close>

definition municipality_rows :: "('t, 'd::linorder) register_db \<Rightarrow> uuid municipality_snapshot list" where
  "municipality_rows db = map (\<lambda>r. the (municipality_at db (mun_id r))) (rg_municipalities db)"

lemma municipality_rows_ids:
  assumes "all_load db" shows "map ms_id (municipality_rows db) = map mun_id (rg_municipalities db)"
  using assms municipality_at_id [of db] by (auto simp: municipality_rows_def all_load_def list_all_iff dest!: bspec)

lemma municipality_rows_sorted:
  assumes "all_load db" "distinct (map mun_id (rg_municipalities db))"
  shows "map (\<lambda>r. the (municipality_at db (mun_id r))) (sort_key mun_id (rg_municipalities db)) = sort_key ms_id (municipality_rows db)"
proof (rule sort_key_inj_key_eq [symmetric])
  let ?m = "\<lambda>r. the (municipality_at db (mun_id r))"
  show "mset (municipality_rows db) = mset (map ?m (sort_key mun_id (rg_municipalities db)))" by (simp add: municipality_rows_def)
  from municipality_rows_ids [OF assms(1)] assms(2) show "inj_on ms_id (set (municipality_rows db))" by (metis distinct_map)
  have "ms_id (?m r) = mun_id r" if "r \<in> set (rg_municipalities db)" for r
    using municipality_rows_ids [OF assms(1)] that by (simp add: municipality_rows_def)
  then have "map ms_id (map ?m (sort_key mun_id (rg_municipalities db))) = map mun_id (sort_key mun_id (rg_municipalities db))" by simp
  then show "sorted (map ms_id (map ?m (sort_key mun_id (rg_municipalities db))))" by (simp only: sorted_sort_key)
qed

lemma load_snapshot_rows:
  assumes "distinct (map mun_id (rg_municipalities db))"
  shows "(\<exists>snapshot. load_snapshot db = Inr snapshot) \<longleftrightarrow> all_load db"
    "load_snapshot db = Inr snapshot \<Longrightarrow> municipalities snapshot = sort_key ms_id (municipality_rows db)
      \<and> schools snapshot = sort_key s_id (map (load_school db) (rg_schools db))"
proof -
  have rel: "collect_results (load_municipality db) (sort_key mun_id (rg_municipalities db)) = Inr ms \<longleftrightarrow>
    all_load db \<and> ms = map (\<lambda>r. the (municipality_at db (mun_id r))) (sort_key mun_id (rg_municipalities db))" for ms
  proof -
    have "collect_results (load_municipality db) (sort_key mun_id (rg_municipalities db)) = Inr ms \<longleftrightarrow>
      list_all2 (\<lambda>r m. municipality_at db (mun_id r) = Some m) (sort_key mun_id (rg_municipalities db)) ms"
      unfolding collect_results_Inr by (rule list.rel_cong) (simp_all add: load_municipality_at [OF assms])
    then show ?thesis unfolding list_all2_Some by (simp add: all_load_def list_all_iff)
  qed
  show "(\<exists>snapshot. load_snapshot db = Inr snapshot) \<longleftrightarrow> all_load db"
    by (simp add: load_snapshot_def rel)
  assume "load_snapshot db = Inr snapshot"
  then have s: "all_load db" "municipalities snapshot = map (\<lambda>r. the (municipality_at db (mun_id r))) (sort_key mun_id (rg_municipalities db))"
    "schools snapshot = map (load_school db) (sort_key sch_id (rg_schools db))"
    by (auto simp: load_snapshot_def rel)
  have "(\<lambda>x. s_id (load_school db x)) = sch_id" by (simp add: fun_eq_iff load_school_def)
  with sort_key_map [of "load_school db" s_id "rg_schools db"] s municipality_rows_sorted [OF s(1) assms]
  show "municipalities snapshot = sort_key ms_id (municipality_rows db)
      \<and> schools snapshot = sort_key s_id (map (load_school db) (rg_schools db))" by simp
qed

lemma lookup_municipality_rows:
  assumes "all_load db" shows "lookup ms_id (municipality_rows db) = municipality_at db"
proof
  fix i
  have step: "lookup ms_id (map (\<lambda>r. the (municipality_at db (mun_id r))) rows) i
     = map_option (\<lambda>r. the (municipality_at db (mun_id r))) (lookup mun_id rows i)"
    if "\<forall>r\<in>set rows. ms_id (the (municipality_at db (mun_id r))) = mun_id r" for rows :: "('a, 'b) municipality_row list"
    using that by (induction rows) auto
  have "\<forall>r\<in>set (rg_municipalities db). ms_id (the (municipality_at db (mun_id r))) = mun_id r"
    using municipality_rows_ids [OF assms] by (auto simp: municipality_rows_def)
  from step [OF this] have m: "lookup ms_id (municipality_rows db) i
      = map_option (\<lambda>r. the (municipality_at db (mun_id r))) (lookup mun_id (rg_municipalities db) i)"
    by (simp add: municipality_rows_def)
  show "lookup ms_id (municipality_rows db) i = municipality_at db i"
  proof (cases "lookup mun_id (rg_municipalities db) i")
    case None
    with m show ?thesis by (simp add: municipality_at_def)
  next
    case (Some r)
    then have "r \<in> set (rg_municipalities db)" "mun_id r = i" by (auto dest: lookup_SomeD)
    with assms have "municipality_at db i \<noteq> None" by (auto simp: all_load_def list_all_iff)
    with m Some \<open>mun_id r = i\<close> show ?thesis by auto
  qed
qed

lemma related_snapshot:
  assumes "sql_ok db" "load_snapshot db = Inr snapshot"
  shows "related db snapshot \<and> all_load db"
proof -
  from assms(1) have d: "distinct (map mun_id (rg_municipalities db))" "distinct (map sch_id (rg_schools db))"
    by (simp_all add: sql_ok_def municipalities_ok_def schools_ok_def)
  have load: "all_load db" using load_snapshot_rows(1) [OF d(1)] assms(2) by blast
  note s = load_snapshot_rows(2) [OF d(1) assms(2)]
  have ids: "distinct (map ms_id (municipality_rows db))" using municipality_rows_ids [OF load] d(1) by simp
  have sids: "distinct (map s_id (map (load_school db) (rg_schools db)))" using d(2) by (simp add: comp_def load_school_def)
  have order: "names_in_order m = m" if "municipality_at db i = Some m" for i m
    using that loaded_names_in_order
    by (auto simp: municipality_at_def names_in_order_def municipality_of_def split: option.splits sum.splits)
  have "municipality_at db = (\<lambda>i. map_option names_in_order (municipality_at db i))"
  proof
    show "municipality_at db i = map_option names_in_order (municipality_at db i)" for i
      using order by (cases "municipality_at db i") simp_all
  qed
  moreover have "lookup ms_id (municipalities snapshot) = municipality_at db"
    using s lookup_sort_key [OF ids] lookup_municipality_rows [OF load] by simp
  moreover have "school_at db = lookup s_id (schools snapshot)"
  proof -
    have "s_id (load_school db r) = sch_id r" for r by (simp add: load_school_def)
    from lookup_map_id [of s_id "load_school db" sch_id, OF this] s lookup_sort_key [OF sids]
    show ?thesis by (simp add: school_at_def fun_eq_iff)
  qed
  moreover have "distinct (map ms_id (municipalities snapshot))" "distinct (map s_id (schools snapshot))"
    using s ids sids by (simp_all only: distinct_map_sort)
  ultimately show ?thesis using load by (simp add: related_def)
qed

text \<open>And what it says after the run.\<close>

lemma related_loads:
  assumes "related db out" "all_load db" "sql_ok db"
  obtains snapshot where "load_snapshot db = Inr snapshot"
    "municipalities snapshot = sort_key ms_id (map names_in_order (municipalities out))"
    "schools snapshot = sort_key s_id (schools out)"
proof -
  from assms(3) have d: "distinct (map mun_id (rg_municipalities db))" "distinct (map sch_id (rg_schools db))"
    by (simp_all add: sql_ok_def municipalities_ok_def schools_ok_def)
  from load_snapshot_rows(1) [OF d(1)] assms(2) obtain snapshot where l: "load_snapshot db = Inr snapshot" by blast
  note s = load_snapshot_rows(2) [OF d(1) l]
  have "sort_key ms_id (municipality_rows db) = sort_key ms_id (map names_in_order (municipalities out))"
  proof (rule same_rows_sorted)
    show "distinct (map ms_id (municipality_rows db))" using municipality_rows_ids [OF assms(2)] d(1) by simp
    show "distinct (map ms_id (map names_in_order (municipalities out)))" using assms(1) by (simp add: related_def comp_def)
    show "lookup ms_id (municipality_rows db) = lookup ms_id (map names_in_order (municipalities out))"
      unfolding lookup_municipality_rows [OF assms(2)] lookup_map_id [of ms_id names_in_order ms_id, OF names_in_order_fields(1)]
      using assms(1) by (simp add: related_def)
  qed
  moreover have "sort_key s_id (map (load_school db) (rg_schools db)) = sort_key s_id (schools out)"
  proof (rule same_rows_sorted)
    show "distinct (map s_id (map (load_school db) (rg_schools db)))" using d(2) by (simp add: comp_def load_school_def)
    show "distinct (map s_id (schools out))" using assms(1) by (simp add: related_def)
    have "s_id (load_school db r) = sch_id r" for r by (simp add: load_school_def)
    from lookup_map_id [of s_id "load_school db" sch_id, OF this] assms(1)
    show "lookup s_id (map (load_school db) (rg_schools db)) = lookup s_id (schools out)"
      by (simp add: related_def school_at_def fun_eq_iff)
  qed
  ultimately show thesis using that l s by simp
qed

section \<open>A whole plan\<close>

text \<open>A register as the planner reads it: rows by id, a municipality's names in the order of the database.\<close>

definition register_view :: "register \<Rightarrow> uuid municipality_snapshot list \<times> uuid school_snapshot list" where
  "register_view out = (sort_key ms_id (map names_in_order (municipalities out)), sort_key s_id (schools out))"

lemma official_le_total: "official_le a b \<or> official_le b a"
  by (simp add: official_le_def name_le_total)

lemma official_le_trans: "official_le a b \<Longrightarrow> official_le b c \<Longrightarrow> official_le a c"
  unfolding official_le_def by (rule name_le_trans)

lemma names_in_order_idem: "names_in_order (names_in_order m) = names_in_order m"
proof -
  have "sorted_wrt official_le (by_priority ns)" for ns
    unfolding by_priority_def using official_le_total official_le_trans by (rule sorted_wrt_sort_by)
  then have "by_priority (by_priority ns) = by_priority ns" for ns
    by (metis by_priority_def sort_by_sorted)
  then show ?thesis by (simp add: names_in_order_def)
qed

lemma sort_key_again: "sort_key f (sort_key f xs) = sort_key f xs"
  by (rule sort_key_id_if_sorted) simp

lemma view_of_view:
  assumes "municipalities snapshot = sort_key ms_id (map names_in_order (municipalities out))"
    "schools snapshot = sort_key s_id (schools out)"
  shows "register_view snapshot = register_view out"
proof -
  have "map names_in_order (sort_key (\<lambda>m. ms_id (names_in_order m)) ms) = sort_key ms_id (map names_in_order ms)" for ms
    by (rule sort_key_map)
  then have "map names_in_order (sort_key ms_id ms) = sort_key ms_id (map names_in_order ms)" for ms by simp
  then show ?thesis by (simp add: register_view_def assms sort_key_again names_in_order_idem comp_def)
qed

lemma apply_register_plan_related:
  fixes db db' :: "('t::linorder, 'd::linorder) register_db"
  assumes ok: "sql_ok db" and load: "load_snapshot db = Inr snapshot"
    and run: "apply_register_plan E pln mt db = Inr (applied, db')" and ids: "ids = fst (allocate E pln db)"
    and fits: "renames_fit (ni_municipalities ids) snapshot (p_municipality_ops pln)" "list_all names_fit (p_municipality_ops pln)"
  shows "\<exists>out ap snapshot'. foldM (municipality_step (ni_municipalities ids)) snapshot (p_municipality_ops pln) = Some out
    \<and> foldM (school_step (ni_municipalities ids) (ni_schools ids)) \<lparr>ap_out = out, ap_pending = []\<rparr> (p_school_ops pln) = Some ap
    \<and> load_snapshot db' = Inr snapshot' \<and> register_view snapshot' = register_view (ap_out ap) \<and> sql_ok db'"
proof -
  from run ids obtain db0 touched db1 db2 links db3 db4 db5 where s: "allocate E pln db = (ids, db0)"
    "municipality_ops E ids mt (p_municipality_ops pln) db0 = Inr (touched, db1)"
    "run_each (refresh_municipality_search_text E) (ordered_set touched) db1 = Inr db2"
    "school_ops E ids mt (p_school_ops pln) db2 = Inr (links, db3)" "run_each link_successor links db3 = Inr db4"
    "run_each (refresh_school_search_text E) (ordered_set (concat (map renamed_school (p_school_ops pln)))) db4 = Inr db5"
    "\<exists>w k. write_reviews E ids mt (p_reviews pln) [] 0 db5 = Inr (w, k, db')"
    by (auto simp: apply_register_plan_def split: prod.splits)
  have "municipalities_kept db0 db \<and> rg_schools db0 = rg_schools db"
    using s(1) by (auto simp: allocate_def Let_def municipalities_kept_def)
  with related_snapshot [OF ok load] related_kept [of db snapshot db0] ok
  have r0: "related db0 snapshot" "all_load db0" "sql_ok db0" by blast+
  from municipality_ops_related [OF r0 fits s(2)] obtain out where
    out: "foldM (municipality_step (ni_municipalities ids)) snapshot (p_municipality_ops pln) = Some out"
      "related db1 out" "all_load db1" "sql_ok db1" by blast
  have "related db2 out \<and> all_load db2 \<and> sql_ok db2"
    by (rule run_each_related [OF s(3) out(2-4)]) (rule refresh_municipality_related)
  then have r2: "related db2 out" "all_load db2" "sql_ok db2" by blast+
  from r2(1) have "related db2 (ap_out \<lparr>ap_out = out, ap_pending = []\<rparr>)" by simp
  from school_ops_related [OF this r2(2,3) s(4)] obtain ap where
    ap: "foldM (school_step (ni_municipalities ids) (ni_schools ids)) \<lparr>ap_out = out, ap_pending = []\<rparr> (p_school_ops pln) = Some ap"
      "related db3 (ap_out ap)" "all_load db3" "sql_ok db3" by blast
  have "related db4 (ap_out ap) \<and> all_load db4 \<and> sql_ok db4"
    by (rule run_each_related [OF s(5) ap(2-4)]) (rule link_successor_related)
  then have r4: "related db4 (ap_out ap)" "all_load db4" "sql_ok db4" by blast+
  have "related db5 (ap_out ap) \<and> all_load db5 \<and> sql_ok db5"
    by (rule run_each_related [OF s(6) r4]) (rule refresh_school_related)
  then have r5: "related db5 (ap_out ap)" "all_load db5" "sql_ok db5" by blast+
  from s(7) write_reviews_related r5 have r6: "related db' (ap_out ap)" "all_load db'" "sql_ok db'" by blast+
  from related_loads [OF r6] obtain snapshot' where "load_snapshot db' = Inr snapshot'"
    "register_view snapshot' = register_view (ap_out ap)" by (metis view_of_view)
  with out(1) ap(1) r6(3) show ?thesis by blast
qed

end
