(* ===== verification/Source_Clients.thy ===== *)
theory Source_Clients
  imports Brreg Store_Types
begin

text \<open>
  \<open>register-sources/src\<close>: what the public sources send, read into the records of \<open>Register_Source\<close>, and
  the client's retries and paging. The JSON decoding is \<open>serde\<close>'s: its result, the DTO or its error, is the
  input here. The network answers attempts, pages and dates through parameters.
\<close>

section \<open>Errors\<close>

datatype source = Src_Nsr | Src_Kartverket | Src_Ssb | Src_Brreg

datatype source_error_kind =
  K_Parse str | K_Unexpected_Value str | K_Status nat | K_Transport | K_Too_Many_Pages | K_Incomplete_Paging | K_Io

record source_error =
  se_source :: source
  se_kind :: source_error_kind

type_synonym 'a source_result = "(source_error, 'a) result"

definition source_error_new :: "source \<Rightarrow> source_error_kind \<Rightarrow> source_error" where
  "source_error_new s k = \<lparr>se_source = s, se_kind = k\<rparr>"

datatype decode_category = Cat_Io | Cat_Syntax | Cat_Data | Cat_Eof

text \<open>The derived \<open>Debug\<close> of \<open>serde_json::error::Category\<close>.\<close>

fun category_text :: "decode_category \<Rightarrow> str" where
  "category_text Cat_Io = lit ''Io''"
| "category_text Cat_Syntax = lit ''Syntax''"
| "category_text Cat_Data = lit ''Data''"
| "category_text Cat_Eof = lit ''Eof''"

record decode_error =
  de_category :: decode_category
  de_message :: str
  de_line :: nat
  de_column :: nat

definition missing_prefix :: str where
  "missing_prefix = lit ''missing field '' @ [96]"

definition strip_prefix :: "str \<Rightarrow> str \<Rightarrow> str option" where
  "strip_prefix p s = (if prefix p s then Some (drop (length p) s) else None)"

definition position_text :: "decode_error \<Rightarrow> str" where
  "position_text e = lit '' at line '' @ show_nat (de_line e) @ lit '' column '' @ show_nat (de_column e)"

definition source_parse_error :: "source \<Rightarrow> decode_error \<Rightarrow> source_error" where
  "source_parse_error s e =
     (if de_category e = Cat_Io then source_error_new s K_Io
      else source_error_new s (K_Parse
        (case map_option (\<lambda>rest. hd (split_by (\<lambda>c. c = 96) rest)) (strip_prefix missing_prefix (de_message e)) of
           Some field \<Rightarrow> lit ''missing field '' @ field @ position_text e
         | None \<Rightarrow> category_text (de_category e) @ lit '' error'' @ position_text e)))"

definition unexpected :: "source \<Rightarrow> string \<Rightarrow> source_error" where
  "unexpected s field = source_error_new s (K_Unexpected_Value (lit field))"

section \<open>NSR\<close>

record 't nsr_list_item =
  li_orgnr :: str
  li_name :: str
  li_municipality_number :: str
  li_is_active :: bool
  li_is_school :: bool
  li_is_primary_school :: bool
  li_changed_at :: "'t option"

record 't nsr_list_page =
  lp_page :: nat
  lp_page_count :: nat
  lp_total :: nat
  lp_units :: "'t nsr_list_item list"

record list_item_dto =
  dto_orgnr :: str
  dto_name :: str
  dto_municipality_number :: str
  dto_is_active :: bool
  dto_is_school :: bool
  dto_is_primary_school :: bool
  dto_changed :: "str option"

record list_dto =
  ld_page :: "nat option"
  ld_page_count :: "nat option"
  ld_total :: "nat option"
  ld_units :: "list_item_dto list"

record paged_list_dto =
  pd_page :: nat
  pd_page_count :: nat
  pd_total :: nat
  pd_units :: "list_item_dto list"

record address_dto =
  ad_street :: "str option"
  ad_postcode :: "str option"
  ad_town :: "str option"

record unit_dto =
  ud_orgnr :: str
  ud_name :: str
  ud_municipality_number :: str
  ud_is_active :: bool
  ud_is_school :: bool
  ud_is_primary_school :: bool
  ud_is_private :: bool
  ud_categories :: "str list"
  ud_nace :: "(int \<times> str) list"
  ud_grade_from :: "int option"
  ud_grade_to :: "int option"
  ud_language :: "str option"
  ud_website :: "str option"
  ud_visiting :: "address_dto option"
  ud_postal :: "address_dto option"
  ud_closure :: "str option"
  ud_closed_at :: "str option"
  ud_changed :: "str option"

definition non_empty :: "str option \<Rightarrow> str option" where
  "non_empty s = opt_filter (\<lambda>s. s \<noteq> []) (map_option trim s)"

text \<open>\<open>s.parse::<Timestamp>()\<close> is \<open>jiff\<close>'s.\<close>

definition nsr_timestamp :: "(str \<Rightarrow> 't option) \<Rightarrow> str option \<Rightarrow> string \<Rightarrow> 't option source_result" where
  "nsr_timestamp parse s field =
     (case non_empty s of
        None \<Rightarrow> Inr None
      | Some s \<Rightarrow> (case parse s of Some t \<Rightarrow> Inr (Some t) | None \<Rightarrow> Inl (unexpected Src_Nsr field)))"

definition nsr_address_of :: "address_dto option \<Rightarrow> nsr_address" where
  "nsr_address_of a =
     (case a of
        None \<Rightarrow> \<lparr>na_street = None, na_postcode = None, na_post_town = None\<rparr>
      | Some a \<Rightarrow> \<lparr>na_street = non_empty (ad_street a), na_postcode = non_empty (ad_postcode a),
                   na_post_town = non_empty (ad_town a)\<rparr>)"

definition list_items :: "(str \<Rightarrow> 't option) \<Rightarrow> list_item_dto list \<Rightarrow> 't nsr_list_item list source_result" where
  "list_items parse = collect_results (\<lambda>u.
     and_then (nsr_timestamp parse (dto_changed u) ''DatoEndret'') (\<lambda>changed.
       Inr \<lparr>li_orgnr = dto_orgnr u, li_name = dto_name u, li_municipality_number = dto_municipality_number u,
            li_is_active = dto_is_active u, li_is_school = dto_is_school u,
            li_is_primary_school = dto_is_primary_school u, li_changed_at = changed\<rparr>))"

definition decoded :: "source \<Rightarrow> (decode_error, 'a) result \<Rightarrow> 'a source_result" where
  "decoded s r = (case r of Inl e \<Rightarrow> Inl (source_parse_error s e) | Inr a \<Rightarrow> Inr a)"

definition parse_list_page ::
  "(str \<Rightarrow> 't option) \<Rightarrow> (decode_error, list_dto) result \<Rightarrow> 't nsr_list_page source_result" where
  "parse_list_page parse dto =
     and_then (decoded Src_Nsr dto) (\<lambda>d.
     and_then (list_items parse (ld_units d)) (\<lambda>units.
       Inr \<lparr>lp_page = unwrap_or (ld_page d) 1, lp_page_count = unwrap_or (ld_page_count d) 1,
            lp_total = unwrap_or (ld_total d) (length units mod 2 ^ 32), lp_units = units\<rparr>))"

definition parse_paged_list_page ::
  "(str \<Rightarrow> 't option) \<Rightarrow> (decode_error, paged_list_dto) result \<Rightarrow> 't nsr_list_page source_result" where
  "parse_paged_list_page parse dto =
     and_then (decoded Src_Nsr dto) (\<lambda>d.
     and_then (list_items parse (pd_units d)) (\<lambda>units.
       Inr \<lparr>lp_page = pd_page d, lp_page_count = pd_page_count d, lp_total = pd_total d, lp_units = units\<rparr>))"

definition nsr_language :: "str option \<Rightarrow> str option" where
  "nsr_language form =
     (if form = Some (lit ''B'') then Some (lit ''nb'') else if form = Some (lit ''N'') then Some (lit ''nn'') else None)"

definition parse_unit :: "(str \<Rightarrow> 't option) \<Rightarrow> (decode_error, unit_dto) result \<Rightarrow> 't nsr_unit source_result" where
  "parse_unit parse dto =
     and_then (decoded Src_Nsr dto) (\<lambda>d.
     and_then (case ud_closure d of
         Some code \<Rightarrow> if code \<noteq> lit ''A''
           then and_then (nsr_timestamp parse (ud_closed_at d) ''UtgaattDato'') (\<lambda>t. Inr (Some \<lparr>cl_code = code, cl_at = t\<rparr>))
           else Inr None
       | None \<Rightarrow> Inr None) (\<lambda>closure.
     and_then (nsr_timestamp parse (ud_changed d) ''DatoEndret'') (\<lambda>changed.
       Inr \<lparr>u_orgnr = ud_orgnr d, u_name = ud_name d, u_municipality_number = ud_municipality_number d,
            u_is_school = ud_is_school d, u_is_active = ud_is_active d, u_is_primary_school = ud_is_primary_school d,
            u_is_private = ud_is_private d, u_category_ids = ud_categories d, u_nace = ud_nace d,
            u_grade_from = ud_grade_from d, u_grade_to = ud_grade_to d, u_language = nsr_language (ud_language d),
            u_website = non_empty (ud_website d), u_visiting = nsr_address_of (ud_visiting d),
            u_postal = nsr_address_of (ud_postal d), u_closure = closure, u_changed_at = changed\<rparr>)))"

section \<open>Kartverket\<close>

record name_dto =
  nd_name :: "str option"
  nd_priority :: nat
  nd_language :: "str option"

record municipality_dto =
  md_number :: str
  md_name :: str
  md_norwegian :: str
  md_names :: "name_dto list"

record county_dto =
  cd_number :: str
  cd_name :: str
  cd_municipalities :: "municipality_dto list"

definition kartverket_language :: "str \<Rightarrow> str option" where
  "kartverket_language s = map_of
     [(lit ''Norwegian'', lit ''no''), (lit ''Northern Sami'', lit ''se''), (lit ''Southern Sami'', lit ''sma''),
      (lit ''Lule Sami'', lit ''smj''), (lit ''Kven Finnish'', lit ''fkv'')] s"

text \<open>Both null is padding and skipped, one null is an error.\<close>

fun official_names :: "name_dto list \<Rightarrow> official_name list source_result" where
  "official_names [] = Inr []"
| "official_names (n # ns) =
     (case (nd_name n, nd_language n) of
        (None, None) \<Rightarrow> official_names ns
      | (Some name, Some sprak) \<Rightarrow>
          and_then (ok_or (unexpected Src_Kartverket ''sprak'') (kartverket_language sprak)) (\<lambda>l.
          and_then (official_names ns) (\<lambda>rest.
            Inr (\<lparr>on_name = name, on_language = l, on_priority = nd_priority n\<rparr> # rest)))
      | _ \<Rightarrow> Inl (unexpected Src_Kartverket ''gyldigeNavn''))"

definition municipality_record_of :: "county_dto \<Rightarrow> municipality_dto \<Rightarrow> municipality_record source_result" where
  "municipality_record_of c m =
     and_then (official_names (md_names m)) (\<lambda>names.
       Inr \<lparr>mr_number = md_number m, mr_norwegian_name = md_norwegian m, mr_official_name = md_name m,
            mr_county_number = cd_number c, mr_county_name = cd_name c, mr_names = sort_key on_priority names\<rparr>)"

definition parse_municipalities :: "(decode_error, county_dto list) result \<Rightarrow> municipality_record list source_result" where
  "parse_municipalities dto =
     and_then (decoded Src_Kartverket dto) (\<lambda>counties.
       collect_results (\<lambda>(c, m). municipality_record_of c m)
         (concat (map (\<lambda>c. map (Pair c) (cd_municipalities c)) counties)))"

section \<open>SSB\<close>

record change_dto =
  cg_old_code :: str
  cg_old_name :: str
  cg_new_code :: str
  cg_new_name :: str
  cg_occurred :: str

definition parse_changes :: "(str \<Rightarrow> 'd option) \<Rightarrow> (decode_error, change_dto list) result \<Rightarrow> 'd code_change list source_result" where
  "parse_changes parse dto =
     and_then (decoded Src_Ssb dto) (collect_results (\<lambda>c.
       and_then (ok_or (unexpected Src_Ssb ''changeOccurred'') (parse (cg_occurred c))) (\<lambda>d.
         Inr \<lparr>old_code = cg_old_code c, old_name = cg_old_name c, new_code = cg_new_code c, new_name = cg_new_name c,
              occurred_on = d\<rparr>)))"

section \<open>Brreg\<close>

record brreg_address =
  ba_lines :: "str list"
  ba_postcode :: "str option"

record brreg_fau =
  bf_orgnr :: str
  bf_registered_name :: str
  bf_organisation_form :: str
  bf_municipality_number :: "str option"
  bf_business_address :: brreg_address
  bf_postal_address :: brreg_address

record brreg_address_dto =
  bd_lines :: "str option list option"
  bd_postcode :: "str option"
  bd_municipality_number :: "str option"

record brreg_unit_dto =
  bu_orgnr :: str
  bu_name :: str
  bu_form :: str
  bu_business :: "brreg_address_dto option"
  bu_postal :: "brreg_address_dto option"

definition not_blank :: "str \<Rightarrow> bool" where
  "not_blank s \<longleftrightarrow> trim s \<noteq> []"

definition brreg_address_of :: "brreg_address_dto option \<Rightarrow> brreg_address" where
  "brreg_address_of a =
     (case a of
        None \<Rightarrow> \<lparr>ba_lines = [], ba_postcode = None\<rparr>
      | Some a \<Rightarrow> \<lparr>ba_lines = filter (\<lambda>l. l \<noteq> []) (map trim (List.map_filter (\<lambda>l. l) (unwrap_or (bd_lines a) []))),
                   ba_postcode = opt_filter not_blank (bd_postcode a)\<rparr>)"

definition brreg_fau_of :: "brreg_unit_dto \<Rightarrow> brreg_fau" where
  "brreg_fau_of u =
     \<lparr>bf_orgnr = bu_orgnr u, bf_registered_name = bu_name u, bf_organisation_form = bu_form u,
      bf_municipality_number = opt_filter not_blank (Option.bind (bu_business u) bd_municipality_number),
      bf_business_address = brreg_address_of (bu_business u), bf_postal_address = brreg_address_of (bu_postal u)\<rparr>"

definition is_fau_unit :: "ucd \<Rightarrow> brreg_unit_dto \<Rightarrow> bool" where
  "is_fau_unit u b \<longleftrightarrow> bu_form b = lit ''FLI'' \<and> is_fau_name u (bu_name b)"

text \<open>The stream of units, each decoded or the error that ends it: the entities \<open>f\<close> was called with, and
  the counts or the error.\<close>

record brreg_stats =
  st_units_seen :: nat
  st_faus :: nat

fun for_each_fau ::
  "ucd \<Rightarrow> (decode_error, brreg_unit_dto) result list \<Rightarrow> brreg_stats \<Rightarrow> brreg_fau list
     \<Rightarrow> brreg_fau list \<times> brreg_stats source_result" where
  "for_each_fau u [] st seen = (seen, Inr st)"
| "for_each_fau u (Inl e # rest) st seen = (seen, Inl (source_parse_error Src_Brreg e))"
| "for_each_fau u (Inr b # rest) st seen =
     (let st = st\<lparr>st_units_seen := st_units_seen st + 1\<rparr>
      in if is_fau_unit u b
         then for_each_fau u rest (st\<lparr>st_faus := st_faus st + 1\<rparr>) (seen @ [brreg_fau_of b])
         else for_each_fau u rest st seen)"

section \<open>The client\<close>

fun retryable :: "source_error_kind \<Rightarrow> bool" where
  "retryable (K_Status status) \<longleftrightarrow> 500 \<le> status \<and> status < 600"
| "retryable K_Transport \<longleftrightarrow> True"
| "retryable _ \<longleftrightarrow> False"

text \<open>What the transport gives back: nothing, or a status and a body read whole or not.\<close>

datatype response = No_Response | Response nat "bytes option"

fun get_once :: "source \<Rightarrow> response \<Rightarrow> bytes source_result" where
  "get_once s No_Response = Inl (source_error_new s K_Transport)"
| "get_once s (Response status body) =
     (if \<not> (200 \<le> status \<and> status < 300) then Inl (source_error_new s (K_Status status))
      else ok_or (source_error_new s K_Transport) body)"

text \<open>\<open>answers n\<close> is the transport's answer to the attempt \<open>n\<close>. The result is given with the number of
  attempts made.\<close>

fun client_get :: "source \<Rightarrow> (nat \<Rightarrow> response) \<Rightarrow> 'delay list \<Rightarrow> nat \<Rightarrow> bytes source_result \<times> nat" where
  "client_get s answers delays n =
     (case get_once s (answers n) of
        Inr body \<Rightarrow> (Inr body, Suc n)
      | Inl e \<Rightarrow>
          if retryable (se_kind e) then
            (case delays of d # ds \<Rightarrow> client_get s answers ds (Suc n) | [] \<Rightarrow> (Inl e, Suc n))
          else (Inl e, Suc n))"

definition nsr_max_pages :: nat where
  "nsr_max_pages = 100"

definition incomplete :: source_error where
  "incomplete = source_error_new Src_Nsr K_Incomplete_Paging"

definition finished_paging :: "'t nsr_list_item list \<Rightarrow> nat \<Rightarrow> 't nsr_list_item list source_result" where
  "finished_paging units claimed_total = (if length units mod 2 ^ 32 \<noteq> claimed_total then Inl incomplete else Inr units)"

text \<open>\<open>seen.insert(\<dots>)\<close> keeps the first item of an orgnr.\<close>

definition take_new :: "'t nsr_list_item list \<Rightarrow> 't nsr_list_item list \<Rightarrow> 't nsr_list_item list" where
  "take_new = foldl (\<lambda>units item. if li_orgnr item \<in> li_orgnr ` set units then units else units @ [item])"

text \<open>The loop over the pages; \<open>claimed\<close> is the page count and the total of the first page.\<close>

fun nsr_pages ::
  "(nat \<Rightarrow> 't nsr_list_page source_result) \<Rightarrow> nat list \<Rightarrow> (nat \<times> nat) option \<Rightarrow> 't nsr_list_item list
     \<Rightarrow> 't nsr_list_item list source_result" where
  "nsr_pages get [] claimed units = Inl (source_error_new Src_Nsr K_Too_Many_Pages)"
| "nsr_pages get (page # pages) claimed units =
     and_then (get page) (\<lambda>p.
     let (page_count, claimed_total) = unwrap_or claimed (lp_page_count p, lp_total p)
     in if lp_units p = [] then (if page < page_count then Inl incomplete else finished_paging units claimed_total)
        else
          let units = take_new units (lp_units p)
          in if page_count \<le> page then finished_paging units claimed_total else nsr_pages get pages (Some (page_count, claimed_total)) units)"

text \<open>What the client asks for; the base addresses are its configuration.\<close>

datatype 'd request =
  Nsr_Page nat | Nsr_In_Municipality str | Nsr_Detail str | Counties | Code_Changes 'd 'd

text \<open>The world as the client meets it: the answer to each attempt of a request, and the decoders of
  \<open>serde_json\<close> and \<open>jiff\<close>.\<close>

record ('t, 'd) source_world =
  sw_answers :: "'d request \<Rightarrow> nat \<Rightarrow> response"
  sw_list :: "bytes \<Rightarrow> (decode_error, list_dto) result"
  sw_paged_list :: "bytes \<Rightarrow> (decode_error, paged_list_dto) result"
  sw_unit :: "bytes \<Rightarrow> (decode_error, unit_dto) result"
  sw_counties :: "bytes \<Rightarrow> (decode_error, county_dto list) result"
  sw_changes :: "bytes \<Rightarrow> (decode_error, change_dto list) result"
  sw_timestamp :: "str \<Rightarrow> 't option"
  sw_date :: "str \<Rightarrow> 'd option"

text \<open>\<open>DEFAULT_RETRY_DELAYS\<close>, in milliseconds; a test's replacement has two of them as well.\<close>

definition default_retry_delays :: "nat list" where
  "default_retry_delays = [1000, 4000]"

definition fetch_body :: "('t, 'd) source_world \<Rightarrow> source \<Rightarrow> 'd request \<Rightarrow> bytes source_result" where
  "fetch_body W s r = fst (client_get s (sw_answers W r) default_retry_delays 0)"

definition nsr_page :: "('t, 'd) source_world \<Rightarrow> nat \<Rightarrow> 't nsr_list_page source_result" where
  "nsr_page W page =
     and_then (fetch_body W Src_Nsr (Nsr_Page page)) (\<lambda>body. parse_paged_list_page (sw_timestamp W) (sw_paged_list W body))"

definition nsr_all_units :: "('t, 'd) source_world \<Rightarrow> 't nsr_list_item list source_result" where
  "nsr_all_units W = nsr_pages (nsr_page W) [1..<Suc nsr_max_pages] None []"

definition nsr_units_in :: "('t, 'd) source_world \<Rightarrow> str \<Rightarrow> 't nsr_list_item list source_result" where
  "nsr_units_in W number =
     and_then (fetch_body W Src_Nsr (Nsr_In_Municipality number)) (\<lambda>body.
     and_then (parse_list_page (sw_timestamp W) (sw_list W body)) (\<lambda>page. Inr (lp_units page)))"

definition nsr_unit_with_payload :: "('t, 'd) source_world \<Rightarrow> str \<Rightarrow> ('t nsr_unit \<times> bytes) source_result" where
  "nsr_unit_with_payload W orgnr =
     and_then (fetch_body W Src_Nsr (Nsr_Detail orgnr)) (\<lambda>body.
     and_then (parse_unit (sw_timestamp W) (sw_unit W body)) (\<lambda>u. Inr (u, body)))"

definition nsr_unit :: "('t, 'd) source_world \<Rightarrow> str \<Rightarrow> 't nsr_unit source_result" where
  "nsr_unit W orgnr = and_then (nsr_unit_with_payload W orgnr) (\<lambda>(u, body). Inr u)"

definition client_municipalities :: "('t, 'd) source_world \<Rightarrow> municipality_record list source_result" where
  "client_municipalities W =
     and_then (fetch_body W Src_Kartverket Counties) (\<lambda>body. parse_municipalities (sw_counties W body))"

definition client_code_changes :: "('t, 'd) source_world \<Rightarrow> 'd \<Rightarrow> 'd \<Rightarrow> 'd code_change list source_result" where
  "client_code_changes W from until =
     and_then (fetch_body W Src_Ssb (Code_Changes from until)) (\<lambda>body. parse_changes (sw_date W) (sw_changes W body))"

section \<open>The bulk file\<close>

text \<open>The directory of the download, and what its system calls answer: whether the partial file can be
  created, each write, the flush, the rename and the removal.\<close>

type_synonym files = "str \<Rightarrow> bytes option"

record disk =
  dk_create :: bool
  dk_write :: "nat \<Rightarrow> bool"
  dk_flush :: bool
  dk_rename :: bool
  dk_remove :: bool

definition partial_path :: "str \<Rightarrow> str" where
  "partial_path name = name @ lit ''.partial''"

text \<open>A chunk is \<open>None\<close> where the transport fails. The bytes written, or the error, and the files.\<close>

fun write_chunks :: "disk \<Rightarrow> str \<Rightarrow> nat \<Rightarrow> bytes option list \<Rightarrow> nat \<Rightarrow> files \<Rightarrow> nat source_result \<times> files" where
  "write_chunks D f n [] written fs =
     (if dk_flush D then Inr written else Inl (source_error_new Src_Brreg K_Io), fs)"
| "write_chunks D f n (None # chunks) written fs = (Inl (source_error_new Src_Brreg K_Transport), fs)"
| "write_chunks D f n (Some bs # chunks) written fs =
     (if dk_write D n
      then write_chunks D f (Suc n) chunks (written + length bs) (fs(f := map_option (\<lambda>old. old @ bs) (fs f)))
      else (Inl (source_error_new Src_Brreg K_Io), fs))"

datatype download = Download_Unsent | Download nat "bytes option list"

fun download_brreg_bulk :: "disk \<Rightarrow> str \<Rightarrow> download \<Rightarrow> files \<Rightarrow> nat source_result \<times> files" where
  "download_brreg_bulk D dest Download_Unsent fs = (Inl (source_error_new Src_Brreg K_Transport), fs)"
| "download_brreg_bulk D dest (Download status chunks) fs =
     (if \<not> (200 \<le> status \<and> status < 300) then (Inl (source_error_new Src_Brreg (K_Status status)), fs)
      else
        let f = partial_path dest;
            (result, fs) = (if dk_create D then write_chunks D f 0 chunks 0 (fs(f := Some []))
                            else (Inl (source_error_new Src_Brreg K_Io), fs));
            (result, fs) = (case result of
                Inr written \<Rightarrow> if dk_rename D then (Inr written, fs(dest := fs f, f := None))
                               else (Inl (source_error_new Src_Brreg K_Io), fs)
              | Inl e \<Rightarrow> (Inl e, fs))
        in (result, case result of Inl e \<Rightarrow> if dk_remove D then fs(f := None) else fs | Inr w \<Rightarrow> fs))"

section \<open>Facts\<close>

lemma client_get_attempts: "snd (client_get s answers delays n) \<le> n + Suc (length delays)"
proof (induction s answers delays n rule: client_get.induct)
  case (1 s answers delays n)
  then show ?case
    by (subst client_get.simps) (fastforce split: sum.splits list.splits)
qed

text \<open>The pages' items are taken once each.\<close>

lemma take_new_distinct: "distinct (map li_orgnr us) \<Longrightarrow> distinct (map li_orgnr (take_new us items))"
  unfolding take_new_def by (induction items arbitrary: us) simp_all

lemma take_new_set: "li_orgnr ` set (take_new us items) = li_orgnr ` set us \<union> li_orgnr ` set items"
  unfolding take_new_def by (induction items arbitrary: us) auto

lemma nsr_pages_result:
  assumes "nsr_pages get pages claimed us = Inr out" "distinct (map li_orgnr us)" "sorted_wrt (<) pages"
  shows "distinct (map li_orgnr out)
    \<and> (\<exists>p page_count claimed_total. unwrap_or claimed (lp_page_count p, lp_total p) = (page_count, claimed_total)
         \<and> length out mod 2 ^ 32 = claimed_total
         \<and> (claimed = None \<longrightarrow> (\<exists>q. pages = q # tl pages \<and> get q = Inr p)))"
  using assms
proof (induction get pages claimed us rule: nsr_pages.induct)
  case (2 get page pages claimed us)
  from "2.prems"(1) obtain p where p: "get page = Inr p" by auto
  obtain c t where ct: "unwrap_or claimed (lp_page_count p, lp_total p) = (c, t)" by fastforce
  show ?case
  proof (cases "lp_units p = [] \<or> c \<le> page")
    case True
    with "2.prems" p ct have "finished_paging (take_new us (lp_units p)) t = Inr out"
      by (auto simp: take_new_def split: if_splits)
    with ct p "2.prems"(2) take_new_distinct show ?thesis
      by (fastforce simp: finished_paging_def split: if_splits)
  next
    case False
    with "2.prems" p ct have go: "nsr_pages get pages (Some (c, t)) (take_new us (lp_units p)) = Inr out" by auto
    from False ct "2.prems"(2,3) p
    have "distinct (map li_orgnr out) \<and> length out mod 2 ^ 32 = t"
      using "2.IH" [OF p ct [symmetric] refl _ refl _ go] take_new_distinct [OF "2.prems"(2)] by (auto simp: unwrap_or_def)
    with ct p show ?thesis by auto
  qed
qed simp

end
