(* ===== verification/Register_Fetch.thy ===== *)
theory Register_Fetch
  imports Source_Clients Register_Load
begin

text \<open>
  \<open>app/src/register/fetch.rs\<close>: what a run reads from the sources. The pool of workers is a step relation over
  the queue and the failed flag they share; \<open>details\<close> runs it under a schedule, a list of the workers in the
  order they take their steps.
\<close>

section \<open>The worker pool\<close>

definition details_in_parallel :: nat where
  "details_in_parallel = 4"

datatype fetch_error = Fetch_Source source_error | Fetch_Worker_Panicked

text \<open>How a detail request ends: a worker's panic is a parameter.\<close>

datatype 't answer = Answered "'t nsr_unit \<times> bytes" | Answer_Failed source_error | Answer_Panicked

datatype 't joined = Joined_Ok "('t nsr_unit \<times> bytes) list" | Joined_Err source_error | Joined_Panicked

text \<open>A worker is about to look at the flag, about to take from the queue, waits for an answer, or has
  returned.\<close>

datatype 't worker =
  W_Looking "('t nsr_unit \<times> bytes) list"
| W_Taking "('t nsr_unit \<times> bytes) list"
| W_Waiting "('t nsr_unit \<times> bytes) list" str
| W_Ended

record 't pool =
  po_queue :: "str list"
  po_failed :: bool
  po_workers :: "'t worker list"
  po_joined :: "'t joined list"

definition pool_start :: "str list \<Rightarrow> 't pool" where
  "pool_start orgnrs = \<lparr>po_queue = orgnrs, po_failed = False,
     po_workers = replicate details_in_parallel (W_Looking []), po_joined = []\<rparr>"

definition ends :: "nat \<Rightarrow> 't joined \<Rightarrow> 't pool \<Rightarrow> 't pool" where
  "ends w r st = st\<lparr>po_workers := (po_workers st)[w := W_Ended], po_joined := po_joined st @ [r]\<rparr>"

definition becomes :: "nat \<Rightarrow> 't worker \<Rightarrow> 't pool \<Rightarrow> 't pool" where
  "becomes w x st = st\<lparr>po_workers := (po_workers st)[w := x]\<rparr>"

text \<open>One step of a worker up to its next use of shared state; none of one that has returned.\<close>

definition worker_step :: "(str \<Rightarrow> 't answer) \<Rightarrow> nat \<Rightarrow> 't pool \<Rightarrow> 't pool" where
  "worker_step ask w st =
     (if w < length (po_workers st) then
        (case po_workers st ! w of
           W_Looking got \<Rightarrow> if po_failed st then ends w (Joined_Ok got) st else becomes w (W_Taking got) st
         | W_Taking got \<Rightarrow>
             (case po_queue st of
                [] \<Rightarrow> ends w (Joined_Ok got) st
              | orgnr # rest \<Rightarrow> becomes w (W_Waiting got orgnr) (st\<lparr>po_queue := rest\<rparr>))
         | W_Waiting got orgnr \<Rightarrow>
             (case ask orgnr of
                Answered u \<Rightarrow> becomes w (W_Looking (got @ [u])) st
              | Answer_Failed e \<Rightarrow> ends w (Joined_Err e) (st\<lparr>po_failed := True\<rparr>)
              | Answer_Panicked \<Rightarrow> ends w Joined_Panicked st)
         | W_Ended \<Rightarrow> st)
      else st)"

definition run_pool :: "(str \<Rightarrow> 't answer) \<Rightarrow> nat list \<Rightarrow> 't pool \<Rightarrow> 't pool" where
  "run_pool ask schedule st = foldl (\<lambda>st w. worker_step ask w st) st schedule"

text \<open>Rounds of every worker, enough for the queue: each unit takes three steps of its worker, and a worker
  two more to return.\<close>

definition rounds :: "nat \<Rightarrow> nat list" where
  "rounds n = concat (replicate n [0..<details_in_parallel])"

definition enough_rounds :: "str list \<Rightarrow> nat" where
  "enough_rounds orgnrs = 3 * length orgnrs + 2 * details_in_parallel"

text \<open>\<open>while let Some(joined) = workers.join_next().await\<close>: in the order the workers returned.\<close>

fun join_all ::
  "'t joined list \<Rightarrow> ('t nsr_unit \<times> bytes) list \<Rightarrow> fetch_error option
     \<Rightarrow> (fetch_error, ('t nsr_unit \<times> bytes) list) result" where
  "join_all [] got err = (case err of Some e \<Rightarrow> Inl e | None \<Rightarrow> Inr got)"
| "join_all (Joined_Ok items # rest) got err = join_all rest (got @ items) err"
| "join_all (Joined_Err e # rest) got err = join_all rest got (Some (unwrap_or err (Fetch_Source e)))"
| "join_all (Joined_Panicked # rest) got err = Inl Fetch_Worker_Panicked"

definition details ::
  "(str \<Rightarrow> 't answer) \<Rightarrow> nat list \<Rightarrow> str list \<Rightarrow> (fetch_error, ('t nsr_unit \<times> bytes) list) result" where
  "details ask schedule orgnrs =
     and_then (join_all (po_joined (run_pool ask (schedule @ rounds (enough_rounds orgnrs)) (pool_start orgnrs))) [] None)
       (\<lambda>got. Inr (sort_key (\<lambda>u. u_orgnr (fst u)) got))"

section \<open>A run's fetch\<close>

record ('t, 'd) fetched =
  fe_municipalities :: "municipality_record list"
  fe_code_changes :: "'d code_change list"
  fe_units :: "('t nsr_unit \<times> bytes) list"
  fe_absent :: nat

text \<open>The numbers to ask for, a \<open>BTreeSet\<close>, and the count of those the list no longer has.\<close>

definition open_orgnrs :: "uuid register_snapshot \<Rightarrow> str list" where
  "open_orgnrs snapshot = present (map s_orgnr (filter (\<lambda>s. s_status s \<noteq> School_Closed) (schools snapshot)))"

definition wanted_orgnrs :: "'t nsr_list_item list \<Rightarrow> uuid register_snapshot \<Rightarrow> str list" where
  "wanted_orgnrs items snapshot =
     sort (remdups (map li_orgnr (filter (\<lambda>i. li_is_active i \<and> li_is_primary_school i) items)
       @ filter (\<lambda>n. n \<in> li_orgnr ` set items) (open_orgnrs snapshot)))"

definition absent_from_list :: "'t nsr_list_item list \<Rightarrow> uuid register_snapshot \<Rightarrow> nat" where
  "absent_from_list items snapshot = length (filter (\<lambda>n. n \<notin> li_orgnr ` set items) (open_orgnrs snapshot))"

definition ask_world :: "('t, 'd) source_world \<Rightarrow> (str \<Rightarrow> bool) \<Rightarrow> str \<Rightarrow> 't answer" where
  "ask_world W panics orgnr =
     (if panics orgnr then Answer_Panicked
      else case nsr_unit_with_payload W orgnr of Inl e \<Rightarrow> Answer_Failed e | Inr u \<Rightarrow> Answered u)"

definition from_source :: "'a source_result \<Rightarrow> (fetch_error, 'a) result" where
  "from_source r = (case r of Inl e \<Rightarrow> Inl (Fetch_Source e) | Inr a \<Rightarrow> Inr a)"

definition fetch ::
  "('t, 'd) source_world \<Rightarrow> (str \<Rightarrow> bool) \<Rightarrow> nat list \<Rightarrow> uuid register_snapshot \<Rightarrow> run_kind \<Rightarrow> 'd option \<Rightarrow> 'd
     \<Rightarrow> (fetch_error, ('t, 'd) fetched) result" where
  "fetch W panics schedule snapshot k ssb_from today =
     and_then (from_source (client_municipalities W)) (\<lambda>ms.
     and_then (case (k, ssb_from) of
         (Sync, Some from) \<Rightarrow> from_source (client_code_changes W from today)
       | _ \<Rightarrow> Inr []) (\<lambda>changes.
     and_then (from_source (nsr_all_units W)) (\<lambda>items.
     and_then (details (ask_world W panics) schedule (wanted_orgnrs items snapshot)) (\<lambda>units.
       Inr \<lparr>fe_municipalities = ms, fe_code_changes = changes, fe_units = units,
            fe_absent = absent_from_list items snapshot\<rparr>))))"

end
