(* ===== verification/Register_Runs.thy ===== *)
theory Register_Runs
  imports Register_Applier
begin

text \<open>
  \<open>register/runs.rs\<close> and \<open>staging.rs\<close>: the row of a run, its audit entry and the operator's mail, and the
  payloads an applied run keeps. The advisory lock is \<open>Register_Sync\<close>'s.
\<close>

section \<open>Codes and texts\<close>

definition sync_applied_action :: str where
  "sync_applied_action = lit ''register.sync_applied''"

fun kind_code :: "run_kind \<Rightarrow> string" where
  "kind_code Seed = ''seed''"
| "kind_code Sync = ''sync''"

definition count :: "string \<Rightarrow> nat \<Rightarrow> str \<times> json" where
  "count name n = (lit name, J_Count n)"

definition counts_json :: "counts \<Rightarrow> (str \<times> json) list" where
  "counts_json c =
     [count ''municipalities_created'' (n_municipalities_created c), count ''municipalities_updated'' (n_municipalities_updated c),
      count ''renumbered'' (n_renumbered c), count ''renamed'' (n_renamed c), count ''schools_created'' (n_schools_created c),
      count ''schools_renamed'' (n_schools_renamed c), count ''schools_updated'' (n_schools_updated c),
      count ''attribute_losses'' (n_attribute_losses c), count ''schools_moved'' (n_schools_moved c),
      count ''schools_closed'' (n_schools_closed c), count ''schools_held'' (n_schools_held c),
      count ''reviews'' (n_reviews c), count ''skipped'' (n_skipped c)]"

fun abort_reason_text :: "abort_reason \<Rightarrow> str" where
  "abort_reason_text (Empty_Source source) = lit ''empty_source:'' @ source"
| "abort_reason_text (Mass_Change closes renames losses active) =
     lit ''mass_change:closes='' @ show_nat closes @ lit '',renames='' @ show_nat renames
     @ lit '',attribute_losses='' @ show_nat losses @ lit '',active='' @ show_nat active"

section \<open>The run's row\<close>

definition start_run ::
  "('t, 'd) register_env \<Rightarrow> run_kind \<Rightarrow> bool \<Rightarrow> ('t, 'd) moment \<Rightarrow> ('t, 'd) register_db
     \<Rightarrow> (uuid \<times> ('t, 'd) register_db) register_result" where
  "start_run E k dry_run mt db =
     (let (i, db) = fresh_id E db
      in and_then (held_to (i \<notin> run_id ` set (rg_runs db)) (db\<lparr>rg_runs := rg_runs db @
            [\<lparr>run_id = i, run_kind = (if dry_run then Run_Dry else case k of Seed \<Rightarrow> Run_Seed | Sync \<Rightarrow> Run_Sync),
              run_started_at = m_now mt, run_finished_at = None, run_outcome = None, run_tally = J_Object [],
              run_abort_reason = None\<rparr>]\<rparr>))
          (\<lambda>db. Inr (i, db)))"

definition unfinished :: "uuid \<Rightarrow> 't run_row \<Rightarrow> bool" where
  "unfinished i r \<longleftrightarrow> run_id r = i \<and> run_finished_at r = None"

definition finish_run ::
  "uuid \<Rightarrow> run_outcome \<Rightarrow> json \<Rightarrow> str option \<Rightarrow> 't \<Rightarrow> ('t, 'd) register_db \<Rightarrow> ('t, 'd) register_db register_result" where
  "finish_run i outcome counts reason finished db =
     and_then (expect_one (length (filter (unfinished i) (rg_runs db)))) (\<lambda>_.
       Inr (db\<lparr>rg_runs := map (\<lambda>r. if unfinished i r
              then r\<lparr>run_finished_at := Some finished, run_outcome := Some outcome, run_tally := counts,
                     run_abort_reason := reason\<rparr>
              else r) (rg_runs db)\<rparr>))"

definition record_no_change :: "uuid \<Rightarrow> 't \<Rightarrow> ('t, 'd) register_db \<Rightarrow> ('t, 'd) register_db register_result" where
  "record_no_change i = finish_run i Run_No_Change (J_Object (counts_json default_counts)) None"

definition record_dry_run ::
  "uuid \<Rightarrow> counts \<Rightarrow> abort_reason option \<Rightarrow> 't \<Rightarrow> ('t, 'd) register_db \<Rightarrow> ('t, 'd) register_db register_result" where
  "record_dry_run i counts abort =
     finish_run i Run_No_Change (J_Object (counts_json counts)) (map_option abort_reason_text abort)"

definition record_failed :: "uuid \<Rightarrow> str \<Rightarrow> 't \<Rightarrow> ('t, 'd) register_db \<Rightarrow> ('t, 'd) register_db register_result" where
  "record_failed i reason = finish_run i Run_Failed (J_Object []) (Some reason)"

definition register_mail ::
  "('t, 'd) register_env \<Rightarrow> string \<Rightarrow> json \<Rightarrow> 't \<Rightarrow> ('t, 'd) register_db \<Rightarrow> ('t, 'd) register_db register_result" where
  "register_mail E template params created db =
     (let (i, db) = fresh_id E db
      in held_to (i \<notin> rml_id ` set (rg_outbox db)
           \<and> template \<in> {''signup.collision'', ''register.review_item'', ''register.seed_summary'',
               ''register.submission_approved'', ''register.sync_aborted''})
         (db\<lparr>rg_outbox := rg_outbox db @ [\<lparr>rml_id = i, rml_template = lit template, rml_recipient = lit ''fau@ewb-solutions.as'',
            rml_params = params, rml_created_at = created\<rparr>]\<rparr>))"

fun abort_params :: "abort_reason \<Rightarrow> (str \<times> json) list" where
  "abort_params (Empty_Source source) =
     [(lit ''reason'', J_Text (lit ''empty_source'')), (lit ''source'', J_Text source)]"
| "abort_params (Mass_Change closes renames losses active) =
     [(lit ''reason'', J_Text (lit ''mass_change'')), count ''closes'' closes, count ''renames'' renames,
      count ''attribute_losses'' losses, count ''active'' active]"

definition record_aborted ::
  "('t, 'd) register_env \<Rightarrow> uuid \<Rightarrow> run_kind \<Rightarrow> abort_reason \<Rightarrow> counts \<Rightarrow> 't \<Rightarrow> ('t, 'd) register_db
     \<Rightarrow> ('t, 'd) register_db register_result" where
  "record_aborted E i k reason counts finished db =
     and_then (finish_run i Run_Aborted (J_Object (counts_json counts)) (Some (abort_reason_text reason)) finished db)
       (register_mail E ''register.sync_aborted''
          (J_Object ([(lit ''run_id'', J_Text (uuid_text i)), (lit ''kind'', J_Text (lit (kind_code k)))] @ abort_params reason))
          finished)"

definition register_audit ::
  "('t, 'd) register_env \<Rightarrow> uuid \<Rightarrow> json \<Rightarrow> 't \<Rightarrow> ('t, 'd) register_db \<Rightarrow> ('t, 'd) register_db register_result" where
  "register_audit E run params occurred db =
     (let (i, db) = fresh_id E db
      in held_to (i \<notin> rau_id ` set (rg_audit db))
         (db\<lparr>rg_audit := rg_audit db @ [\<lparr>rau_id = i, rau_action = sync_applied_action, rau_subject = run,
            rau_occurred_at = occurred, rau_params = params\<rparr>]\<rparr>))"

definition record_applied ::
  "('t, 'd) register_env \<Rightarrow> uuid \<Rightarrow> run_kind \<Rightarrow> applied_counts \<Rightarrow> abort_reason option \<Rightarrow> 't \<Rightarrow> ('t, 'd) register_db
     \<Rightarrow> ('t, 'd) register_db register_result" where
  "record_applied E run k applied lifted finished db =
     (let counts = counts_json (ac_counts applied)
            @ [count ''reviews_written'' (length (ac_new_reviews applied)), count ''reviews_deduplicated'' (ac_deduplicated applied)];
          params = counts @ [(lit ''kind'', J_Text (lit (kind_code k)))]
            @ (case lifted of None \<Rightarrow> []
               | Some reason \<Rightarrow> [(lit ''mass_change_accepted'', J_Flag True), (lit ''mass_change'', J_Text (abort_reason_text reason))])
      in and_then (finish_run run Run_Applied (J_Object counts) None finished db) (\<lambda>db.
         and_then (register_audit E run (J_Object params) finished db) (\<lambda>db.
         case k of
           Seed \<Rightarrow> register_mail E ''register.seed_summary''
             (J_Object [(lit ''run_id'', J_Text (uuid_text run)), (lit ''counts'', J_Object counts)]) finished db
         | Sync \<Rightarrow> run_each (\<lambda>(review, kind). register_mail E ''register.review_item''
             (J_Object [(lit ''run_id'', J_Text (uuid_text run)), (lit ''review_item_id'', J_Text (uuid_text review)),
                (lit ''kind'', J_Text (review_kind_code kind))]) finished) (ac_new_reviews applied) db)))"

text \<open>\<open>min(started_at)\<close> of the applied seeds, as a date in Oslo.\<close>

definition seed_date :: "('t::linorder, 'd) register_env \<Rightarrow> ('t, 'd) register_db \<Rightarrow> 'd option" where
  "seed_date E db =
     map_option (re_oslo E) (min_opt (map run_started_at
       (filter (\<lambda>r. run_kind r = Run_Seed \<and> run_outcome r = Some Run_Applied) (rg_runs db))))"

section \<open>Staged payloads\<close>

text \<open>\<open>std::str::from_utf8\<close>: one scalar value of well-formed UTF-8, and what follows it.\<close>

fun utf8_next :: "bytes \<Rightarrow> (nat \<times> bytes) option" where
  "utf8_next [] = None"
| "utf8_next (b # bs) =
     (let cont = (\<lambda>c. 128 \<le> c \<and> c < 192)
      in if b < 128 then Some (b, bs)
         else if 194 \<le> b \<and> b < 224 then
           (case bs of c # r \<Rightarrow> if cont c then Some ((b - 192) * 64 + (c - 128), r) else None | _ \<Rightarrow> None)
         else if 224 \<le> b \<and> b < 240 then
           (case bs of c # d # r \<Rightarrow>
              if cont c \<and> cont d \<and> (b = 224 \<longrightarrow> 160 \<le> c) \<and> (b = 237 \<longrightarrow> c < 160)
              then Some ((b - 224) * 4096 + (c - 128) * 64 + (d - 128), r) else None
            | _ \<Rightarrow> None)
         else if 240 \<le> b \<and> b < 245 then
           (case bs of c # d # e # r \<Rightarrow>
              if cont c \<and> cont d \<and> cont e \<and> (b = 240 \<longrightarrow> 144 \<le> c) \<and> (b = 244 \<longrightarrow> c < 144)
              then Some ((b - 240) * 262144 + (c - 128) * 4096 + (d - 128) * 64 + (e - 128), r) else None
            | _ \<Rightarrow> None)
         else None)"

lemma utf8_next_shorter: "utf8_next bs = Some (c, rest) \<Longrightarrow> length rest < length bs"
  by (induction bs rule: utf8_next.induct) (auto simp: Let_def split: if_splits list.splits)

function from_utf8 :: "bytes \<Rightarrow> str option" where
  "from_utf8 bs =
     (if bs = [] then Some []
      else case utf8_next bs of None \<Rightarrow> None | Some (c, rest) \<Rightarrow> map_option ((#) c) (from_utf8 rest))"
  by pat_completeness auto

termination from_utf8
  by (relation "measure length") (auto dest: utf8_next_shorter)

declare from_utf8.simps [simp del]

record 't nsr_payload =
  pay_orgnr :: str
  pay_body :: bytes
  pay_changed_at :: "'t option"
  pay_scope :: scope_decision

definition nsr_payload :: "'t nsr_unit \<Rightarrow> bytes \<Rightarrow> 't nsr_payload" where
  "nsr_payload u body =
     \<lparr>pay_orgnr = u_orgnr u, pay_body = body, pay_changed_at = u_changed_at u, pay_scope = classify (scope_facts u)\<rparr>"

definition hex_text :: "bytes \<Rightarrow> str" where
  "hex_text bs = concat (map (hex_digits 2) bs)"

definition sha256_text_ok :: "str \<Rightarrow> bool" where
  "sha256_text_ok s \<longleftrightarrow> length s = 64 \<and> list_all (\<lambda>c. is_ascii_digit c \<or> (97 \<le> c \<and> c \<le> 102)) s"

text \<open>\<open>insert \<dots> on conflict do update\<close>.\<close>

definition upsert_record :: "'t source_record_row \<Rightarrow> 't source_record_row list \<Rightarrow> 't source_record_row list" where
  "upsert_record r rows =
     (if src_external_id r \<in> src_external_id ` set rows
      then map (\<lambda>q. if src_external_id q = src_external_id r then r else q) rows
      else rows @ [r])"

definition stage_payload ::
  "('t, 'd) register_env \<Rightarrow> ('t, 'd) moment \<Rightarrow> 't nsr_payload \<Rightarrow> ('t, 'd) register_db \<Rightarrow> ('t, 'd) register_db register_result" where
  "stage_payload E mt p db =
     and_then (ok_or R_Payload_Not_Utf8 (from_utf8 (pay_body p))) (\<lambda>body.
     let sha = hex_text (re_sha256 E (pay_body p))
     in held_to (re_is_json E body \<and> sha256_text_ok sha)
          (db\<lparr>rg_records := upsert_record
             \<lparr>src_external_id = pay_orgnr p, src_payload = body, src_sha256 = sha, src_changed_at = pay_changed_at p,
              src_fetched_at = m_now mt, src_scope = pay_scope p\<rparr> (rg_records db)\<rparr>))"

definition stage_payloads ::
  "('t, 'd) register_env \<Rightarrow> 't nsr_payload list \<Rightarrow> ('t, 'd) moment \<Rightarrow> ('t, 'd) register_db \<Rightarrow> ('t, 'd) register_db register_result" where
  "stage_payloads E payloads mt db =
     and_then (run_each (stage_payload E mt) payloads db) (\<lambda>db.
       put_schools (map (\<lambda>s. case sch_orgnr s of
            Some n \<Rightarrow> if n \<in> pay_orgnr ` set payloads then s\<lparr>sch_last_seen_at := Some (m_now mt)\<rparr> else s
          | None \<Rightarrow> s) (rg_schools db)) db)"

end
