(* ===== verification/Register_Report.thy ===== *)
theory Register_Report
  imports Register_Runs
begin

text \<open>
  \<open>app/src/register/render.rs\<close> and \<open>export.rs\<close>: the plan a dry run prints, and the CSV of the schools.
  A date's text is \<open>jiff\<close>'s, a parameter.
\<close>

section \<open>The plan as JSON\<close>

definition text_member :: "string \<Rightarrow> str \<Rightarrow> str \<times> json" where
  "text_member key v = (lit key, J_Text v)"

definition opt_text :: "str option \<Rightarrow> json" where
  "opt_text v = (case v of None \<Rightarrow> J_Null | Some s \<Rightarrow> J_Text s)"

fun reference :: "uuid ref \<Rightarrow> json" where
  "reference (Existing i) = J_Text (uuid_text i)"
| "reference (New n) = J_Text (lit ''new:'' @ show_nat n)"

definition opt_reference :: "uuid ref option \<Rightarrow> json" where
  "opt_reference r = (case r of None \<Rightarrow> J_Null | Some r \<Rightarrow> reference r)"

definition slug_change_json :: "slug_change option \<Rightarrow> json \<times> json" where
  "slug_change_json c = (case c of Some c \<Rightarrow> (opt_text (sc_old c), J_Text (sc_new c)) | None \<Rightarrow> (J_Null, J_Null))"

fun municipality_op_json :: "('d \<Rightarrow> str) \<Rightarrow> (uuid, 'd) municipality_op \<Rightarrow> json" where
  "municipality_op_json show_day (Municipality_Create n number name official_name county_number county_name slug names source) =
     J_Object [text_member ''op'' (lit ''create_municipality''), (lit ''new'', reference (New n)), text_member ''number'' number,
       text_member ''name'' name, text_member ''slug'' slug, text_member ''source'' (municipality_source_code source)]"
| "municipality_op_json show_day (Renumber i from to valid_from name old_slug new_slug) =
     J_Object [text_member ''op'' (lit ''renumber_municipality''), text_member ''municipality'' (uuid_text i),
       text_member ''from'' from, text_member ''to'' to, text_member ''valid_from'' (show_day valid_from),
       (lit ''name'', opt_text name), text_member ''old_slug'' old_slug, text_member ''new_slug'' new_slug]"
| "municipality_op_json show_day (Municipality_Rename i name old_slug new_slug) =
     J_Object [text_member ''op'' (lit ''rename_municipality''), text_member ''municipality'' (uuid_text i),
       text_member ''name'' name, text_member ''old_slug'' old_slug, text_member ''new_slug'' new_slug]"
| "municipality_op_json show_day (Update_Details i official_name county_number county_name names) =
     J_Object [text_member ''op'' (lit ''update_municipality''), text_member ''municipality'' (uuid_text i),
       (lit ''official_name'', opt_text official_name), text_member ''county_number'' county_number,
       text_member ''county_name'' county_name, (lit ''names'', J_Array (map (\<lambda>n. J_Text (on_name n)) names))]"

definition changed_fields :: "school_attributes \<Rightarrow> school_attributes \<Rightarrow> string list" where
  "changed_fields old new =
     (if a_ownership old \<noteq> a_ownership new then [''ownership''] else [])
     @ (if a_grade_from old \<noteq> a_grade_from new then [''grade_from''] else [])
     @ (if a_grade_to old \<noteq> a_grade_to new then [''grade_to''] else [])
     @ (if a_language old \<noteq> a_language new then [''language''] else [])
     @ (if a_website old \<noteq> a_website new then [''website''] else [])
     @ (if a_street_address old \<noteq> a_street_address new then [''street_address''] else [])
     @ (if a_postcode old \<noteq> a_postcode new then [''postcode''] else [])
     @ (if a_post_town old \<noteq> a_post_town new then [''post_town''] else [])"

definition no_attributes :: school_attributes where
  "no_attributes = \<lparr>a_ownership = None, a_grade_from = None, a_grade_to = None, a_language = None, a_website = None,
     a_street_address = None, a_postcode = None, a_post_town = None\<rparr>"

fun school_op_json :: "('d \<Rightarrow> str) \<Rightarrow> uuid register_snapshot \<Rightarrow> (uuid, 't, 'd) school_op \<Rightarrow> json" where
  "school_op_json show_day snapshot
     (School_Create n municipality orgnr register_name display_name slug v in_scope attributes changed_at) =
     J_Object [text_member ''op'' (lit ''create_school''), (lit ''new'', reference (New n)),
       (lit ''municipality'', reference municipality), text_member ''orgnr'' orgnr,
       text_member ''register_name'' register_name, text_member ''display_name'' display_name,
       (lit ''slug'', opt_text slug), text_member ''verification'' (create_verification_code v)]"
| "school_op_json show_day snapshot (School_Rename i register_name display_name slug) =
     (let (old_slug, new_slug) = slug_change_json slug
      in J_Object [text_member ''op'' (lit ''rename_school''), text_member ''school'' (uuid_text i),
           text_member ''register_name'' register_name, (lit ''display_name'', opt_text display_name),
           (lit ''old_slug'', old_slug), (lit ''new_slug'', new_slug)])"
| "school_op_json show_day snapshot (Update_Attributes i attributes) =
     (let old = (case List.find (\<lambda>s. s_id s = i) (schools snapshot) of Some s \<Rightarrow> s_attributes s | None \<Rightarrow> no_attributes)
      in J_Object [text_member ''op'' (lit ''update_attributes''), text_member ''school'' (uuid_text i),
           (lit ''changed'', J_Array (map (\<lambda>f. J_Text (lit f)) (changed_fields old attributes)))])"
| "school_op_json show_day snapshot (Move i from to slug) =
     (let (old_slug, new_slug) = slug_change_json slug
      in J_Object [text_member ''op'' (lit ''move_school''), text_member ''school'' (uuid_text i),
           text_member ''from'' (uuid_text from), (lit ''to'', reference to),
           (lit ''old_slug'', old_slug), (lit ''new_slug'', new_slug)])"
| "school_op_json show_day snapshot (Close i reason closed_on successor) =
     J_Object [text_member ''op'' (lit ''close_school''), text_member ''school'' (uuid_text i),
       text_member ''reason'' (closure_reason_code reason), text_member ''closed_on'' (show_day closed_on),
       (lit ''successor'', opt_reference successor)]"

definition review_json :: "uuid review_item \<Rightarrow> json" where
  "review_json item =
     J_Object [text_member ''kind'' (review_kind_code (ri_kind item)), (lit ''school'', opt_reference (ri_school item)),
       (lit ''other_school'', opt_reference (ri_other_school item)), (lit ''municipality'', opt_reference (ri_municipality item)),
       (lit ''details'', J_Object (map (\<lambda>(k, v). (k, J_Text v)) (ri_details item)))]"

definition ops_json :: "('d \<Rightarrow> str) \<Rightarrow> uuid register_snapshot \<Rightarrow> (uuid, 't, 'd) sync_plan \<Rightarrow> (str \<times> json) list" where
  "ops_json show_day snapshot pln =
     [(lit ''municipality_ops'', J_Array (map (municipality_op_json show_day) (p_municipality_ops pln))),
      (lit ''school_ops'', J_Array (map (school_op_json show_day snapshot) (p_school_ops pln))),
      (lit ''reviews'', J_Array (map review_json (p_reviews pln)))]"

fun plan_json ::
  "('d \<Rightarrow> str) \<Rightarrow> run_kind \<Rightarrow> (uuid, 't, 'd) sync_outcome \<Rightarrow> uuid register_snapshot \<Rightarrow> (uuid, 't, 'd) sync_plan option
     \<Rightarrow> abort_reason option \<Rightarrow> json" where
  "plan_json show_day k No_Change snapshot stopped lifted =
     J_Object [text_member ''kind'' (lit (kind_code k)), text_member ''outcome'' (lit ''no_change'')]"
| "plan_json show_day k (Abort reason counts) snapshot stopped lifted =
     J_Object ([text_member ''kind'' (lit (kind_code k)), text_member ''outcome'' (lit ''abort''),
         text_member ''abort_reason'' (abort_reason_text reason), (lit ''counts'', J_Object (counts_json counts))]
       @ (case stopped of Some pln \<Rightarrow> ops_json show_day snapshot pln | None \<Rightarrow> []))"
| "plan_json show_day k (Apply pln) snapshot stopped lifted =
     J_Object ([text_member ''kind'' (lit (kind_code k)), text_member ''outcome'' (lit ''apply''),
         (lit ''counts'', J_Object (counts_json (p_counts pln)))]
       @ (case lifted of
            Some reason \<Rightarrow> [(lit ''mass_change_accepted'', J_Flag True), text_member ''abort_reason'' (abort_reason_text reason)]
          | None \<Rightarrow> [])
       @ ops_json show_day snapshot pln)"

section \<open>The schools as CSV\<close>

definition csv_header :: str where
  "csv_header = lit ''school_id,orgnr,municipality_number,display_name,path,fau_orgnr''"

text \<open>\<open>=\<close>, \<open>+\<close>, \<open>@\<close>, a tab or a carriage return.\<close>

definition formula_starts :: "nat list" where
  "formula_starts = [61, 43, 64, 9, 13]"

definition defused :: "str \<Rightarrow> str" where
  "defused v = (case v of c # _ \<Rightarrow> if c \<in> set formula_starts then 39 # v else v | [] \<Rightarrow> [])"

definition quoted :: "str \<Rightarrow> str" where
  "quoted v = 34 # concat (map (\<lambda>c. if c = 34 then [34, 34] else [c]) v) @ [34]"

definition csv_field :: "str \<Rightarrow> str" where
  "csv_field v =
     (let v = defused v
      in if list_ex (\<lambda>c. c \<in> {44, 34, 10, 13}) v then quoted v else v)"

definition csv_line :: "export_row \<Rightarrow> str" where
  "csv_line r =
     join [44] [uuid_text (ex_school r), csv_field (unwrap_or (ex_orgnr r) []), csv_field (ex_number r),
       csv_field (ex_display_name r), csv_field (ex_path r), csv_field (unwrap_or (ex_fau r) [])] @ [10]"

definition csv :: "export_row list \<Rightarrow> str" where
  "csv rows = csv_header @ [10] @ concat (map csv_line rows)"

section \<open>A reader of such files\<close>

text \<open>RFC 4180 with LF line ends: records of fields, a quoted field ends at the first quote that is not
  doubled.\<close>

datatype reading = Field_Start | In_Plain | In_Quoted | After_Quote

fun read_csv :: "reading \<Rightarrow> str \<Rightarrow> str list \<Rightarrow> str \<Rightarrow> str list list option" where
  "read_csv Field_Start f fs [] = (if fs = [] then Some [] else None)"
| "read_csv In_Plain f fs [] = None"
| "read_csv In_Quoted f fs [] = None"
| "read_csv After_Quote f fs [] = None"
| "read_csv In_Quoted f fs (c # cs) =
     (if c = 34 then read_csv After_Quote f fs cs else read_csv In_Quoted (f @ [c]) fs cs)"
| "read_csv After_Quote f fs (c # cs) =
     (if c = 34 then read_csv In_Quoted (f @ [c]) fs cs
      else if c = 44 then read_csv Field_Start [] (fs @ [f]) cs
      else if c = 10 then map_option ((#) (fs @ [f])) (read_csv Field_Start [] [] cs)
      else None)"
| "read_csv Field_Start f fs (c # cs) =
     (if c = 34 then read_csv In_Quoted [] fs cs
      else if c = 44 then read_csv Field_Start [] (fs @ [[]]) cs
      else if c = 10 then map_option ((#) (fs @ [[]])) (read_csv Field_Start [] [] cs)
      else read_csv In_Plain [c] fs cs)"
| "read_csv In_Plain f fs (c # cs) =
     (if c = 44 then read_csv Field_Start [] (fs @ [f]) cs
      else if c = 10 then map_option ((#) (fs @ [f])) (read_csv Field_Start [] [] cs)
      else read_csv In_Plain (f @ [c]) fs cs)"

definition csv_values :: "export_row \<Rightarrow> str list" where
  "csv_values r = [uuid_text (ex_school r), defused (unwrap_or (ex_orgnr r) []), defused (ex_number r),
     defused (ex_display_name r), defused (ex_path r), defused (unwrap_or (ex_fau r) [])]"

text \<open>A field and the separator after it are read back whole.\<close>

definition separator :: "nat \<Rightarrow> bool" where
  "separator c \<longleftrightarrow> c = 44 \<or> c = 10"

definition after_field :: "nat \<Rightarrow> str list \<Rightarrow> str \<Rightarrow> str list list option" where
  "after_field c fs cs =
     (if c = 44 then read_csv Field_Start [] fs cs else map_option ((#) fs) (read_csv Field_Start [] [] cs))"

lemma read_plain:
  "\<forall>c\<in>set v. c \<notin> {44, 10} \<Longrightarrow> separator s \<Longrightarrow> read_csv In_Plain f fs (v @ s # cs) = after_field s (fs @ [f @ v]) cs"
  by (induction v arbitrary: f) (auto simp: separator_def after_field_def)

lemma read_quoted:
  "separator s \<Longrightarrow> read_csv In_Quoted f fs (concat (map (\<lambda>c. if c = 34 then [34, 34] else [c]) v) @ 34 # s # cs)
     = after_field s (fs @ [f @ v]) cs"
  by (induction v arbitrary: f) (auto simp: separator_def after_field_def)

lemma read_field:
  assumes "separator s"
  shows "read_csv Field_Start [] fs (csv_field v @ s # cs) = after_field s (fs @ [defused v]) cs"
proof (cases "list_ex (\<lambda>c. c \<in> {44, 34, 10, 13}) (defused v)")
  case True
  then show ?thesis using read_quoted [OF assms, of "[]" fs "defused v" cs]
    by (simp add: csv_field_def Let_def quoted_def)
next
  case False
  then have plain: "\<forall>c\<in>set (defused v). c \<notin> {44, 34, 10}" by (auto simp: list_ex_iff)
  show ?thesis
  proof (cases "defused v")
    case Nil
    then show ?thesis using assms by (auto simp: csv_field_def Let_def separator_def after_field_def)
  next
    case (Cons c w)
    then show ?thesis using plain read_plain [OF _ assms, of w "[c]" fs cs] False
      by (simp add: csv_field_def Let_def)
  qed
qed

lemma hex_digits_plain: "c \<in> set (hex_digits k n) \<Longrightarrow> c \<in> {48..57} \<union> {97..102}"
proof (induction k arbitrary: n)
  case (Suc k)
  have "hex_digit (n mod 16) \<in> {48..57} \<union> {97..102}"
    using mod_less_divisor [of 16 n] unfolding hex_digit_def by auto
  with Suc show ?case by auto
qed simp

lemma uuid_text_chars: "c \<in> set (uuid_text u) \<Longrightarrow> c = 45 \<or> c \<in> {48..57} \<union> {97..102}"
  by (auto simp: uuid_text_def Let_def dest!: in_set_takeD in_set_dropD hex_digits_plain)

lemma read_uuid: "read_csv Field_Start [] fs (uuid_text u @ 44 # cs) = read_csv Field_Start [] (fs @ [uuid_text u]) cs"
proof -
  have "csv_field (uuid_text u) = uuid_text u \<and> defused (uuid_text u) = uuid_text u"
    using uuid_text_chars [of _ u]
    by (cases "uuid_text u") (fastforce simp: csv_field_def Let_def defused_def formula_starts_def list_ex_iff)+
  then show ?thesis using read_field [of 44 fs "uuid_text u" cs] by (simp add: separator_def after_field_def)
qed

lemma read_line:
  "read_csv Field_Start [] [] (csv_line r @ cs) = map_option ((#) (csv_values r)) (read_csv Field_Start [] [] cs)"
  by (simp add: csv_line_def csv_values_def read_uuid read_field separator_def after_field_def)

lemma read_lines: "read_csv Field_Start [] [] (concat (map csv_line rows)) = Some (map csv_values rows)"
  by (induction rows) (simp_all add: read_line)

definition csv_columns :: "str list" where
  "csv_columns = map lit [''school_id'', ''orgnr'', ''municipality_number'', ''display_name'', ''path'', ''fau_orgnr'']"

lemma csv_header_joined: "csv_header = join [44] csv_columns"
  by (simp add: csv_header_def csv_columns_def lit_def)

lemma read_words:
  assumes "list_all (\<lambda>w. w \<noteq> [] \<and> list_all (\<lambda>c. c \<notin> {44, 34, 10}) w) ws" "ws \<noteq> []"
  shows "read_csv Field_Start [] fs (join [44] ws @ 10 # cs) = map_option ((#) (fs @ ws)) (read_csv Field_Start [] [] cs)"
  using assms
proof (induction "[44::nat]" ws arbitrary: fs rule: join.induct)
  case (2 w)
  then obtain c v where "w = c # v" by (cases w) auto
  with 2 read_plain [of v 10 "[c]" fs cs] show ?case
    by (auto simp: list_all_iff separator_def after_field_def)
next
  case (3 w u ws)
  then obtain c v where w: "w = c # v" by (cases w) auto
  have "read_csv Field_Start [] fs (w @ 44 # (join [44] (u # ws) @ 10 # cs)) = read_csv Field_Start [] (fs @ [w]) (join [44] (u # ws) @ 10 # cs)"
    using 3(2) read_plain [of v 44 "[c]" fs "join [44] (u # ws) @ 10 # cs"]
    by (auto simp: w list_all_iff separator_def after_field_def)
  with 3 show ?case by simp
qed simp

lemma csv_read_back: "read_csv Field_Start [] [] (csv rows) = Some (csv_columns # map csv_values rows)"
proof -
  have "list_all (\<lambda>w. w \<noteq> [] \<and> list_all (\<lambda>c. c \<notin> {44, 34, 10}) w) csv_columns"
    by (simp add: csv_columns_def lit_def)
  moreover have "csv_columns \<noteq> []" by (simp add: csv_columns_def)
  ultimately show ?thesis
    using read_words [of csv_columns "[]" "concat (map csv_line rows)"] by (simp add: csv_def csv_header_joined read_lines)
qed

definition runs_as_formula :: "str \<Rightarrow> bool" where
  "runs_as_formula v = (case v of c # _ \<Rightarrow> c \<in> set formula_starts | [] \<Rightarrow> False)"

lemma defused_is_text: "\<not> runs_as_formula (defused v)"
  by (cases v) (auto simp: runs_as_formula_def defused_def formula_starts_def)

lemma uuid_is_text: "\<not> runs_as_formula (uuid_text u)"
  using uuid_text_chars [of _ u] by (cases "uuid_text u") (fastforce simp: runs_as_formula_def formula_starts_def)+

lemma csv_values_text: "list_all (\<lambda>v. \<not> runs_as_formula v) (csv_values r)"
  by (simp add: csv_values_def defused_is_text uuid_is_text)

end
