(* ===== verification/Register_Sync.thy ===== *)
theory Register_Sync
  imports Register_Fetch Register_Report
begin

text \<open>
  \<open>app/src/register/sync.rs\<close> and the exit codes of \<open>mod.rs\<close>: a whole run, from the lock to its exit. The
  database is its committed state. What the connection answers of its own is a fault of a phase; what other
  sessions commit between the run row and the transaction is \<open>sy_meanwhile\<close>.
\<close>

section \<open>Exits and errors\<close>

datatype exit = Exit_Done | Exit_Failed | Exit_Aborted | Exit_Locked | Exit_Refused

fun exit_code :: "exit \<Rightarrow> nat" where
  "exit_code Exit_Done = 0"
| "exit_code Exit_Failed = 1"
| "exit_code Exit_Aborted = 3"
| "exit_code Exit_Locked = 4"
| "exit_code Exit_Refused = 5"

datatype sync_error =
  Sync_Database register_error | Sync_Source source_error | Sync_Apply register_error | Sync_Worker_Panicked | Sync_No_Seed

fun sync_error_code :: "sync_error \<Rightarrow> str" where
  "sync_error_code (Sync_Database e) = (if is_timeout e then lit ''database_timeout'' else lit ''database_error'')"
| "sync_error_code (Sync_Apply e) = (if is_timeout e then lit ''database_timeout'' else lit ''apply_error'')"
| "sync_error_code (Sync_Source e) = lit ''source_error''"
| "sync_error_code Sync_Worker_Panicked = lit ''worker_panicked''"
| "sync_error_code Sync_No_Seed = lit ''no_seed''"

fun fetch_to_sync :: "fetch_error \<Rightarrow> sync_error" where
  "fetch_to_sync (Fetch_Source e) = Sync_Source e"
| "fetch_to_sync Fetch_Worker_Panicked = Sync_Worker_Panicked"

section \<open>The run's surroundings\<close>

datatype phase =
  Ph_Connect | Ph_Lock | Ph_Empty | Ph_Start | Ph_Seed_Date | Ph_Held | Ph_Begin | Ph_Snapshot | Ph_Apply
| Ph_Rollback | Ph_Record | Ph_Begin_Record | Ph_Record_Aborted | Ph_Reconnect | Ph_Record_Failed

text \<open>A commit that fails may or may not have happened.\<close>

datatype commit_answer = Committed | Commit_Failed bool register_error

record ('t, 'd) sync_env =
  sy_register :: "('t, 'd) register_env"
  sy_jiff :: "('t, 'd) jiff"
  sy_world :: "('t, 'd) source_world"
  sy_client :: "source_error option"
  sy_panics :: "str \<Rightarrow> bool"
  sy_schedule :: "nat list"
  sy_locked :: bool
  sy_fault :: "phase \<Rightarrow> register_error option"
  sy_commit :: commit_answer
  sy_meanwhile :: "('t, 'd) register_db \<Rightarrow> ('t, 'd) register_db"
  sy_now :: 't
  sy_finished :: 't

record sync_command =
  cmd_kind :: run_kind
  cmd_dry_run :: bool
  cmd_accept :: bool

definition answering :: "('t, 'd) sync_env \<Rightarrow> phase \<Rightarrow> 'a register_result \<Rightarrow> 'a register_result" where
  "answering S ph r = (case sy_fault S ph of Some e \<Rightarrow> Inl e | None \<Rightarrow> r)"

lemma answering_Inr [simp]: "answering S ph r = Inr a \<longleftrightarrow> sy_fault S ph = None \<and> r = Inr a"
  by (simp add: answering_def split: option.splits)

text \<open>How a run's work ends: with its exit, with an error, or in a panic of the planner.\<close>

datatype ended = Ended exit | Ended_Error sync_error | Ended_Panic

type_synonym ('t, 'd) run_result = "ended \<times> json list \<times> ('t, 'd) register_db"

text \<open>\<open>?\<close> on a query of the run, with the printed lines and the committed database as they are.\<close>

definition query ::
  "('t, 'd) register_db \<Rightarrow> json list \<Rightarrow> 'a register_result \<Rightarrow> ('a \<Rightarrow> ('t, 'd) run_result) \<Rightarrow> ('t, 'd) run_result" where
  "query db printed r f = (case r of Inl e \<Rightarrow> (Ended_Error (Sync_Database e), printed, db) | Inr a \<Rightarrow> f a)"

section \<open>Before the run\<close>

datatype begun = Begun_Run uuid | Begun_Refused exit

definition begin_run ::
  "('t::linorder, 'd) sync_env \<Rightarrow> run_kind \<Rightarrow> bool \<Rightarrow> ('t, 'd) moment \<Rightarrow> ('t, 'd) register_db
     \<Rightarrow> (begun \<times> ('t, 'd) register_db) register_result" where
  "begin_run S k dry_run mt db =
     and_then (answering S Ph_Lock (Inr (\<not> sy_locked S))) (\<lambda>got.
     if \<not> got then Inr (Begun_Refused Exit_Locked, db)
     else and_then (answering S Ph_Empty (Inr (register_is_empty db))) (\<lambda>is_empty.
       case (k, is_empty) of
         (Seed, False) \<Rightarrow> Inr (Begun_Refused Exit_Refused, db)
       | (Sync, True) \<Rightarrow> Inr (Begun_Refused Exit_Refused, db)
       | _ \<Rightarrow> and_then (answering S Ph_Start (start_run (sy_register S) k dry_run mt db)) (\<lambda>(run, db).
              Inr (Begun_Run run, db))))"

section \<open>The run\<close>

text \<open>The plan, and the reason of the mass change the operator accepted.\<close>

definition choose_plan ::
  "('t, 'd::linorder) sync_env \<Rightarrow> sync_command \<Rightarrow> uuid register_snapshot \<Rightarrow> ('t, 'd) sync_inputs
     \<Rightarrow> ((uuid, 't, 'd) sync_outcome \<times> abort_reason option) option" where
  "choose_plan S cmd snapshot inp =
     (let u = re_ucd (sy_register S)
      in case plan u (sy_jiff S) snapshot inp of
        None \<Rightarrow> None
      | Some (Abort (Mass_Change c r l a) counts) \<Rightarrow>
          if cmd_accept cmd \<and> cmd_kind cmd = Sync
          then map_option (\<lambda>out. (out, Some (Mass_Change c r l a))) (plan_accepting_mass_change u (sy_jiff S) snapshot inp)
          else Some (Abort (Mass_Change c r l a) counts, None)
      | Some out \<Rightarrow> Some (out, None))"

text \<open>The plan the breaker stopped, which a dry run prints; \<open>None\<close> where the planner panics.\<close>

definition stopped_plan ::
  "('t, 'd::linorder) sync_env \<Rightarrow> uuid register_snapshot \<Rightarrow> ('t, 'd) sync_inputs \<Rightarrow> (uuid, 't, 'd) sync_outcome
     \<Rightarrow> (uuid, 't, 'd) sync_plan option option" where
  "stopped_plan S snapshot inp out =
     (case out of
        Abort (Mass_Change c r l a) counts \<Rightarrow>
          map_option (\<lambda>o'. case o' of Apply pln \<Rightarrow> Some pln | _ \<Rightarrow> None)
            (plan_accepting_mass_change (re_ucd (sy_register S)) (sy_jiff S) snapshot inp)
      | _ \<Rightarrow> Some None)"

definition recorded :: "('t, 'd) register_db \<Rightarrow> json list \<Rightarrow> exit \<Rightarrow> ('t, 'd) register_db register_result \<Rightarrow> ('t, 'd) run_result" where
  "recorded db printed e r = query db printed r (\<lambda>db. (Ended e, printed, db))"

definition finish_dry_run ::
  "('t, 'd) sync_env \<Rightarrow> uuid \<Rightarrow> (uuid, 't, 'd) sync_outcome \<Rightarrow> json list \<Rightarrow> ('t, 'd) register_db \<Rightarrow> ('t, 'd) run_result" where
  "finish_dry_run S run out printed db =
     query db printed (answering S Ph_Rollback (Inr ())) (\<lambda>_.
     case out of
       Abort reason counts \<Rightarrow> recorded db printed Exit_Aborted
         (answering S Ph_Record (record_dry_run run counts (Some reason) (sy_finished S) db))
     | Apply pln \<Rightarrow> recorded db printed Exit_Done
         (answering S Ph_Record (record_dry_run run (p_counts pln) None (sy_finished S) db))
     | No_Change \<Rightarrow> recorded db printed Exit_Done
         (answering S Ph_Record (record_dry_run run default_counts None (sy_finished S) db)))"

definition finish_no_change :: "('t, 'd) sync_env \<Rightarrow> uuid \<Rightarrow> ('t, 'd) register_db \<Rightarrow> ('t, 'd) run_result" where
  "finish_no_change S run db =
     query db [] (answering S Ph_Rollback (Inr ())) (\<lambda>_.
     recorded db [] Exit_Done (answering S Ph_Record (record_no_change run (sy_finished S) db)))"

text \<open>The end of a transaction that was to commit \<open>db'\<close>.\<close>

definition commit ::
  "('t, 'd) sync_env \<Rightarrow> ('t, 'd) register_db \<Rightarrow> ('t, 'd) register_db \<Rightarrow> exit \<Rightarrow> ('t, 'd) run_result" where
  "commit S db db' e =
     (case sy_commit S of
        Committed \<Rightarrow> (Ended e, [], db')
      | Commit_Failed durable err \<Rightarrow> (Ended_Error (Sync_Database err), [], if durable then db' else db))"

definition finish_aborted ::
  "('t, 'd) sync_env \<Rightarrow> uuid \<Rightarrow> run_kind \<Rightarrow> abort_reason \<Rightarrow> counts \<Rightarrow> ('t, 'd) register_db \<Rightarrow> ('t, 'd) run_result" where
  "finish_aborted S run k reason counts db =
     query db [] (answering S Ph_Rollback (Inr ())) (\<lambda>_.
     query db [] (answering S Ph_Begin_Record (Inr ())) (\<lambda>_.
     query db [] (answering S Ph_Record_Aborted (record_aborted (sy_register S) run k reason counts (sy_finished S) db))
       (\<lambda>db'. commit S db db' Exit_Aborted)))"

definition apply_and_stage ::
  "('t::linorder, 'd::linorder) sync_env \<Rightarrow> (uuid, 't, 'd) sync_plan \<Rightarrow> ('t nsr_unit \<times> bytes) list \<Rightarrow> uuid \<Rightarrow> run_kind
     \<Rightarrow> ('t, 'd) moment \<Rightarrow> abort_reason option \<Rightarrow> ('t, 'd) register_db \<Rightarrow> (applied_counts \<times> ('t, 'd) register_db) register_result" where
  "apply_and_stage S pln units run k mt lifted db =
     (let E = sy_register S
      in and_then (apply_register_plan E pln mt db) (\<lambda>(applied, db).
         if wrote_nothing applied then Inr (applied, db)
         else and_then (stage_payloads E (map (\<lambda>(u, body). nsr_payload u body) units) mt db) (\<lambda>db.
              and_then (record_applied E run k applied lifted (sy_finished S) db) (\<lambda>db. Inr (applied, db)))))"

definition finish_apply ::
  "('t::linorder, 'd::linorder) sync_env \<Rightarrow> (uuid, 't, 'd) sync_plan \<Rightarrow> ('t nsr_unit \<times> bytes) list \<Rightarrow> uuid \<Rightarrow> run_kind
     \<Rightarrow> ('t, 'd) moment \<Rightarrow> abort_reason option \<Rightarrow> ('t, 'd) register_db \<Rightarrow> ('t, 'd) run_result" where
  "finish_apply S pln units run k mt lifted db =
     (case answering S Ph_Apply (apply_and_stage S pln units run k mt lifted db) of
        Inl e \<Rightarrow> (Ended_Error (Sync_Apply e), [], db)
      | Inr (applied, db') \<Rightarrow>
          if wrote_nothing applied then finish_no_change S run db else commit S db db' Exit_Done)"

definition run_inputs :: "sync_command \<Rightarrow> ('t, 'd) moment \<Rightarrow> ('t, 'd) fetched \<Rightarrow> ('t, 'd) sync_inputs" where
  "run_inputs cmd mt fetched =
     \<lparr>in_municipalities = fe_municipalities fetched, in_code_changes = fe_code_changes fetched,
      in_units = map fst (fe_units fetched), in_kind = cmd_kind cmd, in_at = mt\<rparr>"

text \<open>What the transaction does with the outcome.\<close>

definition settle ::
  "('t::linorder, 'd::linorder) sync_env \<Rightarrow> sync_command \<Rightarrow> uuid \<Rightarrow> ('t, 'd) moment \<Rightarrow> ('t, 'd) fetched
     \<Rightarrow> uuid register_snapshot \<Rightarrow> ('t, 'd) register_db \<Rightarrow> ('t, 'd) run_result" where
  "settle S cmd run mt fetched snapshot db =
     (case choose_plan S cmd snapshot (run_inputs cmd mt fetched) of
        None \<Rightarrow> (Ended_Panic, [], db)
      | Some (out, lifted) \<Rightarrow>
          if cmd_dry_run cmd then
            (case stopped_plan S snapshot (run_inputs cmd mt fetched) out of
               None \<Rightarrow> (Ended_Panic, [], db)
             | Some stopped \<Rightarrow>
                 finish_dry_run S run out
                   [plan_json (date_to_string (sy_jiff S)) (cmd_kind cmd) out snapshot stopped lifted] db)
          else
            (case out of
               No_Change \<Rightarrow> finish_no_change S run db
             | Abort reason counts \<Rightarrow> finish_aborted S run (cmd_kind cmd) reason counts db
             | Apply pln \<Rightarrow> finish_apply S pln (fe_units fetched) run (cmd_kind cmd) mt lifted db))"

definition in_transaction ::
  "('t::linorder, 'd::linorder) sync_env \<Rightarrow> sync_command \<Rightarrow> uuid \<Rightarrow> ('t, 'd) moment \<Rightarrow> ('t, 'd) fetched
     \<Rightarrow> ('t, 'd) register_db \<Rightarrow> ('t, 'd) run_result" where
  "in_transaction S cmd run mt fetched db =
     query db [] (answering S Ph_Begin (Inr ())) (\<lambda>_.
     query db [] (answering S Ph_Snapshot (load_snapshot db)) (\<lambda>snapshot.
     settle S cmd run mt fetched snapshot db))"

definition execute ::
  "('t::linorder, 'd::linorder) sync_env \<Rightarrow> sync_command \<Rightarrow> uuid \<Rightarrow> ('t, 'd) moment \<Rightarrow> ('t, 'd) register_db
     \<Rightarrow> ('t, 'd) run_result" where
  "execute S cmd run mt db =
     query db [] (case cmd_kind cmd of
         Seed \<Rightarrow> Inr None
       | Sync \<Rightarrow> answering S Ph_Seed_Date (Inr (Some (seed_date (sy_register S) db)))) (\<lambda>seeded.
     case seeded of
       Some None \<Rightarrow> (Ended_Error Sync_No_Seed, [], db)
     | _ \<Rightarrow>
       query db [] (answering S Ph_Held (load_snapshot db)) (\<lambda>held.
       case sy_client S of
         Some e \<Rightarrow> (Ended_Error (Sync_Source e), [], db)
       | None \<Rightarrow>
           (case fetch (sy_world S) (sy_panics S) (sy_schedule S) held (cmd_kind cmd) (Option.bind seeded (\<lambda>d. d)) (m_today mt) of
              Inl e \<Rightarrow> (Ended_Error (fetch_to_sync e), [], db)
            | Inr fetched \<Rightarrow> in_transaction S cmd run mt fetched (sy_meanwhile S db))))"

text \<open>The failed run's row, on a fresh connection; an error of it is only logged.\<close>

definition record_run_failure ::
  "('t, 'd) sync_env \<Rightarrow> uuid \<Rightarrow> str \<Rightarrow> ('t, 'd) register_db \<Rightarrow> ('t, 'd) register_db" where
  "record_run_failure S run reason db =
     (case answering S Ph_Reconnect (Inr ()) of
        Inl _ \<Rightarrow> db
      | Inr _ \<Rightarrow> (case answering S Ph_Record_Failed (record_failed run reason (sy_finished S) db) of
          Inl _ \<Rightarrow> db
        | Inr db \<Rightarrow> db))"

text \<open>The exit, \<open>None\<close> after a panic, with the printed lines and the database.\<close>

definition sync ::
  "('t::linorder, 'd::linorder) sync_env \<Rightarrow> sync_command \<Rightarrow> ('t, 'd) register_db
     \<Rightarrow> exit option \<times> json list \<times> ('t, 'd) register_db" where
  "sync S cmd db =
     (let mt = moment_at (oslo_today (sy_jiff S)) (sy_now S)
      in case answering S Ph_Connect (Inr ()) of
        Inl _ \<Rightarrow> (Some Exit_Failed, [], db)
      | Inr _ \<Rightarrow>
          (case begin_run S (cmd_kind cmd) (cmd_dry_run cmd) mt db of
             Inl _ \<Rightarrow> (Some Exit_Failed, [], db)
           | Inr (Begun_Refused e, db) \<Rightarrow> (Some e, [], db)
           | Inr (Begun_Run run, db) \<Rightarrow>
               (case execute S cmd run mt db of
                  (Ended e, printed, db) \<Rightarrow> (Some e, printed, db)
                | (Ended_Error e, printed, db) \<Rightarrow>
                    (Some Exit_Failed, printed, record_run_failure S run (sync_error_code e) db)
                | (Ended_Panic, printed, db) \<Rightarrow> (None, printed, db))))"

end
