(* ===== verification/Sync_Run_Facts.thy ===== *)
theory Sync_Run_Facts
  imports Register_Sync
begin

text \<open>
  What a whole run does to the database: everything but the run's row and its mail is written by a committed
  apply only, and the row is written once and finished once.
\<close>

section \<open>The register apart from its runs\<close>

definition register_part where
  "register_part db =
     ((rg_municipalities db, rg_names db, rg_numbers db, rg_municipality_slugs db),
      (rg_schools db, rg_orgnrs db, rg_school_slugs db, rg_tenants db),
      (rg_links db, rg_reviews db, rg_records db, rg_audit db))"

lemma register_part_update [simp]:
  "register_part (db\<lparr>rg_runs := rs\<rparr>) = register_part db" "register_part (db\<lparr>rg_outbox := ms\<rparr>) = register_part db"
  "register_part (db\<lparr>rg_drawn := k\<rparr>) = register_part db"
  by (simp_all add: register_part_def)

lemma fresh_id_simps [simp]: "register_part (snd (fresh_id E db)) = register_part db" "rg_runs (snd (fresh_id E db)) = rg_runs db"
  by (simp_all add: fresh_id_def)

lemma start_run_keeps: "start_run E k dry_run mt db = Inr (run, db') \<Longrightarrow> register_part db' = register_part db"
  by (auto simp: start_run_def fresh_id_def Let_def)

lemma finish_run_keeps: "finish_run i out counts reason t db = Inr db' \<Longrightarrow> register_part db' = register_part db"
  by (auto simp: finish_run_def)

lemma register_mail_keeps: "register_mail E template ps t db = Inr db' \<Longrightarrow> register_part db' = register_part db"
  by (auto simp: register_mail_def fresh_id_def Let_def)

lemma record_keeps:
  "record_no_change i t db = Inr db' \<Longrightarrow> register_part db' = register_part db"
  "record_dry_run i counts reason t db = Inr db' \<Longrightarrow> register_part db' = register_part db"
  "record_failed i code t db = Inr db' \<Longrightarrow> register_part db' = register_part db"
  "record_aborted E i k why counts t db = Inr db' \<Longrightarrow> register_part db' = register_part db"
  by (auto simp: record_no_change_def record_dry_run_def record_failed_def record_aborted_def
      dest!: finish_run_keeps register_mail_keeps)

lemma recorded_keeps:
  assumes "recorded db printed e r = (out, ps, db')" "\<And>d. r = Inr d \<Longrightarrow> register_part d = register_part db"
  shows "register_part db' = register_part db"
  using assms by (auto simp: recorded_def query_def split: sum.splits)

text \<open>\<open>query\<close> either stops the run or goes on.\<close>

lemma queryE:
  assumes "query db printed r f = (out, ps, db')"
  obtains (error) e where "r = Inl e" "out = Ended_Error (Sync_Database e)" "ps = printed" "db' = db"
  | (go) a where "r = Inr a" "f a = (out, ps, db')"
  using assms by (auto simp: query_def split: sum.splits)

lemma finish_no_change_keeps: "finish_no_change S run db = (out, ps, db') \<Longrightarrow> register_part db' = register_part db"
  unfolding finish_no_change_def by (erule queryE) (auto dest!: record_keeps elim!: recorded_keeps)

lemma finish_dry_run_keeps: "finish_dry_run S run o' printed db = (out, ps, db') \<Longrightarrow> register_part db' = register_part db"
  unfolding finish_dry_run_def
  by (erule queryE) (auto dest!: record_keeps elim!: recorded_keeps split: sync_outcome.splits)

lemma finish_aborted_keeps: "finish_aborted S run k reason counts db = (out, ps, db') \<Longrightarrow> register_part db' = register_part db"
  unfolding finish_aborted_def
  by (elim queryE) (auto simp: commit_def dest!: record_keeps split: commit_answer.splits if_splits)

lemma record_run_failure_keeps: "register_part (record_run_failure S run code db) = register_part db"
  by (auto simp: record_run_failure_def dest!: record_keeps split: sum.splits)

definition commit_in_doubt :: "('t, 'd) sync_env \<Rightarrow> bool" where
  "commit_in_doubt S \<longleftrightarrow> (case sy_commit S of Commit_Failed durable e \<Rightarrow> durable | Committed \<Rightarrow> False)"

lemma finish_apply_keeps:
  assumes "finish_apply S pln units run k mt lifted db = (out, ps, db')" "out \<noteq> Ended Exit_Done" "\<not> commit_in_doubt S"
  shows "register_part db' = register_part db"
  using assms
  by (auto simp: finish_apply_def commit_def commit_in_doubt_def dest!: finish_no_change_keeps
      split: sum.splits if_splits commit_answer.splits)

lemma settle_keeps:
  assumes "settle S cmd run mt fetched snapshot db = (out, ps, db')"
    "cmd_dry_run cmd \<or> out \<noteq> Ended Exit_Done \<and> \<not> commit_in_doubt S"
  shows "register_part db' = register_part db"
  using assms
  by (auto simp: settle_def split: option.splits prod.splits if_splits sync_outcome.splits
      dest: finish_dry_run_keeps finish_no_change_keeps finish_aborted_keeps finish_apply_keeps)

text \<open>A run reaches its transaction, or ends before it with its row as it was begun.\<close>

lemma in_transactionE:
  assumes "in_transaction S cmd run mt fetched db = (out, ps, db')"
  obtains (stops) e where "out = Ended_Error e" "ps = []" "db' = db"
  | (settled) snapshot where "load_snapshot db = Inr snapshot" "settle S cmd run mt fetched snapshot db = (out, ps, db')"
  using assms unfolding in_transaction_def by (elim queryE) (auto intro: stops settled)

lemma executeE:
  assumes "execute S cmd run mt db = (out, ps, db')"
  obtains (stops) e where "out = Ended_Error e" "ps = []" "db' = db \<or> db' = sy_meanwhile S db"
  | (settled) fetched snapshot where "load_snapshot (sy_meanwhile S db) = Inr snapshot"
      "settle S cmd run mt fetched snapshot (sy_meanwhile S db) = (out, ps, db')"
  using assms unfolding execute_def
proof (cases rule: queryE)
  case (error e)
  then show thesis by (auto intro: stops)
next
  case (go seeded)
  show thesis
  proof (cases "seeded = Some None")
    case True
    with go(2) show thesis by (auto intro: stops)
  next
    case False
    with go(2) have "query db [] (answering S Ph_Held (load_snapshot db)) (\<lambda>held.
       case sy_client S of
         Some e \<Rightarrow> (Ended_Error (Sync_Source e), [], db)
       | None \<Rightarrow>
           (case fetch (sy_world S) (sy_panics S) (sy_schedule S) held (cmd_kind cmd) (Option.bind seeded (\<lambda>d. d)) (m_today mt) of
              Inl e \<Rightarrow> (Ended_Error (fetch_to_sync e), [], db)
            | Inr fetched \<Rightarrow> in_transaction S cmd run mt fetched (sy_meanwhile S db))) = (out, ps, db')"
      by (auto split: option.splits)
    then show thesis
    proof (cases rule: queryE)
      case (error e)
      then show thesis by (auto intro: stops)
    next
      case (go held)
      then show thesis
        by (auto split: option.splits sum.splits intro: stops elim!: in_transactionE settled)
    qed
  qed
qed

text \<open>What a begun run leaves, and what a run that did not begin leaves.\<close>

lemma begin_run_refused: "begin_run S k dry_run mt db = Inr (Begun_Refused e, db') \<Longrightarrow> db' = db \<and> e \<in> {Exit_Locked, Exit_Refused}"
  by (auto simp: begin_run_def split: if_splits run_kind.splits bool.splits)

lemma begin_run_begun:
  "begin_run S k dry_run mt db = Inr (Begun_Run run, db') \<Longrightarrow>
     start_run (sy_register S) k dry_run mt db = Inr (run, db') \<and> \<not> sy_locked S \<and> register_is_empty db = (k = Seed)"
  by (auto simp: begin_run_def split: if_splits run_kind.splits bool.splits prod.splits)

lemma syncE:
  assumes "sync S cmd db = (e, ps, db')"
  obtains (unstarted) "e \<in> {Some Exit_Failed, Some Exit_Locked, Some Exit_Refused}" "ps = []" "db' = db"
  | (begun) run begun out d where
      "start_run (sy_register S) (cmd_kind cmd) (cmd_dry_run cmd) (moment_at (oslo_today (sy_jiff S)) (sy_now S)) db = Inr (run, begun)"
      "execute S cmd run (moment_at (oslo_today (sy_jiff S)) (sy_now S)) begun = (out, ps, d)"
      "(e, db') = (case out of Ended x \<Rightarrow> (Some x, d)
         | Ended_Error err \<Rightarrow> (Some Exit_Failed, record_run_failure S run (sync_error_code err) d) | Ended_Panic \<Rightarrow> (None, d))"
  using assms
  by (auto simp: sync_def Let_def split: sum.splits begun.splits prod.splits ended.splits
      dest!: begin_run_refused begin_run_begun)

definition others_keep_register :: "('t, 'd) sync_env \<Rightarrow> bool" where
  "others_keep_register S \<longleftrightarrow> (\<forall>db. register_part (sy_meanwhile S db) = register_part db)"

lemma sync_keeps:
  assumes "sync S cmd db = (e, ps, db')" "cmd_dry_run cmd \<or> e \<noteq> Some Exit_Done \<and> \<not> commit_in_doubt S"
    "others_keep_register S"
  shows "register_part db' = register_part db"
  using assms(1)
proof (cases rule: syncE)
  case (begun run begun out d)
  have d: "cmd_dry_run cmd \<or> out \<noteq> Ended Exit_Done \<and> \<not> commit_in_doubt S"
    using assms(2) begun(3) by auto
  from begun(2) have "register_part d = register_part begun"
  proof (cases rule: executeE)
    case (stops e)
    with assms(3) show ?thesis by (auto simp: others_keep_register_def)
  next
    case (settled fetched snapshot)
    from settle_keeps [OF settled(2) d] assms(3) show ?thesis by (simp add: others_keep_register_def)
  qed
  with start_run_keeps [OF begun(1)] begun(3) show ?thesis
    by (auto simp: record_run_failure_keeps split: ended.splits)
qed simp

section \<open>The row of a run\<close>

lemma run_each_keeps:
  assumes "run_each f xs s = Inr s'" "\<forall>x\<in>set xs. \<forall>a b. f x a = Inr b \<longrightarrow> g b = g a"
  shows "g s' = g s"
  using assms by (induction xs arbitrary: s) auto

lemma insert_names_runs: "insert_names i names db = Inr db' \<Longrightarrow> rg_runs db' = rg_runs db"
  unfolding insert_names_def by (erule run_each_keeps) (auto simp: put_defs)

lemma apply_municipality_op_runs: "apply_municipality_op E ids mt op db = Inr (i, db') \<Longrightarrow> rg_runs db' = rg_runs db"
  by (cases op) (auto simp: put_defs move_municipality_slug_def update_municipality_def renumber_def Let_def
      dest!: insert_names_runs split: if_splits)

lemma municipality_ops_runs: "municipality_ops E ids mt ops db = Inr (touched, db') \<Longrightarrow> rg_runs db' = rg_runs db"
  by (induction ops arbitrary: db touched) (auto dest!: apply_municipality_op_runs)

lemma keep_old_slug_runs: "keep_old_slug i m change mt db = Inr db' \<Longrightarrow> rg_runs db' = rg_runs db"
  by (auto simp: keep_old_slug_def move_school_slug_def put_defs split: option.splits)

lemma update_school_runs: "update_school i f db = Inr db' \<Longrightarrow> rg_runs db' = rg_runs db"
  by (auto simp: update_school_def put_defs)

lemma apply_school_op_runs: "apply_school_op E ids mt op db = Inr db' \<Longrightarrow> rg_runs db' = rg_runs db"
  by (cases op) (auto simp: put_defs move_school_slug_def dest!: update_school_runs keep_old_slug_runs split: option.splits)

lemma school_ops_runs: "school_ops E ids mt ops db = Inr (links, db') \<Longrightarrow> rg_runs db' = rg_runs db"
  by (induction ops arbitrary: db links) (auto dest!: apply_school_op_runs)

lemma write_reviews_runs: "write_reviews E ids mt items w k db = Inr (w', k', db') \<Longrightarrow> rg_runs db' = rg_runs db"
  by (induction items arbitrary: w k db) (auto simp: write_review_def fresh_id_def Let_def split: if_splits option.splits)

lemma apply_register_plan_runs:
  assumes "apply_register_plan E pln mt db = Inr (applied, db')"
  shows "rg_runs db' = rg_runs db"
proof -
  from assms obtain ids db0 touched db1 db2 links db3 db4 db5 where s: "allocate E pln db = (ids, db0)"
    "municipality_ops E ids mt (p_municipality_ops pln) db0 = Inr (touched, db1)"
    "run_each (refresh_municipality_search_text E) (ordered_set touched) db1 = Inr db2"
    "school_ops E ids mt (p_school_ops pln) db2 = Inr (links, db3)" "run_each link_successor links db3 = Inr db4"
    "run_each (refresh_school_search_text E) (ordered_set (concat (map renamed_school (p_school_ops pln)))) db4 = Inr db5"
    "\<exists>w k. write_reviews E ids mt (p_reviews pln) [] 0 db5 = Inr (w, k, db')"
    by (auto simp: apply_register_plan_def split: prod.splits)
  have "rg_runs db0 = rg_runs db" using s(1) by (auto simp: allocate_def Let_def)
  moreover have "rg_runs db2 = rg_runs db1"
    using s(3) by (rule run_each_keeps) (auto simp: refresh_municipality_search_text_def put_defs Let_def)
  moreover have "rg_runs db4 = rg_runs db3"
    using s(5) by (rule run_each_keeps) (auto simp: link_successor_def dest: update_school_runs)
  moreover have "rg_runs db5 = rg_runs db4"
    using s(6) by (rule run_each_keeps) (auto simp: refresh_school_search_text_def put_defs Let_def)
  ultimately show ?thesis using municipality_ops_runs [OF s(2)] school_ops_runs [OF s(4)] s(7) write_reviews_runs by metis
qed

lemma stage_payloads_runs: "stage_payloads E ps mt db = Inr db' \<Longrightarrow> rg_runs db' = rg_runs db"
proof -
  assume "stage_payloads E ps mt db = Inr db'"
  then obtain db1 where s: "run_each (stage_payload E mt) ps db = Inr db1" "rg_runs db' = rg_runs db1"
    by (auto simp: stage_payloads_def put_defs)
  from s(1) have "rg_runs db1 = rg_runs db" by (rule run_each_keeps) (auto simp: stage_payload_def Let_def)
  with s(2) show ?thesis by simp
qed

lemma register_mail_runs: "register_mail E template ps t db = Inr db' \<Longrightarrow> rg_runs db' = rg_runs db"
  by (auto simp: register_mail_def fresh_id_def Let_def)

text \<open>The row as it was begun, at the end of the table and with an id of its own.\<close>

definition begun_row :: "uuid \<Rightarrow> 't run_row list \<Rightarrow> 't run_row \<Rightarrow> ('t, 'd) register_db \<Rightarrow> bool" where
  "begun_row run rs r db \<longleftrightarrow> rg_runs db = rs @ [r] \<and> run_id r = run \<and> run \<notin> run_id ` set rs
     \<and> run_finished_at r = None \<and> run_outcome r = None"

definition finished_row :: "run_outcome \<Rightarrow> 't \<Rightarrow> 't run_row list \<Rightarrow> 't run_row \<Rightarrow> ('t, 'd) register_db \<Rightarrow> bool" where
  "finished_row out t rs r db \<longleftrightarrow> (\<exists>r'. rg_runs db = rs @ [r'] \<and> run_id r' = run_id r \<and> run_kind r' = run_kind r
     \<and> run_started_at r' = run_started_at r \<and> run_finished_at r' = Some t \<and> run_outcome r' = Some out)"

lemma start_run_row:
  assumes "start_run E k dry_run mt db = Inr (run, db')"
  obtains r where "begun_row run (rg_runs db) r db'" "run_started_at r = m_now mt"
    "run_kind r = (if dry_run then Run_Dry else case k of Seed \<Rightarrow> Run_Seed | Sync \<Rightarrow> Run_Sync)"
proof (rule that)
  let ?r = "\<lparr>run_id = run, run_kind = (if dry_run then Run_Dry else case k of Seed \<Rightarrow> Run_Seed | Sync \<Rightarrow> Run_Sync),
              run_started_at = m_now mt, run_finished_at = None, run_outcome = None, run_tally = J_Object [],
              run_abort_reason = None\<rparr>"
  show "begun_row run (rg_runs db) ?r db'"
    using assms by (auto simp: start_run_def fresh_id_def Let_def begun_row_def)
qed simp_all

lemma finish_run_row:
  assumes "finish_run run out counts reason t db = Inr db'" "begun_row run rs r db"
  shows "finished_row out t rs r db'"
proof -
  from assms(2) have others: "q \<in> set rs \<Longrightarrow> \<not> unfinished run q" for q
    by (auto simp: begun_row_def unfinished_def image_iff)
  have "map (\<lambda>r. if unfinished run r then f r else r) rs = rs" for f
    by (rule map_idI) (simp add: others)
  with assms show ?thesis
    by (auto simp: finish_run_def begun_row_def finished_row_def unfinished_def)
qed

lemma register_audit_runs: "register_audit E run ps t db = Inr db' \<Longrightarrow> rg_runs db' = rg_runs db"
  by (auto simp: register_audit_def fresh_id_def Let_def)

lemma record_applied_row:
  assumes "record_applied E run k applied lifted t db = Inr db'" "begun_row run rs r db"
  shows "finished_row Run_Applied t rs r db'"
  using assms(1) unfolding record_applied_def Let_def
proof (elim and_then_InrE, goal_cases)
  case (1 db1 db2)
  have "rg_runs db' = rg_runs db2"
  proof (cases k)
    case Seed
    with 1(3) show ?thesis by (auto dest: register_mail_runs)
  next
    case Sync
    with 1(3) show ?thesis by (auto elim!: run_each_keeps dest: register_mail_runs)
  qed
  with register_audit_runs [OF 1(2)] finish_run_row [OF 1(1) assms(2)] show ?case by (simp add: finished_row_def)
qed

lemma begun_row_runs: "begun_row run rs r db \<Longrightarrow> rg_runs db' = rg_runs db \<Longrightarrow> begun_row run rs r db'"
  by (simp add: begun_row_def)

lemma apply_and_stage_row:
  assumes "apply_and_stage S pln units run k mt lifted db = Inr (applied, db')" "\<not> wrote_nothing applied" "begun_row run rs r db"
  shows "finished_row Run_Applied (sy_finished S) rs r db'"
  using assms(1) unfolding apply_and_stage_def Let_def
proof (elim and_then_InrE, goal_cases)
  case (1 p)
  obtain a db1 where p: "p = (a, db1)" by (cases p)
  with 1 assms(2) obtain db2 where "apply_register_plan (sy_register S) pln mt db = Inr (a, db1)"
    "\<exists>ps. stage_payloads (sy_register S) ps mt db1 = Inr db2"
    "record_applied (sy_register S) run k applied lifted (sy_finished S) db2 = Inr db'"
    by (auto split: if_splits)
  with assms(3) show ?case by (metis apply_register_plan_runs stage_payloads_runs begun_row_runs record_applied_row)
qed

lemma record_rows:
  assumes "begun_row run rs r db"
  shows "record_no_change run t db = Inr db' \<Longrightarrow> finished_row Run_No_Change t rs r db'"
    "record_dry_run run counts reason t db = Inr db' \<Longrightarrow> finished_row Run_No_Change t rs r db'"
    "record_failed run code t db = Inr db' \<Longrightarrow> finished_row Run_Failed t rs r db'"
    "record_aborted E run k why counts t db = Inr db' \<Longrightarrow> finished_row Run_Aborted t rs r db'"
  using finish_run_row [OF _ assms]
  by (auto simp: record_no_change_def record_dry_run_def record_failed_def record_aborted_def finished_row_def
      dest!: register_mail_runs)

text \<open>The outcome the row has for the exit.\<close>

definition row_of_exit :: "bool \<Rightarrow> 't \<Rightarrow> exit option \<Rightarrow> 't run_row list \<Rightarrow> 't run_row \<Rightarrow> ('t, 'd) register_db \<Rightarrow> bool" where
  "row_of_exit dry_run t e rs r db \<longleftrightarrow>
     (case e of
        Some Exit_Done \<Rightarrow> finished_row Run_No_Change t rs r db \<or> \<not> dry_run \<and> finished_row Run_Applied t rs r db
      | Some Exit_Aborted \<Rightarrow> finished_row (if dry_run then Run_No_Change else Run_Aborted) t rs r db
      | Some Exit_Failed \<Rightarrow> begun_row (run_id r) rs r db \<or> finished_row Run_Failed t rs r db
      | None \<Rightarrow> begun_row (run_id r) rs r db
      | _ \<Rightarrow> False)"

definition settled_row where
  "settled_row dry_run t out rs r db \<longleftrightarrow>
     (case out of Ended e \<Rightarrow> row_of_exit dry_run t (Some e) rs r db | _ \<Rightarrow> begun_row (run_id r) rs r db)"

lemma recorded_row:
  assumes "recorded db printed e x = (out, ps, db')" "begun_row run rs r db" "run_id r = run"
    "\<And>d. x = Inr d \<Longrightarrow> row_of_exit dry_run t (Some e) rs r d"
  shows "settled_row dry_run t out rs r db'"
  using assms by (auto simp: recorded_def query_def settled_row_def split: sum.splits)

lemma finish_no_change_row:
  assumes "finish_no_change S run db = (out, ps, db')" "begun_row run rs r db"
  shows "settled_row dry_run (sy_finished S) out rs r db'"
proof -
  from assms(2) have i: "run_id r = run" by (simp add: begun_row_def)
  from assms(1) show ?thesis unfolding finish_no_change_def
  proof (cases rule: queryE)
    case (error e)
    with assms(2) i show ?thesis by (simp add: settled_row_def)
  next
    case (go u)
    from recorded_row [OF go(2) assms(2) i] show ?thesis
      by (simp add: row_of_exit_def record_rows(1) [OF assms(2)])
  qed
qed

lemma finish_dry_run_row:
  assumes "finish_dry_run S run o' printed db = (out, ps, db')" "begun_row run rs r db"
  shows "settled_row True (sy_finished S) out rs r db'"
proof -
  from assms(2) have i: "run_id r = run" by (simp add: begun_row_def)
  from assms(1) show ?thesis unfolding finish_dry_run_def
  proof (cases rule: queryE)
    case (error e)
    with assms(2) i show ?thesis by (simp add: settled_row_def)
  next
    case (go u)
    from go(2) show ?thesis
      by (cases o') (auto intro!: recorded_row [OF _ assms(2) i] simp: row_of_exit_def record_rows(2) [OF assms(2)])
  qed
qed

lemma commit_row:
  assumes "commit S db db2 e = (out, ps, db')" "begun_row run rs r db" "row_of_exit dry_run t (Some e) rs r db2" "\<not> commit_in_doubt S"
  shows "settled_row dry_run t out rs r db'"
  using assms by (auto simp: commit_def commit_in_doubt_def settled_row_def begun_row_def split: commit_answer.splits if_splits)

lemma finish_aborted_row:
  assumes "finish_aborted S run k reason counts db = (out, ps, db')" "begun_row run rs r db" "\<not> commit_in_doubt S"
  shows "settled_row False (sy_finished S) out rs r db'"
proof -
  have stops: "settled_row False t (Ended_Error e) rs r db" for t e
    using assms(2) by (auto simp: settled_row_def begun_row_def)
  have done': "row_of_exit False (sy_finished S) (Some Exit_Aborted) rs r d"
    if "record_aborted (sy_register S) run k reason counts (sy_finished S) db = Inr d" for d
    using record_rows(4) [OF assms(2) that] by (simp add: row_of_exit_def)
  from assms(1) show ?thesis unfolding finish_aborted_def
    by (elim queryE) (auto simp: stops intro: commit_row [OF _ assms(2) done' assms(3)])
qed

lemma finish_apply_row:
  assumes "finish_apply S pln units run k mt lifted db = (out, ps, db')" "begun_row run rs r db" "\<not> commit_in_doubt S"
  shows "settled_row False (sy_finished S) out rs r db'"
proof (cases "answering S Ph_Apply (apply_and_stage S pln units run k mt lifted db)")
  case (Inl e)
  with assms(1,2) show ?thesis by (auto simp: finish_apply_def settled_row_def begun_row_def)
next
  case (Inr p)
  obtain applied d where p: "p = (applied, d)" by (cases p)
  show ?thesis
  proof (cases "wrote_nothing applied")
    case True
    with assms(1) have "finish_no_change S run db = (out, ps, db')" unfolding finish_apply_def Inr p by simp
    from finish_no_change_row [OF this assms(2)] show ?thesis .
  next
    case False
    with assms(1) have c: "commit S db d Exit_Done = (out, ps, db')" unfolding finish_apply_def Inr p by simp
    from Inr p have "apply_and_stage S pln units run k mt lifted db = Inr (applied, d)" by simp
    from commit_row [OF c assms(2) _ assms(3)] apply_and_stage_row [OF this False assms(2)] show ?thesis
      by (simp add: row_of_exit_def)
  qed
qed

lemma settle_row:
  assumes "settle S cmd run mt fetched snapshot db = (out, ps, db')" "begun_row run rs r db" "\<not> commit_in_doubt S"
  shows "settled_row (cmd_dry_run cmd) (sy_finished S) out rs r db'"
proof -
  have panic: "settled_row b t Ended_Panic rs r db" for b t
    using assms(2) by (auto simp: settled_row_def begun_row_def)
  from assms panic show ?thesis
    by (auto simp: settle_def split: option.splits prod.splits if_splits sync_outcome.splits
        dest: finish_dry_run_row finish_no_change_row finish_aborted_row finish_apply_row)
qed

definition others_keep_runs :: "('t, 'd) sync_env \<Rightarrow> bool" where
  "others_keep_runs S \<longleftrightarrow> (\<forall>db. rg_runs (sy_meanwhile S db) = rg_runs db)"

lemma sync_row:
  assumes "sync S cmd db = (e, ps, db')" "\<not> commit_in_doubt S" "others_keep_runs S"
  shows "(rg_runs db' = rg_runs db \<and> e \<in> {Some Exit_Failed, Some Exit_Locked, Some Exit_Refused})
    \<or> (\<exists>r. run_id r \<notin> run_id ` set (rg_runs db) \<and> row_of_exit (cmd_dry_run cmd) (sy_finished S) e (rg_runs db) r db')"
  using assms(1)
proof (cases rule: syncE)
  case (begun run begun out d)
  obtain r where r: "begun_row run (rg_runs db) r begun" by (rule start_run_row [OF begun(1)])
  then have i: "run_id r = run" "run_id r \<notin> run_id ` set (rg_runs db)" by (simp_all add: begun_row_def)
  have r': "begun_row run (rg_runs db) r (sy_meanwhile S begun)"
    using r assms(3) by (auto intro: begun_row_runs simp: others_keep_runs_def)
  from begun(2) have "settled_row (cmd_dry_run cmd) (sy_finished S) out (rg_runs db) r d"
  proof (cases rule: executeE)
    case (stops e)
    with r r' i show ?thesis by (auto simp: settled_row_def)
  next
    case (settled fetched snapshot)
    from settle_row [OF settled(2) r' assms(2)] show ?thesis .
  qed
  then have "row_of_exit (cmd_dry_run cmd) (sy_finished S) e (rg_runs db) r db'"
  proof (cases out)
    case (Ended x)
    with begun(3) \<open>settled_row _ _ _ _ _ _\<close> show ?thesis by (simp add: settled_row_def)
  next
    case (Ended_Error err)
    with begun(3) i(1) \<open>settled_row _ _ _ _ _ _\<close> have e: "e = Some Exit_Failed" "begun_row run (rg_runs db) r d"
      "db' = record_run_failure S run (sync_error_code err) d" by (simp_all add: settled_row_def)
    from record_rows(3) [OF e(2)] e i(1) show ?thesis
      by (auto simp: row_of_exit_def record_run_failure_def split: sum.splits)
  next
    case Ended_Panic
    with begun(3) \<open>settled_row _ _ _ _ _ _\<close> show ?thesis by (simp add: settled_row_def row_of_exit_def)
  qed
  with i(2) show ?thesis by blast
qed simp

section \<open>What a committed run applied\<close>

lemma load_snapshot_part:
  assumes "register_part db' = register_part db"
  shows "load_snapshot db' = load_snapshot db"
proof -
  from assms have same: "rg_municipalities db' = rg_municipalities db" "rg_names db' = rg_names db" "rg_numbers db' = rg_numbers db"
    "rg_municipality_slugs db' = rg_municipality_slugs db" "rg_schools db' = rg_schools db" "rg_orgnrs db' = rg_orgnrs db"
    "rg_school_slugs db' = rg_school_slugs db" "rg_tenants db' = rg_tenants db" by (simp_all add: register_part_def)
  have "load_municipality db' = load_municipality db" "load_school db' = load_school db"
    by (simp_all add: fun_eq_iff load_municipality_def load_school_def current_number_def names_of_def has_live_fau_def same)
  then show ?thesis by (simp add: load_snapshot_def same)
qed

lemma settle_committed:
  assumes "settle S cmd run mt fetched snapshot db = (out, ps, db')" "register_part db' \<noteq> register_part db"
  obtains pln lifted applied where "choose_plan S cmd snapshot (run_inputs cmd mt fetched) = Some (Apply pln, lifted)"
    "\<not> cmd_dry_run cmd"
    "apply_and_stage S pln (fe_units fetched) run (cmd_kind cmd) mt lifted db = Inr (applied, db')"
proof -
  have apply': "\<exists>applied. apply_and_stage S pln (fe_units fetched) run (cmd_kind cmd) mt lifted db = Inr (applied, db')"
    if "finish_apply S pln (fe_units fetched) run (cmd_kind cmd) mt lifted db = (out, ps, db')" for pln lifted
    using that assms(2)
    by (auto simp: finish_apply_def commit_def dest!: finish_no_change_keeps split: sum.splits if_splits commit_answer.splits)
  from assms(1) show thesis
    using assms(2) apply' that
    by (auto simp: settle_def split: option.splits prod.splits if_splits sync_outcome.splits
        dest: finish_dry_run_keeps finish_no_change_keeps finish_aborted_keeps)
qed

lemma choose_plan_enforced:
  assumes "choose_plan S cmd snapshot inp = Some (Apply pln, lifted)" "\<not> cmd_accept cmd"
  shows "plan (re_ucd (sy_register S)) (sy_jiff S) snapshot inp = Some (Apply pln) \<and> lifted = None"
  using assms by (auto simp: choose_plan_def Let_def split: option.splits sync_outcome.splits abort_reason.splits)

lemma plan_within_breaker:
  "plan u j snapshot inp = Some (Apply pln) \<Longrightarrow> in_kind inp = Sync \<Longrightarrow> mass_change snapshot (p_counts pln) = None"
  by (auto simp: plan_def plan_with_def Let_def split: if_splits option.splits)

lemma sync_committed:
  assumes "sync S cmd db = (e, ps, db')" "register_part db' \<noteq> register_part db" "others_keep_register S"
  obtains snapshot inp pln lifted where "load_snapshot db = Inr snapshot" "in_kind inp = cmd_kind cmd"
    "choose_plan S cmd snapshot inp = Some (Apply pln, lifted)" "\<not> cmd_dry_run cmd"
  using assms(1)
proof (cases rule: syncE)
  case unstarted
  with assms(2) show thesis by simp
next
  case (begun run begun out d)
  have changed: "register_part d \<noteq> register_part db"
    using begun(3) assms(2) by (auto simp: record_run_failure_keeps split: ended.splits)
  from begun(2) show thesis
  proof (cases rule: executeE)
    case (stops e)
    with assms(3) changed start_run_keeps [OF begun(1)] show thesis by (auto simp: others_keep_register_def)
  next
    case (settled fetched snapshot)
    have same: "register_part (sy_meanwhile S begun) = register_part db"
      using assms(3) start_run_keeps [OF begun(1)] by (simp add: others_keep_register_def)
    with changed have "register_part d \<noteq> register_part (sy_meanwhile S begun)" by simp
    from settle_committed [OF settled(2) this] obtain pln lifted
      where "choose_plan S cmd snapshot (run_inputs cmd (moment_at (oslo_today (sy_jiff S)) (sy_now S)) fetched) = Some (Apply pln, lifted)"
        "\<not> cmd_dry_run cmd" by metis
    from that [OF _ _ this] settled(1) load_snapshot_part [OF same] show thesis by (simp add: run_inputs_def)
  qed
qed

end
