(* ===== verification/Fetch_Properties.thy ===== *)
theory Fetch_Properties
  imports Register_Fetch "HOL-Library.Multiset"
begin

text \<open>
  The worker pool: what any schedule of the workers makes of the answers. The measure shows that the rounds
  end every worker, the invariant that no orgnr is lost or asked for twice.
\<close>

section \<open>The workers return\<close>

fun worker_weight :: "'t worker \<Rightarrow> nat" where
  "worker_weight (W_Looking got) = 2"
| "worker_weight (W_Taking got) = 1"
| "worker_weight (W_Waiting got orgnr) = 3"
| "worker_weight W_Ended = 0"

definition pool_weight :: "'t pool \<Rightarrow> nat" where
  "pool_weight st = 3 * length (po_queue st) + sum_list (map worker_weight (po_workers st))"

lemma sum_list_put:
  fixes f :: "'a \<Rightarrow> nat"
  shows "w < length xs \<Longrightarrow> sum_list (map f (xs[w := x])) + f (xs ! w) = sum_list (map f xs) + f x"
  by (induction xs arbitrary: w) (auto simp: nth_Cons split: nat.splits)

lemma pool_weight_put:
  assumes "w < length (po_workers st)"
  shows "pool_weight (becomes w x st) + worker_weight (po_workers st ! w) = pool_weight st + worker_weight x"
    "pool_weight (ends w r st) + worker_weight (po_workers st ! w) = pool_weight st"
  using sum_list_put [OF assms, of worker_weight x] sum_list_put [OF assms, of worker_weight W_Ended]
  by (simp_all add: pool_weight_def becomes_def ends_def)

lemma pool_weight_queue:
  "po_queue st = orgnr # rest \<Longrightarrow> pool_weight (st\<lparr>po_queue := rest\<rparr>) + 3 = pool_weight st"
  "pool_weight (st\<lparr>po_failed := b\<rparr>) = pool_weight st"
  by (simp_all add: pool_weight_def)

lemma worker_step_weight:
  assumes "w < length (po_workers st)" "po_workers st ! w \<noteq> W_Ended"
  shows "pool_weight (worker_step ask w st) < pool_weight st"
proof (cases "po_workers st ! w")
  case (W_Looking got)
  with assms pool_weight_put(1) [OF assms(1), of "W_Taking got"] pool_weight_put(2) [OF assms(1), of "Joined_Ok got"]
  show ?thesis by (simp add: worker_step_def)
next
  case (W_Taking got)
  show ?thesis
  proof (cases "po_queue st")
    case Nil
    with assms W_Taking pool_weight_put(2) [OF assms(1), of "Joined_Ok got"] show ?thesis by (simp add: worker_step_def)
  next
    case (Cons orgnr rest)
    with assms W_Taking pool_weight_put(1) [of w "st\<lparr>po_queue := rest\<rparr>" "W_Waiting got orgnr"] pool_weight_queue(1) [OF Cons]
    show ?thesis by (simp add: worker_step_def)
  qed
next
  case (W_Waiting got orgnr)
  show ?thesis
  proof (cases "ask orgnr")
    case (Answered u)
    with assms W_Waiting pool_weight_put(1) [OF assms(1), of "W_Looking (got @ [u])"] show ?thesis by (simp add: worker_step_def)
  next
    case (Answer_Failed e)
    with assms W_Waiting pool_weight_put(2) [of w "st\<lparr>po_failed := True\<rparr>" "Joined_Err e"] pool_weight_queue(2) [where st = st and b = True]
    show ?thesis by (simp add: worker_step_def)
  next
    case Answer_Panicked
    with assms W_Waiting pool_weight_put(2) [OF assms(1), of Joined_Panicked] show ?thesis by (simp add: worker_step_def)
  qed
qed (use assms in simp)

lemma worker_step_ended:
  "w < length (po_workers st) \<Longrightarrow> po_workers st ! w = W_Ended \<Longrightarrow> worker_step ask w st = st"
  by (simp add: worker_step_def)

lemma worker_step_length [simp]: "length (po_workers (worker_step ask w st)) = length (po_workers st)"
  by (simp add: worker_step_def becomes_def ends_def split: worker.splits list.splits answer.splits)

lemma run_pool_simps [simp]:
  "run_pool ask [] st = st" "run_pool ask (w # ws) st = run_pool ask ws (worker_step ask w st)"
  "run_pool ask (ws @ vs) st = run_pool ask vs (run_pool ask ws st)"
  by (simp_all add: run_pool_def)

lemma run_pool_length [simp]: "length (po_workers (run_pool ask ws st)) = length (po_workers st)"
  by (induction ws arbitrary: st) simp_all

lemma worker_step_weight_le: "pool_weight (worker_step ask w st) \<le> pool_weight st"
proof (cases "w < length (po_workers st) \<and> po_workers st ! w \<noteq> W_Ended")
  case True
  with worker_step_weight show ?thesis by (meson less_imp_le)
next
  case False
  then have "worker_step ask w st = st" by (auto simp: worker_step_def)
  then show ?thesis by simp
qed

lemma run_pool_weight_le: "pool_weight (run_pool ask ws st) \<le> pool_weight st"
  by (induction ws arbitrary: st) (auto intro: order_trans worker_step_weight_le)

text \<open>A worker that steps in a list of steps, and has not returned, makes the pool lighter.\<close>

lemma run_pool_weight:
  assumes "w \<in> set ws" "w < length (po_workers st)" "po_workers st ! w \<noteq> W_Ended"
  shows "pool_weight (run_pool ask ws st) < pool_weight st"
  using assms
proof (induction ws arbitrary: st)
  case (Cons v ws)
  show ?case
  proof (cases "v < length (po_workers st) \<and> po_workers st ! v \<noteq> W_Ended")
    case True
    with worker_step_weight [of v st ask] run_pool_weight_le [of ask ws "worker_step ask v st"] show ?thesis by simp
  next
    case False
    then have "worker_step ask v st = st" by (auto simp: worker_step_def)
    with Cons False show ?thesis by auto
  qed
qed simp

definition all_ended :: "'t pool \<Rightarrow> bool" where
  "all_ended st \<longleftrightarrow> list_all (\<lambda>w. w = W_Ended) (po_workers st)"

lemma all_ended_stays: "all_ended st \<Longrightarrow> run_pool ask ws st = st"
proof (induction ws)
  case (Cons w ws)
  then have "worker_step ask w st = st" by (auto simp: worker_step_def all_ended_def list_all_length)
  with Cons show ?case by simp
qed simp

lemma rounds_Suc: "rounds (Suc n) = [0..<details_in_parallel] @ rounds n"
  by (simp add: rounds_def)

lemma worker_weight_0 [simp]: "worker_weight w = 0 \<longleftrightarrow> w = W_Ended"
  by (cases w) simp_all

lemma rounds_end:
  "length (po_workers st) = details_in_parallel \<Longrightarrow> pool_weight st \<le> n \<Longrightarrow> all_ended (run_pool ask (rounds n) st)"
proof (induction n arbitrary: st)
  case 0
  then show ?case by (auto simp: rounds_def pool_weight_def all_ended_def list_all_length)
next
  case (Suc n)
  let ?st = "run_pool ask [0..<details_in_parallel] st"
  show ?case
  proof (cases "all_ended st")
    case True
    then show ?thesis using all_ended_stays by metis
  next
    case False
    then obtain w where w: "w < length (po_workers st)" "po_workers st ! w \<noteq> W_Ended"
      by (auto simp: all_ended_def list_all_length)
    with Suc.prems(1) run_pool_weight [of w "[0..<details_in_parallel]" st ask] have "pool_weight ?st < pool_weight st" by simp
    with Suc.prems Suc.IH [of ?st] show ?thesis by (simp add: rounds_Suc)
  qed
qed

lemma pool_start_weight: "pool_weight (pool_start orgnrs) = enough_rounds orgnrs"
  by (simp add: pool_weight_def pool_start_def enough_rounds_def sum_list_replicate)

lemma pool_start_length [simp]: "length (po_workers (pool_start orgnrs)) = details_in_parallel"
  by (simp add: pool_start_def)

lemma pool_ends: "all_ended (run_pool ask (schedule @ rounds (enough_rounds orgnrs)) (pool_start orgnrs))"
  using rounds_end [of "run_pool ask schedule (pool_start orgnrs)" "enough_rounds orgnrs" ask]
    run_pool_weight_le [of ask schedule "pool_start orgnrs"]
  by (simp add: pool_start_weight)

section \<open>Nothing is lost\<close>

text \<open>What a worker carries, the orgnr it waits for, and what the joined workers returned.\<close>

fun carried :: "'t worker \<Rightarrow> ('t nsr_unit \<times> bytes) list" where
  "carried (W_Looking got) = got"
| "carried (W_Taking got) = got"
| "carried (W_Waiting got orgnr) = got"
| "carried W_Ended = []"

fun awaited :: "'t worker \<Rightarrow> str list" where
  "awaited (W_Waiting got orgnr) = [orgnr]"
| "awaited _ = []"

fun returned :: "'t joined \<Rightarrow> ('t nsr_unit \<times> bytes) list" where
  "returned (Joined_Ok items) = items"
| "returned _ = []"

fun joined_ok :: "'t joined \<Rightarrow> bool" where
  "joined_ok (Joined_Ok items) \<longleftrightarrow> True"
| "joined_ok _ \<longleftrightarrow> False"

definition in_hand :: "'t pool \<Rightarrow> ('t nsr_unit \<times> bytes) multiset" where
  "in_hand st = mset (concat (map carried (po_workers st))) + mset (concat (map returned (po_joined st)))"

definition unanswered :: "'t pool \<Rightarrow> str multiset" where
  "unanswered st = mset (po_queue st) + mset (concat (map awaited (po_workers st)))"

lemma concat_put:
  assumes "w < length xs"
  shows "mset (concat (map f (xs[w := x]))) + mset (f (xs ! w)) = mset (concat (map f xs)) + mset (f x)"
  using assms by (induction xs arbitrary: w) (auto simp: nth_Cons split: nat.splits)

text \<open>The orgnrs answered so far, while no worker has failed.\<close>

definition pool_ok :: "(str \<Rightarrow> 't answer) \<Rightarrow> str list \<Rightarrow> 't pool \<Rightarrow> bool" where
  "pool_ok ask orgnrs st \<longleftrightarrow> list_all joined_ok (po_joined st) \<longrightarrow>
     \<not> po_failed st \<and> (po_joined st \<noteq> [] \<longrightarrow> po_queue st = [])
     \<and> (\<exists>S. mset orgnrs = unanswered st + S \<and> image_mset ask S = image_mset Answered (in_hand st))"

definition joins_workers :: "'t pool \<Rightarrow> bool" where
  "joins_workers st \<longleftrightarrow> length (po_joined st) = length (filter (\<lambda>w. w = W_Ended) (po_workers st))"

lemma pool_ok_start: "pool_ok ask orgnrs (pool_start orgnrs)"
  by (auto simp: pool_ok_def pool_start_def unanswered_def in_hand_def map_replicate_const)

lemma pool_ok_keep:
  assumes "pool_ok ask orgnrs st" "list_all joined_ok (po_joined st') \<Longrightarrow> list_all joined_ok (po_joined st)"
    "po_failed st' = po_failed st" "po_joined st' \<noteq> [] \<Longrightarrow> po_joined st \<noteq> [] \<or> po_queue st = []"
    "po_queue st = [] \<Longrightarrow> po_queue st' = []" "unanswered st' = unanswered st" "in_hand st' = in_hand st"
  shows "pool_ok ask orgnrs st'"
  using assms by (auto simp: pool_ok_def)

lemma in_hand_put:
  assumes "w < length (po_workers st)"
  shows "in_hand (becomes w x st) + mset (carried (po_workers st ! w)) = in_hand st + mset (carried x)"
    "in_hand (ends w r st) + mset (carried (po_workers st ! w)) = in_hand st + mset (returned r)"
    "unanswered (becomes w x st) + mset (awaited (po_workers st ! w)) = unanswered st + mset (awaited x)"
    "unanswered (ends w r st) + mset (awaited (po_workers st ! w)) = unanswered st"
  using concat_put [OF assms, of carried] concat_put [OF assms, of awaited]
  by (simp_all add: in_hand_def unanswered_def becomes_def ends_def ac_simps union_lcomm)

lemma pool_ok_step:
  assumes ok: "pool_ok ask orgnrs st" and w: "w < length (po_workers st)"
  shows "pool_ok ask orgnrs (worker_step ask w st)"
proof (cases "po_workers st ! w")
  case (W_Looking got)
  note hand = in_hand_put [OF w, unfolded W_Looking, simplified]
  show ?thesis
  proof (cases "po_failed st")
    case True
    with ok have "\<not> list_all joined_ok (po_joined st)" by (auto simp: pool_ok_def)
    with W_Looking True w show ?thesis by (simp add: worker_step_def pool_ok_def ends_def)
  next
    case False
    show ?thesis
    proof (rule pool_ok_keep [OF ok])
      show "in_hand (worker_step ask w st) = in_hand st" "unanswered (worker_step ask w st) = unanswered st"
        using W_Looking False w hand(1) [of "W_Taking got"] hand(3) [of "W_Taking got"] by (simp_all add: worker_step_def)
    qed (use W_Looking False w in \<open>simp_all add: worker_step_def becomes_def\<close>)
  qed
next
  case (W_Taking got)
  note hand = in_hand_put [OF w, unfolded W_Taking, simplified]
  show ?thesis
  proof (cases "po_queue st")
    case Nil
    show ?thesis
    proof (rule pool_ok_keep [OF ok])
      show "in_hand (worker_step ask w st) = in_hand st" "unanswered (worker_step ask w st) = unanswered st"
        using W_Taking Nil w hand(2) [of "Joined_Ok got"] hand(4) by (simp_all add: worker_step_def)
    qed (use W_Taking Nil w in \<open>simp_all add: worker_step_def ends_def\<close>)
  next
    case (Cons orgnr rest)
    let ?st = "st\<lparr>po_queue := rest\<rparr>"
    have w': "w < length (po_workers ?st)" and at: "po_workers ?st ! w = W_Taking got" using w W_Taking by simp_all
    note hand' = in_hand_put [OF w', unfolded at, simplified]
    have q: "unanswered st = unanswered ?st + {#orgnr#}" by (simp add: unanswered_def Cons)
    show ?thesis
    proof (rule pool_ok_keep [OF ok])
      show "in_hand (worker_step ask w st) = in_hand st"
        using W_Taking Cons w hand'(1) [of "W_Waiting got orgnr"] by (simp add: worker_step_def in_hand_def)
      show "unanswered (worker_step ask w st) = unanswered st"
        using W_Taking Cons w hand'(3) [of "W_Waiting got orgnr"] q by (simp add: worker_step_def)
    qed (use W_Taking Cons w in \<open>simp_all add: worker_step_def becomes_def\<close>)
  qed
next
  case (W_Waiting got orgnr)
  note hand = in_hand_put [OF w, unfolded W_Waiting, simplified]
  show ?thesis
  proof (cases "ask orgnr")
    case (Answered u)
    let ?st = "becomes w (W_Looking (got @ [u])) st"
    have step: "worker_step ask w st = ?st" using W_Waiting Answered w by (simp add: worker_step_def)
    have fields: "po_joined ?st = po_joined st" "po_failed ?st = po_failed st" "po_queue ?st = po_queue st"
      by (simp_all add: becomes_def)
    from hand(1) [of "W_Looking (got @ [u])"] have h: "in_hand ?st = in_hand st + {#u#}" by simp
    from hand(3) [of "W_Looking (got @ [u])"] have q: "unanswered st = unanswered ?st + {#orgnr#}" by simp
    show ?thesis unfolding step pool_ok_def fields
    proof (intro impI)
      assume "list_all joined_ok (po_joined st)"
      with ok obtain S where S: "\<not> po_failed st" "po_joined st \<noteq> [] \<longrightarrow> po_queue st = []"
        "mset orgnrs = unanswered st + S" "image_mset ask S = image_mset Answered (in_hand st)" by (auto simp: pool_ok_def)
      then have "mset orgnrs = unanswered ?st + add_mset orgnr S
        \<and> image_mset ask (add_mset orgnr S) = image_mset Answered (in_hand ?st)"
        by (simp add: h q Answered)
      with S(1,2) show "\<not> po_failed st \<and> (po_joined st \<noteq> [] \<longrightarrow> po_queue st = [])
        \<and> (\<exists>S. mset orgnrs = unanswered ?st + S \<and> image_mset ask S = image_mset Answered (in_hand ?st))" by blast
    qed
  next
    case (Answer_Failed e)
    with W_Waiting w show ?thesis by (simp add: worker_step_def pool_ok_def ends_def)
  next
    case Answer_Panicked
    with W_Waiting w show ?thesis by (simp add: worker_step_def pool_ok_def ends_def)
  qed
next
  case W_Ended
  with ok w show ?thesis by (simp add: worker_step_ended)
qed

lemma pool_ok_run: "pool_ok ask orgnrs st \<Longrightarrow> pool_ok ask orgnrs (run_pool ask ws st)"
proof (induction ws arbitrary: st)
  case (Cons w ws)
  have "pool_ok ask orgnrs (worker_step ask w st)"
    using pool_ok_step [OF Cons.prems] Cons.prems by (cases "w < length (po_workers st)") (simp_all add: worker_step_def)
  with Cons.IH show ?case by simp
qed simp

text \<open>A worker that has returned has been joined, and what was answered stays within the queue.\<close>

lemma filter_put:
  "w < length xs \<Longrightarrow> xs ! w \<noteq> y \<Longrightarrow>
     length (filter (\<lambda>x. x = y) (xs[w := z])) = length (filter (\<lambda>x. x = y) xs) + (if z = y then 1 else 0)"
  by (induction xs arbitrary: w) (auto simp: nth_Cons split: nat.splits)

lemma joins_workers_step: "joins_workers st \<Longrightarrow> joins_workers (worker_step ask w st)"
  by (auto simp: joins_workers_def worker_step_def becomes_def ends_def filter_put
      split: worker.splits list.splits answer.splits)

lemma joins_workers_run: "joins_workers st \<Longrightarrow> joins_workers (run_pool ask ws st)"
  by (induction ws arbitrary: st) (simp_all add: joins_workers_step)

lemma joins_workers_start: "joins_workers (pool_start orgnrs)"
  by (simp add: joins_workers_def pool_start_def)

section \<open>Failures come from answers\<close>

definition pool_answers :: "(str \<Rightarrow> 't answer) \<Rightarrow> str list \<Rightarrow> 't pool \<Rightarrow> bool" where
  "pool_answers ask orgnrs st \<longleftrightarrow> set_mset (unanswered st) \<subseteq> set orgnrs
     \<and> (list_all joined_ok (po_joined st) \<or> (\<exists>n\<in>set orgnrs. \<forall>u. ask n \<noteq> Answered u))"

lemma unanswered_shrinks:
  assumes w: "w < length (po_workers st)"
  shows "unanswered (worker_step ask w st) \<subseteq># unanswered st"
proof (cases "po_workers st ! w")
  case (W_Looking got)
  with w in_hand_put(3) [OF w, of "W_Taking got"] in_hand_put(4) [OF w, of "Joined_Ok got"]
  show ?thesis by (simp add: worker_step_def)
next
  case (W_Taking got)
  show ?thesis
  proof (cases "po_queue st")
    case Nil
    with W_Taking w in_hand_put(4) [OF w, of "Joined_Ok got"] show ?thesis by (simp add: worker_step_def)
  next
    case (Cons orgnr rest)
    let ?st = "st\<lparr>po_queue := rest\<rparr>"
    from Cons have "unanswered st = unanswered ?st + {#orgnr#}" by (simp add: unanswered_def)
    with W_Taking Cons w in_hand_put(3) [of w ?st "W_Waiting got orgnr"] show ?thesis by (simp add: worker_step_def)
  qed
next
  case (W_Waiting got orgnr)
  have same: "unanswered (st\<lparr>po_failed := True\<rparr>) = unanswered st" by (simp add: unanswered_def)
  show ?thesis
    using W_Waiting w in_hand_put(3) [OF w, of "W_Looking (got @ [u])" for u] in_hand_put(4) [OF w, of Joined_Panicked]
      in_hand_put(4) [of w "st\<lparr>po_failed := True\<rparr>"] same
    by (cases "ask orgnr") (auto simp: worker_step_def dest: sym)
qed (use w in \<open>simp add: worker_step_def\<close>)

lemma step_fails:
  assumes "w < length (po_workers st)" "list_all joined_ok (po_joined st)" "\<not> list_all joined_ok (po_joined (worker_step ask w st))"
  obtains got orgnr where "po_workers st ! w = W_Waiting got orgnr" "\<forall>u. ask orgnr \<noteq> Answered u"
proof (cases "po_workers st ! w")
  case (W_Looking got)
  with assms show thesis by (simp add: worker_step_def becomes_def ends_def split: if_splits)
next
  case (W_Taking got)
  with assms show thesis by (simp add: worker_step_def becomes_def ends_def split: list.splits)
next
  case (W_Waiting got orgnr)
  show thesis
  proof (rule that [OF W_Waiting], cases "ask orgnr")
    case (Answered u)
    with assms W_Waiting show "\<forall>u. ask orgnr \<noteq> Answered u" by (simp add: worker_step_def becomes_def)
  qed simp_all
next
  case W_Ended
  with assms show thesis by (simp add: worker_step_def)
qed

lemma pool_answers_step:
  assumes "pool_answers ask orgnrs st"
  shows "pool_answers ask orgnrs (worker_step ask w st)"
proof (cases "w < length (po_workers st)")
  case w: True
  let ?st = "worker_step ask w st"
  from assms set_mset_mono [OF unanswered_shrinks [OF w, of ask]] have sub: "set_mset (unanswered ?st) \<subseteq> set orgnrs"
    by (auto simp: pool_answers_def)
  have "\<exists>n\<in>set orgnrs. \<forall>u. ask n \<noteq> Answered u"
    if bad: "list_all joined_ok (po_joined st)" "\<not> list_all joined_ok (po_joined ?st)"
  proof -
    from step_fails [OF w bad] obtain got orgnr where f: "po_workers st ! w = W_Waiting got orgnr" "\<forall>u. ask orgnr \<noteq> Answered u" .
    from f(1) nth_mem [OF w] have "W_Waiting got orgnr \<in> set (po_workers st)" by simp
    then have "orgnr \<in> set_mset (unanswered st)" by (force simp: unanswered_def)
    with f(2) assms show ?thesis by (auto simp: pool_answers_def)
  qed
  with sub assms show ?thesis by (auto simp: pool_answers_def)
next
  case False
  with assms show ?thesis by (simp add: worker_step_def)
qed

lemma pool_answers_run: "pool_answers ask orgnrs st \<Longrightarrow> pool_answers ask orgnrs (run_pool ask ws st)"
  by (induction ws arbitrary: st) (simp_all add: pool_answers_step)

lemma pool_answers_start: "pool_answers ask orgnrs (pool_start orgnrs)"
  by (simp add: pool_answers_def pool_start_def unanswered_def map_replicate_const)

section \<open>What the pool returns\<close>

lemma join_all_ok: "list_all joined_ok js \<Longrightarrow> join_all js got None = Inr (got @ concat (map returned js))"
proof (induction js arbitrary: got)
  case (Cons j js)
  then show ?case by (cases j) simp_all
qed simp

lemma join_all_error: "\<exists>e. join_all js got (Some e') = Inl e"
  by (induction js got "Some e'" arbitrary: e' rule: join_all.induct) (auto simp: unwrap_or_def)

lemma join_all_failed: "\<not> list_all joined_ok js \<Longrightarrow> \<exists>e. join_all js got None = Inl e"
proof (induction js arbitrary: got)
  case (Cons j js)
  show ?case
  proof (cases j)
    case (Joined_Ok items)
    with Cons show ?thesis by simp
  next
    case (Joined_Err e)
    with join_all_error show ?thesis by (simp add: unwrap_or_def)
  qed simp
qed simp

lemma all_ended_nothing_carried:
  assumes "all_ended st" shows "concat (map carried (po_workers st)) = []" "concat (map awaited (po_workers st)) = []"
  using assms by (auto simp: all_ended_def list_all_iff)

lemma answers_functional: "image_mset ask S = image_mset Answered M \<Longrightarrow> ask n = Answered u \<Longrightarrow> n \<in># S \<Longrightarrow> u \<in># M"
proof -
  assume a: "image_mset ask S = image_mset Answered M" "ask n = Answered u" "n \<in># S"
  then have "Answered u \<in># image_mset Answered M" by (metis image_eqI set_image_mset)
  then show "u \<in># M" by auto
qed

text \<open>With every orgnr answered the pool returns just the answers, else an error.\<close>

lemma details_pool:
  "(case details ask schedule orgnrs of
      Inr got \<Rightarrow> sorted (map (\<lambda>u. u_orgnr (fst u)) got) \<and> image_mset ask (mset orgnrs) = image_mset Answered (mset got)
    | Inl e \<Rightarrow> \<exists>n\<in>set orgnrs. \<forall>u. ask n \<noteq> Answered u)"
proof -
  let ?final = "run_pool ask (schedule @ rounds (enough_rounds orgnrs)) (pool_start orgnrs)"
  note ended = pool_ends [of ask schedule orgnrs]
  have ok: "pool_ok ask orgnrs ?final" by (rule pool_ok_run [OF pool_ok_start])
  have ans: "pool_answers ask orgnrs ?final" by (rule pool_answers_run [OF pool_answers_start])
  have "joins_workers ?final" by (rule joins_workers_run [OF joins_workers_start])
  moreover have "filter (\<lambda>w. w = W_Ended) (po_workers ?final) = po_workers ?final"
    using ended by (simp add: all_ended_def list_all_iff filter_id_conv)
  ultimately have "length (po_joined ?final) = details_in_parallel" by (simp add: joins_workers_def)
  then have joined: "po_joined ?final \<noteq> []" by (auto simp: details_in_parallel_def)
  show ?thesis
  proof (cases "list_all joined_ok (po_joined ?final)")
    case True
    with ok joined obtain S where S: "po_queue ?final = []" "mset orgnrs = unanswered ?final + S"
      "image_mset ask S = image_mset Answered (in_hand ?final)" by (auto simp: pool_ok_def)
    let ?got = "concat (map returned (po_joined ?final))"
    have "unanswered ?final = {#}" "in_hand ?final = mset ?got"
      unfolding unanswered_def in_hand_def all_ended_nothing_carried [OF ended] S(1) by simp_all
    with S have "image_mset ask (mset orgnrs) = image_mset Answered (mset ?got)" by simp
    moreover have "details ask schedule orgnrs = Inr (sort_key (\<lambda>u. u_orgnr (fst u)) ?got)"
      unfolding details_def join_all_ok [OF True] by simp
    ultimately show ?thesis by simp
  next
    case False
    from join_all_failed [OF False] obtain e where "join_all (po_joined ?final) [] None = Inl e" by blast
    then have "details ask schedule orgnrs = Inl e" unfolding details_def by simp
    with False ans show ?thesis by (simp add: pool_answers_def)
  qed
qed

lemma mset_answers: "image_mset ask (mset orgnrs) = image_mset Answered (mset got) \<Longrightarrow> n \<in> set orgnrs \<Longrightarrow> \<exists>u. ask n = Answered u"
  by (metis (no_types, lifting) image_iff set_image_mset set_mset_mset)

lemma sorted_same_answers:
  assumes "sorted ns" "sorted (map f got)" and alike: "image_mset ask (mset ns) = image_mset Answered (mset got)"
    and echo: "\<forall>n\<in>set ns. \<forall>u. ask n = Answered u \<longrightarrow> f u = n"
  shows "map ask ns = map Answered got"
proof -
  have own: "f (case ask n of Answered u \<Rightarrow> u) = n" if "n \<in> set ns" for n
    using mset_answers [OF alike that] echo that by auto
  from alike have "image_mset (\<lambda>a. f (case a of Answered u \<Rightarrow> u)) (image_mset ask (mset ns)) = image_mset f (mset got)"
    by (simp add: image_mset.compositionality comp_def)
  moreover have "image_mset (\<lambda>n. f (case ask n of Answered u \<Rightarrow> u)) (mset ns) = image_mset (\<lambda>n. n) (mset ns)"
    by (rule image_mset_cong) (simp add: own)
  ultimately have "mset (map f got) = mset ns" by (simp add: image_mset.compositionality comp_def)
  with assms(1,2) have ns: "ns = map f got" by (metis properties_for_sort sorted_sort_id)
  have "ask (f u) = Answered u" if u: "u \<in> set got" for u
  proof -
    from u have "Answered u \<in> set_mset (image_mset ask (mset ns))" unfolding alike by simp
    then obtain n where "n \<in> set ns" "ask n = Answered u" by auto
    with echo show ?thesis by metis
  qed
  then show ?thesis unfolding ns by simp
qed

text \<open>The reference: the units asked for one after another.\<close>

definition ask_in_turn :: "(str \<Rightarrow> 't answer) \<Rightarrow> str list \<Rightarrow> ('t nsr_unit \<times> bytes) list option" where
  "ask_in_turn ask orgnrs =
     (if list_all (\<lambda>n. case ask n of Answered u \<Rightarrow> True | _ \<Rightarrow> False) orgnrs
      then Some (map (\<lambda>n. case ask n of Answered u \<Rightarrow> u) orgnrs) else None)"

definition succeeded :: "('e, 'a) result \<Rightarrow> 'a option" where
  "succeeded r = (case r of Inr a \<Rightarrow> Some a | Inl e \<Rightarrow> None)"

lemma details_in_turn:
  assumes "sorted orgnrs" "\<forall>n\<in>set orgnrs. \<forall>u. ask n = Answered u \<longrightarrow> u_orgnr (fst u) = n"
  shows "succeeded (details ask schedule orgnrs) = ask_in_turn ask orgnrs"
proof (cases "details ask schedule orgnrs")
  case (Inl e)
  with details_pool [where ask = ask and schedule = schedule and orgnrs = orgnrs] obtain n where "n \<in> set orgnrs" "\<forall>u. ask n \<noteq> Answered u" by auto
  then have "\<not> list_all (\<lambda>n. case ask n of Answered u \<Rightarrow> True | _ \<Rightarrow> False) orgnrs"
    by (auto simp: list_all_iff split: answer.splits)
  with Inl show ?thesis by (simp add: succeeded_def ask_in_turn_def)
next
  case (Inr got)
  with details_pool [where ask = ask and schedule = schedule and orgnrs = orgnrs] have got: "sorted (map (\<lambda>u. u_orgnr (fst u)) got)"
    "image_mset ask (mset orgnrs) = image_mset Answered (mset got)" by simp_all
  from sorted_same_answers [OF assms(1) got assms(2)] have m: "map ask orgnrs = map Answered got" .
  then have "map (\<lambda>a. case a of Answered u \<Rightarrow> u) (map ask orgnrs) = got" unfolding m by (simp add: comp_def)
  then have "map (\<lambda>n. case ask n of Answered u \<Rightarrow> u) orgnrs = got" by (simp add: comp_def)
  moreover have "list_all (\<lambda>n. case ask n of Answered u \<Rightarrow> True | _ \<Rightarrow> False) orgnrs"
    using mset_answers [OF got(2)] by (fastforce simp: list_all_iff)
  ultimately show ?thesis using Inr by (simp add: succeeded_def ask_in_turn_def)
qed

end
