(* ===== verification/Register_Samples.thy ===== *)
theory Register_Samples
  imports School_Refinement Sync_Run_Facts Fetch_Properties Sync_Samples
begin

text \<open>
  A small database for the witnesses: one municipality with two schools, and a world whose sources give them
  again, with a new name for the municipality and one new school.
\<close>

definition sample_env :: "(int, int) register_env" where
  "sample_env = \<lparr>re_uuid = (\<lambda>n. 100 + n), re_next_day = (\<lambda>d. d + 1), re_oslo = (\<lambda>t. t),
     re_sha256 = (\<lambda>bs. replicate 32 7), re_ucd = sample_ucd, re_details_fit = (\<lambda>d. True), re_is_json = (\<lambda>s. True)\<rparr>"

definition sample_school_row :: "nat \<Rightarrow> string \<Rightarrow> string \<Rightarrow> string \<Rightarrow> (int, int) school_row" where
  "sample_school_row i orgnr name slug =
     \<lparr>sch_id = i, sch_municipality = 1, sch_origin = Register, sch_display_name = lit name,
      sch_register_name = Some (lit name), sch_display_name_curated = False, sch_slug = Some (lit slug),
      sch_verification = Listed, sch_verified_at = None, sch_orgnr = Some (lit orgnr),
      sch_attributes = attributes_from_unit (sample_unit orgnr name), sch_in_scope = True, sch_scope_override = None,
      sch_status = School_Active, sch_closed_on = None, sch_closure_reason = None, sch_successor = None,
      sch_source_changed_at = None, sch_last_seen_at = None, sch_search_text = lit name, sch_created_at = 0, sch_updated_at = 0\<rparr>"

definition sample_db :: "(int, int) register_db" where
  "sample_db =
     \<lparr>rg_municipalities = [\<lparr>mun_id = 1, mun_name = lit ''Baerum'', mun_official_name = Some (lit ''Baerum''),
        mun_county_number = lit ''32'', mun_county_name = lit ''Akershus'', mun_slug = lit ''3201-baerum'',
        mun_status = Municipality_Active, mun_dissolved_on = None, mun_source = Kartverket, mun_search_text = lit ''baerum'',
        mun_created_at = 0, mun_updated_at = 0\<rparr>],
      rg_names = [\<lparr>mna_municipality = 1, mna_name = lit ''Baerum'', mna_language = lit ''no'', mna_priority = 1\<rparr>],
      rg_numbers = [\<lparr>num_municipality = 1, num_number = lit ''3201'', num_valid_from = 0, num_valid_until = None\<rparr>],
      rg_municipality_slugs = [],
      rg_schools = [sample_school_row 10 ''974111111'' ''Jar'' ''jar''],
      rg_orgnrs = [], rg_school_slugs = [], rg_tenants = [], rg_links = [], rg_reviews = [],
      rg_runs = [\<lparr>run_id = 50, run_kind = Run_Seed, run_started_at = 0, run_finished_at = Some 1,
        run_outcome = Some Run_Applied, run_tally = J_Object [], run_abort_reason = None\<rparr>],
      rg_records = [], rg_audit = [], rg_outbox = [], rg_drawn = 0\<rparr>"

definition sample_dto :: "str \<Rightarrow> string \<Rightarrow> unit_dto" where
  "sample_dto orgnr name =
     \<lparr>ud_orgnr = orgnr, ud_name = lit name, ud_municipality_number = lit ''3201'', ud_is_active = True, ud_is_school = True,
      ud_is_primary_school = True, ud_is_private = False, ud_categories = [], ud_nace = [(1, lit ''85.201'')],
      ud_grade_from = Some 1, ud_grade_to = Some 10, ud_language = None, ud_website = None, ud_visiting = None, ud_postal = None,
      ud_closure = None, ud_closed_at = None, ud_changed = None\<rparr>"

definition sample_item :: "string \<Rightarrow> list_item_dto" where
  "sample_item orgnr =
     \<lparr>dto_orgnr = lit orgnr, dto_name = [], dto_municipality_number = lit ''3201'', dto_is_active = True, dto_is_school = True,
      dto_is_primary_school = True, dto_changed = None\<rparr>"

fun sample_answers :: "int request \<Rightarrow> nat \<Rightarrow> response" where
  "sample_answers (Nsr_Detail orgnr) n = Response 200 (Some orgnr)"
| "sample_answers (Nsr_Page p) n = (if n = 0 then Response 503 None else Response 200 (Some [p]))"
| "sample_answers _ n = Response 200 (Some [])"

definition sample_world :: "county_dto list \<Rightarrow> (int, int) source_world" where
  "sample_world counties =
     \<lparr>sw_answers = sample_answers,
      sw_list = (\<lambda>b. Inl \<lparr>de_category = Cat_Eof, de_message = [], de_line = 1, de_column = 0\<rparr>),
      sw_paged_list = (\<lambda>b. Inr \<lparr>pd_page = 1, pd_page_count = 1, pd_total = 1,
         pd_units = [sample_item ''974111111'']\<rparr>),
      sw_unit = (\<lambda>b. Inr (sample_dto b ''Jar'')),
      sw_counties = (\<lambda>b. Inr counties), sw_changes = (\<lambda>b. Inr []), sw_timestamp = (\<lambda>s. None), sw_date = (\<lambda>s. None)\<rparr>"

definition sample_counties :: "county_dto list" where
  "sample_counties =
     [\<lparr>cd_number = lit ''32'', cd_name = lit ''Akershus'', cd_municipalities =
        [\<lparr>md_number = lit ''3201'', md_name = lit ''Baerum'', md_norwegian = lit ''Baerum'',
          md_names = [\<lparr>nd_name = Some (lit ''Baerum''), nd_priority = 1, nd_language = Some (lit ''Norwegian'')\<rparr>]\<rparr>]\<rparr>]"

definition sample_sync :: "county_dto list \<Rightarrow> (int, int) sync_env" where
  "sample_sync counties =
     \<lparr>sy_register = sample_env, sy_jiff = sample_jiff, sy_world = sample_world counties, sy_client = None,
      sy_panics = (\<lambda>n. False), sy_schedule = [3, 1, 3, 0, 2, 2, 3, 1], sy_locked = False, sy_fault = (\<lambda>ph. None),
      sy_commit = Committed, sy_meanwhile = (\<lambda>db. db), sy_now = 100, sy_finished = 101\<rparr>"

definition sample_command :: "bool \<Rightarrow> sync_command" where
  "sample_command dry_run = \<lparr>cmd_kind = Sync, cmd_dry_run = dry_run, cmd_accept = False\<rparr>"

definition sample_ran :: "county_dto list \<Rightarrow> bool \<Rightarrow> exit option \<times> json list \<times> (int, int) register_db" where
  "sample_ran counties dry_run = sync (sample_sync counties) (sample_command dry_run) sample_db"

text \<open>A run on a world whose Kartverket is empty is aborted.\<close>

declare and_then_def [code_unfold] query_def [code_unfold]

lemma sample_aborted: "fst (sample_ran [] False) = Some Exit_Aborted"
  by code_simp

lemma sample_surroundings:
  "\<not> commit_in_doubt (sample_sync counties)" "others_keep_register (sample_sync counties)" "others_keep_runs (sample_sync counties)"
  by (simp_all add: sample_sync_def commit_in_doubt_def others_keep_register_def others_keep_runs_def)

section \<open>A plan for the database\<close>

definition sample_moment :: "(int, int) moment" where
  "sample_moment = \<lparr>m_now = 100, m_today = 100\<rparr>"

definition grades :: "int \<Rightarrow> int \<Rightarrow> school_attributes" where
  "grades a b = (attributes_from_unit (sample_unit ''974111111'' ''Jar''))\<lparr>a_grade_from := Some a, a_grade_to := Some b\<rparr>"

definition database_plan :: "(uuid, int, int) sync_plan" where
  "database_plan =
     \<lparr>p_municipality_ops = [Renumber 1 (lit ''3201'') (lit ''3301'') 5 None (lit ''3201-baerum'') (lit ''3301-baerum''),
        Municipality_Rename 1 (lit ''Asker'') (lit ''3301-baerum'') (lit ''3301-asker'')],
      p_school_ops = [School_Create 0 (Existing 1) (lit ''980111111'') (lit ''Hosle'') (lit ''Hosle'') (Some (lit ''hosle''))
          Create_Listed True (grades 1 7) None,
        Close 10 Merged 100 (Some (New 0))],
      p_reviews = [], p_counts = default_counts\<rparr>"

definition sample_loaded :: "uuid register_snapshot" where
  "sample_loaded = (case load_snapshot sample_db of Inr s \<Rightarrow> s | Inl e \<Rightarrow> empty_snapshot)"

definition database_run :: "(applied_counts \<times> (int, int) register_db) register_result" where
  "database_run = apply_register_plan sample_env database_plan sample_moment sample_db"

definition went_through :: "('e, 'a) result \<Rightarrow> bool" where
  "went_through r \<longleftrightarrow> (case r of Inr a \<Rightarrow> True | Inl e \<Rightarrow> False)"

lemma sample_loads: "load_snapshot sample_db = Inr sample_loaded"
proof -
  have "went_through (load_snapshot sample_db)" by code_simp
  then show ?thesis by (auto simp: sample_loaded_def went_through_def split: sum.splits)
qed

lemma sample_db_ok: "sql_ok sample_db"
  by code_simp

lemma database_runs: "went_through database_run"
  by code_simp

lemma database_plan_fits:
  "renames_fit (ni_municipalities (fst (allocate sample_env database_plan sample_db))) sample_loaded (p_municipality_ops database_plan)
   \<and> list_all names_fit (p_municipality_ops database_plan)"
  by code_simp

section \<open>A unit whose grades are the wrong way round\<close>

definition grades_units :: "int nsr_unit list" where
  "grades_units = [(sample_unit ''974111111'' ''Jar'')\<lparr>u_grade_from := Some 7, u_grade_to := Some 1\<rparr>]"

definition grades_inputs :: "(int, int) sync_inputs" where
  "grades_inputs =
     \<lparr>in_municipalities = [\<lparr>mr_number = lit ''3201'', mr_norwegian_name = lit ''Baerum'', mr_official_name = lit ''Baerum'',
        mr_county_number = lit ''32'', mr_county_name = lit ''Akershus'',
        mr_names = [\<lparr>on_name = lit ''Baerum'', on_language = lit ''no'', on_priority = 1\<rparr>]\<rparr>],
      in_code_changes = [], in_units = grades_units, in_kind = Sync, in_at = sample_moment\<rparr>"

definition grades_outcome :: "(uuid, int, int) sync_outcome option" where
  "grades_outcome = plan sample_ucd sample_jiff sample_loaded grades_inputs"

definition refused_by :: "'a register_result \<Rightarrow> bool" where
  "refused_by r \<longleftrightarrow> (case r of Inl e \<Rightarrow> e = refused | Inr a \<Rightarrow> False)"

lemma refused_by_eq: "refused_by r \<longleftrightarrow> r = Inl refused"
  by (simp add: refused_by_def split: sum.splits)

section \<open>A pool of workers\<close>

definition sample_ask :: "str \<Rightarrow> int answer" where
  "sample_ask orgnr = ask_world (sample_world []) (\<lambda>n. False) orgnr"

lemma sample_detail: "fetch_body (sample_world counties) Src_Nsr (Nsr_Detail n) = Inr n"
proof -
  have "client_get Src_Nsr (sample_answers (Nsr_Detail n)) default_retry_delays 0 = (Inr n, 1)"
    by (subst client_get.simps) (simp add: ok_or_def)
  then show ?thesis by (simp add: fetch_body_def sample_world_def)
qed

lemma sample_ask_echoes: "sample_ask n = Answered u \<Longrightarrow> u_orgnr (fst u) = n"
  unfolding sample_ask_def ask_world_def nsr_unit_with_payload_def sample_detail
  by (auto simp: sample_world_def parse_unit_def decoded_def sample_dto_def nsr_timestamp_def non_empty_def opt_filter_def
      split: sum.splits)

end
