(* ===== verification/Run_Properties.thy ===== *)
theory Run_Properties
  imports Register_Samples
begin

text \<open>
  The properties of a whole run: what it asks the sources for, what its plan makes of the database, and what
  it leaves whichever way it ends.
\<close>

section \<open>The database and the specification\<close>



text \<open>C38 grades_out_of_order_stop_the_run: the database's checks are more than the specification's. A unit whose grades
  run from 7 to 1 is planned, the specification applies the plan, and the database refuses it, and with it
  the whole run.\<close>

theorem grades_out_of_order_stop_the_run:
  "outcome_applies grades_outcome \<and> apply_plan sample_loaded (applied grades_outcome) \<noteq> None
   \<and> apply_register_plan sample_env (applied grades_outcome) sample_moment sample_db = Inl refused"
proof (intro conjI)
  show "outcome_applies grades_outcome" by code_simp
  show "apply_plan sample_loaded (applied grades_outcome) \<noteq> None" by code_simp
  have "refused_by (apply_register_plan sample_env (applied grades_outcome) sample_moment sample_db)" by code_simp
  then show "apply_register_plan sample_env (applied grades_outcome) sample_moment sample_db = Inl refused"
    by (simp add: refused_by_eq)
qed

section \<open>Whole runs\<close>







section \<open>The sources\<close>

text \<open>C25 any_schedule_fetches_alike: whatever order the four workers take their steps in, the pool returns what asking for
  the units one after another returns, in the order of their numbers, or an error when one of them is not
  answered: no unit is lost, asked for twice or left out. The source answers a number with that number's unit.\<close>

theorem any_schedule_fetches_alike:
  assumes "sorted orgnrs" and "\<forall>n\<in>set orgnrs. \<forall>u. ask n = Answered u \<longrightarrow> u_orgnr (fst u) = n"
  shows "succeeded (details ask schedule orgnrs) = ask_in_turn ask orgnrs"
  using details_in_turn [OF assms] .

theorem any_schedule_fetches_alike_witness:
  "succeeded (details sample_ask [3, 1, 0, 3, 2] [lit ''974'', lit ''980'']) = ask_in_turn sample_ask [lit ''974'', lit ''980'']"
  by (rule any_schedule_fetches_alike) (auto simp: lit_def dest: sample_ask_echoes)

text \<open>C26 paging_is_complete: the list of units is taken only whole: it holds every number once and as many as the first
  page claimed.\<close>

theorem paging_is_complete:
  assumes "nsr_all_units W = Inr out"
  shows "distinct (map li_orgnr out) \<and> (\<exists>p. nsr_page W 1 = Inr p \<and> length out mod 2 ^ 32 = lp_total p)"
proof -
  have first: "[1..<Suc nsr_max_pages] \<noteq> [] \<and> hd [1..<Suc nsr_max_pages] = 1" by (simp add: nsr_max_pages_def)
  have "sorted_wrt (<) [1..<Suc nsr_max_pages]" by (rule strict_sorted_iff [THEN iffD2]) (simp del: upt_Suc)
  from nsr_pages_result [OF assms [unfolded nsr_all_units_def] _ this] obtain p where
    "distinct (map li_orgnr out)" "length out mod 2 ^ 32 = lp_total p"
    "\<exists>q. [1..<Suc nsr_max_pages] = q # tl [1..<Suc nsr_max_pages] \<and> nsr_page W q = Inr p"
    by (auto simp: unwrap_or_def simp del: upt_Suc)
  with first show ?thesis by (metis list.sel(1))
qed

definition sample_items :: "int nsr_list_item list" where
  "sample_items = (case nsr_all_units (sample_world []) of Inr items \<Rightarrow> items | Inl e \<Rightarrow> [])"

theorem paging_is_complete_witness: "distinct (map li_orgnr sample_items) \<and> map li_orgnr sample_items = [lit ''974111111'']"
proof -
  have items: "map li_orgnr sample_items = [lit ''974111111'']" by code_simp
  then have "nsr_all_units (sample_world []) = Inr sample_items" by (auto simp: sample_items_def split: sum.splits)
  from paging_is_complete [OF this] items show ?thesis by blast
qed

text \<open>The chunks are appended to the partial file, and nothing else is touched.\<close>

lemma write_chunks_result:
  assumes "write_chunks D f n chunks written fs = (r, fs')" "fs f = Some start" "written = length start"
  shows "(\<forall>g. g \<noteq> f \<longrightarrow> fs' g = fs g)
    \<and> (\<forall>m. r = Inr m \<longrightarrow> (\<exists>body. chunks = map Some body \<and> fs' f = Some (start @ concat body) \<and> m = length (start @ concat body)))"
  using assms
proof (induction D f n chunks written fs arbitrary: start rule: write_chunks.induct)
  case (3 D f n bs chunks written fs)
  show ?case
  proof (cases "dk_write D n")
    case True
    let ?fs = "fs(f := map_option (\<lambda>old. old @ bs) (fs f))"
    from True "3.prems"(1) have go: "write_chunks D f (Suc n) chunks (written + length bs) ?fs = (r, fs')" by simp
    have "?fs f = Some (start @ bs)" "written + length bs = length (start @ bs)" using "3.prems"(2,3) by simp_all
    from "3.IH" [OF True go this] have ih: "\<forall>g. g \<noteq> f \<longrightarrow> fs' g = fs g"
      "\<forall>m. r = Inr m \<longrightarrow> (\<exists>body. chunks = map Some body \<and> fs' f = Some ((start @ bs) @ concat body) \<and> m = length ((start @ bs) @ concat body))"
      by auto
    have "\<exists>body. Some bs # chunks = map Some body \<and> fs' f = Some (start @ concat body) \<and> m = length (start @ concat body)" if m: "r = Inr m" for m
    proof -
      from ih(2) m obtain body where "chunks = map Some body" "fs' f = Some ((start @ bs) @ concat body)" "m = length ((start @ bs) @ concat body)" by blast
      then show ?thesis by (intro exI [of _ "bs # body"]) simp
    qed
    with ih(1) show ?thesis by blast
  qed (use "3.prems" in auto)
qed (auto split: if_splits)

lemma partial_path_other: "partial_path dest \<noteq> dest"
  by (simp add: partial_path_def lit_def)

lemma download_result:
  assumes "download_brreg_bulk D dest (Download status chunks) fs = (r, fs')" "dk_remove D"
  shows "(case r of
      Inr n \<Rightarrow> (\<exists>body. chunks = map Some body \<and> fs' dest = Some (concat body) \<and> n = length (concat body))
        \<and> fs' (partial_path dest) = None
    | Inl e \<Rightarrow> fs' dest = fs dest \<and> fs' (partial_path dest) \<in> {None, fs (partial_path dest)})"
proof (cases "200 \<le> status \<and> status < 300 \<and> dk_create D")
  case False
  with assms partial_path_other [of dest] show ?thesis by (auto simp: Let_def split: if_splits)
next
  case True
  let ?f = "partial_path dest"
  obtain w d where w: "write_chunks D ?f 0 chunks 0 (fs(?f := Some [])) = (w, d)" by fastforce
  have "(fs(?f := Some [])) ?f = Some []" "0 = length ([] :: bytes)" by simp_all
  from write_chunks_result [OF w this] have kept: "d dest = fs dest"
    and all: "\<And>m. w = Inr m \<Longrightarrow> \<exists>body. chunks = map Some body \<and> d ?f = Some (concat body) \<and> m = length (concat body)"
    using partial_path_other [of dest] by auto
  show ?thesis
  proof (cases w)
    case (Inl e)
    with True w assms kept partial_path_other [of dest] show ?thesis by (auto simp: Let_def)
  next
    case (Inr m)
    with True w assms kept partial_path_other [of dest] all [OF Inr] show ?thesis
      by (auto simp: Let_def split: if_splits)
  qed
qed

text \<open>A download that succeeds leaves the file with every chunk in order and no
  partial file; one that fails leaves the file as it was, and, once begun, no partial file where it could be
  removed.\<close>

theorem the_bulk_file_is_whole_or_untouched:
  assumes "download_brreg_bulk D dest (Download status chunks) fs = (r, fs')" and "dk_remove D"
  shows "(case r of
      Inr n \<Rightarrow> (\<exists>body. chunks = map Some body \<and> fs' dest = Some (concat body) \<and> n = length (concat body))
        \<and> fs' (partial_path dest) = None
    | Inl e \<Rightarrow> fs' dest = fs dest \<and> fs' (partial_path dest) \<in> {None, fs (partial_path dest)})"
  using download_result [OF assms] .

section \<open>The export\<close>


end
