(* ===== verification/Spec2Isabelle.thy ===== *)
theory Spec2Isabelle
  imports Apply_Properties Sync_Samples Membership_Properties Directory_Properties Crypto_Properties Register_Properties Store_Properties Run_Properties
begin

text \<open>
  Verification development of the FAU portal backend (\<open>src/backend/crates\<close>). The program keeps a
  register of Norwegian schools in step with the public sources, lets parents' councils (FAU) run
  their memberships, and stores their content encrypted. The crates \<open>domain\<close>, \<open>crypto\<close> and the
  cache of \<open>keys\<close> hold its rules as pure functions; the crate \<open>persistence\<close> runs them inside the
  transactions of a PostgreSQL database; \<open>register-sources\<close> reads the public sources, and the register
  commands of \<open>app\<close> join the three into a run. All of these are modelled here.

  \<^bold>\<open>Theories and sources.\<close> Paths are under \<open>src/backend/crates/domain/src\<close> unless they say otherwise.

    \<^item> \<open>Fau_Prelude\<close>, \<open>Ordered_Map\<close>, \<open>Unicode_Text\<close>: strings as lists of code points, stable sorting,
      \<open>Option\<close> and \<open>Result\<close>, \<open>BTreeMap\<close> as a sorted association list and \<open>HashMap\<close> as a partial
      function (two interpretations of the locales \<open>lookup_map\<close> and \<open>ordered_map\<close>), and
      \<open>register/text.rs\<close>.
    \<^item> \<open>Slug\<close>, \<open>Search\<close>, \<open>Register_Source\<close>, \<open>Brreg\<close>: \<open>register/slug.rs\<close>, \<open>search.rs\<close> and
      \<open>sync/similarity.rs\<close> (with \<open>f32\<close>), \<open>source.rs\<close> and \<open>scope.rs\<close>, \<open>brreg.rs\<close>.
    \<^item> \<open>Sync_Types\<close>, \<open>Municipalities\<close>, \<open>Schools\<close>, \<open>Sync_Plan\<close>: \<open>register/sync/types.rs\<close>,
      \<open>municipalities.rs\<close>, \<open>schools.rs\<close>, \<open>mod.rs\<close>. A run normalises the units, plans the
      municipalities, hands their state to the school planner, tallies both and asks the breaker.
      The mutable locals of the two planners are the fields of \<open>mwork\<close>, \<open>sorting\<close>, \<open>placing\<close> and
      \<open>slug_book\<close>, which the loops thread with \<open>foldM\<close>.
    \<^item> \<open>Municipality_Facts\<close>, \<open>School_Facts\<close>, \<open>Slug_Book_Facts\<close>, \<open>Slug_Uniqueness\<close>, \<open>Plan_Facts\<close>: the
      planner's lemmas. In this order: municipalities are planned without a panic, touch only rows
      they may and keep numbers apart; the sorting and the placing keep \<open>sorting_ok\<close> and
      \<open>placing_ok\<close>; the slug book stays small, so every mint ends; the book holds every slug that is
      kept or given; and what follows for the operations of a plan.
    \<^item> \<open>Sync_Apply\<close>: \<open>register/sync/testkit.rs\<close>, \<open>apply\<close> and \<open>check_invariants\<close>, the executable
      specification the SQL applier is tested against: ids for the new rows, the operations one by one
      with the database's rules checked after each, then the successors. \<open>Apply_Municipalities\<close>,
      \<open>Apply_Schools\<close> and \<open>Apply_Plan\<close> show that it accepts what the planner returns: the rows written
      follow the planner's map of municipalities (\<open>rows_match\<close>), the slugs of the rows stay inside the
      triples of \<open>Slug_Uniqueness\<close> (\<open>fitting\<close>), and the registers built by runs (\<open>built\<close>) stay valid.
    \<^item> \<open>Access\<close>, \<open>Vocabulary\<close>, \<open>Membership_Rules\<close>, \<open>Acceptance\<close>, \<open>Authz\<close>, \<open>Email\<close>: \<open>membership/\<close>
      (\<open>access.rs\<close>, \<open>period.rs\<close>, \<open>vocabulary.rs\<close>, \<open>rules.rs\<close>, \<open>retention.rs\<close>, \<open>requests.rs\<close>,
      \<open>acceptance.rs\<close>), \<open>authz.rs\<close> and \<open>email.rs\<close>. The locale \<open>dated_right\<close> is the contract of a right
      with a period, \<open>coded\<close> that of an enumeration with a stored code.
    \<^item> \<open>Addresses\<close>, \<open>History\<close>, \<open>Listing\<close>: \<open>directory/address.rs\<close>, \<open>history.rs\<close>, \<open>listing.rs\<close>.
    \<^item> \<open>Crypto\<close>, \<open>Key_Cache\<close>: \<open>crypto/src/unit.rs\<close>, \<open>envelope.rs\<close>, \<open>error.rs\<close>; \<open>keys/src/cache.rs\<close>,
      \<open>data_key.rs\<close>.
    \<^item> \<open>Store_Types\<close>, \<open>Store_Sql\<close>, \<open>Store_Groups\<close>, \<open>Store_Profiles\<close>, \<open>Store_Invitations\<close>,
      \<open>Store_Acceptance\<close>, \<open>Store_Requests\<close>, \<open>Store_Signup\<close>, \<open>Store_Roles\<close>: \<open>persistence/src/membership\<close>.
      A record of tables, one row record each, and one function per transaction of \<open>sql.rs\<close>,
      \<open>access.rs\<close>, \<open>authz.rs\<close>, \<open>groups.rs\<close>, \<open>profile.rs\<close>, \<open>retention.rs\<close>, \<open>names.rs\<close>, \<open>token.rs\<close>,
      \<open>invitations.rs\<close>, \<open>requests.rs\<close>, \<open>signup.rs\<close>, \<open>roles.rs\<close> and \<open>handover.rs\<close>, with the checks, keys
      and triggers of the migrations on every write.
    \<^item> \<open>Store_Rules\<close>: the statements the transactions are made of, as the locales \<open>settling\<close>, \<open>seating\<close>,
      \<open>tenant_writes\<close> and \<open>statements\<close>: whatever the statements keep, every transaction keeps.
      \<open>Store_Steps\<close> collects the transactions in \<open>tenant_step\<close> and \<open>store_step\<close> and lifts the contract to
      runs. \<open>Store_Isolation\<close>, \<open>Store_Invariant\<close>, \<open>Store_References\<close> and \<open>Store_History\<close> interpret it:
      other tenants are untouched, the store stays consistent (\<open>store_ok\<close>: the keys and row checks of
      \<open>tables_ok\<close> and the foreign keys of \<open>links_ok\<close>), and history is kept. A statement that stores a token's
      hash owes the contract only for a token drawn while the predicate held (\<open>drawn_while\<close>), so that a
      hash no token can have any more (\<open>spent\<close> in \<open>Store_Admission\<close>) stays without an invitation.
    \<^item> \<open>Store_Revocation\<close>, \<open>Store_Admission\<close>, \<open>Store_Authority\<close>: what revoking and accepting do to the
      tables, the last-admin safeguard over the store, and who may act. \<open>Store_Samples\<close> is a small
      store for the witnesses of \<open>Store_Properties\<close>.
    \<^item> \<open>Register_Db\<close>, \<open>Register_Load\<close>, \<open>Register_Applier\<close>, \<open>Register_Runs\<close>: \<open>persistence/src/register\<close>,
      the register's tables (\<open>register_db\<close>) with the checks, keys and references of the migrations on
      every statement; \<open>snapshot.rs\<close> and \<open>export.rs\<close>; the SQL applier (\<open>apply.rs\<close>, \<open>school_ops.rs\<close>,
      \<open>reviews.rs\<close>); the run rows, audit, mail and staged payloads (\<open>runs.rs\<close>, \<open>staging.rs\<close>).
    \<^item> \<open>Source_Clients\<close>: \<open>register-sources/src\<close>, requests with retries, paging, the conversion of what
      the JSON decoder returns, the stream of FAU entities, and the bulk download over a small file system.
    \<^item> \<open>Register_Fetch\<close>, \<open>Register_Sync\<close>, \<open>Register_Report\<close>: \<open>app/src/register\<close>. The pool of four workers
      is a state (\<open>pool\<close>) and a step per worker, run under any schedule; \<open>sync\<close> is a run from connecting to
      its exit; the report is the JSON of a dry run and the CSV of the export.
    \<^item> \<open>Fetch_Properties\<close>, \<open>Sync_Run_Facts\<close>: the pool ends and loses no unit; what a run keeps, and the row
      it leaves. \<open>Refinement_Rows\<close>, \<open>Register_Refinement\<close>, \<open>School_Refinement\<close>: each SQL operation
      implements the specification's operation on the loaded register, and so does a whole plan.
    \<^item> \<open>Samples\<close>, \<open>Sync_Samples\<close>, \<open>Register_Samples\<close>: inputs for the witnesses. \<open>Register_Properties\<close>,
      \<open>Membership_Properties\<close>, \<open>Directory_Properties\<close>, \<open>Crypto_Properties\<close>,
      \<open>Apply_Properties\<close>, \<open>Store_Properties\<close>, \<open>Run_Properties\<close> and this theory: the
      properties C1 to C40, each followed by its witness.

  \<^bold>\<open>Conventions.\<close> A panic (\<open>expect\<close>, indexing, an overflowing conversion) is \<open>None\<close>; \<open>Result\<close> is a sum
  with the error left. Row ids, instants and dates are type parameters, ordered where the code
  orders them. Third-party code is a parameter: the Unicode tables (\<open>ucd\<close>), \<open>jiff\<close> (records \<open>jiff\<close>,
  \<open>calendar\<close>, \<open>day_ops\<close>), ICU collation (a comparison), \<open>uuid\<close> (\<open>uuid_ops\<close>) and the cipher (\<open>aead\<close>).
  Hypotheses on them (\<open>aead_ok\<close>, \<open>uuid_ops_ok\<close>, \<open>total_preorder\<close>) state their documented behaviour.

  \<^bold>\<open>The store.\<close> A transaction of one tenant takes the tenant's lock first, so the transactions of a tenant are
  serial; \<open>create_pending_tenant\<close>, \<open>expire_due\<close> and \<open>lapse_requests\<close> take row or advisory locks only and are
  modelled as serial too. Each transaction is a function from the store to an error (\<open>Inl\<close>, the rollback, which leaves nothing
  behind) or the new store. Sweeps over tenants commit tenant by tenant. \<open>now_v7\<close>, \<open>random\<close> and the
  rows of \<open>gen_random_uuid\<close> are drawn from \<open>env_uuid\<close> and \<open>env_random\<close> by a counter; nothing is assumed
  of them, a collision is the database's refusal (only \<open>resent_invitations_change_token\<close> asks that no later
  token hashes to the old token's hash). A tenant's school refers to the register's
  tables, and a recovery contact's nominator is a column the model leaves out: neither is in \<open>links_ok\<close>. Enumerations are stored as their constructors (the
  code tables of \<open>Vocabulary\<close> are bijections). Instants are at the resolution of the column. Texts
  compare by code point. The audit log, the outbox and the notices are lists in order of writing;
  rows without an \<open>order by\<close> come in order of insertion. A join on an account or a role that the
  foreign keys guarantee drops the row when it is missing.

  \<^bold>\<open>A run.\<close> \<open>sync_env\<close> holds what a run meets: the sources' answers to each attempt of a request, the
  workers' schedule, a possible fault of each database phase, the answer to the commit (which may be lost
  after it took effect, \<open>commit_in_doubt\<close>), and what others write between the run's row and its
  transaction (\<open>sy_meanwhile\<close>). The statements inside the apply transaction fail by the database's own rules;
  any other fault of that transaction is one of its phase. The schedule is arbitrary and followed by enough
  rounds of all workers (\<open>enough_rounds\<close>: three steps for each unit and two for a worker's end), so the pool
  ends under every schedule. The refinement compares municipalities and schools as the planner reads them
  (\<open>register_view\<close>); the specification's slug histories have no dates and are left out of it. It asks of
  the plan what the planner gives: name priorities within \<open>u8\<close>, and renames that keep a slug name the slug in
  use (\<open>renames_fit\<close>).

  \<^bold>\<open>Bounds.\<close> \<open>Ref::New\<close> and the collision counter are \<open>u32\<close>. Each taken slug can refuse one candidate
  of the collision search, and a run takes at most one slug per row, three per continuing unit and
  one per candidate; so with at most \<open>2 ^ 32 - 3\<close> rows and four times the units neither overflows,
  which is the hypothesis of \<open>plan_never_panics\<close>. The applier's row ids are \<open>u32\<close> too: a plan needs one
  per create.

  \<^bold>\<open>Not modelled.\<close> Of \<open>persistence\<close>: connections, migrations and health, \<open>membership/events.rs\<close>,
  \<open>directory.rs\<close> and \<open>export.rs\<close>. Of \<open>register-sources\<close>: building the HTTP client and its addresses. Of
  \<open>app\<close>: everything but the register commands, HTTP routing, sessions, configuration and telemetry.
  \<open>keys/src/client.rs\<close>, log lines and \<open>Debug\<close> output. Their behaviour is that of the database, the network
  and the libraries. \<open>error_code.rs\<close> only names codes. The developer tool under \<open>.agents\<close> is no part
  of the product.
\<close>

section \<open>The sync plan\<close>

text \<open>C1 plan_slugs_unique: an applied plan never gives one slug to two schools of a
  municipality: among the slugs its creates, renames and moves write and the slugs of every school
  it does not close, a slug names one school. Closed schools' slugs may be inherited.\<close>

theorem plan_slugs_unique:
  assumes "snapshot_ok snapshot" "plan_with u j snapshot inp brk = Some (Apply pln)"
    and "(m, slug, h) \<in> all_gives snapshot (p_school_ops pln)
      \<union> kept_triples snapshot {s. s_id s \<in> closed_ids (p_school_ops pln)}"
    and "(m, slug, h') \<in> all_gives snapshot (p_school_ops pln)
      \<union> kept_triples snapshot {s. s_id s \<in> closed_ids (p_school_ops pln)}"
  shows "h = h'"
  using assms(2)
proof (rule plan_applyE)
  let ?inp = "inp\<lparr>in_units := normalise_units (in_units inp)\<rparr>"
  fix mp sp
  assume sp: "plan_schools u j snapshot ?inp (mpl_state mp) = Some sp" and ops: "p_school_ops pln = spl_ops sp"
  let ?so = "sort_units j snapshot ?inp (mpl_state mp)"
  have "distinct (map u_orgnr (in_units ?inp))" by (simp add: normalise_units_distinct)
  from plan_schools_holds [OF assms(1) this sp] obtain b where
    b: "book_holds b (kept_triples snapshot (cg_school ` set (so_closings ?so)) \<union> all_gives snapshot (spl_ops sp))" by blast
  have "kept_triples snapshot {s. s_id s \<in> closed_ids (spl_ops sp)} \<subseteq> kept_triples snapshot (cg_school ` set (so_closings ?so))"
    using plan_closed_ids [OF sp] unfolding kept_triples_def by fastforce
  with assms(3,4) show "h = h'" by (intro book_holds_functional [OF b]) (auto simp: ops)
qed

theorem plan_slugs_unique_witness:
  "{h. (Existing 1, lit ''hosle-skole'', h) \<in> all_gives sample_snapshot (p_school_ops sample_plan)} = {New 0}"
proof -
  have "snapshot_ok sample_snapshot" by code_simp
  from plan_slugs_unique [OF this sample_planned] sample_plan_facts(1) show ?thesis by blast
qed

text \<open>C20 plan_never_panics: below the bound on rows and units no conversion overflows, the slug search
  ends and every candidate is placed: the planner returns an outcome.\<close>

theorem plan_never_panics:
  assumes "length (schools snapshot) + length (school_slug_history snapshot) + 4 * length (in_units inp) \<le> 2 ^ 32 - 3"
  shows "\<exists>outcome. plan_with u j snapshot inp brk = Some outcome"
proof -
  let ?inp = "inp\<lparr>in_units := normalise_units (in_units inp)\<rparr>"
  obtain mp where mp: "plan_municipalities u snapshot ?inp = Some mp" using plan_municipalities_total_aux by blast
  have "distinct (map u_orgnr (in_units ?inp))" by (simp add: normalise_units_distinct)
  moreover have "length (schools snapshot) + length (school_slug_history snapshot) + 4 * length (in_units ?inp) \<le> 2 ^ 32 - 3"
    using assms normalise_units_length [of "in_units inp"] by simp
  ultimately obtain sp where sp: "plan_schools u j snapshot ?inp (mpl_state mp) = Some sp"
    using plan_schools_total_aux by blast
  show ?thesis by (simp add: plan_with_def mp sp Let_def)
qed

theorem plan_never_panics_witness:
  "\<exists>outcome. plan_with sample_ucd sample_jiff sample_snapshot (sample_inputs Sync sample_units) Enforce = Some outcome"
  by (rule plan_never_panics) code_simp

text \<open>C19 plan_closes_safely: a close names an open, accepted school without a live FAU whose unit the
  source lists as inactive or out of scope. Without a successor its reason and date are the
  source's; with one it is a merge into a school this plan creates in the same municipality,
  listed, under the closed school's slug.\<close>

theorem plan_closes_safely:
  assumes "plan_with u j snapshot inp brk = Some (Apply pln)" "Close i r d successor \<in> set (p_school_ops pln)"
  shows "\<exists>s un. s \<in> set (schools snapshot) \<and> s_id s = i \<and> s_status s = School_Active \<and> s_verification s \<in> {Listed, Verified}
    \<and> \<not> s_has_live_fau s
    \<and> un \<in> set (in_units inp) \<and> s_orgnr s = Some (u_orgnr un)
    \<and> (\<not> u_is_active un \<or> \<not> effective_in_scope (classify (scope_facts un) = In_Scope) (s_scope_override s))
    \<and> (case successor of
         None \<Rightarrow> (r, d) = closure_facts j un (in_at inp)
       | Some h \<Rightarrow> r = Merged \<and> reregistrable un
           \<and> (\<exists>n orgnr name slug attrs changed. h = New n \<and> (s_slug s \<noteq> None \<longrightarrow> slug = s_slug s)
                \<and> School_Create n (Existing (s_municipality_id s)) orgnr name name slug Create_Listed True attrs changed
                  \<in> set (p_school_ops pln)))"
  using assms(1)
proof (rule plan_applyE)
  let ?inp = "inp\<lparr>in_units := normalise_units (in_units inp)\<rparr>"
  fix mp sp
  assume sp: "plan_schools u j snapshot ?inp (mpl_state mp) = Some sp" and ops: "p_school_ops pln = spl_ops sp"
  from plan_close [OF sp assms(2) [unfolded ops]] obtain s un where
    un: "un \<in> set (in_units ?inp)" "changeable snapshot (mpl_state mp) un s" "s_id s = i"
      "gone_from_register un s" "\<not> s_has_live_fau s"
    and rest': "(successor = None \<and> (r, d) = closure_facts j un (in_at ?inp))
       \<or> (\<exists>n orgnr name slug. successor = Some (New n) \<and> r = Merged \<and> reregistrable un
            \<and> (s_slug s \<noteq> None \<longrightarrow> slug = s_slug s)
            \<and> (\<exists>attrs changed. School_Create n (Existing (s_municipality_id s)) orgnr name name slug Create_Listed True attrs changed
                \<in> set (spl_ops sp)))"
    by blast
  have rest: "(successor = None \<and> (r, d) = closure_facts j un (in_at inp))
       \<or> (\<exists>n orgnr name slug. successor = Some (New n) \<and> r = Merged \<and> reregistrable un
            \<and> (s_slug s \<noteq> None \<longrightarrow> slug = s_slug s)
            \<and> (\<exists>attrs changed. School_Create n (Existing (s_municipality_id s)) orgnr name name slug Create_Listed True attrs changed
                \<in> set (spl_ops sp)))"
    using rest' by simp
  from un(1) normalise_units_set have "un \<in> set (in_units inp)" by auto
  moreover have "case successor of
         None \<Rightarrow> (r, d) = closure_facts j un (in_at inp)
       | Some h \<Rightarrow> r = Merged \<and> reregistrable un
           \<and> (\<exists>n orgnr name slug attrs changed. h = New n \<and> (s_slug s \<noteq> None \<longrightarrow> slug = s_slug s)
                \<and> School_Create n (Existing (s_municipality_id s)) orgnr name name slug Create_Listed True attrs changed
                  \<in> set (p_school_ops pln))"
    unfolding ops using rest by (elim disjE exE conjE, simp_all only: option.case) blast
  ultimately show ?thesis
    using un(2-5) unfolding changeable_def gone_from_register_def by blast
qed

theorem plan_closes_safely_witness:
  "\<exists>s un. s \<in> set (schools sample_snapshot) \<and> s_id s = 10 \<and> \<not> s_has_live_fau s \<and> un \<in> set sample_units \<and> reregistrable un"
  using plan_closes_safely [OF sample_planned sample_plan_facts(2)] by (auto simp: sample_inputs_def)

text \<open>No two closed schools are merged into the same new school.\<close>

theorem successors_are_unique:
  assumes "plan_with u j snapshot inp brk = Some (Apply pln)"
  shows "distinct (map cl_successor (filter is_merge (p_school_ops pln)))"
  using assms
proof (rule plan_applyE)
  fix mp sp
  assume "plan_schools u j snapshot (inp\<lparr>in_units := normalise_units (in_units inp)\<rparr>) (mpl_state mp) = Some sp"
    and "p_school_ops pln = spl_ops sp"
  then show ?thesis using plan_successors_distinct by metis
qed

text \<open>C28 plan_changes_open_schools: every rename, update and move is of an open, accepted school whose
  unit is active and in scope, and writes the unit's own values: its name, also as the display name unless that
  is curated, its attributes, and the municipality its number names once the run's municipality operations are
  made. It changes something, a rename leaves a curated school's slug alone, and a move gives a slug exactly to
  a school that has one.\<close>

theorem plan_changes_open_schools:
  assumes "plan_with u j snapshot inp brk = Some (Apply pln)" "op \<in> set (p_school_ops pln)"
    and "\<not> is_create op" "\<not> is_close op"
  shows "\<exists>s un mp. s \<in> set (schools snapshot) \<and> s_status s = School_Active \<and> s_verification s \<in> {Listed, Verified}
    \<and> un \<in> set (in_units inp) \<and> s_orgnr s = Some (u_orgnr un) \<and> u_is_active un
    \<and> effective_in_scope (classify (scope_facts un) = In_Scope) (s_scope_override s)
    \<and> plan_municipalities u snapshot (inp\<lparr>in_units := normalise_units (in_units inp)\<rparr>) = Some mp
    \<and> p_municipality_ops pln = mpl_ops mp \<and> writes_unit (mpl_state mp) s un op"
  using assms(1)
proof (rule plan_applyE)
  let ?inp = "inp\<lparr>in_units := normalise_units (in_units inp)\<rparr>"
  fix mp sp
  assume mp: "plan_municipalities u snapshot ?inp = Some mp" "p_municipality_ops pln = mpl_ops mp"
    and sp: "plan_schools u j snapshot ?inp (mpl_state mp) = Some sp" and ops: "p_school_ops pln = spl_ops sp"
  have "\<And>i r d sc. op \<noteq> Close i r d sc" using assms(4) by (auto simp: is_close_def)
  from plan_change [OF sp assms(2) [unfolded ops] assms(3) this] obtain s un where
    un: "un \<in> set (in_units ?inp)" "changeable snapshot (mpl_state mp) un s" "\<not> gone_from_register un s"
      "writes_unit (mpl_state mp) s un op" by blast
  moreover from un(1) normalise_units_set have "un \<in> set (in_units inp)" by auto
  ultimately show ?thesis using mp unfolding changeable_def gone_from_register_def
    by (intro exI [of _ s] exI [of _ un] exI [of _ mp]) simp
qed

theorem plan_changes_open_schools_witness:
  "\<exists>s un. s \<in> set (schools sample_snapshot) \<and> s_id s = 11 \<and> un \<in> set sample_units \<and> u_is_active un"
proof -
  from sample_plan_facts(3) obtain op where "op \<in> set (p_school_ops sample_plan)" "\<not> is_create op" "\<not> is_close op" "o_id op = 11"
    by blast
  from plan_changes_open_schools [OF sample_planned this(1-3)] this(4) show ?thesis
    by (fastforce simp: sample_inputs_def writes_unit_def split: school_op.splits)
qed

text \<open>C29 plan_creates_unheld_units: the creates are numbered from 0 in order, and each is for a unit in
  scope that no school holds and no closed school held; a held create has no slug.\<close>

theorem plan_creates_unheld_units:
  assumes "plan_with u j snapshot inp brk = Some (Apply pln)"
  shows "map c_new (filter is_create (p_school_ops pln)) = [0..<length (filter is_create (p_school_ops pln))]
    \<and> (\<forall>op\<in>set (filter is_create (p_school_ops pln)). \<exists>un\<in>set (in_units inp).
        c_orgnr op = u_orgnr un \<and> c_register_name op = u_name un \<and> classify (scope_facts un) = In_Scope
        \<and> (\<forall>s\<in>set (schools snapshot). s_orgnr s \<noteq> Some (u_orgnr un))
        \<and> u_orgnr un \<notin> set (map fst (school_orgnr_history snapshot))
        \<and> (c_verification op = Create_Held \<longrightarrow> c_slug op = None))"
  using assms
proof (rule plan_applyE)
  let ?inp = "inp\<lparr>in_units := normalise_units (in_units inp)\<rparr>"
  fix mp sp
  assume sp: "plan_schools u j snapshot ?inp (mpl_state mp) = Some sp" and ops: "p_school_ops pln = spl_ops sp"
  have in_inp: "un \<in> set (in_units inp)" if "un \<in> set (in_units ?inp)" for un
    using that normalise_units_set by auto
  from plan_creates [OF sp] show ?thesis unfolding ops using unheld_orgnr in_inp by (elim exE conjE) (simp, blast)
qed

theorem plan_creates_unheld_units_witness:
  "map c_new (filter is_create (p_school_ops sample_plan)) = [0, 1]"
  using plan_creates_unheld_units [OF sample_planned] sample_plan_facts(4) by (simp add: upt_rec)

text \<open>C27 unit_order_is_irrelevant: the outcome depends on the units only through the first one given for each
  organisation number: neither the order of units of different numbers nor a later unit of a number already
  given makes any difference.\<close>

theorem unit_order_is_irrelevant:
  assumes "\<And>n. List.find (\<lambda>x. u_orgnr x = n) us = List.find (\<lambda>x. u_orgnr x = n) vs"
  shows "plan_with u j snapshot (inp\<lparr>in_units := us\<rparr>) brk = plan_with u j snapshot (inp\<lparr>in_units := vs\<rparr>) brk"
proof -
  have same: "normalise_units us = normalise_units vs" by (rule normalise_units_first [OF assms])
  then have "us = [] \<longleftrightarrow> vs = []" by (metis normalise_units_Nil)
  with same show ?thesis by (simp add: plan_with_def)
qed

lemma find_doubled: "List.find p (xs @ rev xs) = List.find p xs"
proof -
  have "List.find p (xs @ ys) = (case List.find p xs of None \<Rightarrow> List.find p ys | Some x \<Rightarrow> Some x)" for ys
    by (induction xs) simp_all
  moreover have "List.find p (rev xs) = None" if "List.find p xs = None"
    using that by (simp add: find_None_iff)
  ultimately show ?thesis by (cases "List.find p xs") simp_all
qed

theorem unit_order_is_irrelevant_witness:
  "plan_with sample_ucd sample_jiff sample_snapshot (sample_inputs Sync (sample_units @ rev sample_units)) Accept = Some (Apply sample_plan)"
proof -
  let ?inp = "sample_inputs Sync sample_units"
  have "plan_with sample_ucd sample_jiff sample_snapshot (?inp\<lparr>in_units := sample_units @ rev sample_units\<rparr>) Accept
      = plan_with sample_ucd sample_jiff sample_snapshot (?inp\<lparr>in_units := sample_units\<rparr>) Accept"
    by (rule unit_order_is_irrelevant) (rule find_doubled)
  then show ?thesis using sample_planned by (simp add: sample_inputs_def)
qed

text \<open>C24 enforced_plan_is_small: a plan of an ordinary sync run closes at most 2 %, renames at most 5 %
  and blanks a field of at most 5 % of the active schools, when there are any.\<close>

theorem enforced_plan_is_small:
  assumes "plan u j snapshot inp = Some (Apply pln)" "in_kind inp = Sync" "0 < active_schools snapshot"
  shows "length (filter is_close (p_school_ops pln)) * 100 \<le> active_schools snapshot * 2
    \<and> length (filter is_school_rename (p_school_ops pln)) * 100 \<le> active_schools snapshot * 5
    \<and> attribute_losses snapshot (p_school_ops pln) * 100 \<le> active_schools snapshot * 5"
  using assms(1) unfolding plan_def
proof (rule plan_applyE)
  fix mp sp
  assume ops: "p_school_ops pln = spl_ops sp"
    and c: "p_counts pln = (tally (mpl_ops mp) (spl_ops sp) (length (p_reviews pln)) (spl_skipped sp))
              \<lparr>n_attribute_losses := attribute_losses snapshot (spl_ops sp)\<rparr>"
    and m: "in_kind inp = Sync \<Longrightarrow> Enforce = Enforce \<Longrightarrow> mass_change snapshot (p_counts pln) = None"
  from m [OF assms(2) refl] assms(3) show ?thesis
    unfolding ops by (simp add: c mass_change_def Let_def tally_counts split: if_splits)
qed

theorem enforced_plan_is_small_witness:
  "length (filter is_close (p_school_ops quiet_plan)) * 100 \<le> 4 \<and> 0 < length (p_school_ops quiet_plan)"
proof -
  have "active_schools sample_snapshot = 2" by code_simp
  with enforced_plan_is_small [OF quiet_planned(1)] quiet_planned(2) show ?thesis by (simp add: sample_inputs_def)
qed

text \<open>C23 accepting_only_lifts_the_breaker: accepting a mass change returns the plan the breaker
  stopped, with the counts that tripped it; every other outcome, panics and empty sources
  included, is unchanged.\<close>

theorem accepting_only_lifts_the_breaker:
  "case plan u j snapshot inp of
     Some (Abort (Mass_Change closes renames losses active) c) \<Rightarrow>
       (\<exists>pln. plan_accepting_mass_change u j snapshot inp = Some (Apply pln) \<and> p_counts pln = c
          \<and> mass_change snapshot c = Some (Mass_Change closes renames losses active))
   | r \<Rightarrow> plan_accepting_mass_change u j snapshot inp = r"
proof (cases "in_municipalities inp = [] \<or> in_units inp = []")
  case True
  then show ?thesis by (auto simp: plan_def plan_accepting_mass_change_def plan_with_def)
next
  case False
  let ?inp = "inp\<lparr>in_units := normalise_units (in_units inp)\<rparr>"
  consider (m) "plan_municipalities u snapshot ?inp = None" |
    (s) mp where "plan_municipalities u snapshot ?inp = Some mp" "plan_schools u j snapshot ?inp (mpl_state mp) = None" |
    (b) mp sp where "plan_municipalities u snapshot ?inp = Some mp" "plan_schools u j snapshot ?inp (mpl_state mp) = Some sp"
    by fastforce
  then show ?thesis
  proof cases
    case m
    with False show ?thesis by (simp add: plan_def plan_accepting_mass_change_def plan_with_def)
  next
    case s
    with False show ?thesis by (simp add: plan_def plan_accepting_mass_change_def plan_with_def)
  next
    case b
    let ?c = "run_counts snapshot mp sp"
    define acc where "acc = (if mpl_ops mp = [] \<and> spl_ops sp = [] \<and> mpl_reviews mp @ spl_reviews sp = [] then No_Change
       else Apply \<lparr>p_municipality_ops = mpl_ops mp, p_school_ops = spl_ops sp,
               p_reviews = mpl_reviews mp @ spl_reviews sp, p_counts = ?c\<rparr>)"
    have ne: "in_municipalities inp \<noteq> []" "in_units inp \<noteq> []" using False by auto
    note eq = plan_with_eq [OF ne b, folded acc_def]
    have a: "plan_accepting_mass_change u j snapshot inp = Some acc"
      unfolding plan_accepting_mass_change_def eq by simp
    have p: "plan u j snapshot inp = Some (case if in_kind inp = Sync then mass_change snapshot ?c else None of
        Some reason \<Rightarrow> Abort reason ?c | None \<Rightarrow> acc)"
      unfolding plan_def eq by simp
    show ?thesis
    proof (cases "if in_kind inp = Sync then mass_change snapshot ?c else None")
      case None
      with a p show ?thesis by (simp add: acc_def)
    next
      case (Some r)
      then have r: "mass_change snapshot ?c = Some r" by (simp split: if_splits)
      have "spl_ops sp \<noteq> []"
        using mass_change_counts [OF r] by (auto simp: run_counts_def tally_counts attribute_losses_def)
      then have "acc = Apply \<lparr>p_municipality_ops = mpl_ops mp, p_school_ops = spl_ops sp,
               p_reviews = mpl_reviews mp @ spl_reviews sp, p_counts = ?c\<rparr>" by (simp add: acc_def)
      moreover obtain cl re lo ac where "r = Mass_Change cl re lo ac"
        using r by (auto simp: mass_change_def Let_def split: if_splits)
      ultimately show ?thesis using a p Some r by simp
    qed
  qed
qed

text \<open>The counts of a plan are the numbers of its operations of each
  kind and of its review items.\<close>

theorem counts_count_the_operations:
  assumes "plan_with u j snapshot inp brk = Some (Apply pln)"
  shows "n_schools_closed (p_counts pln) = length (filter is_close (p_school_ops pln))
    \<and> n_schools_renamed (p_counts pln) = length (filter is_school_rename (p_school_ops pln))
    \<and> n_schools_updated (p_counts pln) = length (filter is_update (p_school_ops pln))
    \<and> n_schools_moved (p_counts pln) = length (filter is_move (p_school_ops pln))
    \<and> n_schools_held (p_counts pln) = length (filter creates_held (p_school_ops pln))
    \<and> n_schools_created (p_counts pln) = length (filter creates_listed (p_school_ops pln))
    \<and> n_reviews (p_counts pln) = length (p_reviews pln)"
  using assms
proof (rule plan_applyE)
  fix mp sp
  assume ops: "p_school_ops pln = spl_ops sp"
    and c: "p_counts pln = (tally (mpl_ops mp) (spl_ops sp) (length (p_reviews pln)) (spl_skipped sp))
              \<lparr>n_attribute_losses := attribute_losses snapshot (spl_ops sp)\<rparr>"
  show ?thesis by (simp add: ops c tally_counts)
qed

text \<open>C30 municipality_operations_are_safe: municipality operations touch only active municipalities
  whose source is Kartverket; numbers written have four characters and begin their slugs.\<close>

theorem municipality_operations_are_safe:
  assumes "plan_with u j snapshot inp brk = Some (Apply pln)" "op \<in> set (p_municipality_ops pln)"
  shows "mop_ok (municipalities snapshot) op"
  using assms(1)
proof (rule plan_applyE)
  fix mp
  assume "plan_municipalities u snapshot (inp\<lparr>in_units := normalise_units (in_units inp)\<rparr>) = Some mp"
    "p_municipality_ops pln = mpl_ops mp"
  with plan_municipalities_ops_aux assms(2) show ?thesis by metis
qed

theorem municipality_operations_are_safe_witness:
  "length (p_municipality_ops sample_plan) = 2 \<and> list_all (mop_ok (municipalities sample_snapshot)) (p_municipality_ops sample_plan)"
  using municipality_operations_are_safe [OF sample_planned] sample_plan_facts(5) by (simp add: list_all_iff)

end
